(* ===== verification/Prelude.thy ===== *)
theory Prelude
  imports Main "HOL-Library.Finite_Map" "HOL-Library.List_Lexorder" "HOL-Library.Sublist"
    "HOL-Library.Code_Target_Numeral"
begin

text \<open>
  Shared ground of the development: Rust strings, the machine integers the bridge
  computes with, the maps and sets it keeps, and the state-machine locale the
  component theories interpret.

  \<^item> A Rust \<open>String\<close> is the list of its Unicode scalar values (\<open>rstr\<close>). The
    lexicographic order on these lists is the byte order of the UTF-8 encodings, so it is
    the order \<open>BTreeMap\<open>String, _\<close>\<close> iterates in.
  \<^item> \<open>u64\<close>, \<open>u32\<close>, \<open>usize\<close> (64 bit) values are \<open>nat\<close>, \<open>i64\<close> values are
    \<open>int\<close>; where the code saturates, wraps or checks, the operation does so explicitly.
  \<^item> \<open>BTreeMap\<close> and \<open>HashMap\<close> are finite maps (\<open>fmap\<close>), \<open>BTreeSet\<close> is
    \<open>fset\<close>. Where the code walks a map the walk is in key order.
\<close>

section \<open>Collections of rewrite rules\<close>

named_theorems cmp_defs "constants and small definitions of the modelled code"
named_theorems frame "fields an operation leaves alone"

section \<open>Rust strings\<close>

type_synonym rchar = nat
type_synonym rstr = "rchar list"

definition lit :: "string \<Rightarrow> rstr" where
  "lit s = map of_char s"

definition utf8_width :: "rchar \<Rightarrow> nat" where
  "utf8_width c = (if c < 0x80 then 1 else if c < 0x800 then 2 else if c < 0x10000 then 3 else 4)"

definition str_len :: "rstr \<Rightarrow> nat" where
  "str_len s = sum_list (map utf8_width s)"

definition is_control :: "rchar \<Rightarrow> bool" where
  "is_control c \<longleftrightarrow> c < 32 \<or> (127 \<le> c \<and> c < 160)"

definition is_ascii_digit :: "rchar \<Rightarrow> bool" where
  "is_ascii_digit c \<longleftrightarrow> 48 \<le> c \<and> c \<le> 57"

definition is_ascii_alphanumeric :: "rchar \<Rightarrow> bool" where
  "is_ascii_alphanumeric c \<longleftrightarrow>
     is_ascii_digit c \<or> (65 \<le> c \<and> c \<le> 90) \<or> (97 \<le> c \<and> c \<le> 122)"

definition ascii_lower :: "rchar \<Rightarrow> rchar" where
  "ascii_lower c = (if 65 \<le> c \<and> c \<le> 90 then c + 32 else c)"

definition to_ascii_lowercase :: "rstr \<Rightarrow> rstr" where
  "to_ascii_lowercase s = map ascii_lower s"

text \<open>\<open>str::split(sep)\<close>: the empty string has one (empty) part.\<close>

fun split_on :: "rchar \<Rightarrow> rstr \<Rightarrow> rstr list" where
  "split_on c [] = [[]]"
| "split_on c (x # xs) =
     (if x = c then [] # split_on c xs
      else (case split_on c xs of [] \<Rightarrow> [[x]] | p # ps \<Rightarrow> (x # p) # ps))"

fun join_with :: "rchar \<Rightarrow> rstr list \<Rightarrow> rstr" where
  "join_with c [] = []"
| "join_with c [p] = p"
| "join_with c (p # ps) = p @ c # join_with c ps"

definition trim_matches :: "(rchar \<Rightarrow> bool) \<Rightarrow> rstr \<Rightarrow> rstr" where
  "trim_matches P s = rev (dropWhile P (rev (dropWhile P s)))"

text \<open>Decimal digits of a number, as \<open>format!\<close> prints it.\<close>

fun decimal :: "nat \<Rightarrow> rstr" where
  "decimal n = (if n < 10 then [48 + n] else decimal (n div 10) @ [48 + n mod 10])"

declare decimal.simps [simp del]

text \<open>The value of a string of digits.\<close>

definition decimal_value :: "rstr \<Rightarrow> nat" where
  "decimal_value s = foldl (\<lambda>n c. 10 * n + (c - 48)) 0 s"

section \<open>Machine integers\<close>

definition U64_MAX :: nat where "U64_MAX = 2 ^ 64 - 1"
definition U32_MAX :: nat where "U32_MAX = 2 ^ 32 - 1"
definition I64_MAX :: int where "I64_MAX = 2 ^ 63 - 1"
definition I64_MIN :: int where "I64_MIN = - (2 ^ 63)"

definition u64_saturating_add :: "nat \<Rightarrow> nat \<Rightarrow> nat" where
  "u64_saturating_add a b = min U64_MAX (a + b)"

definition u32_saturating_add :: "nat \<Rightarrow> nat \<Rightarrow> nat" where
  "u32_saturating_add a b = min U32_MAX (a + b)"

definition u64_wrapping_add :: "nat \<Rightarrow> nat \<Rightarrow> nat" where
  "u64_wrapping_add a b = (a + b) mod 2 ^ 64"

definition i64_clamp :: "int \<Rightarrow> int" where
  "i64_clamp x = max I64_MIN (min I64_MAX x)"

definition i64_saturating_add :: "int \<Rightarrow> int \<Rightarrow> int" where
  "i64_saturating_add a b = i64_clamp (a + b)"

definition i64_saturating_sub :: "int \<Rightarrow> int \<Rightarrow> int" where
  "i64_saturating_sub a b = i64_clamp (a - b)"

definition i64_saturating_mul :: "int \<Rightarrow> int \<Rightarrow> int" where
  "i64_saturating_mul a b = i64_clamp (a * b)"

definition i64_checked :: "int \<Rightarrow> int option" where
  "i64_checked x = (if I64_MIN \<le> x \<and> x \<le> I64_MAX then Some x else None)"

definition u32_try_from :: "nat \<Rightarrow> nat" where
  "u32_try_from n = (if n \<le> U32_MAX then n else U32_MAX)"

text \<open>
  \<open>std::time::Instant\<close> on Linux is a \<open>timespec\<close> (64 bit seconds): nanoseconds
  since the clock's origin. \<open>checked_add\<close> fails past its end.
\<close>

type_synonym instant = nat

definition NANOS :: nat where "NANOS = 1000000000"
definition INSTANT_MAX :: nat where "INSTANT_MAX = (2 ^ 63 - 1) * NANOS + 999999999"

definition instant_checked_add :: "instant \<Rightarrow> nat \<Rightarrow> instant option" where
  "instant_checked_add i nanos = (if i + nanos \<le> INSTANT_MAX then Some (i + nanos) else None)"

lemmas [cmp_defs] = U64_MAX_def U32_MAX_def I64_MAX_def I64_MIN_def NANOS_def INSTANT_MAX_def

section \<open>Maps and vectors\<close>

definition fm_retain :: "('k \<Rightarrow> 'v \<Rightarrow> bool) \<Rightarrow> ('k, 'v) fmap \<Rightarrow> ('k, 'v) fmap" where
  "fm_retain P m = fmfilter (\<lambda>k. case fmlookup m k of None \<Rightarrow> False | Some v \<Rightarrow> P k v) m"

definition fm_len :: "('k, 'v) fmap \<Rightarrow> nat" where
  "fm_len m = fcard (fmdom m)"

definition fm_keys :: "('k::linorder, 'v) fmap \<Rightarrow> 'k list" where
  "fm_keys m = sorted_list_of_fset (fmdom m)"

text \<open>\<open>collect()\<close> of pairs into a map: a later pair replaces an earlier one.\<close>

definition fm_collect :: "('k \<times> 'v) list \<Rightarrow> ('k, 'v) fmap" where
  "fm_collect xs = fold (\<lambda>(k, v) m. fmupd k v m) xs fmempty"

text \<open>\<open>iter_mut().find(p)\<close> followed by an assignment: the first match only.\<close>

fun update_first :: "('a \<Rightarrow> bool) \<Rightarrow> ('a \<Rightarrow> 'a) \<Rightarrow> 'a list \<Rightarrow> 'a list" where
  "update_first P f [] = []"
| "update_first P f (x # xs) = (if P x then f x # xs else x # update_first P f xs)"

text \<open>\<open>position(p)\<close> followed by \<open>remove(i)\<close>: the first match only.\<close>

fun remove_first :: "('a \<Rightarrow> bool) \<Rightarrow> 'a list \<Rightarrow> 'a list" where
  "remove_first P [] = []"
| "remove_first P (x # xs) = (if P x then xs else x # remove_first P xs)"

subsection \<open>Lemmas on strings\<close>

lemma lit_inject [simp]: "lit a = lit b \<longleftrightarrow> a = b"
  by (simp add: lit_def inj_on_def)

lemma lit_append: "lit (a @ b) = lit a @ lit b"
  by (simp add: lit_def)

lemma lit_eq_Nil [simp]: "lit s = [] \<longleftrightarrow> s = []"
  by (simp add: lit_def)

lemma str_len_Nil [simp]: "str_len [] = 0"
  by (simp add: str_len_def)

lemma str_len_append [simp]: "str_len (a @ b) = str_len a + str_len b"
  by (simp add: str_len_def)

lemma str_len_Cons [simp]: "str_len (c # s) = utf8_width c + str_len s"
  by (simp add: str_len_def)

lemma str_len_ascii: "\<forall>c \<in> set s. c < 0x80 \<Longrightarrow> str_len s = length s"
  by (induction s) (auto simp: utf8_width_def)

lemma split_on_not_Nil [simp]: "split_on c s \<noteq> []"
  by (induction s) (auto split: list.splits)

lemma join_with_Cons: "ps \<noteq> [] \<Longrightarrow> join_with c (p # ps) = p @ c # join_with c ps"
  by (cases ps) auto

lemma join_split [simp]: "join_with c (split_on c s) = s"
proof (induction s)
  case Nil
  then show ?case by simp
next
  case (Cons x xs)
  obtain p ps where sp: "split_on c xs = p # ps"
    by (meson neq_Nil_conv split_on_not_Nil)
  with Cons show ?case by (cases ps) auto
qed

lemma split_on_append: "split_on c (a @ c # b) = split_on c a @ split_on c b"
proof (induction a)
  case Nil
  then show ?case by simp
next
  case (Cons x xs)
  obtain p ps where "split_on c xs = p # ps" by (meson neq_Nil_conv split_on_not_Nil)
  with Cons show ?case by auto
qed

lemma join_with_append:
  "ps \<noteq> [] \<Longrightarrow> qs \<noteq> [] \<Longrightarrow> join_with c (ps @ qs) = join_with c ps @ c # join_with c qs"
proof (induction ps)
  case Nil
  then show ?case by simp
next
  case (Cons p ps)
  then show ?case by (cases ps) (auto simp: join_with_Cons)
qed

lemma split_on_parts: "p \<in> set (split_on c s) \<Longrightarrow> c \<notin> set p"
proof (induction s arbitrary: p)
  case Nil
  then show ?case by simp
next
  case (Cons x xs)
  obtain q qs where sp: "split_on c xs = q # qs"
    by (meson neq_Nil_conv split_on_not_Nil)
  with Cons.prems Cons.IH show ?case by (auto split: if_splits)
qed

lemma set_trim_matches: "set (trim_matches P s) \<subseteq> set s"
  unfolding trim_matches_def by (auto dest!: set_dropWhileD)

lemma decimal_digits: "c \<in> set (decimal n) \<Longrightarrow> is_ascii_digit c"
proof (induction n rule: decimal.induct)
  case (1 n)
  then show ?case
    by (subst (asm) (2) decimal.simps)
      (auto simp: is_ascii_digit_def split: if_splits)
qed

lemma decimal_not_Nil [simp]: "decimal n \<noteq> []"
  by (subst decimal.simps) simp

lemma decimal_value_decimal [simp]: "decimal_value (decimal n) = n"
proof (induction n rule: decimal.induct)
  case (1 n)
  then show ?case by (subst decimal.simps) (auto simp: decimal_value_def)
qed

lemma decimal_inject [simp]: "decimal m = decimal n \<longleftrightarrow> m = n"
  by (metis decimal_value_decimal)

lemma decimal_value_snoc: "decimal_value (s @ [c]) = 10 * decimal_value s + (c - 48)"
  by (simp add: decimal_value_def)

lemma decimal_value_pos:
  assumes "list_all is_ascii_digit s" "s \<noteq> []" "hd s \<noteq> 48"
  shows "0 < decimal_value s"
  using assms
proof (induction s rule: rev_induct)
  case (snoc c s)
  then show ?case
    by (cases "s = []") (auto simp: decimal_value_snoc decimal_value_def is_ascii_digit_def)
qed simp

lemma decimal_of_value:
  assumes "list_all is_ascii_digit s" "s \<noteq> []" "s = [48] \<or> hd s \<noteq> 48"
  shows "decimal (decimal_value s) = s"
  using assms
proof (induction s rule: rev_induct)
  case (snoc c s)
  have c: "48 \<le> c" "c \<le> 57" using snoc.prems(1) by (auto simp: is_ascii_digit_def)
  show ?case
  proof (cases "s = []")
    case True
    then show ?thesis using c by (subst decimal.simps) (auto simp: decimal_value_def)
  next
    case False
    then have "0 < decimal_value s" "decimal (decimal_value s) = s"
      using snoc decimal_value_pos[of s] by auto
    moreover obtain digit where "c = 48 + digit" "digit < 10" using c by (intro that[of "c - 48"]) auto
    ultimately show ?thesis by (subst decimal.simps) (simp add: decimal_value_snoc)
  qed
qed simp

lemma digits_decimal: "list_all is_ascii_digit (decimal n)"
  using decimal_digits by (auto simp: list_all_iff)

lemma hd_decimal: "0 < n \<Longrightarrow> hd (decimal n) \<noteq> 48"
proof (induction n rule: decimal.induct)
  case (1 n)
  then show ?case
    by (subst decimal.simps) (cases "n < 10"; cases "n div 10 = 0"; auto simp: hd_append)
qed

subsection \<open>Lemmas on maps\<close>

lemma fmlookup_retain [simp]:
  "fmlookup (fm_retain P m) k =
     (case fmlookup m k of None \<Rightarrow> None | Some v \<Rightarrow> if P k v then Some v else None)"
  by (auto simp: fm_retain_def fmfilter.rep_eq map_filter_def split: option.splits)

lemma fmdom_retain_subset: "fmdom (fm_retain P m) |\<subseteq>| fmdom m"
  by (auto simp: fm_retain_def)

lemma fm_len_empty [simp]: "fm_len fmempty = 0"
  by (simp add: fm_len_def)

lemma fm_len_fmupd: "fm_len (fmupd k v m) = (if k |\<in>| fmdom m then fm_len m else Suc (fm_len m))"
  by (simp add: fm_len_def finsert_absorb fcard_finsert_disjoint)

lemma fm_len_fmdrop_le: "fm_len (fmdrop k m) \<le> fm_len m"
  by (auto simp: fm_len_def intro!: fcard_mono)

lemma set_fm_keys [simp]: "set (fm_keys m) = fset (fmdom m)"
  by (simp add: fm_keys_def)

lemma distinct_fm_keys [simp]: "distinct (fm_keys m)" and sorted_fm_keys [simp]: "sorted (fm_keys m)"
  by (simp_all add: fm_keys_def sorted_list_of_fset.rep_eq)

lemma fmlookup_None_iff: "fmlookup m k = None \<longleftrightarrow> k |\<notin>| fmdom m"
  by (simp add: fmdom_notD fmdom_notI iffI)

lemma fmdom_fmupd_absorb: "k |\<in>| fmdom m \<Longrightarrow> fmdom (fmupd k v m) = fmdom m"
  by auto

lemma fmlookup_collect_fold:
  "fmlookup (fold (\<lambda>(k, v) m. fmupd k v m) xs m) k =
     (case map_of (rev xs) k of Some v \<Rightarrow> Some v | None \<Rightarrow> fmlookup m k)"
proof (induction xs arbitrary: m)
  case (Cons x xs)
  then show ?case by (cases x) (auto simp: map_add_def split: option.splits)
qed simp

lemma fmlookup_collect [simp]: "fmlookup (fm_collect xs) k = map_of (rev xs) k"
  by (simp add: fm_collect_def fmlookup_collect_fold split: option.split)

subsection \<open>Lemmas on vectors\<close>

lemma length_update_first [simp]: "length (update_first P f xs) = length xs"
  by (induction xs) auto

lemma update_first_none: "\<forall>x \<in> set xs. \<not> P x \<Longrightarrow> update_first P f xs = xs"
  by (induction xs) auto

lemma map_update_first: "(\<And>x. g (f x) = g x) \<Longrightarrow> map g (update_first P f xs) = map g xs"
  by (induction xs) auto

lemma set_update_first:
  "set (update_first P f xs) \<subseteq> set xs \<union> {f x | x. x \<in> set xs \<and> P x}"
  by (induction xs) auto

lemma find_update_first:
  assumes "\<And>x. P x \<Longrightarrow> P (f x)"
  shows "find P (update_first P f xs) = map_option f (find P xs)"
  using assms by (induction xs) auto

lemma find_Some_set: "find P xs = Some x \<Longrightarrow> x \<in> set xs \<and> P x"
  by (auto simp: find_Some_iff)

lemma find_None_set: "find P xs = None \<longleftrightarrow> (\<forall>x \<in> set xs. \<not> P x)"
  by (auto simp: find_None_iff)

lemma find_append: "find P (xs @ ys) = (case find P xs of None \<Rightarrow> find P ys | Some x \<Rightarrow> Some x)"
  by (induction xs) auto

lemma subseq_remove_first: "subseq (remove_first P xs) xs"
  by (induction xs) auto

lemma length_remove_first:
  "\<exists>x \<in> set xs. P x \<Longrightarrow> Suc (length (remove_first P xs)) = length xs"
  by (induction xs) auto

lemma remove_first_keeps: "x \<in> set xs \<Longrightarrow> \<not> P x \<Longrightarrow> x \<in> set (remove_first P xs)"
  by (induction xs) auto

section \<open>State machines\<close>

text \<open>
  A component whose state changes by labelled steps. The provider gives the step function,
  the states it may start in and an invariant it keeps; the client gets every run.
\<close>

locale state_machine =
  fixes init :: "'s \<Rightarrow> bool"
    and step :: "'s \<Rightarrow> 'e \<Rightarrow> 's"
    and inv :: "'s \<Rightarrow> bool"
  assumes inv_init: "init s \<Longrightarrow> inv s"
    and inv_step: "inv s \<Longrightarrow> inv (step s e)"
begin

lemma inv_run: "inv s \<Longrightarrow> inv (foldl step s es)"
  by (induction es arbitrary: s) (auto simp: inv_step)

lemma inv_reachable: "init s \<Longrightarrow> inv (foldl step s es)"
  by (simp add: inv_init inv_run)

end

text \<open>
  The same for a component whose steps are a relation: what is reachable, and an invariant
  by induction on how it was reached.
\<close>

inductive reachable :: "('s \<Rightarrow> bool) \<Rightarrow> ('s \<Rightarrow> 's \<Rightarrow> bool) \<Rightarrow> 's \<Rightarrow> bool" for init step where
  reach_init: "init s \<Longrightarrow> reachable init step s"
| reach_step: "reachable init step s \<Longrightarrow> step s t \<Longrightarrow> reachable init step t"

locale transition_system =
  fixes init :: "'s \<Rightarrow> bool"
    and step :: "'s \<Rightarrow> 's \<Rightarrow> bool"
    and inv :: "'s \<Rightarrow> bool"
  assumes inv_init: "init s \<Longrightarrow> inv s"
    and inv_step: "inv s \<Longrightarrow> step s t \<Longrightarrow> inv t"
begin

lemma inv_reachable: "reachable init step s \<Longrightarrow> inv s"
  by (induction rule: reachable.induct) (auto intro: inv_init inv_step)

end

end
