(* ===== verification/Wire.thy ===== *)
theory Wire
  imports Prelude
begin

text \<open>
  The data the components exchange.

  \<^item> The protobuf messages of opensnitchd (\<open>Rule\<close>, \<open>Operator\<close>, \<open>Connection\<close>,
    \<open>Event\<close>, \<open>Notification\<close>) are generated at build time from a file of the
    opensnitch submodule; the records here have the fields the bridge's sources read and
    write, in the shape their struct literals give them.
  \<^item> \<open>ws_messages/verdict_wire.rs\<close>: verdict durations and scopes and the connection row.
  \<^item> \<open>daemon_contract.rs\<close>: the marker of the default-action events.
\<close>

section \<open>Messages of the daemon\<close>

datatype operator = Operator
  (op_type: rstr) (op_operand: rstr) (op_data: rstr) (op_sensitive: bool) (op_list: "operator list")

record rule =
  r_created :: int
  r_name :: rstr
  r_description :: rstr
  r_enabled :: bool
  r_precedence :: bool
  r_nolog :: bool
  r_action :: rstr
  r_duration :: rstr
  r_operator :: "operator option"

record connection =
  c_protocol :: rstr
  c_dst_ip :: rstr
  c_dst_host :: rstr
  c_dst_port :: nat
  c_process_path :: rstr

record event =
  e_connection :: "connection option"
  e_rule :: "rule option"
  e_unixnano :: int

datatype action = ActionNone | ChangeRule | DeleteRule | OtherAction nat

record notification =
  n_id :: nat
  n_type :: action
  n_rules :: "rule list"

section \<open>Verdicts\<close>

datatype verdict = Allow | Deny

datatype verdict_duration = Once | FiveMinutes | UntilRestart | Always

datatype verdict_scope = ThisHost | AnyHostOnDomain | AnyHost

record verdict_resolution =
  v_verdict :: verdict
  v_duration :: verdict_duration
  v_scope :: verdict_scope

fun daemon_duration_str :: "verdict_duration \<Rightarrow> rstr" where
  "daemon_duration_str Once = lit ''once''"
| "daemon_duration_str FiveMinutes = lit ''5m''"
| "daemon_duration_str UntilRestart = lit ''until restart''"
| "daemon_duration_str Always = lit ''always''"

definition remembers :: "verdict_duration \<Rightarrow> bool" where
  "remembers d \<longleftrightarrow> d \<noteq> Once"

definition effective_verdict_duration :: "verdict_duration option \<Rightarrow> bool option \<Rightarrow> verdict_duration" where
  "effective_verdict_duration duration remember =
     (case duration of Some d \<Rightarrow> d
      | None \<Rightarrow> if (case remember of Some b \<Rightarrow> b | None \<Rightarrow> False) then Always else Once)"

section \<open>Connection rows\<close>

datatype auto_answer = FilterPaused | NoAnswer | UnknownAnswer

record connection_row =
  row_id :: rstr
  row_process :: rstr
  row_process_path :: "rstr option"
  row_dst_host :: rstr
  row_dst_ip :: rstr
  row_dst_port :: nat
  row_protocol :: rstr
  row_direction :: rstr
  row_action :: "rstr option"
  row_bytes_sent :: nat
  row_bytes_received :: nat
  row_started_at_ms :: int
  row_matched_rule :: "rstr option"
  row_auto_answer :: "auto_answer option"
  row_answer_deadline_ms :: "int option"
  row_deferred :: bool
  row_decided_by_default :: bool

section \<open>What the fork's daemon reports for its default action\<close>

definition DEFAULT_ACTION_MARKER :: rstr where
  "DEFAULT_ACTION_MARKER = lit ''snitchwatch:default-action''"

definition is_default_action_rule :: "rule \<Rightarrow> bool" where
  "is_default_action_rule r \<longleftrightarrow> r_name r = [] \<and> r_description r = DEFAULT_ACTION_MARKER"

definition is_contract_default_action :: "rstr \<Rightarrow> bool" where
  "is_contract_default_action a \<longleftrightarrow> a \<in> {lit ''allow'', lit ''deny'', lit ''reject''}"

lemma daemon_duration_str_inject [simp]:
  "daemon_duration_str a = daemon_duration_str b \<longleftrightarrow> a = b"
  by (cases a; cases b) auto

lemma remembers_simps [simp]:
  "\<not> remembers Once" "remembers FiveMinutes" "remembers UntilRestart" "remembers Always"
  by (simp_all add: remembers_def)

end
