(* ===== verification/Std_Net.thy ===== *)
theory Std_Net
  imports Prelude
begin

text \<open>
  What the sources use of the Rust standard library around text: the UTF-8 bytes of a
  string, whitespace and lines, the parser behind \<open>str::parse::<IpAddr>()\<close> and paths. The
  parser follows the library's own structure (a cursor over the remaining text, each
  reader all-or-nothing).
\<close>

section \<open>UTF-8\<close>

definition utf8_encode :: "rchar \<Rightarrow> nat list" where
  "utf8_encode c =
     (if c < 0x80 then [c]
      else if c < 0x800 then [0xC0 + c div 64, 0x80 + c mod 64]
      else if c < 0x10000 then [0xE0 + c div 4096, 0x80 + (c div 64) mod 64, 0x80 + c mod 64]
      else [0xF0 + c div 262144, 0x80 + (c div 4096) mod 64, 0x80 + (c div 64) mod 64, 0x80 + c mod 64])"

definition as_bytes :: "rstr \<Rightarrow> nat list" where
  "as_bytes s = concat (map utf8_encode s)"

section \<open>IP addresses\<close>

definition digit_value :: "nat \<Rightarrow> rchar \<Rightarrow> nat option" where
  "digit_value radix c =
     (let d = (if is_ascii_digit c then Some (c - 48)
               else if 97 \<le> c \<and> c \<le> 102 then Some (c - 87)
               else if 65 \<le> c \<and> c \<le> 70 then Some (c - 55) else None)
      in (case d of Some n \<Rightarrow> (if n < radix then Some n else None) | None \<Rightarrow> None))"

text \<open>The digits a number reader takes, and what is left.\<close>

fun take_digits :: "nat \<Rightarrow> rstr \<Rightarrow> nat list \<times> rstr" where
  "take_digits radix [] = ([], [])"
| "take_digits radix (c # cs) =
     (case digit_value radix c of
        None \<Rightarrow> ([], c # cs)
      | Some d \<Rightarrow> (let (ds, rest) = take_digits radix cs in (d # ds, rest)))"

definition read_number :: "nat \<Rightarrow> nat \<Rightarrow> bool \<Rightarrow> nat \<Rightarrow> rstr \<Rightarrow> (nat \<times> rstr) option" where
  "read_number radix max_digits allow_zero_prefix bound s =
     (let (ds, rest) = take_digits radix s;
          n = foldl (\<lambda>acc d. acc * radix + d) 0 ds
      in if ds = [] \<or> length ds > max_digits \<or> n > bound
           \<or> (\<not> allow_zero_prefix \<and> length ds > 1 \<and> hd ds = 0)
         then None else Some (n, rest))"

definition read_separator :: "rchar \<Rightarrow> nat \<Rightarrow> (rstr \<Rightarrow> ('a \<times> rstr) option) \<Rightarrow> rstr \<Rightarrow> ('a \<times> rstr) option" where
  "read_separator sep i inner s =
     (if i = 0 then inner s
      else (case s of [] \<Rightarrow> None | c # cs \<Rightarrow> if c = sep then inner cs else None))"

fun read_octets :: "nat \<Rightarrow> nat \<Rightarrow> rstr \<Rightarrow> (nat list \<times> rstr) option" where
  "read_octets i 0 s = Some ([], s)"
| "read_octets i (Suc n) s =
     (case read_separator 46 i (read_number 10 3 False 255) s of
        None \<Rightarrow> None
      | Some (d, rest) \<Rightarrow>
          (case read_octets (Suc i) n rest of None \<Rightarrow> None | Some (ds, r) \<Rightarrow> Some (d # ds, r)))"

definition read_ipv4_addr :: "rstr \<Rightarrow> (nat list \<times> rstr) option" where
  "read_ipv4_addr s = read_octets 0 4 s"

text \<open>\<open>read_groups\<close>: how many groups were read, whether they end in an IPv4 address,
  and what is left; \<open>left\<close> counts the slots still open.\<close>

fun read_groups :: "nat \<Rightarrow> nat \<Rightarrow> rstr \<Rightarrow> nat \<times> bool \<times> rstr" where
  "read_groups i 0 s = (i, False, s)"
| "read_groups i (Suc left) s =
     (case (if 0 < left then read_separator 58 i read_ipv4_addr s else None) of
        Some (_, rest) \<Rightarrow> (i + 2, True, rest)
      | None \<Rightarrow>
          (case read_separator 58 i (read_number 16 4 True 65535) s of
             None \<Rightarrow> (i, False, s)
           | Some (_, rest) \<Rightarrow> read_groups (Suc i) left rest))"

definition read_ipv6_addr :: "rstr \<Rightarrow> rstr option" where
  "read_ipv6_addr s =
     (let (head_size, head_ipv4, rest) = read_groups 0 8 s
      in if head_size = 8 then Some rest
         else if head_ipv4 then None
         else (case rest of
                 a # b # rest' \<Rightarrow>
                   if a = 58 \<and> b = 58
                   then (let (_, _, r) = read_groups 0 (8 - (head_size + 1)) rest' in Some r)
                   else None
               | _ \<Rightarrow> None))"

definition parses_as_ip_addr :: "rstr \<Rightarrow> bool" where
  "parses_as_ip_addr s =
     (case read_ipv4_addr s of
        Some (_, rest) \<Rightarrow> rest = []
      | None \<Rightarrow> (case read_ipv6_addr s of Some rest \<Rightarrow> rest = [] | None \<Rightarrow> False))"

definition parse_ipv4 :: "rstr \<Rightarrow> nat list option" where
  "parse_ipv4 s = (case read_ipv4_addr s of Some (octets, rest) \<Rightarrow> if rest = [] then Some octets else None | None \<Rightarrow> None)"

definition ipv4_to_string :: "nat list \<Rightarrow> rstr" where
  "ipv4_to_string octets = join_with 46 (map decimal octets)"

section \<open>Whitespace and lines\<close>

text \<open>\<open>char::is_whitespace\<close>: the Unicode property \<open>White_Space\<close>.\<close>

definition is_whitespace :: "rchar \<Rightarrow> bool" where
  "is_whitespace c \<longleftrightarrow>
     (9 \<le> c \<and> c \<le> 13) \<or> c = 0x20 \<or> c = 0x85 \<or> c = 0xA0 \<or> c = 0x1680 \<or> (0x2000 \<le> c \<and> c \<le> 0x200A)
     \<or> c = 0x2028 \<or> c = 0x2029 \<or> c = 0x202F \<or> c = 0x205F \<or> c = 0x3000"

definition trim :: "rstr \<Rightarrow> rstr" where
  "trim s = trim_matches is_whitespace s"

function split_whitespace :: "rstr \<Rightarrow> rstr list" where
  "split_whitespace s =
     (case dropWhile is_whitespace s of
        [] \<Rightarrow> []
      | c # cs \<Rightarrow> (c # takeWhile (\<lambda>x. \<not> is_whitespace x) cs)
                    # split_whitespace (dropWhile (\<lambda>x. \<not> is_whitespace x) cs))"
  by pat_completeness auto
termination
proof (relation "measure length")
  fix s c cs assume "dropWhile is_whitespace s = c # cs"
  then have "length cs < length s" by (metis length_dropWhile_le length_Cons Suc_le_eq)
  moreover have "length (dropWhile (\<lambda>x. \<not> is_whitespace x) cs) \<le> length cs" by (rule length_dropWhile_le)
  ultimately show "(dropWhile (\<lambda>x. \<not> is_whitespace x) cs, s) \<in> measure length" by simp
qed simp

declare split_whitespace.simps [simp del]

text \<open>\<open>str::lines\<close>: the end of a line is a line feed, possibly after a carriage return; a
  last line without an end is a line if it is not empty.\<close>

definition strip_cr :: "rstr \<Rightarrow> rstr" where
  "strip_cr s = (if s \<noteq> [] \<and> last s = 13 then butlast s else s)"

definition str_lines :: "rstr \<Rightarrow> rstr list" where
  "str_lines s =
     (let parts = split_on 10 s
      in map strip_cr (butlast parts) @ (if last parts = [] then [] else [last parts]))"

section \<open>Paths\<close>

datatype component = RootDir | CurDir | ParentDir | Normal rstr

definition segment_component :: "rstr \<Rightarrow> component" where
  "segment_component seg = (if seg = [46, 46] then ParentDir else Normal seg)"

definition components :: "rstr \<Rightarrow> component list" where
  "components s =
     (let segments = split_on 47 s
      in (if s \<noteq> [] \<and> hd s = 47 then [RootDir] else if hd segments = [46] then [CurDir] else [])
         @ map segment_component (filter (\<lambda>seg. seg \<noteq> [] \<and> seg \<noteq> [46]) segments))"

fun component_str :: "component \<Rightarrow> rstr" where
  "component_str RootDir = [47]"
| "component_str CurDir = [46]"
| "component_str ParentDir = [46, 46]"
| "component_str (Normal s) = s"

definition strip_prefix_path :: "rstr \<Rightarrow> rstr \<Rightarrow> component list option" where
  "strip_prefix_path root path =
     (if prefix (components root) (components path)
      then Some (drop (length (components root)) (components path)) else None)"

definition path_join :: "rstr \<Rightarrow> rstr \<Rightarrow> rstr" where
  "path_join a b =
     (if b \<noteq> [] \<and> hd b = 47 then b
      else if a = [] \<or> last a = 47 then a @ b else a @ 47 # b)"

definition file_name :: "rstr \<Rightarrow> rstr option" where
  "file_name s =
     (let comps = filter (\<lambda>p. p \<noteq> [] \<and> p \<noteq> [46]) (split_on 47 s)
      in if comps = [] \<or> last comps = [46, 46] then None else Some (last comps))"

subsection \<open>Lemmas\<close>

lemma as_bytes_range: "\<forall>c \<in> set s. c < 0x110000 \<Longrightarrow> b \<in> set (as_bytes s) \<Longrightarrow> b < 256"
proof -
  assume s: "\<forall>c \<in> set s. c < 0x110000" and "b \<in> set (as_bytes s)"
  then obtain c where c: "c \<in> set s" "b \<in> set (utf8_encode c)"
    by (auto simp: as_bytes_def)
  have mods: "x mod 64 < 64" for x :: nat by simp
  have "c < 0x800 \<Longrightarrow> c div 64 < 32" "c < 0x10000 \<Longrightarrow> c div 4096 < 16"
    "c < 0x110000 \<Longrightarrow> c div 262144 < 5"
    by (simp_all add: less_mult_imp_div_less)
  moreover have "c < 0x110000" using s c(1) by blast
  ultimately show "b < 256"
    using c(2) mods[of c] mods[of "c div 64"] mods[of "c div 4096"]
    by (auto simp: utf8_encode_def split: if_splits)
qed

lemma digit_value_lower: "radix \<le> 16 \<Longrightarrow> digit_value radix (ascii_lower c) = digit_value radix c"
  by (auto simp: digit_value_def ascii_lower_def is_ascii_digit_def Let_def)

lemma digit_value_colon [simp]: "digit_value radix 58 = None" "digit_value radix 46 = None"
  by (auto simp: digit_value_def is_ascii_digit_def)

lemma ascii_lower_sep [simp]:
  "ascii_lower c = 58 \<longleftrightarrow> c = 58" "ascii_lower c = 46 \<longleftrightarrow> c = 46"
  by (auto simp: ascii_lower_def)

lemma take_digits_lower:
  assumes "radix \<le> 16"
  shows "take_digits radix (map ascii_lower s) =
           (let (ds, rest) = take_digits radix s in (ds, map ascii_lower rest))"
  using assms by (induction s) (auto simp: digit_value_lower split: option.splits prod.splits)

lemma read_number_lower:
  assumes "radix \<le> 16"
  shows "read_number radix m z b (map ascii_lower s) =
           map_option (\<lambda>(n, rest). (n, map ascii_lower rest)) (read_number radix m z b s)"
  using assms by (auto simp: read_number_def take_digits_lower Let_def split: prod.splits)

lemma read_separator_lower:
  assumes "\<And>t. f (map ascii_lower t) = map_option (\<lambda>(x, rest). (x, map ascii_lower rest)) (f t)"
    and "\<And>c. ascii_lower c = sep \<longleftrightarrow> c = sep"
  shows "read_separator sep i f (map ascii_lower s) =
           map_option (\<lambda>(x, rest). (x, map ascii_lower rest)) (read_separator sep i f s)"
  using assms by (auto simp: read_separator_def split: list.splits)

lemma read_octets_lower:
  "read_octets i n (map ascii_lower s) =
     map_option (\<lambda>(ds, rest). (ds, map ascii_lower rest)) (read_octets i n s)"
proof (induction i n s rule: read_octets.induct)
  case (1 i s)
  then show ?case by simp
next
  case (2 i n s)
  have "read_separator 46 i (read_number 10 3 False 255) (map ascii_lower s) =
          map_option (\<lambda>(x, rest). (x, map ascii_lower rest))
            (read_separator 46 i (read_number 10 3 False 255) s)"
    by (rule read_separator_lower) (simp_all add: read_number_lower)
  with 2 show ?case
    by (cases "read_separator 46 i (read_number 10 3 False 255) s") (auto split: option.splits)
qed

lemma read_groups_lower:
  "read_groups i n (map ascii_lower s) =
     (let (k, v4, rest) = read_groups i n s in (k, v4, map ascii_lower rest))"
proof (induction i n s rule: read_groups.induct)
  case (1 i s)
  then show ?case by simp
next
  case (2 i left s)
  have v4: "read_separator 58 i read_ipv4_addr (map ascii_lower s) =
          map_option (\<lambda>(x, rest). (x, map ascii_lower rest)) (read_separator 58 i read_ipv4_addr s)"
    by (rule read_separator_lower) (simp_all add: read_ipv4_addr_def read_octets_lower)
  have grp: "read_separator 58 i (read_number 16 4 True 65535) (map ascii_lower s) =
          map_option (\<lambda>(x, rest). (x, map ascii_lower rest))
            (read_separator 58 i (read_number 16 4 True 65535) s)"
    by (rule read_separator_lower) (simp_all add: read_number_lower)
  show ?case
    using 2 v4 grp
    by (cases "if 0 < left then read_separator 58 i read_ipv4_addr s else None";
        cases "read_separator 58 i (read_number 16 4 True 65535) s")
      (auto split: if_splits)
qed

text \<open>Whether a text parses as an IP address does not depend on the case of its letters.\<close>

lemma parses_as_ip_addr_lower: "parses_as_ip_addr (to_ascii_lowercase s) = parses_as_ip_addr s"
proof -
  have v6: "read_ipv6_addr (map ascii_lower s) = map_option (map ascii_lower) (read_ipv6_addr s)"
    by (auto simp: read_ipv6_addr_def read_groups_lower Let_def split: prod.splits list.splits)
  have v4: "read_ipv4_addr (map ascii_lower s) =
              map_option (\<lambda>(ds, rest). (ds, map ascii_lower rest)) (read_ipv4_addr s)"
    by (simp add: read_ipv4_addr_def read_octets_lower)
  show ?thesis
    unfolding parses_as_ip_addr_def to_ascii_lowercase_def v4 v6
    by (auto split: option.splits)
qed

end
