(* ===== verification/Rule_Name.thy ===== *)
theory Rule_Name
  imports Wire Std_Net
begin

text \<open>
  Names of daemon rules: the checks of \<open>rule_name.rs\<close> on names that come from outside,
  the paths a remembered rule may be bound to (\<open>translator/process_binding.rs\<close>) and the
  names the bridge makes itself (\<open>translator/verdict.rs\<close>, \<open>rule_name_for\<close> and its
  helpers). The daemon turns a name into a file path as root, so a name is one path
  component of a fixed alphabet, and two answers that differ get two names.

  SHA-256 is the \<open>sha2\<close> crate's: a parameter \<open>sha\<close> from bytes to bytes.
\<close>

section \<open>Checks on names (rule\_name.rs)\<close>

definition MAX_RULE_NAME_BYTES :: nat where "MAX_RULE_NAME_BYTES = 200"

definition BLOCKLIST_RULE_NAME_PREFIX :: rstr where
  "BLOCKLIST_RULE_NAME_PREFIX = lit ''z00-blocklist:''"
definition LEGACY_BLOCKLIST_RULE_NAME_PREFIX :: rstr where
  "LEGACY_BLOCKLIST_RULE_NAME_PREFIX = lit ''900-blocklist:''"
definition PACKAGED_RULE_NAME_PREFIX :: rstr where
  "PACKAGED_RULE_NAME_PREFIX = lit ''000-snitchwatch-''"
definition CURATED_DEFAULT_RULE_NAME_PREFIX :: rstr where
  "CURATED_DEFAULT_RULE_NAME_PREFIX = lit ''snitchwatch-default-''"
definition PROFILE_RULE_NAME_PREFIX :: rstr where
  "PROFILE_RULE_NAME_PREFIX = lit ''850-profile:''"

definition is_reserved_profile_name :: "rstr \<Rightarrow> bool" where
  "is_reserved_profile_name name \<longleftrightarrow> prefix PROFILE_RULE_NAME_PREFIX name"

definition is_reserved_blocklist_name :: "rstr \<Rightarrow> bool" where
  "is_reserved_blocklist_name name \<longleftrightarrow>
     prefix BLOCKLIST_RULE_NAME_PREFIX name \<or> prefix LEGACY_BLOCKLIST_RULE_NAME_PREFIX name"

definition is_reserved_packaged_name :: "rstr \<Rightarrow> bool" where
  "is_reserved_packaged_name name \<longleftrightarrow> prefix PACKAGED_RULE_NAME_PREFIX name"

definition is_reserved_curated_name :: "rstr \<Rightarrow> bool" where
  "is_reserved_curated_name name \<longleftrightarrow> prefix CURATED_DEFAULT_RULE_NAME_PREFIX name"

definition is_reserved_name :: "rstr \<Rightarrow> bool" where
  "is_reserved_name name \<longleftrightarrow>
     is_reserved_blocklist_name name \<or> is_reserved_profile_name name
     \<or> is_reserved_packaged_name name \<or> is_reserved_curated_name name"

definition is_format_or_separator :: "rchar \<Rightarrow> bool" where
  "is_format_or_separator c \<longleftrightarrow>
     c = 0x00AD \<or> (0x0600 \<le> c \<and> c \<le> 0x0605) \<or> c = 0x061C \<or> c = 0x06DD \<or> c = 0x070F
     \<or> (0x0890 \<le> c \<and> c \<le> 0x0891) \<or> c = 0x08E2 \<or> c = 0x180E \<or> (0x200B \<le> c \<and> c \<le> 0x200F)
     \<or> (0x2028 \<le> c \<and> c \<le> 0x202E) \<or> (0x2060 \<le> c \<and> c \<le> 0x2064) \<or> (0x2066 \<le> c \<and> c \<le> 0x206F)
     \<or> c = 0xFEFF \<or> (0xFFF9 \<le> c \<and> c \<le> 0xFFFB) \<or> c = 0x110BD \<or> c = 0x110CD
     \<or> (0x13430 \<le> c \<and> c \<le> 0x1343F) \<or> (0x1BCA0 \<le> c \<and> c \<le> 0x1BCA3)
     \<or> (0x1D173 \<le> c \<and> c \<le> 0x1D17A) \<or> c = 0xE0001 \<or> (0xE0020 \<le> c \<and> c \<le> 0xE007F)"

datatype name_error =
  NameEmpty | NameTooLong nat | NameSeparator | NameRelative | NameControl | NameFormat

definition validate_rule_name :: "rstr \<Rightarrow> name_error + unit" where
  "validate_rule_name name =
     (if name = [] then Inl NameEmpty
      else if str_len name > MAX_RULE_NAME_BYTES then Inl (NameTooLong (str_len name))
      else if 47 \<in> set name \<or> 92 \<in> set name then Inl NameSeparator
      else if name = [46] \<or> name = [46, 46] then Inl NameRelative
      else if list_ex is_control name then Inl NameControl
      else if list_ex is_format_or_separator name then Inl NameFormat
      else Inr ())"

section \<open>Paths a rule may be bound to (translator/process\_binding.rs)\<close>

definition NOT_A_PROGRAM_FILE :: "rstr list" where
  "NOT_A_PROGRAM_FILE = [lit ''/proc/'', lit ''/memfd:'', lit ''/dev/fd/'']"

definition is_bindable_process_path :: "rstr \<Rightarrow> bool" where
  "is_bindable_process_path process_path =
     (case process_path of
        [] \<Rightarrow> False
      | c # rest \<Rightarrow>
          c = 47
          \<and> \<not> list_ex is_control process_path
          \<and> \<not> list_ex (\<lambda>pre. prefix pre process_path) NOT_A_PROGRAM_FILE
          \<and> list_all (\<lambda>component. component \<notin> {[], [46], [46, 46]}) (split_on 47 rest))"

definition bindable_process_path :: "connection \<Rightarrow> rstr option" where
  "bindable_process_path conn =
     (let path = c_process_path conn in if is_bindable_process_path path then Some path else None)"

section \<open>Names of the bridge's answers (translator/verdict.rs)\<close>

fun verdict_action_str :: "verdict \<Rightarrow> rstr" where
  "verdict_action_str Allow = lit ''allow''"
| "verdict_action_str Deny = lit ''deny''"

definition hex_digit :: "nat \<Rightarrow> rchar" where
  "hex_digit n = (if n < 10 then 48 + n else 87 + n)"

definition hex_byte :: "nat \<Rightarrow> rstr" where
  "hex_byte b = [hex_digit (b div 16), hex_digit (b mod 16)]"

definition digest_hex :: "(nat list \<Rightarrow> nat list) \<Rightarrow> rstr \<Rightarrow> rstr" where
  "digest_hex sha identity = concat (map hex_byte (take 8 (sha (as_bytes identity))))"

definition rule_name_component ::
  "(nat list \<Rightarrow> nat list) \<Rightarrow> rstr \<Rightarrow> rstr \<Rightarrow> rstr \<Rightarrow> nat \<Rightarrow> rstr" where
  "rule_name_component sha display identity fallback max_base_len =
     (let cleaned = map (\<lambda>c. if is_ascii_alphanumeric c \<or> c = 46 \<or> c = 45 then c else 95) display;
          trimmed = trim_matches (\<lambda>c. c = 46 \<or> c = 45) cleaned;
          base = (if trimmed = [] then fallback
                  else take (min (length trimmed) max_base_len) trimmed)
      in base @ 45 # digest_hex sha identity)"

definition sanitize_host_for_rule_name :: "(nat list \<Rightarrow> nat list) \<Rightarrow> rstr \<Rightarrow> rstr" where
  "sanitize_host_for_rule_name sha raw = rule_name_component sha raw raw (lit ''host'') 48"

definition sanitize_process_for_rule_name :: "(nat list \<Rightarrow> nat list) \<Rightarrow> rstr \<Rightarrow> rstr" where
  "sanitize_process_for_rule_name sha process_path =
     rule_name_component sha (last (split_on 47 process_path)) process_path (lit ''process'') 32"

definition answer_name_prefix :: "verdict \<Rightarrow> rstr" where
  "answer_name_prefix verdict = lit ''snitchwatch-'' @ verdict_action_str verdict @ [45]"

definition rule_name_for ::
  "(nat list \<Rightarrow> nat list) \<Rightarrow> verdict \<Rightarrow> rstr \<Rightarrow> nat \<Rightarrow> rstr \<Rightarrow> rstr" where
  "rule_name_for sha verdict host port process_path =
     (let host_name = answer_name_prefix verdict @ sanitize_host_for_rule_name sha host
                        @ 45 # decimal port
      in if is_bindable_process_path process_path
         then host_name @ lit ''-p'' @ sanitize_process_for_rule_name sha process_path
         else host_name)"

definition is_answer_name :: "rstr \<Rightarrow> bool" where
  "is_answer_name name \<longleftrightarrow> list_ex (\<lambda>v. prefix (answer_name_prefix v) name) [Allow, Deny]"

text \<open>What \<open>sha2\<close> documents: 32 bytes come out.\<close>

definition sha256_shape :: "(nat list \<Rightarrow> nat list) \<Rightarrow> bool" where
  "sha256_shape sha \<longleftrightarrow> (\<forall>bs. length (sha bs) = 32 \<and> (\<forall>b \<in> set (sha bs). b < 256))"

section \<open>The alphabet and the length of a made name\<close>

lemma rule_name_for_prefix: "\<exists>rest. rule_name_for sha v host port path = answer_name_prefix v @ rest"
  by (simp add: rule_name_for_def Let_def)

lemma is_answer_name_made [simp]: "is_answer_name (rule_name_for sha v host port path)"
proof -
  obtain rest where "rule_name_for sha v host port path = answer_name_prefix v @ rest"
    using rule_name_for_prefix by blast
  then show ?thesis by (cases v) (simp_all add: is_answer_name_def)
qed

lemma rule_name_for_not_Nil [simp]: "rule_name_for sha v host port path \<noteq> []"
  by (metis Nil_is_append_conv answer_name_prefix_def lit_eq_Nil not_Cons_self2 rule_name_for_prefix)

definition safe_char :: "rchar \<Rightarrow> bool" where
  "safe_char c \<longleftrightarrow> is_ascii_alphanumeric c \<or> c = 46 \<or> c = 45 \<or> c = 95"

lemma safe_char_facts:
  assumes "safe_char c"
  shows "c < 0x80" "c \<noteq> 47" "c \<noteq> 92" "\<not> is_control c" "\<not> is_format_or_separator c"
  using assms
  by (auto simp: safe_char_def is_ascii_alphanumeric_def is_ascii_digit_def is_control_def
      is_format_or_separator_def)

lemma safe_valid:
  assumes "\<forall>c \<in> set s. safe_char c" "2 < length s" "length s \<le> MAX_RULE_NAME_BYTES"
  shows "validate_rule_name s = Inr ()"
proof -
  have ascii: "\<forall>c \<in> set s. c < 0x80" using assms(1) safe_char_facts(1) by blast
  have sep: "47 \<notin> set s" "92 \<notin> set s" using assms(1) safe_char_facts(2,3) by blast+
  have ctl: "\<not> list_ex is_control s" "\<not> list_ex is_format_or_separator s"
    using assms(1) safe_char_facts(4,5) by (auto simp: list_ex_iff)
  have short: "s \<noteq> []" "s \<noteq> [46]" "s \<noteq> [46, 46]" using assms(2) by auto
  show ?thesis
    using assms(3) sep ctl short str_len_ascii[OF ascii] by (simp add: validate_rule_name_def)
qed

lemma hex_digit_safe: "n < 16 \<Longrightarrow> safe_char (hex_digit n) \<and> hex_digit n \<noteq> 45"
  by (auto simp: hex_digit_def safe_char_def is_ascii_alphanumeric_def is_ascii_digit_def)

lemma digest_hex_chars:
  assumes "sha256_shape sha" "c \<in> set (digest_hex sha identity)"
  shows "safe_char c \<and> c \<noteq> 45"
proof -
  obtain b where b: "b \<in> set (sha (as_bytes identity))" "c \<in> set (hex_byte b)"
    using assms(2) by (auto simp: digest_hex_def dest: in_set_takeD)
  then have "b < 256" using assms(1) by (simp add: sha256_shape_def)
  then have "b div 16 < 16" by (simp add: less_mult_imp_div_less)
  then show ?thesis using b(2) hex_digit_safe by (auto simp: hex_byte_def)
qed

lemma length_digest_hex: "sha256_shape sha \<Longrightarrow> length (digest_hex sha identity) = 16"
proof -
  have "length (concat (map hex_byte bs)) = 2 * length bs" for bs
    by (induction bs) (auto simp: hex_byte_def)
  then show "sha256_shape sha \<Longrightarrow> ?thesis"
    by (simp add: digest_hex_def sha256_shape_def)
qed

lemma digest_hex_dash: "sha256_shape sha \<Longrightarrow> 45 \<notin> set (digest_hex sha identity)"
  using digest_hex_chars by blast

definition component_base :: "rstr \<Rightarrow> rstr \<Rightarrow> nat \<Rightarrow> rstr" where
  "component_base display fallback n =
     (let trimmed = trim_matches (\<lambda>c. c = 46 \<or> c = 45)
            (map (\<lambda>c. if is_ascii_alphanumeric c \<or> c = 46 \<or> c = 45 then c else 95) display)
      in if trimmed = [] then fallback else take (min (length trimmed) n) trimmed)"

lemma rule_name_component_eq:
  "rule_name_component sha display identity fallback n =
     component_base display fallback n @ 45 # digest_hex sha identity"
  by (simp add: rule_name_component_def component_base_def Let_def)

lemma component_base_safe:
  assumes "\<forall>c \<in> set fallback. safe_char c" "c \<in> set (component_base display fallback n)"
  shows "safe_char c"
proof -
  let ?clean = "map (\<lambda>c. if is_ascii_alphanumeric c \<or> c = 46 \<or> c = 45 then c else 95) display"
  have "c \<in> set fallback \<or> c \<in> set ?clean"
    using assms(2) set_trim_matches[of _ ?clean]
    by (auto simp: component_base_def Let_def dest!: in_set_takeD split: if_splits)
  then show ?thesis using assms(1) by (auto simp: safe_char_def)
qed

lemma length_component_base:
  "length fallback \<le> n \<Longrightarrow> length (component_base display fallback n) \<le> n"
  by (auto simp: component_base_def Let_def)

lemma decimal_safe: "c \<in> set (decimal n) \<Longrightarrow> safe_char c \<and> c \<noteq> 45"
  using decimal_digits[of c n]
  by (auto simp: safe_char_def is_ascii_alphanumeric_def is_ascii_digit_def)

lemma length_decimal: "n < 10 ^ k \<Longrightarrow> 0 < k \<Longrightarrow> length (decimal n) \<le> k"
proof (induction k arbitrary: n)
  case 0
  then show ?case by simp
next
  case (Suc k)
  show ?case
  proof (cases "n < 10")
    case True
    then show ?thesis by (subst decimal.simps) simp
  next
    case False
    with Suc.prems have "n div 10 < 10 ^ k" "0 < k"
      by (auto simp: less_mult_imp_div_less mult.commute intro!: Nat.gr0I)
    then have "length (decimal (n div 10)) \<le> k" by (rule Suc.IH)
    then show ?thesis using False by (subst decimal.simps) simp
  qed
qed

lemma answer_name_prefix_eq:
  "answer_name_prefix Allow = lit ''snitchwatch-allow-''"
  "answer_name_prefix Deny = lit ''snitchwatch-deny-''"
  by (simp_all add: answer_name_prefix_def lit_def)

lemma answer_name_prefix_safe: "c \<in> set (answer_name_prefix v) \<Longrightarrow> safe_char c"
  by (cases v) (auto simp: answer_name_prefix_eq lit_def safe_char_def is_ascii_alphanumeric_def
      is_ascii_digit_def)

lemma fallback_safe:
  "c \<in> set (lit ''host'') \<Longrightarrow> safe_char c" "c \<in> set (lit ''process'') \<Longrightarrow> safe_char c"
  by (auto simp: lit_def safe_char_def is_ascii_alphanumeric_def is_ascii_digit_def)

lemma rule_name_for_safe:
  assumes shape: "sha256_shape sha" and "c \<in> set (rule_name_for sha v host port path)"
  shows "safe_char c"
proof -
  have p: "safe_char 112" "safe_char 45"
    by (auto simp: safe_char_def is_ascii_alphanumeric_def)
  show ?thesis
    using assms(2) p fallback_safe answer_name_prefix_safe decimal_safe digest_hex_chars[OF shape]
    by (auto simp: rule_name_for_def sanitize_host_for_rule_name_def
        sanitize_process_for_rule_name_def rule_name_component_eq Let_def lit_def[of "''-p''"]
        dest!: component_base_safe[rotated] split: if_splits)
qed

lemma length_rule_name_for:
  assumes shape: "sha256_shape sha" and port: "port < 65536"
  shows "length (rule_name_for sha v host port path) \<le> 140"
    and "18 < length (rule_name_for sha v host port path)"
proof -
  have d: "length (decimal port) \<le> 5" using port by (intro length_decimal) auto
  have pre: "length (answer_name_prefix v) \<le> 18" "17 \<le> length (answer_name_prefix v)"
    by (cases v; simp add: answer_name_prefix_eq lit_def)+
  have h: "length (component_base host (lit ''host'') 48) \<le> 48"
    by (rule length_component_base) (simp add: lit_def)
  have q: "length (component_base (last (split_on 47 path)) (lit ''process'') 32) \<le> 32"
    by (rule length_component_base) (simp add: lit_def)
  show "length (rule_name_for sha v host port path) \<le> 140"
    and "18 < length (rule_name_for sha v host port path)"
    using d pre h q
    by (auto simp: rule_name_for_def sanitize_host_for_rule_name_def length_digest_hex[OF shape]
        sanitize_process_for_rule_name_def rule_name_component_eq Let_def lit_def[of "''-p''"])
qed

section \<open>Distinct answers, distinct names\<close>

lemma first_sep_inject:
  "x1 @ c # y1 = x2 @ c # y2 \<Longrightarrow> c \<notin> set x1 \<Longrightarrow> c \<notin> set x2 \<Longrightarrow> x1 = x2 \<and> y1 = y2"
proof (induction x1 arbitrary: x2)
  case Nil
  then show ?case by (cases x2) auto
next
  case (Cons a x1)
  then show ?case by (cases x2) auto
qed

lemma last_sep_inject:
  assumes "x1 @ c # y1 = x2 @ c # y2" "c \<notin> set y1" "c \<notin> set y2"
  shows "x1 = x2 \<and> y1 = y2"
proof -
  have "rev y1 @ c # rev x1 = rev y2 @ c # rev x2"
    using assms(1) by (metis append.assoc append_Cons append_Nil rev.simps(2) rev_append)
  then have "rev y1 = rev y2 \<and> rev x1 = rev x2"
    using assms(2,3) by (intro first_sep_inject) auto
  then show ?thesis by simp
qed

text \<open>The name without the program part, cut into its pieces.\<close>

definition host_answer_name :: "(nat list \<Rightarrow> nat list) \<Rightarrow> verdict \<Rightarrow> rstr \<Rightarrow> nat \<Rightarrow> rstr" where
  "host_answer_name sha v host port =
     ((answer_name_prefix v @ component_base host (lit ''host'') 48) @ 45 # digest_hex sha host)
       @ 45 # decimal port"

lemma rule_name_for_eq:
  "rule_name_for sha v host port path =
     (if is_bindable_process_path path
      then (host_answer_name sha v host port
              @ 45 # 112 # component_base (last (split_on 47 path)) (lit ''process'') 32)
             @ 45 # digest_hex sha path
      else host_answer_name sha v host port)"
  by (simp add: rule_name_for_def host_answer_name_def sanitize_host_for_rule_name_def
      sanitize_process_for_rule_name_def rule_name_component_eq Let_def lit_def[of "''-p''"])

lemma answer_name_prefix_cancel:
  assumes "answer_name_prefix v1 @ x = answer_name_prefix v2 @ y"
  shows "v1 = v2"
proof -
  have *: "take 13 (answer_name_prefix v @ z) = lit ''snitchwatch-'' @ [hd (verdict_action_str v)]" for v z
    by (cases v) (simp_all add: answer_name_prefix_eq lit_def)
  have "take 13 (answer_name_prefix v1 @ x) = take 13 (answer_name_prefix v2 @ y)"
    using assms by simp
  then have "hd (verdict_action_str v1) = hd (verdict_action_str v2)" unfolding * by simp
  then show ?thesis by (cases v1; cases v2) (simp_all add: lit_def)
qed

lemma host_answer_name_inject:
  assumes shape: "sha256_shape sha"
    and eq: "host_answer_name sha v1 h1 p1 = host_answer_name sha v2 h2 p2"
  shows "v1 = v2 \<and> p1 = p2 \<and> digest_hex sha h1 = digest_hex sha h2"
proof -
  have dash: "45 \<notin> set (decimal n)" "45 \<notin> set (digest_hex sha s)" for n s
    using decimal_safe digest_hex_dash[OF shape] by blast+
  have "decimal p1 = decimal p2"
    and l: "(answer_name_prefix v1 @ component_base h1 (lit ''host'') 48) @ 45 # digest_hex sha h1 =
            (answer_name_prefix v2 @ component_base h2 (lit ''host'') 48) @ 45 # digest_hex sha h2"
    using last_sep_inject[OF eq[unfolded host_answer_name_def]] dash by auto
  moreover have "digest_hex sha h1 = digest_hex sha h2"
    and "answer_name_prefix v1 @ component_base h1 (lit ''host'') 48 =
         answer_name_prefix v2 @ component_base h2 (lit ''host'') 48"
    using last_sep_inject[OF l] dash by auto
  ultimately show ?thesis using answer_name_prefix_cancel decimal_inject by blast
qed

lemma program_part_tells:
  assumes shape: "sha256_shape sha" and port: "p2 < 65536"
    and eq: "rule_name_for sha v1 h1 p1 path1 = rule_name_for sha v2 h2 p2 path2"
    and b1: "is_bindable_process_path path1"
  shows "is_bindable_process_path path2"
proof (rule ccontr)
  assume "\<not> is_bindable_process_path path2"
  with b1 eq have cut: "(host_answer_name sha v1 h1 p1
        @ 45 # 112 # component_base (last (split_on 47 path1)) (lit ''process'') 32)
          @ 45 # digest_hex sha path1 =
      ((answer_name_prefix v2 @ component_base h2 (lit ''host'') 48) @ 45 # digest_hex sha h2)
          @ 45 # decimal p2"
    by (simp add: rule_name_for_eq host_answer_name_def[of _ v2])
  then have "digest_hex sha path1 = decimal p2"
    using last_sep_inject[OF cut] digest_hex_dash[OF shape] decimal_safe by blast
  then have "length (decimal p2) = 16" using length_digest_hex[OF shape, of path1] by simp
  moreover have "length (decimal p2) \<le> 5" using port by (intro length_decimal) auto
  ultimately show False by simp
qed

text \<open>
  C9. The names of two prompt answers are equal only if the answers agree: with no SHA-256
  collision between the two hosts or between the two program paths (on the eight digest
  bytes the name keeps), equal names mean the same verdict, host and port, and both or
  neither are bound to a program, the same one.
\<close>

theorem answer_names_distinct:
  assumes shape: "sha256_shape sha"
    and ports: "p1 < 65536" "p2 < 65536"
    and host_collision: "digest_hex sha h1 = digest_hex sha h2 \<Longrightarrow> h1 = h2"
    and path_collision: "digest_hex sha path1 = digest_hex sha path2 \<Longrightarrow> path1 = path2"
    and eq: "rule_name_for sha v1 h1 p1 path1 = rule_name_for sha v2 h2 p2 path2"
  shows "v1 = v2 \<and> h1 = h2 \<and> p1 = p2
         \<and> (is_bindable_process_path path1 = is_bindable_process_path path2)
         \<and> (is_bindable_process_path path1 \<longrightarrow> path1 = path2)"
proof -
  have both: "is_bindable_process_path path1 = is_bindable_process_path path2"
    using program_part_tells[OF shape ports(2) eq] program_part_tells[OF shape ports(1) eq[symmetric]]
    by blast
  have "host_answer_name sha v1 h1 p1 = host_answer_name sha v2 h2 p2
          \<and> (is_bindable_process_path path1 \<longrightarrow> path1 = path2)"
  proof (cases "is_bindable_process_path path1")
    case True
    with both eq have cut: "(host_answer_name sha v1 h1 p1
          @ 45 # 112 # component_base (last (split_on 47 path1)) (lit ''process'') 32)
            @ 45 # digest_hex sha path1 =
        (host_answer_name sha v2 h2 p2
          @ 45 # 112 # component_base (last (split_on 47 path2)) (lit ''process'') 32)
            @ 45 # digest_hex sha path2"
      by (simp add: rule_name_for_eq)
    have "digest_hex sha path1 = digest_hex sha path2"
      using last_sep_inject[OF cut] digest_hex_dash[OF shape] by blast
    then have "path1 = path2" by (rule path_collision)
    with cut show ?thesis by simp
  next
    case False
    with both eq show ?thesis by (simp add: rule_name_for_eq)
  qed
  then show ?thesis using host_answer_name_inject[OF shape] host_collision both by blast
qed

definition example_sha :: "nat list \<Rightarrow> nat list" where
  "example_sha bs = take 32 (map (\<lambda>b. b mod 256) bs @ replicate 32 0)"

lemma example_sha_shape: "sha256_shape example_sha"
  by (auto simp: sha256_shape_def example_sha_def dest!: in_set_takeD)

theorem answer_names_distinct_witness:
  "rule_name_for example_sha Allow (lit ''a.example'') 443 (lit ''/usr/bin/curl'')
     \<noteq> rule_name_for example_sha Allow (lit ''b.example'') 443 (lit ''/usr/bin/curl'')"
proof
  assume eq: "rule_name_for example_sha Allow (lit ''a.example'') 443 (lit ''/usr/bin/curl'')
     = rule_name_for example_sha Allow (lit ''b.example'') 443 (lit ''/usr/bin/curl'')"
  have "digest_hex example_sha (lit ''a.example'') \<noteq> digest_hex example_sha (lit ''b.example'')"
    by code_simp
  then have "lit ''a.example'' = lit ''b.example''"
    using answer_names_distinct[OF example_sha_shape _ _ _ _ eq] by simp
  then show False by simp
qed

lemma answer_name_valid:
  assumes "sha256_shape sha" "port < 65536"
  shows "validate_rule_name (rule_name_for sha v host port path) = Inr ()"
  using rule_name_for_safe[OF assms(1)] length_rule_name_for[OF assms, of v host path]
  by (intro safe_valid) (auto simp: MAX_RULE_NAME_BYTES_def)

lemma answer_name_not_reserved: "\<not> is_reserved_name (rule_name_for sha v host port path)"
proof -
  obtain rest where n: "rule_name_for sha v host port path = answer_name_prefix v @ rest"
    using rule_name_for_prefix by blast
  show ?thesis
    unfolding n is_reserved_name_def is_reserved_blocklist_name_def is_reserved_profile_name_def
      is_reserved_packaged_name_def is_reserved_curated_name_def
      BLOCKLIST_RULE_NAME_PREFIX_def LEGACY_BLOCKLIST_RULE_NAME_PREFIX_def
      PACKAGED_RULE_NAME_PREFIX_def CURATED_DEFAULT_RULE_NAME_PREFIX_def PROFILE_RULE_NAME_PREFIX_def
    by (cases v) (auto simp: answer_name_prefix_eq lit_def)
qed

text \<open>
  Every name the bridge makes for an answer is one its own checks accept: it passes
  \<open>validate_rule_name\<close>, it is under no reserved prefix, it is recognised as an answer's
  name, and it is made of letters, digits, dots, dashes and underscores only, 140 bytes at
  most, whatever the (hostile) host and path are.
\<close>

theorem answer_names_accepted:
  assumes shape: "sha256_shape sha" and port: "port < 65536"
  shows "validate_rule_name (rule_name_for sha v host port path) = Inr ()
         \<and> \<not> is_reserved_name (rule_name_for sha v host port path)
         \<and> is_answer_name (rule_name_for sha v host port path)
         \<and> (\<forall>c \<in> set (rule_name_for sha v host port path).
              is_ascii_alphanumeric c \<or> c = 46 \<or> c = 45 \<or> c = 95)
         \<and> str_len (rule_name_for sha v host port path) \<le> 140"
proof -
  let ?n = "rule_name_for sha v host port path"
  have safe: "\<forall>c \<in> set ?n. safe_char c" using rule_name_for_safe[OF shape] by blast
  moreover have "str_len ?n = length ?n"
    using safe safe_char_facts(1) by (intro str_len_ascii) blast
  ultimately show ?thesis
    using answer_name_valid[OF shape port] answer_name_not_reserved length_rule_name_for[OF shape port, of v host path]
    by (auto simp: safe_char_def)
qed

theorem answer_names_accepted_witness:
  "validate_rule_name (rule_name_for example_sha Deny (lit ''../../etc/cron.d/x'') 443 (lit ''/tmp/a b'')) = Inr ()
   \<and> 47 \<notin> set (rule_name_for example_sha Deny (lit ''../../etc/cron.d/x'') 443 (lit ''/tmp/a b''))"
  using answer_names_accepted[OF example_sha_shape, of 443 Deny "lit ''../../etc/cron.d/x''" "lit ''/tmp/a b''"]
  by (auto simp: is_ascii_alphanumeric_def is_ascii_digit_def)

section \<open>Bindable paths are canonical\<close>

text \<open>
  The reference: lexical cleaning of an absolute path, as a path library does it. Empty and
  \<open>.\<close> components are dropped, \<open>..\<close> removes the component before it.
\<close>

fun clean_components :: "rstr list \<Rightarrow> rstr list \<Rightarrow> rstr list" where
  "clean_components acc [] = rev acc"
| "clean_components acc (p # ps) =
     (if p = [] \<or> p = [46] then clean_components acc ps
      else if p = [46, 46] then clean_components (tl acc) ps
      else clean_components (p # acc) ps)"

definition clean_path :: "rstr \<Rightarrow> rstr" where
  "clean_path p = 47 # join_with 47 (clean_components [] (split_on 47 p))"

lemma clean_components_canonical:
  "\<forall>p \<in> set ps. p \<notin> {[], [46], [46, 46]} \<Longrightarrow> clean_components acc ps = rev acc @ ps"
  by (induction ps arbitrary: acc) auto

text \<open>
  A path a remembered rule may be bound to is absolute and already clean: cleaning it
  changes nothing, it names a file (its last component), it has no control character, and
  it lies under none of \<open>/proc/\<close>, \<open>/memfd:\<close> and \<open>/dev/fd/\<close>.
\<close>

theorem bindable_paths_canonical:
  assumes "is_bindable_process_path p"
  shows "clean_path p = p \<and> file_name p = Some (last (split_on 47 p))
         \<and> (\<forall>c \<in> set p. \<not> is_control c)
         \<and> (\<forall>pre \<in> {lit ''/proc/'', lit ''/memfd:'', lit ''/dev/fd/''}. \<not> prefix pre p)"
proof -
  obtain rest where p: "p = 47 # rest"
    and ctl: "\<not> list_ex is_control p"
    and pre: "\<not> list_ex (\<lambda>pre. prefix pre p) NOT_A_PROGRAM_FILE"
    and comps: "\<forall>q \<in> set (split_on 47 rest). q \<notin> {[], [46], [46, 46]}"
    using assms by (auto simp: is_bindable_process_path_def list_all_iff split: list.splits)
  have "clean_path p = p"
    using clean_components_canonical[OF comps, of "[]"] by (simp add: clean_path_def p)
  moreover have "filter (\<lambda>q. q \<noteq> [] \<and> q \<noteq> [46]) (split_on 47 p) = split_on 47 rest"
    using comps by (simp add: p)
  moreover have "last (split_on 47 rest) \<in> set (split_on 47 rest)" by simp
  with comps have "last (split_on 47 rest) \<noteq> [46, 46]" by blast
  ultimately show ?thesis
    using ctl pre by (auto simp: file_name_def Let_def p list_ex_iff NOT_A_PROGRAM_FILE_def)
qed

theorem bindable_paths_canonical_witness:
  "clean_path (lit ''/usr/bin/curl'') = lit ''/usr/bin/curl''"
proof -
  have "is_bindable_process_path (lit ''/usr/bin/curl'')" by code_simp
  then show ?thesis using bindable_paths_canonical by blast
qed

end
