(* ===== verification/Verdict.thy ===== *)
theory Verdict
  imports Rule_Name
begin

text \<open>
  From a verdict to the rule the daemon gets (\<open>translator/verdict.rs\<close>): the operator of
  each scope, the refusal to remember an answer for a program without a file, and the
  scopes a deny could not keep.

  Parameters: \<open>sha\<close> (the \<open>sha2\<close> crate), \<open>dns_prefix\<close> (\<open>addr::parse_dns_name\<close>
  and \<open>Name::prefix\<close>: \<open>None\<close> when the name does not parse, otherwise the labels before
  the registrable domain, if any) and \<open>regex_escape\<close> (the \<open>regex\<close> crate).
\<close>

type_synonym dns_lib = "rstr \<Rightarrow> rstr option option"

datatype rule_refusal = ProcessFileUnknown

datatype scope_degradation =
  NoHostRecorded | BareIpAddress | InvalidHostnameShape | AtOrAboveRegistrableDomain
| ProcessPathUnavailable

section \<open>Operators\<close>

definition simple_operator :: "rstr \<Rightarrow> rstr \<Rightarrow> operator" where
  "simple_operator operand data = Operator (lit ''simple'') operand data False []"

definition this_host_operator :: "connection \<Rightarrow> operator" where
  "this_host_operator conn =
     (if c_dst_host conn = [] then simple_operator (lit ''dest.ip'') (c_dst_ip conn)
      else simple_operator (lit ''dest.host'') (c_dst_host conn))"

definition is_valid_hostname_shape :: "rstr \<Rightarrow> bool" where
  "is_valid_hostname_shape host =
     (if host = [] \<or> str_len host > 253 then False
      else if hd host = 46 \<or> last host = 46 then False
      else list_all (\<lambda>label. label \<noteq> [] \<and> str_len label \<le> 63
             \<and> list_all (\<lambda>c. is_ascii_alphanumeric c \<or> c = 45 \<or> c = 95) label)
             (split_on 46 host))"

text \<open>The regular expression before the parent domain: any number of labels with their
  dots (92 is the backslash that makes the dot literal).\<close>

definition subdomains_pattern :: rstr where
  "subdomains_pattern = lit ''^(?:[^.]+'' @ 92 # lit ''.)*''"

definition any_host_on_domain_operator_checked ::
  "dns_lib \<Rightarrow> (rstr \<Rightarrow> rstr) \<Rightarrow> connection \<Rightarrow> operator \<times> scope_degradation option" where
  "any_host_on_domain_operator_checked dns_prefix regex_escape conn =
     (let raw_host = c_dst_host conn
      in if raw_host = [] then (this_host_operator conn, Some NoHostRecorded)
         else if parses_as_ip_addr raw_host then (this_host_operator conn, Some BareIpAddress)
         else
           (let host = to_ascii_lowercase raw_host
            in if \<not> is_valid_hostname_shape host
               then (this_host_operator conn, Some InvalidHostnameShape)
               else (case dns_prefix host of
                       None \<Rightarrow> (this_host_operator conn, Some InvalidHostnameShape)
                     | Some None \<Rightarrow> (this_host_operator conn, Some AtOrAboveRegistrableDomain)
                     | Some (Some _) \<Rightarrow>
                         (let labels = split_on 46 host;
                              parent_domain = join_with 46 (tl labels);
                              pattern = subdomains_pattern @ regex_escape parent_domain @ lit ''$''
                          in (Operator (lit ''regexp'') (lit ''dest.host'') pattern False [], None)))))"

definition process_path_operator :: "connection \<Rightarrow> operator" where
  "process_path_operator conn =
     Operator (lit ''simple'') (lit ''process.path'') (c_process_path conn) True []"

definition any_host_operator_checked :: "connection \<Rightarrow> operator \<times> scope_degradation option" where
  "any_host_operator_checked conn =
     (if bindable_process_path conn = None
      then (this_host_operator conn, Some ProcessPathUnavailable)
      else (process_path_operator conn, None))"

definition bind_to_process :: "operator \<Rightarrow> connection \<Rightarrow> operator" where
  "bind_to_process host conn =
     (if bindable_process_path conn = None then host
      else Operator (lit ''list'') (lit ''list'') [] False [process_path_operator conn, host])"

fun build_operator_checked ::
  "dns_lib \<Rightarrow> (rstr \<Rightarrow> rstr) \<Rightarrow> verdict_scope \<Rightarrow> connection \<Rightarrow> operator \<times> scope_degradation option" where
  "build_operator_checked dns_prefix regex_escape ThisHost conn =
     (bind_to_process (this_host_operator conn) conn, None)"
| "build_operator_checked dns_prefix regex_escape AnyHostOnDomain conn =
     (let (host, degradation) = any_host_on_domain_operator_checked dns_prefix regex_escape conn
      in (bind_to_process host conn, degradation))"
| "build_operator_checked dns_prefix regex_escape AnyHost conn = any_host_operator_checked conn"

definition scope_degradation ::
  "dns_lib \<Rightarrow> (rstr \<Rightarrow> rstr) \<Rightarrow> verdict_scope \<Rightarrow> verdict \<Rightarrow> connection \<Rightarrow> scope_degradation option" where
  "scope_degradation dns_prefix regex_escape scope verdict conn =
     (if verdict \<noteq> Deny then None
      else snd (build_operator_checked dns_prefix regex_escape scope conn))"

section \<open>Rules\<close>

definition build_rule ::
  "(nat list \<Rightarrow> nat list) \<Rightarrow> dns_lib \<Rightarrow> (rstr \<Rightarrow> rstr) \<Rightarrow>
   verdict \<Rightarrow> verdict_duration \<Rightarrow> verdict_scope \<Rightarrow> connection \<Rightarrow> int \<Rightarrow> rule" where
  "build_rule sha dns_prefix regex_escape verdict duration scope conn now_secs =
     (let host = (if c_dst_host conn = [] then c_dst_ip conn else c_dst_host conn)
      in \<lparr> r_created = now_secs,
           r_name = rule_name_for sha verdict host (c_dst_port conn mod 65536) (c_process_path conn),
           r_description = lit ''snitchwatch interactive verdict'',
           r_enabled = True,
           r_precedence = False,
           r_nolog = False,
           r_action = verdict_action_str verdict,
           r_duration = daemon_duration_str duration,
           r_operator = Some (fst (build_operator_checked dns_prefix regex_escape scope conn)) \<rparr>)"

definition verdict_to_rule ::
  "(nat list \<Rightarrow> nat list) \<Rightarrow> dns_lib \<Rightarrow> (rstr \<Rightarrow> rstr) \<Rightarrow>
   verdict \<Rightarrow> verdict_duration \<Rightarrow> verdict_scope \<Rightarrow> connection \<Rightarrow> int \<Rightarrow> rule_refusal + rule" where
  "verdict_to_rule sha dns_prefix regex_escape verdict duration scope conn now_secs =
     (if remembers duration \<and> bindable_process_path conn = None then Inl ProcessFileUnknown
      else Inr (build_rule sha dns_prefix regex_escape verdict duration scope conn now_secs))"

definition once_rule ::
  "(nat list \<Rightarrow> nat list) \<Rightarrow> dns_lib \<Rightarrow> (rstr \<Rightarrow> rstr) \<Rightarrow>
   verdict \<Rightarrow> verdict_scope \<Rightarrow> connection \<Rightarrow> int \<Rightarrow> rule" where
  "once_rule sha dns_prefix regex_escape verdict scope conn now_secs =
     build_rule sha dns_prefix regex_escape verdict Once scope conn now_secs"

section \<open>A remembered answer is about one program\<close>

text \<open>
  The operators that constrain the executable: the exact, case-sensitive compare of
  \<open>process.path\<close>, alone or as a member of a list (the daemon ANDs the members).
\<close>

definition binds_program :: "rstr \<Rightarrow> operator \<Rightarrow> bool" where
  "binds_program path op \<longleftrightarrow>
     (let exact = Operator (lit ''simple'') (lit ''process.path'') path True []
      in op = exact \<or> (op_type op = lit ''list'' \<and> exact \<in> set (op_list op)))"

lemma build_operator_binds:
  assumes "bindable_process_path conn = Some path"
  shows "binds_program path (fst (build_operator_checked dns_prefix regex_escape scope conn))"
proof -
  have "c_process_path conn = path"
    using assms by (simp add: bindable_process_path_def Let_def split: if_splits)
  then show ?thesis
    using assms
    by (cases scope)
      (auto simp: binds_program_def bind_to_process_def process_path_operator_def
        any_host_operator_checked_def Let_def split: prod.splits)
qed

text \<open>
  C3. A remembered answer becomes a rule exactly when the connection has a program file a
  rule may name, and then the rule is bound to that executable, whatever the scope;
  otherwise the answer is refused with its reason. No remembered rule applies to every
  program.
\<close>

theorem remembered_rules_bound:
  "remembers duration \<Longrightarrow>
   (case verdict_to_rule sha dns_prefix regex_escape verdict duration scope conn now_secs of
      Inr r \<Rightarrow> is_bindable_process_path (c_process_path conn)
               \<and> (\<exists>op. r_operator r = Some op \<and> binds_program (c_process_path conn) op)
               \<and> r_duration r = daemon_duration_str duration
               \<and> r_action r = verdict_action_str verdict
    | Inl e \<Rightarrow> e = ProcessFileUnknown \<and> \<not> is_bindable_process_path (c_process_path conn))"
proof -
  assume "remembers duration"
  moreover have "bindable_process_path conn = Some p \<Longrightarrow>
      p = c_process_path conn \<and> is_bindable_process_path p" for p
    by (simp add: bindable_process_path_def Let_def split: if_splits)
  moreover have "bindable_process_path conn = None \<longleftrightarrow> \<not> is_bindable_process_path (c_process_path conn)"
    by (simp add: bindable_process_path_def Let_def)
  ultimately show ?thesis
    using build_operator_binds[of conn _ dns_prefix regex_escape scope]
    by (auto simp: verdict_to_rule_def build_rule_def Let_def)
qed

definition example_conn :: connection where
  "example_conn = \<lparr> c_protocol = lit ''tcp'', c_dst_ip = lit ''93.184.216.34'',
     c_dst_host = lit ''api.example.com'', c_dst_port = 443, c_process_path = lit ''/usr/bin/curl'' \<rparr>"

theorem remembered_rules_bound_witness:
  "\<exists>r op. verdict_to_rule example_sha (\<lambda>_. None) id Allow Always ThisHost example_conn 0 = Inr r
     \<and> r_operator r = Some op \<and> binds_program (lit ''/usr/bin/curl'') op"
proof -
  have "is_bindable_process_path (lit ''/usr/bin/curl'')" by code_simp
  then have "\<exists>r. verdict_to_rule example_sha (\<lambda>_. None) id Allow Always ThisHost example_conn 0 = Inr r"
    by (simp add: verdict_to_rule_def bindable_process_path_def example_conn_def Let_def)
  then show ?thesis
    using remembered_rules_bound[where duration = Always and sha = example_sha and regex_escape = id
        and dns_prefix = "\<lambda>_. None" and verdict = Allow and scope = ThisHost
        and conn = example_conn and now_secs = 0]
    by (auto simp: example_conn_def)
qed

section \<open>The domain scope stays below the registrable domain\<close>

text \<open>What \<open>addr\<close> documents of \<open>prefix()\<close>: the labels before the registrable domain.\<close>

definition dns_prefix_spec :: "(rstr \<Rightarrow> bool) \<Rightarrow> dns_lib \<Rightarrow> bool" where
  "dns_prefix_spec registrable dns_prefix \<longleftrightarrow>
     (\<forall>host pre. dns_prefix host = Some (Some pre) \<longrightarrow>
        (\<exists>root. host = pre @ 46 # root \<and> registrable root))"

text \<open>
  C8. The domain scope never reaches its registrable domain's siblings: whenever a wildcard
  pattern is emitted, the domain it is anchored to is the registrable domain of the
  lower-cased host or a domain below it. In every other case the rule falls back to the
  exact host and a deny reports why.
\<close>

theorem domain_wildcard_below_registrable:
  assumes psl: "dns_prefix_spec registrable dns_prefix"
  shows "case any_host_on_domain_operator_checked dns_prefix regex_escape conn of
           (op, None) \<Rightarrow>
             (\<exists>parent root. op_data op = subdomains_pattern @ regex_escape parent @ lit ''$''
                \<and> op_type op = lit ''regexp'' \<and> op_operand op = lit ''dest.host''
                \<and> registrable root \<and> suffix root (to_ascii_lowercase (c_dst_host conn))
                \<and> (parent = root \<or> suffix (46 # root) parent))
         | (op, Some why) \<Rightarrow>
             op = this_host_operator conn
             \<and> scope_degradation dns_prefix regex_escape AnyHostOnDomain Deny conn = Some why"
proof (cases "snd (any_host_on_domain_operator_checked dns_prefix regex_escape conn)")
  case None
  define host where "host = to_ascii_lowercase (c_dst_host conn)"
  from None obtain pre where pre: "dns_prefix host = Some (Some pre)"
    and op: "fst (any_host_on_domain_operator_checked dns_prefix regex_escape conn) =
      Operator (lit ''regexp'') (lit ''dest.host'')
        (subdomains_pattern @ regex_escape (join_with 46 (tl (split_on 46 host))) @ lit ''$'') False []"
    by (auto simp: any_host_on_domain_operator_checked_def host_def Let_def split: if_splits option.splits)
  from psl pre obtain root where root: "host = pre @ 46 # root" "registrable root"
    by (auto simp: dns_prefix_spec_def)
  have labels: "split_on 46 host = split_on 46 pre @ split_on 46 root"
    by (simp add: root split_on_append)
  have "join_with 46 (tl (split_on 46 host)) = root
        \<or> suffix (46 # root) (join_with 46 (tl (split_on 46 host)))"
  proof (cases "tl (split_on 46 pre)")
    case Nil
    then show ?thesis by (simp add: labels)
  next
    case (Cons p ps)
    then have "join_with 46 (tl (split_on 46 host)) = join_with 46 (p # ps) @ 46 # root"
      using join_with_append[of "p # ps" "split_on 46 root" 46] by (simp add: labels)
    then show ?thesis by (simp add: suffix_def)
  qed
  moreover have "suffix root host" by (simp add: root(1) suffix_def)
  ultimately have "\<exists>parent root'. subdomains_pattern @ regex_escape (join_with 46 (tl (split_on 46 host))) @ lit ''$''
                = subdomains_pattern @ regex_escape parent @ lit ''$''
              \<and> registrable root' \<and> suffix root' host \<and> (parent = root' \<or> suffix (46 # root') parent)"
    using root(2) by blast
  moreover have "any_host_on_domain_operator_checked dns_prefix regex_escape conn =
      (Operator (lit ''regexp'') (lit ''dest.host'')
        (subdomains_pattern @ regex_escape (join_with 46 (tl (split_on 46 host))) @ lit ''$'') False [], None)"
    using None op by (metis prod.collapse)
  ultimately show ?thesis unfolding host_def[symmetric] by simp
next
  case (Some why)
  then show ?thesis
    by (auto simp: scope_degradation_def any_host_on_domain_operator_checked_def Let_def
        split: if_splits option.splits)
qed

definition example_psl :: dns_lib where
  "example_psl host = (if host = lit ''api.example.com'' then Some (Some (lit ''api'')) else Some None)"

theorem domain_wildcard_below_registrable_witness:
  "\<exists>op parent. any_host_on_domain_operator_checked example_psl id example_conn = (op, None)
     \<and> op_data op = subdomains_pattern @ parent @ lit ''$''
     \<and> (parent = lit ''example.com'' \<or> suffix (46 # lit ''example.com'') parent)"
proof -
  have spec: "dns_prefix_spec (\<lambda>r. r = lit ''example.com'') example_psl"
    by (auto simp: dns_prefix_spec_def example_psl_def lit_def split: if_splits)
  have "snd (any_host_on_domain_operator_checked example_psl id example_conn) = None"
    by code_simp
  then show ?thesis
    using domain_wildcard_below_registrable[OF spec, of id example_conn]
    by (auto split: prod.splits)
qed

text \<open>
  The case of the letters in a host changes nothing about the domain scope: two hosts
  that differ in case only get the same pattern or the same reason to fall back. (The
  public suffix list knows lower-case names only; an upper-case host must not slip past
  it.)
\<close>

theorem domain_scope_ignores_case:
  assumes "to_ascii_lowercase (c_dst_host a) = to_ascii_lowercase (c_dst_host b)"
  shows "snd (any_host_on_domain_operator_checked dns_prefix regex_escape a) =
         snd (any_host_on_domain_operator_checked dns_prefix regex_escape b)
    \<and> (snd (any_host_on_domain_operator_checked dns_prefix regex_escape a) = None \<longrightarrow>
         fst (any_host_on_domain_operator_checked dns_prefix regex_escape a) =
         fst (any_host_on_domain_operator_checked dns_prefix regex_escape b))"
proof -
  have "parses_as_ip_addr (c_dst_host a) = parses_as_ip_addr (c_dst_host b)"
    using assms by (metis parses_as_ip_addr_lower)
  moreover have "c_dst_host a = [] \<longleftrightarrow> c_dst_host b = []"
    using assms by (auto simp: to_ascii_lowercase_def)
  ultimately show ?thesis
    using assms by (auto simp: any_host_on_domain_operator_checked_def Let_def split: option.splits)
qed

theorem domain_scope_ignores_case_witness:
  "snd (any_host_on_domain_operator_checked example_psl id
          (example_conn\<lparr>c_dst_host := lit ''USER.GITHUB.IO''\<rparr>)) = Some AtOrAboveRegistrableDomain"
proof -
  let ?up = "example_conn\<lparr>c_dst_host := lit ''USER.GITHUB.IO''\<rparr>"
  let ?low = "example_conn\<lparr>c_dst_host := lit ''user.github.io''\<rparr>"
  have "to_ascii_lowercase (c_dst_host ?up) = to_ascii_lowercase (c_dst_host ?low)"
    by code_simp
  moreover have "snd (any_host_on_domain_operator_checked example_psl id ?low) = Some AtOrAboveRegistrableDomain"
    by code_simp
  ultimately show ?thesis using domain_scope_ignores_case by metis
qed

end
