(* ===== verification/Conn_Rows.thy ===== *)
theory Conn_Rows
  imports Verdict
begin

text \<open>
  \<open>translator/connection.rs\<close>: the rows the GUI lists. An \<open>AskRule\<close> gives a pending row
  (\<open>connection_to_row\<close>), a decided connection the daemon reports gives a decided row
  (\<open>event_to_row\<close>). The process-wide counter and the log-once flag are passed explicitly
  (\<open>row_state\<close>), and so is the time.
\<close>

section \<open>Pending rows\<close>

definition ASK_ROW_PREFIX :: rstr where "ASK_ROW_PREFIX = lit ''ask-''"
definition EVENT_ROW_PREFIX :: rstr where "EVENT_ROW_PREFIX = lit ''event-''"

definition ask_row_id :: "nat \<Rightarrow> rstr" where
  "ask_row_id notification_id = ASK_ROW_PREFIX @ decimal notification_id"

definition connection_to_row :: "int \<Rightarrow> connection \<Rightarrow> nat \<Rightarrow> connection_row" where
  "connection_to_row now_ms conn notification_id =
     \<lparr> row_id = ask_row_id notification_id,
       row_process = (if c_process_path conn = [] then lit ''<unknown>''
                      else (case file_name (c_process_path conn) of Some n \<Rightarrow> n | None \<Rightarrow> lit ''<unknown>'')),
       row_process_path = (if c_process_path conn = [] then None else Some (c_process_path conn)),
       row_dst_host = (if c_dst_host conn = [] then c_dst_ip conn else c_dst_host conn),
       row_dst_ip = c_dst_ip conn,
       row_dst_port = c_dst_port conn mod 65536,
       row_protocol = c_protocol conn,
       row_direction = lit ''outgoing'',
       row_action = None,
       row_bytes_sent = 0,
       row_bytes_received = 0,
       row_started_at_ms = now_ms,
       row_matched_rule = None,
       row_auto_answer = None,
       row_answer_deadline_ms = None,
       row_deferred = False,
       row_decided_by_default = False \<rparr>"

section \<open>Decided rows\<close>

definition normalized_action :: "rstr \<Rightarrow> rstr" where
  "normalized_action a = (if a = lit ''allow'' then lit ''allow'' else lit ''deny'')"

record row_state =
  next_event_row :: nat
  unexpected_default_action_logged :: bool

definition note_unexpected_default_action :: "bool \<Rightarrow> rstr \<Rightarrow> bool \<times> bool" where
  "note_unexpected_default_action logged a =
     (if is_contract_default_action a then (logged, False)
      else if logged then (True, False)
      else (True, True))"

text \<open>\<open>Display\<close> of a signed number, and the truncating \<open>i64\<close> division.\<close>

definition signed_decimal :: "int \<Rightarrow> rstr" where
  "signed_decimal n = (if n < 0 then 45 # decimal (nat (- n)) else decimal (nat n))"

definition i64_div :: "int \<Rightarrow> int \<Rightarrow> int" where
  "i64_div a b = (if a < 0 then - ((- a) div b) else a div b)"

definition event_to_row ::
  "(rstr \<Rightarrow> bool option) \<Rightarrow> int \<Rightarrow> event \<Rightarrow> row_state \<Rightarrow> row_state \<times> connection_row option" where
  "event_to_row listed now_ms ev s =
     (case (e_connection ev, e_rule ev) of
        (Some conn, Some rule) \<Rightarrow>
          if r_duration rule = lit ''once'' \<and> is_answer_name (r_name rule) \<and> listed (r_name rule) = Some False
          then (s, None)
          else
            let by_default = is_default_action_rule rule;
                logged = (if by_default
                          then fst (note_unexpected_default_action (unexpected_default_action_logged s) (r_action rule))
                          else unexpected_default_action_logged s);
                seq = next_event_row s
            in (s\<lparr> next_event_row := u64_wrapping_add seq 1, unexpected_default_action_logged := logged \<rparr>,
                Some ((connection_to_row now_ms conn 0)
                  \<lparr> row_id := EVENT_ROW_PREFIX @ signed_decimal (e_unixnano ev) @ 45 # decimal seq,
                    row_action := Some (normalized_action (r_action rule)),
                    row_matched_rule := (if by_default then None else Some (r_name rule)),
                    row_decided_by_default := by_default,
                    row_started_at_ms := i64_div (e_unixnano ev) 1000000 \<rparr>))
      | _ \<Rightarrow> (s, None))"

section \<open>Row ids\<close>

lemma ask_row_id_inject [simp]: "ask_row_id a = ask_row_id b \<longleftrightarrow> a = b"
  by (simp add: ask_row_id_def)

lemma ask_not_event_row: "ask_row_id n \<noteq> EVENT_ROW_PREFIX @ s"
  by (simp add: ask_row_id_def ASK_ROW_PREFIX_def EVENT_ROW_PREFIX_def lit_def)

lemma decimal_no_dash: "45 \<notin> set (decimal n)"
  using decimal_digits[of 45 n] by (auto simp: is_ascii_digit_def)

lemma event_row_id_inject:
  "EVENT_ROW_PREFIX @ signed_decimal t1 @ 45 # decimal a = EVENT_ROW_PREFIX @ signed_decimal t2 @ 45 # decimal b
   \<Longrightarrow> a = b"
proof -
  assume "EVENT_ROW_PREFIX @ signed_decimal t1 @ 45 # decimal a = EVENT_ROW_PREFIX @ signed_decimal t2 @ 45 # decimal b"
  then have "signed_decimal t1 @ 45 # decimal a = signed_decimal t2 @ 45 # decimal b" by simp
  then have "decimal a = decimal b" by (rule last_sep_inject[THEN conjunct2]) (simp_all add: decimal_no_dash)
  then show "a = b" by simp
qed

section \<open>Properties of the rows\<close>

text \<open>The rows of a batch of events, as \<open>ping\<close> collects them.\<close>

fun events_to_rows ::
  "(rstr \<Rightarrow> bool option) \<Rightarrow> int \<Rightarrow> event list \<Rightarrow> row_state \<Rightarrow> row_state \<times> connection_row list" where
  "events_to_rows listed now_ms [] s = (s, [])"
| "events_to_rows listed now_ms (ev # evs) s =
     (let (s', r) = event_to_row listed now_ms ev s; (s'', rs) = events_to_rows listed now_ms evs s'
      in (s'', (case r of None \<Rightarrow> rs | Some row \<Rightarrow> row # rs)))"

lemma event_to_row_seq:
  assumes "event_to_row listed now_ms ev s = (s', r)" "next_event_row s < 2 ^ 64 - 1"
  shows "(r = None \<and> s' = s)
     \<or> (\<exists>row. r = Some row \<and> next_event_row s' = next_event_row s + 1
          \<and> row_id row = EVENT_ROW_PREFIX @ signed_decimal (e_unixnano ev) @ 45 # decimal (next_event_row s))"
  using assms
  by (auto simp: event_to_row_def Let_def u64_wrapping_add_def split: option.splits if_splits)

lemma events_to_rows_ids:
  "next_event_row s + length evs < 2 ^ 64 \<Longrightarrow>
     (\<forall>row \<in> set (snd (events_to_rows listed now_ms evs s)). \<exists>t k. next_event_row s \<le> k
           \<and> row_id row = EVENT_ROW_PREFIX @ signed_decimal t @ 45 # decimal k)
     \<and> distinct (map row_id (snd (events_to_rows listed now_ms evs s)))"
proof (induction evs arbitrary: s)
  case (Cons ev evs)
  obtain s' r where e: "event_to_row listed now_ms ev s = (s', r)" by (cases "event_to_row listed now_ms ev s")
  obtain s'' rs where es: "events_to_rows listed now_ms evs s' = (s'', rs)" by (cases "events_to_rows listed now_ms evs s'")
  have "next_event_row s < 2 ^ 64 - 1" using Cons.prems by simp
  from event_to_row_seq[OF e this] show ?case
  proof
    assume "r = None \<and> s' = s"
    then show ?thesis using Cons.IH[of s] Cons.prems e es by simp
  next
    assume "\<exists>row. r = Some row \<and> next_event_row s' = next_event_row s + 1
          \<and> row_id row = EVENT_ROW_PREFIX @ signed_decimal (e_unixnano ev) @ 45 # decimal (next_event_row s)"
    then obtain row where row: "r = Some row" "next_event_row s' = next_event_row s + 1"
      "row_id row = EVENT_ROW_PREFIX @ signed_decimal (e_unixnano ev) @ 45 # decimal (next_event_row s)"
      by blast
    have ih: "\<forall>row \<in> set rs. \<exists>t k. next_event_row s + 1 \<le> k
           \<and> row_id row = EVENT_ROW_PREFIX @ signed_decimal t @ 45 # decimal k" "distinct (map row_id rs)"
      using Cons.IH[of s'] Cons.prems row(2) es by simp_all
    have "row_id r' \<noteq> row_id row" if later: "r' \<in> set rs" for r'
    proof
      assume same: "row_id r' = row_id row"
      obtain t k where "next_event_row s + 1 \<le> k" "row_id r' = EVENT_ROW_PREFIX @ signed_decimal t @ 45 # decimal k"
        using ih(1) later by blast
      with same row(3) event_row_id_inject[of t k] show False by fastforce
    qed
    then have "row_id row \<notin> row_id ` set rs" by (metis imageE)
    then have "distinct (map row_id (row # rs))" using ih(2) by simp
    moreover have "\<forall>r' \<in> set (row # rs). \<exists>t k. next_event_row s \<le> k
           \<and> row_id r' = EVENT_ROW_PREFIX @ signed_decimal t @ 45 # decimal k"
      using ih(1) row(3) by (metis add_leD1 order_refl set_ConsD)
    moreover have "snd (events_to_rows listed now_ms (ev # evs) s) = row # rs"
      using row(1) e es by simp
    ultimately show ?thesis by presburger
  qed
qed simp

text \<open>
  A row id names one row: the rows of any batch of reported events have ids that differ
  from each other and from every prompt's id, also when the daemon reports the same time
  twice (the counter's 64 bits not exhausted).
\<close>

theorem event_row_ids_unique:
  assumes "next_event_row s + length evs < 2 ^ 64"
  shows "distinct (map row_id (snd (events_to_rows listed now_ms evs s)))
     \<and> ask_row_id n \<notin> set (map row_id (snd (events_to_rows listed now_ms evs s)))"
  using events_to_rows_ids[OF assms] ask_not_event_row by fastforce

definition example_event :: event where
  "example_event = \<lparr> e_connection = Some example_conn,
     e_rule = Some \<lparr> r_created = 0, r_name = lit ''web'', r_description = [], r_enabled = True,
       r_precedence = False, r_nolog = False, r_action = lit ''allow'', r_duration = lit ''always'',
       r_operator = None \<rparr>,
     e_unixnano = 5 \<rparr>"

theorem event_row_ids_unique_witness:
  "distinct (map row_id (snd (events_to_rows (\<lambda>_. None) 0 [example_event, example_event]
     \<lparr> next_event_row = 1, unexpected_default_action_logged = False \<rparr>)))"
  using event_row_ids_unique[of "\<lparr> next_event_row = 1, unexpected_default_action_logged = False \<rparr>"
      "[example_event, example_event]"] by simp

text \<open>
  An answer given once is listed once. The daemon's report of a rule the bridge
  built as an answer is left out exactly when the answer was for once and the committed
  rule list has no rule of that name; otherwise the row shows the answer's action and
  names the rule.
\<close>

theorem answer_events_listed_exactly:
  assumes "verdict_to_rule sha dns_prefix regex_escape verdict duration scope conn now_secs = Inr rule"
  shows "case snd (event_to_row listed now_ms \<lparr> e_connection = Some conn, e_rule = Some rule, e_unixnano = t \<rparr> s) of
           None \<Rightarrow> duration = Once \<and> listed (r_name rule) = Some False
         | Some row \<Rightarrow> (duration \<noteq> Once \<or> listed (r_name rule) \<noteq> Some False)
             \<and> row_action row = Some (verdict_action_str verdict)
             \<and> row_matched_rule row = Some (r_name rule) \<and> \<not> row_decided_by_default row"
proof -
  from assms have rule: "r_duration rule = daemon_duration_str duration" "r_action rule = verdict_action_str verdict"
    "is_answer_name (r_name rule)" "r_name rule \<noteq> []"
    by (auto simp: verdict_to_rule_def build_rule_def Let_def split: if_splits)
  moreover have "daemon_duration_str duration = lit ''once'' \<longleftrightarrow> duration = Once"
    by (cases duration) simp_all
  moreover have "normalized_action (verdict_action_str verdict) = verdict_action_str verdict"
    by (cases verdict) (simp_all add: normalized_action_def)
  ultimately show ?thesis
    by (simp add: event_to_row_def is_default_action_rule_def Let_def)
qed

theorem answer_events_listed_exactly_witness:
  "\<exists>rule. verdict_to_rule example_sha (\<lambda>_. None) id Allow Once ThisHost example_conn 0 = Inr rule
     \<and> snd (event_to_row (\<lambda>_. Some False) 0 \<lparr> e_connection = Some example_conn, e_rule = Some rule, e_unixnano = 0 \<rparr>
              \<lparr> next_event_row = 1, unexpected_default_action_logged = False \<rparr>) = None"
proof -
  obtain rule where rule: "verdict_to_rule example_sha (\<lambda>_. None) id Allow Once ThisHost example_conn 0 = Inr rule"
    by (simp add: verdict_to_rule_def)
  from answer_events_listed_exactly[OF rule, of "\<lambda>_. Some False" 0 0 "\<lparr> next_event_row = 1, unexpected_default_action_logged = False \<rparr>"]
  have "snd (event_to_row (\<lambda>_. Some False) 0 \<lparr> e_connection = Some example_conn, e_rule = Some rule, e_unixnano = 0 \<rparr>
              \<lparr> next_event_row = 1, unexpected_default_action_logged = False \<rparr>) = None"
    by (simp split: option.splits)
  with rule show ?thesis by blast
qed

end
