(* ===== verification/Presence_Pause.thy ===== *)
theory Presence_Pause
  imports Prelude
begin

text \<open>
  The GUI sessions and the timed filtering pause.

  \<^item> \<open>client_presence.rs\<close>: the count of authenticated sessions and the loss generation
    (\<open>presence\<close>), admissions, \<open>apply_pause_request\<close> and the task that clears a pause
    after the last session has left.
  \<^item> \<open>filter_pause.rs\<close>: the pause itself (\<open>pause_active\<close>) with its two deadlines, one
    on the monotonic clock and one on the wall clock.
  \<^item> \<open>tray_state.rs\<close>: what the tray shows.

  Both clocks are arguments (\<open>clock\<close>): an operation that reads them gets the reading, so
  the wall clock may be stepped and the monotonic clock may stand still during a suspend.
  Every operation runs under the lock the code takes, so it is one step of the machine in
  \<open>pause_step\<close>; the clearing task may act on a generation it read earlier. Counters are
  unbounded: a generation would need \<open>2 ^ 64\<close> losses to wrap.
\<close>

section \<open>The sessions\<close>

record presence =
  clients :: nat
  loss_generation :: nat
  losses :: nat

record admission =
  ad_generation :: nat

definition new_presence :: presence where
  "new_presence = \<lparr> clients = 0, loss_generation = 0, losses = 0 \<rparr>"

definition authenticated_session :: "presence \<Rightarrow> presence" where
  "authenticated_session p = p\<lparr> clients := clients p + 1 \<rparr>"

text \<open>Dropping a \<open>SessionLease\<close>. A lease is one of the counted sessions.\<close>

definition drop_lease :: "presence \<Rightarrow> presence" where
  "drop_lease p =
     (let p = p\<lparr> clients := clients p - 1 \<rparr>
      in if clients p = 0
         then p\<lparr> loss_generation := loss_generation p + 1, losses := loss_generation p + 1 \<rparr>
         else p)"

definition current_generation :: "presence \<Rightarrow> nat" where
  "current_generation p = loss_generation p"

definition generation_current :: "presence \<Rightarrow> nat \<Rightarrow> bool" where
  "generation_current p generation \<longleftrightarrow> 0 < clients p \<and> loss_generation p = generation"

text \<open>\<open>while_generation_current\<close>: the closure as a state change with a result.\<close>

definition while_generation_current :: "presence \<Rightarrow> nat \<Rightarrow> ('s \<Rightarrow> 's \<times> 'a) \<Rightarrow> 's \<Rightarrow> 's \<times> 'a option" where
  "while_generation_current p generation f s =
     (if generation_current p generation then let (s', r) = f s in (s', Some r) else (s, None))"

definition admit :: "presence \<Rightarrow> admission option" where
  "admit p = (if 0 < clients p then Some \<lparr> ad_generation = loss_generation p \<rparr> else None)"

definition while_current :: "presence \<Rightarrow> admission \<Rightarrow> ('s \<Rightarrow> 's \<times> 'a) \<Rightarrow> 's \<Rightarrow> 's \<times> 'a option" where
  "while_current p ad f s = while_generation_current p (ad_generation ad) f s"

text \<open>\<open>Admission::lost\<close> is ready once the watched value differs from its generation.\<close>

definition admission_lost :: "presence \<Rightarrow> admission \<Rightarrow> bool" where
  "admission_lost p ad \<longleftrightarrow> losses p \<noteq> ad_generation ad"

section \<open>The pause\<close>

text \<open>Durations are nanoseconds; the wall clock counts nanoseconds since the Unix epoch.\<close>

record clock =
  now_mono :: instant
  now_wall :: int

definition ALLOWED_PAUSE_SECS :: "nat list" where
  "ALLOWED_PAUSE_SECS = [300, 1800, 3600]"

definition LEGACY_PAUSE_SECS :: nat where
  "LEGACY_PAUSE_SECS = 300"

datatype pause_request = Resume | Pause nat

definition from_wire :: "bool \<Rightarrow> nat option \<Rightarrow> pause_request" where
  "from_wire paused duration_secs =
     (if paused
      then Pause ((case duration_secs of Some d \<Rightarrow> d | None \<Rightarrow> LEGACY_PAUSE_SECS) * NANOS)
      else Resume)"

datatype rejected = Rejected nat

record pause_state =
  ps_paused :: bool
  ps_expires_at_unix_ms :: "nat option"

definition NOT_PAUSED :: pause_state where
  "NOT_PAUSED = \<lparr> ps_paused = False, ps_expires_at_unix_ms = None \<rparr>"

record pause_active =
  mono_deadline :: instant
  wall_deadline :: int
  owner_generation :: nat

type_synonym filter_pause = "pause_active option"

definition active_is_active :: "pause_active \<Rightarrow> clock \<Rightarrow> bool" where
  "active_is_active a now \<longleftrightarrow> now_mono now < mono_deadline a \<and> now_wall now < wall_deadline a"

definition unix_ms :: "int \<Rightarrow> nat" where
  "unix_ms at = (if at < 0 then 0 else min U64_MAX (nat at div 1000000))"

definition pause_state_of :: "filter_pause \<Rightarrow> clock \<Rightarrow> pause_state" where
  "pause_state_of fp now =
     (case fp of
        Some a \<Rightarrow>
          if active_is_active a now
          then let mono_left = int (mono_deadline a - now_mono now);
                   wall_left = wall_deadline a - now_wall now
               in \<lparr> ps_paused = True,
                    ps_expires_at_unix_ms = Some (unix_ms (now_wall now + min mono_left wall_left)) \<rparr>
          else NOT_PAUSED
      | None \<Rightarrow> NOT_PAUSED)"

text \<open>\<open>now\<close> is read before the pause is stored, \<open>later\<close> when its state is reported.\<close>

definition pause_filter ::
  "clock \<Rightarrow> clock \<Rightarrow> nat \<Rightarrow> nat \<Rightarrow> filter_pause \<Rightarrow> filter_pause \<times> (rejected + pause_state)" where
  "pause_filter now later duration owner fp =
     (if duration mod NANOS \<noteq> 0 \<or> duration div NANOS \<notin> set ALLOWED_PAUSE_SECS
      then (fp, Inl (Rejected duration))
      else let fp' = Some \<lparr> mono_deadline = now_mono now + duration,
                            wall_deadline = now_wall now + int duration,
                            owner_generation = owner \<rparr>
           in (fp', Inr (pause_state_of fp' later)))"

definition pause_is_set :: "filter_pause \<Rightarrow> bool" where
  "pause_is_set fp \<longleftrightarrow> fp \<noteq> None"

definition pause_resume :: "filter_pause \<Rightarrow> filter_pause \<times> bool" where
  "pause_resume fp = (None, fp \<noteq> None)"

definition clear_if_owner_ended :: "nat \<Rightarrow> filter_pause \<Rightarrow> filter_pause \<times> bool" where
  "clear_if_owner_ended generation fp =
     (if (case fp of Some a \<Rightarrow> owner_generation a < generation | None \<Rightarrow> False)
      then (None, True) else (fp, False))"

definition applies_to :: "presence \<Rightarrow> clock \<Rightarrow> filter_pause \<Rightarrow> admission \<Rightarrow> bool" where
  "applies_to p now fp ad \<longleftrightarrow>
     snd (while_current p ad
            (\<lambda>fp. (fp, case fp of None \<Rightarrow> False
                        | Some a \<Rightarrow> owner_generation a = ad_generation ad \<and> active_is_active a now)) fp)
     = Some True"

definition pause_is_active :: "filter_pause \<Rightarrow> clock \<Rightarrow> bool" where
  "pause_is_active fp now \<longleftrightarrow> (case fp of Some a \<Rightarrow> active_is_active a now | None \<Rightarrow> False)"

definition take_expired :: "clock \<Rightarrow> filter_pause \<Rightarrow> filter_pause \<times> bool" where
  "take_expired now fp =
     (if (case fp of Some a \<Rightarrow> \<not> active_is_active a now | None \<Rightarrow> False)
      then (None, True) else (fp, False))"

definition apply_pause_request ::
  "clock \<Rightarrow> clock \<Rightarrow> presence \<Rightarrow> pause_request \<Rightarrow> nat option \<Rightarrow> filter_pause
     \<Rightarrow> filter_pause \<times> pause_state" where
  "apply_pause_request now later p request sender_generation fp =
     (case request of
        Resume \<Rightarrow> let (fp', cleared) = pause_resume fp in (fp', pause_state_of fp' later)
      | Pause duration \<Rightarrow>
          let (fp', outcome) =
            (case sender_generation of
               Some generation \<Rightarrow>
                 while_generation_current p generation (pause_filter now later duration generation) fp
             | None \<Rightarrow>
                 (case admit p of
                    None \<Rightarrow> (fp, None)
                  | Some ad \<Rightarrow> while_current p ad (pause_filter now later duration (ad_generation ad)) fp))
          in (fp', pause_state_of fp' later))"

section \<open>The tray\<close>

datatype tray_state = Idle | Pending nat | RecentBlock rstr nat | FilterOff | DaemonDown

definition derive :: "bool \<Rightarrow> bool \<Rightarrow> nat \<Rightarrow> tray_state" where
  "derive daemon_down paused pending =
     (if daemon_down then DaemonDown
      else if paused then FilterOff
      else if pending = 0 then Idle else Pending pending)"

section \<open>Sessions and pause as one machine\<close>

record pause_world =
  pw_presence :: presence
  pw_pause :: filter_pause

text \<open>
  \<open>LossSeen g\<close> is one turn of \<open>clear_pause_on_last_session_loss\<close>, which read the
  generation \<open>g\<close> from the watch channel, possibly before later losses;
  \<open>ExpiryTick\<close> is one tick of \<open>expire_pause_on_deadline\<close>.
\<close>

datatype pause_event =
  GuiJoins | GuiLeaves | Request pause_request "nat option" | LossSeen nat | ExpiryTick

fun pause_step :: "pause_world \<Rightarrow> clock \<times> pause_event \<Rightarrow> pause_world" where
  "pause_step w (now, GuiJoins) = w\<lparr> pw_presence := authenticated_session (pw_presence w) \<rparr>"
| "pause_step w (now, GuiLeaves) =
     (if clients (pw_presence w) = 0 then w
      else w\<lparr> pw_presence := drop_lease (pw_presence w) \<rparr>)"
| "pause_step w (now, Request r g) =
     w\<lparr> pw_pause := fst (apply_pause_request now now (pw_presence w) r g (pw_pause w)) \<rparr>"
| "pause_step w (now, LossSeen g) =
     (if g \<le> losses (pw_presence w)
      then w\<lparr> pw_pause := fst (clear_if_owner_ended g (pw_pause w)) \<rparr> else w)"
| "pause_step w (now, ExpiryTick) = w\<lparr> pw_pause := fst (take_expired now (pw_pause w)) \<rparr>"

definition new_world :: pause_world where
  "new_world = \<lparr> pw_presence = new_presence, pw_pause = None \<rparr>"

definition pause_run :: "(clock \<times> pause_event) list \<Rightarrow> pause_world" where
  "pause_run es = foldl pause_step new_world es"

lemma pause_run_simps [simp]:
  "pause_run [] = new_world"
  "pause_run (es @ [e]) = pause_step (pause_run es) e"
  by (simp_all add: pause_run_def)

lemmas presence_defs [cmp_defs] =
  authenticated_session_def drop_lease_def generation_current_def while_generation_current_def
  admit_def while_current_def new_presence_def new_world_def

subsection \<open>The invariant\<close>

definition pause_inv :: "pause_world \<Rightarrow> bool" where
  "pause_inv w \<longleftrightarrow>
     losses (pw_presence w) = loss_generation (pw_presence w)
     \<and> (case pw_pause w of None \<Rightarrow> True
        | Some a \<Rightarrow> owner_generation a \<le> loss_generation (pw_presence w)
                    \<and> (clients (pw_presence w) = 0 \<longrightarrow> owner_generation a < loss_generation (pw_presence w)))"

text \<open>What a request leaves behind: the pause it set, nothing, or what was there.\<close>

lemma apply_pause_request_result:
  "fst (apply_pause_request now later p r g fp) =
     (case r of Resume \<Rightarrow> None
      | Pause d \<Rightarrow>
          if 0 < clients p \<and> (g = None \<or> g = Some (loss_generation p))
             \<and> d mod NANOS = 0 \<and> d div NANOS \<in> set ALLOWED_PAUSE_SECS
          then Some \<lparr> mono_deadline = now_mono now + d, wall_deadline = now_wall now + int d,
                      owner_generation = loss_generation p \<rparr>
          else fp)"
  by (cases r; cases g)
    (auto simp: apply_pause_request_def pause_resume_def pause_filter_def Let_def cmp_defs
        split: prod.splits)

lemma pause_inv_step: "pause_inv w \<Longrightarrow> pause_inv (pause_step w e)"
  by (cases "(w, e)" rule: pause_step.cases)
    (auto simp: pause_inv_def apply_pause_request_result clear_if_owner_ended_def take_expired_def
        authenticated_session_def drop_lease_def Let_def
        split: option.splits pause_request.splits)

interpretation pause_machine: state_machine "\<lambda>w. w = new_world" pause_step pause_inv
  by unfold_locales (auto simp: pause_inv_step, simp add: pause_inv_def new_world_def new_presence_def)

lemma pause_run_inv [simp]: "pause_inv (pause_run es)"
  unfolding pause_run_def by (rule pause_machine.inv_reachable) simp

lemma applies_to_iff:
  "applies_to p now fp ad \<longleftrightarrow>
     0 < clients p \<and> loss_generation p = ad_generation ad
     \<and> (\<exists>a. fp = Some a \<and> owner_generation a = ad_generation ad \<and> active_is_active a now)"
  by (auto simp: applies_to_def while_current_def while_generation_current_def generation_current_def
      split: option.splits)

section \<open>Correctness of the pause\<close>

definition at :: "nat \<Rightarrow> clock" where
  "at s = \<lparr> now_mono = s * NANOS, now_wall = int (s * NANOS) \<rparr>"

text \<open>
  With no GUI session there is no pause: it applies to no admission, also before the
  clearing task has run, and one turn of that task, acting on the current generation,
  removes whatever pause is stored.
\<close>

theorem no_pause_without_session:
  assumes "clients (pw_presence (pause_run es)) = 0"
  shows "\<not> applies_to (pw_presence (pause_run es)) now (pw_pause (pause_run es)) ad
    \<and> pw_pause (pause_run (es @ [(now, LossSeen (loss_generation (pw_presence (pause_run es))))])) = None"
  using assms pause_run_inv[of es]
  by (auto simp: applies_to_iff pause_inv_def clear_if_owner_ended_def split: option.splits)

definition left_behind :: "(clock \<times> pause_event) list" where
  "left_behind = [(at 0, GuiJoins), (at 1, Request (Pause (300 * NANOS)) (Some 0)), (at 2, GuiLeaves)]"

theorem no_pause_without_session_witness:
  "pw_pause (pause_run left_behind) \<noteq> None
   \<and> \<not> applies_to (pw_presence (pause_run left_behind)) (at 3) (pw_pause (pause_run left_behind)) \<lparr> ad_generation = 0 \<rparr>
   \<and> pw_pause (pause_run (left_behind @ [(at 3, LossSeen 1)])) = None"
proof -
  have gone: "clients (pw_presence (pause_run left_behind)) = 0"
    and gen: "loss_generation (pw_presence (pause_run left_behind)) = 1"
    and kept: "pw_pause (pause_run left_behind) \<noteq> None"
    by code_simp+
  from no_pause_without_session[OF gone, of "at 3" "\<lparr> ad_generation = 0 \<rparr>"] gen kept
  show ?thesis by simp
qed

text \<open>
  The life of a stored pause: the request that set it, with nothing since that ends or
  replaces it.
\<close>

fun not_ended_by :: "pause_active \<Rightarrow> clock \<times> pause_event \<Rightarrow> bool" where
  "not_ended_by a (now, Request Resume g) \<longleftrightarrow> False"
| "not_ended_by a (now, ExpiryTick) \<longleftrightarrow> active_is_active a now"
| "not_ended_by a e \<longleftrightarrow> True"

definition set_by :: "(clock \<times> pause_event) list \<Rightarrow> clock \<Rightarrow> nat \<Rightarrow> (clock \<times> pause_event) list \<Rightarrow> pause_active \<Rightarrow> bool" where
  "set_by pre t d post a \<longleftrightarrow>
     d div NANOS \<in> set ALLOWED_PAUSE_SECS \<and> d mod NANOS = 0
     \<and> 0 < clients (pw_presence (pause_run pre))
     \<and> a = \<lparr> mono_deadline = now_mono t + d, wall_deadline = now_wall t + int d,
             owner_generation = loss_generation (pw_presence (pause_run pre)) \<rparr>
     \<and> list_all (not_ended_by a) post"

lemma set_by_extend:
  "set_by pre t d post a \<Longrightarrow> not_ended_by a e \<Longrightarrow> set_by pre t d (post @ [e]) a"
  unfolding set_by_def by (metis list_all_append list.pred_inject)

lemma stored_pause_was_set:
  "pw_pause (pause_run es) = Some a \<Longrightarrow>
     \<exists>pre t d g post. es = pre @ (t, Request (Pause d) g) # post
       \<and> (g = None \<or> g = Some (loss_generation (pw_presence (pause_run pre)))) \<and> set_by pre t d post a"
proof (induction es rule: rev_induct)
  case Nil
  then show ?case by (simp add: new_world_def)
next
  case (snoc e es)
  have keep: ?case
    if kept: "pw_pause (pause_run es) = Some a" and "not_ended_by a e"
  proof -
    obtain pre t d g post where "es = pre @ (t, Request (Pause d) g) # post"
      "g = None \<or> g = Some (loss_generation (pw_presence (pause_run pre)))" "set_by pre t d post a"
      using snoc.IH[OF kept] by blast
    with set_by_extend[of pre t d post a e] that(2) show ?thesis
      by (intro exI[of _ pre] exI[of _ t] exI[of _ d] exI[of _ g] exI[of _ "post @ [e]"]) auto
  qed
  obtain now ev where e: "e = (now, ev)" by (cases e)
  show ?case
  proof (cases ev)
    case (Request r g)
    show ?thesis
    proof (cases r)
      case Resume
      then show ?thesis using snoc.prems by (simp add: e Request apply_pause_request_result)
    next
      case (Pause d)
      let ?p = "pw_presence (pause_run es)"
      show ?thesis
      proof (cases "0 < clients ?p \<and> (g = None \<or> g = Some (loss_generation ?p))
             \<and> d mod NANOS = 0 \<and> d div NANOS \<in> set ALLOWED_PAUSE_SECS")
        case True
        then have "set_by es now d [] a"
          using snoc.prems by (auto simp: e Request Pause apply_pause_request_result set_by_def)
        then show ?thesis using True e Request Pause by blast
      next
        case False
        have "pw_pause (pause_run (es @ [e])) = pw_pause (pause_run es)"
          unfolding e Request Pause pause_run_simps pause_step.simps pause_world.simps
            apply_pause_request_result pause_request.case if_not_P[OF False] by simp
        with snoc.prems keep show ?thesis by (simp add: e Request Pause)
      qed
    qed
  next
    case ExpiryTick
    then show ?thesis using snoc.prems keep
      by (auto simp: e take_expired_def split: if_splits option.splits)
  next
    case (LossSeen g)
    then show ?thesis using snoc.prems keep
      by (auto simp: e clear_if_owner_ended_def split: if_splits)
  qed (use snoc.prems keep in \<open>auto simp: e split: if_splits\<close>)
qed

lemma loss_generation_step:
  "loss_generation (pw_presence w) \<le> loss_generation (pw_presence (pause_step w e))
   \<and> (clients (pw_presence w) = 0 \<or> 0 < clients (pw_presence (pause_step w e))
      \<or> loss_generation (pw_presence w) < loss_generation (pw_presence (pause_step w e)))"
  by (cases "(w, e)" rule: pause_step.cases) (auto simp: authenticated_session_def drop_lease_def Let_def)

lemma loss_generation_mono:
  "loss_generation (pw_presence (pause_run pre)) \<le> loss_generation (pw_presence (pause_run (pre @ post)))"
proof (induction post rule: rev_induct)
  case (snoc e post)
  then show ?case
    using loss_generation_step[of "pause_run (pre @ post)" e]
    by (metis append_assoc le_trans pause_run_simps(2))
qed simp

lemma same_generation_never_empty:
  assumes "0 < clients (pw_presence (pause_run pre))"
    and "loss_generation (pw_presence (pause_run (pre @ mid))) = loss_generation (pw_presence (pause_run pre))"
  shows "0 < clients (pw_presence (pause_run (pre @ mid)))"
  using assms(2)
proof (induction mid rule: rev_induct)
  case (snoc e mid)
  have "loss_generation (pw_presence (pause_run (pre @ mid))) = loss_generation (pw_presence (pause_run pre))"
    using snoc.prems loss_generation_mono[of pre mid] loss_generation_mono[of "pre @ mid" "[e]"] by simp
  with snoc show ?case
    using loss_generation_step[of "pause_run (pre @ mid)" e]
    by (metis append_assoc less_irrefl pause_run_simps(2))
qed (use assms(1) in simp)

text \<open>
  C7. A question is answered under a pause only if a GUI asked for it and is still there:
  somewhere in the past there is a pause request of one of the allowed lengths, stamped
  with the generation of this very admission or sent in process, since which nobody
  resumed, some session was open at every moment, and on neither clock the requested time
  has run out.
\<close>

theorem pause_applies_only_as_requested:
  assumes "applies_to (pw_presence (pause_run es)) now (pw_pause (pause_run es)) ad"
  shows "\<exists>pre t d g post. es = pre @ (t, Request (Pause d) g) # post
     \<and> d \<in> {300 * NANOS, 1800 * NANOS, 3600 * NANOS}
     \<and> (g = None \<or> g = Some (ad_generation ad))
     \<and> now_mono now < now_mono t + d \<and> now_wall now < now_wall t + int d
     \<and> (\<forall>u g'. (u, Request Resume g') \<notin> set post)
     \<and> (\<forall>mid rest. (t, Request (Pause d) g) # post = mid @ rest \<longrightarrow>
           0 < clients (pw_presence (pause_run (pre @ mid))))"
proof -
  from assms obtain a where a: "pw_pause (pause_run es) = Some a" "active_is_active a now"
    and gen: "owner_generation a = ad_generation ad" "loss_generation (pw_presence (pause_run es)) = ad_generation ad"
    by (auto simp: applies_to_iff)
  obtain pre t d g post where es: "es = pre @ (t, Request (Pause d) g) # post"
    and g: "g = None \<or> g = Some (loss_generation (pw_presence (pause_run pre)))" and sb: "set_by pre t d post a"
    using stored_pause_was_set[OF a(1)] by blast
  have own: "loss_generation (pw_presence (pause_run pre)) = ad_generation ad"
    using sb gen(1) by (simp add: set_by_def)
  have "d = d div NANOS * NANOS" using sb div_mult_mod_eq[of d NANOS] by (simp add: set_by_def)
  moreover have "d div NANOS \<in> {300, 1800, 3600}" using sb by (simp add: set_by_def ALLOWED_PAUSE_SECS_def)
  ultimately have "d \<in> {300 * NANOS, 1800 * NANOS, 3600 * NANOS}" by auto
  moreover have "now_mono now < now_mono t + d \<and> now_wall now < now_wall t + int d"
    using sb a(2) by (auto simp: set_by_def active_is_active_def)
  moreover have "\<forall>u g'. (u, Request Resume g') \<notin> set post"
    using sb by (auto simp: set_by_def list_all_iff)
  moreover have "0 < clients (pw_presence (pause_run (pre @ mid)))"
    if split: "(t, Request (Pause d) g) # post = mid @ rest" for mid rest
  proof (rule same_generation_never_empty)
    show "0 < clients (pw_presence (pause_run pre))" using sb by (simp add: set_by_def)
    show "loss_generation (pw_presence (pause_run (pre @ mid))) = loss_generation (pw_presence (pause_run pre))"
      using loss_generation_mono[of pre mid] loss_generation_mono[of "pre @ mid" rest] gen(2) own es split
      by simp
  qed
  ultimately show ?thesis using es g own by blast
qed

definition paused_run :: "(clock \<times> pause_event) list" where
  "paused_run = [(at 0, GuiJoins), (at 1, Request (Pause (300 * NANOS)) (Some 0)), (at 2, GuiJoins), (at 3, GuiLeaves)]"

theorem pause_applies_only_as_requested_witness:
  "\<exists>pre t d g post. paused_run = pre @ (t, Request (Pause d) g) # post
     \<and> now_mono (at 200) < now_mono t + d"
proof -
  have "applies_to (pw_presence (pause_run paused_run)) (at 200) (pw_pause (pause_run paused_run)) \<lparr> ad_generation = 0 \<rparr>"
    by code_simp
  from pause_applies_only_as_requested[OF this] show ?thesis by blast
qed

subsection \<open>Refinement: clearing late is as good as clearing at once\<close>

text \<open>
  The specification has no clearing task: the pause goes in the step in which the last
  session leaves, and it applies while it is stored and unexpired.
\<close>

fun spec_step :: "pause_world \<Rightarrow> clock \<times> pause_event \<Rightarrow> pause_world" where
  "spec_step w (now, GuiLeaves) =
     (if clients (pw_presence w) = 0 then w
      else if clients (pw_presence w) = 1
      then \<lparr> pw_presence = drop_lease (pw_presence w), pw_pause = None \<rparr>
      else w\<lparr> pw_presence := drop_lease (pw_presence w) \<rparr>)"
| "spec_step w (now, LossSeen g) = w"
| "spec_step w e = pause_step w e"

definition spec_run :: "(clock \<times> pause_event) list \<Rightarrow> pause_world" where
  "spec_run es = foldl spec_step new_world es"

definition spec_applies :: "pause_world \<Rightarrow> clock \<Rightarrow> admission \<Rightarrow> bool" where
  "spec_applies w now ad \<longleftrightarrow>
     admit (pw_presence w) = Some ad \<and> pause_is_active (pw_pause w) now"

definition owned :: "pause_world \<Rightarrow> filter_pause" where
  "owned w = (case pw_pause w of
     Some a \<Rightarrow> if owner_generation a = loss_generation (pw_presence w) then Some a else None
   | None \<Rightarrow> None)"

definition forget_stale :: "pause_world \<Rightarrow> pause_world" where
  "forget_stale w = w\<lparr> pw_pause := owned w \<rparr>"

lemma forget_stale_step:
  assumes "pause_inv w"
  shows "forget_stale (pause_step w e) = spec_step (forget_stale w) e"
  using assms
  by (cases "(w, e)" rule: pause_step.cases)
    (auto simp: forget_stale_def owned_def pause_inv_def apply_pause_request_result
        clear_if_owner_ended_def take_expired_def authenticated_session_def drop_lease_def Let_def
        split: option.splits pause_request.splits)

lemma forget_stale_run: "forget_stale (pause_run es) = spec_run es"
proof (induction es rule: rev_induct)
  case Nil
  then show ?case by (simp add: spec_run_def forget_stale_def owned_def new_world_def)
next
  case (snoc e es)
  then show ?case by (simp add: forget_stale_step spec_run_def)
qed

text \<open>
  C6. The pause the bridge honours is the pause of the specification: whatever sessions
  come and go, requests are sent and clearing turns are delayed or run on an outdated
  generation, the stored pause applies to the admission the bridge would hand out now
  exactly when the specification, which clears at once, has an unexpired pause.
\<close>

theorem pause_refines_spec:
  "map_option (applies_to (pw_presence (pause_run es)) now (pw_pause (pause_run es)))
     (admit (pw_presence (pause_run es)))
   = map_option (spec_applies (spec_run es) now) (admit (pw_presence (spec_run es)))"
  by (auto simp: forget_stale_run[symmetric] forget_stale_def owned_def applies_to_iff spec_applies_def
      admit_def pause_is_active_def split: option.splits)

subsection \<open>The reported end of a pause\<close>

lemma ps_paused_iff: "ps_paused (pause_state_of fp now) \<longleftrightarrow> pause_is_active fp now"
  by (simp add: pause_state_of_def pause_is_active_def NOT_PAUSED_def Let_def split: option.split)

text \<open>
  The end the GUI is told is the end: while both clocks run on together, a pause that
  is reported as paused stays active exactly until the reported instant, whichever of its
  two deadlines that is, and the report is that instant in Unix milliseconds.
\<close>

theorem reported_end_exact:
  assumes "ps_paused (pause_state_of fp now)"
  shows "\<exists>left > 0. ps_expires_at_unix_ms (pause_state_of fp now) = Some (unix_ms (now_wall now + int left))
     \<and> (\<forall>dt. pause_is_active fp \<lparr> now_mono = now_mono now + dt, now_wall = now_wall now + int dt \<rparr> \<longleftrightarrow> dt < left)"
proof -
  from assms obtain a where a: "fp = Some a" "active_is_active a now"
    by (auto simp: pause_state_of_def NOT_PAUSED_def split: option.splits if_splits)
  define left where "left = min (mono_deadline a - now_mono now) (nat (wall_deadline a - now_wall now))"
  have min: "min (int (mono_deadline a - now_mono now)) (wall_deadline a - now_wall now) = int left" and "0 < left"
    using a(2) by (auto simp: left_def active_is_active_def)
  moreover have "ps_expires_at_unix_ms (pause_state_of fp now) = Some (unix_ms (now_wall now + int left))"
    unfolding pause_state_of_def a(1) option.case if_P[OF a(2)] Let_def min by simp
  moreover have "active_is_active a \<lparr> now_mono = now_mono now + dt, now_wall = now_wall now + int dt \<rparr> \<longleftrightarrow> dt < left" for dt
    using a(2) by (auto simp: left_def active_is_active_def)
  ultimately show ?thesis unfolding a(1) pause_is_active_def option.case by blast
qed

theorem reported_end_exact_witness:
  "ps_paused (pause_state_of (pw_pause (pause_run paused_run)) (at 200))
   \<and> ps_expires_at_unix_ms (pause_state_of (pw_pause (pause_run paused_run)) (at 200)) \<noteq> None"
proof -
  have "pause_is_active (pw_pause (pause_run paused_run)) (at 200)" by code_simp
  then have on: "ps_paused (pause_state_of (pw_pause (pause_run paused_run)) (at 200))"
    by (simp add: ps_paused_iff)
  from reported_end_exact[OF on]
  have "ps_expires_at_unix_ms (pause_state_of (pw_pause (pause_run paused_run)) (at 200)) \<noteq> None"
    by (metis option.distinct(1))
  with on show ?thesis by blast
qed

end
