(* ===== verification/Connections.thy ===== *)
theory Connections
  imports Conn_Rows Presence_Pause
begin

text \<open>
  \<open>cache/connections.rs\<close>, \<open>pause_answers.rs\<close> and \<open>deferred_answers.rs\<close>: the list of
  connection rows with its waiting prompts.

  Each waiting prompt owns the sending end of a \<open>oneshot\<close> channel whose receiving end the
  \<open>AskRule\<close> task awaits. The channels are a store (\<open>chans\<close>) of their own: a prompt's
  entry holds a channel number, delivering a verdict, dropping the sender and closing the
  receiver are updates of the store. \<open>outbox\<close> is what the broadcast channel got, \<open>tray\<close>
  the value of the tray publisher, when there is one. Operations get the presence, the
  pause and the clock reading they consult as \<open>conn_env\<close>.
\<close>

section \<open>State\<close>

datatype chan = Waiting | Delivered verdict_resolution | SenderGone | ReceiverGone

record pending_entry =
  pe_sender :: nat
  pe_admission :: "admission option"
  pe_cancellations :: bool

datatype conn_message =
  InsertConnectionRows "connection_row list"
| UpdateConnectionRows "connection_row list"
| RemoveConnectionRows "rstr list"

record conn_cache =
  rows :: "connection_row list"
  pending :: "(rstr, pending_entry) fmap"
  capacity :: nat
  tray :: "tray_state option"
  watches_pause :: bool
  daemon_down :: bool
  chans :: "(nat, chan) fmap"
  next_chan :: nat
  outbox :: "conn_message list"

record conn_env =
  en_presence :: presence
  en_pause :: filter_pause
  en_clock :: clock

datatype cache_error = NotFound rstr | NotPending rstr

definition new_cache :: "nat \<Rightarrow> conn_cache" where
  "new_cache cap = \<lparr> rows = [], pending = fmempty, capacity = cap, tray = None, watches_pause = False,
     daemon_down = False, chans = fmempty, next_chan = 0, outbox = [] \<rparr>"

definition with_tray_publisher :: "nat \<Rightarrow> tray_state \<Rightarrow> conn_cache" where
  "with_tray_publisher cap shown = (new_cache cap)\<lparr> tray := Some shown \<rparr>"

definition with_filter_pause :: "conn_cache \<Rightarrow> conn_cache" where
  "with_filter_pause c = c\<lparr> watches_pause := True \<rparr>"

section \<open>The tray\<close>

definition pending_count :: "conn_cache \<Rightarrow> nat" where
  "pending_count c = fm_len (pending c)"

definition tray_state_of :: "conn_env \<Rightarrow> conn_cache \<Rightarrow> tray_state" where
  "tray_state_of env c =
     derive (daemon_down c) (watches_pause c \<and> pause_is_active (en_pause env) (en_clock env)) (pending_count c)"

definition set_daemon_down :: "bool \<Rightarrow> conn_cache \<Rightarrow> conn_cache" where
  "set_daemon_down down c = c\<lparr> daemon_down := down \<rparr>"

definition republish_pending_count :: "conn_env \<Rightarrow> conn_cache \<Rightarrow> conn_cache" where
  "republish_pending_count env c =
     (case tray c of None \<Rightarrow> c | Some _ \<Rightarrow> c\<lparr> tray := Some (tray_state_of env c) \<rparr>)"

definition resync_tray_state :: "conn_env \<Rightarrow> conn_cache \<Rightarrow> conn_cache" where
  "resync_tray_state env c = republish_pending_count env c"

section \<open>Channels\<close>

definition drop_sender :: "nat \<Rightarrow> conn_cache \<Rightarrow> conn_cache" where
  "drop_sender ch c =
     (if fmlookup (chans c) ch = Some Waiting then c\<lparr> chans := fmupd ch SenderGone (chans c) \<rparr> else c)"

text \<open>\<open>Sender::send\<close> fails when the receiver is gone. The sender is used up either way.\<close>

definition send_verdict :: "nat \<Rightarrow> verdict_resolution \<Rightarrow> conn_cache \<Rightarrow> conn_cache \<times> bool" where
  "send_verdict ch resolution c =
     (if fmlookup (chans c) ch = Some Waiting
      then (c\<lparr> chans := fmupd ch (Delivered resolution) (chans c) \<rparr>, True)
      else (c, False))"

text \<open>
  The \<open>AskRule\<close> future is dropped: its receiver closes. Once a verdict is delivered the
  sender is used up and closing the receiver changes nothing for anyone.
\<close>

definition close_receiver :: "nat \<Rightarrow> conn_cache \<Rightarrow> conn_cache" where
  "close_receiver ch c =
     (if fmlookup (chans c) ch = Some Waiting then c\<lparr> chans := fmupd ch ReceiverGone (chans c) \<rparr> else c)"

section \<open>Eviction and insertion\<close>

definition is_pending :: "conn_cache \<Rightarrow> connection_row \<Rightarrow> bool" where
  "is_pending c r \<longleftrightarrow> row_id r |\<in>| fmdom (pending c)"

function evict_loop :: "nat \<Rightarrow> (connection_row \<Rightarrow> bool) \<Rightarrow> connection_row list \<Rightarrow> connection_row list" where
  "evict_loop cap waiting rs =
     (if cap < length rs
      then (if \<exists>r \<in> set rs. \<not> waiting r
            then evict_loop cap waiting (remove_first (\<lambda>r. \<not> waiting r) rs) else rs)
      else rs)"
  by auto
termination
proof (relation "measure (\<lambda>(_, _, rs). length rs)")
  fix cap :: nat and waiting and rs :: "connection_row list"
  assume "\<exists>r \<in> set rs. \<not> waiting r"
  then show "((cap, waiting, remove_first (\<lambda>r. \<not> waiting r) rs), (cap, waiting, rs)) \<in> measure (\<lambda>(_, _, rs). length rs)"
    using length_remove_first[of rs "\<lambda>r. \<not> waiting r"] by simp
qed simp

declare evict_loop.simps [simp del]

definition evict_if_needed :: "conn_cache \<Rightarrow> conn_cache" where
  "evict_if_needed c = c\<lparr> rows := evict_loop (capacity c) (is_pending c) (rows c) \<rparr>"

definition insert_decided :: "connection_row \<Rightarrow> conn_cache \<Rightarrow> conn_cache" where
  "insert_decided row c = evict_if_needed (c\<lparr> rows := rows c @ [row] \<rparr>)"

text \<open>Inserting under a key that is taken drops the entry that was there, and its sender.\<close>

definition insert_pending_inner ::
  "conn_env \<Rightarrow> connection_row \<Rightarrow> admission option \<Rightarrow> bool \<Rightarrow> conn_cache \<Rightarrow> conn_cache \<times> nat" where
  "insert_pending_inner env row ad cancellations c =
     (let ch = next_chan c;
          c = (case fmlookup (pending c) (row_id row) of None \<Rightarrow> c | Some e \<Rightarrow> drop_sender (pe_sender e) c);
          c = c\<lparr> chans := fmupd ch Waiting (chans c), next_chan := ch + 1,
                  pending := fmupd (row_id row) \<lparr> pe_sender = ch, pe_admission = ad,
                                                   pe_cancellations = cancellations \<rparr> (pending c),
                  rows := rows c @ [row] \<rparr>
      in (republish_pending_count env (evict_if_needed c), ch))"

definition insert_pending :: "conn_env \<Rightarrow> connection_row \<Rightarrow> conn_cache \<Rightarrow> conn_cache \<times> nat" where
  "insert_pending env row c = insert_pending_inner env row None False c"

definition insert_admitted ::
  "conn_env \<Rightarrow> connection_row \<Rightarrow> admission \<Rightarrow> conn_cache \<Rightarrow> conn_cache \<times> nat option" where
  "insert_admitted env row ad c =
     while_current (en_presence env) ad (insert_pending_inner env row (Some ad) True) c"

section \<open>Settling a prompt\<close>

definition publish_cancellation :: "bool \<Rightarrow> rstr \<Rightarrow> conn_cache \<Rightarrow> conn_cache" where
  "publish_cancellation cancellations rid c =
     (if cancellations then c\<lparr> outbox := outbox c @ [RemoveConnectionRows [rid]] \<rparr> else c)"

definition decide_row :: "(nat list \<Rightarrow> nat list) \<Rightarrow> verdict \<Rightarrow> connection_row \<Rightarrow> connection_row" where
  "decide_row sha verdict r =
     r\<lparr> row_action := Some (case verdict of Allow \<Rightarrow> lit ''allow'' | Deny \<Rightarrow> lit ''deny''),
        row_matched_rule := Some (rule_name_for sha verdict (row_dst_host r) (row_dst_port r)
                                    (case row_process_path r of Some p \<Rightarrow> p | None \<Rightarrow> [])),
        row_answer_deadline_ms := None \<rparr>"

definition resolve ::
  "(nat list \<Rightarrow> nat list) \<Rightarrow> conn_env \<Rightarrow> rstr \<Rightarrow> verdict \<Rightarrow> verdict_duration \<Rightarrow> verdict_scope
     \<Rightarrow> conn_cache \<Rightarrow> conn_cache \<times> (cache_error + unit)" where
  "resolve sha env rid verdict duration scope c =
     (case fmlookup (pending c) rid of
        None \<Rightarrow> (c, Inl (NotPending rid))
      | Some e \<Rightarrow>
          let c = c\<lparr> pending := fmdrop rid (pending c) \<rparr>;
              resolution = \<lparr> v_verdict = verdict, v_duration = duration, v_scope = scope \<rparr>;
              settle = send_verdict (pe_sender e) resolution;
              (c, delivered) =
                (case pe_admission e of
                   Some ad \<Rightarrow> (case while_current (en_presence env) ad settle c of
                                (c, Some b) \<Rightarrow> (c, b)
                              | (c, None) \<Rightarrow> (drop_sender (pe_sender e) c, False))
                 | None \<Rightarrow> settle c)
          in if \<not> delivered
             then (republish_pending_count env
                     (publish_cancellation (pe_cancellations e) rid
                        (c\<lparr> rows := filter (\<lambda>r. row_id r \<noteq> rid) (rows c) \<rparr>)),
                   Inl (NotPending rid))
             else if \<exists>r \<in> set (rows c). row_id r = rid
             then (republish_pending_count env
                     (c\<lparr> rows := update_first (\<lambda>r. row_id r = rid) (decide_row sha verdict) (rows c) \<rparr>), Inr ())
             else (republish_pending_count env c, Inl (NotFound rid)))"

definition cancel_pending :: "conn_env \<Rightarrow> rstr \<Rightarrow> conn_cache \<Rightarrow> conn_cache \<times> bool" where
  "cancel_pending env rid c =
     (case fmlookup (pending c) rid of
        None \<Rightarrow> (c, False)
      | Some e \<Rightarrow>
          let c = drop_sender (pe_sender e) (c\<lparr> pending := fmdrop rid (pending c) \<rparr>);
              c = publish_cancellation (pe_cancellations e) rid c
          in (republish_pending_count env (c\<lparr> rows := filter (\<lambda>r. row_id r \<noteq> rid) (rows c) \<rparr>), True))"

definition defer_row :: "rstr option \<Rightarrow> auto_answer option \<Rightarrow> connection_row \<Rightarrow> connection_row" where
  "defer_row act why r =
     r\<lparr> row_action := act, row_auto_answer := why, row_answer_deadline_ms := None, row_deferred := True \<rparr>"

text \<open>\<open>iter_mut().find\<close>, change, and return a clone.\<close>

definition change_row ::
  "rstr \<Rightarrow> (connection_row \<Rightarrow> connection_row) \<Rightarrow> conn_cache \<Rightarrow> conn_cache \<times> connection_row option" where
  "change_row rid f c =
     (c\<lparr> rows := update_first (\<lambda>r. row_id r = rid) f (rows c) \<rparr>,
      map_option f (find (\<lambda>r. row_id r = rid) (rows c)))"

definition defer_pending ::
  "conn_env \<Rightarrow> rstr \<Rightarrow> rstr option \<Rightarrow> auto_answer option \<Rightarrow> conn_cache \<Rightarrow> conn_cache \<times> connection_row option" where
  "defer_pending env rid act why c =
     (case fmlookup (pending c) rid of
        None \<Rightarrow> (c, None)
      | Some e \<Rightarrow>
          change_row rid (defer_row act why)
            (republish_pending_count env (drop_sender (pe_sender e) (c\<lparr> pending := fmdrop rid (pending c) \<rparr>))))"

definition mark_deferred :: "rstr \<Rightarrow> conn_cache \<Rightarrow> conn_cache \<times> connection_row option" where
  "mark_deferred rid c = change_row rid (\<lambda>r. r\<lparr> row_deferred := True \<rparr>) c"

definition label_auto_answer :: "rstr \<Rightarrow> auto_answer \<Rightarrow> conn_cache \<Rightarrow> conn_cache \<times> connection_row option" where
  "label_auto_answer rid why c = change_row rid (\<lambda>r. r\<lparr> row_auto_answer := Some why \<rparr>) c"

text \<open>The source walks its hash map, in an order of its own; here the ids come sorted. Each is
  answered by itself, so the order shows only in the order of the broadcasts.\<close>

definition pending_admitted_where :: "(admission \<Rightarrow> bool) \<Rightarrow> conn_cache \<Rightarrow> rstr list" where
  "pending_admitted_where keep c =
     filter (\<lambda>rid. case fmlookup (pending c) rid of
                     Some e \<Rightarrow> (case pe_admission e of Some ad \<Rightarrow> keep ad | None \<Rightarrow> False)
                   | None \<Rightarrow> False) (fm_keys (pending c))"

section \<open>Answers under a pause\<close>

fun allow_each ::
  "(nat list \<Rightarrow> nat list) \<Rightarrow> conn_env \<Rightarrow> rstr list \<Rightarrow> conn_cache \<Rightarrow> conn_cache \<times> connection_row list" where
  "allow_each sha env [] c = (c, [])"
| "allow_each sha env (rid # rids) c =
     (case resolve sha env rid Allow Once ThisHost c of
        (c, Inl _) \<Rightarrow> allow_each sha env rids c
      | (c, Inr _) \<Rightarrow>
          let (c, r) = label_auto_answer rid FilterPaused c;
              (c, rs) = allow_each sha env rids c
          in (c, (case r of None \<Rightarrow> rs | Some r \<Rightarrow> r # rs)))"

definition allow_waiting ::
  "(nat list \<Rightarrow> nat list) \<Rightarrow> conn_env \<Rightarrow> conn_cache \<Rightarrow> conn_cache \<times> connection_row list" where
  "allow_waiting sha env c =
     allow_each sha env
       (pending_admitted_where (applies_to (en_presence env) (en_clock env) (en_pause env)) c) c"

definition answer_waiting ::
  "(nat list \<Rightarrow> nat list) \<Rightarrow> conn_env \<Rightarrow> conn_cache \<Rightarrow> conn_cache \<times> nat" where
  "answer_waiting sha env c =
     (let (c, rs) = allow_waiting sha env c
      in (if 0 < length rs then c\<lparr> outbox := outbox c @ [UpdateConnectionRows rs] \<rparr> else c, length rs))"

definition allowed_on_arrival :: "connection_row \<Rightarrow> connection_row" where
  "allowed_on_arrival r = r\<lparr> row_action := Some (lit ''allow''), row_auto_answer := Some FilterPaused \<rparr>"

section \<open>Prompts nobody answers, and Decide later\<close>

definition ANSWER_TIMEOUT_MS :: int where "ANSWER_TIMEOUT_MS = 30000"

definition with_answer_deadline :: "int \<Rightarrow> connection_row \<Rightarrow> int \<Rightarrow> connection_row" where
  "with_answer_deadline now_ms r timeout_ms =
     r\<lparr> row_answer_deadline_ms := Some (i64_saturating_add now_ms timeout_ms) \<rparr>"

text \<open>\<open>DaemonConfigView::default_row_action\<close>, from the default action of the daemon's configuration.\<close>

definition default_row_action :: "rstr option \<Rightarrow> rstr option" where
  "default_row_action default_action =
     (case default_action of
        None \<Rightarrow> None
      | Some a \<Rightarrow> if a = lit ''allow'' then Some (lit ''allow'')
                 else if a = lit ''deny'' \<or> a = lit ''reject'' then Some (lit ''deny'') else None)"

definition answer_unanswered :: "conn_env \<Rightarrow> rstr option \<Rightarrow> rstr \<Rightarrow> conn_cache \<Rightarrow> conn_cache \<times> bool" where
  "answer_unanswered env default_action rid c =
     (case defer_pending env rid (default_row_action default_action) (Some NoAnswer) c of
        (c, None) \<Rightarrow> (c, False)
      | (c, Some r) \<Rightarrow> (c\<lparr> outbox := outbox c @ [UpdateConnectionRows [r]] \<rparr>, True))"

datatype decided_later = BlockedForFiveMinutes | DefaultAction

definition decide_later ::
  "(nat list \<Rightarrow> nat list) \<Rightarrow> conn_env \<Rightarrow> rstr option \<Rightarrow> rstr \<Rightarrow> conn_cache
     \<Rightarrow> conn_cache \<times> (cache_error + decided_later)" where
  "decide_later sha env default_action rid c =
     (let bindable = (case find (\<lambda>r. row_id r = rid) (rows c) of
                        None \<Rightarrow> False
                      | Some r \<Rightarrow> (case row_process_path r of None \<Rightarrow> False | Some p \<Rightarrow> is_bindable_process_path p))
      in if bindable
         then (case resolve sha env rid Deny FiveMinutes AnyHost c of
                 (c, Inl err) \<Rightarrow> (c, Inl err)
               | (c, Inr _) \<Rightarrow>
                   (case mark_deferred rid c of
                      (c, None) \<Rightarrow> (c, Inr BlockedForFiveMinutes)
                    | (c, Some r) \<Rightarrow> (c\<lparr> outbox := outbox c @ [UpdateConnectionRows [r]] \<rparr>, Inr BlockedForFiveMinutes)))
         else (case defer_pending env rid (default_row_action default_action) None c of
                 (c, None) \<Rightarrow> (c, Inl (NotPending rid))
               | (c, Some r) \<Rightarrow> (c\<lparr> outbox := outbox c @ [UpdateConnectionRows [r]] \<rparr>, Inr DefaultAction)))"

section \<open>The invariant\<close>

text \<open>
  Every waiting prompt has its row, undecided and not deferred, and its own channel, which
  holds no verdict yet; every channel somebody still waits on belongs to a prompt.
\<close>

definition has_open_row :: "connection_row list \<Rightarrow> rstr \<Rightarrow> bool" where
  "has_open_row rs rid \<longleftrightarrow> (\<exists>r \<in> set rs. row_id r = rid \<and> row_action r = None \<and> \<not> row_deferred r)"

definition cache_inv :: "conn_cache \<Rightarrow> bool" where
  "cache_inv c \<longleftrightarrow>
     distinct (map row_id (rows c))
     \<and> (\<forall>rid e. fmlookup (pending c) rid = Some e \<longrightarrow>
          has_open_row (rows c) rid
          \<and> (fmlookup (chans c) (pe_sender e) = Some Waiting \<or> fmlookup (chans c) (pe_sender e) = Some ReceiverGone))
     \<and> (\<forall>rid rid' e e'. fmlookup (pending c) rid = Some e \<longrightarrow> fmlookup (pending c) rid' = Some e'
          \<longrightarrow> pe_sender e = pe_sender e' \<longrightarrow> rid = rid')
     \<and> (\<forall>ch x. fmlookup (chans c) ch = Some x \<longrightarrow> ch < next_chan c)
     \<and> (\<forall>ch. fmlookup (chans c) ch = Some Waiting \<longrightarrow>
          (\<exists>rid e. fmlookup (pending c) rid = Some e \<and> pe_sender e = ch))"

lemma cache_inv_distinct: "cache_inv c \<Longrightarrow> distinct (map row_id (rows c))"
  by (simp add: cache_inv_def)

lemma cache_inv_frame [simp]:
  "cache_inv (c\<lparr> tray := x \<rparr>) \<longleftrightarrow> cache_inv c"
  "cache_inv (c\<lparr> outbox := y \<rparr>) \<longleftrightarrow> cache_inv c"
  "cache_inv (c\<lparr> daemon_down := z \<rparr>) \<longleftrightarrow> cache_inv c"
  by (simp_all add: cache_inv_def)

lemma cache_inv_republish [simp]: "cache_inv (republish_pending_count env c) \<longleftrightarrow> cache_inv c"
  by (simp add: republish_pending_count_def split: option.split)

lemma cache_inv_publish [simp]: "cache_inv (publish_cancellation b rid c) \<longleftrightarrow> cache_inv c"
  by (simp add: publish_cancellation_def)

lemma republish_frame [simp]:
  "rows (republish_pending_count env c) = rows c"
  "pending (republish_pending_count env c) = pending c"
  "chans (republish_pending_count env c) = chans c"
  "next_chan (republish_pending_count env c) = next_chan c"
  "outbox (republish_pending_count env c) = outbox c"
  "capacity (republish_pending_count env c) = capacity c"
  by (simp_all add: republish_pending_count_def split: option.split)

lemma publish_frame [simp]:
  "rows (publish_cancellation b rid c) = rows c"
  "pending (publish_cancellation b rid c) = pending c"
  "chans (publish_cancellation b rid c) = chans c"
  "next_chan (publish_cancellation b rid c) = next_chan c"
  "capacity (publish_cancellation b rid c) = capacity c"
  by (simp_all add: publish_cancellation_def)

lemma outbox_publish:
  "outbox (publish_cancellation b rid c) = (if b then outbox c @ [RemoveConnectionRows [rid]] else outbox c)"
  by (simp add: publish_cancellation_def)

lemma new_cache_inv [simp]: "cache_inv (new_cache cap)"
  by (simp add: cache_inv_def new_cache_def)

subsection \<open>Eviction\<close>

text \<open>The reference: drop the oldest \<open>k\<close> rows nobody waits on.\<close>

fun drop_oldest :: "nat \<Rightarrow> (connection_row \<Rightarrow> bool) \<Rightarrow> connection_row list \<Rightarrow> connection_row list" where
  "drop_oldest 0 waiting rs = rs"
| "drop_oldest (Suc k) waiting [] = []"
| "drop_oldest (Suc k) waiting (r # rs) =
     (if waiting r then r # drop_oldest (Suc k) waiting rs else drop_oldest k waiting rs)"

lemma drop_oldest_remove_first:
  "\<exists>r \<in> set rs. \<not> waiting r \<Longrightarrow>
     drop_oldest (Suc k) waiting rs = drop_oldest k waiting (remove_first (\<lambda>r. \<not> waiting r) rs)"
proof (induction rs)
  case (Cons r rs)
  then show ?case by (cases k) auto
qed simp

lemma drop_oldest_all_waiting: "\<forall>r \<in> set rs. waiting r \<Longrightarrow> drop_oldest k waiting rs = rs"
  by (induction k waiting rs rule: drop_oldest.induct) auto

lemma evict_loop_eq: "evict_loop cap waiting rs = drop_oldest (length rs - cap) waiting rs"
proof (induction cap waiting rs rule: evict_loop.induct)
  case (1 cap waiting rs)
  show ?case
  proof (cases "cap < length rs \<and> (\<exists>r \<in> set rs. \<not> waiting r)")
    case True
    then have "length rs - cap = Suc (length (remove_first (\<lambda>r. \<not> waiting r) rs) - cap)"
      using length_remove_first[of rs "\<lambda>r. \<not> waiting r"] by linarith
    with True 1 show ?thesis
      by (subst evict_loop.simps) (simp add: drop_oldest_remove_first)
  next
    case False
    then show ?thesis
      by (subst evict_loop.simps) (auto simp: drop_oldest_all_waiting)
  qed
qed

lemma drop_oldest_subseq: "subseq (drop_oldest k waiting rs) rs"
  by (induction k waiting rs rule: drop_oldest.induct) auto

lemma filter_drop_oldest: "filter waiting (drop_oldest k waiting rs) = filter waiting rs"
  by (induction k waiting rs rule: drop_oldest.induct) auto

lemma length_drop_oldest:
  "length (drop_oldest k waiting rs) + min k (length (filter (\<lambda>r. \<not> waiting r) rs)) = length rs"
  by (induction k waiting rs rule: drop_oldest.induct) auto

lemma distinct_map_subseq: "subseq xs ys \<Longrightarrow> distinct (map f ys) \<Longrightarrow> distinct (map f xs)"
  by (induction rule: list_emb.induct) (auto dest: list_emb_set)

lemma evict_inv: "cache_inv c \<Longrightarrow> cache_inv (evict_if_needed c)"
proof -
  assume inv: "cache_inv c"
  let ?rs = "drop_oldest (length (rows c) - capacity c) (is_pending c) (rows c)"
  have "has_open_row ?rs rid" if "has_open_row (rows c) rid" "rid |\<in>| fmdom (pending c)" for rid
    using that filter_drop_oldest[of "is_pending c" "length (rows c) - capacity c" "rows c"]
    by (metis (mono_tags, lifting) has_open_row_def is_pending_def mem_Collect_eq set_filter)
  with inv distinct_map_subseq[OF drop_oldest_subseq] show ?thesis
    by (auto simp: cache_inv_def evict_if_needed_def evict_loop_eq fmdomI)
qed

lemma evict_frame [simp]:
  "pending (evict_if_needed c) = pending c" "chans (evict_if_needed c) = chans c"
  "next_chan (evict_if_needed c) = next_chan c" "outbox (evict_if_needed c) = outbox c"
  "capacity (evict_if_needed c) = capacity c"
  by (simp_all add: evict_if_needed_def)

text \<open>
  C4. Retention: inserting a decided row keeps every waiting prompt's row, keeps the rest
  in insertion order and drops exactly the oldest rows nobody waits on, so many that the
  list is within its capacity or consists of waiting prompts only.
\<close>

theorem eviction_drops_oldest_decided:
  "rows (insert_decided row c) =
     drop_oldest (length (rows c) + 1 - capacity c) (is_pending c) (rows c @ [row])
   \<and> filter (is_pending c) (rows (insert_decided row c)) = filter (is_pending c) (rows c @ [row])
   \<and> subseq (rows (insert_decided row c)) (rows c @ [row])
   \<and> (length (rows (insert_decided row c)) \<le> capacity c
      \<or> list_all (is_pending c) (rows (insert_decided row c)))"
proof -
  let ?rs = "rows c @ [row]" and ?k = "length (rows c) + 1 - capacity c"
  have p: "is_pending (c\<lparr> rows := ?rs \<rparr>) = is_pending c" by (rule ext) (simp add: is_pending_def)
  have e: "rows (insert_decided row c) = drop_oldest ?k (is_pending c) ?rs"
    by (simp add: insert_decided_def evict_if_needed_def evict_loop_eq p)
  have "list_all (is_pending c) (drop_oldest ?k (is_pending c) ?rs)"
    if "capacity c < length (drop_oldest ?k (is_pending c) ?rs)"
  proof -
    let ?d = "drop_oldest ?k (is_pending c) ?rs"
    have "length (filter (is_pending c) ?d) + length (filter (\<lambda>r. \<not> is_pending c r) ?rs) = length ?rs"
      unfolding filter_drop_oldest by (rule sum_length_filter_compl)
    then have "length (filter (is_pending c) ?d) = length ?d"
      using that length_drop_oldest[of ?k "is_pending c" ?rs] by (simp del: filter_append)
    then show ?thesis by (metis filter_id_conv length_filter_less less_irrefl list_all_iff)
  qed
  then show ?thesis unfolding e by (simp add: filter_drop_oldest drop_oldest_subseq del: filter_append) linarith
qed

subsection \<open>Settling\<close>

text \<open>
  Every way a prompt ends is one change: its entry goes, its channel, if still waited on,
  gets its final state, and only its own row is touched.
\<close>

definition settle :: "rstr \<Rightarrow> pending_entry \<Rightarrow> chan \<Rightarrow> connection_row list \<Rightarrow> conn_cache \<Rightarrow> conn_cache" where
  "settle rid e x rs c =
     c\<lparr> pending := fmdrop rid (pending c),
        chans := (if fmlookup (chans c) (pe_sender e) = Some Waiting then fmupd (pe_sender e) x (chans c) else chans c),
        rows := rs \<rparr>"

definition others :: "rstr \<Rightarrow> connection_row list \<Rightarrow> connection_row list" where
  "others rid rs = filter (\<lambda>r. row_id r \<noteq> rid) rs"

lemma others_simps [simp]:
  "others rid (filter (\<lambda>r. row_id r \<noteq> rid) rs) = others rid rs"
  "(\<And>r. row_id (f r) = row_id r) \<Longrightarrow> others rid (update_first (\<lambda>r. row_id r = rid) f rs) = others rid rs"
  "others rid (others rid rs) = others rid rs"
  "distinct (map row_id rs) \<Longrightarrow> distinct (map row_id (others rid rs))"
  by (induction rs) (auto simp: others_def)

lemma has_open_row_others:
  "rid' \<noteq> rid \<Longrightarrow> has_open_row (others rid rs) rid' \<longleftrightarrow> has_open_row rs rid'"
  by (auto simp: has_open_row_def others_def)

lemma settle_inv:
  assumes inv: "cache_inv c" and e: "fmlookup (pending c) rid = Some e" and x: "x \<noteq> Waiting"
    and rs: "others rid rs = others rid (rows c)" "distinct (map row_id rs)"
  shows "cache_inv (settle rid e x rs c)"
proof -
  have open_row: "has_open_row rs rid' = has_open_row (rows c) rid'" if "rid' \<noteq> rid" for rid'
    using has_open_row_others[OF that, of rs] has_open_row_others[OF that, of "rows c"] rs(1) by simp
  have other: "pe_sender e' \<noteq> pe_sender e" if "fmlookup (pending c) rid' = Some e'" "rid' \<noteq> rid" for rid' e'
    using inv e that by (auto simp: cache_inv_def)
  show ?thesis
    unfolding cache_inv_def settle_def
  proof (intro conjI, goal_cases)
    case 2
    then show ?case using inv open_row other by (auto simp: cache_inv_def split: if_splits) metis+
  next
    case 5
    then show ?case using inv x e other
      by (auto simp: cache_inv_def split: if_splits) (metis option.inject)+
  qed (use inv rs(2) in \<open>auto simp: cache_inv_def split: if_splits\<close>)
qed

lemma distinct_rows_changed:
  "distinct (map row_id rs) \<Longrightarrow> distinct (map row_id (filter P rs))"
  "distinct (map row_id rs) \<Longrightarrow> (\<And>r. row_id (f r) = row_id r) \<Longrightarrow>
     distinct (map row_id (update_first P f rs))"
  by (simp_all add: distinct_map_filter map_update_first)

lemma drop_sender_settle:
  "drop_sender (pe_sender e) (c\<lparr> pending := fmdrop rid (pending c) \<rparr>) = settle rid e SenderGone (rows c) c"
  by (simp add: drop_sender_def settle_def)

lemma row_id_decide_row [simp]: "row_id (decide_row sha v r) = row_id r"
  by (simp add: decide_row_def)

lemma row_id_defer_row [simp]: "row_id (defer_row act why r) = row_id r"
  by (simp add: defer_row_def)

text \<open>Whether a verdict for a prompt arrives: its sessions are still there, and so is the asker.\<close>

definition deliverable :: "conn_env \<Rightarrow> pending_entry \<Rightarrow> conn_cache \<Rightarrow> bool" where
  "deliverable env e c \<longleftrightarrow>
     fmlookup (chans c) (pe_sender e) = Some Waiting
     \<and> (case pe_admission e of None \<Rightarrow> True | Some ad \<Rightarrow> generation_current (en_presence env) (ad_generation ad))"

lemma settle_fields [simp]:
  "rows (settle rid e x rs c) = rs" "pending (settle rid e x rs c) = fmdrop rid (pending c)"
  "next_chan (settle rid e x rs c) = next_chan c" "capacity (settle rid e x rs c) = capacity c"
  "outbox (settle rid e x rs c) = outbox c"
  "fmlookup (chans (settle rid e x rs c)) ch =
     (if ch = pe_sender e \<and> fmlookup (chans c) ch = Some Waiting then Some x else fmlookup (chans c) ch)"
  by (auto simp: settle_def)

lemma settle_rows_update: "(settle rid e x rs c)\<lparr> rows := rs' \<rparr> = settle rid e x rs' c"
  by (simp add: settle_def)

lemma resolve_cases:
  assumes inv: "cache_inv c" and e: "fmlookup (pending c) rid = Some e"
  shows "resolve sha env rid verdict duration scope c =
     (if deliverable env e c
      then (republish_pending_count env
              (settle rid e (Delivered \<lparr> v_verdict = verdict, v_duration = duration, v_scope = scope \<rparr>)
                 (update_first (\<lambda>r. row_id r = rid) (decide_row sha verdict) (rows c)) c), Inr ())
      else (republish_pending_count env
              (publish_cancellation (pe_cancellations e) rid
                 (settle rid e SenderGone (others rid (rows c)) c)), Inl (NotPending rid)))"
proof -
  have "\<exists>r \<in> set (rows c). row_id r = rid"
    using inv e by (auto simp: cache_inv_def has_open_row_def)
  then show ?thesis
    by (auto simp: resolve_def e deliverable_def send_verdict_def drop_sender_def settle_def others_def
        while_current_def while_generation_current_def Let_def split: option.splits)
qed

lemma resolve_not_pending: "fmlookup (pending c) rid = None \<Longrightarrow>
    resolve sha env rid verdict duration scope c = (c, Inl (NotPending rid))"
  by (simp add: resolve_def)

lemma publish_rows: "(publish_cancellation b rid c)\<lparr> rows := rs \<rparr> = publish_cancellation b rid (c\<lparr> rows := rs \<rparr>)"
  by (cases c) (simp add: publish_cancellation_def)

lemma cancel_cases:
  "cancel_pending env rid c =
     (case fmlookup (pending c) rid of
        None \<Rightarrow> (c, False)
      | Some e \<Rightarrow> (republish_pending_count env
            (publish_cancellation (pe_cancellations e) rid
               (settle rid e SenderGone (others rid (rows c)) c)), True))"
  by (simp add: cancel_pending_def drop_sender_settle Let_def others_def publish_rows settle_rows_update
      split: option.split)

lemma change_row_inv:
  assumes "cache_inv c" "\<And>r. row_id (f r) = row_id r"
    "fmlookup (pending c) rid = None \<or> (\<forall>r. row_action (f r) = row_action r \<and> row_deferred (f r) = row_deferred r)"
  shows "cache_inv (fst (change_row rid f c))"
proof -
  have "has_open_row (update_first (\<lambda>r. row_id r = rid) f (rows c)) rid'"
    if "has_open_row (rows c) rid'" "rid' |\<in>| fmdom (pending c)" for rid'
  proof (cases "rid' = rid")
    case True
    then have "\<forall>r. row_action (f r) = row_action r \<and> row_deferred (f r) = row_deferred r"
      using assms(3) that(2) by (auto simp: fmlookup_None_iff)
    then have "\<exists>r' \<in> set (update_first (\<lambda>r. row_id r = rid) f rs).
        row_id r' = row_id r \<and> row_action r' = row_action r \<and> row_deferred r' = row_deferred r"
      if "r \<in> set rs" for r rs
      using that assms(2) by (induction rs) auto
    with that(1) show ?thesis unfolding has_open_row_def by metis
  next
    case False
    then show ?thesis
      using that(1) has_open_row_others[OF False] others_simps(2)[of f rid "rows c"] assms(2) by metis
  qed
  then show ?thesis
    using assms(1,2) distinct_rows_changed(2)[of "rows c" f]
    by (auto simp: cache_inv_def change_row_def fmdomI)
qed

subsection \<open>Every operation keeps the invariant and every settled channel\<close>

definition settled_kept :: "conn_cache \<Rightarrow> conn_cache \<Rightarrow> bool" where
  "settled_kept c c' \<longleftrightarrow>
     (\<forall>ch x. fmlookup (chans c) ch = Some x \<longrightarrow> x \<noteq> Waiting \<longrightarrow> fmlookup (chans c') ch = Some x)"

definition keeps :: "conn_cache \<Rightarrow> conn_cache \<Rightarrow> bool" where
  "keeps c c' \<longleftrightarrow> (cache_inv c \<longrightarrow> cache_inv c' \<and> settled_kept c c')"

lemma keeps_refl [simp]: "keeps c c"
  by (simp add: keeps_def settled_kept_def)

lemma keeps_trans: "keeps a b \<Longrightarrow> keeps b c \<Longrightarrow> keeps a c"
  by (auto simp: keeps_def settled_kept_def)

lemma settled_kept_same_chans: "chans c' = chans c \<Longrightarrow> settled_kept c c'"
  by (simp add: settled_kept_def)

lemma settled_kept_settle [simp]: "settled_kept c (settle rid e x rs c)"
  by (simp add: settled_kept_def)

lemma settled_kept_frame [simp]:
  "settled_kept c (republish_pending_count env c') \<longleftrightarrow> settled_kept c c'"
  "settled_kept c (publish_cancellation b rid c') \<longleftrightarrow> settled_kept c c'"
  "settled_kept c (c'\<lparr> rows := rs \<rparr>) \<longleftrightarrow> settled_kept c c'"
  "settled_kept c (c'\<lparr> outbox := msgs \<rparr>) \<longleftrightarrow> settled_kept c c'"
  by (simp_all add: settled_kept_def)

lemma keeps_outbox [simp]: "keeps c (c'\<lparr> outbox := msgs \<rparr>) \<longleftrightarrow> keeps c c'"
  by (simp add: keeps_def)

lemma keeps_settle:
  assumes "fmlookup (pending c) rid = Some e" "x \<noteq> Waiting" "others rid rs = others rid (rows c)"
    "distinct (map row_id (rows c)) \<Longrightarrow> distinct (map row_id rs)"
  shows "keeps c (settle rid e x rs c)"
  using assms settle_inv[of c rid e x rs] cache_inv_distinct by (simp add: keeps_def)

lemma keeps_republish [simp]: "keeps c (republish_pending_count env c') \<longleftrightarrow> keeps c c'"
  by (simp add: keeps_def)

lemma keeps_publish [simp]: "keeps c (publish_cancellation b rid c') \<longleftrightarrow> keeps c c'"
  by (simp add: keeps_def)

lemma keeps_insert_decided:
  assumes "row_id row \<notin> row_id ` set (rows c)"
  shows "keeps c (insert_decided row c)"
proof -
  have "cache_inv c \<Longrightarrow> cache_inv (c\<lparr> rows := rows c @ [row] \<rparr>)"
    using assms by (auto simp: cache_inv_def has_open_row_def)
  then show ?thesis
    using evict_inv by (auto simp: keeps_def insert_decided_def intro: settled_kept_same_chans)
qed

lemma fresh_not_pending:
  "cache_inv c \<Longrightarrow> rid \<notin> row_id ` set (rows c) \<Longrightarrow> fmlookup (pending c) rid = None"
  by (cases "fmlookup (pending c) rid") (auto simp: cache_inv_def has_open_row_def)

lemma insert_pending_inner_fresh:
  assumes "fmlookup (pending c) (row_id row) = None"
  shows "insert_pending_inner env row ad b c =
    (republish_pending_count env (evict_if_needed
       (c\<lparr> chans := fmupd (next_chan c) Waiting (chans c), next_chan := next_chan c + 1,
           pending := fmupd (row_id row) \<lparr> pe_sender = next_chan c, pe_admission = ad, pe_cancellations = b \<rparr> (pending c),
           rows := rows c @ [row] \<rparr>)), next_chan c)"
  using assms by (simp add: insert_pending_inner_def Let_def)

lemma keeps_insert_pending:
  assumes "row_id row \<notin> row_id ` set (rows c)" "row_action row = None" "\<not> row_deferred row"
  shows "keeps c (fst (insert_pending_inner env row ad b c))"
proof (cases "cache_inv c")
  case True
  note fresh = fresh_not_pending[OF True assms(1)]
  let ?c = "c\<lparr> chans := fmupd (next_chan c) Waiting (chans c), next_chan := next_chan c + 1,
           pending := fmupd (row_id row) \<lparr> pe_sender = next_chan c, pe_admission = ad, pe_cancellations = b \<rparr> (pending c),
           rows := rows c @ [row] \<rparr>"
  have bound: "fmlookup (chans c) ch = Some x \<Longrightarrow> ch < next_chan c" for ch x
    using True by (simp add: cache_inv_def)
  have sender: "pe_sender e < next_chan c" if "fmlookup (pending c) rid = Some e" for rid e
    using True that bound unfolding cache_inv_def by metis
  have "cache_inv ?c"
    unfolding cache_inv_def
  proof (intro conjI, goal_cases)
    case 1
    then show ?case using True assms(1) by (auto simp: cache_inv_def)
  next
    case 2
    then show ?case using True assms(2,3) sender by (auto simp: cache_inv_def has_open_row_def)
  next
    case 3
    then show ?case using True sender by (fastforce simp: cache_inv_def split: if_splits)
  next
    case 4
    then show ?case using bound by (auto simp: less_Suc_eq split: if_splits)
  next
    case 5
    then show ?case using True fresh
      by (auto simp: cache_inv_def split: if_splits) (metis option.distinct(1))
  qed
  moreover have "settled_kept c ?c" using bound by (auto simp: settled_kept_def)
  then have "settled_kept c (evict_if_needed ?c)" by (simp add: settled_kept_def)
  ultimately show ?thesis
    using evict_inv by (simp add: keeps_def insert_pending_inner_fresh[OF fresh])
qed (simp add: keeps_def)

lemma keeps_insert_admitted:
  assumes "row_id row \<notin> row_id ` set (rows c)" "row_action row = None" "\<not> row_deferred row"
  shows "keeps c (fst (insert_admitted env row ad c))"
  using keeps_insert_pending[OF assms, of env "Some ad" True]
  by (auto simp: insert_admitted_def while_current_def while_generation_current_def split: prod.splits)

lemma keeps_resolve [simp]: "keeps c (fst (resolve sha env rid verdict duration scope c))"
proof (cases "fmlookup (pending c) rid")
  case (Some e)
  have "keeps c (settle rid e (Delivered res) (update_first (\<lambda>r. row_id r = rid) (decide_row sha verdict) (rows c)) c)"
    "keeps c (settle rid e SenderGone (others rid (rows c)) c)" for res
    by (auto intro!: keeps_settle[OF Some] distinct_rows_changed(2))
  then show ?thesis by (auto simp: keeps_def resolve_cases[OF _ Some])
qed (simp add: resolve_not_pending)

lemma keeps_cancel [simp]: "keeps c (fst (cancel_pending env rid c))"
proof (cases "fmlookup (pending c) rid")
  case (Some e)
  have "keeps c (settle rid e SenderGone (others rid (rows c)) c)"
    by (auto intro!: keeps_settle[OF Some])
  then show ?thesis by (simp add: cancel_cases Some)
qed (simp add: cancel_cases)

lemma change_row_settle:
  "fst (change_row rid f (republish_pending_count env (settle rid e x rs c))) =
     republish_pending_count env (settle rid e x (update_first (\<lambda>r. row_id r = rid) f rs) c)"
  by (simp add: change_row_def republish_pending_count_def settle_def tray_state_of_def pending_count_def
      split: option.split)

lemma keeps_defer [simp]: "keeps c (fst (defer_pending env rid act why c))"
proof (cases "fmlookup (pending c) rid")
  case (Some e)
  have "keeps c (settle rid e SenderGone (update_first (\<lambda>r. row_id r = rid) (defer_row act why) (rows c)) c)"
    by (auto intro!: keeps_settle[OF Some] distinct_rows_changed)
  then show ?thesis by (simp add: defer_pending_def Some drop_sender_settle change_row_settle)
qed (simp add: defer_pending_def)

lemma keeps_change_row:
  assumes "\<And>r. row_id (f r) = row_id r"
    "fmlookup (pending c) rid = None \<or> (\<forall>r. row_action (f r) = row_action r \<and> row_deferred (f r) = row_deferred r)"
  shows "keeps c (fst (change_row rid f c))"
  using change_row_inv[OF _ assms] by (auto simp: keeps_def change_row_def settled_kept_same_chans)

lemma resolve_ends_pending: "fmlookup (pending (fst (resolve sha env rid v d s c))) rid = None"
  by (auto simp: resolve_def Let_def while_current_def while_generation_current_def send_verdict_def
      drop_sender_def split: option.splits prod.splits if_splits)

lemma keeps_label [simp]: "keeps c (fst (label_auto_answer rid why c))"
  unfolding label_auto_answer_def by (rule keeps_change_row) simp_all

lemma keeps_allow_each [simp]: "keeps c (fst (allow_each sha env rids c))"
proof (induction rids arbitrary: c)
  case (Cons rid rids)
  obtain c1 res where r: "resolve sha env rid Allow Once ThisHost c = (c1, res)"
    by (cases "resolve sha env rid Allow Once ThisHost c")
  then have k1: "keeps c c1" using keeps_resolve[of c sha env rid Allow Once ThisHost] by simp
  have k2: "keeps c1 (fst (label_auto_answer rid FilterPaused c1))" by simp
  show ?case
  proof (cases res)
    case (Inl err)
    then show ?thesis using r k1 Cons.IH[of c1] keeps_trans by simp
  next
    case (Inr u)
    then show ?thesis
      using r keeps_trans[OF k1 keeps_trans[OF k2 Cons.IH]] by (simp add: case_prod_beta)
  qed
qed simp

lemma keeps_answer_waiting [simp]: "keeps c (fst (answer_waiting sha env c))"
  by (simp add: answer_waiting_def allow_waiting_def case_prod_beta Let_def)

lemma keeps_unanswered [simp]: "keeps c (fst (answer_unanswered env act rid c))"
  by (simp add: answer_unanswered_def case_prod_beta split: option.split)

lemma keeps_decide_later [simp]: "keeps c (fst (decide_later sha env act rid c))"
proof -
  obtain c1 res where r: "resolve sha env rid Deny FiveMinutes AnyHost c = (c1, res)"
    by (cases "resolve sha env rid Deny FiveMinutes AnyHost c")
  then have k: "keeps c c1" using keeps_resolve[of c sha env rid Deny FiveMinutes AnyHost] by simp
  have "fmlookup (pending c1) rid = None" using resolve_ends_pending[of sha env rid Deny FiveMinutes AnyHost c] r by simp
  then have m: "keeps c1 (fst (mark_deferred rid c1))"
    unfolding mark_deferred_def by (intro keeps_change_row) simp_all
  show ?thesis
    using k keeps_trans[OF k m]
    by (simp add: decide_later_def r Let_def case_prod_beta split: option.split sum.split)
qed

lemma keeps_daemon_down [simp]: "keeps c (set_daemon_down down c)"
  by (simp add: keeps_def set_daemon_down_def settled_kept_def)

lemma keeps_close_receiver [simp]: "keeps c (close_receiver ch c)"
proof -
  have "cache_inv (close_receiver ch c)" if "cache_inv c"
    using that by (auto simp: close_receiver_def cache_inv_def split: if_splits)
  then show ?thesis by (auto simp: keeps_def settled_kept_def close_receiver_def)
qed

section \<open>The cache as a machine\<close>

text \<open>
  One event per operation of the code under the cache lock. A new row's id is new:
  prompts are numbered by \<open>next_ask_id\<close>, reported events by their own counter.
\<close>

datatype cache_event =
  Decided connection_row
| Asked connection_row admission
| Answered rstr verdict verdict_duration verdict_scope
| Cancelled rstr
| Unanswered rstr "rstr option"
| DecidedLater rstr "rstr option"
| PauseTookEffect
| AskerGone nat
| DaemonState bool
| TrayResync

definition fresh_row :: "connection_row \<Rightarrow> conn_cache \<Rightarrow> bool" where
  "fresh_row r c \<longleftrightarrow> row_id r \<notin> row_id ` set (rows c)"

fun cache_step :: "(nat list \<Rightarrow> nat list) \<Rightarrow> conn_cache \<Rightarrow> conn_env \<times> cache_event \<Rightarrow> conn_cache" where
  "cache_step sha c (env, Decided r) = (if fresh_row r c then insert_decided r c else c)"
| "cache_step sha c (env, Asked r ad) =
     (if fresh_row r c \<and> row_action r = None \<and> \<not> row_deferred r
      then fst (insert_admitted env r ad c) else c)"
| "cache_step sha c (env, Answered rid v d s) = fst (resolve sha env rid v d s c)"
| "cache_step sha c (env, Cancelled rid) = fst (cancel_pending env rid c)"
| "cache_step sha c (env, Unanswered rid act) = fst (answer_unanswered env act rid c)"
| "cache_step sha c (env, DecidedLater rid act) = fst (decide_later sha env act rid c)"
| "cache_step sha c (env, PauseTookEffect) = fst (answer_waiting sha env c)"
| "cache_step sha c (env, AskerGone ch) = close_receiver ch c"
| "cache_step sha c (env, DaemonState down) = set_daemon_down down c"
| "cache_step sha c (env, TrayResync) = resync_tray_state env c"

lemma cache_step_keeps: "keeps c (cache_step sha c e)"
  by (cases "(sha, c, e)" rule: cache_step.cases)
    (simp_all add: keeps_insert_decided keeps_insert_admitted fresh_row_def resync_tray_state_def)

definition started_cache :: "conn_cache \<Rightarrow> bool" where
  "started_cache c \<longleftrightarrow> rows c = [] \<and> pending c = fmempty \<and> chans c = fmempty"

interpretation cache_machine: state_machine started_cache "cache_step sha" cache_inv
  by unfold_locales
    (use cache_step_keeps in \<open>auto simp: keeps_def started_cache_def cache_inv_def\<close>)

text \<open>
  C1. Whatever happens to the cache, the promise to every asker holds: each waiting prompt
  is listed exactly once, undecided and not deferred; its channel is its own and still
  without a verdict; and nobody waits on a channel without a prompt that can settle it.
\<close>

theorem cache_invariant_reachable:
  assumes "started_cache c"
  shows "cache_inv (foldl (cache_step sha) c es)"
  using assms by (rule cache_machine.inv_reachable)

theorem cache_invariant_reachable_witness:
  "cache_inv (foldl (cache_step (\<lambda>_. [])) (new_cache 2)
     [(\<lparr> en_presence = authenticated_session new_presence, en_pause = None, en_clock = at 0 \<rparr>,
       Asked (connection_to_row 0 example_conn 1) \<lparr> ad_generation = 0 \<rparr>)])"
  by (rule cache_invariant_reachable) (simp add: started_cache_def new_cache_def)

lemma settled_stays:
  "cache_inv c \<Longrightarrow> fmlookup (chans c) ch = Some x \<Longrightarrow> x \<noteq> Waiting
     \<Longrightarrow> fmlookup (chans (foldl (cache_step sha) c es)) ch = Some x"
proof (induction es arbitrary: c)
  case (Cons e es)
  have "keeps c (cache_step sha c e)" by (rule cache_step_keeps)
  with Cons show ?case by (auto simp: keeps_def settled_kept_def)
qed simp

text \<open>
  A question is settled at most once: when an asker's channel has got its verdict, or
  the prompt was withdrawn or put off, or the asker has gone, no later answer, pause,
  cancellation or timeout changes that.
\<close>

theorem settled_at_most_once:
  assumes "started_cache c" "fmlookup (chans (foldl (cache_step sha) c es)) ch = Some x" "x \<noteq> Waiting"
  shows "fmlookup (chans (foldl (cache_step sha) c (es @ es'))) ch = Some x"
  using settled_stays[OF cache_machine.inv_reachable[OF assms(1)] assms(2,3)] by simp

definition example_env :: conn_env where
  "example_env = \<lparr> en_presence = authenticated_session new_presence, en_pause = None, en_clock = at 0 \<rparr>"

definition answered_run :: "(conn_env \<times> cache_event) list" where
  "answered_run =
     [(example_env, Asked (connection_to_row 0 example_conn 1) \<lparr> ad_generation = 0 \<rparr>),
      (example_env, Answered (ask_row_id 1) Allow Always ThisHost)]"

theorem settled_at_most_once_witness:
  "fmlookup (chans (foldl (cache_step (\<lambda>_. [])) (new_cache 2)
      (answered_run @ [(example_env, Answered (ask_row_id 1) Deny Always AnyHost), (example_env, AskerGone 0)]))) 0
   = Some (Delivered \<lparr> v_verdict = Allow, v_duration = Always, v_scope = ThisHost \<rparr>)"
proof -
  have start: "started_cache (new_cache 2)" by (simp add: started_cache_def new_cache_def)
  have settled: "fmlookup (chans (foldl (cache_step (\<lambda>_. [])) (new_cache 2) answered_run)) 0
     = Some (Delivered \<lparr> v_verdict = Allow, v_duration = Always, v_scope = ThisHost \<rparr>)"
    by code_simp
  show ?thesis by (rule settled_at_most_once[OF start settled]) simp
qed

section \<open>What an answer does\<close>

text \<open>
  C2. An answer to a waiting prompt has all of its effects or none. If the prompt's GUI
  session is still there and so is the asker, the asker gets exactly this verdict, and the
  row shows its action and the name of the rule made from it; otherwise the answer is
  refused, no verdict is delivered, and the row is withdrawn and its removal broadcast.
  Either way the prompt no longer waits and no other row, prompt or channel changes.
\<close>

theorem resolve_exact:
  assumes "cache_inv c" "fmlookup (pending c) rid = Some e"
    and "resolve sha env rid verdict duration scope c = (c', result)"
  shows "pending c' = fmdrop rid (pending c) \<and> others rid (rows c') = others rid (rows c)
     \<and> (\<forall>ch. ch \<noteq> pe_sender e \<longrightarrow> fmlookup (chans c') ch = fmlookup (chans c) ch)
     \<and> (if deliverable env e c
        then result = Inr ()
             \<and> fmlookup (chans c') (pe_sender e)
               = Some (Delivered \<lparr> v_verdict = verdict, v_duration = duration, v_scope = scope \<rparr>)
             \<and> find (\<lambda>r. row_id r = rid) (rows c') = map_option (decide_row sha verdict) (find (\<lambda>r. row_id r = rid) (rows c))
        else result = Inl (NotPending rid)
             \<and> fmlookup (chans c') (pe_sender e) \<in> {Some SenderGone, Some ReceiverGone}
             \<and> find (\<lambda>r. row_id r = rid) (rows c') = None
             \<and> (pe_cancellations e \<longrightarrow> outbox c' = outbox c @ [RemoveConnectionRows [rid]]))"
proof (cases "deliverable env e c")
  case True
  then show ?thesis
    using assms(3) find_update_first[of "\<lambda>r. row_id r = rid" "decide_row sha verdict" "rows c"]
    by (auto simp: resolve_cases[OF assms(1,2)] deliverable_def)
next
  case False
  have "fmlookup (chans c) (pe_sender e) \<in> {Some Waiting, Some ReceiverGone}"
    using assms(1,2) by (auto simp: cache_inv_def)
  with False show ?thesis
    using assms(3)
    by (auto simp: resolve_cases[OF assms(1,2)] find_None_set outbox_publish) (auto simp: others_def)
qed

lemma asked_inv:
  "cache_inv (foldl (cache_step (\<lambda>_. [])) (new_cache 2) (take 1 answered_run))"
  by (rule cache_machine.inv_reachable) (simp add: started_cache_def new_cache_def)

theorem resolve_exact_witness:
  "\<exists>c'. resolve (\<lambda>_. []) example_env (ask_row_id 1) Deny Once ThisHost
        (foldl (cache_step (\<lambda>_. [])) (new_cache 2) (take 1 answered_run)) = (c', Inr ())
     \<and> fmlookup (pending c') (ask_row_id 1) = None"
proof -
  let ?c = "foldl (cache_step (\<lambda>_. [])) (new_cache 2) (take 1 answered_run)"
  let ?e = "\<lparr> pe_sender = 0, pe_admission = Some \<lparr> ad_generation = 0 \<rparr>, pe_cancellations = True \<rparr>"
  have e: "fmlookup (pending ?c) (ask_row_id 1) = Some ?e" by code_simp
  have d: "deliverable example_env ?e ?c" by code_simp
  obtain c' res where r: "resolve (\<lambda>_. []) example_env (ask_row_id 1) Deny Once ThisHost ?c = (c', res)"
    by (cases "resolve (\<lambda>_. []) example_env (ask_row_id 1) Deny Once ThisHost ?c")
  from resolve_exact[OF asked_inv e r] d have "res = Inr ()" "pending c' = fmdrop (ask_row_id 1) (pending ?c)"
    by simp_all
  with r show ?thesis by simp
qed

section \<open>A pause answers every waiting prompt it applies to\<close>

definition allow_once :: verdict_resolution where
  "allow_once = \<lparr> v_verdict = Allow, v_duration = Once, v_scope = ThisHost \<rparr>"

lemma label_frame [simp]:
  "pending (fst (label_auto_answer rid why c)) = pending c"
  "chans (fst (label_auto_answer rid why c)) = chans c"
  by (simp_all add: label_auto_answer_def change_row_def)

lemma allow_each_effect:
  assumes "cache_inv c" "distinct rids"
    and "\<forall>rid \<in> set rids. \<exists>e ad. fmlookup (pending c) rid = Some e \<and> pe_admission e = Some ad
           \<and> generation_current (en_presence env) (ad_generation ad)"
  shows "(\<forall>rid0. fmlookup (pending (fst (allow_each sha env rids c))) rid0 =
            (if rid0 \<in> set rids then None else fmlookup (pending c) rid0))
    \<and> (\<forall>ch. fmlookup (chans (fst (allow_each sha env rids c))) ch =
       (if fmlookup (chans c) ch = Some Waiting
           \<and> (\<exists>rid \<in> set rids. \<exists>e. fmlookup (pending c) rid = Some e \<and> pe_sender e = ch)
        then Some (Delivered allow_once) else fmlookup (chans c) ch))"
  using assms
proof (induction rids arbitrary: c)
  case (Cons rid rids)
  obtain e ad where e: "fmlookup (pending c) rid = Some e" "pe_admission e = Some ad"
    "generation_current (en_presence env) (ad_generation ad)"
    using Cons.prems(3) by auto
  obtain c1 res where r: "resolve sha env rid Allow Once ThisHost c = (c1, res)"
    by (cases "resolve sha env rid Allow Once ThisHost c")
  let ?c2 = "case res of Inl _ \<Rightarrow> c1 | Inr _ \<Rightarrow> fst (label_auto_answer rid FilterPaused c1)"
  have step: "fst (allow_each sha env (rid # rids) c) = fst (allow_each sha env rids ?c2)"
    by (simp add: r case_prod_beta Let_def split: sum.split)
  have keep: "cache_inv ?c2"
    using Cons.prems(1) keeps_resolve[of c sha env rid Allow Once ThisHost] keeps_label[of c1 rid FilterPaused] r
    by (auto simp: keeps_def split: sum.split)
  have p1: "pending c1 = fmdrop rid (pending c)"
    using arg_cong[OF r, of "pending \<circ> fst"] by (simp add: resolve_cases[OF Cons.prems(1) e(1)] split: if_splits)
  have p2: "pending ?c2 = fmdrop rid (pending c)" and ch2: "chans ?c2 = chans c1"
    using p1 by (simp_all split: sum.split)
  have ch: "fmlookup (chans ?c2) ch' =
      (if ch' = pe_sender e \<and> fmlookup (chans c) ch' = Some Waiting then Some (Delivered allow_once) else fmlookup (chans c) ch')" for ch'
    using r e unfolding ch2
    by (auto simp: resolve_cases[OF Cons.prems(1) e(1)] deliverable_def allow_once_def split: if_splits)
  have own: "pe_sender e' \<noteq> pe_sender e" if "fmlookup (pending c) rid' = Some e'" "rid' \<noteq> rid" for rid' e'
    using Cons.prems(1) e(1) that by (auto simp: cache_inv_def)
  have "\<forall>rid' \<in> set rids. \<exists>e ad. fmlookup (pending ?c2) rid' = Some e \<and> pe_admission e = Some ad
           \<and> generation_current (en_presence env) (ad_generation ad)"
    using Cons.prems(2,3) unfolding p2 by auto
  note ih = Cons.IH[OF keep _ this]
  show ?case
    unfolding step
  proof (intro conjI allI)
    fix rid0
    show "fmlookup (pending (fst (allow_each sha env rids ?c2))) rid0 =
        (if rid0 \<in> set (rid # rids) then None else fmlookup (pending c) rid0)"
      using ih Cons.prems(2) by (auto simp: p2)
  next
    fix ch0
    show "fmlookup (chans (fst (allow_each sha env rids ?c2))) ch0 =
       (if fmlookup (chans c) ch0 = Some Waiting
           \<and> (\<exists>rid \<in> set (rid # rids). \<exists>e. fmlookup (pending c) rid = Some e \<and> pe_sender e = ch0)
        then Some (Delivered allow_once) else fmlookup (chans c) ch0)"
      using ih Cons.prems(2) e(1) own by (auto simp: p2 ch)
  qed
qed simp

definition pause_covers :: "conn_env \<Rightarrow> pending_entry \<Rightarrow> bool" where
  "pause_covers env e \<longleftrightarrow>
     (case pe_admission e of None \<Rightarrow> False
      | Some ad \<Rightarrow> applies_to (en_presence env) (en_clock env) (en_pause env) ad)"

lemma pending_admitted_where_covers:
  "rid \<in> set (pending_admitted_where (applies_to (en_presence env) (en_clock env) (en_pause env)) c)
     \<longleftrightarrow> (\<exists>e. fmlookup (pending c) rid = Some e \<and> pause_covers env e)"
  by (auto simp: pending_admitted_where_def pause_covers_def fmdomI split: option.splits)

text \<open>
  C5. A pause misses no waiting prompt and answers no other: one scan after the pause is
  set leaves no prompt waiting that the pause applies to, gives each of their askers that
  is still there an allow for once and for this host only, and leaves every other prompt
  waiting with its channel untouched.
\<close>

theorem pause_misses_no_prompt:
  assumes "cache_inv c" "fmlookup (pending c) rid = Some e"
  shows "if pause_covers env e
         then fmlookup (pending (fst (answer_waiting sha env c))) rid = None
              \<and> fmlookup (chans (fst (answer_waiting sha env c))) (pe_sender e) =
                  (if fmlookup (chans c) (pe_sender e) = Some Waiting then Some (Delivered allow_once)
                   else fmlookup (chans c) (pe_sender e))
         else fmlookup (pending (fst (answer_waiting sha env c))) rid = Some e
              \<and> fmlookup (chans (fst (answer_waiting sha env c))) (pe_sender e) = fmlookup (chans c) (pe_sender e)"
proof -
  let ?rids = "pending_admitted_where (applies_to (en_presence env) (en_clock env) (en_pause env)) c"
  have "distinct ?rids" by (simp add: pending_admitted_where_def)
  moreover have "\<forall>rid \<in> set ?rids. \<exists>e ad. fmlookup (pending c) rid = Some e \<and> pe_admission e = Some ad
           \<and> generation_current (en_presence env) (ad_generation ad)"
    by (auto simp: pending_admitted_where_covers pause_covers_def applies_to_iff generation_current_def
        split: option.splits)
  ultimately have eff:
    "\<forall>rid0. fmlookup (pending (fst (allow_each sha env ?rids c))) rid0 =
            (if rid0 \<in> set ?rids then None else fmlookup (pending c) rid0)"
    "\<forall>ch. fmlookup (chans (fst (allow_each sha env ?rids c))) ch =
       (if fmlookup (chans c) ch = Some Waiting
           \<and> (\<exists>rid \<in> set ?rids. \<exists>e. fmlookup (pending c) rid = Some e \<and> pe_sender e = ch)
        then Some (Delivered allow_once) else fmlookup (chans c) ch)"
    using allow_each_effect[OF assms(1)] by blast+
  have same: "pending (fst (answer_waiting sha env c)) = pending (fst (allow_each sha env ?rids c))"
    "chans (fst (answer_waiting sha env c)) = chans (fst (allow_each sha env ?rids c))"
    by (simp_all add: answer_waiting_def allow_waiting_def case_prod_beta Let_def)
  have own: "rid' = rid" if "fmlookup (pending c) rid' = Some e'" "pe_sender e' = pe_sender e" for rid' e'
    using assms that unfolding cache_inv_def by blast
  have c1: "rid \<in> set ?rids \<longleftrightarrow> pause_covers env e"
    using pending_admitted_where_covers[of rid env c] assms(2) by simp
  have c2: "(\<exists>rid \<in> set ?rids. \<exists>e'. fmlookup (pending c) rid = Some e' \<and> pe_sender e' = pe_sender e)
      \<longleftrightarrow> pause_covers env e"
    using own assms(2) c1 by metis
  show ?thesis
    unfolding same eff(1)[rule_format] eff(2)[rule_format] c1 c2 using assms(2) by simp
qed

definition pausing_env :: conn_env where
  "pausing_env = example_env\<lparr> en_pause := Some \<lparr> mono_deadline = 300 * NANOS, wall_deadline = int (300 * NANOS),
     owner_generation = 0 \<rparr> \<rparr>"

theorem pause_misses_no_prompt_witness:
  "fmlookup (chans (fst (answer_waiting (\<lambda>_. []) pausing_env
      (foldl (cache_step (\<lambda>_. [])) (new_cache 2) (take 1 answered_run))))) 0 = Some (Delivered allow_once)"
proof -
  let ?c = "foldl (cache_step (\<lambda>_. [])) (new_cache 2) (take 1 answered_run)"
  let ?e = "\<lparr> pe_sender = 0, pe_admission = Some \<lparr> ad_generation = 0 \<rparr>, pe_cancellations = True \<rparr>"
  have e: "fmlookup (pending ?c) (ask_row_id 1) = Some ?e" by code_simp
  have w: "fmlookup (chans ?c) 0 = Some Waiting" by code_simp
  have p: "pause_covers pausing_env ?e" by code_simp
  from pause_misses_no_prompt[OF asked_inv e, of pausing_env "\<lambda>_. []"] p w show ?thesis by simp
qed

end
