(* ===== verification/Rule_Regexp.thy ===== *)
theory Rule_Regexp
  imports Prelude
begin

text \<open>
  \<open>rule_policy/regexp.rs\<close>: which regular expressions the bridge sends to the daemon.

  The source walks the syntax tree of the \<open>regex_syntax\<close> crate, whose shape the datatypes
  here have (without source positions and the text of literals and names, which the checks
  do not read). The parser, the translation to the crate's intermediate form and the
  matcher are those crates': a record of functions, \<open>regex_lib\<close>, with the full Unicode
  \<open>to_lowercase\<close> of the standard library.
\<close>

section \<open>Syntax trees of the \<open>regex_syntax\<close> crate\<close>

datatype hex_literal_kind = HexX | UnicodeShort | UnicodeLong
datatype literal_kind =
  Verbatim | Meta | Superfluous | Octal | HexFixed hex_literal_kind | HexBrace hex_literal_kind | SpecialLiteral
datatype class_unicode_kind = OneLetter | Named | NamedValue
datatype flag = CaseInsensitive | MultiLine | DotMatchesNewLine | SwapGreed | UnicodeFlag | CRLF | IgnoreWhitespace
datatype flags_item = Negation | FlagItem flag
datatype assertion_kind =
  StartLine | EndLine | StartText | EndText | WordBoundary | NotWordBoundary
| WordBoundaryStart | WordBoundaryEnd | WordBoundaryStartAngle | WordBoundaryEndAngle
| WordBoundaryStartHalf | WordBoundaryEndHalf
datatype repetition_kind = ZeroOrOne | ZeroOrMore | OneOrMore | Exactly nat | AtLeast nat | Bounded nat nat
datatype group_kind = CaptureIndex | CaptureName | NonCapturing "flags_item list"

datatype class_set = ClassItem class_set_item | ClassBinaryOp class_set class_set
and class_set_item =
  ItemEmpty | ItemLiteral literal_kind | ItemRange literal_kind literal_kind | ItemAscii
| ItemUnicode class_unicode_kind | ItemPerl (perl_negated: bool) | ItemBracketed class_set
| ItemUnion "class_set_item list"

datatype ast =
  AstEmpty | AstFlags "flags_item list" | AstLiteral literal_kind | AstDot | AstAssertion assertion_kind
| AstClassUnicode class_unicode_kind | AstClassPerl (class_negated: bool) | AstClassBracketed class_set
| AstRepetition repetition_kind ast | AstGroup group_kind ast | AstAlternation "ast list" | AstConcat "ast list"

datatype regexp_error =
  EmptyRegexp | INVALID | TOO_COMPLEX | UNANCHORED_EMPTY | MATCHES_EVERY_HOST | CASE_CHANGES_MEANING | CASE_BREAKS_CLASS
| REPEAT_TOO_LARGE | FlagsRefused | AssertionRefused | NestedClass | ClassSetOperation | UnicodeEscape | NamedValueClass

datatype compile_error = CompiledTooBig | SyntaxError

record regex_lib =
  rx_parse :: "rstr \<Rightarrow> ast option"
  rx_translate :: "rstr \<Rightarrow> ast \<Rightarrow> (bool \<times> bool) option"
  rx_build :: "nat \<Rightarrow> rstr \<Rightarrow> compile_error + (rstr \<Rightarrow> bool)"
  rx_lowercase :: "rstr \<Rightarrow> rstr"

text \<open>
  \<open>rx_translate\<close>: whether the shortest match is empty (\<open>minimum_len() == Some(0)\<close>) and
  whether there is no look-around at all (\<open>look_set().is_empty()\<close>), or a refusal.
  \<open>rx_build\<close>: a matcher within a size limit, or why not.
\<close>

section \<open>The visitors\<close>

definition first_error :: "'e option list \<Rightarrow> 'e option" where
  "first_error xs = (case filter (\<lambda>x. x \<noteq> None) xs of [] \<Rightarrow> None | x # _ \<Rightarrow> x)"

lemma first_error_simps [simp]:
  "first_error [] = None" "first_error (None # xs) = first_error xs" "first_error (Some e # xs) = Some e"
  by (simp_all add: first_error_def)

lemma first_error_cong [fundef_cong]:
  "xs = ys \<Longrightarrow> (\<And>x. x \<in> set ys \<Longrightarrow> f x = g x) \<Longrightarrow> first_error (map f xs) = first_error (map g ys)"
  by (simp cong: map_cong)

lemma first_error_None: "first_error xs = None \<longleftrightarrow> (\<forall>x \<in> set xs. x = None)"
  by (induction xs) (auto split: option.splits simp: first_error_def filter_empty_conv)

text \<open>\<open>ast::visit\<close>: depth first, a node before its parts, the first refusal wins.\<close>

fun visit_class_set ::
  "(class_set_item \<Rightarrow> regexp_error option) \<Rightarrow> regexp_error option \<Rightarrow> class_set \<Rightarrow> regexp_error option"
and visit_class_item ::
  "(class_set_item \<Rightarrow> regexp_error option) \<Rightarrow> regexp_error option \<Rightarrow> class_set_item \<Rightarrow> regexp_error option" where
  "visit_class_set item bin (ClassItem i) = visit_class_item item bin i"
| "visit_class_set item bin (ClassBinaryOp l r) =
     first_error [bin, visit_class_set item bin l, visit_class_set item bin r]"
| "visit_class_item item bin (ItemBracketed s) =
     first_error [item (ItemBracketed s), visit_class_set item bin s]"
| "visit_class_item item bin (ItemUnion is) =
     first_error [item (ItemUnion is), first_error (map (visit_class_item item bin) is)]"
| "visit_class_item item bin i = item i"

fun visit :: "(ast \<Rightarrow> regexp_error option) \<Rightarrow> (class_set_item \<Rightarrow> regexp_error option) \<Rightarrow> regexp_error option
    \<Rightarrow> ast \<Rightarrow> regexp_error option" where
  "visit pre item bin (AstClassBracketed s) = first_error [pre (AstClassBracketed s), visit_class_set item bin s]"
| "visit pre item bin (AstRepetition k a) = first_error [pre (AstRepetition k a), visit pre item bin a]"
| "visit pre item bin (AstGroup k a) = first_error [pre (AstGroup k a), visit pre item bin a]"
| "visit pre item bin (AstAlternation as) =
     first_error [pre (AstAlternation as), first_error (map (visit pre item bin) as)]"
| "visit pre item bin (AstConcat as) =
     first_error [pre (AstConcat as), first_error (map (visit pre item bin) as)]"
| "visit pre item bin a = pre a"

fun case_fold_pre :: "ast \<Rightarrow> regexp_error option" where
  "case_fold_pre (AstClassPerl negated) = (if negated then Some CASE_CHANGES_MEANING else None)"
| "case_fold_pre (AstAssertion k) = (if k \<in> {NotWordBoundary, StartText} then Some CASE_CHANGES_MEANING else None)"
| "case_fold_pre (AstClassUnicode k) = Some CASE_BREAKS_CLASS"
| "case_fold_pre _ = None"

fun case_fold_item :: "class_set_item \<Rightarrow> regexp_error option" where
  "case_fold_item (ItemPerl negated) = (if negated then Some CASE_CHANGES_MEANING else None)"
| "case_fold_item (ItemUnicode k) = Some CASE_BREAKS_CLASS"
| "case_fold_item _ = None"

definition case_fold_check :: "ast \<Rightarrow> regexp_error option" where
  "case_fold_check = visit case_fold_pre case_fold_item None"

definition MAX_REPEAT :: nat where "MAX_REPEAT = 1000"
definition SIZE_LIMIT :: nat where "SIZE_LIMIT = 2 ^ 20"

definition shared_flag :: "flags_item \<Rightarrow> bool" where
  "shared_flag i \<longleftrightarrow> i \<in> {Negation, FlagItem CaseInsensitive, FlagItem MultiLine, FlagItem DotMatchesNewLine, FlagItem SwapGreed}"

definition check_flags :: "flags_item list \<Rightarrow> regexp_error option" where
  "check_flags items = (if list_all shared_flag items then None else Some FlagsRefused)"

definition check_literal :: "literal_kind \<Rightarrow> regexp_error option" where
  "check_literal k =
     (if k \<in> {HexFixed UnicodeShort, HexFixed UnicodeLong, HexBrace UnicodeShort, HexBrace UnicodeLong}
      then Some UnicodeEscape else None)"

definition check_unicode_class :: "class_unicode_kind \<Rightarrow> regexp_error option" where
  "check_unicode_class k = (if k = NamedValue then Some NamedValueClass else None)"

fun repeats_too_much :: "repetition_kind \<Rightarrow> bool" where
  "repeats_too_much (Exactly n) \<longleftrightarrow> n > MAX_REPEAT"
| "repeats_too_much (AtLeast n) \<longleftrightarrow> n > MAX_REPEAT"
| "repeats_too_much (Bounded lo hi) \<longleftrightarrow> lo > MAX_REPEAT \<or> hi > MAX_REPEAT"
| "repeats_too_much _ \<longleftrightarrow> False"

fun dialect_pre :: "ast \<Rightarrow> regexp_error option" where
  "dialect_pre (AstFlags items) = check_flags items"
| "dialect_pre (AstGroup (NonCapturing items) _) = check_flags items"
| "dialect_pre (AstRepetition k _) = (if repeats_too_much k then Some REPEAT_TOO_LARGE else None)"
| "dialect_pre (AstAssertion k) =
     (if k \<in> {StartLine, EndLine, StartText, EndText, WordBoundary, NotWordBoundary} then None else Some AssertionRefused)"
| "dialect_pre (AstLiteral k) = check_literal k"
| "dialect_pre (AstClassUnicode k) = check_unicode_class k"
| "dialect_pre _ = None"

fun dialect_item :: "class_set_item \<Rightarrow> regexp_error option" where
  "dialect_item (ItemBracketed _) = Some NestedClass"
| "dialect_item (ItemLiteral k) = check_literal k"
| "dialect_item (ItemRange a b) = first_error [check_literal a, check_literal b]"
| "dialect_item (ItemUnicode k) = check_unicode_class k"
| "dialect_item _ = None"

definition dialect_check :: "ast \<Rightarrow> regexp_error option" where
  "dialect_check = visit dialect_pre dialect_item (Some ClassSetOperation)"

section \<open>The check\<close>

definition MATCH_ALL_PROBES :: "rstr list" where
  "MATCH_ALL_PROBES = [[], lit ''a'', lit ''.'', lit ''example.com'']"

definition validate_effective :: "regex_lib \<Rightarrow> rstr \<Rightarrow> regexp_error + unit" where
  "validate_effective lib effective =
     (case rx_parse lib effective of
        None \<Rightarrow> Inl INVALID
      | Some tree \<Rightarrow>
          (case dialect_check tree of
             Some e \<Rightarrow> Inl e
           | None \<Rightarrow>
               (case rx_translate lib effective tree of
                  None \<Rightarrow> Inl INVALID
                | Some (can_match_empty, no_look) \<Rightarrow>
                    if can_match_empty \<and> no_look then Inl UNANCHORED_EMPTY
                    else (case rx_build lib SIZE_LIMIT effective of
                            Inl CompiledTooBig \<Rightarrow> Inl TOO_COMPLEX
                          | Inl SyntaxError \<Rightarrow> Inl INVALID
                          | Inr is_match \<Rightarrow>
                              if can_match_empty \<and> list_all is_match MATCH_ALL_PROBES then Inl MATCHES_EVERY_HOST
                              else Inr ()))))"

definition validate_regexp :: "regex_lib \<Rightarrow> rstr \<Rightarrow> bool \<Rightarrow> regexp_error + unit" where
  "validate_regexp lib data sensitive =
     (if data = [] then Inl EmptyRegexp
      else if sensitive then validate_effective lib data
      else (case rx_parse lib data of
              None \<Rightarrow> Inl INVALID
            | Some tree \<Rightarrow>
                (case case_fold_check tree of
                   Some e \<Rightarrow> Inl e
                 | None \<Rightarrow> validate_effective lib (rx_lowercase lib data))))"

end
