(* ===== verification/Rules_Cache.thy ===== *)
theory Rules_Cache
  imports Rule_Name
begin

text \<open>
  The bridge's copy of the daemon's rule list: \<open>cache/rules.rs\<close>, what a refused command
  leaves behind (\<open>cache/rules_refused.rs\<close>) and the hint that the daemon counts a different
  number of rules (\<open>cache/rules_count.rs\<close>).

  The state is the \<open>RulesCache\<close> struct (\<open>rules_cache\<close>) without the account names, which
  are shown with the rules and never change them. Wall-clock seconds and the monotonic
  reading an operation takes are arguments. The revision counter is unbounded (it counts
  changes; the code's 64 bits would need \<open>2 ^ 64\<close> of them to overflow).
\<close>

section \<open>Temporary rules and their timers\<close>

definition MAX_SNAPSHOT_RULES :: nat where "MAX_SNAPSHOT_RULES = 10000"
definition MAX_RULE_FIELD_BYTES :: nat where "MAX_RULE_FIELD_BYTES = 16 * 1024"
definition MAX_OPERATOR_LIST_LEN :: nat where "MAX_OPERATOR_LIST_LEN = 64"
definition MAX_OPERATOR_DEPTH :: nat where "MAX_OPERATOR_DEPTH = 4"
definition MAX_FILES_LEFT :: nat where "MAX_FILES_LEFT = 256"
definition MAX_JOURNAL :: nat where "MAX_JOURNAL = 256"

definition is_temporary :: "rstr \<Rightarrow> bool" where
  "is_temporary duration \<longleftrightarrow> duration \<notin> {lit ''once'', lit ''until restart'', lit ''always''}"

definition duration_unit :: "rchar \<Rightarrow> int option" where
  "duration_unit c = (if c = 115 then Some 1 else if c = 109 then Some 60 else if c = 104 then Some 3600 else None)"

definition parse_i64 :: "rstr \<Rightarrow> int option" where
  "parse_i64 digits = (if digits = [] then None else i64_checked (int (decimal_value digits)))"

fun duration_loop :: "int \<Rightarrow> rstr \<Rightarrow> rstr \<Rightarrow> int option" where
  "duration_loop so_far digits [] = (if digits = [] then Some so_far else None)"
| "duration_loop so_far digits (c # cs) =
     (if is_ascii_digit c then duration_loop so_far (digits @ [c]) cs
      else case duration_unit c of
        None \<Rightarrow> None
      | Some u \<Rightarrow>
          (case parse_i64 digits of
             None \<Rightarrow> None
           | Some v \<Rightarrow>
               (case i64_checked (v * u) of
                  None \<Rightarrow> None
                | Some p \<Rightarrow> (case i64_checked (so_far + p) of None \<Rightarrow> None | Some t \<Rightarrow> duration_loop t [] cs))))"

definition parse_duration_secs :: "rstr \<Rightarrow> int option" where
  "parse_duration_secs duration = (if duration = [] then None else duration_loop 0 [] duration)"

record expiry =
  ex_duration :: rstr
  ex_at :: int
  ex_ends :: instant

definition timer_from :: "rule \<Rightarrow> int \<Rightarrow> instant \<Rightarrow> expiry option" where
  "timer_from r start clock =
     (if \<not> is_temporary (r_duration r) then None
      else case parse_duration_secs (r_duration r) of
        None \<Rightarrow> None
      | Some secs \<Rightarrow>
          (case i64_checked (start + secs) of
             None \<Rightarrow> None
           | Some t \<Rightarrow>
               Some \<lparr> ex_duration = r_duration r, ex_at = t,
                      ex_ends = (case instant_checked_add clock (nat secs * NANOS) of
                                   Some i \<Rightarrow> i | None \<Rightarrow> clock) \<rparr>))"

section \<open>State\<close>

record may_hold =
  mh_renamed :: nat
  mh_refused :: "rstr fset"
  mh_pruned_until :: "instant list"

record count_watch =
  cw_seen_revision :: nat
  cw_last_uptime :: "nat option"
  cw_quiet :: nat
  cw_key :: "(nat \<times> nat \<times> nat) option"
  cw_run :: nat
  cw_raised :: bool

definition no_may_hold :: may_hold where
  "no_may_hold = \<lparr> mh_renamed = 0, mh_refused = {||}, mh_pruned_until = [] \<rparr>"

definition new_watch :: count_watch where
  "new_watch = \<lparr> cw_seen_revision = 0, cw_last_uptime = None, cw_quiet = 0, cw_key = None, cw_run = 0, cw_raised = False \<rparr>"

record rules_cache =
  rc_rules :: "(rstr, rule) fmap option"
  rc_revision :: nat
  rc_snapshot_sequence :: nat
  rc_left_out :: "(rstr, nat) fmap"
  rc_over_limit_total :: "nat option"
  rc_expiries :: "(rstr, expiry) fmap"
  rc_files_left :: "rstr fset"
  rc_files_left_revisions :: "(rstr, nat) fmap"
  rc_files_left_held :: "rstr fset"
  rc_count_watch :: count_watch
  rc_left_out_temporary :: bool
  rc_may_hold :: may_hold

definition new_rules_cache :: rules_cache where
  "new_rules_cache = \<lparr> rc_rules = None, rc_revision = 0, rc_snapshot_sequence = 0, rc_left_out = fmempty,
     rc_over_limit_total = None, rc_expiries = fmempty, rc_files_left = {||},
     rc_files_left_revisions = fmempty, rc_files_left_held = {||}, rc_count_watch = new_watch,
     rc_left_out_temporary = False, rc_may_hold = no_may_hold \<rparr>"

definition is_unknown :: "rules_cache \<Rightarrow> bool" where
  "is_unknown c \<longleftrightarrow> rc_rules c = None"

definition contains :: "rstr \<Rightarrow> rules_cache \<Rightarrow> bool" where
  "contains name c \<longleftrightarrow> (case rc_rules c of None \<Rightarrow> False | Some rs \<Rightarrow> name |\<in>| fmdom rs)"

definition bump :: "rules_cache \<Rightarrow> rules_cache" where
  "bump c = c\<lparr> rc_revision := rc_revision c + 1 \<rparr>"

section \<open>Files a refused delete may have left\<close>

definition forget_file_left :: "rstr \<Rightarrow> rules_cache \<Rightarrow> rules_cache" where
  "forget_file_left name c =
     (let c = c\<lparr> rc_files_left_held := rc_files_left_held c |-| {|name|} \<rparr>
      in if name |\<in>| rc_files_left c
         then bump (c\<lparr> rc_files_left := rc_files_left c |-| {|name|},
                       rc_files_left_revisions := fmdrop name (rc_files_left_revisions c) \<rparr>)
         else c)"

definition forget_file_left_if_held :: "rstr \<Rightarrow> rules_cache \<Rightarrow> rules_cache" where
  "forget_file_left_if_held name c =
     (if name |\<in>| rc_files_left_held c
      then forget_file_left name (c\<lparr> rc_files_left_held := rc_files_left_held c |-| {|name|} \<rparr>) else c)"

definition forget_file_left_in_snapshot :: "nat \<Rightarrow> rstr \<Rightarrow> rules_cache \<Rightarrow> rules_cache" where
  "forget_file_left_in_snapshot observed_revision name c =
     (if (case fmlookup (rc_files_left_revisions c) name of Some r \<Rightarrow> r \<le> observed_revision | None \<Rightarrow> False)
      then forget_file_left name c else c)"

definition mark_file_left :: "rstr \<Rightarrow> rules_cache \<Rightarrow> rules_cache" where
  "mark_file_left name c =
     (if name |\<notin>| rc_files_left c \<and> fcard (rc_files_left c) \<ge> MAX_FILES_LEFT then c
      else let c = bump c
           in c\<lparr> rc_files_left_held := rc_files_left_held c |-| {|name|},
                 rc_files_left := finsert name (rc_files_left c),
                 rc_files_left_revisions := fmupd name (rc_revision c) (rc_files_left_revisions c) \<rparr>)"

section \<open>Changes of the list\<close>

definition set_left_out_at_revision :: "(rstr, nat) fmap \<Rightarrow> nat \<Rightarrow> rules_cache \<Rightarrow> rules_cache" where
  "set_left_out_at_revision left_out observed_revision c =
     (fold (forget_file_left_in_snapshot observed_revision) (fm_keys left_out) c)\<lparr> rc_left_out := left_out \<rparr>"

definition replace_all_at_revision :: "rule list \<Rightarrow> nat \<Rightarrow> instant \<Rightarrow> rules_cache \<Rightarrow> rules_cache" where
  "replace_all_at_revision rs observed_revision clock c =
     (let exps = fm_collect (List.map_filter
                   (\<lambda>r. if r_enabled r \<and> r_created r > 0
                        then map_option (Pair (r_name r)) (timer_from r (r_created r) clock) else None) rs);
          c = c\<lparr> rc_expiries := exps \<rparr>;
          c = fold (\<lambda>r. forget_file_left_in_snapshot observed_revision (r_name r)) rs c
      in bump (c\<lparr> rc_rules := Some (fm_collect (map (\<lambda>r. (r_name r, r)) rs)),
                  rc_over_limit_total := None,
                  rc_count_watch := new_watch,
                  rc_left_out_temporary := False,
                  rc_may_hold := no_may_hold \<rparr>))"

definition replace_all :: "rule list \<Rightarrow> instant \<Rightarrow> rules_cache \<Rightarrow> rules_cache" where
  "replace_all rs clock c = replace_all_at_revision rs (rc_revision c) clock c"

definition set_unknown :: "rules_cache \<Rightarrow> rules_cache" where
  "set_unknown c =
     (let c' = c\<lparr> rc_left_out := fmempty, rc_expiries := fmempty, rc_count_watch := new_watch,
                  rc_left_out_temporary := False, rc_may_hold := no_may_hold, rc_rules := None \<rparr>
      in if rc_rules c \<noteq> None then bump c' else c')"

definition mh_forget :: "rstr \<Rightarrow> may_hold \<Rightarrow> may_hold" where
  "mh_forget name m = m\<lparr> mh_refused := mh_refused m |-| {|name|} \<rparr>"

definition upsert_at :: "rule \<Rightarrow> int \<Rightarrow> instant \<Rightarrow> rules_cache \<Rightarrow> rules_cache" where
  "upsert_at r now_secs clock c =
     (case rc_rules c of
        None \<Rightarrow> c
      | Some rs \<Rightarrow>
          let r = (if r_created r = 0 then r\<lparr> r_created := now_secs \<rparr> else r);
              running = (case fmlookup (rc_expiries c) (r_name r) of
                           Some kept \<Rightarrow> if ex_duration kept = r_duration r \<and> now_secs < ex_at kept then Some kept else None
                         | None \<Rightarrow> None);
              timer = (case running of Some kept \<Rightarrow> Some kept
                       | None \<Rightarrow> if r_enabled r then timer_from r now_secs clock else None);
              exps = fmdrop (r_name r) (rc_expiries c)
          in bump (c\<lparr> rc_expiries := (case timer of Some t \<Rightarrow> fmupd (r_name r) t exps | None \<Rightarrow> exps),
                      rc_left_out := fmdrop (r_name r) (rc_left_out c),
                      rc_may_hold := mh_forget (r_name r) (rc_may_hold c),
                      rc_rules := Some (fmupd (r_name r) r rs) \<rparr>))"

definition remove_rule :: "rstr \<Rightarrow> rules_cache \<Rightarrow> rules_cache" where
  "remove_rule name c =
     (let removed = contains name c;
          was_left_out = (rc_rules c \<noteq> None \<and> name |\<in>| fmdom (rc_left_out c));
          c' = c\<lparr> rc_rules := map_option (fmdrop name) (rc_rules c),
                  rc_expiries := fmdrop name (rc_expiries c),
                  rc_may_hold := mh_forget name (rc_may_hold c),
                  rc_left_out := (if rc_rules c \<noteq> None then fmdrop name (rc_left_out c) else rc_left_out c) \<rparr>
      in if removed \<or> was_left_out then bump c' else c')"

definition PRUNED_SLACK :: nat where "PRUNED_SLACK = 5 * NANOS"

definition note_pruned :: "instant \<Rightarrow> instant \<Rightarrow> may_hold \<Rightarrow> may_hold" where
  "note_pruned ends clock m =
     (let kept = filter (\<lambda>until. clock < until) (mh_pruned_until m)
      in m\<lparr> mh_pruned_until :=
             (if clock < ends
              then kept @ [case instant_checked_add ends PRUNED_SLACK of Some i \<Rightarrow> i | None \<Rightarrow> ends]
              else kept) \<rparr>)"

definition prune_one :: "instant \<Rightarrow> rstr \<Rightarrow> rules_cache \<Rightarrow> rules_cache" where
  "prune_one clock name c =
     c\<lparr> rc_rules := map_option (fmdrop name) (rc_rules c),
        rc_expiries := fmdrop name (rc_expiries c),
        rc_may_hold := (case fmlookup (rc_expiries c) name of
                          Some e \<Rightarrow> note_pruned (ex_ends e) clock (rc_may_hold c) | None \<Rightarrow> rc_may_hold c) \<rparr>"

definition expired_names :: "int \<Rightarrow> rules_cache \<Rightarrow> rstr list" where
  "expired_names now_secs c =
     filter (\<lambda>n. case fmlookup (rc_expiries c) n of Some e \<Rightarrow> ex_at e \<le> now_secs | None \<Rightarrow> False)
       (fm_keys (rc_expiries c))"

definition prune_expired_at :: "int \<Rightarrow> instant \<Rightarrow> rules_cache \<Rightarrow> rules_cache \<times> rstr list" where
  "prune_expired_at now_secs clock c =
     (if rc_rules c = None then (c, [])
      else let expired = expired_names now_secs c;
               c' = fold (prune_one clock) expired c
           in (if expired \<noteq> [] then bump c' else c', expired))"

section \<open>Replies of the daemon\<close>

definition apply_confirmed_rule :: "int \<Rightarrow> instant \<Rightarrow> rule \<Rightarrow> rules_cache \<Rightarrow> rules_cache" where
  "apply_confirmed_rule now_secs clock r c =
     upsert_at (r\<lparr> r_created := now_secs \<rparr>) now_secs clock
       (if r_duration r = lit ''always'' then forget_file_left (r_name r) c
        else c\<lparr> rc_files_left_held := rc_files_left_held c |-| {|r_name r|} \<rparr>)"

definition apply_confirmed_at :: "notification \<Rightarrow> int \<Rightarrow> instant \<Rightarrow> rules_cache \<Rightarrow> rules_cache" where
  "apply_confirmed_at sent now_secs clock c =
     (if n_type sent = ChangeRule then fold (apply_confirmed_rule now_secs clock) (n_rules sent) c
      else if n_type sent = DeleteRule
      then fold (\<lambda>r c. forget_file_left_if_held (r_name r) (remove_rule (r_name r) c)) (n_rules sent) c
      else c)"

datatype refused_effect = Removed | AppliedNotSaved | UnknownEffect

definition disabled_always :: "rule \<Rightarrow> bool" where
  "disabled_always r \<longleftrightarrow> \<not> r_enabled r \<and> r_duration r = lit ''always'' \<and> r_operator r \<noteq> None"

definition refused_effect_of :: "notification \<Rightarrow> refused_effect" where
  "refused_effect_of sent =
     (if n_type sent = DeleteRule then Removed
      else if n_type sent = ChangeRule \<and> n_rules sent \<noteq> [] \<and> list_all disabled_always (n_rules sent)
      then AppliedNotSaved else UnknownEffect)"

definition applied_but_not_saved :: "notification \<Rightarrow> bool" where
  "applied_but_not_saved sent \<longleftrightarrow> refused_effect_of sent = AppliedNotSaved"

definition may_have_applied :: "notification \<Rightarrow> bool" where
  "may_have_applied sent \<longleftrightarrow>
     n_type sent = ChangeRule \<and> refused_effect_of sent = UnknownEffect
     \<and> list_ex (\<lambda>r. r_enabled r \<and> r_duration r = lit ''always'') (n_rules sent)"

definition MAX_MAYBE_APPLIED :: nat where "MAX_MAYBE_APPLIED = 256"

definition note_maybe_applied :: "rstr \<Rightarrow> rules_cache \<Rightarrow> rules_cache" where
  "note_maybe_applied name c =
     (let m = rc_may_hold c
      in if is_unknown c \<or> contains name c \<or> name |\<in>| mh_refused m then c
         else if fcard (mh_refused m) \<ge> MAX_MAYBE_APPLIED then c
         else c\<lparr> rc_may_hold := m\<lparr> mh_refused := finsert name (mh_refused m) \<rparr> \<rparr>)"

definition apply_not_saved_rule :: "int \<Rightarrow> instant \<Rightarrow> rule \<Rightarrow> rules_cache \<Rightarrow> rules_cache" where
  "apply_not_saved_rule now_secs clock r c =
     upsert_at (r\<lparr> r_created := now_secs \<rparr>) now_secs clock
       (if r_name r |\<in>| rc_files_left c
        then c\<lparr> rc_files_left_held := finsert (r_name r) (rc_files_left_held c) \<rparr> else c)"

definition apply_refused_at :: "notification \<Rightarrow> int \<Rightarrow> instant \<Rightarrow> rules_cache \<Rightarrow> rules_cache \<times> bool" where
  "apply_refused_at sent now_secs clock c =
     (let c' = (case refused_effect_of sent of
                  Removed \<Rightarrow> fold (\<lambda>r c. mark_file_left (r_name r) (remove_rule (r_name r) c)) (n_rules sent) c
                | AppliedNotSaved \<Rightarrow> fold (apply_not_saved_rule now_secs clock) (n_rules sent) c
                | UnknownEffect \<Rightarrow> fold (\<lambda>r. note_maybe_applied (r_name r)) (n_rules sent) c)
      in (c', rc_revision c' \<noteq> rc_revision c))"

definition note_prompt_answer :: "rstr \<Rightarrow> rules_cache \<Rightarrow> rules_cache" where
  "note_prompt_answer name c =
     (let m = rc_may_hold c
      in if contains name c \<or> name |\<in>| fmdom (rc_left_out c) \<or> name |\<in>| mh_refused m
         then c\<lparr> rc_may_hold := m\<lparr> mh_renamed := u32_saturating_add (mh_renamed m) 1 \<rparr> \<rparr> else c)"

section \<open>The rule count\<close>

definition QUIET_PINGS :: nat where "QUIET_PINGS = 2"
definition PINGS_TO_RAISE :: nat where "PINGS_TO_RAISE = 3"
definition PINGS_TO_CLEAR :: nat where "PINGS_TO_CLEAR = 3"

record count_reading =
  cr_reported :: nat
  cr_uptime :: nat
  cr_settling :: bool
  cr_now :: instant

definition allowance :: "may_hold \<Rightarrow> instant \<Rightarrow> nat" where
  "allowance m now =
     u64_saturating_add (u64_saturating_add (mh_renamed m) (fcard (mh_refused m)))
       (length (filter (\<lambda>until. now < until) (mh_pruned_until m)))"

definition expected_count :: "rules_cache \<Rightarrow> nat option" where
  "expected_count c = map_option (\<lambda>rs. fm_len rs + fm_len (rc_left_out c)) (rc_rules c)"

definition timers_may_drop_rules :: "rules_cache \<Rightarrow> bool" where
  "timers_may_drop_rules c \<longleftrightarrow>
     rc_left_out_temporary c
     \<or> (case rc_rules c of None \<Rightarrow> False
        | Some rs \<Rightarrow> list_ex (\<lambda>n. is_temporary (r_duration (the (fmlookup rs n)))) (fm_keys rs))"

definition restart_run :: "count_watch \<Rightarrow> count_watch" where
  "restart_run w = w\<lparr> cw_key := None, cw_run := 0 \<rparr>"

text \<open>The counter after a reading that may be compared: how often the same triple has come in a row.\<close>

definition count_run :: "nat \<times> nat \<times> nat \<Rightarrow> count_watch \<Rightarrow> count_watch" where
  "count_run key w =
     (if cw_key w = Some key then w\<lparr> cw_run := min 255 (cw_run w + 1) \<rparr>
      else w\<lparr> cw_key := Some key, cw_run := 1 \<rparr>)"

definition count_agrees :: "nat \<Rightarrow> nat \<Rightarrow> nat \<Rightarrow> bool" where
  "count_agrees reported expected room \<longleftrightarrow> expected \<le> reported \<and> reported \<le> u64_saturating_add expected room"

text \<open>The start of every reading: a changed list or a restarted daemon makes two readings quiet.\<close>

definition watch_arrives :: "nat \<Rightarrow> nat \<Rightarrow> count_watch \<Rightarrow> count_watch" where
  "watch_arrives revision up w =
     (let restarted = (case cw_last_uptime w of Some before \<Rightarrow> up < before | None \<Rightarrow> False);
          w = w\<lparr> cw_last_uptime := Some up \<rparr>
      in if cw_seen_revision w \<noteq> revision \<or> restarted
         then restart_run (w\<lparr> cw_seen_revision := revision, cw_quiet := QUIET_PINGS \<rparr>) else w)"

definition observe_rule_count :: "count_reading \<Rightarrow> rules_cache \<Rightarrow> rules_cache \<times> bool" where
  "observe_rule_count reading c =
     (case expected_count c of
        None \<Rightarrow> (c, False)
      | Some expected \<Rightarrow>
          let cannot_compare = (cr_settling reading \<or> (cr_reported reading = 0 \<and> 0 < expected));
              may_only_clear = timers_may_drop_rules c;
              room = allowance (rc_may_hold c) (cr_now reading);
              w = watch_arrives (rc_revision c) (cr_uptime reading) (rc_count_watch c)
          in if 0 < cw_quiet w
             then (c\<lparr> rc_count_watch := w\<lparr> cw_quiet := cw_quiet w - 1 \<rparr> \<rparr>, False)
             else if cannot_compare \<or> (may_only_clear \<and> \<not> cw_raised w)
             then (c\<lparr> rc_count_watch := restart_run w \<rparr>, False)
             else
               let w = count_run (cr_reported reading, expected, room) w;
                   agrees = count_agrees (cr_reported reading) expected room;
                   c = c\<lparr> rc_count_watch := w \<rparr>;
                   c = (if agrees \<and> \<not> may_only_clear \<and> PINGS_TO_CLEAR \<le> cw_run w
                        then c\<lparr> rc_may_hold := (rc_may_hold c)
                                 \<lparr> mh_renamed := min (mh_renamed (rc_may_hold c))
                                                     (u32_try_from (cr_reported reading - expected)) \<rparr> \<rparr>
                        else c)
               in if \<not> cw_raised w \<and> \<not> agrees \<and> PINGS_TO_RAISE \<le> cw_run w
                  then (c\<lparr> rc_count_watch := w\<lparr> cw_raised := True \<rparr> \<rparr>, True)
                  else if cw_raised w \<and> agrees \<and> PINGS_TO_CLEAR \<le> cw_run w
                  then (c\<lparr> rc_count_watch := w\<lparr> cw_raised := False \<rparr> \<rparr>, True)
                  else (c, False))"

definition count_mismatch :: "rules_cache \<Rightarrow> bool" where
  "count_mismatch c \<longleftrightarrow> cw_raised (rc_count_watch c)"

record rules_not_shown =
  ns_too_large :: nat
  ns_over_limit_total :: "nat option"
  ns_listed :: bool
  ns_left_on_disk :: nat
  ns_count_mismatch :: bool

definition not_shown :: "rules_cache \<Rightarrow> rules_not_shown" where
  "not_shown c = \<lparr> ns_too_large = u32_try_from (fm_len (rc_left_out c)),
     ns_over_limit_total = (if is_unknown c then map_option u32_try_from (rc_over_limit_total c) else None),
     ns_listed = (\<not> is_unknown c),
     ns_left_on_disk = u32_try_from (fcard (rc_files_left c)),
     ns_count_mismatch = count_mismatch c \<rparr>"

section \<open>Snapshots and their journal\<close>

fun operator_ok :: "nat \<Rightarrow> operator \<Rightarrow> bool" where
  "operator_ok depth (Operator ty operand dat sensitive members) \<longleftrightarrow>
     depth \<le> MAX_OPERATOR_DEPTH \<and> length members \<le> MAX_OPERATOR_LIST_LEN
     \<and> list_all (\<lambda>field. str_len field \<le> MAX_RULE_FIELD_BYTES) [ty, operand, dat]
     \<and> list_all (operator_ok (depth + 1)) members"

definition within_limits :: "rule \<Rightarrow> bool" where
  "within_limits r \<longleftrightarrow>
     list_all (\<lambda>field. str_len field \<le> MAX_RULE_FIELD_BYTES) [r_name r, r_description r, r_action r, r_duration r]
     \<and> (case r_operator r of None \<Rightarrow> True | Some op \<Rightarrow> operator_ok 1 op)"

datatype journaled = Confirmed notification int | Refused notification int | Prompt rule int

record journal =
  j_changes :: "journaled list"
  j_overflowed :: bool

definition new_journal :: journal where "new_journal = \<lparr> j_changes = [], j_overflowed = False \<rparr>"

definition journal_record :: "journaled \<Rightarrow> journal \<Rightarrow> journal" where
  "journal_record change j =
     (if length (j_changes j) \<ge> MAX_JOURNAL then j\<lparr> j_overflowed := True \<rparr>
      else if \<not> j_overflowed j then j\<lparr> j_changes := j_changes j @ [change] \<rparr> else j)"

fun replay_change :: "instant \<Rightarrow> journaled \<Rightarrow> rules_cache \<Rightarrow> rules_cache" where
  "replay_change clock (Confirmed sent t) c = apply_confirmed_at sent t clock c"
| "replay_change clock (Refused sent t) c = fst (apply_refused_at sent t clock c)"
| "replay_change clock (Prompt r t) c = upsert_at r t clock (note_prompt_answer (r_name r) c)"

definition journal_replay :: "instant \<Rightarrow> journal \<Rightarrow> rules_cache \<Rightarrow> rules_cache" where
  "journal_replay clock j c = fold (replay_change clock) (j_changes j) c"

record snapshot =
  sn_observed_revision :: nat
  sn_sequence :: nat
  sn_rules :: "rule list"
  sn_left_out :: "(rstr, nat) fmap"
  sn_over_limit :: "nat option"
  sn_left_out_temporary :: bool
  sn_journal :: journal

definition new_snapshot :: snapshot where
  "new_snapshot = \<lparr> sn_observed_revision = 0, sn_sequence = 0, sn_rules = [], sn_left_out = fmempty,
     sn_over_limit = None, sn_left_out_temporary = False, sn_journal = new_journal \<rparr>"

text \<open>One rule of a snapshot; \<open>encoded_len\<close> is the protobuf library's size of a rule.\<close>

definition snapshot_add :: "(rule \<Rightarrow> nat) \<Rightarrow> nat \<times> rule \<Rightarrow> snapshot \<Rightarrow> snapshot" where
  "snapshot_add encoded_len = (\<lambda>(index, r) s.
     if within_limits r then s\<lparr> sn_rules := sn_rules s @ [r] \<rparr>
     else let key = (if str_len (r_name r) \<le> MAX_RULE_NAME_BYTES then r_name r else 0 # decimal index);
              before = (case fmlookup (sn_left_out s) key of Some n \<Rightarrow> n | None \<Rightarrow> 0)
          in s\<lparr> sn_left_out_temporary := sn_left_out_temporary s \<or> is_temporary (r_duration r),
                sn_left_out := fmupd key (before + encoded_len r) (sn_left_out s) \<rparr>)"

definition bounded_snapshot :: "(rule \<Rightarrow> nat) \<Rightarrow> rule list \<Rightarrow> snapshot" where
  "bounded_snapshot encoded_len rs =
     (if length rs > MAX_SNAPSHOT_RULES then new_snapshot\<lparr> sn_over_limit := Some (length rs) \<rparr>
      else fold (snapshot_add encoded_len) (enumerate 0 rs) new_snapshot)"

end
