(* ===== verification/Rule_Policy.thy ===== *)
theory Rule_Policy
  imports Rule_Regexp Rules_Cache Std_Net
begin

text \<open>
  \<open>rule_policy.rs\<close>, \<open>rule_policy/narrowing.rs\<close> and \<open>rule_policy/profile.rs\<close>: which
  conditions the bridge sends to the daemon, which of them narrow a rule, and the checks on
  a whole rule written in the editor, read from a file or installed for a profile.

  Reasons are constructors instead of the fixed texts of the source. Every check that reads
  a pattern has the \<open>regex_lib\<close> of \<open>Rule_Regexp\<close> as an argument.
\<close>

section \<open>Addresses with their values\<close>

datatype ip_addr = V4 "nat list" | V6 "nat list"

text \<open>The groups read, whether they end in an IPv4 address, and what is left; as
  \<open>read_groups\<close>, with the values.\<close>

fun read_segments :: "nat \<Rightarrow> nat \<Rightarrow> rstr \<Rightarrow> nat list \<times> bool \<times> rstr" where
  "read_segments i 0 s = ([], False, s)"
| "read_segments i (Suc left) s =
     (case (if 0 < left then read_separator 58 i read_ipv4_addr s else None) of
        Some (octets, rest) \<Rightarrow>
          ([octets ! 0 * 256 + octets ! 1, octets ! 2 * 256 + octets ! 3], True, rest)
      | None \<Rightarrow>
          (case read_separator 58 i (read_number 16 4 True 65535) s of
             None \<Rightarrow> ([], False, s)
           | Some (g, rest) \<Rightarrow>
               (let (gs, v4, r) = read_segments (Suc i) left rest in (g # gs, v4, r))))"

definition parse_ipv6 :: "rstr \<Rightarrow> nat list option" where
  "parse_ipv6 s =
     (let (head, head_ipv4, rest) = read_segments 0 8 s
      in if length head = 8 then (if rest = [] then Some head else None)
         else if head_ipv4 then None
         else (case rest of
                 a # b # rest' \<Rightarrow>
                   if a = 58 \<and> b = 58
                   then (let (tail, _, r) = read_segments 0 (8 - (length head + 1)) rest'
                         in if r = [] then Some (head @ replicate (8 - length head - length tail) 0 @ tail) else None)
                   else None
               | _ \<Rightarrow> None))"

definition parse_ip_addr :: "rstr \<Rightarrow> ip_addr option" where
  "parse_ip_addr s =
     (case read_ipv4_addr s of
        Some (octets, rest) \<Rightarrow> if rest = [] then Some (V4 octets) else None
      | None \<Rightarrow> map_option V6 (parse_ipv6 s))"

definition is_ipv4_mapped :: "nat list \<Rightarrow> bool" where
  "is_ipv4_mapped segments \<longleftrightarrow> take 6 segments = [0, 0, 0, 0, 0, 0xffff]"

definition split_once :: "rchar \<Rightarrow> rstr \<Rightarrow> (rstr \<times> rstr) option" where
  "split_once c s =
     (case dropWhile (\<lambda>x. x \<noteq> c) s of [] \<Rightarrow> None | _ # rest \<Rightarrow> Some (takeWhile (\<lambda>x. x \<noteq> c) s, rest))"

text \<open>\<open>str::parse\<close> for an unsigned type with the given largest value: digits, possibly after
  one plus sign.\<close>

definition parse_unsigned :: "nat \<Rightarrow> rstr \<Rightarrow> nat option" where
  "parse_unsigned largest s =
     (let ds = (case s of c # cs \<Rightarrow> if c = 43 then cs else s | [] \<Rightarrow> [])
      in if ds = [] \<or> \<not> list_all is_ascii_digit ds \<or> decimal_value ds > largest then None
         else Some (decimal_value ds))"

lemma parse_unsigned_digits:
  assumes "list_all is_ascii_digit s"
  shows "parse_unsigned m s = Some n \<longleftrightarrow> s \<noteq> [] \<and> n = decimal_value s \<and> n \<le> m"
proof (cases s)
  case (Cons c cs)
  then have "c \<noteq> 43" using assms by (auto simp: is_ascii_digit_def)
  then show ?thesis using Cons assms by (auto simp: parse_unsigned_def Let_def)
qed (simp add: parse_unsigned_def)

lemma parse_decimal: "parse_unsigned m (decimal n) = (if n \<le> m then Some n else None)"
  using parse_unsigned_digits[OF digits_decimal, of m n n] parse_unsigned_digits[OF digits_decimal, of m n]
  by (cases "parse_unsigned m (decimal n)") auto

section \<open>Conditions\<close>

definition NETWORK_OPERANDS :: "rstr list" where
  "NETWORK_OPERANDS = [lit ''dest.network'', lit ''source.network'']"

definition STRING_OPERANDS :: "rstr list" where
  "STRING_OPERANDS = map lit [''process.id'', ''process.path'', ''process.parent.path'', ''process.command'',
     ''process.hash.md5'', ''process.hash.sha1'', ''user.id'', ''user.name'', ''source.ip'', ''source.port'',
     ''dest.ip'', ''dest.host'', ''dest.port'', ''protocol'', ''iface.in'', ''iface.out'']"

definition ENV_OPERAND_PREFIX :: rstr where "ENV_OPERAND_PREFIX = lit ''process.env.''"
definition HASH_OPERANDS :: "rstr list" where
  "HASH_OPERANDS = [lit ''process.hash.md5'', lit ''process.hash.sha1'']"

datatype operand_kind = KindTrue | KindNetwork | KindText

datatype operator_error =
  ListOperand | ListEmpty | ListTooLong nat | ListMember nat operator_error | HASH_MATCHES_ALL
| LeafWithMembers | FieldTooLong | USER_NAME_IS_A_UID | NETWORK_OPERAND_NEEDS_NETWORK | UserNameNeedsSimple
| TRUE_NEEDS_SIMPLE | NetworkNeedsOperand | NestedList | LISTS_REFUSED | UnknownType | ListOperandNeedsList
| UnknownOperand | NOT_A_CIDR | MAPPED | BadRegexp regexp_error

definition is_uid :: "rstr \<Rightarrow> bool" where
  "is_uid data \<longleftrightarrow> data \<noteq> [] \<and> list_all is_ascii_digit data"

definition is_ascii_alphabetic :: "rchar \<Rightarrow> bool" where
  "is_ascii_alphabetic c \<longleftrightarrow> is_ascii_alphanumeric c \<and> \<not> is_ascii_digit c"

definition is_env_var_name :: "rstr \<Rightarrow> bool" where
  "is_env_var_name name \<longleftrightarrow>
     (case name of [] \<Rightarrow> False
      | c # cs \<Rightarrow> (is_ascii_alphabetic c \<or> c = 95) \<and> list_all (\<lambda>c. is_ascii_alphanumeric c \<or> c = 95) cs)"

definition operand_kind :: "rstr \<Rightarrow> operator_error + operand_kind" where
  "operand_kind operand =
     (if operand = lit ''true'' then Inr KindTrue
      else if operand \<in> set NETWORK_OPERANDS then Inr KindNetwork
      else if operand \<in> set STRING_OPERANDS then Inr KindText
      else if prefix ENV_OPERAND_PREFIX operand
              \<and> is_env_var_name (drop (length ENV_OPERAND_PREFIX) operand) then Inr KindText
      else if operand = lit ''list'' then Inl ListOperandNeedsList
      else if prefix (lit ''lists.'') operand then Inl LISTS_REFUSED
      else Inl UnknownOperand)"

definition validate_cidr :: "rstr \<Rightarrow> operator_error + unit" where
  "validate_cidr data =
     (case split_once 47 data of
        None \<Rightarrow> Inl NOT_A_CIDR
      | Some (addr, bits) \<Rightarrow>
          (let digits_only = (bits \<noteq> [] \<and> str_len bits \<le> 3 \<and> list_all is_ascii_digit bits);
               check = (\<lambda>max_prefix.
                 case parse_unsigned 65535 bits of
                   Some len \<Rightarrow> if digits_only \<and> len \<le> max_prefix then Inr () else Inl NOT_A_CIDR
                 | None \<Rightarrow> Inl NOT_A_CIDR)
           in case parse_ip_addr addr of
                Some (V4 _) \<Rightarrow> check (32::nat)
              | Some (V6 segments) \<Rightarrow> if is_ipv4_mapped segments then Inl MAPPED else check 128
              | None \<Rightarrow> Inl NOT_A_CIDR))"

definition validate_leaf :: "regex_lib \<Rightarrow> operator \<Rightarrow> operator_error + unit" where
  "validate_leaf lib op =
     (let ty = op_type op; operand = op_operand op; data = op_data op;
          kinded = (\<lambda>f. case operand_kind operand of Inl e \<Rightarrow> Inl e | Inr k \<Rightarrow> f k)
      in if op_list op \<noteq> [] then Inl LeafWithMembers
         else if str_len operand > MAX_RULE_FIELD_BYTES \<or> str_len data > MAX_RULE_FIELD_BYTES then Inl FieldTooLong
         else if ty = lit ''simple'' \<and> operand = lit ''user.name'' \<and> is_uid data then Inl USER_NAME_IS_A_UID
         else if ty = lit ''simple''
         then kinded (\<lambda>k. if k = KindNetwork then Inl NETWORK_OPERAND_NEEDS_NETWORK else Inr ())
         else if ty = lit ''regexp'' \<and> operand = lit ''user.name'' then Inl UserNameNeedsSimple
         else if ty = lit ''regexp''
         then kinded (\<lambda>k. case k of
                KindText \<Rightarrow> (case validate_regexp lib data (op_sensitive op) of Inl e \<Rightarrow> Inl (BadRegexp e) | Inr _ \<Rightarrow> Inr ())
              | KindTrue \<Rightarrow> Inl TRUE_NEEDS_SIMPLE
              | KindNetwork \<Rightarrow> Inl NETWORK_OPERAND_NEEDS_NETWORK)
         else if ty = lit ''network''
         then kinded (\<lambda>k. if k = KindNetwork then validate_cidr data else Inl NetworkNeedsOperand)
         else if ty = lit ''list'' then Inl NestedList
         else if ty = lit ''lists'' then Inl LISTS_REFUSED
         else Inl UnknownType)"

fun validate_members :: "regex_lib \<Rightarrow> nat \<Rightarrow> operator list \<Rightarrow> operator_error + unit" where
  "validate_members lib index [] = Inr ()"
| "validate_members lib index (m # ms) =
     (case validate_leaf lib m of
        Inl e \<Rightarrow> Inl (ListMember (index + 1) e) | Inr _ \<Rightarrow> validate_members lib (index + 1) ms)"

definition validate_list :: "regex_lib \<Rightarrow> operator \<Rightarrow> operator_error + unit" where
  "validate_list lib op =
     (if \<not> (op_operand op = [] \<or> op_operand op = lit ''list'') then Inl ListOperand
      else if op_list op = [] then Inl ListEmpty
      else if length (op_list op) > MAX_OPERATOR_LIST_LEN then Inl (ListTooLong (length (op_list op)))
      else case validate_members lib 0 (op_list op) of
             Inl e \<Rightarrow> Inl e
           | Inr _ \<Rightarrow>
               let has_hash = list_ex (\<lambda>m. op_operand m \<in> set HASH_OPERANDS) (op_list op);
                   constrained = list_ex (\<lambda>m. op_operand m \<noteq> lit ''true'' \<and> op_operand m \<notin> set HASH_OPERANDS) (op_list op)
               in if has_hash \<and> \<not> constrained then Inl HASH_MATCHES_ALL else Inr ())"

definition validate_operator :: "regex_lib \<Rightarrow> operator \<Rightarrow> operator_error + unit" where
  "validate_operator lib op =
     (if op_type op = lit ''list'' then validate_list lib op
      else case validate_leaf lib op of
             Inl e \<Rightarrow> Inl e
           | Inr _ \<Rightarrow> if op_operand op \<in> set HASH_OPERANDS then Inl HASH_MATCHES_ALL else Inr ())"

section \<open>What narrows a rule\<close>

definition PATHS :: "rstr list" where
  "PATHS = map lit [''/usr/bin/curl'', ''/usr/lib64/firefox/firefox'', ''/home/user/.local/bin/tool'',
     ''/opt/app name/bin/app'', ''/tmp/x'']"
definition COMMANDS :: "rstr list" where
  "COMMANDS = map lit [''curl https://example.com'', ''/usr/bin/python3 -m http.server 8000'', ''bash'']"
definition HOSTS :: "rstr list" where
  "HOSTS = map lit [''example.com'', ''github.com'', ''a.b.example.org'', ''localhost'', ''xn--bcher-kva.example'']"
definition IPS :: "rstr list" where
  "IPS = map lit [''10.0.0.1'', ''192.168.1.20'', ''93.184.216.34'', ''::1'', ''2001:db8::1'']"
definition PORTS :: "rstr list" where "PORTS = map lit [''22'', ''53'', ''443'', ''8080'', ''65535'']"
definition PROTOCOLS :: "rstr list" where "PROTOCOLS = map lit [''tcp'', ''udp'', ''icmp'', ''tcp6'', ''udp6'']"
definition IDS :: "rstr list" where "IDS = map lit [''0'', ''1'', ''1000'', ''4242'', ''65534'']"
definition INTERFACES :: "rstr list" where "INTERFACES = map lit [''eth0'', ''wlan0'', ''lo'', ''enp3s0'']"
definition ENV_VALUES :: "rstr list" where "ENV_VALUES = map lit ['''', ''1'', ''/home/user'', ''en_US.UTF-8'']"

definition probes :: "rstr \<Rightarrow> rstr list" where
  "probes operand =
     (if operand = lit ''process.path'' \<or> operand = lit ''process.parent.path'' then PATHS
      else if operand = lit ''process.command'' then COMMANDS
      else if operand = lit ''dest.host'' then HOSTS
      else if operand = lit ''dest.ip'' \<or> operand = lit ''source.ip'' then IPS
      else if operand = lit ''dest.port'' \<or> operand = lit ''source.port'' then PORTS
      else if operand = lit ''protocol'' then PROTOCOLS
      else if operand = lit ''process.id'' \<or> operand = lit ''user.id'' then IDS
      else if operand = lit ''iface.in'' \<or> operand = lit ''iface.out'' then INTERFACES
      else if prefix ENV_OPERAND_PREFIX operand then ENV_VALUES
      else [])"

definition is_zero_prefix :: "rstr \<Rightarrow> bool" where
  "is_zero_prefix cidr =
     (case split_once 47 cidr of
        None \<Rightarrow> False
      | Some (addr, bits) \<Rightarrow>
          (case parse_unsigned 255 bits of
             None \<Rightarrow> False
           | Some p \<Rightarrow> if (case parse_ipv6 addr of Some v6 \<Rightarrow> is_ipv4_mapped v6 | None \<Rightarrow> False)
                      then p \<le> 96 else p = 0))"

definition matches_every_probe :: "regex_lib \<Rightarrow> operator \<Rightarrow> bool" where
  "matches_every_probe lib leaf =
     (let subjects = probes (op_operand leaf);
          fold_case = (\<lambda>s. if op_sensitive leaf then s else rx_lowercase lib s)
      in subjects \<noteq> []
         \<and> (case rx_build lib SIZE_LIMIT (fold_case (op_data leaf)) of
              Inl _ \<Rightarrow> False
            | Inr is_match \<Rightarrow> list_all (\<lambda>s. is_match (fold_case s)) subjects))"

definition narrows :: "regex_lib \<Rightarrow> operator \<Rightarrow> bool" where
  "narrows lib leaf =
     (if op_operand leaf = lit ''true'' then False
      else if op_type leaf = lit ''network'' then \<not> is_zero_prefix (op_data leaf)
      else if op_type leaf = lit ''regexp'' then \<not> matches_every_probe lib leaf
      else True)"

definition binds_programs :: "operator \<Rightarrow> bool" where
  "binds_programs leaf =
     (if op_type leaf \<noteq> lit ''simple'' \<or> op_data leaf = [] then False
      else if op_operand leaf = lit ''process.path'' then is_bindable_process_path (op_data leaf)
      else op_operand leaf = lit ''process.command'')"

definition binds_to_programs :: "operator \<Rightarrow> bool" where
  "binds_to_programs op =
     (if op_type op = lit ''list'' then list_ex binds_programs (op_list op) else binds_programs op)"

section \<open>Whole rules\<close>

datatype policy_profile = Import | Editor | ProfileRule

datatype problem_reason =
  NO_CONDITIONS | BadOperator operator_error | BadName name_error | BLOCKLIST_NAME_REFUSED | CURATED_NAME_REFUSED
| PACKAGED_NAME_REFUSED | ACTION_REFUSED | DURATION_REFUSED | TOO_LARGE | HASH_REFUSED | MATCHES_EVERYTHING
| EMPTY_VALUE_REFUSED | EDITOR_DURATION_REFUSED | RELATIVE_PATH_REFUSED | PROTOCOL_REFUSED | EDITOR_EMPTY_HOST_REFUSED
| EDITOR_OPERAND_REFUSED | PORT_REFUSED | ID_REFUSED | PROFILE_NAME_REFUSED | PROFILE_PREFIX_REQUIRED
| PROFILE_DURATION_REFUSED | PROFILE_PRECEDENCE_REFUSED | PROFILE_NOLOG_REFUSED | PROFILE_CASE_REFUSED
| PROFILE_USER_NAME_REFUSED

type_synonym rule_problem = "rstr \<times> problem_reason"

definition MIN_TIMED_SECS :: int where "MIN_TIMED_SECS = 10"
definition MAX_TIMED_SECS :: int where "MAX_TIMED_SECS = 365 * 24 * 3600"

definition editor_duration :: "rstr \<Rightarrow> bool" where
  "editor_duration duration \<longleftrightarrow>
     duration = lit ''always'' \<or> duration = lit ''until restart''
     \<or> (case parse_duration_secs duration of
          Some secs \<Rightarrow> MIN_TIMED_SECS \<le> secs \<and> secs \<le> MAX_TIMED_SECS | None \<Rightarrow> False)"

definition leaves_of :: "operator \<Rightarrow> (rstr \<times> operator) list" where
  "leaves_of op =
     (if op_type op = lit ''list''
      then map (\<lambda>(index, m). (lit ''operator.list['' @ decimal index @ lit '']'', m)) (enumerate 0 (op_list op))
      else [(lit ''operator'', op)])"

definition is_decimal :: "nat \<Rightarrow> rstr \<Rightarrow> bool" where
  "is_decimal largest data \<longleftrightarrow> data \<noteq> [] \<and> list_all is_ascii_digit data \<and> parse_unsigned largest data \<noteq> None"

definition when_problem :: "bool \<Rightarrow> rstr \<Rightarrow> problem_reason \<Rightarrow> rule_problem list" where
  "when_problem b path reason = (if b then [(path, reason)] else [])"

definition check_import_leaf :: "rstr \<Rightarrow> operator \<Rightarrow> rule_problem list" where
  "check_import_leaf path leaf =
     (let operand = op_operand leaf; data = op_data leaf; data_path = path @ lit ''.data''
      in when_problem (prefix (lit ''process.hash.'') operand) (path @ lit ''.operand'') HASH_REFUSED
         @ (if op_type leaf \<noteq> lit ''simple'' then []
            else if data = [] \<and> operand \<notin> {lit ''true'', lit ''dest.host''} then [(data_path, EMPTY_VALUE_REFUSED)]
            else if operand \<in> {lit ''source.port'', lit ''dest.port''} \<and> \<not> is_decimal 65535 data
            then [(data_path, PORT_REFUSED)]
            else if operand \<in> {lit ''process.id'', lit ''user.id''} \<and> \<not> is_decimal U32_MAX data
            then [(data_path, ID_REFUSED)] else []))"

definition check_editor_leaf :: "rstr \<Rightarrow> operator \<Rightarrow> rule_problem list" where
  "check_editor_leaf path leaf =
     (let operand = op_operand leaf; data = op_data leaf; data_path = path @ lit ''.data''
      in when_problem (operand = lit ''process.id'' \<or> prefix (lit ''process.env.'') operand)
           (path @ lit ''.operand'') EDITOR_OPERAND_REFUSED
         @ (if op_type leaf \<noteq> lit ''simple'' then []
            else if data = [] then when_problem (operand = lit ''dest.host'') data_path EDITOR_EMPTY_HOST_REFUSED
            else if operand = lit ''process.path'' \<and> \<not> is_bindable_process_path data
            then [(data_path, RELATIVE_PATH_REFUSED)]
            else if operand = lit ''protocol''
                    \<and> \<not> (str_len data \<le> 16 \<and> list_all (\<lambda>b. (97 \<le> b \<and> b \<le> 122) \<or> is_ascii_digit b) data)
            then [(data_path, PROTOCOL_REFUSED)] else []))"

definition check_profile_leaf :: "rstr \<Rightarrow> operator \<Rightarrow> rule_problem list" where
  "check_profile_leaf path leaf =
     (if op_operand leaf = lit ''process.path'' \<and> op_type leaf = lit ''simple'' \<and> \<not> op_sensitive leaf
      then [(path @ lit ''.data'', PROFILE_CASE_REFUSED)]
      else when_problem (op_operand leaf = lit ''user.name'') (path @ lit ''.operand'') PROFILE_USER_NAME_REFUSED)"

definition check_import_operator :: "regex_lib \<Rightarrow> operator \<Rightarrow> policy_profile \<Rightarrow> rule_problem list" where
  "check_import_operator lib op profile =
     when_problem (\<not> list_ex (\<lambda>(_, leaf). narrows lib leaf) (leaves_of op)) (lit ''operator'') MATCHES_EVERYTHING
     @ concat (map (\<lambda>(path, leaf).
           check_import_leaf path leaf
           @ (if profile \<noteq> Import then check_editor_leaf path leaf else [])
           @ (if profile = ProfileRule then check_profile_leaf path leaf else [])) (leaves_of op))"

definition check_profile_fields :: "rule \<Rightarrow> rule_problem list" where
  "check_profile_fields r =
     when_problem (r_duration r \<noteq> lit ''always'') (lit ''duration'') PROFILE_DURATION_REFUSED
     @ when_problem (r_precedence r) (lit ''precedence'') PROFILE_PRECEDENCE_REFUSED
     @ when_problem (r_nolog r) (lit ''nolog'') PROFILE_NOLOG_REFUSED"

definition check_rule :: "regex_lib \<Rightarrow> rule \<Rightarrow> policy_profile \<Rightarrow> rule_problem list" where
  "check_rule lib r profile =
     (case r_operator r of
        None \<Rightarrow> [(lit ''operator'', NO_CONDITIONS)]
      | Some op \<Rightarrow> (case validate_operator lib op of
                      Inl e \<Rightarrow> [(lit ''operator'', BadOperator e)]
                    | Inr _ \<Rightarrow> check_import_operator lib op profile))
     @ (case validate_rule_name (r_name r) of Inl e \<Rightarrow> [(lit ''name'', BadName e)] | Inr _ \<Rightarrow> [])
     @ when_problem (is_reserved_blocklist_name (r_name r)) (lit ''name'') BLOCKLIST_NAME_REFUSED
     @ when_problem (prefix CURATED_DEFAULT_RULE_NAME_PREFIX (r_name r)) (lit ''name'') CURATED_NAME_REFUSED
     @ when_problem (is_reserved_packaged_name (r_name r)) (lit ''name'') PACKAGED_NAME_REFUSED
     @ (if profile = ProfileRule \<and> \<not> is_reserved_profile_name (r_name r)
        then [(lit ''name'', PROFILE_PREFIX_REQUIRED)]
        else if profile \<noteq> ProfileRule \<and> is_reserved_profile_name (r_name r)
        then [(lit ''name'', PROFILE_NAME_REFUSED)] else [])
     @ when_problem (r_action r \<notin> {lit ''allow'', lit ''deny'', lit ''reject''}) (lit ''action'') ACTION_REFUSED
     @ (case profile of
          Import \<Rightarrow> when_problem (r_duration r \<notin> {lit ''always'', lit ''until restart''}) (lit ''duration'') DURATION_REFUSED
        | Editor \<Rightarrow> when_problem (\<not> editor_duration (r_duration r)) (lit ''duration'') EDITOR_DURATION_REFUSED
        | ProfileRule \<Rightarrow> check_profile_fields r)
     @ when_problem (\<not> within_limits r) (lit ''rule'') TOO_LARGE"

definition validate_user_rule :: "regex_lib \<Rightarrow> rule \<Rightarrow> policy_profile \<Rightarrow> rule_problem list + unit" where
  "validate_user_rule lib r profile =
     (let problems = check_rule lib r profile in if problems = [] then Inr () else Inl problems)"

definition enable_problems :: "regex_lib \<Rightarrow> rule \<Rightarrow> rule_problem list" where
  "enable_problems lib r =
     (case r_operator r of
        None \<Rightarrow> [(lit ''operator'', NO_CONDITIONS)]
      | Some op \<Rightarrow>
          when_problem (\<not> list_ex (\<lambda>(_, leaf). narrows lib leaf \<and> \<not> prefix (lit ''process.hash.'') (op_operand leaf))
                            (leaves_of op)) (lit ''operator'') MATCHES_EVERYTHING
          @ concat (map (\<lambda>(path, leaf).
              if op_operand leaf = lit ''true'' then []
              else when_problem (op_type leaf = lit ''simple'' \<and> op_data leaf = []) (path @ lit ''.data'')
                     (if op_operand leaf = lit ''dest.host'' then EDITOR_EMPTY_HOST_REFUSED else EMPTY_VALUE_REFUSED))
              (leaves_of op)))
     @ when_problem (\<not> editor_duration (r_duration r)) (lit ''duration'') EDITOR_DURATION_REFUSED"

section \<open>What a GUI may change\<close>

definition PACKAGED_FETCH_RULE_NAME :: rstr where
  "PACKAGED_FETCH_RULE_NAME = lit ''000-snitchwatch-bridge-fetch''"

datatype read_only =
  BLOCKLIST_MANAGED_REASON | PROFILE_MANAGED_REASON | PACKAGED_FETCH_RULE_REASON | PACKAGED_RULE_REASON
| CURATED_DEFAULT_REASON | CURATED_MANAGED_REASON | READ_ONLY_REASON | SHAPE_READ_ONLY_REASON

text \<open>\<open>curated\<close> stands for \<open>curated::toggleable\<close>: the rule is a shipped default's own copy.\<close>

definition read_only_reason :: "regex_lib \<Rightarrow> (rule \<Rightarrow> bool) \<Rightarrow> rule \<Rightarrow> read_only option" where
  "read_only_reason lib curated r =
     (if is_reserved_blocklist_name (r_name r) then Some BLOCKLIST_MANAGED_REASON
      else if is_reserved_profile_name (r_name r) then Some PROFILE_MANAGED_REASON
      else if r_name r = PACKAGED_FETCH_RULE_NAME then Some PACKAGED_FETCH_RULE_REASON
      else if is_reserved_packaged_name (r_name r) then Some PACKAGED_RULE_REASON
      else if is_reserved_curated_name (r_name r)
      then Some (if curated r then CURATED_DEFAULT_REASON else CURATED_MANAGED_REASON)
      else if validate_rule_name (r_name r) \<noteq> Inr () then Some READ_ONLY_REASON
      else case r_operator r of
             Some op \<Rightarrow> if validate_operator lib op = Inr () then None else Some SHAPE_READ_ONLY_REASON
           | None \<Rightarrow> Some SHAPE_READ_ONLY_REASON)"

definition toggleable :: "regex_lib \<Rightarrow> (rule \<Rightarrow> bool) \<Rightarrow> rule \<Rightarrow> bool" where
  "toggleable lib curated r \<longleftrightarrow> read_only_reason lib curated r = None \<or> curated r"

definition deletable :: "rule \<Rightarrow> bool" where
  "deletable r \<longleftrightarrow> validate_rule_name (r_name r) = Inr () \<and> \<not> is_reserved_name (r_name r)"

end
