(* ===== verification/Curated.thy ===== *)
theory Curated
  imports Rule_Policy
begin

text \<open>
  \<open>curated/mod.rs\<close> and \<open>curated/canonical.rs\<close>: the reviewed default rules for background
  services, the only shape a rule under their reserved prefix may have, and the comparison
  of a rule the daemon reports with the one that was sent.

  The data file is read by \<open>serde_json\<close> into the record \<open>data_file\<close>; the checks on it are
  \<open>parse_file\<close>. Where the source reads the one list built into the program
  (\<open>entries()\<close>), the list is an argument here. \<open>str::to_lowercase\<close> is \<open>rx_lowercase\<close>
  of the \<open>regex_lib\<close> argument.
\<close>

section \<open>The data file\<close>

definition DESCRIPTION :: rstr where "DESCRIPTION = lit ''snitchwatch curated default v1''"

text \<open>92 is the backslash before a literal dot.\<close>

definition LOOPBACK_PATTERN :: rstr where
  "LOOPBACK_PATTERN = lit ''^(127'' @ 92 # lit ''.0'' @ 92 # lit ''.0'' @ 92 # lit ''.1|::1)$''"
definition DNS_PROGRAM :: rstr where "DNS_PROGRAM = lit ''/usr/lib/systemd/systemd-resolved''"
definition DNS_PORT :: nat where "DNS_PORT = 53"
definition MDNS_PATTERN :: rstr where
  "MDNS_PATTERN = lit ''^(224'' @ 92 # lit ''.0'' @ 92 # lit ''.0'' @ 92 # lit ''.251|ff02::fb)$''"
definition MDNS_PROGRAM :: rstr where "MDNS_PROGRAM = lit ''/usr/bin/avahi-daemon''"
definition MDNS_PORT :: nat where "MDNS_PORT = 5353"

datatype curated_sender = UserId nat | Account rstr

datatype curated_protocol = ProtoTcp | ProtoUdp | ProtoTcpAndUdp

fun protocol_pattern :: "curated_protocol \<Rightarrow> rstr" where
  "protocol_pattern ProtoTcp = lit ''^tcp6?$''"
| "protocol_pattern ProtoUdp = lit ''^udp6?$''"
| "protocol_pattern ProtoTcpAndUdp = lit ''^(tcp|udp)6?$''"

record curated_entry =
  ce_id :: rstr
  ce_group :: rstr
  ce_path :: rstr
  ce_host :: "rstr option"
  ce_loopback :: bool
  ce_any_address :: bool
  ce_multicast_dns :: bool
  ce_sender :: "curated_sender option"
  ce_port :: nat
  ce_protocol :: curated_protocol
  ce_why :: rstr
  ce_evidence :: rstr

record curated_group =
  cg_id :: rstr
  cg_title :: rstr
  cg_description :: rstr

record data_file =
  df_version :: nat
  df_groups :: "curated_group list"
  df_entries :: "curated_entry list"

section \<open>An entry's rules\<close>

definition curated_leaf :: "rstr \<Rightarrow> rstr \<Rightarrow> rstr \<Rightarrow> bool \<Rightarrow> operator" where
  "curated_leaf ty operand data sensitive = Operator ty operand data sensitive []"

definition entry_rule_name :: "curated_entry \<Rightarrow> rstr" where
  "entry_rule_name e = CURATED_DEFAULT_RULE_NAME_PREFIX @ ce_id e"

definition build_leaves :: "curated_entry \<Rightarrow> rstr option \<Rightarrow> operator list" where
  "build_leaves e sender =
     [curated_leaf (lit ''simple'') (lit ''process.path'') (ce_path e) True]
     @ (case ce_host e of Some host \<Rightarrow> [curated_leaf (lit ''simple'') (lit ''dest.host'') host False] | None \<Rightarrow> [])
     @ (if ce_loopback e then [curated_leaf (lit ''regexp'') (lit ''dest.ip'') LOOPBACK_PATTERN False] else [])
     @ (if ce_multicast_dns e then [curated_leaf (lit ''regexp'') (lit ''dest.ip'') MDNS_PATTERN False] else [])
     @ (case sender of Some uid \<Rightarrow> [curated_leaf (lit ''simple'') (lit ''user.id'') uid False] | None \<Rightarrow> [])
     @ [curated_leaf (lit ''simple'') (lit ''dest.port'') (decimal (ce_port e)) False,
        curated_leaf (lit ''regexp'') (lit ''protocol'') (protocol_pattern (ce_protocol e)) False]"

definition entry_build :: "curated_entry \<Rightarrow> rstr option \<Rightarrow> rule" where
  "entry_build e sender =
     \<lparr> r_created = 0, r_name = entry_rule_name e, r_description = DESCRIPTION, r_enabled = True,
       r_precedence = False, r_nolog = False, r_action = lit ''allow'', r_duration = lit ''always'',
       r_operator = Some (Operator (lit ''list'') (lit ''list'') [] False (build_leaves e sender)) \<rparr>"

definition rule_as :: "curated_entry \<Rightarrow> nat option \<Rightarrow> rule" where
  "rule_as e account_uid =
     entry_build e (case ce_sender e of
         Some (UserId uid) \<Rightarrow> Some (decimal uid)
       | Some (Account _) \<Rightarrow> Some (case account_uid of Some uid \<Rightarrow> decimal uid | None \<Rightarrow> [])
       | None \<Rightarrow> None)"

definition entry_rule :: "curated_entry \<Rightarrow> rule" where
  "entry_rule e = rule_as e None"

definition legacy_rule :: "curated_entry \<Rightarrow> rule option" where
  "legacy_rule e = (if ce_sender e \<noteq> None \<and> \<not> ce_any_address e then Some (entry_build e None) else None)"

definition canonical_uid :: "rstr \<Rightarrow> bool" where
  "canonical_uid data \<longleftrightarrow>
     data \<noteq> [] \<and> list_all is_ascii_digit data \<and> (data = [48] \<or> hd data \<noteq> 48)
     \<and> parse_unsigned U32_MAX data \<noteq> None"

definition sender_uid :: "rule \<Rightarrow> nat option" where
  "sender_uid r =
     (case r_operator r of
        None \<Rightarrow> None
      | Some op \<Rightarrow>
          (case find (\<lambda>leaf. op_operand leaf = lit ''user.id'') (op_list op) of
             None \<Rightarrow> None
           | Some leaf \<Rightarrow> if canonical_uid (op_data leaf) then parse_unsigned U32_MAX (op_data leaf) else None))"

definition rule_matching :: "curated_entry \<Rightarrow> rule \<Rightarrow> rule option" where
  "rule_matching e r =
     (case ce_sender e of
        Some (Account _) \<Rightarrow> map_option (\<lambda>uid. rule_as e (Some uid)) (sender_uid r)
      | _ \<Rightarrow> Some (entry_rule e))"

definition entry_account :: "curated_entry \<Rightarrow> rstr option" where
  "entry_account e = (case ce_sender e of Some (Account name) \<Rightarrow> Some name | _ \<Rightarrow> None)"

definition broad :: "curated_entry \<Rightarrow> bool" where
  "broad e = ce_any_address e"

section \<open>The allowlist\<close>

datatype curated_error =
  BadCuratedName | NotAlwaysAllow | BadDescription | NoConditions | NotOneList | FailsEditorChecks
| NotUsrProgram | BadDestination | OnlyResolverAnyAddress | SenderNeeded | BadSender | BadPort | BadProtocol
| OtherConditions | BadEntryId | BadEntryPath | BadEntryHost | BadDestinations | BadEntryGroup | NoPort | BadText
| AnyAddressNeedsAccount | BadAccount | UnknownVersion | SharedId | BadGroup | SharedGroupId | EmptyGroup
| UndeclaredGroup | BroadSharesGroup

definition is_lower_digit_dash :: "rchar \<Rightarrow> bool" where
  "is_lower_digit_dash c \<longleftrightarrow> (97 \<le> c \<and> c \<le> 122) \<or> is_ascii_digit c \<or> c = 45"

definition valid_id :: "rstr \<Rightarrow> bool" where
  "valid_id s \<longleftrightarrow> 1 \<le> str_len s \<and> str_len s \<le> 48 \<and> list_all is_lower_digit_dash s
     \<and> hd s \<noteq> 45 \<and> last s \<noteq> 45"

definition usr_program :: "rstr \<Rightarrow> bool" where
  "usr_program path \<longleftrightarrow>
     prefix (lit ''/usr/'') path \<and> \<not> prefix (lit ''/usr/local/'') path \<and> is_bindable_process_path path"

definition valid_host :: "rstr \<Rightarrow> bool" where
  "valid_host host \<longleftrightarrow>
     str_len host \<le> 253 \<and> 46 \<in> set host \<and> parse_ip_addr host = None
     \<and> list_all (\<lambda>label. 1 \<le> str_len label \<and> str_len label \<le> 63 \<and> hd label \<noteq> 45 \<and> last label \<noteq> 45
          \<and> list_all is_lower_digit_dash label) (split_on 46 host)"

definition plain_text :: "rstr \<Rightarrow> bool" where
  "plain_text text \<longleftrightarrow> \<not> list_all is_whitespace text \<and> length text \<le> 400
     \<and> \<not> list_ex (\<lambda>c. is_control c \<or> c = 60 \<or> c = 62 \<or> c = 38) text"

definition valid_account :: "rstr \<Rightarrow> bool" where
  "valid_account name \<longleftrightarrow> str_len name \<le> 32
     \<and> (case name of [] \<Rightarrow> False
        | c # cs \<Rightarrow> ((97 \<le> c \<and> c \<le> 122) \<or> c = 95) \<and> list_all (\<lambda>c. is_lower_digit_dash c \<or> c = 95) cs)"

datatype destination = DestNamed | DestMdns | DestAnyAddress

definition check_program :: "operator list \<Rightarrow> curated_error + rstr \<times> operator list" where
  "check_program leaves =
     (case leaves of
        [] \<Rightarrow> Inl NotUsrProgram
      | op # rest \<Rightarrow>
          if op_type op = lit ''simple'' \<and> op_operand op = lit ''process.path'' \<and> op_sensitive op \<and> usr_program (op_data op)
          then Inr (op_data op, rest) else Inl NotUsrProgram)"

definition check_destination :: "operator list \<Rightarrow> rstr \<Rightarrow> curated_error + destination \<times> operator list" where
  "check_destination rest program =
     (case rest of
        op # rest' \<Rightarrow>
          if op_operand op \<in> {lit ''dest.host'', lit ''dest.ip''}
          then if op_operand op = lit ''dest.host'' \<and> op_type op = lit ''simple'' \<and> \<not> op_sensitive op \<and> valid_host (op_data op)
               then Inr (DestNamed, rest')
               else if op_operand op = lit ''dest.ip'' \<and> op_type op = lit ''regexp'' \<and> op_data op = LOOPBACK_PATTERN
               then Inr (DestNamed, rest')
               else if op_operand op = lit ''dest.ip'' \<and> op_type op = lit ''regexp'' \<and> op_data op = MDNS_PATTERN
                       \<and> program = MDNS_PROGRAM
               then Inr (DestMdns, rest')
               else Inl BadDestination
          else if program \<noteq> DNS_PROGRAM then Inl OnlyResolverAnyAddress else Inr (DestAnyAddress, rest)
      | [] \<Rightarrow> if program \<noteq> DNS_PROGRAM then Inl OnlyResolverAnyAddress else Inr (DestAnyAddress, rest))"

definition check_sender :: "operator list \<Rightarrow> destination \<Rightarrow> curated_error + operator list" where
  "check_sender rest destination =
     (let unpinned = (if destination = DestAnyAddress then Inl SenderNeeded else Inr rest)
      in case rest of
           op # rest' \<Rightarrow>
             if op_operand op = lit ''user.id''
             then if op_type op = lit ''simple'' \<and> \<not> op_sensitive op \<and> canonical_uid (op_data op)
                     \<and> \<not> (destination = DestAnyAddress \<and> op_data op = [48])
                  then Inr rest' else Inl BadSender
             else unpinned
         | [] \<Rightarrow> unpinned)"

definition check_port :: "operator list \<Rightarrow> destination \<Rightarrow> curated_error + operator list" where
  "check_port rest destination =
     (case rest of
        [] \<Rightarrow> Inl BadPort
      | op # rest' \<Rightarrow>
          if op_type op = lit ''simple'' \<and> op_operand op = lit ''dest.port'' \<and> \<not> op_sensitive op
             \<and> list_all is_ascii_digit (op_data op)
             \<and> (case parse_unsigned 65535 (op_data op) of
                  None \<Rightarrow> False
                | Some port \<Rightarrow> port \<noteq> 0
                    \<and> (case destination of DestNamed \<Rightarrow> True | DestMdns \<Rightarrow> port = MDNS_PORT | DestAnyAddress \<Rightarrow> port = DNS_PORT))
             \<and> hd (op_data op) \<noteq> 48
          then Inr rest' else Inl BadPort)"

definition allowed_protocols :: "destination \<Rightarrow> curated_protocol list" where
  "allowed_protocols destination =
     (case destination of DestNamed \<Rightarrow> [ProtoTcp, ProtoUdp] | DestMdns \<Rightarrow> [ProtoUdp] | DestAnyAddress \<Rightarrow> [ProtoTcpAndUdp])"

definition check_protocol :: "operator list \<Rightarrow> destination \<Rightarrow> curated_error + operator list" where
  "check_protocol rest destination =
     (case rest of
        [] \<Rightarrow> Inl BadProtocol
      | op # rest' \<Rightarrow>
          if op_type op = lit ''regexp'' \<and> op_operand op = lit ''protocol'' \<and> \<not> op_sensitive op
             \<and> list_ex (\<lambda>p. op_data op = protocol_pattern p) (allowed_protocols destination)
          then Inr rest' else Inl BadProtocol)"

definition check_leaves :: "operator list \<Rightarrow> curated_error + unit" where
  "check_leaves leaves =
     (case check_program leaves of Inl e \<Rightarrow> Inl e | Inr (program, rest) \<Rightarrow>
     (case check_destination rest program of Inl e \<Rightarrow> Inl e | Inr (destination, rest) \<Rightarrow>
     (case check_sender rest destination of Inl e \<Rightarrow> Inl e | Inr rest \<Rightarrow>
     (case check_port rest destination of Inl e \<Rightarrow> Inl e | Inr rest \<Rightarrow>
     (case check_protocol rest destination of Inl e \<Rightarrow> Inl e | Inr rest \<Rightarrow>
        if rest \<noteq> [] \<or> list_ex (\<lambda>op. op_list op \<noteq> []) leaves then Inl OtherConditions else Inr ())))))"

definition strip_curated :: "rstr \<Rightarrow> rstr option" where
  "strip_curated name =
     (if prefix CURATED_DEFAULT_RULE_NAME_PREFIX name
      then Some (drop (length CURATED_DEFAULT_RULE_NAME_PREFIX) name) else None)"

definition check_curated_rule :: "regex_lib \<Rightarrow> rule \<Rightarrow> curated_error + unit" where
  "check_curated_rule lib r =
     (case strip_curated (r_name r) of
        None \<Rightarrow> Inl BadCuratedName
      | Some ident \<Rightarrow>
          if \<not> valid_id ident then Inl BadCuratedName
          else if r_action r \<noteq> lit ''allow'' \<or> r_duration r \<noteq> lit ''always'' \<or> r_precedence r then Inl NotAlwaysAllow
          else if r_description r \<noteq> DESCRIPTION then Inl BadDescription
          else case r_operator r of
                 None \<Rightarrow> Inl NoConditions
               | Some op \<Rightarrow>
                   if op_type op \<noteq> lit ''list'' \<or> \<not> (op_operand op = [] \<or> op_operand op = lit ''list'') then Inl NotOneList
                   else case check_leaves (op_list op) of
                          Inl e \<Rightarrow> Inl e
                        | Inr _ \<Rightarrow>
                            if validate_user_rule lib (r\<lparr> r_name := lit ''curated-check-'' @ ident \<rparr>) Editor = Inr ()
                            then Inr () else Inl FailsEditorChecks)"

definition destinations_of :: "curated_entry \<Rightarrow> nat" where
  "destinations_of e =
     of_bool (ce_host e \<noteq> None) + of_bool (ce_loopback e) + of_bool (ce_any_address e) + of_bool (ce_multicast_dns e)"

definition entry_check :: "regex_lib \<Rightarrow> curated_entry \<Rightarrow> curated_error + unit" where
  "entry_check lib e =
     (if \<not> valid_id (ce_id e) then Inl BadEntryId
      else if \<not> usr_program (ce_path e) then Inl BadEntryPath
      else if (case ce_host e of Some host \<Rightarrow> \<not> valid_host host | None \<Rightarrow> False) then Inl BadEntryHost
      else if destinations_of e \<noteq> 1 then Inl BadDestinations
      else if \<not> valid_id (ce_group e) then Inl BadEntryGroup
      else if ce_port e = 0 then Inl NoPort
      else if \<not> plain_text (ce_why e) \<or> \<not> plain_text (ce_evidence e) then Inl BadText
      else if entry_account e = None \<and> ce_any_address e then Inl AnyAddressNeedsAccount
      else if (case entry_account e of Some name \<Rightarrow> \<not> valid_account name | None \<Rightarrow> False) then Inl BadAccount
      else check_curated_rule lib (rule_as e (Some 1)))"

fun check_entries :: "regex_lib \<Rightarrow> rstr list \<Rightarrow> curated_entry list \<Rightarrow> curated_error + unit" where
  "check_entries lib seen [] = Inr ()"
| "check_entries lib seen (e # es) =
     (case entry_check lib e of
        Inl err \<Rightarrow> Inl err
      | Inr _ \<Rightarrow> if ce_id e \<in> set seen then Inl SharedId else check_entries lib (ce_id e # seen) es)"

fun check_group_list :: "curated_entry list \<Rightarrow> rstr list \<Rightarrow> curated_group list \<Rightarrow> curated_error + unit" where
  "check_group_list es seen [] = Inr ()"
| "check_group_list es seen (g # gs) =
     (if \<not> valid_id (cg_id g) \<or> \<not> plain_text (cg_title g) \<or> \<not> plain_text (cg_description g) then Inl BadGroup
      else if cg_id g \<in> set seen then Inl SharedGroupId
      else if \<not> list_ex (\<lambda>e. ce_group e = cg_id g) es then Inl EmptyGroup
      else check_group_list es (cg_id g # seen) gs)"

fun check_memberships :: "data_file \<Rightarrow> curated_entry list \<Rightarrow> curated_error + unit" where
  "check_memberships f [] = Inr ()"
| "check_memberships f (e # es) =
     (if \<not> list_ex (\<lambda>g. cg_id g = ce_group e) (df_groups f) then Inl UndeclaredGroup
      else if broad e \<and> length (filter (\<lambda>x. ce_group x = ce_group e) (df_entries f)) \<noteq> 1 then Inl BroadSharesGroup
      else check_memberships f es)"

definition check_groups :: "data_file \<Rightarrow> curated_error + unit" where
  "check_groups f =
     (case check_group_list (df_entries f) [] (df_groups f) of
        Inl e \<Rightarrow> Inl e | Inr _ \<Rightarrow> check_memberships f (df_entries f))"

definition parse_file :: "regex_lib \<Rightarrow> data_file \<Rightarrow> curated_error + data_file" where
  "parse_file lib f =
     (if df_version f \<noteq> 1 then Inl UnknownVersion
      else case check_entries lib [] (df_entries f) of
             Inl e \<Rightarrow> Inl e
           | Inr _ \<Rightarrow> (case check_groups f of Inl e \<Rightarrow> Inl e | Inr _ \<Rightarrow> Inr f))"

text \<open>\<open>entries()\<close>: a file that is not valid offers nothing.\<close>

definition curated_entries :: "regex_lib \<Rightarrow> data_file \<Rightarrow> curated_entry list" where
  "curated_entries lib f = (case parse_file lib f of Inr f \<Rightarrow> df_entries f | Inl _ \<Rightarrow> [])"

definition entry_for_rule_name :: "curated_entry list \<Rightarrow> rstr \<Rightarrow> curated_entry option" where
  "entry_for_rule_name es name = find (\<lambda>e. entry_rule_name e = name) es"

section \<open>Canonical form (canonical.rs)\<close>

datatype canonical_leaf = CanonicalLeaf
  (cl_kind: rstr) (cl_operand: rstr) (cl_data: rstr) (cl_sensitive: bool) (cl_list: "canonical_leaf list")

record canonical_rule =
  cr_name :: rstr
  cr_action :: rstr
  cr_duration :: rstr
  cr_description :: rstr
  cr_precedence :: bool
  cr_nolog :: bool
  cr_operator :: "canonical_leaf option"

fun canonical_leaf_of :: "regex_lib \<Rightarrow> operator \<Rightarrow> canonical_leaf" where
  "canonical_leaf_of lib (Operator ty operand data sensitive members) =
     (if ty = lit ''list''
      then CanonicalLeaf (lit ''list'') (lit ''list'') [] False (map (canonical_leaf_of lib) members)
      else CanonicalLeaf ty operand (if ty = lit ''regexp'' \<and> \<not> sensitive then rx_lowercase lib data else data)
             sensitive (map (canonical_leaf_of lib) members))"

definition canonical :: "regex_lib \<Rightarrow> rule \<Rightarrow> canonical_rule" where
  "canonical lib r =
     \<lparr> cr_name = r_name r, cr_action = r_action r, cr_duration = r_duration r, cr_description = r_description r,
       cr_precedence = r_precedence r, cr_nolog = r_nolog r,
       cr_operator = map_option (canonical_leaf_of lib) (r_operator r) \<rparr>"

fun to_operator :: "canonical_leaf \<Rightarrow> operator" where
  "to_operator (CanonicalLeaf kind operand data sensitive members) =
     Operator kind operand data sensitive (map to_operator members)"

definition to_rule :: "canonical_rule \<Rightarrow> rule" where
  "to_rule c =
     \<lparr> r_created = 0, r_name = cr_name c, r_description = cr_description c, r_enabled = True,
       r_precedence = cr_precedence c, r_nolog = cr_nolog c, r_action = cr_action c, r_duration = cr_duration c,
       r_operator = map_option to_operator (cr_operator c) \<rparr>"

definition is_unedited :: "regex_lib \<Rightarrow> curated_entry option \<Rightarrow> canonical_rule option \<Rightarrow> rule \<Rightarrow> bool" where
  "is_unedited lib entry recorded daemon_rule =
     (let theirs = canonical lib daemon_rule
      in case entry of
           Some e \<Rightarrow> (case rule_matching e daemon_rule of Some ours \<Rightarrow> theirs = canonical lib ours | None \<Rightarrow> False)
         | None \<Rightarrow> (case recorded of Some c \<Rightarrow> theirs = c | None \<Rightarrow> False))"

definition is_legacy :: "regex_lib \<Rightarrow> curated_entry \<Rightarrow> rule \<Rightarrow> bool" where
  "is_legacy lib e daemon_rule =
     (case legacy_rule e of Some old \<Rightarrow> canonical lib daemon_rule = canonical lib old | None \<Rightarrow> False)"

definition curated_toggleable :: "regex_lib \<Rightarrow> curated_entry list \<Rightarrow> rule \<Rightarrow> bool" where
  "curated_toggleable lib es r =
     (case entry_for_rule_name es (r_name r) of
        Some e \<Rightarrow> is_unedited lib (Some e) None r \<or> (r_enabled r \<and> is_legacy lib e r)
      | None \<Rightarrow> False)"

end
