(* ===== verification/Rule_Policy_Props.thy ===== *)
theory Rule_Policy_Props
  imports Rule_Policy Verdict
begin

text \<open>
  Properties of the rule policy: the layers of checks agree with each other, and what the
  bridge itself builds passes them.
\<close>

section \<open>Layers of checks\<close>

lemma when_problem_Nil [simp]: "when_problem b p x = [] \<longleftrightarrow> \<not> b"
  by (simp add: when_problem_def)

lemma accepted_operator:
  assumes "validate_user_rule lib r profile = Inr ()"
  obtains op where "r_operator r = Some op" "validate_operator lib op = Inr ()"
    "check_import_operator lib op profile = []"
  using assms
  by (auto simp: validate_user_rule_def check_rule_def Let_def split: if_splits option.splits sum.splits)

lemma accepted_leaves:
  assumes "check_import_operator lib op profile = []"
  shows "\<exists>(path, leaf) \<in> set (leaves_of op). narrows lib leaf"
    and "(path, leaf) \<in> set (leaves_of op) \<Longrightarrow> check_import_leaf path leaf = []"
    and "(path, leaf) \<in> set (leaves_of op) \<Longrightarrow> profile \<noteq> Import \<Longrightarrow> check_editor_leaf path leaf = []"
    and "(path, leaf) \<in> set (leaves_of op) \<Longrightarrow> profile = ProfileRule \<Longrightarrow> check_profile_leaf path leaf = []"
  using assms by (auto simp: check_import_operator_def list_ex_iff)

lemma accepted_duration:
  "validate_user_rule lib r profile = Inr () \<Longrightarrow> profile \<noteq> Import \<Longrightarrow> editor_duration (r_duration r)"
  by (cases profile)
     (auto simp: validate_user_rule_def check_rule_def check_profile_fields_def editor_duration_def Let_def split: if_splits)

lemma leaf_value_present:
  assumes "check_import_leaf path leaf = []" "check_editor_leaf path leaf = []"
    and "op_operand leaf \<noteq> lit ''true''" "op_type leaf = lit ''simple''"
  shows "op_data leaf \<noteq> []"
  using assms by (auto simp: check_import_leaf_def check_editor_leaf_def Let_def split: if_splits)

text \<open>
  A rule the editor accepts, or a profile installs, can be turned on: the check on
  turning a rule on finds nothing in it. It has conditions, one of them narrows it and is
  not a process hash, none has an empty value, and its duration is one the daemon parses.
\<close>

theorem accepted_rules_can_be_enabled:
  assumes "validate_user_rule lib r profile = Inr ()" "profile \<noteq> Import"
  shows "enable_problems lib r = []"
proof -
  obtain op where op: "r_operator r = Some op" "check_import_operator lib op profile = []"
    using accepted_operator[OF assms(1)] by blast
  note leaves = accepted_leaves[OF op(2)]
  have hash: "\<not> prefix (lit ''process.hash.'') (op_operand leaf)" if "(path, leaf) \<in> set (leaves_of op)" for path leaf
    using leaves(2)[OF that] by (simp add: check_import_leaf_def Let_def)
  have "list_ex (\<lambda>(_, leaf). narrows lib leaf \<and> \<not> prefix (lit ''process.hash.'') (op_operand leaf)) (leaves_of op)"
    using leaves(1) hash by (fastforce simp: list_ex_iff)
  moreover have "op_data leaf \<noteq> []"
    if "(path, leaf) \<in> set (leaves_of op)" "op_operand leaf \<noteq> lit ''true''" "op_type leaf = lit ''simple''" for path leaf
    using leaf_value_present[OF leaves(2)[OF that(1)] leaves(3)[OF that(1) assms(2)] that(2,3)] .
  ultimately show ?thesis
    using accepted_duration[OF assms] by (auto simp: enable_problems_def op(1))
qed

definition no_regex :: regex_lib where
  "no_regex = \<lparr> rx_parse = (\<lambda>_. None), rx_translate = (\<lambda>_ _. None), rx_build = (\<lambda>_ _. Inl SyntaxError), rx_lowercase = id \<rparr>"

definition example_edited :: rule where
  "example_edited = \<lparr> r_created = 0, r_name = lit ''mail'', r_description = [], r_enabled = True,
     r_precedence = False, r_nolog = False, r_action = lit ''allow'', r_duration = lit ''1h30m'',
     r_operator = Some (Operator (lit ''list'') (lit ''list'') [] False
       [Operator (lit ''simple'') (lit ''process.path'') (lit ''/usr/bin/mail'') True [],
        Operator (lit ''network'') (lit ''dest.network'') (lit ''10.0.0.0/8'') False []]) \<rparr>"

theorem accepted_rules_can_be_enabled_witness: "enable_problems no_regex example_edited = []"
proof -
  have "validate_user_rule no_regex example_edited Editor = Inr ()" by code_simp
  from accepted_rules_can_be_enabled[OF this] show ?thesis by simp
qed

section \<open>Answers pass the policy\<close>

text \<open>
  What the regular-expression crates document of the pattern a domain scope gives, for a
  lower-case domain name: escaping at most doubles the text, lower-casing changes nothing,
  and the pattern is read as an anchored sequence of a repeated group and literals, which
  matches no empty text and compiles.
\<close>

definition domain_text :: "rstr \<Rightarrow> bool" where
  "domain_text d \<longleftrightarrow> d \<noteq> [] \<and> str_len d \<le> 253
     \<and> (\<forall>c \<in> set d. c \<in> {45, 46, 95} \<or> is_ascii_digit c \<or> (97 \<le> c \<and> c \<le> 122))"

definition domain_pattern :: "(rstr \<Rightarrow> rstr) \<Rightarrow> rstr \<Rightarrow> rstr" where
  "domain_pattern regex_escape d = subdomains_pattern @ regex_escape d @ lit ''$''"

definition domain_tree :: "literal_kind list \<Rightarrow> ast" where
  "domain_tree ks = AstConcat (
     [AstAssertion StartLine,
      AstRepetition ZeroOrMore (AstGroup (NonCapturing [])
        (AstConcat [AstRepetition OneOrMore (AstClassBracketed (ClassItem (ItemLiteral Verbatim))), AstLiteral Meta]))]
     @ map AstLiteral ks @ [AstAssertion EndLine])"

definition reads_domain_patterns :: "regex_lib \<Rightarrow> (rstr \<Rightarrow> rstr) \<Rightarrow> bool" where
  "reads_domain_patterns lib regex_escape \<longleftrightarrow> (\<forall>d. domain_text d \<longrightarrow>
     str_len (regex_escape d) \<le> 2 * str_len d
     \<and> rx_lowercase lib (domain_pattern regex_escape d) = domain_pattern regex_escape d
     \<and> (\<exists>ks no_look. set ks \<subseteq> {Verbatim, Meta}
          \<and> rx_parse lib (domain_pattern regex_escape d) = Some (domain_tree ks)
          \<and> rx_translate lib (domain_pattern regex_escape d) (domain_tree ks) = Some (False, no_look))
     \<and> (\<exists>is_match. rx_build lib SIZE_LIMIT (domain_pattern regex_escape d) = Inr is_match))"

lemma domain_tree_checks:
  assumes "set ks \<subseteq> {Verbatim, Meta}"
  shows "case_fold_check (domain_tree ks) = None" "dialect_check (domain_tree ks) = None"
proof -
  have "first_error (map (visit case_fold_pre case_fold_item None) (map AstLiteral ks)) = None"
    "first_error (map (visit dialect_pre dialect_item (Some ClassSetOperation)) (map AstLiteral ks)) = None"
    using assms by (auto simp: first_error_None check_literal_def)
  then show "case_fold_check (domain_tree ks) = None" "dialect_check (domain_tree ks) = None"
    by (auto simp: case_fold_check_def dialect_check_def domain_tree_def first_error_None check_flags_def
        check_literal_def)
qed

lemma domain_regexp_valid:
  assumes "reads_domain_patterns lib regex_escape" "domain_text d"
  shows "validate_regexp lib (domain_pattern regex_escape d) False = Inr ()"
proof -
  obtain ks no_look is_match where lib: "set ks \<subseteq> {Verbatim, Meta}"
    "rx_lowercase lib (domain_pattern regex_escape d) = domain_pattern regex_escape d"
    "rx_parse lib (domain_pattern regex_escape d) = Some (domain_tree ks)"
    "rx_translate lib (domain_pattern regex_escape d) (domain_tree ks) = Some (False, no_look)"
    "rx_build lib SIZE_LIMIT (domain_pattern regex_escape d) = Inr is_match"
    using assms by (auto simp: reads_domain_patterns_def)
  moreover have "domain_pattern regex_escape d \<noteq> []" by (simp add: domain_pattern_def)
  ultimately show ?thesis
    by (simp add: validate_regexp_def validate_effective_def domain_tree_checks)
qed

lemma str_len_subdomains_pattern: "str_len subdomains_pattern = 13" "str_len (lit ''$'') = 1"
  by code_simp+

lemma answer_operands:
  "operand_kind (lit ''dest.ip'') = Inr KindText" "operand_kind (lit ''dest.host'') = Inr KindText"
  "operand_kind (lit ''process.path'') = Inr KindText"
  "str_len (lit ''dest.ip'') \<le> MAX_RULE_FIELD_BYTES" "str_len (lit ''dest.host'') \<le> MAX_RULE_FIELD_BYTES"
  "str_len (lit ''process.path'') \<le> MAX_RULE_FIELD_BYTES"
  "lit ''dest.ip'' \<notin> set HASH_OPERANDS" "lit ''dest.host'' \<notin> set HASH_OPERANDS"
  "lit ''process.path'' \<notin> set HASH_OPERANDS" "MAX_RULE_FIELD_BYTES = 16384"
  by code_simp+

lemma host_leaf_valid:
  assumes "str_len (c_dst_host conn) \<le> MAX_RULE_FIELD_BYTES" "str_len (c_dst_ip conn) \<le> MAX_RULE_FIELD_BYTES"
  shows "validate_leaf lib (this_host_operator conn) = Inr ()"
  using assms answer_operands
  by (auto simp: this_host_operator_def simple_operator_def validate_leaf_def Let_def)

lemma path_leaf_valid:
  "str_len (c_process_path conn) \<le> MAX_RULE_FIELD_BYTES \<Longrightarrow> validate_leaf lib (process_path_operator conn) = Inr ()"
  using answer_operands by (auto simp: process_path_operator_def validate_leaf_def Let_def)

lemma pattern_leaf_valid:
  assumes "reads_domain_patterns lib regex_escape" "domain_text d"
  shows "validate_leaf lib (Operator (lit ''regexp'') (lit ''dest.host'') (domain_pattern regex_escape d) False []) = Inr ()"
proof -
  have "str_len (regex_escape d) \<le> 2 * 253"
    using assms by (auto simp: reads_domain_patterns_def domain_text_def)
  then have "str_len (domain_pattern regex_escape d) \<le> MAX_RULE_FIELD_BYTES"
    by (simp add: domain_pattern_def str_len_subdomains_pattern answer_operands(10))
  then show ?thesis
    using answer_operands domain_regexp_valid[OF assms] by (auto simp: validate_leaf_def Let_def)
qed

lemma split_on_tail_parts:
  assumes "split_on c s = p # q # qs"
  shows "s = p @ c # join_with c (q # qs)"
  using join_split[of c s] by (simp add: assms)

lemma hostname_chars:
  assumes "is_valid_hostname_shape (to_ascii_lowercase h)" "c \<in> set (to_ascii_lowercase h)"
  shows "c \<in> {45, 46, 95} \<or> is_ascii_digit c \<or> (97 \<le> c \<and> c \<le> 122)"
proof -
  let ?s = "to_ascii_lowercase h"
  have parts: "list_all (\<lambda>label. list_all (\<lambda>c. is_ascii_alphanumeric c \<or> c = 45 \<or> c = 95) label) (split_on 46 ?s)"
    using assms(1) by (auto simp: is_valid_hostname_shape_def list_all_iff split: if_splits)
  have "\<forall>x \<in> set s. x = 46 \<or> (\<exists>label \<in> set (split_on 46 s). x \<in> set label)" for s :: rstr
  proof (induction s)
    case (Cons x xs)
    obtain p ps where "split_on 46 xs = p # ps" by (meson neq_Nil_conv split_on_not_Nil)
    with Cons show ?case by auto
  qed simp
  then have "c = 46 \<or> is_ascii_alphanumeric c \<or> c = 45 \<or> c = 95"
    using assms(2) parts by (fastforce simp: list_all_iff)
  moreover have "\<not> (65 \<le> c \<and> c \<le> 90)"
    using assms(2) by (auto simp: to_ascii_lowercase_def ascii_lower_def)
  ultimately show ?thesis by (auto simp: is_ascii_alphanumeric_def)
qed

lemma parent_domain_text:
  assumes shape: "is_valid_hostname_shape (to_ascii_lowercase h)"
    and split: "to_ascii_lowercase h = pre @ 46 # root"
  shows "domain_text (join_with 46 (tl (split_on 46 (to_ascii_lowercase h))))"
proof -
  let ?s = "to_ascii_lowercase h"
  have "split_on 46 ?s = split_on 46 pre @ split_on 46 root"
    by (simp add: split split_on_append)
  then obtain p q qs where parts: "split_on 46 ?s = p # q # qs"
    by (metis append_Cons append_Nil neq_Nil_conv split_on_not_Nil)
  have tail: "?s = p @ 46 # join_with 46 (q # qs)" using split_on_tail_parts[OF parts] .
  have shape': "last ?s \<noteq> 46" "str_len ?s \<le> 253"
    using shape by (auto simp: is_valid_hostname_shape_def split: if_splits)
  have "join_with 46 (q # qs) \<noteq> []" using shape'(1) unfolding tail by (auto split: if_splits)
  moreover have "str_len (join_with 46 (q # qs)) \<le> 253"
    using shape'(2) unfolding tail by simp
  moreover have "set (join_with 46 (q # qs)) \<subseteq> set ?s" unfolding tail by auto
  ultimately show ?thesis
    using hostname_chars[OF shape] unfolding domain_text_def parts list.sel by blast
qed

lemma domain_operator_valid:
  assumes "reads_domain_patterns lib regex_escape" "dns_prefix_spec registrable dns_prefix"
    and "str_len (c_dst_host conn) \<le> MAX_RULE_FIELD_BYTES" "str_len (c_dst_ip conn) \<le> MAX_RULE_FIELD_BYTES"
  shows "validate_leaf lib (fst (any_host_on_domain_operator_checked dns_prefix regex_escape conn)) = Inr ()"
proof (cases "snd (any_host_on_domain_operator_checked dns_prefix regex_escape conn)")
  case (Some why)
  then have "fst (any_host_on_domain_operator_checked dns_prefix regex_escape conn) = this_host_operator conn"
    by (auto simp: any_host_on_domain_operator_checked_def Let_def split: if_splits option.splits)
  then show ?thesis using host_leaf_valid assms(3,4) by simp
next
  case None
  let ?host = "to_ascii_lowercase (c_dst_host conn)"
  from None obtain pre where pre: "is_valid_hostname_shape ?host" "dns_prefix ?host = Some (Some pre)"
    "fst (any_host_on_domain_operator_checked dns_prefix regex_escape conn) =
       Operator (lit ''regexp'') (lit ''dest.host'') (domain_pattern regex_escape (join_with 46 (tl (split_on 46 ?host)))) False []"
    by (auto simp: any_host_on_domain_operator_checked_def domain_pattern_def Let_def split: if_splits option.splits)
  moreover obtain root where "?host = pre @ 46 # root"
    using assms(2) pre(2) by (auto simp: dns_prefix_spec_def)
  ultimately show ?thesis
    using pattern_leaf_valid[OF assms(1) parent_domain_text] by simp
qed

lemma bound_operator_valid:
  assumes host: "validate_leaf lib host = Inr ()" "op_operand host \<notin> set HASH_OPERANDS" "op_type host \<noteq> lit ''list''"
    and path: "str_len (c_process_path conn) \<le> MAX_RULE_FIELD_BYTES"
  shows "validate_operator lib (bind_to_process host conn) = Inr ()"
proof -
  have "op_operand (process_path_operator conn) = lit ''process.path''" by (simp add: process_path_operator_def)
  then show ?thesis
    using host path_leaf_valid[OF path, of lib] answer_operands(9)
    by (auto simp: bind_to_process_def validate_operator_def validate_list_def MAX_OPERATOR_LIST_LEN_def Let_def)
qed

lemma answer_leaf_shape:
  "op_operand (this_host_operator conn) \<in> {lit ''dest.ip'', lit ''dest.host''}"
  "op_type (this_host_operator conn) = lit ''simple''"
  "op_operand (fst (any_host_on_domain_operator_checked dns_prefix regex_escape conn)) \<in> {lit ''dest.ip'', lit ''dest.host''}"
  "op_type (fst (any_host_on_domain_operator_checked dns_prefix regex_escape conn)) \<in> {lit ''simple'', lit ''regexp''}"
  by (auto simp: this_host_operator_def simple_operator_def any_host_on_domain_operator_checked_def Let_def
      split: if_splits option.splits)

text \<open>
  C32. Every rule the bridge makes from an answer is one it lets the user edit afterwards:
  its name is acceptable and not reserved and its conditions pass the operator checks,
  whatever the scope, so no answer leaves a row behind that the Rules page shows read-only.
  The fields come from the daemon within the field limit; the regular-expression crates
  read the domain pattern as documented.
\<close>

theorem answers_pass_policy:
  assumes "sha256_shape sha" "reads_domain_patterns lib regex_escape" "dns_prefix_spec registrable dns_prefix"
    and "str_len (c_dst_host conn) \<le> MAX_RULE_FIELD_BYTES" "str_len (c_dst_ip conn) \<le> MAX_RULE_FIELD_BYTES"
    and "str_len (c_process_path conn) \<le> MAX_RULE_FIELD_BYTES"
    and made: "verdict_to_rule sha dns_prefix regex_escape verdict duration scope conn now_secs = Inr r"
  shows "read_only_reason lib curated r = None \<and> deletable r"
proof -
  have r: "r = build_rule sha dns_prefix regex_escape verdict duration scope conn now_secs"
    using made by (simp add: verdict_to_rule_def split: if_splits)
  have host: "validate_operator lib (bind_to_process (this_host_operator conn) conn) = Inr ()"
    using bound_operator_valid[OF host_leaf_valid[OF assms(4,5)] _ _ assms(6)] answer_leaf_shape(1,2)[of conn]
      answer_operands(7,8) by auto
  have domain: "validate_operator lib (bind_to_process
      (fst (any_host_on_domain_operator_checked dns_prefix regex_escape conn)) conn) = Inr ()"
    using bound_operator_valid[OF domain_operator_valid[OF assms(2,3,4,5)] _ _ assms(6)]
      answer_leaf_shape(3,4)[of dns_prefix regex_escape conn] answer_operands(7,8) by auto
  have any: "validate_operator lib (fst (any_host_operator_checked conn)) = Inr ()"
    using host_leaf_valid[OF assms(4,5), of lib] path_leaf_valid[OF assms(6), of lib] answer_leaf_shape(1,2)[of conn]
      answer_operands(7,8,9)
    by (auto simp: any_host_operator_checked_def validate_operator_def process_path_operator_def)
  have "validate_operator lib (fst (build_operator_checked dns_prefix regex_escape scope conn)) = Inr ()"
    using host domain any by (cases scope) (simp_all add: case_prod_beta)
  moreover have "validate_rule_name (r_name r) = Inr ()"
    using answer_name_valid[OF assms(1)] by (simp add: r build_rule_def Let_def)
  moreover have "\<not> is_reserved_name (r_name r)"
    using answer_name_not_reserved by (simp add: r build_rule_def Let_def)
  moreover have "r_operator r = Some (fst (build_operator_checked dns_prefix regex_escape scope conn))"
    by (simp add: r build_rule_def Let_def)
  moreover have "PACKAGED_FETCH_RULE_NAME = r_name r \<Longrightarrow> is_reserved_name (r_name r)"
    by (drule sym) (simp, code_simp)
  ultimately show ?thesis
    by (auto simp: read_only_reason_def deletable_def is_reserved_name_def)
qed

definition domain_regex :: regex_lib where
  "domain_regex = \<lparr> rx_parse = (\<lambda>_. Some (domain_tree [Verbatim])), rx_translate = (\<lambda>_ _. Some (False, False)),
     rx_build = (\<lambda>_ _. Inr (\<lambda>_. False)), rx_lowercase = to_ascii_lowercase \<rparr>"

lemma domain_regex_reads: "reads_domain_patterns domain_regex id"
proof -
  have "to_ascii_lowercase subdomains_pattern = subdomains_pattern \<and> to_ascii_lowercase (lit ''$'') = lit ''$''"
    by code_simp
  moreover have "to_ascii_lowercase d = d" if "domain_text d" for d
    using that by (auto simp: domain_text_def to_ascii_lowercase_def ascii_lower_def is_ascii_digit_def intro!: map_idI)
  ultimately have "to_ascii_lowercase (domain_pattern id d) = domain_pattern id d" if "domain_text d" for d
    using that by (simp add: domain_pattern_def to_ascii_lowercase_def)
  then show ?thesis
    by (auto simp: reads_domain_patterns_def domain_regex_def intro!: exI[of _ "[Verbatim]"] exI[of _ False])
qed

theorem answers_pass_policy_witness:
  "\<exists>r. verdict_to_rule example_sha example_psl id Deny Always AnyHostOnDomain example_conn 0 = Inr r
     \<and> read_only_reason domain_regex (\<lambda>_. False) r = None"
proof -
  have spec: "dns_prefix_spec (\<lambda>r. r = lit ''example.com'') example_psl"
    by (auto simp: dns_prefix_spec_def example_psl_def lit_def split: if_splits)
  have shape: "sha256_shape example_sha" by (rule example_sha_shape)
  have lens: "str_len (c_dst_host example_conn) \<le> MAX_RULE_FIELD_BYTES"
    "str_len (c_dst_ip example_conn) \<le> MAX_RULE_FIELD_BYTES"
    "str_len (c_process_path example_conn) \<le> MAX_RULE_FIELD_BYTES" by code_simp+
  have "is_bindable_process_path (lit ''/usr/bin/curl'')" by code_simp
  then obtain r where "verdict_to_rule example_sha example_psl id Deny Always AnyHostOnDomain example_conn 0 = Inr r"
    by (simp add: verdict_to_rule_def bindable_process_path_def example_conn_def Let_def)
  then show ?thesis
    using answers_pass_policy[OF shape domain_regex_reads spec lens] by blast
qed

end
