(* ===== verification/Curated_Props.thy ===== *)
theory Curated_Props
  imports Curated Rule_Policy_Props
begin

text \<open>
  Properties of the curated defaults: what the allowlist lets through, whatever the data
  file says, and that the check of an entry at one stand-in user ID covers every user ID it
  may be installed at.
\<close>

section \<open>User IDs\<close>

lemma canonical_uid_iff: "canonical_uid s \<longleftrightarrow> (\<exists>uid \<le> U32_MAX. s = decimal uid)"
proof
  assume "canonical_uid s"
  then have s: "s \<noteq> []" "list_all is_ascii_digit s" "s = [48] \<or> hd s \<noteq> 48" "parse_unsigned U32_MAX s \<noteq> None"
    by (auto simp: canonical_uid_def)
  then have "decimal_value s \<le> U32_MAX" using parse_unsigned_digits[OF s(2)] by auto
  then show "\<exists>uid \<le> U32_MAX. s = decimal uid" using decimal_of_value[OF s(2,1,3)] by metis
next
  assume "\<exists>uid \<le> U32_MAX. s = decimal uid"
  then obtain uid where "uid \<le> U32_MAX" "s = decimal uid" by blast
  moreover have "decimal uid = [48] \<or> hd (decimal uid) \<noteq> 48"
    using hd_decimal[of uid] by (cases "uid = 0") (auto simp: decimal.simps[of 0])
  ultimately show "canonical_uid s" by (auto simp: canonical_uid_def digits_decimal parse_decimal)
qed

lemma decimal_zero: "decimal n = [48] \<longleftrightarrow> n = 0"
  using decimal_inject[of n 0] by (simp add: decimal.simps[of 0])

lemma str_len_decimal_u32: "n \<le> U32_MAX \<Longrightarrow> str_len (decimal n) \<le> MAX_RULE_FIELD_BYTES"
proof -
  assume "n \<le> U32_MAX"
  then have "length (decimal n) \<le> 10" using length_decimal[of n 10] by (simp add: U32_MAX_def)
  moreover have "str_len (decimal n) = length (decimal n)"
    by (rule str_len_ascii) (use decimal_digits in \<open>fastforce simp: is_ascii_digit_def\<close>)
  ultimately show ?thesis by (simp add: answer_operands(10))
qed

section \<open>What the allowlist lets through\<close>

definition path_leaf :: "rstr \<Rightarrow> operator" where
  "path_leaf program = Operator (lit ''simple'') (lit ''process.path'') program True []"

definition uid_leaf :: "nat \<Rightarrow> operator" where
  "uid_leaf uid = Operator (lit ''simple'') (lit ''user.id'') (decimal uid) False []"

definition port_leaf :: "nat \<Rightarrow> operator" where
  "port_leaf port = Operator (lit ''simple'') (lit ''dest.port'') (decimal port) False []"

definition protocol_leaf :: "curated_protocol \<Rightarrow> operator" where
  "protocol_leaf p = Operator (lit ''regexp'') (lit ''protocol'') (protocol_pattern p) False []"

definition address_leaf :: "rstr \<Rightarrow> bool \<Rightarrow> operator" where
  "address_leaf pattern sensitive = Operator (lit ''regexp'') (lit ''dest.ip'') pattern sensitive []"

definition host_leaf :: "rstr \<Rightarrow> operator" where
  "host_leaf host = Operator (lit ''simple'') (lit ''dest.host'') host False []"

lemma uid_leaf_fields [simp]:
  "op_type (uid_leaf u) = lit ''simple''" "op_operand (uid_leaf u) = lit ''user.id''" "op_data (uid_leaf u) = decimal u"
  "\<not> op_sensitive (uid_leaf u)" "op_list (uid_leaf u) = []"
  by (simp_all add: uid_leaf_def)

text \<open>The conditions a curated rule may have: where it may go, who may send, on which port
  and transport.\<close>

inductive curated_conditions :: "operator list \<Rightarrow> bool" where
  one_host: "\<lbrakk>usr_program program; valid_host host; senders = [] \<or> (\<exists>uid \<le> U32_MAX. senders = [uid_leaf uid]);
      0 < port; port \<le> 65535; p \<in> {ProtoTcp, ProtoUdp}\<rbrakk> \<Longrightarrow>
    curated_conditions ([path_leaf program, host_leaf host] @ senders @ [port_leaf port, protocol_leaf p])"
| this_computer: "\<lbrakk>usr_program program; senders = [] \<or> (\<exists>uid \<le> U32_MAX. senders = [uid_leaf uid]);
      0 < port; port \<le> 65535; p \<in> {ProtoTcp, ProtoUdp}\<rbrakk> \<Longrightarrow>
    curated_conditions ([path_leaf program, address_leaf LOOPBACK_PATTERN b] @ senders @ [port_leaf port, protocol_leaf p])"
| multicast_dns: "senders = [] \<or> (\<exists>uid \<le> U32_MAX. senders = [uid_leaf uid]) \<Longrightarrow>
    curated_conditions ([path_leaf MDNS_PROGRAM, address_leaf MDNS_PATTERN b] @ senders @ [port_leaf 5353, protocol_leaf ProtoUdp])"
| resolver: "\<lbrakk>0 < uid; uid \<le> U32_MAX\<rbrakk> \<Longrightarrow>
    curated_conditions [path_leaf DNS_PROGRAM, uid_leaf uid, port_leaf 53, protocol_leaf ProtoTcpAndUdp]"

lemma operator_eq_iff:
  "op = Operator ty operand data b ms \<longleftrightarrow>
     op_type op = ty \<and> op_operand op = operand \<and> op_data op = data \<and> op_sensitive op = b \<and> op_list op = ms"
  by (cases op) auto

lemma check_program_Inr:
  assumes "check_program leaves = Inr (program, rest)" "\<forall>m \<in> set leaves. op_list m = []"
  shows "leaves = path_leaf program # rest" "usr_program program"
  using assms
  by (auto simp: check_program_def path_leaf_def operator_eq_iff split: list.splits if_splits)

lemma check_sender_Inr:
  assumes "check_sender rest destination = Inr rest'" "\<forall>m \<in> set rest. op_list m = []"
  obtains senders where "rest = senders @ rest'"
    "(senders = [] \<and> destination \<noteq> DestAnyAddress)
     \<or> (\<exists>uid \<le> U32_MAX. senders = [uid_leaf uid] \<and> (destination = DestAnyAddress \<longrightarrow> 0 < uid))"
proof (cases rest)
  case Nil
  then show ?thesis using assms that[of "[]"] by (auto simp: check_sender_def split: if_splits)
next
  case (Cons op ops)
  show ?thesis
  proof (cases "op_operand op = lit ''user.id''")
    case True
    then have ok: "op_type op = lit ''simple''" "\<not> op_sensitive op" "canonical_uid (op_data op)"
      "\<not> (destination = DestAnyAddress \<and> op_data op = [48])" "rest' = ops"
      using assms(1) Cons by (auto simp: check_sender_def split: if_splits)
    then obtain uid where uid: "uid \<le> U32_MAX" "op_data op = decimal uid" by (auto simp: canonical_uid_iff)
    have "op = uid_leaf uid" using assms(2) Cons ok True uid by (simp add: uid_leaf_def operator_eq_iff)
    then show ?thesis using that[of "[op]"] Cons ok uid by (auto simp: decimal_zero)
  next
    case False
    then show ?thesis using assms(1) Cons that[of "[]"] by (auto simp: check_sender_def Let_def split: if_splits)
  qed
qed

lemma check_port_Inr:
  assumes "check_port rest destination = Inr rest'" "\<forall>m \<in> set rest. op_list m = []"
  obtains port where "rest = port_leaf port # rest'" "0 < port" "port \<le> 65535"
    "destination = DestMdns \<longrightarrow> port = 5353" "destination = DestAnyAddress \<longrightarrow> port = 53"
proof -
  obtain op port where op: "rest = op # rest'" "op_type op = lit ''simple''" "op_operand op = lit ''dest.port''"
    "\<not> op_sensitive op" "list_all is_ascii_digit (op_data op)" "parse_unsigned 65535 (op_data op) = Some port"
    "port \<noteq> 0" "case destination of DestNamed \<Rightarrow> True | DestMdns \<Rightarrow> port = MDNS_PORT | DestAnyAddress \<Rightarrow> port = DNS_PORT"
    "hd (op_data op) \<noteq> 48"
    using assms(1) by (auto simp: check_port_def split: list.splits if_splits option.splits)
  then have "op_data op \<noteq> []" "port = decimal_value (op_data op)" "port \<le> 65535"
    using parse_unsigned_digits[OF op(5)] by auto
  then have "op_data op = decimal port" using decimal_of_value[OF op(5)] op(9) by simp
  then have "op = port_leaf port" using assms(2) op by (simp add: port_leaf_def operator_eq_iff)
  then show ?thesis using that op \<open>port \<le> 65535\<close> by (auto simp: MDNS_PORT_def DNS_PORT_def split: destination.splits)
qed

lemma check_protocol_Inr:
  assumes "check_protocol rest destination = Inr rest'" "\<forall>m \<in> set rest. op_list m = []"
  obtains p where "rest = protocol_leaf p # rest'" "p \<in> set (allowed_protocols destination)"
proof -
  obtain op p where op: "rest = op # rest'" "op_type op = lit ''regexp''" "op_operand op = lit ''protocol''"
    "\<not> op_sensitive op" "op_data op = protocol_pattern p" "p \<in> set (allowed_protocols destination)"
    using assms(1) by (auto simp: check_protocol_def list_ex_iff split: list.splits if_splits)
  then have "op = protocol_leaf p" using assms(2) by (simp add: protocol_leaf_def operator_eq_iff)
  then show ?thesis using that op by blast
qed

lemma check_destination_Inr:
  assumes "check_destination rest program = Inr (destination, rest')" "\<forall>m \<in> set rest. op_list m = []"
  shows "(destination = DestNamed \<and> ((\<exists>host. rest = host_leaf host # rest' \<and> valid_host host)
            \<or> (\<exists>b. rest = address_leaf LOOPBACK_PATTERN b # rest')))
    \<or> (destination = DestMdns \<and> program = MDNS_PROGRAM \<and> (\<exists>b. rest = address_leaf MDNS_PATTERN b # rest'))
    \<or> (destination = DestAnyAddress \<and> program = DNS_PROGRAM \<and> rest = rest')"
proof (cases rest)
  case Nil
  then show ?thesis using assms(1) by (auto simp: check_destination_def split: if_splits)
next
  case (Cons op ops)
  then show ?thesis
    using assms
    by (auto simp: check_destination_def host_leaf_def address_leaf_def operator_eq_iff split: if_splits)
qed

lemma check_leaves_conditions:
  assumes "check_leaves leaves = Inr ()"
  shows "curated_conditions leaves"
proof -
  from assms obtain program r1 destination r2 r3 r4 where steps:
    "check_program leaves = Inr (program, r1)" "check_destination r1 program = Inr (destination, r2)"
    "check_sender r2 destination = Inr r3" "check_port r3 destination = Inr r4" "check_protocol r4 destination = Inr []"
    "\<forall>m \<in> set leaves. op_list m = []"
    by (auto simp: check_leaves_def list_ex_iff split: sum.splits if_splits)
  note program = check_program_Inr[OF steps(1,6)]
  have r1: "\<forall>m \<in> set r1. op_list m = []" using steps(6) program(1) by auto
  note dest = check_destination_Inr[OF steps(2) r1]
  have r2: "\<forall>m \<in> set r2. op_list m = []" using r1 dest by auto
  obtain senders where senders: "r2 = senders @ r3"
    "(senders = [] \<and> destination \<noteq> DestAnyAddress)
     \<or> (\<exists>uid \<le> U32_MAX. senders = [uid_leaf uid] \<and> (destination = DestAnyAddress \<longrightarrow> 0 < uid))"
    using check_sender_Inr[OF steps(3) r2] by blast
  have r3: "\<forall>m \<in> set r3. op_list m = []" using r2 senders(1) by auto
  obtain port where port: "r3 = port_leaf port # r4" "0 < port" "port \<le> 65535"
    "destination = DestMdns \<longrightarrow> port = 5353" "destination = DestAnyAddress \<longrightarrow> port = 53"
    using check_port_Inr[OF steps(4) r3] by blast
  have r4: "\<forall>m \<in> set r4. op_list m = []" using r3 port(1) by auto
  obtain p where p: "r4 = [protocol_leaf p]" "p \<in> set (allowed_protocols destination)"
    using check_protocol_Inr[OF steps(5) r4] by blast
  have ok: "senders = [] \<or> (\<exists>uid \<le> U32_MAX. senders = [uid_leaf uid])" using senders(2) by blast
  note shape = program(1) senders(1) port(1) p(1)
  from dest show ?thesis
  proof (elim disjE conjE exE)
    fix host assume "r1 = host_leaf host # r2" "valid_host host" "destination = DestNamed"
    with shape p(2) show ?thesis
      using one_host[OF program(2) _ ok port(2,3), of host p] by (simp add: allowed_protocols_def)
  next
    fix b assume "r1 = address_leaf LOOPBACK_PATTERN b # r2" "destination = DestNamed"
    with shape p(2) show ?thesis
      using this_computer[OF program(2) ok port(2,3), of p b] by (simp add: allowed_protocols_def)
  next
    fix b assume "r1 = address_leaf MDNS_PATTERN b # r2" "destination = DestMdns" "program = MDNS_PROGRAM"
    with shape p(2) show ?thesis
      using multicast_dns[OF ok, of b] port(4) by (simp add: allowed_protocols_def)
  next
    assume "destination = DestAnyAddress" "program = DNS_PROGRAM" "r1 = r2"
    with shape p(2) senders(2) show ?thesis
      using resolver port(5) by (auto simp: allowed_protocols_def)
  qed
qed

text \<open>
  C29. Whatever the data file says, a rule sent under the curated prefix is an \<open>always\<close>
  \<open>allow\<close> without precedence for one exact program under \<open>/usr\<close>, to one plain host or this
  computer, on one port and over TCP or UDP; the multicast group is open to Avahi alone,
  and any address only to the system resolver, on port 53, for a sender pinned to one
  user ID that is not root's.
\<close>

theorem curated_rules_confined:
  assumes "check_curated_rule lib r = Inr ()"
  shows "\<exists>op. r_operator r = Some op \<and> op_type op = lit ''list'' \<and> curated_conditions (op_list op)
    \<and> r_action r = lit ''allow'' \<and> r_duration r = lit ''always'' \<and> \<not> r_precedence r
    \<and> is_reserved_curated_name (r_name r)"
  using assms check_leaves_conditions
  by (auto simp: check_curated_rule_def strip_curated_def is_reserved_curated_name_def split: option.splits if_splits sum.splits)

definition example_entry :: curated_entry where
  "example_entry = \<lparr> ce_id = lit ''dns-resolved'', ce_group = lit ''name-resolution'', ce_path = DNS_PROGRAM,
     ce_host = None, ce_loopback = False, ce_any_address = True, ce_multicast_dns = False,
     ce_sender = Some (Account (lit ''systemd-resolve'')), ce_port = 53, ce_protocol = ProtoTcpAndUdp,
     ce_why = lit ''DNS'', ce_evidence = lit ''capture'' \<rparr>"

theorem curated_rules_confined_witness:
  "curated_conditions (op_list (the (r_operator (rule_as example_entry (Some 990)))))"
proof -
  have "check_curated_rule domain_regex (rule_as example_entry (Some 990)) = Inr ()" by code_simp
  from curated_rules_confined[OF this] show ?thesis by auto
qed

section \<open>One check covers every user ID\<close>

lemma validate_members_Inr:
  "validate_members lib i ms = Inr () \<longleftrightarrow> (\<forall>m \<in> set ms. validate_leaf lib m = Inr ())"
  by (induction ms arbitrary: i) (auto split: sum.splits)

lemma leaf_checks_any_path:
  "check_import_leaf path m = [] \<longleftrightarrow> check_import_leaf [] m = []"
  "check_editor_leaf path m = [] \<longleftrightarrow> check_editor_leaf [] m = []"
  by (auto simp: check_import_leaf_def check_editor_leaf_def Let_def)

lemma validate_list_Inr:
  "validate_list lib op = Inr () \<longleftrightarrow>
     (op_operand op = [] \<or> op_operand op = lit ''list'') \<and> op_list op \<noteq> [] \<and> length (op_list op) \<le> MAX_OPERATOR_LIST_LEN
     \<and> (\<forall>m \<in> set (op_list op). validate_leaf lib m = Inr ())
     \<and> ((\<exists>m \<in> set (op_list op). op_operand m \<in> set HASH_OPERANDS) \<longrightarrow>
        (\<exists>m \<in> set (op_list op). op_operand m \<noteq> lit ''true'' \<and> op_operand m \<notin> set HASH_OPERANDS))"
proof (cases "validate_members lib 0 (op_list op)")
  case (Inl e)
  then have "\<not> (\<forall>m \<in> set (op_list op). validate_leaf lib m = Inr ())"
    using validate_members_Inr[of lib 0 "op_list op"] by simp
  then show ?thesis using Inl by (simp add: validate_list_def)
next
  case (Inr u)
  then have "\<forall>m \<in> set (op_list op). validate_leaf lib m = Inr ()"
    using validate_members_Inr[of lib 0 "op_list op"] by simp
  then show ?thesis using Inr by (simp add: validate_list_def list_ex_iff)
qed

lemma leaves_of_list: "op_type op = lit ''list'' \<Longrightarrow> map snd (leaves_of op) = op_list op"
  by (simp add: leaves_of_def comp_def case_prod_beta)

lemma check_editor_operator_list:
  assumes "op_type op = lit ''list''"
  shows "check_import_operator lib op Editor = [] \<longleftrightarrow>
    (\<exists>m \<in> set (op_list op). narrows lib m)
    \<and> (\<forall>m \<in> set (op_list op). check_import_leaf [] m = [] \<and> check_editor_leaf [] m = [])"
proof -
  have "check_import_operator lib op Editor = [] \<longleftrightarrow>
      (\<exists>x \<in> set (leaves_of op). narrows lib (snd x))
      \<and> (\<forall>x \<in> set (leaves_of op). check_import_leaf (fst x) (snd x) = [] \<and> check_editor_leaf (fst x) (snd x) = [])"
    by (simp add: check_import_operator_def list_ex_iff case_prod_beta)
  also have "\<dots> \<longleftrightarrow> (\<exists>m \<in> snd ` set (leaves_of op). narrows lib m)
      \<and> (\<forall>m \<in> snd ` set (leaves_of op). check_import_leaf [] m = [] \<and> check_editor_leaf [] m = [])"
  proof -
    have "check_import_leaf (fst x) (snd x) = [] \<and> check_editor_leaf (fst x) (snd x) = [] \<longleftrightarrow>
        check_import_leaf [] (snd x) = [] \<and> check_editor_leaf [] (snd x) = []" for x
      using leaf_checks_any_path[of "fst x" "snd x"] by simp
    then show ?thesis by simp
  qed
  also have "snd ` set (leaves_of op) = set (op_list op)"
    using leaves_of_list[OF assms] by (metis list.set_map)
  finally show ?thesis .
qed

lemma uid_leaf_accepted:
  assumes "uid \<le> U32_MAX"
  shows "validate_leaf lib (uid_leaf uid) = Inr ()" "narrows lib (uid_leaf uid)"
    "check_import_leaf [] (uid_leaf uid) = []" "check_editor_leaf [] (uid_leaf uid) = []"
    "operator_ok d (uid_leaf uid) \<longleftrightarrow> d \<le> MAX_OPERATOR_DEPTH"
proof -
  have "str_len (lit ''user.id'') \<le> MAX_RULE_FIELD_BYTES" "str_len (lit ''simple'') \<le> MAX_RULE_FIELD_BYTES"
    "operand_kind (lit ''user.id'') = Inr KindText" by code_simp+
  then show "validate_leaf lib (uid_leaf uid) = Inr ()" "operator_ok d (uid_leaf uid) \<longleftrightarrow> d \<le> MAX_OPERATOR_DEPTH"
    using str_len_decimal_u32[OF assms] by (auto simp: validate_leaf_def uid_leaf_def Let_def)
  show "check_import_leaf [] (uid_leaf uid) = []"
    using assms by (auto simp: check_import_leaf_def uid_leaf_def is_decimal_def parse_decimal digits_decimal Let_def lit_def)
  show "narrows lib (uid_leaf uid)" "check_editor_leaf [] (uid_leaf uid) = []"
    by (auto simp: narrows_def check_editor_leaf_def uid_leaf_def Let_def lit_def)
qed

lemma editor_accepts_other_uid:
  assumes accepted: "validate_user_rule lib r Editor = Inr ()"
    and r: "r_operator r = Some (Operator (lit ''list'') (lit ''list'') [] False (xs @ uid_leaf a # ys))"
    and b: "b \<le> U32_MAX"
  shows "validate_user_rule lib (r\<lparr> r_operator := Some (Operator (lit ''list'') (lit ''list'') [] False (xs @ uid_leaf b # ys)) \<rparr>) Editor = Inr ()"
proof -
  let ?op = "\<lambda>u. Operator (lit ''list'') (lit ''list'') [] False (xs @ uid_leaf u # ys)"
  obtain op where "r_operator r = Some op" "validate_operator lib op = Inr ()" "check_import_operator lib op Editor = []"
    using accepted_operator[OF accepted] by blast
  then have ok: "validate_list lib (?op a) = Inr ()" "check_import_operator lib (?op a) Editor = []"
    using r by (auto simp: validate_operator_def)
  have "validate_list lib (?op b) = Inr ()"
    using ok(1) uid_leaf_accepted(1)[OF b, of lib] by (auto simp: validate_list_Inr)
  moreover have "check_import_operator lib (?op b) Editor = []"
    using ok(2) uid_leaf_accepted(2,3,4)[OF b] by (auto simp: check_editor_operator_list)
  moreover have "within_limits (r\<lparr> r_operator := Some (?op b) \<rparr>)" if "within_limits r"
    using that r uid_leaf_accepted(5)[OF b] by (cases "uid_leaf a") (auto simp: within_limits_def uid_leaf_def)
  ultimately show ?thesis
    using accepted r by (auto simp: validate_user_rule_def check_rule_def validate_operator_def Let_def split: if_splits)
qed

definition leaves_before_sender :: "curated_entry \<Rightarrow> operator list" where
  "leaves_before_sender e =
     [curated_leaf (lit ''simple'') (lit ''process.path'') (ce_path e) True]
     @ (case ce_host e of Some host \<Rightarrow> [curated_leaf (lit ''simple'') (lit ''dest.host'') host False] | None \<Rightarrow> [])
     @ (if ce_loopback e then [curated_leaf (lit ''regexp'') (lit ''dest.ip'') LOOPBACK_PATTERN False] else [])
     @ (if ce_multicast_dns e then [curated_leaf (lit ''regexp'') (lit ''dest.ip'') MDNS_PATTERN False] else [])"

definition leaves_after_sender :: "curated_entry \<Rightarrow> operator list" where
  "leaves_after_sender e =
     [curated_leaf (lit ''simple'') (lit ''dest.port'') (decimal (ce_port e)) False,
      curated_leaf (lit ''regexp'') (lit ''protocol'') (protocol_pattern (ce_protocol e)) False]"

lemma build_leaves_split:
  "build_leaves e (Some (decimal uid)) = leaves_before_sender e @ uid_leaf uid # leaves_after_sender e"
  "build_leaves e None = leaves_before_sender e @ leaves_after_sender e"
  by (auto simp: build_leaves_def leaves_before_sender_def leaves_after_sender_def uid_leaf_def curated_leaf_def
      split: option.splits)

lemma check_sender_uid_leaf:
  assumes "uid \<le> U32_MAX" "destination = DestAnyAddress \<longrightarrow> 0 < uid"
  shows "check_sender (uid_leaf uid # rest) destination = Inr rest"
  using assms canonical_uid_iff by (auto simp: check_sender_def uid_leaf_def decimal_zero)

lemma check_sender_uid_leaf_Inr: "check_sender (uid_leaf a # rest) destination = Inr rest' \<Longrightarrow> rest' = rest"
  by (auto simp: check_sender_def uid_leaf_def split: if_splits)

lemma check_destination_uid_leaf:
  "check_destination (uid_leaf uid # rest) program =
     (if program \<noteq> DNS_PROGRAM then Inl OnlyResolverAnyAddress else Inr (DestAnyAddress, uid_leaf uid # rest))"
  by (simp add: check_destination_def uid_leaf_def)

lemma check_leaves_Inr:
  "check_leaves leaves = Inr () \<longleftrightarrow>
     (\<exists>program r1 destination r2 r3 r4. check_program leaves = Inr (program, r1)
        \<and> check_destination r1 program = Inr (destination, r2) \<and> check_sender r2 destination = Inr r3
        \<and> check_port r3 destination = Inr r4 \<and> check_protocol r4 destination = Inr []
        \<and> (\<forall>m \<in> set leaves. op_list m = []))"
  by (force simp: check_leaves_def list_ex_iff split: sum.splits if_splits)

lemma destination_before_sender:
  assumes "destinations_of e = 1"
  obtains dests where "leaves_before_sender e = path_leaf (ce_path e) # dests" "dests = [] \<longleftrightarrow> ce_any_address e"
    "dests = [] \<or> (\<exists>d. dests = [d] \<and> op_operand d \<in> {lit ''dest.host'', lit ''dest.ip''})"
proof -
  let ?dests = "tl (leaves_before_sender e)"
  have "leaves_before_sender e = path_leaf (ce_path e) # ?dests"
    by (simp add: leaves_before_sender_def path_leaf_def curated_leaf_def)
  moreover have "?dests = [] \<longleftrightarrow> ce_any_address e" "?dests = [] \<or> (\<exists>d. ?dests = [d] \<and> op_operand d \<in> {lit ''dest.host'', lit ''dest.ip''})"
    using assms by (auto simp: leaves_before_sender_def curated_leaf_def destinations_of_def of_bool_def split: option.splits if_splits)
  ultimately show ?thesis using that by blast
qed

lemma check_destination_other_uid:
  assumes "check_destination (dests @ uid_leaf a # rest) program = Inr (destination, r2)"
    and "dests = [] \<or> (\<exists>d. dests = [d] \<and> op_operand d \<in> {lit ''dest.host'', lit ''dest.ip''})"
  shows "r2 = uid_leaf a # rest" "check_destination (dests @ uid_leaf b # rest) program = Inr (destination, uid_leaf b # rest)"
    "destination = DestAnyAddress \<longrightarrow> dests = []"
proof -
  show "r2 = uid_leaf a # rest"
    using assms by (auto simp: check_destination_uid_leaf check_destination_def split: if_splits)
  show "check_destination (dests @ uid_leaf b # rest) program = Inr (destination, uid_leaf b # rest)"
    using assms(2)
  proof
    assume "dests = []"
    then show ?thesis using assms(1) by (auto simp: check_destination_uid_leaf split: if_splits)
  next
    assume "\<exists>d. dests = [d] \<and> op_operand d \<in> {lit ''dest.host'', lit ''dest.ip''}"
    then show ?thesis using assms(1) by (auto simp: check_destination_def split: if_splits)
  qed
  show "destination = DestAnyAddress \<longrightarrow> dests = []"
    using assms by (auto simp: check_destination_def split: if_splits)
qed

lemma check_leaves_other_uid:
  assumes ok: "check_leaves (leaves_before_sender e @ uid_leaf a # leaves_after_sender e) = Inr ()"
    and e: "destinations_of e = 1" and b: "b \<le> U32_MAX" "ce_any_address e \<longrightarrow> 0 < b"
  shows "check_leaves (leaves_before_sender e @ uid_leaf b # leaves_after_sender e) = Inr ()"
proof -
  obtain dests where dests: "leaves_before_sender e = path_leaf (ce_path e) # dests" "dests = [] \<longleftrightarrow> ce_any_address e"
    "dests = [] \<or> (\<exists>d. dests = [d] \<and> op_operand d \<in> {lit ''dest.host'', lit ''dest.ip''})"
    using destination_before_sender[OF e] by blast
  obtain program r1 destination r2 r3 r4 where steps:
    "check_program (path_leaf (ce_path e) # dests @ uid_leaf a # leaves_after_sender e) = Inr (program, r1)"
    "check_destination r1 program = Inr (destination, r2)" "check_sender r2 destination = Inr r3"
    "check_port r3 destination = Inr r4" "check_protocol r4 destination = Inr []"
    "\<forall>m \<in> set (path_leaf (ce_path e) # dests @ uid_leaf a # leaves_after_sender e). op_list m = []"
    using ok unfolding check_leaves_Inr dests(1) by auto
  have r1: "r1 = dests @ uid_leaf a # leaves_after_sender e"
    and program: "check_program (path_leaf (ce_path e) # xs) = Inr (program, xs)" for xs
    using steps(1) by (auto simp: check_program_def split: if_splits)
  note dest = check_destination_other_uid[OF steps(2)[unfolded r1] dests(3)]
  have "r3 = leaves_after_sender e" using steps(3) dest(1) check_sender_uid_leaf_Inr by simp
  moreover have "check_sender (uid_leaf b # leaves_after_sender e) destination = Inr (leaves_after_sender e)"
    using check_sender_uid_leaf[OF b(1)] dest(3) dests(2) b(2) by blast
  moreover have "op_list (uid_leaf b) = []" by (simp add: uid_leaf_def)
  ultimately show ?thesis
    unfolding check_leaves_Inr dests(1) using program dest(2)[of b] steps(4,5,6) by auto
qed

lemma rule_update_swap: "(r::rule)\<lparr> r_operator := op, r_name := n \<rparr> = r\<lparr> r_name := n, r_operator := op \<rparr>"
  by (cases r) simp

text \<open>
  The check of the data file vouches for every copy installed later: an entry that
  passes, tried at user ID 1, passes the allowlist and the rule editor's checks at every
  user ID its account may turn out to have (any but root's when it may reach any address).
\<close>

theorem checked_entries_install_at_any_uid:
  assumes checked: "entry_check lib e = Inr ()"
    and uid: "uid \<le> U32_MAX" "ce_any_address e \<longrightarrow> 0 < uid"
  shows "check_curated_rule lib (rule_as e (Some uid)) = Inr ()"
proof (cases "entry_account e")
  case None
  then have "rule_as e (Some uid) = rule_as e (Some 1)"
    by (auto simp: rule_as_def entry_account_def split: option.splits curated_sender.splits)
  then show ?thesis using checked by (simp add: entry_check_def split: if_splits)
next
  case (Some name)
  have rule: "rule_as e (Some u) = (rule_as e (Some 1))\<lparr> r_operator := Some (Operator (lit ''list'') (lit ''list'') [] False
      (leaves_before_sender e @ uid_leaf u # leaves_after_sender e)) \<rparr>" for u
    using Some by (auto simp: rule_as_def entry_build_def entry_account_def build_leaves_split
        split: option.splits curated_sender.splits)
  have ok: "check_curated_rule lib (rule_as e (Some 1)) = Inr ()" "destinations_of e = 1"
    using checked by (auto simp: entry_check_def split: if_splits)
  have op: "r_operator (rule_as e (Some u)) = Some (Operator (lit ''list'') (lit ''list'') [] False
      (leaves_before_sender e @ uid_leaf u # leaves_after_sender e))" for u by (subst rule) simp
  obtain ident where ident: "strip_curated (r_name (rule_as e (Some 1))) = Some ident" "valid_id ident"
    "check_leaves (leaves_before_sender e @ uid_leaf 1 # leaves_after_sender e) = Inr ()"
    "validate_user_rule lib ((rule_as e (Some 1))\<lparr> r_name := lit ''curated-check-'' @ ident \<rparr>) Editor = Inr ()"
    using ok(1) op[of 1] by (auto simp: check_curated_rule_def split: option.splits if_splits sum.splits)
  have "r_operator ((rule_as e (Some 1))\<lparr> r_name := lit ''curated-check-'' @ ident \<rparr>) =
      Some (Operator (lit ''list'') (lit ''list'') [] False (leaves_before_sender e @ uid_leaf 1 # leaves_after_sender e))"
    using op by simp
  from editor_accepts_other_uid[OF ident(4) this uid(1)]
  have "validate_user_rule lib ((rule_as e (Some uid))\<lparr> r_name := lit ''curated-check-'' @ ident \<rparr>) Editor = Inr ()"
    unfolding rule[of uid] rule_update_swap .
  then show ?thesis
    using ok(1) ident check_leaves_other_uid[OF ident(3) ok(2) uid] 
    by (auto simp: check_curated_rule_def op[of uid] rule[of uid] split: option.splits if_splits sum.splits)
qed

theorem checked_entries_install_at_any_uid_witness:
  "check_curated_rule domain_regex (rule_as example_entry (Some 990)) = Inr ()"
proof -
  have "entry_check domain_regex example_entry = Inr ()" by code_simp
  moreover have "(990::nat) \<le> U32_MAX" "ce_any_address example_entry \<longrightarrow> 0 < (990::nat)" by code_simp+
  ultimately show ?thesis by (rule checked_entries_install_at_any_uid)
qed

end
