(* ===== verification/Display.thy ===== *)
theory Display
  imports Prelude
begin

text \<open>
  \<open>translator/display.rs\<close>: text from outside made safe to show in a notification body, a
  log line or a plain-text label, and \<open>plain_summary\<close> of \<open>prompt_slot.rs\<close>.
\<close>

section \<open>The functions\<close>

definition is_display_hazard :: "rchar \<Rightarrow> bool" where
  "is_display_hazard c \<longleftrightarrow>
     c = 0x2028 \<or> c = 0x2029 \<or> c = 0x034F \<or> (0x115F \<le> c \<and> c \<le> 0x1160) \<or> c = 0x3164 \<or> c = 0xFFA0
     \<or> (0xFE00 \<le> c \<and> c \<le> 0xFE0F) \<or> (0xE0100 \<le> c \<and> c \<le> 0xE01EF)
     \<or> c = 0x00AD \<or> (0x0600 \<le> c \<and> c \<le> 0x0605) \<or> c = 0x061C \<or> c = 0x06DD \<or> c = 0x070F
     \<or> (0x0890 \<le> c \<and> c \<le> 0x0891) \<or> c = 0x08E2 \<or> c = 0x180E \<or> (0x200B \<le> c \<and> c \<le> 0x200F)
     \<or> (0x202A \<le> c \<and> c \<le> 0x202E) \<or> (0x2060 \<le> c \<and> c \<le> 0x2064) \<or> (0x2066 \<le> c \<and> c \<le> 0x206F)
     \<or> c = 0xFEFF \<or> (0xFFF9 \<le> c \<and> c \<le> 0xFFFB) \<or> c = 0x110BD \<or> c = 0x110CD
     \<or> (0x13430 \<le> c \<and> c \<le> 0x1343F) \<or> (0x1BCA0 \<le> c \<and> c \<le> 0x1BCA3) \<or> (0x1D173 \<le> c \<and> c \<le> 0x1D17A)
     \<or> c = 0xE0001 \<or> (0xE0020 \<le> c \<and> c \<le> 0xE007F)"

definition ELLIPSIS :: rchar where "ELLIPSIS = 0x2026"

definition shown_chars :: "rstr \<Rightarrow> rstr" where
  "shown_chars input = filter (\<lambda>c. \<not> is_control c \<and> \<not> is_display_hazard c) input"

definition strip_display_hazards :: "rstr \<Rightarrow> rstr" where
  "strip_display_hazards input = filter (\<lambda>c. \<not> is_control c \<and> \<not> is_display_hazard c) input"

definition escape_char :: "rchar \<Rightarrow> rstr" where
  "escape_char c =
     (if c = 60 then lit ''&lt;'' else if c = 62 then lit ''&gt;''
      else if c = 38 then lit ''&amp;'' else [c])"

definition escape_markup :: "rstr \<Rightarrow> rstr" where
  "escape_markup chars = concat (map escape_char chars)"

text \<open>The loop of \<open>sanitize_for_display\<close>; \<open>count\<close> is the number of characters kept so far.\<close>

fun sanitize_loop :: "nat \<Rightarrow> nat \<Rightarrow> rstr \<Rightarrow> rstr" where
  "sanitize_loop max_len count [] = []"
| "sanitize_loop max_len count (c # cs) =
     (if max_len \<le> count then [ELLIPSIS]
      else if is_control c \<or> is_display_hazard c then sanitize_loop max_len count cs
      else escape_char c @ sanitize_loop max_len (count + 1) cs)"

definition sanitize_for_display :: "rstr \<Rightarrow> nat \<Rightarrow> rstr" where
  "sanitize_for_display input max_len = sanitize_loop max_len 0 input"

definition sanitize_tail_for_display :: "rstr \<Rightarrow> nat \<Rightarrow> rstr" where
  "sanitize_tail_for_display input max_len =
     (let kept = shown_chars input
      in if length kept \<le> max_len then escape_markup kept
         else ELLIPSIS # escape_markup (drop (length kept - max_len) kept))"

definition sanitize_ends_for_display :: "rstr \<Rightarrow> nat \<Rightarrow> rstr" where
  "sanitize_ends_for_display input max_len =
     (let kept = shown_chars input
      in if length kept \<le> max_len then escape_markup kept
         else let start = max_len div 2; tail_at = length kept - (max_len - start)
              in escape_markup (take start kept) @ ELLIPSIS # escape_markup (drop tail_at kept))"

definition PART_MAX_CHARS :: nat where "PART_MAX_CHARS = 64"

definition summary_part :: "rstr \<Rightarrow> rstr" where
  "summary_part s =
     (let clean = strip_display_hazards s
      in take PART_MAX_CHARS clean @ (if length clean > PART_MAX_CHARS then [ELLIPSIS] else []))"

definition plain_summary :: "rstr \<Rightarrow> rstr \<Rightarrow> rstr" where
  "plain_summary process host = summary_part process @ [32, 0x2192, 32] @ summary_part host"

section \<open>What is shown\<close>

text \<open>What a renderer of the markup subset displays: entities read back.\<close>

fun rendered :: "rstr \<Rightarrow> rstr option" where
  "rendered [] = Some []"
| "rendered (c # s) =
     (if c = 38 then
        (if take 3 s = lit ''lt;'' then map_option (Cons 60) (rendered (drop 3 s))
         else if take 3 s = lit ''gt;'' then map_option (Cons 62) (rendered (drop 3 s))
         else if take 4 s = lit ''amp;'' then map_option (Cons 38) (rendered (drop 4 s))
         else None)
      else if c = 60 \<or> c = 62 then None
      else map_option (Cons c) (rendered s))"

definition harmless :: "rstr \<Rightarrow> bool" where
  "harmless s \<longleftrightarrow> list_all (\<lambda>c. \<not> is_control c \<and> \<not> is_display_hazard c) s"

lemma rendered_escape_char [simp]: "rendered (escape_char c @ s) = map_option (Cons c) (rendered s)"
  by (simp add: escape_char_def lit_def)

lemma rendered_ellipsis [simp]: "rendered (ELLIPSIS # s) = map_option (Cons ELLIPSIS) (rendered s)"
  by (simp add: ELLIPSIS_def)

declare rendered.simps(2) [simp del]

lemma rendered_escape_markup [simp]:
  "rendered (escape_markup v @ s) = map_option ((@) v) (rendered s)"
  by (induction v) (simp_all add: escape_markup_def option.map_comp comp_def option.map_ident)

lemma rendered_escape_markup_Nil [simp]: "rendered (escape_markup v) = Some v"
  using rendered_escape_markup[of v "[]"] by simp

lemma harmless_append [simp]: "harmless (a @ b) \<longleftrightarrow> harmless a \<and> harmless b"
  by (simp add: harmless_def)

lemma harmless_ellipsis [simp]: "harmless (ELLIPSIS # s) \<longleftrightarrow> harmless s"
  by (simp add: harmless_def ELLIPSIS_def is_control_def is_display_hazard_def)

lemma harmless_Nil [simp]: "harmless []"
  by (simp add: harmless_def)

lemma harmless_escape_char: "\<not> is_control c \<Longrightarrow> \<not> is_display_hazard c \<Longrightarrow> harmless (escape_char c)"
  by (simp add: harmless_def escape_char_def lit_def is_control_def is_display_hazard_def)

lemma harmless_Cons: "harmless (c # s) \<longleftrightarrow> \<not> is_control c \<and> \<not> is_display_hazard c \<and> harmless s"
  by (simp add: harmless_def)

lemma harmless_escape_markup: "harmless v \<Longrightarrow> harmless (escape_markup v)"
  by (induction v) (simp_all add: escape_markup_def harmless_escape_char harmless_Cons)

lemma harmless_parts: "harmless (take n (shown_chars s))" "harmless (drop n (shown_chars s))" "harmless (shown_chars s)"
  by (auto simp: harmless_def list_all_iff shown_chars_def dest: in_set_takeD in_set_dropD)

lemma sanitize_loop_eq:
  "sanitize_loop n k s =
     escape_markup (take (n - k) (shown_chars s))
     @ (if s \<noteq> [] \<and> n \<le> k + length (shown_chars (butlast s)) then [ELLIPSIS] else [])"
  by (induction n k s rule: sanitize_loop.induct)
    (auto simp: shown_chars_def escape_markup_def Suc_diff_le take_Cons' split: if_splits)

text \<open>
  C38. Text from outside cannot dress itself up. Whatever the input, the three sanitisers
  produce well-formed markup that displays the input's visible characters in order, cut to
  the beginning, the end or both ends with one ellipsis, and nothing else: no markup of its
  own and no control, bidirectional, zero-width or other invisible character.
\<close>

theorem sanitized_text_displays_as_itself:
  "rendered (sanitize_for_display s n) =
     Some (take n (shown_chars s)
           @ (if s \<noteq> [] \<and> n \<le> length (shown_chars (butlast s)) then [ELLIPSIS] else []))
   \<and> rendered (sanitize_tail_for_display s n) =
     Some (if length (shown_chars s) \<le> n then shown_chars s
           else ELLIPSIS # drop (length (shown_chars s) - n) (shown_chars s))
   \<and> rendered (sanitize_ends_for_display s n) =
     Some (if length (shown_chars s) \<le> n then shown_chars s
           else take (n div 2) (shown_chars s)
                @ ELLIPSIS # drop (length (shown_chars s) - (n - n div 2)) (shown_chars s))
   \<and> harmless (sanitize_for_display s n) \<and> harmless (sanitize_tail_for_display s n)
   \<and> harmless (sanitize_ends_for_display s n)"
proof -
  have "harmless (sanitize_for_display s n)" "harmless (sanitize_tail_for_display s n)"
    "harmless (sanitize_ends_for_display s n)"
    unfolding sanitize_for_display_def sanitize_loop_eq sanitize_tail_for_display_def
      sanitize_ends_for_display_def Let_def
    by (simp_all add: harmless_escape_markup harmless_parts)
  then show ?thesis
    by (simp add: sanitize_for_display_def sanitize_loop_eq sanitize_tail_for_display_def
        sanitize_ends_for_display_def Let_def)
qed

end
