(* ===== verification/Rule_Wire.thy ===== *)
theory Rule_Wire
  imports Curated_Props Display
begin

text \<open>
  \<open>rule_wire.rs\<close>: the JSON shape a rule has between the bridge and its GUIs, with the two
  readers of \<open>rule_policy.rs\<close> and \<open>curated/mod.rs\<close> that start from it.

  A JSON value (\<open>serde_json::Value\<close>) is a datatype; an object is its list of members. A
  number is an integer (\<open>i64\<close> or \<open>u64\<close>) or a finite float (\<open>f64\<close>): \<open>JFloat m k\<close> is
  \<open>m / 2 ^ k\<close>.
  The rule editor's texts for a read-only rule are constructors of \<open>read_only\<close>;
  \<open>reason_text\<close> gives the text (an argument).
\<close>

section \<open>JSON values\<close>

datatype json =
  JNull | JBool bool | JNumber int | JFloat int nat | JString rstr | JArray "json list"
| JObject "(rstr \<times> json) list"

fun as_object :: "json \<Rightarrow> (rstr \<times> json) list option" where
  "as_object (JObject ms) = Some ms"
| "as_object _ = None"

fun as_str :: "json \<Rightarrow> rstr option" where
  "as_str (JString s) = Some s"
| "as_str _ = None"

fun as_bool :: "json \<Rightarrow> bool option" where
  "as_bool (JBool b) = Some b"
| "as_bool _ = None"

fun as_array :: "json \<Rightarrow> json list option" where
  "as_array (JArray vs) = Some vs"
| "as_array _ = None"

text \<open>\<open>Value::get\<close>: a member of an object, nothing otherwise.\<close>

definition json_get :: "json \<Rightarrow> rstr \<Rightarrow> json option" where
  "json_get v key = Option.bind (as_object v) (\<lambda>ms. map_of ms key)"

section \<open>To the GUI\<close>

function operator_to_wire :: "operator \<Rightarrow> json" where
  "operator_to_wire (Operator ty operand data sensitive members) =
     (if members = []
      then JObject [(lit ''type'', JString ty), (lit ''operand'', JString operand), (lit ''data'', JString data),
                    (lit ''sensitive'', JBool sensitive)]
      else JObject [(lit ''type'', JString ty), (lit ''operands'', JArray (map operator_to_wire members))])"
  by pat_completeness auto
termination by (relation "measure size") (auto simp: size_list_estimation' less_Suc_eq_le intro: le_trans)

definition rule_to_wire :: "regex_lib \<Rightarrow> curated_entry list \<Rightarrow> (read_only \<Rightarrow> rstr) \<Rightarrow> rule \<Rightarrow> json" where
  "rule_to_wire lib es reason_text r =
     JObject
       [(lit ''name'', JString (r_name r)),
        (lit ''enabled'', JBool (r_enabled r)),
        (lit ''action'', JString (r_action r)),
        (lit ''duration'', JString (r_duration r)),
        (lit ''description'', JString (r_description r)),
        (lit ''operator'', case r_operator r of Some op \<Rightarrow> operator_to_wire op | None \<Rightarrow> JNull),
        (lit ''precedence'', JBool (r_precedence r)),
        (lit ''nolog'', JBool (r_nolog r)),
        (lit ''created'', JNumber (r_created r)),
        (lit ''displayName'', JString (strip_display_hazards (r_name r))),
        (lit ''readOnlyReason'', case read_only_reason lib (curated_toggleable lib es) r of
            Some why \<Rightarrow> JString (reason_text why) | None \<Rightarrow> JNull),
        (lit ''deletable'', JBool (deletable r)),
        (lit ''toggleable'', JBool (toggleable lib (curated_toggleable lib es) r))]"

section \<open>From the GUI\<close>

datatype wire_error =
  NotAnObject | NameMissing | WireName name_error | ActionMissing | OperatorMissing | OperatorNull
| OperatorNotAnObject | TypeMissing | TooManyMembers nat | ListInList | OperandMissing
| WireOperator operator_error | DurationMissing

definition str_field :: "(rstr \<times> json) list \<Rightarrow> rstr \<Rightarrow> rstr" where
  "str_field obj key = (case Option.bind (map_of obj key) as_str of Some s \<Rightarrow> s | None \<Rightarrow> [])"

definition bool_field :: "(rstr \<times> json) list \<Rightarrow> rstr \<Rightarrow> bool" where
  "bool_field obj key = (case Option.bind (map_of obj key) as_bool of Some b \<Rightarrow> b | None \<Rightarrow> False)"

definition nonempty_field :: "(rstr \<times> json) list \<Rightarrow> rstr \<Rightarrow> rstr option" where
  "nonempty_field obj key =
     (case Option.bind (map_of obj key) as_str of Some s \<Rightarrow> if s = [] then None else Some s | None \<Rightarrow> None)"

text \<open>\<open>collect::<Result<Vec<_>, _>>\<close>: the first error, or all values.\<close>

fun collect_results :: "('e + 'a) list \<Rightarrow> 'e + 'a list" where
  "collect_results [] = Inr []"
| "collect_results (x # xs) =
     (case x of Inl e \<Rightarrow> Inl e
      | Inr v \<Rightarrow> (case collect_results xs of Inl e \<Rightarrow> Inl e | Inr vs \<Rightarrow> Inr (v # vs)))"

definition leaf_from_wire :: "rstr \<Rightarrow> (rstr \<times> json) list \<Rightarrow> wire_error + operator" where
  "leaf_from_wire ty obj =
     (case nonempty_field obj (lit ''operand'') of
        None \<Rightarrow> Inl OperandMissing
      | Some operand \<Rightarrow> Inr (Operator ty operand (str_field obj (lit ''data'')) (bool_field obj (lit ''sensitive'')) []))"

text \<open>The source calls itself on the members of a list, none of which has members of its
  own (they are refused before): one level of calls, \<open>member_from_wire\<close>.\<close>

definition member_from_wire :: "json \<Rightarrow> wire_error + operator" where
  "member_from_wire v =
     (case as_object v of
        None \<Rightarrow> Inl OperatorNotAnObject
      | Some obj \<Rightarrow>
          (case nonempty_field obj (lit ''type'') of
             None \<Rightarrow> Inl TypeMissing
           | Some ty \<Rightarrow> leaf_from_wire ty obj))"

definition operator_from_wire :: "json \<Rightarrow> wire_error + operator" where
  "operator_from_wire v =
     (case as_object v of
        None \<Rightarrow> Inl OperatorNotAnObject
      | Some obj \<Rightarrow>
          (case nonempty_field obj (lit ''type'') of
             None \<Rightarrow> Inl TypeMissing
           | Some ty \<Rightarrow>
               (case Option.bind (map_of obj (lit ''operands'')) as_array of
                  None \<Rightarrow> leaf_from_wire ty obj
                | Some operands \<Rightarrow>
                    if length operands > MAX_OPERATOR_LIST_LEN then Inl (TooManyMembers (length operands))
                    else if list_ex (\<lambda>m. Option.bind (json_get m (lit ''operands'')) as_array \<noteq> None) operands
                    then Inl ListInList
                    else case collect_results (map member_from_wire operands) of
                           Inl e \<Rightarrow> Inl e | Inr ms \<Rightarrow> Inr (Operator ty [] [] False ms))))"

definition rule_from_wire :: "regex_lib \<Rightarrow> json \<Rightarrow> wire_error + rule" where
  "rule_from_wire lib v =
     (case as_object v of
        None \<Rightarrow> Inl NotAnObject
      | Some obj \<Rightarrow>
          (case Option.bind (map_of obj (lit ''name'')) as_str of
             None \<Rightarrow> Inl NameMissing
           | Some name \<Rightarrow>
               (case validate_rule_name name of
                  Inl e \<Rightarrow> Inl (WireName e)
                | Inr _ \<Rightarrow>
                    (case nonempty_field obj (lit ''action'') of
                       None \<Rightarrow> Inl ActionMissing
                     | Some act \<Rightarrow>
                         (case map_of obj (lit ''operator'') of
                            None \<Rightarrow> Inl OperatorMissing
                          | Some opv \<Rightarrow>
                              if opv = JNull then Inl OperatorNull
                              else (case operator_from_wire opv of
                                      Inl e \<Rightarrow> Inl e
                                    | Inr op \<Rightarrow>
                                        (case validate_operator lib op of
                                           Inl e \<Rightarrow> Inl (WireOperator e)
                                         | Inr _ \<Rightarrow>
                                             (case nonempty_field obj (lit ''duration'') of
                                                None \<Rightarrow> Inl DurationMissing
                                              | Some duration \<Rightarrow>
                                                  Inr \<lparr> r_created = 0, r_name = name,
                                                        r_description = str_field obj (lit ''description''),
                                                        r_enabled = bool_field obj (lit ''enabled''),
                                                        r_precedence = bool_field obj (lit ''precedence''),
                                                        r_nolog = bool_field obj (lit ''nolog''),
                                                        r_action = act, r_duration = duration,
                                                        r_operator = Some op \<rparr>))))))))"

datatype wire_problem = WireProblem wire_error | PolicyProblems "rule_problem list"

definition check_wire_rule :: "regex_lib \<Rightarrow> json \<Rightarrow> policy_profile \<Rightarrow> wire_problem + rule" where
  "check_wire_rule lib v profile =
     (case rule_from_wire lib v of
        Inl e \<Rightarrow> Inl (WireProblem e)
      | Inr r \<Rightarrow> (case validate_user_rule lib r profile of Inl ps \<Rightarrow> Inl (PolicyProblems ps) | Inr _ \<Rightarrow> Inr r))"

definition requested_toggle :: "regex_lib \<Rightarrow> rule \<Rightarrow> json \<Rightarrow> bool option" where
  "requested_toggle lib current wire =
     (case rule_from_wire lib wire of
        Inl _ \<Rightarrow> None
      | Inr wanted \<Rightarrow> if canonical lib wanted = canonical lib current then Some (r_enabled wanted) else None)"

section \<open>What a GUI sends back\<close>

lemma validated_leaf_shape:
  assumes "validate_leaf lib m = Inr ()"
  shows "op_list m = []" "op_type m \<in> {lit ''simple'', lit ''regexp'', lit ''network''}" "op_operand m \<noteq> []"
proof -
  show "op_list m = []" "op_type m \<in> {lit ''simple'', lit ''regexp'', lit ''network''}"
    using assms by (auto simp: validate_leaf_def Let_def split: if_splits)
  have "operand_kind [] = Inl UnknownOperand" by code_simp
  then show "op_operand m \<noteq> []"
    using assms by (auto simp: validate_leaf_def Let_def split: if_splits)
qed

lemma leaf_round_trip:
  assumes "validate_leaf lib m = Inr ()"
  shows "member_from_wire (operator_to_wire m) = Inr m" "operator_from_wire (operator_to_wire m) = Inr m"
    "Option.bind (json_get (operator_to_wire m) (lit ''operands'')) as_array = None"
proof -
  obtain ty operand data sensitive where m: "m = Operator ty operand data sensitive []" "ty \<noteq> []" "operand \<noteq> []"
    using validated_leaf_shape[OF assms] by (cases m) auto
  show "member_from_wire (operator_to_wire m) = Inr m" "operator_from_wire (operator_to_wire m) = Inr m"
    "Option.bind (json_get (operator_to_wire m) (lit ''operands'')) as_array = None"
    using m(2,3) unfolding m(1)
    by (simp_all add: member_from_wire_def operator_from_wire_def leaf_from_wire_def nonempty_field_def str_field_def
        bool_field_def json_get_def)
qed

lemma collect_round_trip:
  "\<forall>m \<in> set ms. f (g m) = Inr m \<Longrightarrow> collect_results (map (f \<circ> g) ms) = Inr ms"
  by (induction ms) auto

lemma list_round_trip:
  assumes "validate_list lib op = Inr ()" "op_type op = lit ''list''"
  shows "operator_from_wire (operator_to_wire op) = Inr (Operator (lit ''list'') [] [] False (op_list op))"
proof -
  obtain operand data sensitive ms where op: "op = Operator (lit ''list'') operand data sensitive ms" "ms \<noteq> []"
    "length ms \<le> MAX_OPERATOR_LIST_LEN" "\<forall>m \<in> set ms. validate_leaf lib m = Inr ()"
    using assms by (cases op) (auto simp: validate_list_Inr)
  have "collect_results (map member_from_wire (map operator_to_wire ms)) = Inr ms"
    using collect_round_trip[of ms member_from_wire operator_to_wire] op(4) leaf_round_trip(1) by force
  moreover have "\<not> list_ex (\<lambda>m. Option.bind (json_get m (lit ''operands'')) as_array \<noteq> None) (map operator_to_wire ms)"
    using op(4) leaf_round_trip(3)[of lib] by (auto simp: list_ex_iff)
  ultimately show ?thesis
    using op(2,3) unfolding op(1) by (simp add: operator_from_wire_def nonempty_field_def)
qed

text \<open>An operator as a GUI sends it back: a list loses its own operand, data and flag,
  which the daemon does not read.\<close>

definition returned_operator :: "operator \<Rightarrow> operator" where
  "returned_operator op = (if op_type op = lit ''list'' then Operator (lit ''list'') [] [] False (op_list op) else op)"

lemma operator_round_trip:
  assumes "validate_operator lib op = Inr ()"
  shows "operator_from_wire (operator_to_wire op) = Inr (returned_operator op)"
    "validate_operator lib (returned_operator op) = Inr ()"
    "canonical_leaf_of lib (returned_operator op) = canonical_leaf_of lib op"
    "operator_to_wire op \<noteq> JNull"
proof -
  show "operator_from_wire (operator_to_wire op) = Inr (returned_operator op)"
    using assms list_round_trip[of lib op] leaf_round_trip(2)[of lib op]
    by (auto simp: validate_operator_def returned_operator_def split: if_splits sum.splits)
  show "validate_operator lib (returned_operator op) = Inr ()"
    using assms by (cases "op_type op = lit ''list''") (auto simp: validate_operator_def returned_operator_def validate_list_Inr)
  show "canonical_leaf_of lib (returned_operator op) = canonical_leaf_of lib op"
    by (cases op) (auto simp: returned_operator_def)
  show "operator_to_wire op \<noteq> JNull" by (cases op) auto
qed

text \<open>
  A toggle changes nothing else: for every rule the bridge would send, the JSON a GUI
  received, sent back with the switch turned either way, is read as a rule with that
  switch whose meaning to the daemon (name, action, duration, description, precedence,
  logging and every condition) is unchanged, and which passes the operator checks again.
  It is recognised as a pure toggle of the rule it came from.
\<close>

theorem toggle_changes_nothing_else:
  assumes name: "validate_rule_name (r_name r) = Inr ()" and fields: "r_action r \<noteq> []" "r_duration r \<noteq> []"
    and op: "r_operator r = Some op" "validate_operator lib op = Inr ()"
  shows "\<exists>r'. rule_from_wire lib (rule_to_wire lib es reason_text (r\<lparr> r_enabled := switch \<rparr>)) = Inr r'
    \<and> canonical lib r' = canonical lib r \<and> r_enabled r' = switch
    \<and> (\<exists>op'. r_operator r' = Some op' \<and> validate_operator lib op' = Inr ())
    \<and> requested_toggle lib r (rule_to_wire lib es reason_text (r\<lparr> r_enabled := switch \<rparr>)) = Some switch"
proof -
  let ?r' = "r\<lparr> r_enabled := switch, r_created := 0, r_operator := Some (returned_operator op) \<rparr>"
  have read: "rule_from_wire lib (rule_to_wire lib es reason_text (r\<lparr> r_enabled := switch \<rparr>)) = Inr ?r'"
    using name fields op operator_round_trip[OF op(2)]
    by (simp add: rule_from_wire_def rule_to_wire_def nonempty_field_def str_field_def bool_field_def)
  moreover have "canonical lib ?r' = canonical lib r"
    using op(1) operator_round_trip(3)[OF op(2)] by (simp add: canonical_def)
  ultimately show ?thesis
    using operator_round_trip(2)[OF op(2)] by (simp add: requested_toggle_def)
qed

theorem toggle_changes_nothing_else_witness:
  "requested_toggle no_regex example_edited (rule_to_wire no_regex [] (\<lambda>_. []) (example_edited\<lparr> r_enabled := False \<rparr>)) = Some False"
proof -
  have "validate_rule_name (r_name example_edited) = Inr ()" "r_action example_edited \<noteq> []" "r_duration example_edited \<noteq> []"
    "validate_operator no_regex (the (r_operator example_edited)) = Inr ()" by code_simp+
  moreover have "r_operator example_edited = Some (the (r_operator example_edited))" by (simp add: example_edited_def)
  ultimately show ?thesis using toggle_changes_nothing_else by metis
qed

end
