(* ===== verification/Blocklists.thy ===== *)
theory Blocklists
  imports Rule_Policy
begin

text \<open>
  The pure part of \<open>blocklists/\<close>: reading a downloaded list (\<open>format.rs\<close>), the directory
  names, entries and lines of its files (\<open>list_dir.rs\<close>), the rules it becomes
  (\<open>materializer.rs\<close>) and the command that installs or deletes one
  (\<open>daemon_commands/blocklist_command.rs\<close>).

  SHA-256 is the argument \<open>sha\<close>; the JSON text of a rule's description is the argument
  \<open>describe\<close> (\<open>serde_json\<close>). Files are the text written to them.
\<close>

section \<open>Reading a list (format.rs)\<close>

datatype list_format = Hosts | Domains_format | AdblockPlus

definition MAX_ENTRIES :: nat where "MAX_ENTRIES = 1000000"

definition is_valid_hostname :: "rstr \<Rightarrow> bool" where
  "is_valid_hostname s =
     (if s = [] \<or> str_len s > 253 then False
      else list_all (\<lambda>label. label \<noteq> [] \<and> str_len label \<le> 63
               \<and> list_all (\<lambda>c. is_ascii_alphanumeric c \<or> c = 45) label
               \<and> hd label \<noteq> 45 \<and> last label \<noteq> 45) (split_on 46 s)
           \<and> 46 \<in> set s)"

definition is_local_loopback :: "rstr \<Rightarrow> bool" where
  "is_local_loopback host \<longleftrightarrow>
     host \<in> {lit ''localhost'', lit ''localhost.localdomain'', lit ''local'', lit ''broadcasthost'',
             lit ''ip6-localhost'', lit ''ip6-loopback''}"

definition skipped_line :: "rstr \<Rightarrow> bool" where
  "skipped_line line \<longleftrightarrow> line = [] \<or> hd line = 35 \<or> hd line = 33 \<or> hd line = 91"

fun sniff_lines :: "rstr list \<Rightarrow> nat \<times> nat \<times> nat \<Rightarrow> nat \<times> nat \<times> nat" where
  "sniff_lines [] hits = hits"
| "sniff_lines (l # ls) (hosts, abp, domain) =
     (let line = trim l
      in sniff_lines ls
           (if skipped_line line then (hosts, abp, domain)
            else if prefix (lit ''||'') line \<and> 94 \<in> set line then (hosts, abp + 1, domain)
            else if prefix (lit ''0.0.0.0'') line \<or> prefix (lit ''127.0.0.1'') line then (hosts + 1, abp, domain)
            else if is_valid_hostname line then (hosts, abp, domain + 1)
            else (hosts, abp, domain)))"

definition sniff_format :: "rstr \<Rightarrow> list_format" where
  "sniff_format body =
     (let (hosts_hits, abp_hits, domain_hits) = sniff_lines (take 64 (str_lines body)) (0, 0, 0)
      in if abp_hits \<ge> hosts_hits \<and> abp_hits \<ge> domain_hits \<and> abp_hits > 0 then AdblockPlus
         else if hosts_hits \<ge> domain_hits \<and> hosts_hits > 0 then Hosts
         else Domains_format)"

definition parse_hosts_line :: "rstr \<Rightarrow> rstr option" where
  "parse_hosts_line line =
     (case split_whitespace line of _ # host # _ \<Rightarrow> Some (to_ascii_lowercase host) | _ \<Rightarrow> None)"

definition parse_domains_line :: "rstr \<Rightarrow> rstr option" where
  "parse_domains_line line =
     (case split_whitespace line of token # _ \<Rightarrow> Some (to_ascii_lowercase token) | [] \<Rightarrow> None)"

definition parse_abp_line :: "rstr \<Rightarrow> rstr option" where
  "parse_abp_line line =
     (if \<not> prefix (lit ''||'') line then None
      else let host = takeWhile (\<lambda>c. c \<notin> {94, 36, 47}) (drop 2 line)
           in if host = [] then None else Some (to_ascii_lowercase host))"

definition parse_line :: "list_format \<Rightarrow> rstr \<Rightarrow> rstr option" where
  "parse_line format line =
     (case format of Hosts \<Rightarrow> parse_hosts_line line | Domains_format \<Rightarrow> parse_domains_line line
      | AdblockPlus \<Rightarrow> parse_abp_line line)"

datatype too_many_entries = TooManyEntries nat

fun parse_lines :: "list_format \<Rightarrow> nat \<Rightarrow> rstr list \<Rightarrow> rstr fset \<Rightarrow> too_many_entries + rstr fset" where
  "parse_lines format limit [] hosts = Inr hosts"
| "parse_lines format limit (l # ls) hosts =
     (let line = trim l
      in if skipped_line line then parse_lines format limit ls hosts
         else case parse_line format line of
                None \<Rightarrow> parse_lines format limit ls hosts
              | Some host \<Rightarrow>
                  if is_valid_hostname host \<and> \<not> is_local_loopback host
                  then (let hosts = finsert host hosts
                        in if fcard hosts > limit then Inl (TooManyEntries limit)
                           else parse_lines format limit ls hosts)
                  else parse_lines format limit ls hosts)"

definition parse_with_limit :: "list_format \<Rightarrow> rstr \<Rightarrow> nat \<Rightarrow> too_many_entries + rstr list" where
  "parse_with_limit format body limit =
     (case parse_lines format limit (str_lines body) {||} of
        Inl e \<Rightarrow> Inl e | Inr hosts \<Rightarrow> Inr (sorted_list_of_fset hosts))"

definition parse_list :: "list_format \<Rightarrow> rstr \<Rightarrow> too_many_entries + rstr list" where
  "parse_list format body = parse_with_limit format body MAX_ENTRIES"

section \<open>List files (list\_dir.rs)\<close>

definition LISTS_DIR_NAME :: rstr where "LISTS_DIR_NAME = lit ''blocklists''"
definition MAX_ID_COMPONENT_BYTES :: nat where "MAX_ID_COMPONENT_BYTES = 81"
definition HASHED_STEM_CHARS :: nat where "HASHED_STEM_CHARS = 40"
definition LONGEST_HOST :: nat where "LONGEST_HOST = 253"

definition is_plain_char :: "rchar \<Rightarrow> bool" where
  "is_plain_char c \<longleftrightarrow> is_ascii_alphanumeric c \<or> c = 45 \<or> c = 95"

definition is_plain :: "rstr \<Rightarrow> bool" where
  "is_plain ident \<longleftrightarrow> ident \<noteq> [] \<and> str_len ident \<le> MAX_ID_COMPONENT_BYTES \<and> list_all is_plain_char ident"

text \<open>An \<open>IdComponent\<close> is its text.\<close>

definition id_from :: "(nat list \<Rightarrow> nat list) \<Rightarrow> rstr \<Rightarrow> rstr" where
  "id_from sha ident =
     (if is_plain ident then ident
      else let stem = take HASHED_STEM_CHARS (filter is_plain_char ident);
               stem = (if stem = [] then lit ''list'' else stem)
           in stem @ 46 # digest_hex sha ident)"

definition is_lower_hex :: "rchar \<Rightarrow> bool" where
  "is_lower_hex c \<longleftrightarrow> is_ascii_digit c \<or> (97 \<le> c \<and> c \<le> 102)"

definition id_parse :: "rstr \<Rightarrow> rstr option" where
  "id_parse name =
     (if is_plain name then Some name
      else case split_once 46 name of
             None \<Rightarrow> None
           | Some (stem, hash) \<Rightarrow>
               if is_plain stem \<and> str_len stem \<le> HASHED_STEM_CHARS \<and> str_len hash = 16 \<and> list_all is_lower_hex hash
               then Some name else None)"

datatype list_kind = Domains | Ips

record list_entries =
  el_domains :: "rstr list"
  el_ips :: "rstr list"

definition entries_get :: "list_entries \<Rightarrow> list_kind \<Rightarrow> rstr list" where
  "entries_get e kind = (case kind of Domains \<Rightarrow> el_domains e | Ips \<Rightarrow> el_ips e)"

definition is_blockable_ip :: "nat list \<Rightarrow> bool" where
  "is_blockable_ip octets =
     (let first = octets ! 0; second = octets ! 1; third = octets ! 2;
          cgnat = (first = 100 \<and> 64 \<le> second \<and> second < 128);
          ietf = (first = 192 \<and> second = 0 \<and> third = 0);
          benchmarking = (first = 198 \<and> (second = 18 \<or> second = 19));
          is_loopback = (first = 127);
          is_private = (first = 10 \<or> (first = 172 \<and> 16 \<le> second \<and> second \<le> 31) \<or> (first = 192 \<and> second = 168));
          is_link_local = (first = 169 \<and> second = 254);
          is_multicast = (224 \<le> first \<and> first \<le> 239)
      in \<not> (is_loopback \<or> ietf \<or> benchmarking \<or> first = 0 \<or> is_private \<or> is_link_local \<or> cgnat
            \<or> is_multicast \<or> first \<ge> 240))"

definition is_list_host :: "rstr \<Rightarrow> bool" where
  "is_list_host host \<longleftrightarrow>
     str_len host \<le> LONGEST_HOST \<and> 46 \<in> set host \<and> hd host \<noteq> 46 \<and> host \<noteq> lit ''localhost.localdomain''
     \<and> list_all (\<lambda>c. (97 \<le> c \<and> c \<le> 122) \<or> is_ascii_digit c \<or> c = 46 \<or> c = 45) host"

definition classify_one :: "rstr \<Rightarrow> list_entries \<Rightarrow> list_entries" where
  "classify_one host e =
     (case parse_ipv4 host of
        Some ip \<Rightarrow> if is_blockable_ip ip then e\<lparr> el_ips := el_ips e @ [ipv4_to_string ip] \<rparr> else e
      | None \<Rightarrow> if is_list_host host then e\<lparr> el_domains := el_domains e @ [host] \<rparr> else e)"

definition classify :: "rstr list \<Rightarrow> list_entries" where
  "classify hosts = fold classify_one hosts \<lparr> el_domains = [], el_ips = [] \<rparr>"

datatype write_error = InvalidData | TooLarge

definition list_line :: "list_kind \<Rightarrow> rstr \<Rightarrow> rstr option" where
  "list_line kind entry =
     (case kind of
        Domains \<Rightarrow> if is_list_host entry then Some (lit ''0.0.0.0 '' @ entry @ [10]) else None
      | Ips \<Rightarrow>
          (case parse_ipv4 entry of
             Some ip \<Rightarrow> if ipv4_to_string ip = entry \<and> is_blockable_ip ip then Some (entry @ [10]) else None
           | None \<Rightarrow> None))"

fun write_lines :: "nat \<Rightarrow> list_kind \<Rightarrow> rstr list \<Rightarrow> nat \<Rightarrow> write_error + rstr" where
  "write_lines max_bytes kind [] bytes = Inr []"
| "write_lines max_bytes kind (entry # es) bytes =
     (case list_line kind entry of
        None \<Rightarrow> Inl InvalidData
      | Some line \<Rightarrow>
          if bytes + str_len line > max_bytes then Inl TooLarge
          else case write_lines max_bytes kind es (bytes + str_len line) of
                 Inl e \<Rightarrow> Inl e | Inr rest \<Rightarrow> Inr (line @ rest))"

section \<open>Rules (materializer.rs)\<close>

fun list_operand :: "list_kind \<Rightarrow> rstr" where
  "list_operand Domains = lit ''lists.domains''"
| "list_operand Ips = lit ''lists.ips''"

fun dir_name :: "list_kind \<Rightarrow> rstr" where
  "dir_name Domains = lit ''domains''"
| "dir_name Ips = lit ''ips''"

definition from_operand :: "rstr \<Rightarrow> list_kind option" where
  "from_operand operand = find (\<lambda>kind. list_operand kind = operand) [Domains, Ips]"

definition list_rule_name :: "rstr \<Rightarrow> list_kind \<Rightarrow> rstr" where
  "list_rule_name list kind = BLOCKLIST_RULE_NAME_PREFIX @ list @ 58 # dir_name kind"

definition owned_rule_name_prefixes :: "rstr \<Rightarrow> rstr list" where
  "owned_rule_name_prefixes list =
     [BLOCKLIST_RULE_NAME_PREFIX @ list @ [58], LEGACY_BLOCKLIST_RULE_NAME_PREFIX @ list @ [58]]"

definition list_of_rule_name :: "rstr \<Rightarrow> rstr option" where
  "list_of_rule_name name =
     (if prefix BLOCKLIST_RULE_NAME_PREFIX name
      then Some (hd (split_on 58 (drop (length BLOCKLIST_RULE_NAME_PREFIX) name)))
      else if prefix LEGACY_BLOCKLIST_RULE_NAME_PREFIX name
      then Some (hd (split_on 58 (drop (length LEGACY_BLOCKLIST_RULE_NAME_PREFIX) name)))
      else None)"

definition materialize_list_rule :: "(rstr \<Rightarrow> list_kind \<Rightarrow> rstr) \<Rightarrow> rstr \<Rightarrow> list_kind \<Rightarrow> rstr \<Rightarrow> rule" where
  "materialize_list_rule describe list kind dir =
     \<lparr> r_created = 0, r_name = list_rule_name list kind, r_description = describe list kind, r_enabled = True,
       r_precedence = False, r_nolog = False, r_action = lit ''deny'', r_duration = lit ''always'',
       r_operator = Some (Operator (lit ''lists'') (list_operand kind) dir False []) \<rparr>"

definition kind_dir :: "rstr \<Rightarrow> rstr \<Rightarrow> list_kind \<Rightarrow> rstr" where
  "kind_dir root list kind = path_join (path_join root list) (dir_name kind)"

section \<open>Commands (daemon\_commands.rs, blocklist\_command.rs)\<close>

datatype send_error =
  NotAllowed | InvalidRuleName | ReservedName | RefusedOperator | NoDaemon | NotQueued | NotOnThisTransport

definition command_of :: "action \<Rightarrow> rule \<Rightarrow> notification" where
  "command_of a r = \<lparr> n_id = 0, n_type = a, n_rules = [r] \<rparr>"

text \<open>A rule that is all default values but its name, as deletes carry.\<close>

definition named_rule :: "rstr \<Rightarrow> rule" where
  "named_rule name =
     \<lparr> r_created = 0, r_name = name, r_description = [], r_enabled = False, r_precedence = False, r_nolog = False,
       r_action = [], r_duration = [], r_operator = None \<rparr>"

definition blocklist_install :: "(rstr \<Rightarrow> list_kind \<Rightarrow> rstr) \<Rightarrow> rstr \<Rightarrow> list_kind \<Rightarrow> rstr \<Rightarrow> notification" where
  "blocklist_install describe list kind root =
     command_of ChangeRule (materialize_list_rule describe list kind (kind_dir root list kind))"

definition blocklist_delete :: "rstr \<Rightarrow> notification option" where
  "blocklist_delete name =
     (if \<not> is_reserved_blocklist_name name \<or> validate_rule_name name \<noteq> Inr () then None
      else Some (command_of DeleteRule (named_rule name)))"

definition data_matches :: "rstr \<Rightarrow> list_kind \<Rightarrow> rstr \<Rightarrow> rstr \<Rightarrow> bool" where
  "data_matches data kind name root =
     (case data of
        [] \<Rightarrow> False
      | c # relative \<Rightarrow>
          c = 47
          \<and> list_all (\<lambda>segment. segment \<noteq> [] \<and> segment \<noteq> [46] \<and> segment \<noteq> [46, 46]) (split_on 47 relative)
          \<and> list_all (\<lambda>c. case c of Normal _ \<Rightarrow> True | _ \<Rightarrow> False) (tl (components data))
          \<and> (case strip_prefix_path root data of
               None \<Rightarrow> False
             | Some below_root \<Rightarrow>
                 (case map component_str below_root of
                    [list, kd] \<Rightarrow>
                      file_name root = Some LISTS_DIR_NAME \<and> kd = dir_name kind
                      \<and> (case id_parse list of Some list \<Rightarrow> list_rule_name list kind = name | None \<Rightarrow> False)
                  | _ \<Rightarrow> False)))"

definition blocklist_check :: "notification \<Rightarrow> rstr option \<Rightarrow> send_error + unit" where
  "blocklist_check n pinned =
     (case n_rules n of
        [r] \<Rightarrow>
          if validate_rule_name (r_name r) \<noteq> Inr () then Inl InvalidRuleName
          else if n_type n = DeleteRule
          then (if is_reserved_blocklist_name (r_name r) \<and> r_operator r = None then Inr () else Inl RefusedOperator)
          else if n_type n \<noteq> ChangeRule then Inl NotAllowed
          else (case pinned of
                  None \<Rightarrow> Inl RefusedOperator
                | Some root \<Rightarrow>
                    let shape_ok = (prefix BLOCKLIST_RULE_NAME_PREFIX (r_name r) \<and> r_action r = lit ''deny''
                                    \<and> r_duration r = lit ''always'' \<and> r_enabled r \<and> \<not> r_precedence r);
                        operator_ok = (case r_operator r of
                            None \<Rightarrow> False
                          | Some op \<Rightarrow> op_type op = lit ''lists'' \<and> op_list op = [] \<and> \<not> op_sensitive op
                              \<and> (case from_operand (op_operand op) of
                                   Some kind \<Rightarrow> data_matches (op_data op) kind (r_name r) root
                                 | None \<Rightarrow> False))
                    in if shape_ok \<and> operator_ok then Inr () else Inl RefusedOperator)
      | _ \<Rightarrow> Inl RefusedOperator)"

end
