(* ===== verification/Bridge_Commands.thy ===== *)
theory Bridge_Commands
  imports Rule_Wire Blocklists
begin

text \<open>
  The rule commands the bridge builds itself, beside those of blocklists: profile rules
  (\<open>profiles/materializer.rs\<close>, \<open>daemon_commands/profile_command.rs\<close>) and curated defaults
  (\<open>daemon_commands/curated_command.rs\<close>), each with the check it passes again at the send
  point.

  Parameters: \<open>sha\<close> (SHA-256), \<open>describe\<close> (the JSON text of a profile rule's
  description) and \<open>source_tag\<close> (the string \<open>serde_json\<close> reads back at
  \<open>snitchwatch.source\<close> of a description).
\<close>

section \<open>Profile rules (profiles/materializer.rs)\<close>

record profile_rule =
  pr_id :: rstr
  pr_action :: rstr
  pr_operand :: rstr
  pr_data :: rstr
  pr_operator :: "json option"

definition MAX_RULE_ID_LEN :: nat where "MAX_RULE_ID_LEN = 64"
definition MAX_PLAIN_PROFILE_ID :: nat where "MAX_PLAIN_PROFILE_ID = 64"
definition PROFILE_STEM_CHARS :: nat where "PROFILE_STEM_CHARS = 40"

definition valid_rule_id :: "rstr \<Rightarrow> bool" where
  "valid_rule_id ident \<longleftrightarrow> 1 \<le> str_len ident \<and> str_len ident \<le> MAX_RULE_ID_LEN \<and> list_all is_plain_char ident"

definition profile_segment :: "(nat list \<Rightarrow> nat list) \<Rightarrow> rstr \<Rightarrow> rstr" where
  "profile_segment sha ident =
     (if str_len ident \<le> MAX_PLAIN_PROFILE_ID \<and> ident \<noteq> [] \<and> list_all is_plain_char ident then ident
      else take PROFILE_STEM_CHARS (map (\<lambda>c. if is_plain_char c then c else 95) ident) @ 46 # digest_hex sha ident)"

definition profile_rule_name :: "(nat list \<Rightarrow> nat list) \<Rightarrow> rstr \<Rightarrow> rstr \<Rightarrow> rstr" where
  "profile_rule_name sha profile_id rule_id =
     PROFILE_RULE_NAME_PREFIX @ profile_segment sha profile_id @ 58 # rule_id"

datatype profile_problem =
  RULE_ID_UNUSABLE | DUPLICATE_RULE_ID | BadConditions wire_error | ProfilePolicy "rule_problem list"

definition profile_conditions :: "profile_rule \<Rightarrow> wire_error + operator" where
  "profile_conditions pr =
     (case pr_operator pr of
        Some wire \<Rightarrow> operator_from_wire wire
      | None \<Rightarrow> Inr (Operator (lit ''simple'') (pr_operand pr) (pr_data pr) (pr_operand pr = lit ''process.path'') []))"

definition materialize_rule ::
  "(nat list \<Rightarrow> nat list) \<Rightarrow> regex_lib \<Rightarrow> (rstr \<Rightarrow> rstr \<Rightarrow> rstr) \<Rightarrow> rstr \<Rightarrow> profile_rule \<Rightarrow> profile_problem + rule" where
  "materialize_rule sha lib describe profile_id pr =
     (if \<not> valid_rule_id (pr_id pr) then Inl RULE_ID_UNUSABLE
      else case profile_conditions pr of
             Inl e \<Rightarrow> Inl (BadConditions e)
           | Inr op \<Rightarrow>
               let materialized =
                     \<lparr> r_created = 0, r_name = profile_rule_name sha profile_id (pr_id pr),
                       r_description = describe profile_id (pr_id pr), r_enabled = True, r_precedence = False,
                       r_nolog = False, r_action = pr_action pr, r_duration = lit ''always'', r_operator = Some op \<rparr>
               in case validate_user_rule lib materialized ProfileRule of
                    Inl ps \<Rightarrow> Inl (ProfilePolicy ps) | Inr _ \<Rightarrow> Inr materialized)"

fun materialize_from ::
  "(profile_rule \<Rightarrow> profile_problem + rule) \<Rightarrow> rstr list \<Rightarrow> profile_rule list \<Rightarrow> (rstr \<times> (profile_problem + rule)) list" where
  "materialize_from f seen [] = []"
| "materialize_from f seen (pr # prs) =
     (pr_id pr, if pr_id pr \<in> set seen then Inl DUPLICATE_RULE_ID else f pr) # materialize_from f (pr_id pr # seen) prs"

definition materialize_profile ::
  "(nat list \<Rightarrow> nat list) \<Rightarrow> regex_lib \<Rightarrow> (rstr \<Rightarrow> rstr \<Rightarrow> rstr) \<Rightarrow> rstr \<Rightarrow> profile_rule list
   \<Rightarrow> (rstr \<times> (profile_problem + rule)) list" where
  "materialize_profile sha lib describe profile_id prs =
     materialize_from (materialize_rule sha lib describe profile_id) [] prs"

definition made_by_bridge :: "(rstr \<Rightarrow> rstr option) \<Rightarrow> rule \<Rightarrow> bool" where
  "made_by_bridge source_tag r \<longleftrightarrow>
     is_reserved_profile_name (r_name r) \<and> source_tag (r_description r) = Some (lit ''profile'')"

section \<open>Profile commands\<close>

definition profile_install :: "rule \<Rightarrow> notification" where
  "profile_install r = command_of ChangeRule r"

definition profile_delete :: "rstr \<Rightarrow> notification option" where
  "profile_delete name =
     (if \<not> is_reserved_profile_name name \<or> validate_rule_name name \<noteq> Inr () then None
      else Some (command_of DeleteRule (named_rule name)))"

definition profile_check :: "regex_lib \<Rightarrow> (rstr \<Rightarrow> rstr option) \<Rightarrow> notification \<Rightarrow> send_error + unit" where
  "profile_check lib source_tag n =
     (case n_rules n of
        [r] \<Rightarrow>
          if validate_rule_name (r_name r) \<noteq> Inr () then Inl InvalidRuleName
          else if \<not> is_reserved_profile_name (r_name r) then Inl ReservedName
          else if n_type n = DeleteRule then (case r_operator r of None \<Rightarrow> Inr () | Some _ \<Rightarrow> Inl RefusedOperator)
          else if n_type n \<noteq> ChangeRule then Inl NotAllowed
          else if r_enabled r \<and> made_by_bridge source_tag r \<and> validate_user_rule lib r ProfileRule = Inr ()
          then Inr () else Inl RefusedOperator
      | _ \<Rightarrow> Inl RefusedOperator)"

section \<open>Curated commands\<close>

record curated_command =
  cc_notification :: notification
  cc_broad_authorized :: bool

definition curated_change :: "rule \<Rightarrow> curated_command" where
  "curated_change r = \<lparr> cc_notification = command_of ChangeRule r, cc_broad_authorized = False \<rparr>"

definition authorize :: "curated_command \<Rightarrow> curated_command" where
  "authorize c = c\<lparr> cc_broad_authorized := True \<rparr>"

definition install_as :: "curated_entry \<Rightarrow> nat option \<Rightarrow> curated_command" where
  "install_as e account_uid = curated_change (rule_as e account_uid)"

definition upgrade :: "regex_lib \<Rightarrow> curated_entry \<Rightarrow> rule \<Rightarrow> nat option \<Rightarrow> curated_command option" where
  "upgrade lib e current account_uid =
     (let moved = (account_uid \<noteq> None \<and> is_unedited lib (Some e) None current \<and> sender_uid current \<noteq> account_uid)
      in if is_legacy lib e current \<or> moved
         then Some (curated_change ((rule_as e account_uid)\<lparr> r_enabled := r_enabled current, r_created := r_created current \<rparr>))
         else None)"

definition authorized_upgrade :: "regex_lib \<Rightarrow> curated_entry \<Rightarrow> rule \<Rightarrow> nat option \<Rightarrow> curated_command option" where
  "authorized_upgrade lib e current account_uid = map_option authorize (upgrade lib e current account_uid)"

definition toggle_command :: "regex_lib \<Rightarrow> curated_entry list \<Rightarrow> rule \<Rightarrow> bool \<Rightarrow> curated_command option" where
  "toggle_command lib es current enabled =
     (if \<not> curated_toggleable lib es current then None
      else case entry_for_rule_name es (r_name current) of
             None \<Rightarrow> None
           | Some e \<Rightarrow>
               let r = (if is_unedited lib (Some e) None current then rule_matching e current
                        else if \<not> enabled then legacy_rule e else None)
               in map_option (\<lambda>r. curated_change (r\<lparr> r_enabled := enabled, r_created := r_created current \<rparr>)) r)"

definition authorized_install :: "curated_entry \<Rightarrow> nat option \<Rightarrow> curated_command" where
  "authorized_install e account_uid = authorize (install_as e account_uid)"

definition authorized_toggle :: "regex_lib \<Rightarrow> curated_entry list \<Rightarrow> rule \<Rightarrow> curated_command option" where
  "authorized_toggle lib es current = map_option authorize (toggle_command lib es current True)"

definition curated_name :: "rstr \<Rightarrow> bool" where
  "curated_name name \<longleftrightarrow>
     validate_rule_name name = Inr () \<and> (case strip_curated name of Some ident \<Rightarrow> valid_id ident | None \<Rightarrow> False)"

definition curated_delete :: "rstr \<Rightarrow> curated_command option" where
  "curated_delete name =
     (if \<not> curated_name name then None
      else Some \<lparr> cc_notification = command_of DeleteRule (named_rule name), cc_broad_authorized = False \<rparr>)"

definition broad_rule :: "curated_entry list \<Rightarrow> rule \<Rightarrow> bool" where
  "broad_rule es r \<longleftrightarrow>
     r_enabled r \<and> (case entry_for_rule_name es (r_name r) of Some e \<Rightarrow> broad e | None \<Rightarrow> False)"

definition curated_check :: "regex_lib \<Rightarrow> curated_entry list \<Rightarrow> curated_command \<Rightarrow> send_error + unit" where
  "curated_check lib es c =
     (case n_rules (cc_notification c) of
        [r] \<Rightarrow>
          if validate_rule_name (r_name r) \<noteq> Inr () then Inl InvalidRuleName
          else if n_type (cc_notification c) = DeleteRule
          then (if curated_name (r_name r) \<and> r_operator r = None then Inr () else Inl RefusedOperator)
          else if n_type (cc_notification c) \<noteq> ChangeRule then Inl NotAllowed
          else if \<not> (case entry_for_rule_name es (r_name r) of
                         Some e \<Rightarrow> is_unedited lib (Some e) None r \<or> (\<not> r_enabled r \<and> is_legacy lib e r)
                       | None \<Rightarrow> False)
          then Inl RefusedOperator
          else if broad_rule es r \<and> \<not> cc_broad_authorized c then Inl ReservedName
          else if check_curated_rule lib r = Inr () then Inr () else Inl RefusedOperator
      | _ \<Rightarrow> Inl RefusedOperator)"

end
