(* ===== verification/Rules_Props.thy ===== *)
theory Rules_Props
  imports Rules_Cache
begin

text \<open>
  Properties of the rule list: what a duration string means, which rules expire, the
  invariant every operation keeps, what the revision counter promises to a reader that
  compares two of its values, when the marker of a left file goes, and what it takes to
  raise or clear the rule-count hint.
\<close>

section \<open>Durations\<close>

type_synonym duration_parts = "(rstr \<times> rchar) list"

definition print_parts :: "duration_parts \<Rightarrow> rstr" where
  "print_parts parts = concat (map (\<lambda>(ds, u). ds @ [u]) parts)"

definition parts_ok :: "duration_parts \<Rightarrow> bool" where
  "parts_ok parts \<longleftrightarrow> list_all (\<lambda>(ds, u). ds \<noteq> [] \<and> list_all is_ascii_digit ds \<and> duration_unit u \<noteq> None) parts"

definition parts_secs :: "duration_parts \<Rightarrow> int" where
  "parts_secs parts = (\<Sum>(ds, u) \<leftarrow> parts. int (decimal_value ds) * the (duration_unit u))"

lemma parts_simps [simp]:
  "print_parts [] = []" "print_parts ((ds, u) # ps) = ds @ u # print_parts ps"
  "parts_ok []" "parts_ok ((ds, u) # ps) \<longleftrightarrow> ds \<noteq> [] \<and> list_all is_ascii_digit ds \<and> duration_unit u \<noteq> None \<and> parts_ok ps"
  "parts_secs [] = 0" "parts_secs ((ds, u) # ps) = int (decimal_value ds) * the (duration_unit u) + parts_secs ps"
  by (simp_all add: print_parts_def parts_ok_def parts_secs_def)

lemma duration_unit_pos: "duration_unit u = Some k \<Longrightarrow> 0 < k \<and> \<not> is_ascii_digit u"
  by (auto simp: duration_unit_def is_ascii_digit_def split: if_splits)

lemma parts_secs_nonneg: "parts_ok ps \<Longrightarrow> 0 \<le> parts_secs ps"
proof (induction ps)
  case (Cons p ps)
  then show ?case using duration_unit_pos by (cases p) fastforce
qed simp

lemma digits_then_unit:
  assumes "list_all is_ascii_digit ds" "list_all is_ascii_digit ds'" "\<not> is_ascii_digit u" "\<not> is_ascii_digit u'"
    and "ds @ u # rest = ds' @ u' # rest'"
  shows "ds = ds' \<and> u = u' \<and> rest = rest'"
proof -
  have tw: "takeWhile is_ascii_digit (ds @ u # rest) = ds" "takeWhile is_ascii_digit (ds' @ u' # rest') = ds'"
    using assms(1-4) by (simp_all add: takeWhile_append2 list_all_iff)
  with assms(5) have "ds = ds'" by metis
  with assms(5) show ?thesis by simp
qed

lemma i64_checked_Some: "i64_checked x = Some y \<longleftrightarrow> y = x \<and> I64_MIN \<le> x \<and> x \<le> I64_MAX"
  by (auto simp: i64_checked_def)

lemma duration_loop_exact:
  assumes "0 \<le> s" "s \<le> I64_MAX" "list_all is_ascii_digit ds"
  shows "duration_loop s ds cs = Some t \<longleftrightarrow>
     (\<exists>ps. ds @ cs = print_parts ps \<and> parts_ok ps \<and> t = s + parts_secs ps \<and> t \<le> I64_MAX)"
  using assms
proof (induction s ds cs rule: duration_loop.induct)
  case (1 s ds)
  have empty: "ds = print_parts ps \<Longrightarrow> parts_ok ps \<Longrightarrow> ps = []" for ps
  proof (induction ps rule: rev_induct)
    case (snoc p ps)
    obtain d u where p: "p = (d, u)" by (cases p)
    have "print_parts (ps @ [p]) = print_parts ps @ d @ [u]" by (simp add: print_parts_def p)
    then have "u \<in> set ds" using snoc.prems(1) by simp
    moreover have "duration_unit u \<noteq> None" using snoc.prems(2) by (simp add: parts_ok_def p)
    ultimately show ?case using 1(3) duration_unit_pos by (fastforce simp: list_all_iff)
  qed simp
  show ?case
  proof
    assume "duration_loop s ds [] = Some t"
    then have "ds = []" "t = s" by (auto split: if_splits)
    then show "\<exists>ps. ds @ [] = print_parts ps \<and> parts_ok ps \<and> t = s + parts_secs ps \<and> t \<le> I64_MAX"
      using 1 by (intro exI[of _ "[]"]) simp
  next
    assume "\<exists>ps. ds @ [] = print_parts ps \<and> parts_ok ps \<and> t = s + parts_secs ps \<and> t \<le> I64_MAX"
    then obtain ps where ps: "ds = print_parts ps" "parts_ok ps" "t = s + parts_secs ps" by auto
    then show "duration_loop s ds [] = Some t" using empty[OF ps(1,2)] by simp
  qed
next
  case (2 s ds c cs)
  show ?case
  proof (cases "is_ascii_digit c")
    case True
    then show ?thesis using 2(1)[OF True] 2(3-5) by simp
  next
    case False
    have first: "ps = (ds, c) # tl ps \<and> cs = print_parts (tl ps) \<and> ds \<noteq> [] \<and> duration_unit c \<noteq> None \<and> parts_ok (tl ps)"
      if eq: "ds @ c # cs = print_parts ps" and ok: "parts_ok ps" for ps
    proof (cases ps)
      case (Cons p ps')
      obtain d u where p: "p = (d, u)" by (cases p)
      have "ds = d \<and> c = u \<and> cs = print_parts ps'"
        using eq ok False 2(5) duration_unit_pos[of u] by (intro digits_then_unit) (auto simp: Cons p)
      then show ?thesis using ok by (simp add: Cons p)
    qed (use eq in simp)
    show ?thesis
    proof (cases "duration_unit c")
      case None
      then show ?thesis using False first by fastforce
    next
      case (Some u)
      have u: "0 < u" using duration_unit_pos[OF Some] by simp
      let ?v = "int (decimal_value ds)"
      have pos: "0 \<le> ?v * u" "?v \<le> ?v * u" using u by (simp_all add: mult_le_cancel_left1)
      have min: "I64_MIN \<le> 0" by (simp add: I64_MIN_def)
      have unfold: "duration_loop s ds (c # cs) =
          (if ds \<noteq> [] \<and> s + ?v * u \<le> I64_MAX then duration_loop (s + ?v * u) [] cs else None)"
        using False Some 2(3,4) pos min
        by (auto simp: parse_i64_def i64_checked_def)
      show ?thesis
      proof (cases "ds \<noteq> [] \<and> s + ?v * u \<le> I64_MAX")
        case True
        have "duration_loop (s + ?v * u) [] cs = Some t \<longleftrightarrow>
            (\<exists>ps. [] @ cs = print_parts ps \<and> parts_ok ps \<and> t = s + ?v * u + parts_secs ps \<and> t \<le> I64_MAX)"
          by (rule 2(2)[OF False Some, of ?v "?v * u" "s + ?v * u"])
            (use True 2(3,4) pos min in \<open>auto simp: parse_i64_def i64_checked_def\<close>)
        also have "\<dots> \<longleftrightarrow> (\<exists>ps. ds @ c # cs = print_parts ps \<and> parts_ok ps \<and> t = s + parts_secs ps \<and> t \<le> I64_MAX)"
        proof
          assume "\<exists>ps. [] @ cs = print_parts ps \<and> parts_ok ps \<and> t = s + ?v * u + parts_secs ps \<and> t \<le> I64_MAX"
          then obtain ps where "cs = print_parts ps" "parts_ok ps" "t = s + ?v * u + parts_secs ps" "t \<le> I64_MAX" by auto
          then show "\<exists>ps. ds @ c # cs = print_parts ps \<and> parts_ok ps \<and> t = s + parts_secs ps \<and> t \<le> I64_MAX"
            using True Some 2(5) by (intro exI[of _ "(ds, c) # ps"]) simp
        next
          assume "\<exists>ps. ds @ c # cs = print_parts ps \<and> parts_ok ps \<and> t = s + parts_secs ps \<and> t \<le> I64_MAX"
          then obtain ps where ps: "ds @ c # cs = print_parts ps" "parts_ok ps" "t = s + parts_secs ps" "t \<le> I64_MAX" by blast
          have "parts_secs ps = ?v * u + parts_secs (tl ps)"
            using first[OF ps(1,2)] Some by (metis option.sel parts_simps(6))
          then show "\<exists>ps. [] @ cs = print_parts ps \<and> parts_ok ps \<and> t = s + ?v * u + parts_secs ps \<and> t \<le> I64_MAX"
            using first[OF ps(1,2)] ps(3,4) by (intro exI[of _ "tl ps"]) simp
        qed
        finally show ?thesis unfolding unfold if_P[OF True] .
      next
        case False
        have "\<not> (ds @ c # cs = print_parts ps \<and> parts_ok ps \<and> t = s + parts_secs ps \<and> t \<le> I64_MAX)" for ps
        proof
          assume ps: "ds @ c # cs = print_parts ps \<and> parts_ok ps \<and> t = s + parts_secs ps \<and> t \<le> I64_MAX"
          then have f: "ps = (ds, c) # tl ps" "ds \<noteq> []" "parts_ok (tl ps)" using first by blast+
          have "parts_secs ps = ?v * u + parts_secs (tl ps)" using f(1) Some by (metis option.sel parts_simps(6))
          then show False using ps f parts_secs_nonneg[OF f(3)] False by simp
        qed
        then show ?thesis unfolding unfold if_not_P[OF False] by blast
      qed
    qed
  qed
qed

text \<open>
  A duration means what the daemon means by it: the text has a length exactly when it
  is a non-empty sequence of decimal numbers, each followed by \<open>s\<close>, \<open>m\<close> or
  \<open>h\<close>, whose total fits a signed 64-bit number of seconds, and then it is that total.
\<close>

theorem parse_duration_exact:
  "parse_duration_secs d = Some t \<longleftrightarrow>
     (\<exists>ps. ps \<noteq> [] \<and> d = print_parts ps \<and> parts_ok ps \<and> t = parts_secs ps \<and> t \<le> I64_MAX)"
proof -
  have "d = [] \<longleftrightarrow> ps = []" if "d = print_parts ps" for ps
    using that by (cases ps) auto
  then show ?thesis
    using duration_loop_exact[of 0 "[]" d t] by (auto simp: parse_duration_secs_def I64_MAX_def)
qed

section \<open>The invariant and the revision\<close>

text \<open>
  With no list there are no timers, no left-out rules and no allowance; with one, every
  timer belongs to a listed rule and every rule is listed under its own name. Markers of
  left files are bounded, each has the revision it was made at, and a name taken back is a
  marked name.
\<close>

definition list_inv :: "rules_cache \<Rightarrow> bool" where
  "list_inv c \<longleftrightarrow>
     (case rc_rules c of
        None \<Rightarrow> rc_expiries c = fmempty \<and> rc_left_out c = fmempty \<and> rc_may_hold c = no_may_hold
      | Some rs \<Rightarrow> fmdom (rc_expiries c) |\<subseteq>| fmdom rs \<and> (\<forall>n r. fmlookup rs n = Some r \<longrightarrow> r_name r = n))
     \<and> fcard (mh_refused (rc_may_hold c)) \<le> MAX_MAYBE_APPLIED"

definition files_inv :: "rules_cache \<Rightarrow> bool" where
  "files_inv c \<longleftrightarrow>
     rc_files_left_held c |\<subseteq>| rc_files_left c \<and> fmdom (rc_files_left_revisions c) = rc_files_left c
     \<and> fcard (rc_files_left c) \<le> MAX_FILES_LEFT
     \<and> (\<forall>n r. fmlookup (rc_files_left_revisions c) n = Some r \<longrightarrow> r \<le> rc_revision c)"

definition rules_inv :: "rules_cache \<Rightarrow> bool" where
  "rules_inv c \<longleftrightarrow> list_inv c \<and> files_inv c"

text \<open>What a reader of the list sees, and that it cannot change behind an unchanged revision.\<close>

definition listing :: "rules_cache \<Rightarrow> (rstr, rule) fmap option \<times> (rstr, nat) fmap \<times> rstr fset" where
  "listing c = (rc_rules c, rc_left_out c, rc_files_left c)"

definition advances :: "rules_cache \<Rightarrow> rules_cache \<Rightarrow> bool" where
  "advances c c' \<longleftrightarrow>
     rc_revision c < rc_revision c' \<or> (rc_revision c' = rc_revision c \<and> listing c' = listing c)"

definition sound_change :: "rules_cache \<Rightarrow> rules_cache \<Rightarrow> bool" where
  "sound_change c c' \<longleftrightarrow> (rules_inv c \<longrightarrow> rules_inv c' \<and> advances c c')"

lemma sound_refl [simp]: "sound_change c c"
  by (simp add: sound_change_def advances_def)

lemma sound_trans: "sound_change a b \<Longrightarrow> sound_change b c \<Longrightarrow> sound_change a c"
  by (auto simp: sound_change_def advances_def)

lemma sound_fold: "(\<And>x c. sound_change c (f x c)) \<Longrightarrow> sound_change c (fold f xs c)"
  by (induction xs arbitrary: c) (auto intro: sound_trans)

lemma bump_fields [simp]:
  "rc_revision (bump c) = Suc (rc_revision c)" "rc_rules (bump c) = rc_rules c"
  "rc_left_out (bump c) = rc_left_out c" "rc_files_left (bump c) = rc_files_left c"
  "rc_expiries (bump c) = rc_expiries c" "rc_may_hold (bump c) = rc_may_hold c"
  "rc_files_left_revisions (bump c) = rc_files_left_revisions c"
  "rc_files_left_held (bump c) = rc_files_left_held c" "rc_count_watch (bump c) = rc_count_watch c"
  "rc_snapshot_sequence (bump c) = rc_snapshot_sequence c"
  "rc_over_limit_total (bump c) = rc_over_limit_total c"
  by (simp_all add: bump_def)

lemma fcard_minus_le: "fcard (A |-| B) \<le> fcard A"
  by (rule fcard_mono) auto

lemma mh_forget_none [simp]: "mh_forget n no_may_hold = no_may_hold"
  by (simp add: mh_forget_def no_may_hold_def)

lemma mh_forget_refused: "fcard (mh_refused (mh_forget n m)) \<le> fcard (mh_refused m)"
  by (simp add: mh_forget_def fcard_minus_le)

lemma sound_forget_file [simp]: "sound_change c (forget_file_left n c)"
  using fcard_minus_le[of "rc_files_left c" "{|n|}"]
  by (auto simp: sound_change_def rules_inv_def list_inv_def files_inv_def advances_def listing_def
      forget_file_left_def Let_def le_SucI split: option.splits)

lemma sound_drop_held [simp]: "sound_change c (c\<lparr> rc_files_left_held := rc_files_left_held c |-| {|n|} \<rparr>)"
  by (auto simp: sound_change_def rules_inv_def list_inv_def files_inv_def advances_def listing_def
      split: option.splits)

lemma sound_forget_if_held [simp]: "sound_change c (forget_file_left_if_held n c)"
  unfolding forget_file_left_if_held_def using sound_trans[OF sound_drop_held sound_forget_file] by simp

lemma sound_forget_in_snapshot [simp]: "sound_change c (forget_file_left_in_snapshot observed n c)"
  by (simp add: forget_file_left_in_snapshot_def)

lemma sound_mark_file [simp]: "sound_change c (mark_file_left n c)"
proof -
  have "fcard (finsert n (rc_files_left c)) \<le> MAX_FILES_LEFT"
    if "\<not> (n |\<notin>| rc_files_left c \<and> MAX_FILES_LEFT \<le> fcard (rc_files_left c))" "fcard (rc_files_left c) \<le> MAX_FILES_LEFT"
    using that by (cases "n |\<in>| rc_files_left c") (auto simp: finsert_absorb fcard_finsert_disjoint)
  then show ?thesis
    by (auto simp: sound_change_def rules_inv_def list_inv_def files_inv_def advances_def listing_def
        mark_file_left_def Let_def le_SucI split: option.splits if_splits)
qed

lemma sound_upsert [simp]: "sound_change c (upsert_at r now clock c)"
proof -
  define r' where "r' = (if r_created r = 0 then r\<lparr> r_created := now \<rparr> else r)"
  have "r_name r' = r_name r" by (simp add: r'_def)
  moreover have "fcard (mh_refused (mh_forget n (rc_may_hold c))) \<le> MAX_MAYBE_APPLIED"
    if "fcard (mh_refused (rc_may_hold c)) \<le> MAX_MAYBE_APPLIED" for n
    using that mh_forget_refused le_trans by blast
  ultimately show ?thesis
    unfolding upsert_at_def r'_def[symmetric]
    by (auto simp: sound_change_def rules_inv_def list_inv_def files_inv_def advances_def listing_def Let_def
        le_SucI split: option.splits if_splits)
qed

lemma remove_rule_unknown: "rules_inv c \<Longrightarrow> rc_rules c = None \<Longrightarrow> remove_rule n c = c"
  by (cases c) (auto simp: remove_rule_def rules_inv_def list_inv_def contains_def Let_def)

lemma sound_remove [simp]: "sound_change c (remove_rule n c)"
proof (cases "rc_rules c")
  case None
  then show ?thesis
    using remove_rule_unknown[of c n] by (simp add: sound_change_def advances_def)
next
  case (Some rs)
  have keep: "fmdrop n rs = rs" if "n |\<notin>| fmdom rs" for rs :: "('x, 'y) fmap" and n
    using that by (simp add: fmdrop_idle)
  have "fcard (mh_refused (mh_forget n (rc_may_hold c))) \<le> MAX_MAYBE_APPLIED"
    if "fcard (mh_refused (rc_may_hold c)) \<le> MAX_MAYBE_APPLIED"
    using that mh_forget_refused le_trans by blast
  then show ?thesis
    by (auto simp: sound_change_def rules_inv_def list_inv_def files_inv_def advances_def listing_def
        remove_rule_def Let_def Some contains_def keep le_SucI)
qed

lemma sound_confirmed_rule [simp]: "sound_change c (apply_confirmed_rule now clock r c)"
  unfolding apply_confirmed_rule_def by (auto intro: sound_trans[OF _ sound_upsert])

lemma sound_confirmed [simp]: "sound_change c (apply_confirmed_at sent now clock c)"
proof -
  have "sound_change c (forget_file_left_if_held n (remove_rule n c))" for n c
    by (rule sound_trans[OF sound_remove[where n = n]]) simp
  then show ?thesis by (auto simp: apply_confirmed_at_def intro!: sound_fold)
qed

lemma sound_take_back:
  "sound_change c (if n |\<in>| rc_files_left c
     then c\<lparr> rc_files_left_held := finsert n (rc_files_left_held c) \<rparr> else c)"
  by (auto simp: sound_change_def rules_inv_def list_inv_def files_inv_def advances_def listing_def
      split: option.splits)

lemma sound_maybe_applied [simp]: "sound_change c (note_maybe_applied n c)"
  by (auto simp: sound_change_def rules_inv_def list_inv_def files_inv_def advances_def listing_def
      note_maybe_applied_def Let_def is_unknown_def fcard_finsert_disjoint split: option.splits)

lemma sound_prompt_answer [simp]: "sound_change c (note_prompt_answer n c)"
proof (cases "rc_rules c")
  case None
  then show ?thesis
    by (auto simp: sound_change_def rules_inv_def list_inv_def advances_def note_prompt_answer_def
        contains_def Let_def no_may_hold_def)
next
  case (Some rs)
  then show ?thesis
    by (auto simp: sound_change_def rules_inv_def list_inv_def files_inv_def advances_def listing_def
        note_prompt_answer_def Let_def)
qed

lemma sound_refused [simp]: "sound_change c (fst (apply_refused_at sent now clock c))"
proof -
  have "sound_change c (apply_not_saved_rule now clock r c)" for r c
    unfolding apply_not_saved_rule_def by (rule sound_trans[OF sound_take_back sound_upsert])
  moreover have "sound_change c (mark_file_left n (remove_rule n c))" for n c
    by (rule sound_trans[OF sound_remove[where n = n]]) simp
  ultimately show ?thesis
    by (auto simp: apply_refused_at_def Let_def intro!: sound_fold split: refused_effect.split)
qed

lemma sound_replay [simp]: "sound_change c (journal_replay clock j c)"
proof -
  have "sound_change c (upsert_at r now clock (note_prompt_answer n c))" for r now n c
    by (rule sound_trans[OF sound_prompt_answer[where n = n]]) simp
  then have "sound_change c (replay_change clock x c)" for x c
    by (cases x) simp_all
  then show ?thesis unfolding journal_replay_def by (rule sound_fold)
qed

lemma sound_set_unknown [simp]: "sound_change c (set_unknown c)"
proof (cases "rc_rules c")
  case None
  then have "rules_inv c \<Longrightarrow> listing (set_unknown c) = listing c \<and> rc_revision (set_unknown c) = rc_revision c"
    by (simp add: set_unknown_def listing_def rules_inv_def list_inv_def)
  with None show ?thesis
    by (auto simp: sound_change_def rules_inv_def list_inv_def files_inv_def advances_def set_unknown_def
        no_may_hold_def)
next
  case (Some rs)
  then show ?thesis
    by (auto simp: sound_change_def rules_inv_def list_inv_def files_inv_def advances_def set_unknown_def
        no_may_hold_def fcard_fempty le_SucI)
qed

lemma sound_observe [simp]: "sound_change c (fst (observe_rule_count reading c))"
  by (auto simp: sound_change_def rules_inv_def list_inv_def files_inv_def advances_def listing_def
      observe_rule_count_def expected_count_def Let_def split: option.splits)

subsection \<open>Adopting a list\<close>

lemma forget_in_snapshot_frame [simp]:
  "rc_rules (forget_file_left_in_snapshot obs n c) = rc_rules c"
  "rc_expiries (forget_file_left_in_snapshot obs n c) = rc_expiries c"
  "rc_left_out (forget_file_left_in_snapshot obs n c) = rc_left_out c"
  "rc_may_hold (forget_file_left_in_snapshot obs n c) = rc_may_hold c"
  by (simp_all add: forget_file_left_in_snapshot_def forget_file_left_def Let_def)

lemma fold_forget_frame [simp]:
  "rc_rules (fold (\<lambda>x. forget_file_left_in_snapshot obs (f x)) xs c) = rc_rules c"
  "rc_expiries (fold (\<lambda>x. forget_file_left_in_snapshot obs (f x)) xs c) = rc_expiries c"
  "rc_left_out (fold (\<lambda>x. forget_file_left_in_snapshot obs (f x)) xs c) = rc_left_out c"
  "rc_may_hold (fold (\<lambda>x. forget_file_left_in_snapshot obs (f x)) xs c) = rc_may_hold c"
  by (induction xs arbitrary: c) simp_all

lemma files_inv_forget: "files_inv c \<Longrightarrow> files_inv (forget_file_left_in_snapshot obs n c)
    \<and> rc_revision c \<le> rc_revision (forget_file_left_in_snapshot obs n c)"
  using fcard_minus_le[of "rc_files_left c" "{|n|}"]
  by (auto simp: files_inv_def forget_file_left_in_snapshot_def forget_file_left_def Let_def le_SucI)

lemma files_inv_fold_forget:
  "files_inv c \<Longrightarrow> files_inv (fold (\<lambda>x. forget_file_left_in_snapshot obs (f x)) xs c)
     \<and> rc_revision c \<le> rc_revision (fold (\<lambda>x. forget_file_left_in_snapshot obs (f x)) xs c)"
proof (induction xs arbitrary: c)
  case (Cons x xs)
  let ?c = "forget_file_left_in_snapshot obs (f x) c"
  have "files_inv ?c" "rc_revision c \<le> rc_revision ?c" using files_inv_forget[OF Cons.prems] by blast+
  with Cons.IH[of ?c] show ?case by (metis fold_simps(2) le_trans)
qed simp

lemma timers_of_listed:
  "fmdom (fm_collect (List.map_filter
     (\<lambda>r. if P r then map_option (Pair (r_name r)) (T r) else None) rs))
   |\<subseteq>| fmdom (fm_collect (map (\<lambda>r. (r_name r, r)) rs))"
proof -
  have "\<exists>r \<in> set rs. r_name r = n"
    if "fmlookup (fm_collect (List.map_filter (\<lambda>r. if P r then map_option (Pair (r_name r)) (T r) else None) rs)) n = Some e"
    for n e
    using map_of_SomeD[OF that[unfolded fmlookup_collect]]
    by (auto simp: List.map_filter_def split: if_splits)
  moreover have "n |\<in>| fmdom (fm_collect (map (\<lambda>r. (r_name r, r)) rs))" if "\<exists>r \<in> set rs. r_name r = n" for n
  proof -
    have "map_of (rev (map (\<lambda>r. (r_name r, r)) rs)) n \<noteq> None"
      using that by (auto simp: map_of_eq_None_iff image_image)
    then show ?thesis by (auto intro: fmdomI simp: fmlookup_collect)
  qed
  ultimately show ?thesis by (meson fmdomE fsubsetI)
qed

lemma listed_under_own_name: "fmlookup (fm_collect (map (\<lambda>r. (r_name r, r)) rs)) n = Some r \<Longrightarrow> r_name r = n"
  by (auto dest!: map_of_SomeD)

lemma replace_all_sound:
  assumes "rules_inv c"
  shows "rules_inv (replace_all_at_revision rs obs clock c)"
    and "rc_revision c < rc_revision (replace_all_at_revision rs obs clock c)"
    and "rc_rules (replace_all_at_revision rs obs clock c) = Some (fm_collect (map (\<lambda>r. (r_name r, r)) rs))"
proof -
  let ?e = "fm_collect (List.map_filter
                   (\<lambda>r. if r_enabled r \<and> r_created r > 0
                        then map_option (Pair (r_name r)) (timer_from r (r_created r) clock) else None) rs)"
  let ?c = "fold (\<lambda>r. forget_file_left_in_snapshot obs (r_name r)) rs (c\<lparr> rc_expiries := ?e \<rparr>)"
  have files: "files_inv ?c \<and> rc_revision c \<le> rc_revision ?c"
    using assms files_inv_fold_forget[of "c\<lparr> rc_expiries := ?e \<rparr>" obs r_name rs]
    by (simp add: rules_inv_def files_inv_def)
  show "rc_rules (replace_all_at_revision rs obs clock c) = Some (fm_collect (map (\<lambda>r. (r_name r, r)) rs))"
    by (simp add: replace_all_at_revision_def Let_def)
  show "rc_revision c < rc_revision (replace_all_at_revision rs obs clock c)"
    using files by (simp add: replace_all_at_revision_def Let_def)
  have "list_inv (replace_all_at_revision rs obs clock c)"
    using timers_of_listed[of "\<lambda>r. r_enabled r \<and> r_created r > 0" "\<lambda>r. timer_from r (r_created r) clock" rs]
      listed_under_own_name[of rs]
    by (auto simp: list_inv_def replace_all_at_revision_def Let_def no_may_hold_def fcard_fempty
        simp del: fmlookup_collect)
  moreover have "files_inv (replace_all_at_revision rs obs clock c)"
    using files by (auto simp: files_inv_def replace_all_at_revision_def Let_def le_SucI)
  ultimately show "rules_inv (replace_all_at_revision rs obs clock c)" by (simp add: rules_inv_def)
qed

lemma set_left_out_sound:
  assumes "rules_inv c" "rc_rules c \<noteq> None"
  shows "rules_inv (set_left_out_at_revision l obs c)"
    and "rc_revision c \<le> rc_revision (set_left_out_at_revision l obs c)"
    and "rc_rules (set_left_out_at_revision l obs c) = rc_rules c"
proof -
  have "files_inv (fold (forget_file_left_in_snapshot obs) (fm_keys l) c)
      \<and> rc_revision c \<le> rc_revision (fold (forget_file_left_in_snapshot obs) (fm_keys l) c)"
    using assms(1) files_inv_fold_forget[of c obs "\<lambda>x. x" "fm_keys l"] by (simp add: rules_inv_def)
  moreover have "rc_rules (fold (forget_file_left_in_snapshot obs) (fm_keys l) c) = rc_rules c"
    "rc_expiries (fold (forget_file_left_in_snapshot obs) (fm_keys l) c) = rc_expiries c"
    "rc_may_hold (fold (forget_file_left_in_snapshot obs) (fm_keys l) c) = rc_may_hold c"
    using fold_forget_frame[where f = "\<lambda>x. x"] by simp_all
  ultimately show "rules_inv (set_left_out_at_revision l obs c)"
    "rc_revision c \<le> rc_revision (set_left_out_at_revision l obs c)"
    "rc_rules (set_left_out_at_revision l obs c) = rc_rules c"
    using assms by (auto simp: set_left_out_at_revision_def rules_inv_def list_inv_def files_inv_def split: option.splits)
qed

subsection \<open>Expiry\<close>

lemma fmfilter_drop: "fmfilter (\<lambda>n. n \<notin> set ns) (fmdrop k m) = fmfilter (\<lambda>n. n \<noteq> k \<and> n \<notin> set ns) m"
  by (rule fmap_ext) (simp add: fmfilter.rep_eq map_filter_def)

lemma fmfilter_always [simp]: "fmfilter (\<lambda>n. True) m = m"
  by (rule fmap_ext) (simp add: fmfilter.rep_eq map_filter_def)

lemma prune_one_fields [simp]:
  "rc_rules (prune_one clock n c) = map_option (fmdrop n) (rc_rules c)"
  "rc_expiries (prune_one clock n c) = fmdrop n (rc_expiries c)"
  "rc_revision (prune_one clock n c) = rc_revision c"
  "rc_files_left (prune_one clock n c) = rc_files_left c"
  "rc_files_left_held (prune_one clock n c) = rc_files_left_held c"
  "rc_files_left_revisions (prune_one clock n c) = rc_files_left_revisions c"
  "rc_left_out (prune_one clock n c) = rc_left_out c"
  "mh_refused (rc_may_hold (prune_one clock n c)) = mh_refused (rc_may_hold c)"
  by (simp_all add: prune_one_def note_pruned_def Let_def split: option.split)

lemma fold_prune_rules:
  "rc_rules (fold (prune_one clock) ns c) = map_option (fmfilter (\<lambda>n. n \<notin> set ns)) (rc_rules c)"
proof (induction ns arbitrary: c)
  case Nil
  then show ?case by (cases "rc_rules c") simp_all
next
  case (Cons k ns)
  have "rc_rules (fold (prune_one clock) (k # ns) c) =
      map_option (fmfilter (\<lambda>n. n \<notin> set ns)) (rc_rules (prune_one clock k c))"
    unfolding fold_simps by (rule Cons.IH)
  then show ?case by (simp add: option.map_comp comp_def fmfilter_drop)
qed

lemma fold_prune_expiries:
  "rc_expiries (fold (prune_one clock) ns c) = fmfilter (\<lambda>n. n \<notin> set ns) (rc_expiries c)"
proof (induction ns arbitrary: c)
  case (Cons k ns)
  have "rc_expiries (fold (prune_one clock) (k # ns) c) = fmfilter (\<lambda>n. n \<notin> set ns) (rc_expiries (prune_one clock k c))"
    unfolding fold_simps by (rule Cons.IH)
  then show ?case unfolding prune_one_fields fmfilter_drop by simp
qed simp

lemma fold_prune_frame:
  "rc_revision (fold (prune_one clock) ns c) = rc_revision c"
  "rc_files_left (fold (prune_one clock) ns c) = rc_files_left c"
  "rc_files_left_held (fold (prune_one clock) ns c) = rc_files_left_held c"
  "rc_files_left_revisions (fold (prune_one clock) ns c) = rc_files_left_revisions c"
  "rc_left_out (fold (prune_one clock) ns c) = rc_left_out c"
  "mh_refused (rc_may_hold (fold (prune_one clock) ns c)) = mh_refused (rc_may_hold c)"
  by (induction ns arbitrary: c) simp_all

lemmas fold_prune = fold_prune_rules fold_prune_expiries fold_prune_frame

lemma set_expired_names:
  "set (expired_names now c) = {n. \<exists>e. fmlookup (rc_expiries c) n = Some e \<and> ex_at e \<le> now}"
  by (auto simp: expired_names_def fmdomI split: option.splits)

lemma sound_prune [simp]: "sound_change c (fst (prune_expired_at now clock c))"
proof (cases "rc_rules c = None \<or> expired_names now c = []")
  case True
  then show ?thesis by (auto simp: prune_expired_at_def)
next
  case False
  then obtain rs where rs: "rc_rules c = Some rs" by auto
  let ?c = "fold (prune_one clock) (expired_names now c) c"
  have "fmdom (rc_expiries ?c) |\<subseteq>| fmdom (fmfilter (\<lambda>n. n \<notin> set (expired_names now c)) rs)" if "rules_inv c"
    using that rs by (auto simp: fold_prune rules_inv_def list_inv_def)
  then show ?thesis
    using False rs
    by (auto simp: prune_expired_at_def sound_change_def rules_inv_def list_inv_def files_inv_def advances_def
        fold_prune Let_def le_SucI)
qed

text \<open>
  Pruning is exact: it removes the listed rules whose timer has run out at the given
  time and no other rule, reports exactly their names in name order, leaves no timer behind
  that has run out, and bumps the revision if and only if a rule went.
\<close>

theorem prune_exact:
  assumes "rules_inv c" "rc_rules c = Some rs" "prune_expired_at now clock c = (c', names)"
  shows "set names = {n. \<exists>e. fmlookup (rc_expiries c) n = Some e \<and> ex_at e \<le> now}
     \<and> set names \<subseteq> fset (fmdom rs) \<and> sorted names \<and> distinct names
     \<and> rc_rules c' = Some (fmfilter (\<lambda>n. n \<notin> set names) rs)
     \<and> (\<forall>n e. fmlookup (rc_expiries c') n = Some e \<longrightarrow> now < ex_at e)
     \<and> rc_revision c' = rc_revision c + (if names = [] then 0 else 1)"
proof -
  have names: "names = expired_names now c"
    using assms(2,3) by (simp add: prune_expired_at_def Let_def split: if_splits)
  have fields: "rc_rules c' = Some (fmfilter (\<lambda>n. n \<notin> set names) rs)"
    "rc_expiries c' = fmfilter (\<lambda>n. n \<notin> set names) (rc_expiries c)"
    "rc_revision c' = rc_revision c + (if names = [] then 0 else 1)"
    using assms(2,3) unfolding names
    by (auto simp: prune_expired_at_def Let_def fold_prune fmfilter_true split: if_splits)
  have "set names \<subseteq> fset (fmdom rs)"
    using assms(1,2) unfolding names set_expired_names
    by (auto simp: rules_inv_def list_inv_def dest!: fmdomI)
  moreover have "now < ex_at e" if "fmlookup (rc_expiries c') n = Some e" for n e
  proof -
    have "n \<notin> set names" "fmlookup (rc_expiries c) n = Some e"
      using that unfolding fields(2) by (auto simp: fmfilter.rep_eq map_filter_def split: if_splits)
    then show ?thesis unfolding names set_expired_names by force
  qed
  moreover have "sorted names" "distinct names"
    unfolding names expired_names_def by (simp_all add: sorted_wrt_filter)
  ultimately show ?thesis using fields(1,3) set_expired_names[of now c] names by blast
qed

definition example_temporary :: rule where
  "example_temporary = \<lparr> r_created = 0, r_name = lit ''web'', r_description = [], r_enabled = True,
     r_precedence = False, r_nolog = False, r_action = lit ''allow'', r_duration = lit ''1m30s'', r_operator = None \<rparr>"

definition example_rules :: rules_cache where
  "example_rules = upsert_at example_temporary 100 0 (replace_all_at_revision [] 0 0 new_rules_cache)"

lemma rules_inv_new [simp]: "rules_inv new_rules_cache"
  by (simp add: rules_inv_def list_inv_def files_inv_def new_rules_cache_def no_may_hold_def fcard_fempty)

lemma rules_inv_example: "rules_inv example_rules"
  using replace_all_sound(1)[OF rules_inv_new, of "[]" 0 0] sound_upsert
  unfolding example_rules_def sound_change_def by blast

theorem prune_exact_witness:
  "rc_rules (fst (prune_expired_at 190 0 example_rules)) = Some fmempty
   \<and> snd (prune_expired_at 190 0 example_rules) = [lit ''web'']"
proof -
  have rs: "rc_rules example_rules = Some (the (rc_rules example_rules))"
    by (simp add: example_rules_def upsert_at_def replace_all_at_revision_def Let_def)
  have names: "snd (prune_expired_at 190 0 example_rules) = [lit ''web'']" by code_simp
  have "fmfilter (\<lambda>n. n \<notin> set [lit ''web'']) (the (rc_rules example_rules)) = fmempty" by code_simp
  then show ?thesis
    using prune_exact[OF rules_inv_example rs, of 190 0] names by (metis prod.collapse)
qed

section \<open>The rule-count hint\<close>

definition observe_run :: "count_reading list \<Rightarrow> rules_cache \<Rightarrow> rules_cache" where
  "observe_run rs c = fold (\<lambda>r c. fst (observe_rule_count r c)) rs c"

lemma observe_run_simps [simp]:
  "observe_run [] c = c" "observe_run (rs @ [r]) c = fst (observe_rule_count r (observe_run rs c))"
  by (simp_all add: observe_run_def)

lemma observe_expected [simp]: "expected_count (fst (observe_rule_count r c)) = expected_count c"
  by (auto simp: observe_rule_count_def expected_count_def Let_def split: option.splits)

text \<open>The counter counts: its last \<open>cw_run\<close> readings all reported the number in its key.\<close>

definition run_counts :: "count_reading list \<Rightarrow> rules_cache \<Rightarrow> bool" where
  "run_counts rs c \<longleftrightarrow>
     (let w = rc_count_watch c
      in cw_run w \<le> length rs \<and> (0 < cw_quiet w \<longrightarrow> cw_run w = 0)
         \<and> (0 < cw_run w \<longrightarrow>
             (\<exists>rep e room. cw_key w = Some (rep, e, room) \<and> expected_count c = Some e
               \<and> (\<forall>r \<in> set (drop (length rs - cw_run w) rs). cr_reported r = rep \<and> \<not> cr_settling r))))"

lemma watch_arrives_run:
  "cw_run (watch_arrives revision up w) = 0
   \<or> (cw_run (watch_arrives revision up w) = cw_run w \<and> cw_key (watch_arrives revision up w) = cw_key w)"
  by (simp add: watch_arrives_def restart_run_def Let_def)

lemma watch_arrives_raised [simp]: "cw_raised (watch_arrives revision up w) = cw_raised w"
  by (simp add: watch_arrives_def restart_run_def Let_def)

lemma drop_suffix_set: "k \<le> m \<Longrightarrow> m \<le> length rs \<Longrightarrow> set (drop (length rs - k) rs) \<subseteq> set (drop (length rs - m) rs)"
  by (rule set_drop_subset_set_drop) simp

text \<open>What the counter holds after a reading that was compared.\<close>

lemma count_run_counts:
  assumes "cw_run w \<le> length rs" "\<not> cr_settling r"
    and "0 < cw_run w \<longrightarrow> (\<exists>rep room. cw_key w = Some (rep, e, room)
           \<and> (\<forall>x \<in> set (drop (length rs - cw_run w) rs). cr_reported x = rep \<and> \<not> cr_settling x))"
  shows "let w' = count_run (cr_reported r, e, room) w
     in 0 < cw_run w' \<and> cw_run w' \<le> length (rs @ [r]) \<and> cw_key w' = Some (cr_reported r, e, room)
        \<and> (\<forall>x \<in> set (drop (length (rs @ [r]) - cw_run w') (rs @ [r])). cr_reported x = cr_reported r \<and> \<not> cr_settling x)"
proof (cases "cw_key w = Some (cr_reported r, e, room) \<and> 0 < cw_run w")
  case True
  let ?k = "min 255 (cw_run w + 1)"
  have "set (drop (length rs - (?k - 1)) rs) \<subseteq> set (drop (length rs - cw_run w) rs)"
    using assms(1) by (intro drop_suffix_set) auto
  moreover have "drop (length (rs @ [r]) - ?k) (rs @ [r]) = drop (length rs - (?k - 1)) rs @ [r]"
    using assms(1) by auto
  ultimately have "\<forall>x \<in> set (drop (length (rs @ [r]) - ?k) (rs @ [r])). cr_reported x = cr_reported r \<and> \<not> cr_settling x"
    using True assms(2,3) by fastforce
  moreover have "?k \<le> length (rs @ [r])" using assms(1) by simp
  ultimately show ?thesis using True by (auto simp: count_run_def Let_def)
next
  case False
  then show ?thesis using assms(2) by (auto simp: count_run_def Let_def)
qed

lemma count_run_frame [simp]: "cw_quiet (count_run k w) = cw_quiet w" "cw_raised (count_run k w) = cw_raised w"
  by (simp_all add: count_run_def)

lemma run_counts_observe:
  assumes "run_counts rs c"
  shows "run_counts (rs @ [r]) (fst (observe_rule_count r c))"
proof (cases "expected_count c")
  case None
  then have "cw_run (rc_count_watch c) = 0" using assms by (auto simp: run_counts_def Let_def)
  then show ?thesis using None by (simp add: run_counts_def observe_rule_count_def)
next
  case (Some e)
  define w where "w = watch_arrives (rc_revision c) (cr_uptime r) (rc_count_watch c)"
  have kept: "cw_run w \<le> length rs" "0 < cw_run w \<longrightarrow> (\<exists>rep room. cw_key w = Some (rep, e, room)
           \<and> (\<forall>x \<in> set (drop (length rs - cw_run w) rs). cr_reported x = rep \<and> \<not> cr_settling x))"
    using assms watch_arrives_run[of "rc_revision c" "cr_uptime r" "rc_count_watch c"] Some
    by (auto simp: run_counts_def w_def Let_def)
  let ?q = "0 < cw_quiet w" and ?skip = "(cr_settling r \<or> (cr_reported r = 0 \<and> 0 < e)) \<or> (timers_may_drop_rules c \<and> \<not> cw_raised w)"
  have quiet: "0 < cw_quiet w \<Longrightarrow> cw_run w = 0"
    using assms by (auto simp: run_counts_def w_def watch_arrives_def restart_run_def Let_def split: if_splits)
  show ?thesis
  proof (cases "?q \<or> ?skip")
    case True
    then have "cw_run (rc_count_watch (fst (observe_rule_count r c))) = 0"
      using Some quiet by (auto simp: observe_rule_count_def w_def[symmetric] restart_run_def Let_def)
    then show ?thesis by (simp add: run_counts_def Let_def)
  next
    case False
    then have "\<not> cr_settling r" by simp
    note cnt = count_run_counts[OF kept(1) this kept(2), of "allowance (rc_may_hold c) (cr_now r)"]
    let ?w = "rc_count_watch (fst (observe_rule_count r c))"
      and ?w' = "count_run (cr_reported r, e, allowance (rc_may_hold c) (cr_now r)) w"
    have eqs: "cw_run ?w = cw_run ?w'" "cw_key ?w = cw_key ?w'" "cw_quiet ?w = 0"
    proof -
      have noq: "\<not> ?q" using False by simp
      have nos: "\<not> ?skip" using False by simp
      show "cw_run ?w = cw_run ?w'" "cw_key ?w = cw_key ?w'" "cw_quiet ?w = 0"
        unfolding observe_rule_count_def Some option.case Let_def w_def[symmetric] if_not_P[OF noq] if_not_P[OF nos]
        using noq by simp_all
    qed
    have "cw_run ?w' \<le> length (rs @ [r])" "\<exists>rep e' room. cw_key ?w' = Some (rep, e', room) \<and> Some e = Some e'
        \<and> (\<forall>x \<in> set (drop (length (rs @ [r]) - cw_run ?w') (rs @ [r])). cr_reported x = rep \<and> \<not> cr_settling x)"
      using cnt unfolding Let_def by blast+
    then show ?thesis
      unfolding run_counts_def Let_def eqs observe_expected Some by blast
  qed
qed

lemma run_counts_run: "cw_run (rc_count_watch c) = 0 \<Longrightarrow> run_counts rs (observe_run rs c)"
proof (induction rs rule: rev_induct)
  case (snoc r rs)
  then show ?case using run_counts_observe by simp
qed (simp add: run_counts_def Let_def)

lemma observe_flip:
  assumes "snd (observe_rule_count r c)"
  shows "\<exists>e room. expected_count c = Some e \<and> \<not> cr_settling r
     \<and> 3 \<le> cw_run (rc_count_watch (fst (observe_rule_count r c)))
     \<and> cw_key (rc_count_watch (fst (observe_rule_count r c))) = Some (cr_reported r, e, room)
     \<and> count_mismatch (fst (observe_rule_count r c)) = (\<not> count_mismatch c)
     \<and> count_mismatch (fst (observe_rule_count r c)) = (\<not> count_agrees (cr_reported r) e room)"
  using assms
  by (auto simp: observe_rule_count_def count_mismatch_def count_run_def PINGS_TO_RAISE_def PINGS_TO_CLEAR_def Let_def
      split: option.splits if_splits) (metis neq0_conv)

text \<open>
  The rule-count hint has hysteresis: whatever the readings since a new list, it flips
  only at the third of three readings in a row that report the same number, none of them
  taken while a command or a snapshot was on its way. It comes on only when that number is
  not the expected one, and goes off only when it is not below it.
\<close>

theorem hint_flips_after_three:
  assumes "cw_run (rc_count_watch c) = 0" "snd (observe_rule_count r (observe_run rs c))"
    and "the (expected_count c) \<le> U64_MAX"
  shows "\<exists>pre r1 r2 e. rs = pre @ [r1, r2] \<and> expected_count c = Some e
     \<and> cr_reported r1 = cr_reported r \<and> cr_reported r2 = cr_reported r
     \<and> \<not> cr_settling r1 \<and> \<not> cr_settling r2 \<and> \<not> cr_settling r
     \<and> (if count_mismatch (observe_run (rs @ [r]) c) then cr_reported r \<noteq> e else e \<le> cr_reported r)
     \<and> count_mismatch (observe_run (rs @ [r]) c) = (\<not> count_mismatch (observe_run rs c))"
proof -
  have exp: "expected_count (observe_run xs c) = expected_count c" for xs
    by (induction xs rule: rev_induct) simp_all
  let ?c = "fst (observe_rule_count r (observe_run rs c))"
  obtain e room where flip: "expected_count c = Some e" "\<not> cr_settling r"
    "3 \<le> cw_run (rc_count_watch ?c)" "cw_key (rc_count_watch ?c) = Some (cr_reported r, e, room)"
    "count_mismatch ?c = (\<not> count_mismatch (observe_run rs c))"
    "count_mismatch ?c = (\<not> count_agrees (cr_reported r) e room)"
    using observe_flip[OF assms(2)] exp by metis
  have counts: "run_counts (rs @ [r]) ?c" using run_counts_run[OF assms(1), of "rs @ [r]"] by simp
  then have len: "3 \<le> length (rs @ [r])" and same:
    "\<forall>x \<in> set (drop (length (rs @ [r]) - cw_run (rc_count_watch ?c)) (rs @ [r])). cr_reported x = cr_reported r \<and> \<not> cr_settling x"
    using flip(3,4) by (auto simp: run_counts_def Let_def)
  obtain pre r1 r2 where rs: "rs = pre @ [r1, r2]"
  proof -
    have "2 \<le> length rs" using len by simp
    then have "rs = take (length rs - 2) rs @ drop (length rs - 2) rs" "length (drop (length rs - 2) rs) = 2"
      by simp_all
    then show ?thesis using that by (metis (no_types, lifting) length_0_conv length_Suc_conv numeral_2_eq_2)
  qed
  have "set (drop (length (rs @ [r]) - 3) (rs @ [r])) \<subseteq> set (drop (length (rs @ [r]) - cw_run (rc_count_watch ?c)) (rs @ [r]))"
    using flip(3) counts by (intro drop_suffix_set) (simp_all add: run_counts_def Let_def)
  moreover have "set (drop (length (rs @ [r]) - 3) (rs @ [r])) = {r1, r2, r}" by (simp add: rs)
  ultimately have both: "\<forall>x \<in> {r1, r2, r}. cr_reported x = cr_reported r \<and> \<not> cr_settling x"
    using same by (simp only:) blast
  have "cr_reported r1 = cr_reported r" "cr_reported r2 = cr_reported r" "\<not> cr_settling r1" "\<not> cr_settling r2"
    using both by simp_all
  moreover have "if count_mismatch ?c then cr_reported r \<noteq> e else e \<le> cr_reported r"
    using flip(1) assms(3) unfolding flip(6) count_agrees_def u64_saturating_add_def by auto
  ultimately show ?thesis
    unfolding observe_run_simps using flip(1,2,5) rs
    by (intro exI[of _ pre] exI[of _ r1] exI[of _ r2] exI[of _ e]) simp
qed

definition example_reading :: "nat \<Rightarrow> count_reading" where
  "example_reading k = \<lparr> cr_reported = 2, cr_uptime = k, cr_settling = False, cr_now = k \<rparr>"

theorem hint_flips_after_three_witness:
  "count_mismatch (observe_run (map example_reading [1, 2, 3, 4, 5]) (replace_all [] 0 new_rules_cache))"
proof -
  let ?c = "replace_all [] 0 new_rules_cache"
  have "cw_run (rc_count_watch ?c) = 0" "the (expected_count ?c) \<le> U64_MAX"
    "snd (observe_rule_count (example_reading 5) (observe_run (map example_reading [1, 2, 3, 4]) ?c))"
    "\<not> count_mismatch (observe_run (map example_reading [1, 2, 3, 4]) ?c)"
    by code_simp+
  with hint_flips_after_three[of ?c "example_reading 5" "map example_reading [1, 2, 3, 4]"] show ?thesis by auto
qed

end
