(* ===== verification/Rule_Hits.thy ===== *)
theory Rule_Hits
  imports Conn_Rows Rules_Cache
begin

text \<open>
  \<open>cache/rule_hits.rs\<close>: how often each daemon rule decided a connection, counted from the
  events of the daemon's pings, and when the counts may have missed some (a gap).

  Counts live in three maps: rules the list knows (\<open>hits_main\<close>), names waiting for a list
  (\<open>hits_side\<close>) and counts of an earlier run waiting for the first list
  (\<open>hits_restored\<close>). Times are Unix milliseconds (\<open>i64\<close>, saturating as in the
  code), counts saturate at 64 bits. \<open>known\<close> is membership in the committed rule list.
\<close>

section \<open>State\<close>

definition SIDE_MAP_MAX :: nat where "SIDE_MAP_MAX = 1000"
definition MAX_TRACKED_RULES :: nat where "MAX_TRACKED_RULES = MAX_SNAPSHOT_RULES"
definition MAX_HIT_NAME_BYTES :: nat where "MAX_HIT_NAME_BYTES = 256"
definition MAX_FUTURE_SKEW_MS :: int where "MAX_FUTURE_SKEW_MS = 24 * 60 * 60 * 1000"
definition SAME_START_SLACK_MS :: int where "SAME_START_SLACK_MS = 5000"
definition CLEAN_STOP_WINDOW_MS :: int where "CLEAN_STOP_WINDOW_MS = 10 * 60 * 1000"

record stat =
  st_count :: nat
  st_last_hit :: int

definition no_stat :: stat where "no_stat = \<lparr> st_count = 0, st_last_hit = 0 \<rparr>"

definition stat_merge :: "stat \<Rightarrow> stat \<Rightarrow> stat" where
  "stat_merge s other = \<lparr> st_count = u64_saturating_add (st_count s) (st_count other),
                          st_last_hit = max (st_last_hit s) (st_last_hit other) \<rparr>"

record daemon_baseline =
  db_ping :: int
  db_uptime :: nat
  db_rule_hits :: nat

record rule_hit_wire =
  hw_name :: rstr
  hw_count :: nat
  hw_last_hit :: int

record saved =
  sv_since :: int
  sv_last_gap :: "int option"
  sv_hits :: "rule_hit_wire list"
  sv_daemon :: "daemon_baseline option"
  sv_stopped :: "int option"

record deferred =
  df_received :: nat
  df_first_ping :: int

record pending_restore =
  pr_daemon :: daemon_baseline
  pr_stopped :: "int option"
  pr_deferred :: "deferred option"

record rule_hits =
  hits_main :: "(rstr, stat) fmap"
  hits_side :: "(rstr, stat) fmap"
  hits_restored :: "(rstr, stat) fmap"
  hits_since :: "int option"
  hits_last_gap :: "int option"
  hits_last_uptime :: "nat option"
  hits_last_rule_hits :: "nat option"
  hits_last_ping :: "int option"
  hits_trusted :: bool
  hits_pending :: "pending_restore option"
  hits_provisional_gap :: "int option"
  hits_revision :: nat

definition new_hits :: rule_hits where
  "new_hits = \<lparr> hits_main = fmempty, hits_side = fmempty, hits_restored = fmempty, hits_since = None,
     hits_last_gap = None, hits_last_uptime = None, hits_last_rule_hits = None, hits_last_ping = None,
     hits_trusted = False, hits_pending = None, hits_provisional_gap = None, hits_revision = 0 \<rparr>"

section \<open>Operations\<close>

definition keepable_name :: "rstr \<Rightarrow> bool" where
  "keepable_name name \<longleftrightarrow> name \<noteq> [] \<and> str_len name \<le> MAX_HIT_NAME_BYTES \<and> \<not> list_ex is_control name"

definition secs_to_ms :: "nat \<Rightarrow> int" where
  "secs_to_ms secs = i64_saturating_mul (if int secs \<le> I64_MAX then int secs else I64_MAX) 1000"

definition touch :: "rule_hits \<Rightarrow> rule_hits" where
  "touch h = h\<lparr> hits_revision := u64_wrapping_add (hits_revision h) 1 \<rparr>"

definition note_gap :: "int \<Rightarrow> rule_hits \<Rightarrow> rule_hits" where
  "note_gap now h = (if hits_last_gap h \<noteq> Some now then touch (h\<lparr> hits_last_gap := Some now \<rparr>) else h)"

definition stop_vouches_for :: "int \<Rightarrow> nat \<Rightarrow> int \<Rightarrow> bool" where
  "stop_vouches_for stopped up started_now \<longleftrightarrow>
     0 < up \<and> stopped \<le> started_now \<and> i64_saturating_sub started_now stopped \<le> CLEAN_STOP_WINDOW_MS"

definition restart_missed_hits :: "pending_restore \<Rightarrow> nat \<Rightarrow> nat \<Rightarrow> nat \<Rightarrow> int \<Rightarrow> bool" where
  "restart_missed_hits p received up rule_hits now =
     (let b = pr_daemon p;
          started_then = i64_saturating_sub (db_ping b) (secs_to_ms (db_uptime b));
          started_now = i64_saturating_sub now (secs_to_ms up);
          restarted = (rule_hits < db_rule_hits b \<or> up < db_uptime b
                       \<or> i64_saturating_sub (db_ping b) SAME_START_SLACK_MS \<le> started_now);
          clean_stop = (case pr_stopped p of Some stopped \<Rightarrow> stop_vouches_for stopped up started_now | None \<Rightarrow> False)
      in if restarted then \<not> clean_stop \<or> rule_hits \<noteq> received
         else if \<bar>started_now - started_then\<bar> \<le> SAME_START_SLACK_MS
         then rule_hits - db_rule_hits b \<noteq> received
         else True)"

definition missed_events :: "nat \<Rightarrow> nat \<Rightarrow> nat \<Rightarrow> int \<Rightarrow> rule_hits \<Rightarrow> rule_hits \<times> bool" where
  "missed_events received up rule_hits now h =
     (let restarted = (case hits_last_uptime h of Some previous \<Rightarrow> up < previous | None \<Rightarrow> False);
          missed = (case hits_last_rule_hits h of
                      Some previous \<Rightarrow> rule_hits < previous \<or> rule_hits - previous \<noteq> received
                    | None \<Rightarrow> False)
      in (h\<lparr> hits_last_uptime := Some up, hits_last_rule_hits := Some rule_hits, hits_last_ping := Some now \<rparr>,
          restarted \<or> missed))"

definition get_stat :: "rstr \<Rightarrow> (rstr, stat) fmap \<Rightarrow> stat" where
  "get_stat name m = (case fmlookup m name of Some s \<Rightarrow> s | None \<Rightarrow> no_stat)"

definition count_hit :: "rstr \<Rightarrow> int \<Rightarrow> int \<Rightarrow> bool \<Rightarrow> rule_hits \<Rightarrow> rule_hits" where
  "count_hit name hit_at now known h =
     (let hit = \<lparr> st_count = 1, st_last_hit = hit_at \<rparr>
      in if \<not> keepable_name name then note_gap now h
         else if known
         then (if name |\<notin>| fmdom (hits_main h) \<and> fm_len (hits_main h) \<ge> MAX_TRACKED_RULES then note_gap now h
               else let s = get_stat name (hits_main h);
                        s = (case fmlookup (hits_side h) name of Some w \<Rightarrow> stat_merge s w | None \<Rightarrow> s)
                    in touch (h\<lparr> hits_side := fmdrop name (hits_side h),
                                 hits_main := fmupd name (stat_merge s hit) (hits_main h) \<rparr>))
         else (if name |\<notin>| fmdom (hits_side h) \<and> fm_len (hits_side h) \<ge> SIDE_MAP_MAX then note_gap now h
               else touch (h\<lparr> hits_side := fmupd name (stat_merge (get_stat name (hits_side h)) hit) (hits_side h) \<rparr>)))"

definition hit_time :: "int \<Rightarrow> int \<Rightarrow> int" where
  "hit_time unixnano now =
     (let t = (if 0 < unixnano then i64_div unixnano 1000000 else now)
      in if i64_saturating_add now MAX_FUTURE_SKEW_MS < t then now else t)"

definition record_event :: "(rstr \<Rightarrow> bool) \<Rightarrow> int \<Rightarrow> event \<Rightarrow> rule_hits \<Rightarrow> rule_hits" where
  "record_event known now ev h =
     (case e_rule ev of
        None \<Rightarrow> h
      | Some r \<Rightarrow> if r_name r = [] then h
                 else count_hit (r_name r) (hit_time (e_unixnano ev) now) now (known (r_name r)) h)"

definition received_events :: "event list \<Rightarrow> nat" where
  "received_events evs =
     length (filter (\<lambda>ev. \<not> (case e_rule ev of Some r \<Rightarrow> is_default_action_rule r | None \<Rightarrow> False)) evs)"

text \<open>The judgement of a restored baseline at a ping, before the ping's own accounting.\<close>

definition judge_restore :: "nat \<Rightarrow> nat \<Rightarrow> nat \<Rightarrow> int \<Rightarrow> rule_hits \<Rightarrow> rule_hits" where
  "judge_restore received up rule_hits now h =
     (case hits_pending h of
        None \<Rightarrow> h
      | Some p \<Rightarrow>
          let seen = (case pr_deferred p of Some d \<Rightarrow> df_received d | None \<Rightarrow> 0)
          in if up = 0
             then touch (h\<lparr> hits_pending := Some (p\<lparr> pr_deferred := Some
                      \<lparr> df_received = seen + received,
                        df_first_ping = (case pr_deferred p of Some d \<Rightarrow> df_first_ping d | None \<Rightarrow> now) \<rparr> \<rparr>),
                    hits_provisional_gap := Some now \<rparr>)
             else let h = touch (h\<lparr> hits_pending := None, hits_provisional_gap := None \<rparr>);
                      started_since = (case pr_deferred p of
                          Some d \<Rightarrow> i64_saturating_add (df_first_ping d) SAME_START_SLACK_MS
                                    < i64_saturating_sub now (secs_to_ms up)
                        | None \<Rightarrow> False)
                  in if started_since \<or> restart_missed_hits p (seen + received) up rule_hits now
                     then note_gap now h else h)"

definition hits_record ::
  "event list \<Rightarrow> nat \<Rightarrow> nat \<Rightarrow> int \<Rightarrow> (rstr \<Rightarrow> bool) \<Rightarrow> rule_hits \<Rightarrow> rule_hits \<times> bool" where
  "hits_record evs up rule_hits now known h0 =
     (let h = (if hits_since h0 = None then touch (h0\<lparr> hits_since := Some now \<rparr>) else h0);
          received = received_events evs;
          h = judge_restore received up rule_hits now h;
          (h, missed) = missed_events received up rule_hits now h;
          h = (if missed then note_gap now h else h);
          h = fold (record_event known now) evs h
      in (h, hits_revision h \<noteq> hits_revision h0))"

definition adopt_one :: "int \<Rightarrow> (rstr \<Rightarrow> bool) \<Rightarrow> rstr \<times> stat \<Rightarrow> rule_hits \<times> bool \<Rightarrow> rule_hits \<times> bool" where
  "adopt_one now known = (\<lambda>(name, s) (h, changed).
     if \<not> known name then (h, changed)
     else if name |\<notin>| fmdom (hits_main h) \<and> fm_len (hits_main h) \<ge> MAX_TRACKED_RULES then (note_gap now h, changed)
     else (h\<lparr> hits_main := fmupd name (stat_merge (get_stat name (hits_main h)) s) (hits_main h) \<rparr>, True))"

definition fm_entries :: "('k::linorder, 'v) fmap \<Rightarrow> ('k \<times> 'v) list" where
  "fm_entries m = map (\<lambda>k. (k, the (fmlookup m k))) (fm_keys m)"

definition hits_adopt_snapshot :: "int \<Rightarrow> (rstr \<Rightarrow> bool) \<Rightarrow> rule_hits \<Rightarrow> rule_hits" where
  "hits_adopt_snapshot now known h =
     (let before = fm_len (hits_main h);
          h = h\<lparr> hits_main := fmfilter known (hits_main h) \<rparr>;
          changed = (fm_len (hits_main h) \<noteq> before);
          h = (if changed then note_gap now h else h);
          waiting = fm_entries (hits_side h) @ fm_entries (hits_restored h);
          h = h\<lparr> hits_side := fmempty, hits_restored := fmempty \<rparr>;
          (h, changed) = fold (adopt_one now known) waiting (h, changed)
      in if changed then touch h else h)"

definition hits_forget :: "rstr \<Rightarrow> rule_hits \<Rightarrow> rule_hits" where
  "hits_forget name h =
     (let found = (name |\<in>| fmdom (hits_main h) \<or> name |\<in>| fmdom (hits_side h) \<or> name |\<in>| fmdom (hits_restored h));
          h = h\<lparr> hits_main := fmdrop name (hits_main h), hits_side := fmdrop name (hits_side h),
                  hits_restored := fmdrop name (hits_restored h) \<rparr>
      in if found then touch h else h)"

definition restore_hit :: "rule_hit_wire \<Rightarrow> (rstr, stat) fmap \<Rightarrow> (rstr, stat) fmap" where
  "restore_hit w m =
     (if keepable_name (hw_name w)
      then fmupd (hw_name w) \<lparr> st_count = hw_count w, st_last_hit = hw_last_hit w \<rparr> m else m)"

definition hits_restore :: "saved \<Rightarrow> int \<Rightarrow> rule_hits \<Rightarrow> rule_hits" where
  "hits_restore sv now h =
     (let h = h\<lparr> hits_since := Some (sv_since sv), hits_last_gap := sv_last_gap sv,
                  hits_restored := fold restore_hit (take MAX_TRACKED_RULES (sv_hits sv)) (hits_restored h) \<rparr>;
          h = (case (if hits_trusted h then sv_daemon sv else None) of
                 Some d \<Rightarrow> h\<lparr> hits_pending := Some \<lparr> pr_daemon = d, pr_stopped = sv_stopped sv, pr_deferred = None \<rparr>,
                              hits_provisional_gap := Some now \<rparr>
               | None \<Rightarrow> note_gap now h)
      in touch h)"

definition option_max :: "int option \<Rightarrow> int option \<Rightarrow> int option" where
  "option_max a b = (case (a, b) of (None, y) \<Rightarrow> y | (x, None) \<Rightarrow> x | (Some x, Some y) \<Rightarrow> Some (max x y))"

definition shown_gap :: "rule_hits \<Rightarrow> int option" where
  "shown_gap h = option_max (hits_last_gap h) (hits_provisional_gap h)"

definition is_lossy :: "rule_hits \<Rightarrow> bool" where
  "is_lossy h \<longleftrightarrow> shown_gap h \<noteq> None"

definition hit_wire :: "rstr \<times> stat \<Rightarrow> rule_hit_wire" where
  "hit_wire = (\<lambda>(name, s). \<lparr> hw_name = name, hw_count = st_count s, hw_last_hit = st_last_hit s \<rparr>)"

definition wire_hits :: "rule_hits \<Rightarrow> rule_hit_wire list" where
  "wire_hits h = map hit_wire (fm_entries (hits_main h))"

definition last_ping_baseline :: "rule_hits \<Rightarrow> daemon_baseline option" where
  "last_ping_baseline h =
     (case (hits_last_ping h, hits_last_uptime h, hits_last_rule_hits h) of
        (Some p, Some u, Some r) \<Rightarrow> Some \<lparr> db_ping = p, db_uptime = u, db_rule_hits = r \<rparr>
      | _ \<Rightarrow> None)"

definition add_waiting :: "(rstr, stat) fmap \<Rightarrow> rstr \<times> stat \<Rightarrow> (rstr, stat) fmap \<Rightarrow> (rstr, stat) fmap" where
  "add_waiting main = (\<lambda>(name, s) m.
     if name |\<notin>| fmdom main then fmupd name (stat_merge (get_stat name m) s) m else m)"

definition merge_also :: "rstr \<Rightarrow> (rstr, stat) fmap \<Rightarrow> stat \<Rightarrow> stat" where
  "merge_also name m s = (case fmlookup m name of Some extra \<Rightarrow> stat_merge s extra | None \<Rightarrow> s)"

definition to_saved :: "rule_hits \<Rightarrow> saved option" where
  "to_saved h =
     (case hits_since h of
        None \<Rightarrow> None
      | Some since \<Rightarrow>
          let waiting = fold (add_waiting (hits_main h))
                          (fm_entries (hits_side h) @ fm_entries (hits_restored h)) fmempty;
              complete = (fm_len (hits_main h) + fm_len waiting \<le> MAX_TRACKED_RULES);
              counted = map (\<lambda>(name, s). (name, merge_also name (hits_restored h) (merge_also name (hits_side h) s)))
                          (fm_entries (hits_main h));
              undecided = (case hits_pending h of Some p \<Rightarrow> pr_deferred p \<noteq> None | None \<Rightarrow> False);
              daemon = (case hits_pending h of Some p \<Rightarrow> Some (pr_daemon p) | None \<Rightarrow> last_ping_baseline h)
          in Some \<lparr> sv_since = since,
                    sv_last_gap = (if undecided then shown_gap h else hits_last_gap h),
                    sv_hits = map hit_wire (take MAX_TRACKED_RULES (counted @ fm_entries waiting)),
                    sv_daemon = (if hits_trusted h \<and> complete \<and> \<not> undecided then daemon else None),
                    sv_stopped = None \<rparr>)"

definition to_saved_at_stop :: "int \<Rightarrow> rule_hits \<Rightarrow> saved option" where
  "to_saved_at_stop now h =
     map_option (\<lambda>sv. if hits_trusted h
       then sv\<lparr> sv_stopped := (case hits_pending h of
                  Some p \<Rightarrow> if pr_deferred p \<noteq> None then None else pr_stopped p
                | None \<Rightarrow> Some now) \<rparr>
       else sv) (to_saved h)"

definition distrust_restart :: "int \<Rightarrow> rule_hits \<Rightarrow> rule_hits" where
  "distrust_restart now h =
     note_gap now (if hits_pending h \<noteq> None
                   then touch (h\<lparr> hits_pending := None, hits_provisional_gap := None \<rparr>) else h)"

definition trust_daemon_counters :: "bool \<Rightarrow> rule_hits \<Rightarrow> rule_hits" where
  "trust_daemon_counters trusted h = h\<lparr> hits_trusted := trusted \<rparr>"

section \<open>Counts are lower bounds, and exact without a gap\<close>

definition tally :: "rule_hits \<Rightarrow> rstr \<Rightarrow> nat" where
  "tally h n = st_count (get_stat n (hits_main h)) + st_count (get_stat n (hits_side h))"

lemma tally_frame [simp]:
  "tally (touch h) n = tally h n" "tally (note_gap now h) n = tally h n"
  by (simp_all add: tally_def touch_def note_gap_def)

lemma last_gap_frame [simp]:
  "hits_last_gap (touch h) = hits_last_gap h" "hits_last_gap (note_gap now h) = Some now"
  by (simp_all add: touch_def note_gap_def)

lemma maps_frame [simp]:
  "hits_main (touch h) = hits_main h" "hits_main (note_gap now h) = hits_main h"
  "hits_side (touch h) = hits_side h" "hits_side (note_gap now h) = hits_side h"
  "hits_restored (touch h) = hits_restored h" "hits_restored (note_gap now h) = hits_restored h"
  by (simp_all add: touch_def note_gap_def)

lemma baseline_frame [simp]:
  "hits_last_uptime (touch h) = hits_last_uptime h" "hits_last_uptime (note_gap now h) = hits_last_uptime h"
  "hits_last_rule_hits (touch h) = hits_last_rule_hits h" "hits_last_rule_hits (note_gap now h) = hits_last_rule_hits h"
  "hits_pending (touch h) = hits_pending h" "hits_pending (note_gap now h) = hits_pending h"
  by (simp_all add: touch_def note_gap_def)

lemma count_hit_frame [simp]:
  "hits_last_uptime (count_hit n t now k h) = hits_last_uptime h"
  "hits_last_rule_hits (count_hit n t now k h) = hits_last_rule_hits h"
  "hits_pending (count_hit n t now k h) = hits_pending h"
  by (simp_all add: count_hit_def Let_def)

lemma get_stat_simps [simp]:
  "get_stat n (fmupd k s m) = (if n = k then s else get_stat n m)"
  "get_stat n (fmdrop k m) = (if n = k then no_stat else get_stat n m)"
  "st_count no_stat = 0"
  by (simp_all add: get_stat_def no_stat_def)

lemma merge_count: "st_count a + st_count b \<le> U64_MAX \<Longrightarrow> st_count (stat_merge a b) = st_count a + st_count b"
  by (simp add: stat_merge_def u64_saturating_add_def)

lemma merge_side_count:
  "st_count s + st_count (get_stat n m) \<le> U64_MAX \<Longrightarrow>
     st_count (case fmlookup m n of Some w \<Rightarrow> stat_merge s w | None \<Rightarrow> s) = st_count s + st_count (get_stat n m)"
  by (simp add: get_stat_def merge_count split: option.splits)

text \<open>A hit is counted once, or a gap is noted and nothing is counted.\<close>

lemma count_hit_counted:
  assumes small: "tally h name < U64_MAX"
  shows "count_hit name t now k h = note_gap now h
     \<or> (hits_last_gap (count_hit name t now k h) = hits_last_gap h
        \<and> (\<forall>n. tally (count_hit name t now k h) n = tally h n + (if n = name then 1 else 0)))"
proof (cases "count_hit name t now k h = note_gap now h")
  case False
  let ?s = "case fmlookup (hits_side h) name of Some w \<Rightarrow> stat_merge (get_stat name (hits_main h)) w
            | None \<Rightarrow> get_stat name (hits_main h)"
  let ?hit = "\<lparr> st_count = 1, st_last_hit = t \<rparr>"
  have s: "st_count ?s = tally h name"
    using small by (subst merge_side_count) (simp_all add: tally_def)
  have hit: "st_count (stat_merge ?s ?hit) = tally h name + 1"
    using s small by (subst merge_count) simp_all
  have side: "st_count (stat_merge (get_stat name (hits_side h)) ?hit) = st_count (get_stat name (hits_side h)) + 1"
    using small by (subst merge_count) (simp_all add: tally_def)
  from False consider
      "count_hit name t now k h = touch (h\<lparr> hits_side := fmdrop name (hits_side h),
                                 hits_main := fmupd name (stat_merge ?s ?hit) (hits_main h) \<rparr>)"
    | "count_hit name t now k h = touch (h\<lparr> hits_side := fmupd name (stat_merge (get_stat name (hits_side h)) ?hit) (hits_side h) \<rparr>)"
    by (auto simp: count_hit_def Let_def split: if_splits)
  then show ?thesis
  proof cases
    case 1
    show ?thesis unfolding 1 using hit by (simp add: tally_def)
  next
    case 2
    show ?thesis unfolding 2 using side by (simp add: tally_def)
  qed
qed simp

lemma count_hit_tally:
  assumes "tally h name < U64_MAX"
  shows "tally (count_hit name t now k h) n \<le> tally h n + (if n = name then 1 else 0)"
    and "hits_last_gap (count_hit name t now k h) = None \<Longrightarrow>
      hits_last_gap h = None \<and> tally (count_hit name t now k h) n = tally h n + (if n = name then 1 else 0)"
  using count_hit_counted[OF assms, of t now k] by auto

text \<open>How many events of a batch name a rule.\<close>

definition named :: "rstr \<Rightarrow> event list \<Rightarrow> nat" where
  "named n evs = length (filter (\<lambda>ev. case e_rule ev of Some r \<Rightarrow> r_name r = n | None \<Rightarrow> False) evs)"

lemma named_simps [simp]:
  "named n [] = 0"
  "named n (ev # evs) = (if (case e_rule ev of Some r \<Rightarrow> r_name r = n | None \<Rightarrow> False) then 1 else 0) + named n evs"
  "named n (evs @ evs') = named n evs + named n evs'"
  by (simp_all add: named_def)

lemma named_le: "named n evs \<le> length evs"
  by (simp add: named_def)

lemma record_event_cases:
  obtains (skipped) "record_event known now ev h = h" "\<And>n. n \<noteq> [] \<Longrightarrow> named n [ev] = 0"
  | (counted) name t k where "name \<noteq> []" "record_event known now ev h = count_hit name t now k h"
      "\<And>n. named n [ev] = (if n = name then 1 else 0)"
proof (cases "e_rule ev")
  case (Some r)
  then show ?thesis
    using that by (cases "r_name r = []") (auto simp: record_event_def)
qed (use that in \<open>auto simp: record_event_def\<close>)

lemma record_event_tally:
  assumes "n \<noteq> []" "\<And>m. tally h m < U64_MAX"
  shows "tally (record_event known now ev h) n \<le> tally h n + named n [ev]"
    and "hits_last_gap (record_event known now ev h) = None \<Longrightarrow>
      hits_last_gap h = None \<and> tally (record_event known now ev h) n = tally h n + named n [ev]"
proof -
  have "tally (record_event known now ev h) n \<le> tally h n + named n [ev]
    \<and> (hits_last_gap (record_event known now ev h) = None \<longrightarrow>
      hits_last_gap h = None \<and> tally (record_event known now ev h) n = tally h n + named n [ev])"
  proof (cases rule: record_event_cases[of known now ev h])
    case skipped
    then show ?thesis using assms(1) by simp
  next
    case (counted name t k)
    show ?thesis unfolding counted(2,3) using count_hit_tally[OF assms(2), of name t now k n] by blast
  qed
  then show "tally (record_event known now ev h) n \<le> tally h n + named n [ev]"
    "hits_last_gap (record_event known now ev h) = None \<Longrightarrow>
      hits_last_gap h = None \<and> tally (record_event known now ev h) n = tally h n + named n [ev]" by blast+
qed

lemma record_event_frame [simp]:
  "hits_last_uptime (record_event known now ev h) = hits_last_uptime h"
  "hits_last_rule_hits (record_event known now ev h) = hits_last_rule_hits h"
  "hits_pending (record_event known now ev h) = hits_pending h"
  by (simp_all add: record_event_def split: option.split)

lemma fold_record_frame [simp]:
  "hits_last_uptime (fold (record_event known now) evs h) = hits_last_uptime h"
  "hits_last_rule_hits (fold (record_event known now) evs h) = hits_last_rule_hits h"
  "hits_pending (fold (record_event known now) evs h) = hits_pending h"
  by (induction evs arbitrary: h) simp_all

lemma tally_bounded_step:
  assumes "\<And>m. tally h m \<le> k" "k < U64_MAX"
  shows "tally (record_event known now ev h) m \<le> k + 1"
proof (cases rule: record_event_cases[of known now ev h])
  case skipped
  then show ?thesis using assms(1)[of m] by simp
next
  case (counted name t kn)
  have "tally h name < U64_MAX" using assms(1)[of name] assms(2) by linarith
  from count_hit_tally(1)[OF this, of t now kn m] show ?thesis
    using assms(1)[of m] unfolding counted(2) by (auto split: if_splits)
qed

lemma fold_record_tally:
  assumes "n \<noteq> []"
  shows "(\<And>m. tally h m \<le> k) \<Longrightarrow> k + length evs \<le> U64_MAX \<Longrightarrow>
    tally (fold (record_event known now) evs h) n \<le> tally h n + named n evs
    \<and> (hits_last_gap (fold (record_event known now) evs h) = None \<longrightarrow>
      hits_last_gap h = None \<and> tally (fold (record_event known now) evs h) n = tally h n + named n evs)
    \<and> (\<forall>m. tally (fold (record_event known now) evs h) m \<le> k + length evs)"
proof (induction evs arbitrary: h k)
  case (Cons ev evs)
  let ?h = "record_event known now ev h"
  have k: "k < U64_MAX" using Cons.prems(2) by simp
  have small: "tally h m < U64_MAX" for m using Cons.prems(1)[of m] k by linarith
  have step: "tally ?h m \<le> k + 1" for m using tally_bounded_step[OF Cons.prems(1) k] .
  have len: "(k + 1) + length evs \<le> U64_MAX" using Cons.prems(2) by simp
  have split: "named n (ev # evs) = named n [ev] + named n evs" by simp
  show ?case
    unfolding split fold_simps
    using record_event_tally[OF assms small, of known now ev] Cons.IH[OF step len] by simp
qed simp

lemma map_of_keys: "map_of (map (\<lambda>k. (k, f k)) ks) n = (if n \<in> set ks then Some (f n) else None)"
  by (induction ks) auto

lemma map_of_fm_entries [simp]: "map_of (fm_entries m) n = fmlookup m n"
proof (cases "fmlookup m n")
  case None
  then have "n |\<notin>| fmdom m" by (simp add: fmlookup_None_iff)
  with None show ?thesis by (simp add: fm_entries_def map_of_keys)
next
  case (Some v)
  then have "n |\<in>| fmdom m" by (rule fmdomI)
  with Some show ?thesis by (simp add: fm_entries_def map_of_keys)
qed

lemma fst_fm_entries [simp]: "map fst (fm_entries m) = fm_keys m"
  by (simp add: fm_entries_def comp_def)

lemma length_fm_entries [simp]: "length (fm_entries m) = fm_len m"
  by (simp add: fm_entries_def fm_keys_def fm_len_def sorted_list_of_fset.rep_eq fcard.rep_eq)

section \<open>Adopting a list\<close>

text \<open>The counts a name waits with.\<close>

definition waits :: "(rstr \<times> stat) list \<Rightarrow> rstr \<Rightarrow> nat" where
  "waits xs n = (case map_of xs n of Some s \<Rightarrow> st_count s | None \<Rightarrow> 0)"

lemma adopt_one_main:
  assumes "st_count (get_stat name (hits_main h)) + st_count s \<le> U64_MAX" "adopt_one now known (name, s) (h, ch) = (h', ch')"
  shows "st_count (get_stat n (hits_main h')) \<le> st_count (get_stat n (hits_main h)) + (if n = name \<and> known n then st_count s else 0)"
    and "n \<noteq> name \<Longrightarrow> get_stat n (hits_main h') = get_stat n (hits_main h)"
    and "hits_last_gap h' = None \<Longrightarrow> hits_last_gap h = None
      \<and> st_count (get_stat n (hits_main h')) = st_count (get_stat n (hits_main h)) + (if n = name \<and> known n then st_count s else 0)"
    and "hits_side h' = hits_side h" "hits_restored h' = hits_restored h" "hits_pending h' = hits_pending h"
    "hits_last_uptime h' = hits_last_uptime h" "hits_last_rule_hits h' = hits_last_rule_hits h"
  using assms by (auto simp: adopt_one_def merge_count split: if_splits)

lemma adopt_fold:
  assumes "distinct (map fst xs)" "\<forall>(name, s) \<in> set xs. st_count (get_stat name (hits_main h)) + st_count s \<le> U64_MAX"
    and "fold (adopt_one now known) xs (h, ch) = (h', ch')"
  shows "st_count (get_stat n (hits_main h')) \<le> st_count (get_stat n (hits_main h)) + (if known n then waits xs n else 0)
    \<and> (hits_last_gap h' = None \<longrightarrow> hits_last_gap h = None
        \<and> st_count (get_stat n (hits_main h')) = st_count (get_stat n (hits_main h)) + (if known n then waits xs n else 0))
    \<and> hits_side h' = hits_side h \<and> hits_restored h' = hits_restored h \<and> hits_pending h' = hits_pending h
    \<and> hits_last_uptime h' = hits_last_uptime h \<and> hits_last_rule_hits h' = hits_last_rule_hits h"
  using assms
proof (induction xs arbitrary: h ch)
  case (Cons x xs)
  obtain name s where x: "x = (name, s)" by (cases x)
  obtain h1 ch1 where h1: "adopt_one now known (name, s) (h, ch) = (h1, ch1)" by (cases "adopt_one now known (name, s) (h, ch)")
  have fits: "st_count (get_stat name (hits_main h)) + st_count s \<le> U64_MAX" using Cons.prems(2) by (simp add: x)
  note one = adopt_one_main[OF fits h1]
  have rest: "\<forall>(k, s') \<in> set xs. st_count (get_stat k (hits_main h1)) + st_count s' \<le> U64_MAX"
    using Cons.prems(1,2) one(2) by (fastforce simp: x image_iff)
  have ih: "st_count (get_stat n (hits_main h')) \<le> st_count (get_stat n (hits_main h1)) + (if known n then waits xs n else 0)
    \<and> (hits_last_gap h' = None \<longrightarrow> hits_last_gap h1 = None
        \<and> st_count (get_stat n (hits_main h')) = st_count (get_stat n (hits_main h1)) + (if known n then waits xs n else 0))
    \<and> hits_side h' = hits_side h1 \<and> hits_restored h' = hits_restored h1 \<and> hits_pending h' = hits_pending h1
    \<and> hits_last_uptime h' = hits_last_uptime h1 \<and> hits_last_rule_hits h' = hits_last_rule_hits h1"
    by (rule Cons.IH[OF _ rest]) (use Cons.prems(1,3) in \<open>simp_all add: x h1\<close>)
  have waits: "waits (x # xs) n = (if n = name then st_count s else waits xs n)" "n = name \<Longrightarrow> waits xs n = 0"
    using Cons.prems(1) by (auto simp: waits_def x map_of_eq_None_iff[THEN iffD2])
  show ?case unfolding waits(1) using ih one(1,3)[of n] one(4-8) waits(2) by auto
qed (simp add: waits_def)

lemma get_stat_filter: "get_stat n (fmfilter known m) = (if known n then get_stat n m else no_stat)"
  by (simp add: get_stat_def)

lemma waits_entries: "waits (fm_entries m) n = st_count (get_stat n m)"
  by (simp add: waits_def get_stat_def split: option.split)

lemma adopt_snapshot_tally:
  assumes "hits_restored h = fmempty" "\<And>m. tally h m \<le> U64_MAX"
  shows "tally (hits_adopt_snapshot now known h) n \<le> (if known n then tally h n else 0)
    \<and> (hits_last_gap (hits_adopt_snapshot now known h) = None \<longrightarrow> hits_last_gap h = None
        \<and> tally (hits_adopt_snapshot now known h) n = (if known n then tally h n else 0))
    \<and> hits_restored (hits_adopt_snapshot now known h) = fmempty
    \<and> hits_pending (hits_adopt_snapshot now known h) = hits_pending h
    \<and> hits_last_uptime (hits_adopt_snapshot now known h) = hits_last_uptime h
    \<and> hits_last_rule_hits (hits_adopt_snapshot now known h) = hits_last_rule_hits h"
proof -
  let ?xs = "fm_entries (hits_side h)"
  let ?h0 = "h\<lparr> hits_main := fmfilter known (hits_main h) \<rparr>"
  define changed where "changed = (fm_len (fmfilter known (hits_main h)) \<noteq> fm_len (hits_main h))"
  define h1 where "h1 = (if changed then note_gap now ?h0 else ?h0)\<lparr> hits_side := fmempty, hits_restored := fmempty \<rparr>"
  obtain h2 ch where h2: "fold (adopt_one now known) ?xs (h1, changed) = (h2, ch)"
    by (cases "fold (adopt_one now known) ?xs (h1, changed)")
  have empty: "fm_entries (fmempty :: (rstr, stat) fmap) = []" by (simp add: fm_entries_def fm_keys_def sorted_list_of_fset.rep_eq)
  have result: "hits_adopt_snapshot now known h = (if ch then touch h2 else h2)"
    using h2 assms(1) by (cases changed) (simp_all add: hits_adopt_snapshot_def Let_def h1_def changed_def empty)
  have h1: "hits_main h1 = fmfilter known (hits_main h)" "hits_side h1 = fmempty" "hits_restored h1 = fmempty"
    "hits_pending h1 = hits_pending h" "hits_last_uptime h1 = hits_last_uptime h" "hits_last_rule_hits h1 = hits_last_rule_hits h"
    "hits_last_gap h1 = None \<Longrightarrow> hits_last_gap h = None"
    by (simp_all add: h1_def split: if_splits)
  have "\<forall>(name, s) \<in> set ?xs. st_count (get_stat name (hits_main h1)) + st_count s \<le> U64_MAX"
  proof clarify
    fix name s assume "(name, s) \<in> set ?xs"
    then have "map_of ?xs name = Some s" by (intro map_of_is_SomeI) (simp_all add: fm_keys_def sorted_list_of_fset.rep_eq)
    then have "s = get_stat name (hits_side h)" by (simp add: get_stat_def)
    then show "st_count (get_stat name (hits_main h1)) + st_count s \<le> U64_MAX"
      using assms(2)[of name] by (simp add: h1 get_stat_filter tally_def)
  qed
  from adopt_fold[OF _ this h2, of n] show ?thesis
    unfolding result tally_def
    by (auto simp: h1 waits_entries get_stat_filter fm_keys_def sorted_list_of_fset.rep_eq get_stat_def[of _ fmempty])
qed

lemma hits_forget_parts:
  "tally (hits_forget name h) n = (if n = name then 0 else tally h n)" "hits_last_gap (hits_forget name h) = hits_last_gap h"
  "hits_pending (hits_forget name h) = hits_pending h" "hits_last_uptime (hits_forget name h) = hits_last_uptime h"
  "hits_last_rule_hits (hits_forget name h) = hits_last_rule_hits h"
  "hits_restored h = fmempty \<Longrightarrow> hits_restored (hits_forget name h) = fmempty"
  by (simp_all add: hits_forget_def Let_def tally_def)

section \<open>A run of pings, adopted lists and forgotten rules\<close>

record ping =
  pg_events :: "event list"
  pg_uptime :: nat
  pg_rule_hits :: nat
  pg_now :: int

text \<open>What reaches the counts while a bridge runs: a ping, with what the list knows then, an
  adopted list and a rule that left the list or was replaced.\<close>

datatype hits_event = CountedPing ping "rstr \<Rightarrow> bool" | CountedAdopt int "rstr \<Rightarrow> bool" | CountedForget rstr

fun hits_step :: "hits_event \<Rightarrow> rule_hits \<Rightarrow> rule_hits" where
  "hits_step (CountedPing p known) h = fst (hits_record (pg_events p) (pg_uptime p) (pg_rule_hits p) (pg_now p) known h)"
| "hits_step (CountedAdopt now known) h = hits_adopt_snapshot now known h"
| "hits_step (CountedForget name) h = hits_forget name h"

definition hits_run :: "hits_event list \<Rightarrow> rule_hits" where
  "hits_run es = fold hits_step es new_hits"

fun event_pings :: "hits_event \<Rightarrow> ping list" where
  "event_pings (CountedPing p known) = [p]"
| "event_pings _ = []"

definition pings :: "hits_event list \<Rightarrow> ping list" where
  "pings es = concat (map event_pings es)"

definition all_events :: "hits_event list \<Rightarrow> event list" where
  "all_events es = concat (map pg_events (pings es))"

text \<open>The events that named a rule since it was last forgotten or missing from an adopted list.\<close>

fun count_named :: "rstr \<Rightarrow> hits_event \<Rightarrow> nat \<Rightarrow> nat" where
  "count_named n (CountedPing p known) c = c + named n (pg_events p)"
| "count_named n (CountedAdopt now known) c = (if known n then c else 0)"
| "count_named n (CountedForget name) c = (if name = n then 0 else c)"

definition named_since :: "rstr \<Rightarrow> hits_event list \<Rightarrow> nat" where
  "named_since n es = fold (count_named n) es 0"

text \<open>Two pings in a row of one daemon run that account for every hit between them.\<close>

definition accounted :: "ping \<Rightarrow> ping \<Rightarrow> bool" where
  "accounted p q \<longleftrightarrow> pg_uptime p \<le> pg_uptime q \<and> pg_rule_hits q = pg_rule_hits p + received_events (pg_events q)"

lemma hits_run_simps [simp]:
  "hits_run [] = new_hits" "hits_run (es @ [e]) = hits_step e (hits_run es)"
  "named_since n [] = 0" "named_since n (es @ [e]) = count_named n e (named_since n es)"
  "pings [] = []" "pings (es @ [e]) = pings es @ event_pings e"
  "all_events [] = []" "all_events (es @ [e]) = all_events es @ concat (map pg_events (event_pings e))"
  by (simp_all add: hits_run_def named_since_def pings_def all_events_def)

lemma record_no_pending:
  assumes "hits_pending h = None"
  shows "fst (hits_record evs up rh now known h) =
     fold (record_event known now) evs
       (let h = (if hits_since h = None then touch (h\<lparr> hits_since := Some now \<rparr>) else h);
            (h, missed) = missed_events (received_events evs) up rh now h
        in if missed then note_gap now h else h)"
  using assms by (simp add: hits_record_def judge_restore_def Let_def split: prod.splits)

text \<open>What the counts of a run satisfy: they are at most the events counted here, and exact
  without a gap.\<close>

definition hits_ok :: "hits_event list \<Rightarrow> rule_hits \<Rightarrow> bool" where
  "hits_ok es h \<longleftrightarrow> hits_pending h = None \<and> hits_restored h = fmempty
     \<and> (\<forall>m. tally h m \<le> length (all_events es))
     \<and> (\<forall>n. n \<noteq> [] \<longrightarrow> tally h n \<le> named_since n es \<and> (hits_last_gap h = None \<longrightarrow> tally h n = named_since n es))
     \<and> (hits_last_gap h = None \<longrightarrow> successively accounted (pings es))
     \<and> hits_last_uptime h = (if pings es = [] then None else Some (pg_uptime (last (pings es))))
     \<and> hits_last_rule_hits h = (if pings es = [] then None else Some (pg_rule_hits (last (pings es))))"

lemma count_hit_restored [simp]: "hits_restored (count_hit n t now k h) = hits_restored h"
  by (simp add: count_hit_def Let_def)

lemma fold_record_restored [simp]: "hits_restored (fold (record_event known now) evs h) = hits_restored h"
  by (induction evs arbitrary: h) (simp_all add: record_event_def split: option.split)

lemma hits_ok_ping:
  assumes ok: "hits_ok es h" and len: "length (all_events es) + length (pg_events p) \<le> U64_MAX"
  shows "hits_ok (es @ [CountedPing p known]) (hits_step (CountedPing p known) h)"
proof -
  let ?e = "CountedPing p known"
  define h1 where "h1 = (if hits_since h = None then touch (h\<lparr> hits_since := Some (pg_now p) \<rparr>) else h)"
  define missed where "missed = snd (missed_events (received_events (pg_events p)) (pg_uptime p) (pg_rule_hits p) (pg_now p) h1)"
  define h2 where "h2 = (let h = fst (missed_events (received_events (pg_events p)) (pg_uptime p) (pg_rule_hits p) (pg_now p) h1)
                          in if missed then note_gap (pg_now p) h else h)"
  define h' where "h' = hits_step ?e h"
  have h1: "hits_last_gap h1 = hits_last_gap h" "tally h1 m = tally h m" "hits_pending h1 = None" "hits_restored h1 = fmempty"
    "hits_last_uptime h1 = hits_last_uptime h" "hits_last_rule_hits h1 = hits_last_rule_hits h" for m
    using ok by (simp_all add: h1_def tally_def hits_ok_def)
  have run: "h' = fold (record_event known (pg_now p)) (pg_events p) h2"
    using ok by (simp add: h'_def hits_ok_def record_no_pending h1_def h2_def missed_def Let_def case_prod_beta)
  have h2: "hits_pending h2 = None" "hits_restored h2 = fmempty" "tally h2 m = tally h m"
    "hits_last_uptime h2 = Some (pg_uptime p)" "hits_last_rule_hits h2 = Some (pg_rule_hits p)"
    "hits_last_gap h2 = None \<longleftrightarrow> \<not> missed \<and> hits_last_gap h = None" for m
    using h1 by (simp_all add: h2_def missed_events_def Let_def tally_def)
  have acc: "\<not> missed \<Longrightarrow> pings es \<noteq> [] \<Longrightarrow> accounted (last (pings es)) p"
    using ok h1 by (auto simp: hits_ok_def missed_def missed_events_def accounted_def Let_def)
  have bound: "tally h2 m \<le> length (all_events es)" for m using ok h2(3) by (simp add: hits_ok_def)
  have tal: "tally h' n \<le> tally h n + named n (pg_events p)
    \<and> (hits_last_gap h' = None \<longrightarrow> \<not> missed \<and> hits_last_gap h = None \<and> tally h' n = tally h n + named n (pg_events p))
    \<and> (\<forall>m. tally h' m \<le> length (all_events es) + length (pg_events p))" if "n \<noteq> []" for n
    using fold_record_tally[OF that bound len, of known "pg_now p"] h2(3,6) unfolding run by auto
  have some: "[0] \<noteq> ([] :: rstr)" by simp
  have counts: "tally h' n \<le> named_since n es + named n (pg_events p)
      \<and> (hits_last_gap h' = None \<longrightarrow> tally h' n = named_since n es + named n (pg_events p))" if "n \<noteq> []" for n
    using tal[OF that] ok that unfolding hits_ok_def by (metis add_le_cancel_right le_trans)
  have succ: "successively accounted (pings es @ [p])" if "hits_last_gap h' = None"
    using tal[OF some] that ok acc by (cases "pings es = []") (auto simp: hits_ok_def successively_append_iff)
  have frame: "hits_pending h' = None" "hits_restored h' = fmempty" "hits_last_uptime h' = Some (pg_uptime p)"
    "hits_last_rule_hits h' = Some (pg_rule_hits p)" using h2 by (simp_all add: run)
  have "hits_ok (es @ [?e]) h'"
    using counts succ tal[OF some] frame by (simp add: hits_ok_def)
  then show ?thesis by (simp add: h'_def)
qed

lemma hits_ok_adopt:
  assumes ok: "hits_ok es h" and len: "length (all_events es) \<le> U64_MAX"
  shows "hits_ok (es @ [CountedAdopt now known]) (hits_step (CountedAdopt now known) h)"
proof -
  have "hits_restored h = fmempty" "tally h m \<le> U64_MAX" for m
    using ok len by (auto simp: hits_ok_def intro: le_trans)
  note adopt = adopt_snapshot_tally[OF this, of now known]
  have "tally (hits_adopt_snapshot now known h) m \<le> length (all_events es)" for m
    using adopt[of m] ok by (auto simp: hits_ok_def split: if_splits intro: le_trans)
  moreover have "tally (hits_adopt_snapshot now known h) n \<le> (if known n then named_since n es else 0)
      \<and> (hits_last_gap (hits_adopt_snapshot now known h) = None \<longrightarrow>
          tally (hits_adopt_snapshot now known h) n = (if known n then named_since n es else 0))" if "n \<noteq> []" for n
    using adopt[of n] ok that unfolding hits_ok_def by (cases "known n") (auto intro: le_trans)
  ultimately show ?thesis using adopt ok by (auto simp: hits_ok_def)
qed

lemma hits_ok_forget: "hits_ok es h \<Longrightarrow> hits_ok (es @ [CountedForget name]) (hits_step (CountedForget name) h)"
  by (auto simp: hits_ok_def hits_forget_parts)

lemma hits_run_ok: "length (all_events es) \<le> U64_MAX \<Longrightarrow> hits_ok es (hits_run es)"
proof (induction es rule: rev_induct)
  case Nil
  show ?case by (simp add: hits_ok_def new_hits_def tally_def get_stat_def)
next
  case (snoc e es)
  then have "hits_ok es (hits_run es)" by simp
  then show ?case
    using snoc.prems hits_ok_ping hits_ok_adopt hits_ok_forget by (cases e) simp_all
qed

text \<open>
  C36. A hit count never exceeds the events that arrived, and if no gap is shown it is exact.
  From a fresh start, after any pings (whatever the list knew at each of them), adopted lists
  and rules that were forgotten, a rule's count is at most the number of events that named it
  since it was last forgotten or missing from an adopted list, which is where its count starts
  again; and while no gap has been noted it is that number, the daemon has not restarted
  between two pings, and the events of every ping after the first are all the hits its counter
  grew by. (Counts taken over from an earlier run come in by \<open>restore\<close>, which is not part of
  such a run.)
\<close>

theorem counts_exact_without_gap:
  assumes "length (all_events es) \<le> U64_MAX" "n \<noteq> []"
  shows "tally (hits_run es) n \<le> named_since n es
    \<and> (hits_last_gap (hits_run es) = None \<longrightarrow>
         tally (hits_run es) n = named_since n es \<and> successively accounted (pings es))"
  using hits_run_ok[OF assms(1)] assms(2) by (simp add: hits_ok_def)

definition example_pings :: "hits_event list" where
  "example_pings =
     [CountedPing \<lparr> pg_events = [example_event], pg_uptime = 10, pg_rule_hits = 7, pg_now = 1000 \<rparr> (\<lambda>_. False),
      CountedAdopt 2000 (\<lambda>_. True),
      CountedPing \<lparr> pg_events = [example_event, example_event], pg_uptime = 12, pg_rule_hits = 9, pg_now = 3000 \<rparr> (\<lambda>_. True)]"

theorem counts_exact_without_gap_witness:
  "hits_last_gap (hits_run example_pings) = None \<and> tally (hits_run example_pings) (lit ''web'') = 3"
proof -
  have len: "length (all_events example_pings) \<le> U64_MAX"
    by (simp add: all_events_def pings_def example_pings_def U64_MAX_def)
  have gap: "hits_last_gap (hits_run example_pings) = None" by code_simp
  have "named_since (lit ''web'') example_pings = 3" by code_simp
  with counts_exact_without_gap[OF len, of "lit ''web''"] gap show ?thesis by simp
qed

section \<open>Saving and restoring\<close>

lemma map_of_rev_distinct: "distinct (map fst xs) \<Longrightarrow> map_of (rev xs) n = map_of xs n"
proof (induction xs)
  case (Cons x xs)
  obtain k v where x: "x = (k, v)" by (cases x)
  have "map_of xs k = None" using Cons.prems by (simp add: x map_of_eq_None_iff)
  then show ?case using Cons by (simp add: x map_add_def split: option.split)
qed simp

lemma restore_hit_wire:
  "restore_hit (hit_wire (k, s)) m = (if keepable_name k then fmupd k s m else m)"
  by (cases s) (simp add: restore_hit_def hit_wire_def)

lemma restore_hits_fold:
  "\<forall>k \<in> set (map fst xs). keepable_name k \<Longrightarrow>
     fold restore_hit (map hit_wire xs) m = fold (\<lambda>(k, v) m. fmupd k v m) xs m"
  by (induction xs arbitrary: m) (auto simp: restore_hit_wire)

lemma restored_lookup:
  assumes "\<forall>k \<in> set (map fst xs). keepable_name k" "distinct (map fst xs)"
  shows "fmlookup (fold restore_hit (map hit_wire xs) fmempty) n = map_of xs n"
  unfolding restore_hits_fold[OF assms(1)] fmlookup_collect_fold map_of_rev_distinct[OF assms(2)]
  by (simp split: option.split)

text \<open>The waiting counts a save collects: names the main map lacks, each with all its counts.\<close>

definition waiting_of :: "rule_hits \<Rightarrow> (rstr, stat) fmap" where
  "waiting_of h = fold (add_waiting (hits_main h)) (fm_entries (hits_side h) @ fm_entries (hits_restored h)) fmempty"

definition saved_entries :: "rule_hits \<Rightarrow> (rstr \<times> stat) list" where
  "saved_entries h = map (\<lambda>(name, s). (name, merge_also name (hits_restored h) (merge_also name (hits_side h) s)))
     (fm_entries (hits_main h)) @ fm_entries (waiting_of h)"

definition full_count :: "rule_hits \<Rightarrow> rstr \<Rightarrow> nat" where
  "full_count h n = st_count (get_stat n (hits_main h)) + st_count (get_stat n (hits_side h))
     + st_count (get_stat n (hits_restored h))"

definition names_of :: "rule_hits \<Rightarrow> rstr fset" where
  "names_of h = fmdom (hits_main h) |\<union>| fmdom (hits_side h) |\<union>| fmdom (hits_restored h)"

lemma add_waiting_fold:
  "distinct (map fst xs) \<Longrightarrow> fmlookup (fold (add_waiting main) xs m) n =
     (if n |\<in>| fmdom main then fmlookup m n
      else case map_of xs n of None \<Rightarrow> fmlookup m n | Some s \<Rightarrow> Some (stat_merge (get_stat n m) s))"
proof (induction xs arbitrary: m)
  case (Cons x xs)
  obtain k s where x: "x = (k, s)" by (cases x)
  have k: "map_of xs k = None" using Cons.prems by (simp add: x map_of_eq_None_iff)
  have ih: "fmlookup (fold (add_waiting main) xs m') n =
     (if n |\<in>| fmdom main then fmlookup m' n
      else case map_of xs n of None \<Rightarrow> fmlookup m' n | Some s \<Rightarrow> Some (stat_merge (get_stat n m') s))" for m'
    using Cons by simp
  have step: "add_waiting main x m = (if k |\<notin>| fmdom main then fmupd k (stat_merge (get_stat k m) s) m else m)"
    by (simp add: add_waiting_def x)
  show ?case unfolding fold_simps ih step using k by (cases "n = k") (auto simp: x split: option.split)
qed simp

lemma waiting_lookup:
  "fmlookup (waiting_of h) n =
     (if n |\<in>| fmdom (hits_main h) then None
      else case (fmlookup (hits_side h) n, fmlookup (hits_restored h) n) of
             (None, None) \<Rightarrow> None
           | (Some s, None) \<Rightarrow> Some (stat_merge no_stat s)
           | (None, Some r) \<Rightarrow> Some (stat_merge no_stat r)
           | (Some s, Some r) \<Rightarrow> Some (stat_merge (stat_merge no_stat s) r))"
proof -
  let ?m = "fold (add_waiting (hits_main h)) (fm_entries (hits_side h)) fmempty"
  have side: "fmlookup ?m n = (if n |\<in>| fmdom (hits_main h) then None
      else map_option (stat_merge no_stat) (fmlookup (hits_side h) n))"
    by (subst add_waiting_fold) (simp_all add: get_stat_def split: option.split)
  have "fmlookup (waiting_of h) n = (if n |\<in>| fmdom (hits_main h) then fmlookup ?m n
      else case fmlookup (hits_restored h) n of None \<Rightarrow> fmlookup ?m n
           | Some s \<Rightarrow> Some (stat_merge (get_stat n ?m) s))"
    unfolding waiting_of_def fold_append comp_def by (subst add_waiting_fold) simp_all
  then show ?thesis unfolding get_stat_def side by (simp split: option.split)
qed

lemma waiting_disjoint: "fmdom (waiting_of h) |\<inter>| fmdom (hits_main h) = {||}"
  by (rule fset_eqI) (metis finter_iff fmlookup_None_iff waiting_lookup fempty_iff)

lemma waiting_names: "n |\<in>| fmdom (waiting_of h) \<Longrightarrow> n |\<in>| names_of h"
proof -
  assume "n |\<in>| fmdom (waiting_of h)"
  then have "fmlookup (waiting_of h) n \<noteq> None" by (simp add: fmlookup_None_iff)
  then have "fmlookup (hits_side h) n \<noteq> None \<or> fmlookup (hits_restored h) n \<noteq> None"
    by (auto simp: waiting_lookup split: option.splits if_splits)
  then show ?thesis by (auto simp: names_of_def fmlookup_None_iff)
qed

lemma fst_saved_entries: "map fst (saved_entries h) = fm_keys (hits_main h) @ fm_keys (waiting_of h)"
  by (simp add: saved_entries_def comp_def case_prod_beta)

lemma distinct_saved_entries: "distinct (map fst (saved_entries h))"
  unfolding fst_saved_entries using waiting_disjoint[of h] by (auto simp: fset_eq_iff)

lemma merge_also_count:
  "st_count s + st_count (get_stat n m) \<le> U64_MAX \<Longrightarrow>
     st_count (merge_also n m s) = st_count s + st_count (get_stat n m)"
  unfolding merge_also_def by (rule merge_side_count)

lemma map_of_map_key: "map_of (map (\<lambda>(k, v). (k, f k v)) xs) n = map_option (f n) (map_of xs n)"
  by (induction xs) auto

lemma saved_entry_count:
  assumes "full_count h n \<le> U64_MAX"
  shows "(case map_of (saved_entries h) n of Some s \<Rightarrow> st_count s | None \<Rightarrow> 0) = full_count h n"
proof (cases "fmlookup (hits_main h) n")
  case (Some s)
  then have "n |\<in>| fmdom (hits_main h)" by (rule fmdomI)
  moreover have "st_count s = st_count (get_stat n (hits_main h))" by (simp add: get_stat_def Some)
  ultimately show ?thesis
    using assms Some
    by (simp add: saved_entries_def map_of_append map_add_def waiting_lookup map_of_map_key merge_also_count full_count_def)
next
  case None
  then have "n |\<notin>| fmdom (hits_main h)" by (simp add: fmlookup_None_iff)
  then have "map_of (saved_entries h) n = fmlookup (waiting_of h) n"
    using None by (simp add: saved_entries_def map_add_def map_of_map_key split: option.split)
  with \<open>n |\<notin>| fmdom (hits_main h)\<close> None assms show ?thesis
    by (cases "fmlookup (hits_side h) n"; cases "fmlookup (hits_restored h) n")
       (simp_all add: waiting_lookup full_count_def get_stat_def merge_count)
qed

lemma to_saved_hits:
  assumes "to_saved h = Some sv" "fm_len (hits_main h) + fm_len (waiting_of h) \<le> MAX_TRACKED_RULES"
  shows "sv_hits sv = map hit_wire (saved_entries h)" "length (sv_hits sv) \<le> MAX_TRACKED_RULES"
proof -
  have len: "length (saved_entries h) \<le> MAX_TRACKED_RULES" using assms(2) by (simp add: saved_entries_def)
  have "sv_hits sv = map hit_wire (take MAX_TRACKED_RULES (saved_entries h))"
    using assms(1) by (auto simp: to_saved_def Let_def saved_entries_def waiting_of_def split: option.splits)
  then show "sv_hits sv = map hit_wire (saved_entries h)" using len by simp
  then show "length (sv_hits sv) \<le> MAX_TRACKED_RULES" using len by simp
qed

text \<open>
  C37. Counts survive a restart of the bridge: when a state that fits the file is saved and the
  file is restored into a fresh state, every rule's count, summed over the three maps, is
  what it was, names that were never counted included; and the run is marked with a gap
  (a certain one, or a provisional one while the daemon's counters are still to be compared),
  never as if nothing could have been missed.
\<close>

theorem counts_survive_restart:
  assumes "to_saved h = Some sv" "fm_len (hits_main h) + fm_len (waiting_of h) \<le> MAX_TRACKED_RULES"
    and "\<forall>n |\<in>| names_of h. keepable_name n" "full_count h n \<le> U64_MAX"
  shows "full_count (hits_restore sv now (trust_daemon_counters trusted new_hits)) n = full_count h n
    \<and> is_lossy (hits_restore sv now (trust_daemon_counters trusted new_hits))"
proof
  let ?r = "hits_restore sv now (trust_daemon_counters trusted new_hits)"
  have keep: "\<forall>k \<in> set (map fst (saved_entries h)). keepable_name k"
    unfolding fst_saved_entries using assms(3) waiting_names[of _ h] by (auto simp: names_of_def)
  have maps: "hits_main ?r = fmempty" "hits_side ?r = fmempty"
    "hits_restored ?r = fold restore_hit (map hit_wire (saved_entries h)) fmempty"
    using to_saved_hits[OF assms(1,2)]
    by (simp_all add: hits_restore_def trust_daemon_counters_def new_hits_def Let_def split: option.split)
  show "full_count ?r n = full_count h n"
    using saved_entry_count[OF assms(4)] unfolding full_count_def get_stat_def maps
      restored_lookup[OF keep distinct_saved_entries] by (simp add: no_stat_def split: option.splits)
  show "is_lossy ?r"
    by (simp add: hits_restore_def trust_daemon_counters_def new_hits_def Let_def is_lossy_def shown_gap_def
        option_max_def note_gap_def touch_def split: option.split)
qed

theorem counts_survive_restart_witness:
  "full_count (hits_restore (the (to_saved (hits_run example_pings))) 9000 (trust_daemon_counters True new_hits))
     (lit ''web'') = 3"
proof -
  have "hits_since (hits_run example_pings) = Some 1000" by code_simp
  then have saved: "to_saved (hits_run example_pings) = Some (the (to_saved (hits_run example_pings)))"
    by (simp add: to_saved_def Let_def)
  have "fm_len (hits_main (hits_run example_pings)) + fm_len (waiting_of (hits_run example_pings)) \<le> MAX_TRACKED_RULES"
    by code_simp
  moreover have "\<forall>n |\<in>| names_of (hits_run example_pings). keepable_name n" by code_simp
  moreover have "full_count (hits_run example_pings) (lit ''web'') = 3" "(3::nat) \<le> U64_MAX" by code_simp+
  ultimately show ?thesis using counts_survive_restart[OF saved, of "lit ''web''" 9000 True] by simp
qed

end
