(* ===== verification/Rules_Sync.thy ===== *)
theory Rules_Sync
  imports Rules_Props Rule_Hits
begin

text \<open>
  \<open>cache/rules_sync.rs\<close> with the \<open>RulesSync\<close> methods of \<open>cache/rules_refused.rs\<close> and
  \<open>cache/rules_count.rs\<close>: staged snapshots, their adoption and journals, the withdrawal of
  a list, the replies of the daemon, and what is broadcast to the GUIs.

  Every method holds the cache lock for its change, so one method is one step here. A
  broadcast is appended to \<open>rs_sent\<close>; rules are broadcast as themselves (the code sends
  their JSON shape, with account names for display). The clocks a method reads are the
  argument \<open>sync_clock\<close>. Account lookup is left out.
\<close>

section \<open>Staged snapshots\<close>

text \<open>\<open>ConnKey\<close>: the TCP peer's address (numbered here), or \<open>None\<close> for the Unix socket.\<close>

type_synonym conn_key = "nat option"
type_synonym stream_id = nat

definition PENDING_SNAPSHOT_CAP :: nat where "PENDING_SNAPSHOT_CAP = 4"
definition PENDING_SNAPSHOT_TTL :: nat where "PENDING_SNAPSHOT_TTL = 30 * NANOS"

record staged =
  sg_key :: conn_key
  sg_at :: instant
  sg_snapshot :: snapshot
  sg_adopted_by :: "stream_id list"

record pending_snapshots =
  pd_entries :: "staged list"
  pd_staged :: nat

definition new_pending :: pending_snapshots where
  "new_pending = \<lparr> pd_entries = [], pd_staged = 0 \<rparr>"

definition is_fresh :: "instant \<Rightarrow> staged \<Rightarrow> bool" where
  "is_fresh now s \<longleftrightarrow> now - sg_at s \<le> PENDING_SNAPSHOT_TTL"

definition pending_receive :: "pending_snapshots \<Rightarrow> pending_snapshots \<times> nat" where
  "pending_receive p = (p\<lparr> pd_staged := pd_staged p + 1 \<rparr>, pd_staged p + 1)"

definition pop_to_cap :: "staged list \<Rightarrow> staged list" where
  "pop_to_cap es = drop (length es - PENDING_SNAPSHOT_CAP) es"

definition pending_stage_received ::
  "conn_key \<Rightarrow> snapshot \<Rightarrow> instant \<Rightarrow> nat \<Rightarrow> pending_snapshots \<Rightarrow> pending_snapshots" where
  "pending_stage_received key snap now received p =
     (let es = filter (is_fresh now) (pd_entries p)
      in if list_ex (\<lambda>s. sg_key s = key \<and> received < sn_sequence (sg_snapshot s)) es
         then p\<lparr> pd_entries := es \<rparr>
         else p\<lparr> pd_entries := pop_to_cap (filter (\<lambda>s. sg_key s \<noteq> key) es
                  @ [\<lparr> sg_key = key, sg_at = now, sg_snapshot = snap\<lparr> sn_sequence := received \<rparr>,
                       sg_adopted_by = [] \<rparr>]) \<rparr>)"

definition journal_change :: "journaled \<Rightarrow> staged \<Rightarrow> staged" where
  "journal_change change s =
     s\<lparr> sg_snapshot := (sg_snapshot s)\<lparr> sn_journal := journal_record change (sn_journal (sg_snapshot s)) \<rparr> \<rparr>"

definition pending_record :: "nat \<Rightarrow> journaled \<Rightarrow> pending_snapshots \<Rightarrow> pending_snapshots" where
  "pending_record seq change p =
     p\<lparr> pd_entries := update_first (\<lambda>s. sn_sequence (sg_snapshot s) = seq) (journal_change change) (pd_entries p) \<rparr>"

definition awaiting_adoption :: "instant \<Rightarrow> pending_snapshots \<Rightarrow> bool" where
  "awaiting_adoption now p \<longleftrightarrow> list_ex (\<lambda>s. sg_adopted_by s = [] \<and> is_fresh now s) (pd_entries p)"

definition adopted_fresh :: "conn_key \<Rightarrow> stream_id \<Rightarrow> instant \<Rightarrow> pending_snapshots \<Rightarrow> snapshot option" where
  "adopted_fresh key stream now p =
     (case find (\<lambda>s. sg_key s = key \<and> stream \<in> set (sg_adopted_by s)) (pd_entries p) of
        Some s \<Rightarrow> if is_fresh now s then Some (sg_snapshot s) else None
      | None \<Rightarrow> None)"

definition adopt_fresh ::
  "conn_key \<Rightarrow> stream_id \<Rightarrow> instant \<Rightarrow> pending_snapshots \<Rightarrow> pending_snapshots \<times> snapshot option" where
  "adopt_fresh key stream now p =
     (case find (\<lambda>s. sg_key s = key) (pd_entries p) of
        None \<Rightarrow> (p, None)
      | Some s \<Rightarrow>
          if \<not> is_fresh now s
          then (p\<lparr> pd_entries := remove_first (\<lambda>s. sg_key s = key) (pd_entries p) \<rparr>, None)
          else if stream \<in> set (sg_adopted_by s) then (p, None)
          else (p\<lparr> pd_entries := update_first (\<lambda>s. sg_key s = key)
                     (\<lambda>s. s\<lparr> sg_adopted_by := sg_adopted_by s @ [stream] \<rparr>) (pd_entries p) \<rparr>,
                Some (sg_snapshot s)))"

section \<open>State\<close>

datatype rules_message =
  SetRules "rule list" | UpdateRules "rule list" | RulesNotShown rules_not_shown

record sync_clock =
  ck_secs :: int
  ck_ms :: int
  ck_mono :: instant

record rules_sync =
  rs_cache :: rules_cache
  rs_pending :: pending_snapshots
  rs_synced :: nat
  rs_sent :: "rules_message list"
  rs_hits :: rule_hits
  rs_holds :: nat
  rs_held_changes :: bool

record receipt =
  rp_revision :: nat
  rp_sequence :: nat

datatype adopted = AdoptedList | AdoptedOverLimit | AdoptedNothing

definition new_sync :: rules_sync where
  "new_sync = \<lparr> rs_cache = new_rules_cache, rs_pending = new_pending, rs_synced = 0, rs_sent = [],
     rs_hits = new_hits, rs_holds = 0, rs_held_changes = False \<rparr>"

definition broadcast :: "rules_message list \<Rightarrow> rules_sync \<Rightarrow> rules_sync" where
  "broadcast ms s = s\<lparr> rs_sent := rs_sent s @ ms \<rparr>"

definition snapshot_wire :: "rules_cache \<Rightarrow> rule list option" where
  "snapshot_wire c = map_option (\<lambda>rs. map (\<lambda>n. the (fmlookup rs n)) (fm_keys rs)) (rc_rules c)"

definition publish_rules :: "rules_sync \<Rightarrow> rules_sync" where
  "publish_rules s =
     broadcast [SetRules (case snapshot_wire (rs_cache s) of Some rs \<Rightarrow> rs | None \<Rightarrow> []),
                RulesNotShown (not_shown (rs_cache s))] s"

section \<open>Operations\<close>

definition sync_record_hits :: "event list \<Rightarrow> nat \<Rightarrow> nat \<Rightarrow> sync_clock \<Rightarrow> rules_sync \<Rightarrow> rules_sync" where
  "sync_record_hits evs up rule_hits ck s =
     s\<lparr> rs_hits := fst (hits_record evs up rule_hits (ck_ms ck) (\<lambda>n. contains n (rs_cache s)) (rs_hits s)) \<rparr>"

definition forget_hits :: "rstr list \<Rightarrow> rules_sync \<Rightarrow> rules_sync" where
  "forget_hits names s = s\<lparr> rs_hits := fold hits_forget names (rs_hits s) \<rparr>"

definition sync_record :: "journaled \<Rightarrow> rules_sync \<Rightarrow> rules_sync" where
  "sync_record change s =
     (if is_unknown (rs_cache s) then s
      else s\<lparr> rs_pending := pending_record (rc_snapshot_sequence (rs_cache s)) change (rs_pending s) \<rparr>)"

definition sync_upsert :: "rule \<Rightarrow> sync_clock \<Rightarrow> rules_sync \<Rightarrow> rules_sync" where
  "sync_upsert r ck s =
     (if is_unknown (rs_cache s) then s
      else let replaces_expired = (case fmlookup (rc_expiries (rs_cache s)) (r_name r) of
                                     Some e \<Rightarrow> ex_at e \<le> r_created r | None \<Rightarrow> False);
               s = (if replaces_expired then forget_hits [r_name r] s else s);
               s = sync_record (Prompt r (ck_secs ck)) s;
               c = upsert_at r (ck_secs ck) (ck_mono ck) (note_prompt_answer (r_name r) (rs_cache s));
               s = s\<lparr> rs_cache := c \<rparr>
           in broadcast [UpdateRules (case rc_rules c of
                           Some rs \<Rightarrow> (case fmlookup rs (r_name r) of Some x \<Rightarrow> [x] | None \<Rightarrow> [])
                         | None \<Rightarrow> [])] s)"

definition sync_receive :: "rules_sync \<Rightarrow> rules_sync \<times> receipt" where
  "sync_receive s =
     (let (p, seq) = pending_receive (rs_pending s)
      in (s\<lparr> rs_pending := p \<rparr>, \<lparr> rp_revision = rc_revision (rs_cache s), rp_sequence = seq \<rparr>))"

definition sync_stage_received ::
  "(rule \<Rightarrow> nat) \<Rightarrow> conn_key \<Rightarrow> rule list \<Rightarrow> receipt \<Rightarrow> sync_clock \<Rightarrow> rules_sync \<Rightarrow> rules_sync" where
  "sync_stage_received encoded_len key rules receipt ck s =
     s\<lparr> rs_pending := pending_stage_received key
          ((bounded_snapshot encoded_len rules)\<lparr> sn_observed_revision := rp_revision receipt \<rparr>)
          (ck_mono ck) (rp_sequence receipt) (rs_pending s) \<rparr>"

definition adopt_cache :: "snapshot \<Rightarrow> instant \<Rightarrow> rules_cache \<Rightarrow> rules_cache" where
  "adopt_cache snap clock c =
     (let c = replace_all_at_revision (sn_rules snap) (sn_observed_revision snap) clock c;
          c = set_left_out_at_revision (sn_left_out snap) (sn_observed_revision snap) c;
          c = c\<lparr> rc_left_out_temporary := sn_left_out_temporary snap \<rparr>
      in if j_overflowed (sn_journal snap) then c else journal_replay clock (sn_journal snap) c)"

definition sync_adopt :: "snapshot \<Rightarrow> sync_clock \<Rightarrow> rules_sync \<Rightarrow> rules_sync \<times> adopted" where
  "sync_adopt snap ck s0 =
     (let s = s0\<lparr> rs_cache := (rs_cache s0)\<lparr> rc_snapshot_sequence := sn_sequence snap \<rparr> \<rparr>
      in case sn_over_limit snap of
           Some t \<Rightarrow>
             let s = (if is_unknown (rs_cache s) then s
                      else broadcast [SetRules []] (s\<lparr> rs_cache := set_unknown (rs_cache s) \<rparr>));
                 s = s\<lparr> rs_cache := (rs_cache s)\<lparr> rc_over_limit_total := Some t \<rparr> \<rparr>
             in (broadcast [RulesNotShown (not_shown (rs_cache s))] s, AdoptedOverLimit)
         | None \<Rightarrow>
             let c = adopt_cache snap (ck_mono ck) (rs_cache s);
                 s = s\<lparr> rs_cache := c, rs_hits := hits_adopt_snapshot (ck_ms ck) (\<lambda>n. contains n c) (rs_hits s) \<rparr>;
                 s = publish_rules s
             in (s\<lparr> rs_synced := rs_synced s + 1 \<rparr>, AdoptedList))"

definition sync_commit :: "conn_key \<Rightarrow> stream_id \<Rightarrow> sync_clock \<Rightarrow> rules_sync \<Rightarrow> rules_sync \<times> adopted" where
  "sync_commit key stream ck s =
     (let (p, found) = adopt_fresh key stream (ck_mono ck) (rs_pending s);
          s = s\<lparr> rs_pending := p \<rparr>
      in case found of Some snap \<Rightarrow> sync_adopt snap ck s | None \<Rightarrow> (s, AdoptedNothing))"

definition sync_readopt :: "conn_key \<Rightarrow> stream_id \<Rightarrow> sync_clock \<Rightarrow> rules_sync \<Rightarrow> rules_sync \<times> adopted" where
  "sync_readopt key stream ck s =
     (case adopted_fresh key stream (ck_mono ck) (rs_pending s) of
        Some snap \<Rightarrow> if j_overflowed (sn_journal snap) then (s, AdoptedNothing) else sync_adopt snap ck s
      | None \<Rightarrow> (s, AdoptedNothing))"

definition has_list :: "rules_sync \<Rightarrow> bool" where
  "has_list s \<longleftrightarrow> \<not> is_unknown (rs_cache s)"

definition sync_withdraw :: "rules_sync \<Rightarrow> rules_sync" where
  "sync_withdraw s0 =
     (let had_count = (rc_over_limit_total (rs_cache s0) \<noteq> None);
          s = s0\<lparr> rs_cache := (rs_cache s0)\<lparr> rc_over_limit_total := None \<rparr> \<rparr>
      in if is_unknown (rs_cache s)
         then (if had_count then broadcast [RulesNotShown (not_shown (rs_cache s))] s else s)
         else let s = s\<lparr> rs_cache := set_unknown (rs_cache s) \<rparr>
              in broadcast [SetRules [], RulesNotShown (not_shown (rs_cache s))] s)"

definition publish_after_command :: "rules_sync \<Rightarrow> rules_sync" where
  "publish_after_command s = (if rs_holds s = 0 then publish_rules s else s\<lparr> rs_held_changes := True \<rparr>)"

definition publish_held_changes :: "rules_sync \<Rightarrow> rules_sync" where
  "publish_held_changes s =
     (if rs_held_changes s then publish_rules (s\<lparr> rs_held_changes := False \<rparr>) else s)"

definition hold_publishes :: "rules_sync \<Rightarrow> rules_sync" where
  "hold_publishes s = s\<lparr> rs_holds := rs_holds s + 1 \<rparr>"

definition drop_hold :: "rules_sync \<Rightarrow> rules_sync" where
  "drop_hold s =
     (let last = (rs_holds s = 1); s = s\<lparr> rs_holds := rs_holds s - 1 \<rparr>
      in if last then publish_held_changes s else s)"

definition sync_apply_confirmed :: "notification \<Rightarrow> sync_clock \<Rightarrow> rules_sync \<Rightarrow> rules_sync" where
  "sync_apply_confirmed sent ck s =
     (let s = s\<lparr> rs_cache := apply_confirmed_at sent (ck_secs ck) (ck_mono ck) (rs_cache s) \<rparr>;
          s = sync_record (Confirmed sent (ck_secs ck)) s;
          s = (if n_type sent = DeleteRule then forget_hits (map r_name (n_rules sent)) s else s)
      in publish_after_command s)"

definition sync_apply_refused :: "notification \<Rightarrow> sync_clock \<Rightarrow> rules_sync \<Rightarrow> rules_sync" where
  "sync_apply_refused sent ck s =
     (let (c, changed) = apply_refused_at sent (ck_secs ck) (ck_mono ck) (rs_cache s);
          s = s\<lparr> rs_cache := c \<rparr>;
          s = sync_record (Refused sent (ck_secs ck)) s;
          s = (if refused_effect_of sent = Removed then forget_hits (map r_name (n_rules sent)) s else s)
      in if changed then publish_after_command s else s)"

definition observe_daemon_rules :: "nat \<Rightarrow> nat \<Rightarrow> nat \<Rightarrow> sync_clock \<Rightarrow> rules_sync \<Rightarrow> rules_sync" where
  "observe_daemon_rules reported up commands_in_flight ck s =
     (let settling = (awaiting_adoption (ck_mono ck) (rs_pending s) \<or> 0 < commands_in_flight);
          (c, flipped) = observe_rule_count
             \<lparr> cr_reported = reported, cr_uptime = up, cr_settling = settling, cr_now = ck_mono ck \<rparr> (rs_cache s);
          s = s\<lparr> rs_cache := c \<rparr>
      in if flipped then broadcast [RulesNotShown (not_shown c)] s else s)"

text \<open>One tick of \<open>prune_expired_rules_every\<close>, and the failed end of \<open>settle_rule_command\<close>.\<close>

definition prune_tick :: "sync_clock \<Rightarrow> rules_sync \<Rightarrow> rules_sync" where
  "prune_tick ck s =
     (let (c, expired) = prune_expired_at (ck_secs ck) (ck_mono ck) (rs_cache s);
          s = forget_hits expired (s\<lparr> rs_cache := c \<rparr>)
      in if expired \<noteq> [] then publish_rules s else s)"

datatype command_error = Rejected_by_daemon rstr | Timeout | StreamClosed

definition settle_rule_command :: "command_error + unit \<Rightarrow> rules_sync \<Rightarrow> rules_sync" where
  "settle_rule_command outcome s = (case outcome of Inr _ \<Rightarrow> s | Inl _ \<Rightarrow> publish_rules s)"

end
