(* ===== verification/Daemon_Commands.thy ===== *)
theory Daemon_Commands
  imports Bridge_Commands Rules_Sync
begin

text \<open>
  \<open>daemon_commands.rs\<close> with the \<open>DaemonCommands\<close> methods of its three command modules:
  the open streams of the daemon, which one is current and whose list the rules cache
  holds, the commands sent on them and the waiters for their replies.

  Every method holds the lock of \<open>Inner\<close>, so one method is one step; the cache it changes
  meanwhile is part of the state. A stream's bounded channel is its queue; \<open>os_reading\<close> is
  whether its receiver is alive. A value sent to a waiter is appended to \<open>dc_outcomes\<close>.
  Indexing \<open>streams[&target]\<close> panics on a stream that is not open: the operations that
  queue give \<open>None\<close> then. Stream, HELLO and command numbers (\<open>u64\<close>) are unbounded.
\<close>

section \<open>State\<close>

definition STREAM_QUEUE_CAPACITY :: nat where "STREAM_QUEUE_CAPACITY = 64"
definition LATE_REPLY_GRACE :: nat where "LATE_REPLY_GRACE = 30 * NANOS"

datatype transport = Tcp | Unix
datatype delivery = Usual | CommittedStream
datatype guard = GuardAbsent | GuardToggle bool | GuardReplace | GuardPresent

definition ALLOWED_ACTIONS :: "action list" where "ALLOWED_ACTIONS = [ChangeRule, DeleteRule]"

type_synonym outcome = "command_error + unit"

record daemon_stream =
  os_conn :: conn_key
  os_hello :: "nat option"
  os_queue :: "notification list"
  os_reading :: bool

record waiter =
  wt_stream :: "stream_id option"
  wt_command :: notification

record late_command =
  lt_stream :: "stream_id option"
  lt_command :: notification
  lt_timed_out_at :: instant

record daemon_commands =
  dc_transport :: transport
  dc_next_stream :: stream_id
  dc_next_hello :: nat
  dc_next_id :: nat
  dc_streams :: "(stream_id, daemon_stream) fmap"
  dc_current :: "stream_id option"
  dc_committed_by :: "stream_id option"
  dc_waiters :: "(nat, waiter) fmap"
  dc_late :: "(nat, late_command) fmap"
  dc_ready :: nat
  dc_rules :: rules_sync
  dc_blocklist_root :: "rstr option"
  dc_outcomes :: "(nat \<times> outcome) list"

record notification_reply =
  nr_id :: nat
  nr_ok :: bool
  nr_data :: rstr

definition new_commands :: "transport \<Rightarrow> rules_sync \<Rightarrow> daemon_commands" where
  "new_commands transport rules =
     \<lparr> dc_transport = transport, dc_next_stream = 1, dc_next_hello = 1, dc_next_id = 1, dc_streams = fmempty,
       dc_current = None, dc_committed_by = None, dc_waiters = fmempty, dc_late = fmempty, dc_ready = 0,
       dc_rules = rules, dc_blocklist_root = None, dc_outcomes = [] \<rparr>"

section \<open>Streams and replies\<close>

definition open_stream :: "conn_key \<Rightarrow> daemon_commands \<Rightarrow> daemon_commands \<times> stream_id" where
  "open_stream conn d =
     (let ident = dc_next_stream d
      in (d\<lparr> dc_next_stream := ident + 1,
             dc_streams := fmupd ident \<lparr> os_conn = conn, os_hello = None, os_queue = [], os_reading = True \<rparr> (dc_streams d) \<rparr>,
          ident))"

definition hello :: "sync_clock \<Rightarrow> stream_id \<Rightarrow> daemon_commands \<Rightarrow> daemon_commands \<times> bool" where
  "hello ck stream d =
     (case fmlookup (dc_streams d) stream of
        None \<Rightarrow> (d, False)
      | Some os \<Rightarrow>
          (let d = d\<lparr> dc_streams := fmupd stream (os\<lparr> os_hello := Some (dc_next_hello d) \<rparr>) (dc_streams d),
                      dc_next_hello := dc_next_hello d + 1,
                      dc_current := Some stream \<rparr>;
               (rules, committed) = sync_commit (os_conn os) stream ck (dc_rules d);
               d = d\<lparr> dc_rules := rules \<rparr>;
               d = (if committed \<noteq> AdoptedNothing then d\<lparr> dc_committed_by := Some stream \<rparr>
                    else if dc_committed_by d \<noteq> None \<and> dc_committed_by d \<noteq> Some stream
                    then d\<lparr> dc_rules := sync_withdraw (dc_rules d), dc_committed_by := None \<rparr>
                    else d)
           in (d\<lparr> dc_ready := dc_ready d + 1 \<rparr>, True)))"

definition settle_waiter :: "nat \<Rightarrow> outcome \<Rightarrow> daemon_commands \<Rightarrow> daemon_commands" where
  "settle_waiter ident oc d =
     d\<lparr> dc_waiters := fmdrop ident (dc_waiters d), dc_outcomes := dc_outcomes d @ [(ident, oc)] \<rparr>"

definition apply_reply :: "bool \<Rightarrow> notification \<Rightarrow> sync_clock \<Rightarrow> daemon_commands \<Rightarrow> daemon_commands" where
  "apply_reply ok command ck d =
     d\<lparr> dc_rules := (if ok then sync_apply_confirmed command ck (dc_rules d) else sync_apply_refused command ck (dc_rules d)) \<rparr>"

definition on_reply :: "sync_clock \<Rightarrow> stream_id \<Rightarrow> notification_reply \<Rightarrow> daemon_commands \<Rightarrow> daemon_commands \<times> bool" where
  "on_reply ck stream reply d =
     (if nr_id reply = 0 then hello ck stream d
      else if dc_current d \<noteq> Some stream then (d, False)
      else
        (case fmlookup (dc_waiters d) (nr_id reply) of
           Some w \<Rightarrow>
             if wt_stream w \<noteq> None \<and> wt_stream w \<noteq> Some stream then (d, False)
             else (settle_waiter (nr_id reply) (if nr_ok reply then Inr () else Inl (Rejected_by_daemon (nr_data reply)))
                     (apply_reply (nr_ok reply) (wt_command w) ck d), False)
         | None \<Rightarrow>
             (case fmlookup (dc_late d) (nr_id reply) of
                Some late \<Rightarrow>
                  (let d = d\<lparr> dc_late := fmdrop (nr_id reply) (dc_late d) \<rparr>;
                       in_time = (ck_mono ck - lt_timed_out_at late \<le> LATE_REPLY_GRACE);
                       right_stream = (lt_stream late = None \<or> lt_stream late = Some stream)
                   in (if in_time \<and> right_stream then apply_reply (nr_ok reply) (lt_command late) ck d else d, False))
              | None \<Rightarrow> (d, False))))"

text \<open>The newest HELLO among the open streams, with its stream.\<close>

fun newest :: "(nat \<times> stream_id) list \<Rightarrow> (nat \<times> stream_id) option" where
  "newest [] = None"
| "newest ((h, i) # xs) =
     (case newest xs of None \<Rightarrow> Some (h, i)
      | Some (h', i') \<Rightarrow> if h' < h \<or> (h' = h \<and> i' < i) then Some (h, i) else Some (h', i'))"

definition said_hello :: "(stream_id, daemon_stream) fmap \<Rightarrow> (nat \<times> stream_id) list" where
  "said_hello streams =
     concat (map (\<lambda>i. case fmlookup streams i of
                        Some os \<Rightarrow> (case os_hello os of Some h \<Rightarrow> [(h, i)] | None \<Rightarrow> [])
                      | None \<Rightarrow> []) (fm_keys streams))"

definition readopt_for_current :: "sync_clock \<Rightarrow> daemon_commands \<Rightarrow> daemon_commands \<times> stream_id option" where
  "readopt_for_current ck d =
     (if dc_transport d \<noteq> Unix then (d, None)
      else case dc_current d of
             None \<Rightarrow> (d, None)
           | Some next \<Rightarrow>
               (case fmlookup (dc_streams d) next of
                  None \<Rightarrow> (d, None)
                | Some os \<Rightarrow>
                    (let (rules, adopted) = sync_readopt (os_conn os) next ck (dc_rules d)
                     in (d\<lparr> dc_rules := rules \<rparr>, if adopted \<noteq> AdoptedNothing then Some next else None))))"

definition failed_waiters :: "stream_id \<Rightarrow> daemon_commands \<Rightarrow> nat list" where
  "failed_waiters stream d =
     (case dc_transport d of
        Tcp \<Rightarrow> if fm_len (dc_streams d) = 0 then fm_keys (dc_waiters d) else []
      | Unix \<Rightarrow> filter (\<lambda>i. map_option wt_stream (fmlookup (dc_waiters d) i) = Some (Some stream)) (fm_keys (dc_waiters d)))"

definition close_stream :: "sync_clock \<Rightarrow> stream_id \<Rightarrow> daemon_commands \<Rightarrow> daemon_commands" where
  "close_stream ck stream d =
     (if fmlookup (dc_streams d) stream = None then d
      else
        let d = d\<lparr> dc_streams := fmdrop stream (dc_streams d) \<rparr>;
            d = (if dc_current d = Some stream
                 then d\<lparr> dc_current := map_option snd (newest (said_hello (dc_streams d))) \<rparr> else d);
            d = (if dc_committed_by d = Some stream
                 then (let (d, by) = readopt_for_current ck d;
                           d = d\<lparr> dc_committed_by := by \<rparr>
                       in if by = None then d\<lparr> dc_rules := sync_withdraw (dc_rules d) \<rparr> else d)
                 else d)
        in fold (\<lambda>i. settle_waiter i (Inl StreamClosed)) (failed_waiters stream d) d)"

section \<open>Sending\<close>

definition check_sendable :: "notification \<Rightarrow> send_error + unit" where
  "check_sendable n =
     (if n_type n \<notin> set ALLOWED_ACTIONS then Inl NotAllowed
      else if list_ex (\<lambda>r. validate_rule_name (r_name r) \<noteq> Inr ()) (n_rules n) then Inl InvalidRuleName
      else Inr ())"

definition targets :: "daemon_commands \<Rightarrow> delivery \<Rightarrow> send_error + stream_id list" where
  "targets d delivery =
     (let pick = (\<lambda>ts. if ts = [] then Inl NoDaemon else Inr ts);
          opt = (\<lambda>x. case x of Some s \<Rightarrow> [s] | None \<Rightarrow> [])
      in case (dc_transport d, delivery) of
           (Tcp, Usual) \<Rightarrow> pick (fm_keys (dc_streams d))
         | (Unix, Usual) \<Rightarrow> pick (opt (dc_current d))
         | (Tcp, CommittedStream) \<Rightarrow> Inl NotOnThisTransport
         | (Unix, CommittedStream) \<Rightarrow> pick (opt (dc_committed_by d)))"

fun queue_on :: "stream_id list \<Rightarrow> notification \<Rightarrow> daemon_commands \<Rightarrow> (daemon_commands \<times> nat) option" where
  "queue_on [] n d = Some (d, 0)"
| "queue_on (t # ts) n d =
     (case fmlookup (dc_streams d) t of
        None \<Rightarrow> None
      | Some os \<Rightarrow>
          if os_reading os \<and> length (os_queue os) < STREAM_QUEUE_CAPACITY
          then map_option (\<lambda>(d, queued). (d, queued + 1))
                 (queue_on ts n (d\<lparr> dc_streams := fmupd t (os\<lparr> os_queue := os_queue os @ [n] \<rparr>) (dc_streams d) \<rparr>))
          else queue_on ts n d)"

definition guard_holds :: "regex_lib \<Rightarrow> curated_entry list \<Rightarrow> guard \<Rightarrow> rule option \<Rightarrow> rule \<Rightarrow> bool" where
  "guard_holds lib es g current r =
     (case g of
        GuardToggle enabled \<Rightarrow>
          (case current of Some c \<Rightarrow> (\<not> enabled \<or> \<not> r_enabled c) \<and> canonical lib c = canonical lib r | None \<Rightarrow> False)
      | GuardAbsent \<Rightarrow> current = None
      | GuardPresent \<Rightarrow> current \<noteq> None
      | GuardReplace \<Rightarrow>
          (case current of
             Some c \<Rightarrow> (r_enabled c \<or> \<not> r_enabled r)
               \<and> (case entry_for_rule_name es (r_name r) of Some e \<Rightarrow> is_unedited lib (Some e) None c | None \<Rightarrow> False)
           | None \<Rightarrow> False))"

text \<open>The guarded part of \<open>dispatch_via_checked\<close>: the streams to send to.\<close>

definition curated_admission ::
  "regex_lib \<Rightarrow> curated_entry list \<Rightarrow> notification \<Rightarrow> nat \<Rightarrow> guard \<Rightarrow> daemon_commands \<Rightarrow> send_error + stream_id list" where
  "curated_admission lib es n generation g d =
     (if dc_ready d \<noteq> generation \<or> dc_current d \<noteq> dc_committed_by d then Inl NoDaemon
      else case dc_committed_by d of
             None \<Rightarrow> Inl NoDaemon
           | Some by \<Rightarrow>
               (case n_rules n of
                  [r] \<Rightarrow>
                    (case rc_rules (rs_cache (dc_rules d)) of
                       None \<Rightarrow> Inl NoDaemon
                     | Some rules \<Rightarrow>
                         if fmlookup (rc_left_out (rs_cache (dc_rules d))) (r_name r) \<noteq> None
                            \<or> r_name r |\<in>| rc_files_left (rs_cache (dc_rules d))
                         then Inl ReservedName
                         else if guard_holds lib es g (fmlookup rules (r_name r)) r then Inr [by]
                         else Inl ReservedName)
                | _ \<Rightarrow> Inl RefusedOperator))"

type_synonym dispatched = "((send_error + nat) \<times> daemon_commands) option"

definition refused :: "send_error \<Rightarrow> daemon_commands \<Rightarrow> dispatched" where
  "refused e d = Some (Inl e, d)"

definition enqueue :: "notification \<Rightarrow> stream_id list \<Rightarrow> stream_id option \<Rightarrow> daemon_commands \<Rightarrow> dispatched" where
  "enqueue n ts stream d =
     (let ident = dc_next_id d;
          n = n\<lparr> n_id := ident \<rparr>
      in case queue_on ts n (d\<lparr> dc_next_id := ident + 1 \<rparr>) of
           None \<Rightarrow> None
         | Some (d, queued) \<Rightarrow>
             if queued = 0 then refused NotQueued d
             else Some (Inr ident, d\<lparr> dc_waiters := fmupd ident \<lparr> wt_stream = stream, wt_command = n \<rparr> (dc_waiters d) \<rparr>))"

definition dispatch_via_checked ::
  "regex_lib \<Rightarrow> curated_entry list \<Rightarrow> notification \<Rightarrow> delivery \<Rightarrow> (nat \<times> guard) option \<Rightarrow> daemon_commands \<Rightarrow> dispatched" where
  "dispatch_via_checked lib es n delivery curated d =
     (case check_sendable n of
        Inl e \<Rightarrow> refused e d
      | Inr _ \<Rightarrow>
          (case targets d delivery of
             Inl e \<Rightarrow> refused e d
           | Inr ts \<Rightarrow>
               if delivery = CommittedStream \<and> \<not> has_list (dc_rules d) then refused NoDaemon d
               else (case curated of
                       None \<Rightarrow> enqueue n ts (case dc_transport d of Tcp \<Rightarrow> None | Unix \<Rightarrow> dc_current d) d
                     | Some (generation, g) \<Rightarrow>
                         (case curated_admission lib es n generation g d of
                            Inl e \<Rightarrow> refused e d
                          | Inr ts \<Rightarrow> enqueue n ts (dc_committed_by d) d))))"

definition dispatch :: "regex_lib \<Rightarrow> curated_entry list \<Rightarrow> notification \<Rightarrow> daemon_commands \<Rightarrow> dispatched" where
  "dispatch lib es n d = dispatch_via_checked lib es n Usual None d"

definition send :: "regex_lib \<Rightarrow> curated_entry list \<Rightarrow> notification \<Rightarrow> daemon_commands \<Rightarrow> dispatched" where
  "send lib es n d =
     (if list_ex (\<lambda>r. is_reserved_name (r_name r)) (n_rules n) then refused ReservedName d
      else if n_type n = ChangeRule
              \<and> list_ex (\<lambda>r. case r_operator r of Some op \<Rightarrow> validate_operator lib op \<noteq> Inr () | None \<Rightarrow> True) (n_rules n)
      then refused RefusedOperator d
      else dispatch lib es n d)"

definition pin_blocklist_root :: "rstr \<Rightarrow> daemon_commands \<Rightarrow> daemon_commands \<times> (rstr + unit)" where
  "pin_blocklist_root root d =
     (let pinned = (case dc_blocklist_root d of Some p \<Rightarrow> p | None \<Rightarrow> root)
      in (d\<lparr> dc_blocklist_root := Some pinned \<rparr>, if components pinned = components root then Inr () else Inl pinned))"

definition send_blocklist :: "regex_lib \<Rightarrow> curated_entry list \<Rightarrow> notification \<Rightarrow> daemon_commands \<Rightarrow> dispatched" where
  "send_blocklist lib es n d =
     (case blocklist_check n (dc_blocklist_root d) of Inl e \<Rightarrow> refused e d | Inr _ \<Rightarrow> dispatch lib es n d)"

definition send_leftover_delete :: "regex_lib \<Rightarrow> curated_entry list \<Rightarrow> notification \<Rightarrow> daemon_commands \<Rightarrow> dispatched" where
  "send_leftover_delete lib es n d =
     (case blocklist_check n None of
        Inl e \<Rightarrow> refused e d
      | Inr _ \<Rightarrow> if n_type n \<noteq> DeleteRule then refused RefusedOperator d
                  else dispatch_via_checked lib es n CommittedStream None d)"

definition send_profile ::
  "regex_lib \<Rightarrow> curated_entry list \<Rightarrow> (rstr \<Rightarrow> rstr option) \<Rightarrow> notification \<Rightarrow> daemon_commands \<Rightarrow> dispatched" where
  "send_profile lib es source_tag n d =
     (case profile_check lib source_tag n of Inl e \<Rightarrow> refused e d | Inr _ \<Rightarrow> dispatch lib es n d)"

definition send_curated :: "regex_lib \<Rightarrow> curated_entry list \<Rightarrow> curated_command \<Rightarrow> daemon_commands \<Rightarrow> dispatched" where
  "send_curated lib es c d =
     (case curated_check lib es c of
        Inl e \<Rightarrow> refused e d
      | Inr _ \<Rightarrow>
          if (case n_rules (cc_notification c) of r # _ \<Rightarrow> broad_rule es r | [] \<Rightarrow> False) then refused ReservedName d
          else dispatch lib es (cc_notification c) d)"

definition send_curated_guarded_as ::
  "regex_lib \<Rightarrow> curated_entry list \<Rightarrow> curated_command \<Rightarrow> nat \<Rightarrow> guard \<Rightarrow> daemon_commands \<Rightarrow> dispatched" where
  "send_curated_guarded_as lib es c generation g d =
     (case curated_check lib es c of
        Inl e \<Rightarrow> refused e d
      | Inr _ \<Rightarrow> dispatch_via_checked lib es (cc_notification c) Usual (Some (generation, g)) d)"

definition send_curated_guarded ::
  "regex_lib \<Rightarrow> curated_entry list \<Rightarrow> curated_command \<Rightarrow> nat \<Rightarrow> bool \<Rightarrow> daemon_commands \<Rightarrow> dispatched" where
  "send_curated_guarded lib es c generation reenable d =
     send_curated_guarded_as lib es c generation (if reenable then GuardToggle True else GuardAbsent) d"

definition send_curated_guarded_replace ::
  "regex_lib \<Rightarrow> curated_entry list \<Rightarrow> curated_command \<Rightarrow> nat \<Rightarrow> daemon_commands \<Rightarrow> dispatched" where
  "send_curated_guarded_replace lib es c generation d = send_curated_guarded_as lib es c generation GuardReplace d"

definition send_curated_guarded_delete ::
  "regex_lib \<Rightarrow> curated_entry list \<Rightarrow> curated_command \<Rightarrow> nat \<Rightarrow> daemon_commands \<Rightarrow> dispatched" where
  "send_curated_guarded_delete lib es c generation d = send_curated_guarded_as lib es c generation GuardPresent d"

definition send_curated_toggle ::
  "regex_lib \<Rightarrow> curated_entry list \<Rightarrow> rstr \<Rightarrow> bool \<Rightarrow> daemon_commands \<Rightarrow> dispatched" where
  "send_curated_toggle lib es name enabled d =
     (let current = Option.bind (rc_rules (rs_cache (dc_rules d))) (\<lambda>rules. fmlookup rules name)
      in case Option.bind current (\<lambda>c. toggle_command lib es c enabled) of
           None \<Rightarrow> refused ReservedName d
         | Some c \<Rightarrow>
             if (case entry_for_rule_name es name of Some e \<Rightarrow> broad e | None \<Rightarrow> False)
             then (if enabled then refused ReservedName d
                   else case curated_check lib es c of
                          Inl e \<Rightarrow> refused e d
                        | Inr _ \<Rightarrow> dispatch_via_checked lib es (cc_notification c) Usual
                                      (Some (dc_ready d, GuardToggle False)) d)
             else send_curated lib es c d)"

section \<open>Waiting\<close>

text \<open>The end of \<open>PendingReply::wait\<close> at its timeout, and a \<open>PendingReply\<close> dropped
  without waiting.\<close>

definition wait_timeout :: "sync_clock \<Rightarrow> nat \<Rightarrow> daemon_commands \<Rightarrow> daemon_commands" where
  "wait_timeout ck ident d =
     (case fmlookup (dc_waiters d) ident of
        None \<Rightarrow> d
      | Some w \<Rightarrow>
          d\<lparr> dc_waiters := fmdrop ident (dc_waiters d),
             dc_late := fmupd ident \<lparr> lt_stream = wt_stream w, lt_command = wt_command w, lt_timed_out_at = ck_mono ck \<rparr>
               (fm_retain (\<lambda>_ late. ck_mono ck - lt_timed_out_at late \<le> LATE_REPLY_GRACE) (dc_late d)) \<rparr>)"

definition drop_pending :: "nat \<Rightarrow> daemon_commands \<Rightarrow> daemon_commands" where
  "drop_pending ident d = d\<lparr> dc_waiters := fmdrop ident (dc_waiters d) \<rparr>"

definition in_flight :: "instant \<Rightarrow> daemon_commands \<Rightarrow> nat" where
  "in_flight now d =
     fm_len (dc_waiters d) + fm_len (fm_retain (\<lambda>_ late. now - lt_timed_out_at late \<le> LATE_REPLY_GRACE) (dc_late d))"

section \<open>The daemon's side of a stream\<close>

definition stream_recv :: "stream_id \<Rightarrow> daemon_commands \<Rightarrow> daemon_commands \<times> notification option" where
  "stream_recv stream d =
     (case fmlookup (dc_streams d) stream of
        None \<Rightarrow> (d, None)
      | Some os \<Rightarrow>
          (case os_queue os of
             [] \<Rightarrow> (d, None)
           | n # ns \<Rightarrow> (d\<lparr> dc_streams := fmupd stream (os\<lparr> os_queue := ns \<rparr>) (dc_streams d) \<rparr>, Some n)))"

definition receiver_dropped :: "stream_id \<Rightarrow> daemon_commands \<Rightarrow> daemon_commands" where
  "receiver_dropped stream d =
     (case fmlookup (dc_streams d) stream of
        None \<Rightarrow> d
      | Some os \<Rightarrow> d\<lparr> dc_streams := fmupd stream (os\<lparr> os_reading := False \<rparr>) (dc_streams d) \<rparr>)"

end
