(* ===== verification/Blocklist_Props.thy ===== *)
theory Blocklist_Props
  imports Blocklists
begin

text \<open>
  Properties of blocklists: what a downloaded list may make the daemon block, and that the
  commands the bridge builds for a list pass the check at the send point.
\<close>

section \<open>Addresses print as they were read\<close>

lemma take_digits_decimal:
  "take_digits 10 s = (ds, rest) \<Longrightarrow> s = map (\<lambda>d. 48 + d) ds @ rest \<and> (\<forall>d \<in> set ds. d < 10)"
proof (induction s arbitrary: ds rest)
  case (Cons c cs)
  show ?case
  proof (cases "digit_value 10 c")
    case None
    with Cons.prems show ?thesis by auto
  next
    case (Some d)
    then have c: "c = 48 + d" "d < 10"
      by (auto simp: digit_value_def is_ascii_digit_def split: if_splits)
    obtain ds' r where "take_digits 10 cs = (ds', r)" by fastforce
    with Cons Some c show ?thesis by auto
  qed
qed simp

lemma foldl_digits: "foldl (\<lambda>acc d. acc * 10 + d) a ds = foldl (\<lambda>n c. 10 * n + (c - 48)) a (map (\<lambda>d. 48 + d) ds)"
  for a :: nat
  by (induction ds arbitrary: a) (auto simp: mult.commute)

lemma read_number_decimal:
  assumes "read_number 10 3 False 255 s = Some (n, rest)"
  shows "s = decimal n @ rest \<and> n \<le> 255"
proof -
  obtain ds where ds: "take_digits 10 s = (ds, rest)" "ds \<noteq> []" "n = foldl (\<lambda>acc d. acc * 10 + d) 0 ds"
    "\<not> (length ds > 1 \<and> hd ds = 0)" "n \<le> 255"
    using assms by (auto simp: read_number_def Let_def split: prod.splits if_splits)
  let ?s = "map (\<lambda>d. 48 + d) ds"
  have s: "s = ?s @ rest" "\<forall>d \<in> set ds. d < 10" using take_digits_decimal[OF ds(1)] by auto
  have "n = decimal_value ?s" using ds(3) by (simp add: decimal_value_def foldl_digits)
  moreover have "list_all is_ascii_digit ?s" using s(2) by (auto simp: list_all_iff is_ascii_digit_def)
  moreover have "?s = [48] \<or> hd ?s \<noteq> 48" using ds(2,4) by (cases ds) auto
  ultimately have "decimal n = ?s" using decimal_of_value[of ?s] ds(2) by simp
  then show ?thesis using s(1) ds(5) by simp
qed

lemma read_octets_text:
  "read_octets i n s = Some (ds, rest) \<Longrightarrow>
     length ds = n \<and> s = (if n = 0 \<or> i = 0 then [] else [46]) @ join_with 46 (map decimal ds) @ rest \<and> (\<forall>d \<in> set ds. d \<le> 255)"
proof (induction n arbitrary: i s ds)
  case (Suc n)
  from Suc.prems obtain d r ds' where d: "read_separator 46 i (read_number 10 3 False 255) s = Some (d, r)"
    "read_octets (Suc i) n r = Some (ds', rest)" "ds = d # ds'"
    by (auto split: option.splits)
  have "s = (if i = 0 then [] else [46]) @ decimal d @ r \<and> d \<le> 255"
    using d(1) read_number_decimal by (auto simp: read_separator_def split: if_splits list.splits)
  with Suc.IH[OF d(2)] d(3) show ?case by (cases ds') auto
qed simp

lemma parse_ipv4_text: "parse_ipv4 s = Some ip \<Longrightarrow> ipv4_to_string ip = s \<and> length ip = 4 \<and> (\<forall>d \<in> set ip. d \<le> 255)"
  using read_octets_text[of 0 4 s ip "[]"]
  by (auto simp: parse_ipv4_def read_ipv4_addr_def ipv4_to_string_def split: option.splits if_splits)

section \<open>What a list makes the daemon block\<close>

text \<open>A word of a line, and the host a line names, by the text of the line without the spaces
  around it.\<close>

definition is_word :: "rstr \<Rightarrow> bool" where
  "is_word w \<longleftrightarrow> w \<noteq> [] \<and> (\<forall>c \<in> set w. \<not> is_whitespace c)"

definition ends_word :: "rstr \<Rightarrow> bool" where
  "ends_word rest \<longleftrightarrow> rest = [] \<or> is_whitespace (hd rest)"

fun line_names :: "list_format \<Rightarrow> rstr \<Rightarrow> rstr \<Rightarrow> bool" where
  "line_names Hosts line host \<longleftrightarrow>
     (\<exists>address gap word rest. line = address @ gap @ word @ rest \<and> is_word address \<and> gap \<noteq> [] \<and> (\<forall>c \<in> set gap. is_whitespace c)
        \<and> is_word word \<and> ends_word rest \<and> host = to_ascii_lowercase word)"
| "line_names Domains_format line host \<longleftrightarrow>
     (\<exists>word rest. line = word @ rest \<and> is_word word \<and> ends_word rest \<and> host = to_ascii_lowercase word)"
| "line_names AdblockPlus line host \<longleftrightarrow>
     (\<exists>word rest. line = lit ''||'' @ word @ rest \<and> word \<noteq> [] \<and> (\<forall>c \<in> set word. c \<notin> {94, 36, 47})
        \<and> (rest = [] \<or> hd rest \<in> {94, 36, 47}) \<and> host = to_ascii_lowercase word)"

text \<open>A comment starts with \<open>#\<close>, \<open>!\<close> or \<open>[\<close>. A host has at least two labels of letters, digits and
  inner hyphens, and is none of the names of this machine.\<close>

definition is_label :: "rstr \<Rightarrow> bool" where
  "is_label l \<longleftrightarrow> l \<noteq> [] \<and> str_len l \<le> 63 \<and> (\<forall>c \<in> set l. is_ascii_alphanumeric c \<or> c = 45) \<and> hd l \<noteq> 45 \<and> last l \<noteq> 45"

definition is_listed_host :: "rstr \<Rightarrow> bool" where
  "is_listed_host host \<longleftrightarrow>
     (\<exists>labels. host = join_with 46 labels \<and> 2 \<le> length labels \<and> (\<forall>l \<in> set labels. is_label l)) \<and> str_len host \<le> 253
     \<and> host \<notin> {lit ''localhost'', lit ''localhost.localdomain'', lit ''local'', lit ''broadcasthost'',
                lit ''ip6-localhost'', lit ''ip6-loopback''}"

definition hosts_of :: "list_format \<Rightarrow> rstr \<Rightarrow> rstr set" where
  "hosts_of format body =
     {host. is_listed_host host \<and> (\<exists>l \<in> set (str_lines body). trim l \<noteq> [] \<and> hd (trim l) \<notin> {35, 33, 91} \<and> line_names format (trim l) host)}"

subsection \<open>Lines\<close>

lemma split_word:
  assumes "is_word w" "ends_word rest"
  shows "split_whitespace (w @ rest) = w # split_whitespace rest"
proof -
  obtain c cs where w: "w = c # cs" "\<not> is_whitespace c" "\<forall>x \<in> set cs. \<not> is_whitespace x"
    using assms(1) by (cases w) (auto simp: is_word_def)
  have "takeWhile (\<lambda>x. \<not> is_whitespace x) (cs @ rest) = cs" "dropWhile (\<lambda>x. \<not> is_whitespace x) (cs @ rest) = rest"
    using w(3) assms(2) by (cases rest; auto simp: ends_word_def takeWhile_append2 dropWhile_append2)+
  then show ?thesis using w by (subst split_whitespace.simps) simp
qed

lemma split_gap: "\<forall>c \<in> set gap. is_whitespace c \<Longrightarrow> split_whitespace (gap @ s) = split_whitespace s"
  by (subst (1 2) split_whitespace.simps) (simp add: dropWhile_append2)

lemma ends_dropWhile: "ends_word (dropWhile (\<lambda>x. \<not> is_whitespace x) s)"
  using hd_dropWhile[of "\<lambda>x. \<not> is_whitespace x" s] by (auto simp: ends_word_def)

lemma first_word:
  assumes "split_whitespace s = w # ws"
  obtains gap rest where "s = gap @ w @ rest" "\<forall>c \<in> set gap. is_whitespace c" "is_word w" "ends_word rest" "ws = split_whitespace rest"
proof -
  obtain c cs where c: "dropWhile is_whitespace s = c # cs" "w = c # takeWhile (\<lambda>x. \<not> is_whitespace x) cs"
    "ws = split_whitespace (dropWhile (\<lambda>x. \<not> is_whitespace x) cs)"
    using assms by (subst (asm) split_whitespace.simps) (auto split: list.splits)
  show thesis
  proof (rule that)
    show "s = takeWhile is_whitespace s @ w @ dropWhile (\<lambda>x. \<not> is_whitespace x) cs"
      using c takeWhile_dropWhile_id[of is_whitespace s] by simp
    show "is_word w" using c hd_dropWhile[of is_whitespace s] by (auto simp: is_word_def dest: set_takeWhileD)
  qed (use c in \<open>auto simp: ends_dropWhile dest: set_takeWhileD\<close>)
qed

lemma trim_start: "trim l \<noteq> [] \<Longrightarrow> \<not> is_whitespace (hd (trim l))"
proof -
  assume ne: "trim l \<noteq> []"
  let ?s = "dropWhile is_whitespace l"
  have "prefix (trim l) ?s"
    unfolding trim_def trim_matches_def
    by (metis rev_append rev_rev_ident prefixI takeWhile_dropWhile_id)
  then have "hd (trim l) = hd ?s" "?s \<noteq> []" using ne by (auto simp: prefix_def simp del: dropWhile_eq_Nil_conv)
  then show ?thesis using hd_dropWhile[of is_whitespace l] by simp
qed

lemma word_start: "is_word w \<Longrightarrow> \<exists>c cs. w = c # cs \<and> \<not> is_whitespace c"
  by (cases w) (auto simp: is_word_def)

lemma words_of_line:
  assumes "split_whitespace line = w # ws" "\<not> is_whitespace (hd line)"
  obtains rest where "line = w @ rest" "is_word w" "ends_word rest" "ws = split_whitespace rest"
proof -
  obtain gap rest where s: "line = gap @ w @ rest" "\<forall>c \<in> set gap. is_whitespace c" "is_word w" "ends_word rest" "ws = split_whitespace rest"
    using first_word[OF assms(1)] .
  then have "gap = []" using assms(2) by (cases gap) auto
  with s that show thesis by simp
qed

lemma parse_line_names:
  assumes "line \<noteq> []" "\<not> is_whitespace (hd line)"
  shows "parse_line format line = Some host \<longleftrightarrow> line_names format line host"
proof (cases format)
  case Domains_format
  show ?thesis
  proof
    assume "parse_line format line = Some host"
    then obtain w ws where w: "split_whitespace line = w # ws" "host = to_ascii_lowercase w"
      using Domains_format by (auto simp: parse_line_def parse_domains_line_def split: list.splits)
    obtain rest where "line = w @ rest" "is_word w" "ends_word rest" using words_of_line[OF w(1) assms(2)] .
    then show "line_names format line host" unfolding Domains_format line_names.simps using w(2) by blast
  next
    assume "line_names format line host"
    then show "parse_line format line = Some host"
      using Domains_format by (auto simp: parse_line_def parse_domains_line_def split_word)
  qed
next
  case Hosts
  show ?thesis
  proof
    assume "parse_line format line = Some host"
    then obtain a w ws where w: "split_whitespace line = a # w # ws" "host = to_ascii_lowercase w"
      using Hosts by (auto simp: parse_line_def parse_hosts_line_def split: list.splits)
    obtain rest where a: "line = a @ rest" "is_word a" "ends_word rest" "w # ws = split_whitespace rest"
      using words_of_line[OF w(1) assms(2)] .
    obtain gap rest' where b: "rest = gap @ w @ rest'" "\<forall>c \<in> set gap. is_whitespace c" "is_word w" "ends_word rest'"
      using first_word[OF a(4)[symmetric]] .
    have "gap \<noteq> []" using a(3) b(1) word_start[OF b(3)] by (auto simp: ends_word_def)
    with a b w(2) have "line = a @ gap @ w @ rest' \<and> is_word a \<and> gap \<noteq> [] \<and> (\<forall>c \<in> set gap. is_whitespace c)
        \<and> is_word w \<and> ends_word rest' \<and> host = to_ascii_lowercase w" by simp
    then show "line_names format line host" unfolding Hosts line_names.simps by blast
  next
    assume "line_names format line host"
    then obtain a gap w rest where line: "line = a @ gap @ w @ rest" "is_word a" "gap \<noteq> []" "\<forall>c \<in> set gap. is_whitespace c"
      "is_word w" "ends_word rest" "host = to_ascii_lowercase w" unfolding Hosts line_names.simps by blast
    then have "ends_word (gap @ w @ rest)" by (auto simp: ends_word_def)
    then have "split_whitespace line = a # w # split_whitespace rest"
      using line by (simp add: split_word split_gap)
    then show "parse_line format line = Some host" using Hosts line(7) by (simp add: parse_line_def parse_hosts_line_def)
  qed
next
  case AdblockPlus
  let ?stop = "\<lambda>c. c \<notin> {94, 36, 47 :: rchar}"
  show ?thesis
  proof
    assume "parse_line format line = Some host"
    then obtain s where s: "line = lit ''||'' @ s" "takeWhile ?stop s \<noteq> []" "host = to_ascii_lowercase (takeWhile ?stop s)"
      using AdblockPlus by (auto simp: parse_line_def parse_abp_line_def Let_def prefix_def lit_def split: if_splits)
    have "dropWhile ?stop s = [] \<or> hd (dropWhile ?stop s) \<in> {94, 36, 47}" using hd_dropWhile[of ?stop s] by blast
    moreover have "line = lit ''||'' @ takeWhile ?stop s @ dropWhile ?stop s" using s(1) by simp
    moreover have "\<forall>c \<in> set (takeWhile ?stop s). c \<notin> {94, 36, 47}" by (auto dest: set_takeWhileD)
    ultimately show "line_names format line host" unfolding AdblockPlus line_names.simps using s(2,3) by blast
  next
    assume "line_names format line host"
    then obtain w rest where line: "line = lit ''||'' @ w @ rest" "w \<noteq> []" "\<forall>c \<in> set w. c \<notin> {94, 36, 47}"
      "rest = [] \<or> hd rest \<in> {94, 36, 47}" "host = to_ascii_lowercase w" unfolding AdblockPlus line_names.simps by blast
    have "takeWhile ?stop (w @ rest) = w" using line(3,4) by (cases rest) (auto simp: takeWhile_append2 simp del: insert_iff)
    moreover have "drop 2 line = w @ rest" "prefix (lit ''||'') line" by (simp_all add: line(1) lit_def)
    ultimately show "parse_line format line = Some host" using line(2,5) AdblockPlus by (simp add: parse_line_def parse_abp_line_def Let_def)
  qed
qed

subsection \<open>Hosts\<close>

lemma split_join: "ps \<noteq> [] \<Longrightarrow> \<forall>p \<in> set ps. c \<notin> set p \<Longrightarrow> split_on c (join_with c ps) = ps"
proof (induction ps)
  case (Cons p ps)
  have part: "split_on c p = [p]" if "c \<notin> set p" for p using that by (induction p) auto
  show ?case
  proof (cases ps)
    case Nil
    then show ?thesis using Cons.prems part by simp
  next
    case (Cons q qs)
    then have "split_on c (join_with c (p # ps)) = split_on c p @ split_on c (join_with c ps)"
      by (simp add: join_with_Cons split_on_append)
    then show ?thesis using Cons Cons.IH Cons.prems part by simp
  qed
qed simp

lemma dot_splits: "c \<in> set s \<longleftrightarrow> 2 \<le> length (split_on c s)"
proof (induction s)
  case (Cons x xs)
  obtain p ps where "split_on c xs = p # ps" by (meson neq_Nil_conv split_on_not_Nil)
  with Cons show ?case by auto
qed simp

lemma listed_host_valid: "is_listed_host host \<longleftrightarrow> is_valid_hostname host \<and> \<not> is_local_loopback host"
proof -
  have label: "is_label l \<longleftrightarrow> l \<noteq> [] \<and> str_len l \<le> 63 \<and> list_all (\<lambda>c. is_ascii_alphanumeric c \<or> c = 45) l \<and> hd l \<noteq> 45 \<and> last l \<noteq> 45" for l
    by (simp add: is_label_def list_all_iff)
  have dotless: "46 \<notin> set l" if "is_label l" for l
    using that by (auto simp: is_label_def is_ascii_alphanumeric_def is_ascii_digit_def)
  have "(\<exists>labels. host = join_with 46 labels \<and> 2 \<le> length labels \<and> (\<forall>l \<in> set labels. is_label l))
      \<longleftrightarrow> 46 \<in> set host \<and> (\<forall>l \<in> set (split_on 46 host). is_label l)"
  proof
    assume "\<exists>labels. host = join_with 46 labels \<and> 2 \<le> length labels \<and> (\<forall>l \<in> set labels. is_label l)"
    then obtain labels where l: "host = join_with 46 labels" "2 \<le> length labels" "\<forall>l \<in> set labels. is_label l" by blast
    then have "split_on 46 host = labels" using dotless by (intro split_join[of labels 46, folded l(1)]) auto
    then show "46 \<in> set host \<and> (\<forall>l \<in> set (split_on 46 host). is_label l)" using l dot_splits[of 46 host] by simp
  next
    assume "46 \<in> set host \<and> (\<forall>l \<in> set (split_on 46 host). is_label l)"
    then show "\<exists>labels. host = join_with 46 labels \<and> 2 \<le> length labels \<and> (\<forall>l \<in> set labels. is_label l)"
      using dot_splits[of 46 host] by (intro exI[of _ "split_on 46 host"]) simp
  qed
  then show ?thesis
    by (auto simp: is_listed_host_def is_valid_hostname_def is_local_loopback_def label list_all_iff)
qed

definition listable :: "rstr \<Rightarrow> bool" where
  "listable host \<longleftrightarrow> is_valid_hostname host \<and> \<not> is_local_loopback host \<and> (\<forall>c \<in> set host. \<not> (65 \<le> c \<and> c \<le> 90))"

lemma lowercase_no_upper: "c \<in> set (to_ascii_lowercase s) \<Longrightarrow> \<not> (65 \<le> c \<and> c \<le> 90)"
  by (auto simp: to_ascii_lowercase_def ascii_lower_def)

lemma line_names_lowercase: "line_names format line host \<Longrightarrow> \<exists>s. host = to_ascii_lowercase s"
  by (cases format) auto

lemma hosts_listable: "host \<in> hosts_of format body \<Longrightarrow> listable host"
  using line_names_lowercase lowercase_no_upper
  unfolding hosts_of_def listable_def listed_host_valid by blast

text \<open>The host of one line, and the lines together: the limit is passed exactly if there are
  more hosts than it allows.\<close>

definition line_host :: "list_format \<Rightarrow> rstr \<Rightarrow> rstr option" where
  "line_host format l =
     (if skipped_line (trim l) then None
      else case parse_line format (trim l) of
             Some host \<Rightarrow> if is_valid_hostname host \<and> \<not> is_local_loopback host then Some host else None
           | None \<Rightarrow> None)"

lemma hosts_of_lines: "hosts_of format body = {host. \<exists>l \<in> set (str_lines body). line_host format l = Some host}"
proof -
  have "line_host format l = Some host \<longleftrightarrow> is_listed_host host \<and> trim l \<noteq> [] \<and> hd (trim l) \<notin> {35, 33, 91} \<and> line_names format (trim l) host" for l host
    using parse_line_names[of "trim l" format host] trim_start[of l]
    by (auto simp: line_host_def skipped_line_def listed_host_valid split: option.splits if_splits)
  then show ?thesis by (auto simp: hosts_of_def)
qed

lemma parse_lines_exact:
  assumes "fcard hosts \<le> limit"
  shows "parse_lines format limit ls hosts =
    (let all = hosts |\<union>| fset_of_list (List.map_filter (line_host format) ls)
     in if fcard all \<le> limit then Inr all else Inl (TooManyEntries limit))"
  using assms
proof (induction ls arbitrary: hosts)
  case (Cons l ls)
  have step: "parse_lines format limit (l # ls) hosts =
      (case line_host format l of
         None \<Rightarrow> parse_lines format limit ls hosts
       | Some host \<Rightarrow> if fcard (finsert host hosts) > limit then Inl (TooManyEntries limit)
                      else parse_lines format limit ls (finsert host hosts))"
    by (cases "parse_line format (trim l)") (simp_all add: line_host_def Let_def)
  show ?case
  proof (cases "line_host format l")
    case None
    then show ?thesis using step Cons by (simp add: map_filter_simps)
  next
    case (Some host)
    have "fcard (finsert host hosts) \<le> fcard (finsert host hosts |\<union>| xs)" for xs by (rule fcard_mono) auto
    then show ?thesis
      using step Some Cons.IH[of "finsert host hosts"] by (auto simp: map_filter_simps Let_def not_le dest: less_le_trans)
  qed
qed (simp add: map_filter_simps)

lemma parse_with_limit_exact:
  "finite (hosts_of format body)"
  "parse_with_limit format body limit =
    (if card (hosts_of format body) \<le> limit then Inr (sorted_list_of_set (hosts_of format body)) else Inl (TooManyEntries limit))"
proof -
  let ?all = "fset_of_list (List.map_filter (line_host format) (str_lines body))"
  have all: "fset ?all = hosts_of format body"
    by (auto simp: hosts_of_lines fset_of_list.rep_eq List.map_filter_def) force
  then show "finite (hosts_of format body)" by (metis finite_fset)
  have "parse_lines format limit (str_lines body) {||} = (if fcard ?all \<le> limit then Inr ?all else Inl (TooManyEntries limit))"
    using parse_lines_exact[of "{||}" limit format "str_lines body"] by (simp add: fcard_fempty Let_def)
  then show "parse_with_limit format body limit =
    (if card (hosts_of format body) \<le> limit then Inr (sorted_list_of_set (hosts_of format body)) else Inl (TooManyEntries limit))"
    by (simp add: parse_with_limit_def fcard.rep_eq sorted_list_of_fset.rep_eq all)
qed

subsection \<open>Entries\<close>

lemma split_on_cover: "x \<in> set s \<Longrightarrow> x = c \<or> (\<exists>part \<in> set (split_on c s). x \<in> set part)"
proof (induction s)
  case (Cons y ys)
  obtain p ps where "split_on c ys = p # ps" by (meson neq_Nil_conv split_on_not_Nil)
  with Cons show ?case by auto
qed simp

lemma listable_is_list_host: "listable host \<Longrightarrow> is_list_host host"
proof -
  assume host: "listable host"
  then have v: "host \<noteq> []" "str_len host \<le> 253" "46 \<in> set host"
    "\<forall>label \<in> set (split_on 46 host). label \<noteq> [] \<and> (\<forall>c \<in> set label. is_ascii_alphanumeric c \<or> c = 45)"
    by (auto simp: listable_def is_valid_hostname_def list_all_iff split: if_splits)
  have "hd host \<noteq> 46"
  proof
    assume "hd host = 46"
    then have "[] \<in> set (split_on 46 host)" using v(1) by (cases host) auto
    with v(4) show False by blast
  qed
  moreover have "host \<noteq> lit ''localhost.localdomain''" using host by (auto simp: listable_def is_local_loopback_def)
  moreover have "c = 46 \<or> c = 45 \<or> is_ascii_digit c \<or> (97 \<le> c \<and> c \<le> 122)" if "c \<in> set host" for c
    using split_on_cover[OF that, of 46] v(4) that host by (auto simp: listable_def is_ascii_alphanumeric_def)
  ultimately show ?thesis using v by (auto simp: is_list_host_def LONGEST_HOST_def list_all_iff)
qed

text \<open>
  The protected addresses, by the first and the last of each range: this network, the private
  networks, carrier-grade NAT, loopback, link-local, IETF assignments, benchmarking, multicast
  and the reserved ones with the broadcast address.
\<close>

definition PROTECTED_RANGES :: "(nat list \<times> nat list) list" where
  "PROTECTED_RANGES =
     [([0, 0, 0, 0], [0, 255, 255, 255]), ([10, 0, 0, 0], [10, 255, 255, 255]), ([100, 64, 0, 0], [100, 127, 255, 255]),
      ([127, 0, 0, 0], [127, 255, 255, 255]), ([169, 254, 0, 0], [169, 254, 255, 255]), ([172, 16, 0, 0], [172, 31, 255, 255]),
      ([192, 0, 0, 0], [192, 0, 0, 255]), ([192, 168, 0, 0], [192, 168, 255, 255]), ([198, 18, 0, 0], [198, 19, 255, 255]),
      ([224, 0, 0, 0], [239, 255, 255, 255]), ([240, 0, 0, 0], [255, 255, 255, 255])]"

definition address_value :: "nat list \<Rightarrow> nat" where
  "address_value octets = foldl (\<lambda>n d. 256 * n + d) 0 octets"

definition protected_address :: "nat list \<Rightarrow> bool" where
  "protected_address ip \<longleftrightarrow>
     list_ex (\<lambda>(lo, hi). address_value lo \<le> address_value ip \<and> address_value ip \<le> address_value hi) PROTECTED_RANGES"

lemma le_antisym_nat: "(k \<le> n \<and> n \<le> k) = (n = k)" for k n :: nat
  by auto

lemma blockable_unprotected:
  assumes "length ip = 4" "\<forall>d \<in> set ip. d \<le> 255"
  shows "is_blockable_ip ip \<longleftrightarrow> \<not> protected_address ip"
proof -
  obtain a b c d where ip: "ip = [a, b, c, d]" using assms(1) by (auto simp: numeral_eq_Suc length_Suc_conv)
  have le: "a \<le> 255" "b \<le> 255" "c \<le> 255" "d \<le> 255" using assms(2) by (simp_all add: ip)
  define v where "v = 16777216 * a + 65536 * b + 256 * c + d"
  have v: "address_value ip = v" by (simp add: ip address_value_def v_def)
  have lo1: "16777216 * k \<le> v \<longleftrightarrow> k \<le> a" and hi1: "v \<le> 16777216 * k + 16777215 \<longleftrightarrow> a \<le> k" for k
    using le unfolding v_def by (intro iffI; linarith)+
  have lo2: "16777216 * a + 65536 * k \<le> v \<longleftrightarrow> k \<le> b" and hi2: "v \<le> 16777216 * a + 65536 * k + 65535 \<longleftrightarrow> b \<le> k" for k
    using le unfolding v_def by (intro iffI; linarith)+
  have hi3: "v \<le> 16777216 * a + 65536 * b + 255 \<longleftrightarrow> c = 0" using le unfolding v_def by auto
  have first: "16777216 * k \<le> v \<and> v \<le> 16777216 * l + 16777215 \<longleftrightarrow> k \<le> a \<and> a \<le> l" for k l
    using lo1 hi1 by auto
  have second: "16777216 * a' + 65536 * k \<le> v \<and> v \<le> 16777216 * a' + 65536 * l + 65535 \<longleftrightarrow> a = a' \<and> k \<le> b \<and> b \<le> l"
    if "l \<le> 255" for a' k l
  proof (cases "a = a'")
    case False
    then have "\<not> (16777216 * a' \<le> v \<and> v \<le> 16777216 * a' + 16777215)" using first[of a' a'] by auto
    then show ?thesis using that False by auto
  qed (use lo2 hi2 in auto)
  have third: "16777216 * a' + 65536 * b' \<le> v \<and> v \<le> 16777216 * a' + 65536 * b' + 255 \<longleftrightarrow> a = a' \<and> b = b' \<and> c = 0"
    if "b' \<le> 255" for a' b'
  proof (cases "a = a' \<and> b = b'")
    case False
    then show ?thesis using second[OF that, of a' b'] by auto
  qed (use hi3 lo2[of b] in auto)
  have short: "(b = 18 \<or> b = 19) = (18 \<le> b \<and> b \<le> 19)" "(b < 128) = (b \<le> 127)" by auto
  let ?in = "\<lambda>lo hi. address_value lo \<le> v \<and> v \<le> address_value hi"
  have ranges:
    "?in [0, 0, 0, 0] [0, 255, 255, 255] \<longleftrightarrow> a = 0"
    "?in [10, 0, 0, 0] [10, 255, 255, 255] \<longleftrightarrow> a = 10"
    "?in [100, 64, 0, 0] [100, 127, 255, 255] \<longleftrightarrow> a = 100 \<and> 64 \<le> b \<and> b < 128"
    "?in [127, 0, 0, 0] [127, 255, 255, 255] \<longleftrightarrow> a = 127"
    "?in [169, 254, 0, 0] [169, 254, 255, 255] \<longleftrightarrow> a = 169 \<and> b = 254"
    "?in [172, 16, 0, 0] [172, 31, 255, 255] \<longleftrightarrow> a = 172 \<and> 16 \<le> b \<and> b \<le> 31"
    "?in [192, 0, 0, 0] [192, 0, 0, 255] \<longleftrightarrow> a = 192 \<and> b = 0 \<and> c = 0"
    "?in [192, 168, 0, 0] [192, 168, 255, 255] \<longleftrightarrow> a = 192 \<and> b = 168"
    "?in [198, 18, 0, 0] [198, 19, 255, 255] \<longleftrightarrow> a = 198 \<and> (b = 18 \<or> b = 19)"
    "?in [224, 0, 0, 0] [239, 255, 255, 255] \<longleftrightarrow> 224 \<le> a \<and> a \<le> 239"
    "?in [240, 0, 0, 0] [255, 255, 255, 255] \<longleftrightarrow> 240 \<le> a"
    using first[of 0 0] first[of 10 10] second[of 127 100 64] first[of 127 127] second[of 254 169 254] second[of 31 172 16]
      third[of 0 192] second[of 168 192 168] second[of 19 198 18] first[of 224 239] first[of 240 255]
    by (simp_all only: address_value_def foldl.simps) (simp_all add: le_antisym_nat le(1) short)
  have "protected_address ip \<longleftrightarrow> list_ex (\<lambda>(lo, hi). ?in lo hi) PROTECTED_RANGES"
    by (simp only: protected_address_def v)
  also have "\<dots> \<longleftrightarrow> a = 0 \<or> a = 10 \<or> (a = 100 \<and> 64 \<le> b \<and> b < 128) \<or> a = 127 \<or> (a = 169 \<and> b = 254) \<or> (a = 172 \<and> 16 \<le> b \<and> b \<le> 31)
      \<or> (a = 192 \<and> b = 0 \<and> c = 0) \<or> (a = 192 \<and> b = 168) \<or> (a = 198 \<and> (b = 18 \<or> b = 19)) \<or> (224 \<le> a \<and> a \<le> 239) \<or> 240 \<le> a"
    by (simp only: PROTECTED_RANGES_def list_ex_Nil_iff list_ex_Cons_iff prod.case ranges simp_thms)
  finally have ranged: "protected_address ip \<longleftrightarrow> \<dots>" .
  have octets: "ip ! 0 = a" "ip ! 1 = b" "ip ! 2 = c" by (simp_all add: ip)
  show ?thesis unfolding is_blockable_ip_def Let_def octets ranged by blast
qed

definition blockable_literal :: "rstr \<Rightarrow> bool" where
  "blockable_literal h \<longleftrightarrow> (case parse_ipv4 h of Some ip \<Rightarrow> \<not> protected_address ip | None \<Rightarrow> False)"

lemma blockable_literal_code: "blockable_literal h \<longleftrightarrow> (case parse_ipv4 h of Some ip \<Rightarrow> is_blockable_ip ip | None \<Rightarrow> False)"
  using parse_ipv4_text[of h] blockable_unprotected by (auto simp: blockable_literal_def split: option.split)

lemma classify_listable:
  assumes "\<forall>h \<in> set hosts. listable h"
  shows "classify hosts = \<lparr> el_domains = filter (\<lambda>h. parse_ipv4 h = None) hosts, el_ips = filter blockable_literal hosts \<rparr>"
proof -
  have "fold classify_one hosts e = e\<lparr> el_domains := el_domains e @ filter (\<lambda>h. parse_ipv4 h = None) hosts,
      el_ips := el_ips e @ filter blockable_literal hosts \<rparr>" for e
    using assms
  proof (induction hosts arbitrary: e)
    case (Cons h hs)
    then show ?case
      using listable_is_list_host[of h] parse_ipv4_text[of h]
      by (auto simp: classify_one_def blockable_literal_code split: option.splits)
  qed simp
  then show ?thesis by (simp add: classify_def)
qed

lemma write_lines_fits:
  "\<forall>e \<in> set es. list_line kind e \<noteq> None \<Longrightarrow>
   write_lines m kind es bytes = (if es = [] \<or> bytes + str_len (concat (map (the \<circ> list_line kind) es)) \<le> m
     then Inr (concat (map (the \<circ> list_line kind) es)) else Inl TooLarge)"
proof (induction es arbitrary: bytes)
  case (Cons e es)
  then obtain line where "list_line kind e = Some line" by auto
  with Cons show ?case by (cases "es = []") (auto simp: add.assoc comp_def)
qed simp

text \<open>
  C33. What a downloaded list makes the daemon block is exactly what the list says. Its hosts are
  those its lines name: the second word of a hosts line, the first word of a domains line, the
  part of an adblock line between \<open>||\<close> and the first of \<open>^\<close>, \<open>$\<close> and \<open>/\<close>, in lower case, of every line that is
  not a comment, if the name has at least two proper labels and is not a name of this machine.
  A list with more hosts than the limit is refused; otherwise the hosts come sorted, each once.
  Every host that is not an IPv4 address becomes a domain line, every IPv4 address an address
  line unless it lies in one of the protected ranges (this network, private, shared, loopback,
  link-local, assigned, benchmarking, multicast and reserved addresses), which are dropped; and
  the writer refuses a classified list only for its size, never for an entry.
\<close>

theorem blocklist_entries_exact:
  "parse_with_limit format body limit =
      (if card (hosts_of format body) \<le> limit then Inr (sorted_list_of_set (hosts_of format body)) else Inl (TooManyEntries limit))
   \<and> el_domains (classify (sorted_list_of_set (hosts_of format body)))
       = filter (\<lambda>h. parse_ipv4 h = None) (sorted_list_of_set (hosts_of format body))
   \<and> el_ips (classify (sorted_list_of_set (hosts_of format body)))
       = filter blockable_literal (sorted_list_of_set (hosts_of format body))
   \<and> write_lines max_bytes kind (entries_get (classify (sorted_list_of_set (hosts_of format body))) kind) 0 \<noteq> Inl InvalidData"
proof -
  define hosts where "hosts = sorted_list_of_set (hosts_of format body)"
  have all: "\<forall>h \<in> set hosts. listable h"
    using parse_with_limit_exact(1) hosts_listable by (simp add: hosts_def)
  have "\<forall>e \<in> set (entries_get (classify hosts) kind). list_line kind e \<noteq> None"
  proof (cases kind)
    case Domains
    then show ?thesis using all listable_is_list_host
      by (auto simp: classify_listable[OF all] entries_get_def list_line_def)
  next
    case Ips
    then show ?thesis using all parse_ipv4_text
      by (auto simp: classify_listable[OF all] entries_get_def list_line_def blockable_literal_code split: option.splits)
  qed
  from write_lines_fits[OF this, of max_bytes 0]
  have "write_lines max_bytes kind (entries_get (classify hosts) kind) 0 \<noteq> Inl InvalidData" by simp
  then show ?thesis
    using parse_with_limit_exact(2) classify_listable[OF all] by (simp add: hosts_def[symmetric])
qed

definition example_list :: rstr where
  "example_list = lit ''# hosts'' @ 10 # lit ''0.0.0.0 Ads.Example.com'' @ 10 # lit ''0.0.0.0 192.168.1.1'' @ 10
     # lit ''0.0.0.0 93.184.216.34 # tracker'' @ [10]"

lemma chosen_right: "x = (if c then Inr a else Inl e) \<Longrightarrow> x = Inr b \<Longrightarrow> a = b"
  by (auto split: if_splits)

theorem blocklist_entries_exact_witness:
  "\<exists>hosts. parse_with_limit (sniff_format example_list) example_list 10 = Inr hosts
     \<and> el_domains (classify hosts) = [lit ''ads.example.com''] \<and> el_ips (classify hosts) = [lit ''93.184.216.34'']"
proof -
  let ?hosts = "[lit ''192.168.1.1'', lit ''93.184.216.34'', lit ''ads.example.com'']"
  have run: "parse_with_limit (sniff_format example_list) example_list 10 = Inr ?hosts" by code_simp
  have "filter (\<lambda>h. parse_ipv4 h = None) ?hosts = [lit ''ads.example.com'']"
    "filter blockable_literal ?hosts = [lit ''93.184.216.34'']" by code_simp+
  moreover note exact = blocklist_entries_exact[of "sniff_format example_list" example_list 10 0 Ips]
  moreover have "sorted_list_of_set (hosts_of (sniff_format example_list) example_list) = ?hosts"
    by (rule chosen_right[OF conjunct1[OF exact] run])
  ultimately show ?thesis using run by metis
qed

section \<open>The rule of a list is one the daemon is sent\<close>

lemma plain_char_facts:
  assumes "is_plain_char c"
  shows "c < 0x80" "c \<noteq> 46" "c \<noteq> 47" "c \<noteq> 58" "c \<noteq> 92" "\<not> is_control c" "\<not> is_format_or_separator c"
  using assms
  by (auto simp: is_plain_char_def is_ascii_alphanumeric_def is_ascii_digit_def is_control_def is_format_or_separator_def)

lemma str_len_plain: "list_all is_plain_char s \<Longrightarrow> str_len s = length s"
  by (rule str_len_ascii) (auto simp: list_all_iff plain_char_facts)

lemma digest_hex_lower:
  assumes "sha256_shape sha"
  shows "list_all is_lower_hex (digest_hex sha ident)" "str_len (digest_hex sha ident) = 16"
proof -
  have "is_lower_hex c" if c: "c \<in> set (digest_hex sha ident)" for c
  proof -
    obtain b where b: "b \<in> set (sha (as_bytes ident))" "c \<in> set (hex_byte b)"
      using c by (auto simp: digest_hex_def dest: in_set_takeD)
    then have "b div 16 < 16" using assms by (auto simp: sha256_shape_def less_mult_imp_div_less)
    moreover have "b mod 16 < 16" by simp
    moreover have "is_lower_hex (hex_digit n)" if "n < 16" for n
      using that by (auto simp: hex_digit_def is_lower_hex_def is_ascii_digit_def)
    ultimately show ?thesis using b(2) by (auto simp: hex_byte_def)
  qed
  then show lower: "list_all is_lower_hex (digest_hex sha ident)" by (simp add: list_all_iff)
  have "\<forall>c \<in> set (digest_hex sha ident). c < 0x80"
    using lower by (auto simp: list_all_iff is_lower_hex_def is_ascii_digit_def)
  then show "str_len (digest_hex sha ident) = 16"
    using str_len_ascii length_digest_hex[OF assms] by simp
qed

definition id_stem :: "rstr \<Rightarrow> rstr" where
  "id_stem ident =
     (let stem = take HASHED_STEM_CHARS (filter is_plain_char ident) in if stem = [] then lit ''list'' else stem)"

lemma id_from_cases: "id_from sha ident = (if is_plain ident then ident else id_stem ident @ 46 # digest_hex sha ident)"
  by (simp add: id_from_def id_stem_def Let_def)

lemma id_stem_plain: "is_plain (id_stem ident)" "str_len (id_stem ident) \<le> HASHED_STEM_CHARS"
proof -
  let ?stem = "take HASHED_STEM_CHARS (filter is_plain_char ident)"
  have "list_all is_plain_char ?stem" by (auto simp: list_all_iff dest!: in_set_takeD)
  then have "list_all is_plain_char ?stem" "str_len ?stem \<le> HASHED_STEM_CHARS" using str_len_plain by auto
  moreover have "is_plain (lit ''list'')" "str_len (lit ''list'') \<le> HASHED_STEM_CHARS" by code_simp+
  ultimately show "is_plain (id_stem ident)" "str_len (id_stem ident) \<le> HASHED_STEM_CHARS"
    by (auto simp: id_stem_def is_plain_def HASHED_STEM_CHARS_def MAX_ID_COMPONENT_BYTES_def Let_def)
qed

lemma split_once_first: "c \<notin> set a \<Longrightarrow> split_once c (a @ c # b) = Some (a, b)"
  by (auto simp: split_once_def dropWhile_append takeWhile_append split: list.splits)

lemma id_chars:
  assumes "sha256_shape sha" "c \<in> set (id_from sha ident)"
  shows "c = 46 \<or> is_plain_char c"
  using assms digest_hex_lower(1)[OF assms(1), of ident] id_stem_plain(1)[of ident]
  by (auto simp: id_from_cases is_plain_def list_all_iff is_lower_hex_def is_plain_char_def is_ascii_alphanumeric_def
      split: if_splits)

lemma id_parse_from:
  assumes "sha256_shape sha"
  shows "id_parse (id_from sha ident) = Some (id_from sha ident)"
proof (cases "is_plain ident")
  case False
  let ?id = "id_stem ident @ 46 # digest_hex sha ident"
  have "46 \<notin> set (id_stem ident)" using id_stem_plain(1) plain_char_facts(2) by (auto simp: is_plain_def list_all_iff)
  then have "split_once 46 ?id = Some (id_stem ident, digest_hex sha ident)" by (rule split_once_first)
  moreover have "\<not> is_plain ?id" using plain_char_facts(2) by (auto simp: is_plain_def)
  ultimately show ?thesis
    using False id_stem_plain digest_hex_lower[OF assms] by (simp add: id_parse_def id_from_cases)
qed (simp add: id_parse_def id_from_cases)

lemma id_length: "sha256_shape sha \<Longrightarrow> length (id_from sha ident) \<le> 81 \<and> id_from sha ident \<noteq> []"
  using id_stem_plain[of ident] str_len_plain[of "id_stem ident"] str_len_plain[of ident] length_digest_hex[of sha ident]
  by (auto simp: id_from_cases is_plain_def HASHED_STEM_CHARS_def MAX_ID_COMPONENT_BYTES_def)

lemma id_head: "sha256_shape sha \<Longrightarrow> hd (id_from sha ident) \<noteq> 46"
proof -
  have "hd s \<noteq> 46 \<and> s \<noteq> []" if "is_plain s" for s
    using that plain_char_facts(2) by (cases s) (auto simp: is_plain_def)
  then show "sha256_shape sha \<Longrightarrow> ?thesis"
    using id_stem_plain(1)[of ident] by (auto simp: id_from_cases)
qed

lemma id_from_inject:
  assumes "sha256_shape sha" "id_from sha a = id_from sha b"
  shows "a = b \<or> digest_hex sha a = digest_hex sha b"
proof -
  have dot: "46 \<notin> set s" if "is_plain s" for s
    using that plain_char_facts(2) by (auto simp: is_plain_def list_all_iff)
  have "digest_hex sha a = digest_hex sha b" if "id_stem a @ 46 # digest_hex sha a = id_stem b @ 46 # digest_hex sha b"
    using first_sep_inject[OF that] dot[OF id_stem_plain(1)] by blast
  moreover have "\<not> is_plain (id_stem x @ 46 # digest_hex sha x)" for x using dot by fastforce
  ultimately show ?thesis
    using assms(2) by (auto simp: id_from_cases split: if_splits)
qed

lemma last_join: "ps \<noteq> [] \<Longrightarrow> last ps \<noteq> [] \<Longrightarrow> join_with c ps \<noteq> [] \<and> last (join_with c ps) = last (last ps)"
proof (induction ps)
  case (Cons p ps)
  then show ?case by (cases ps) (auto simp: join_with_Cons)
qed simp

text \<open>The pinned root: absolute, without empty, dot or dot-dot segments, called
  \<open>blocklists\<close>; \<open>resolve_storage\<close> canonicalises the state directory it lies in.\<close>

definition clean_segments :: "rstr list \<Rightarrow> bool" where
  "clean_segments segs \<longleftrightarrow> list_all (\<lambda>seg. seg \<noteq> [] \<and> seg \<noteq> [46] \<and> seg \<noteq> [46, 46]) segs"

definition list_root :: "rstr \<Rightarrow> bool" where
  "list_root root \<longleftrightarrow> (\<exists>segs. segs \<noteq> [] \<and> clean_segments segs \<and> (\<forall>s \<in> set segs. 47 \<notin> set s)
     \<and> root = 47 # join_with 47 segs \<and> last segs = LISTS_DIR_NAME)"

lemma components_absolute:
  assumes "segs \<noteq> []" "clean_segments segs" "\<forall>s \<in> set segs. 47 \<notin> set s"
  shows "components (47 # join_with 47 segs) = RootDir # map Normal segs"
proof -
  have "filter (\<lambda>seg. seg \<noteq> [] \<and> seg \<noteq> [46]) segs = segs"
    using assms(2) by (auto simp: clean_segments_def list_all_iff intro!: filter_True)
  moreover have "map segment_component segs = map Normal segs"
    using assms(2) by (auto simp: clean_segments_def list_all_iff segment_component_def)
  ultimately show ?thesis using split_join[OF assms(1,3)] by (simp add: components_def)
qed

lemma list_rule_name_valid:
  assumes "sha256_shape sha"
  shows "validate_rule_name (list_rule_name (id_from sha ident) kind) = Inr ()"
proof -
  let ?n = "list_rule_name (id_from sha ident) kind"
  have chars: "c < 0x80 \<and> c \<noteq> 47 \<and> c \<noteq> 92 \<and> \<not> is_control c \<and> \<not> is_format_or_separator c" if c: "c \<in> set ?n" for c
  proof -
    have fixed: "list_all (\<lambda>c. c < 0x80 \<and> c \<noteq> 47 \<and> c \<noteq> 92 \<and> \<not> is_control c \<and> \<not> is_format_or_separator c)
        (BLOCKLIST_RULE_NAME_PREFIX @ 46 # 58 # dir_name kind)" by (cases kind) (simp_all add: lit_def BLOCKLIST_RULE_NAME_PREFIX_def is_control_def is_format_or_separator_def)
    have "c \<in> set (BLOCKLIST_RULE_NAME_PREFIX @ 46 # 58 # dir_name kind) \<or> is_plain_char c"
      using c id_chars[OF assms] by (auto simp: list_rule_name_def)
    then show ?thesis
    proof
      assume "is_plain_char c"
      from plain_char_facts[OF this] show ?thesis by blast
    next
      assume "c \<in> set (BLOCKLIST_RULE_NAME_PREFIX @ 46 # 58 # dir_name kind)"
      then show ?thesis using fixed unfolding list_all_iff by blast
    qed
  qed
  have "length BLOCKLIST_RULE_NAME_PREFIX = 14" "length (dir_name kind) \<le> 7"
    by (cases kind; simp add: lit_def BLOCKLIST_RULE_NAME_PREFIX_def)+
  then have "14 < length ?n" "length ?n \<le> MAX_RULE_NAME_BYTES"
    using id_length[OF assms, of ident] by (auto simp: list_rule_name_def MAX_RULE_NAME_BYTES_def)
  moreover have "str_len ?n = length ?n" using chars by (intro str_len_ascii) blast
  ultimately show ?thesis
    using chars by (auto simp: validate_rule_name_def list_ex_iff)
qed

text \<open>
  Every list can be installed: whatever its id, the directory name made from it is read
  back as the same id, two ids share one only if their 64-bit hashes collide, and the
  command that installs either rule of the list under the pinned root passes the check at
  the send point.
\<close>

theorem blocklist_installs_pass:
  assumes sha: "sha256_shape sha" and root: "list_root root"
  shows "id_parse (id_from sha ident) = Some (id_from sha ident)
    \<and> (id_from sha ident = id_from sha other \<longrightarrow> ident = other \<or> digest_hex sha ident = digest_hex sha other)
    \<and> blocklist_check (blocklist_install describe (id_from sha ident) kind root) (Some root) = Inr ()"
proof -
  let ?id = "id_from sha ident"
  obtain segs where segs: "segs \<noteq> []" "clean_segments segs" "\<forall>s \<in> set segs. 47 \<notin> set s"
    "root = 47 # join_with 47 segs" "last segs = LISTS_DIR_NAME"
    using root by (auto simp: list_root_def)
  let ?segs = "segs @ [?id, dir_name kind]"
  have dir: "dir_name kind \<noteq> []" "clean_segments [dir_name kind]" "47 \<notin> set (dir_name kind)" "hd (dir_name kind) \<noteq> 47"
    "LISTS_DIR_NAME \<notin> {[], [46, 46]}"
    by (cases kind; simp add: lit_def clean_segments_def LISTS_DIR_NAME_def)+
  have noslash: "47 \<notin> set ?id" using id_chars[OF sha] plain_char_facts(3) by fastforce
  have notdots: "?id \<noteq> []" "?id \<noteq> [46]" "?id \<noteq> [46, 46]" "hd ?id \<noteq> 47"
    using id_length[OF sha, of ident] id_head[OF sha, of ident] noslash by (cases ?id; force)+
  have ids: "clean_segments ?segs" "\<forall>s \<in> set ?segs. 47 \<notin> set s" "?segs \<noteq> []"
    using segs noslash notdots dir by (auto simp: clean_segments_def)
  have "last segs \<noteq> []" using segs(5) dir(5) by simp
  moreover from this have "last (last segs) \<noteq> 47" using segs(1,3) by (metis last_in_set)
  ultimately have "last root \<noteq> 47" "join_with 47 segs \<noteq> []"
    using last_join[OF segs(1), of 47] by (auto simp: segs(4))
  then have "path_join root ?id = root @ 47 # ?id" using notdots segs(4) by (simp add: path_join_def)
  moreover have "last ?id \<noteq> 47" using noslash notdots(1) by (metis last_in_set)
  ultimately have "kind_dir root ?id kind = (root @ 47 # ?id) @ 47 # dir_name kind"
    using notdots(1) dir(4) by (simp add: kind_dir_def path_join_def[of "root @ 47 # ?id"])
  then have data: "kind_dir root ?id kind = 47 # join_with 47 ?segs"
    using segs(1) join_with_append[of segs "[?id, dir_name kind]" 47] by (simp add: segs(4))
  have comps: "components root = RootDir # map Normal segs" "components (kind_dir root ?id kind) = RootDir # map Normal ?segs"
    using components_absolute[OF segs(1,2,3)] components_absolute[OF ids(3,1,2)] data segs(4) by simp_all
  have "split_on 47 (join_with 47 ?segs) = ?segs" using split_join ids by blast
  moreover have "file_name root = Some LISTS_DIR_NAME"
    using split_join[OF segs(1,3)] segs(1,2,5) dir(5)
    by (auto simp: file_name_def segs(4) Let_def filter_True clean_segments_def list_all_iff)
  ultimately have "data_matches (kind_dir root ?id kind) kind (list_rule_name ?id kind) root"
    using ids(1) id_parse_from[OF sha, of ident] comps
    by (simp add: data_matches_def data strip_prefix_path_def clean_segments_def list_all_iff)
  moreover have "from_operand (list_operand kind) = Some kind" by (cases kind) (simp_all add: from_operand_def)
  moreover have "prefix BLOCKLIST_RULE_NAME_PREFIX (list_rule_name ?id kind)" by (simp add: list_rule_name_def)
  ultimately have "blocklist_check (blocklist_install describe ?id kind root) (Some root) = Inr ()"
    using list_rule_name_valid[OF sha, of ident kind]
    by (simp add: blocklist_check_def blocklist_install_def command_of_def materialize_list_rule_def)
  then show ?thesis using id_parse_from[OF sha] id_from_inject[OF sha] by blast
qed

theorem blocklist_installs_pass_witness:
  "blocklist_check (blocklist_install (\<lambda>_ _. []) (id_from example_sha (lit ''a/b'')) Ips
     (lit ''/var/lib/snitchwatch/blocklists'')) (Some (lit ''/var/lib/snitchwatch/blocklists'')) = Inr ()"
proof -
  have root: "list_root (lit ''/var/lib/snitchwatch/blocklists'')"
    unfolding list_root_def
    by (rule exI[of _ "[lit ''var'', lit ''lib'', lit ''snitchwatch'', lit ''blocklists'']"]) (simp add: lit_def clean_segments_def LISTS_DIR_NAME_def)
  from blocklist_installs_pass[OF example_sha_shape this] show ?thesis by blast
qed

end
