(* ===== verification/Bridge_Commands_Props.thy ===== *)
theory Bridge_Commands_Props
  imports Bridge_Commands Blocklist_Props
begin

text \<open>
  What the bridge builds for a profile or a curated default passes the check at the send
  point, and a toggle of a curated default sends the reviewed rule with the switch turned.
\<close>

section \<open>Profile rules\<close>

lemma segment_chars:
  assumes "sha256_shape sha" "c \<in> set (profile_segment sha ident)"
  shows "c = 46 \<or> is_plain_char c"
proof -
  have "is_plain_char 95" by code_simp
  moreover have "is_plain_char c" if "c \<in> set (digest_hex sha ident)" for c
    using that digest_hex_lower(1)[OF assms(1), of ident]
    by (auto simp: list_all_iff is_lower_hex_def is_plain_char_def is_ascii_alphanumeric_def)
  ultimately show ?thesis
    using assms(2) by (auto simp: profile_segment_def list_all_iff dest!: in_set_takeD split: if_splits)
qed

lemma segment_inject:
  assumes sha: "sha256_shape sha" and eq: "profile_segment sha a = profile_segment sha b"
  shows "a = b \<or> digest_hex sha a = digest_hex sha b"
proof -
  let ?stem = "\<lambda>x. take PROFILE_STEM_CHARS (map (\<lambda>c. if is_plain_char c then c else 95) x)"
  have dot: "46 \<notin> set (?stem x)" for x
    by (auto simp: is_plain_char_def is_ascii_alphanumeric_def is_ascii_digit_def dest!: in_set_takeD split: if_splits)
  have hashed: "digest_hex sha a = digest_hex sha b" if "?stem a @ 46 # digest_hex sha a = ?stem b @ 46 # digest_hex sha b"
    using first_sep_inject[OF that] dot by blast
  have plain: "\<not> list_all is_plain_char (?stem x @ 46 # digest_hex sha x)" for x 
    by (simp add: is_plain_char_def is_ascii_alphanumeric_def is_ascii_digit_def)
  show ?thesis
    using eq hashed plain by (auto simp: profile_segment_def split: if_splits)
qed

text \<open>
  Every rule a profile installs is one the profile path sends: what the materializer
  builds passes the check at the send point, is enabled, never decides before other rules
  and never hides its connections. Two rules have the same name only if their ids are
  equal and their profiles are (up to a collision of 64-bit hashes), so no profile's rule
  replaces another's.
\<close>

theorem profile_rules_pass:
  assumes sha: "sha256_shape sha" and tag: "\<And>p i. source_tag (describe p i) = Some (lit ''profile'')"
    and made: "materialize_rule sha lib describe p pr = Inr r"
  shows "profile_check lib source_tag (profile_install r) = Inr ()
    \<and> r_enabled r \<and> \<not> r_precedence r \<and> \<not> r_nolog r \<and> r_duration r = lit ''always''
    \<and> (\<forall>p' pr' r'. materialize_rule sha lib describe p' pr' = Inr r' \<and> r_name r' = r_name r \<longrightarrow>
         pr_id pr' = pr_id pr \<and> (p' = p \<or> digest_hex sha p' = digest_hex sha p))"
proof -
  have r: "validate_user_rule lib r ProfileRule = Inr ()" "r_name r = profile_rule_name sha p (pr_id pr)"
    "r_description r = describe p (pr_id pr)" "r_enabled r" "\<not> r_precedence r" "\<not> r_nolog r"
    "r_duration r = lit ''always''" "valid_rule_id (pr_id pr)"
    using made by (auto simp: materialize_rule_def Let_def split: if_splits sum.splits)
  have "validate_rule_name (r_name r) = Inr ()" "is_reserved_profile_name (r_name r)"
    using r(1) by (auto simp: validate_user_rule_def check_rule_def Let_def split: sum.splits if_splits)
  then have "profile_check lib source_tag (profile_install r) = Inr ()"
    using r tag by (simp add: profile_check_def profile_install_def command_of_def made_by_bridge_def)
  moreover have "pr_id pr' = pr_id pr \<and> (p' = p \<or> digest_hex sha p' = digest_hex sha p)"
    if other: "materialize_rule sha lib describe p' pr' = Inr r'" "r_name r' = r_name r" for p' pr' r'
  proof -
    have "profile_rule_name sha p' (pr_id pr') = profile_rule_name sha p (pr_id pr)"
      using other r(2) by (auto simp: materialize_rule_def Let_def split: if_splits sum.splits)
    then have eq: "profile_segment sha p' @ 58 # pr_id pr' = profile_segment sha p @ 58 # pr_id pr"
      by (simp add: profile_rule_name_def)
    have "58 \<notin> set (profile_segment sha x)" for x
      using segment_chars[OF sha] plain_char_facts(4) by fastforce
    then have "profile_segment sha p' = profile_segment sha p \<and> pr_id pr' = pr_id pr"
      using first_sep_inject[OF eq] by blast
    then show ?thesis using segment_inject[OF sha] by blast
  qed
  ultimately show ?thesis using r by blast
qed

definition example_profile_rule :: profile_rule where
  "example_profile_rule = \<lparr> pr_id = lit ''r1'', pr_action = lit ''deny'', pr_operand = lit ''dest.host'',
     pr_data = lit ''x.example'', pr_operator = None \<rparr>"

theorem profile_rules_pass_witness:
  "\<exists>r. materialize_rule example_sha no_regex (\<lambda>_ _. lit ''profile'') (lit ''home'') example_profile_rule = Inr r
     \<and> profile_check no_regex Some (profile_install r) = Inr ()"
proof -
  let ?made = "materialize_rule example_sha no_regex (\<lambda>_ _. lit ''profile'') (lit ''home'') example_profile_rule"
  have "isl ?made = False" by code_simp
  then obtain r where made: "?made = Inr r" by (cases ?made) auto
  from profile_rules_pass[OF example_sha_shape _ made, of Some] made show ?thesis by auto
qed

section \<open>Curated defaults\<close>

lemma check_entries_each:
  "check_entries lib seen es = Inr () \<Longrightarrow> e \<in> set es \<Longrightarrow> entry_check lib e = Inr ()"
  by (induction es arbitrary: seen) (auto split: sum.splits if_splits)

lemma offered_entries_checked: "e \<in> set (curated_entries lib f) \<Longrightarrow> entry_check lib e = Inr ()"
  using check_entries_each[of lib "[]" "df_entries f"]
  by (auto simp: curated_entries_def parse_file_def split: sum.splits if_splits)

text \<open>Neither the switch nor the creation time is read by a check.\<close>

lemma checks_ignore_switch:
  "check_curated_rule lib (r\<lparr> r_enabled := b, r_created := t \<rparr>) = check_curated_rule lib r"
  "canonical lib (r\<lparr> r_enabled := b, r_created := t \<rparr>) = canonical lib r"
  "sender_uid (r\<lparr> r_enabled := b, r_created := t \<rparr>) = sender_uid r"
  "rule_matching e (r\<lparr> r_enabled := b, r_created := t \<rparr>) = rule_matching e r"
proof -
  have "validate_user_rule lib (r\<lparr> r_enabled := b, r_created := t, r_name := n \<rparr>) Editor =
      validate_user_rule lib (r\<lparr> r_name := n \<rparr>) Editor" for n
    by (simp add: validate_user_rule_def check_rule_def within_limits_def)
  then show "check_curated_rule lib (r\<lparr> r_enabled := b, r_created := t \<rparr>) = check_curated_rule lib r"
    by (simp add: check_curated_rule_def split: option.splits)
  show "canonical lib (r\<lparr> r_enabled := b, r_created := t \<rparr>) = canonical lib r" by (simp add: canonical_def)
  show uid: "sender_uid (r\<lparr> r_enabled := b, r_created := t \<rparr>) = sender_uid r" by (simp add: sender_uid_def)
  show "rule_matching e (r\<lparr> r_enabled := b, r_created := t \<rparr>) = rule_matching e r"
    by (simp add: rule_matching_def uid split: option.splits curated_sender.splits)
qed

lemma validated_name_short:
  "valid_id ident \<Longrightarrow> validate_rule_name (CURATED_DEFAULT_RULE_NAME_PREFIX @ ident) = Inr ()"
proof -
  assume v: "valid_id ident"
  have pre: "\<forall>c \<in> set CURATED_DEFAULT_RULE_NAME_PREFIX. safe_char c" "length CURATED_DEFAULT_RULE_NAME_PREFIX = 20"
    by code_simp+
  have chars: "\<forall>c \<in> set ident. safe_char c"
    using v by (auto simp: valid_id_def list_all_iff is_lower_digit_dash_def safe_char_def is_ascii_alphanumeric_def)
  moreover have "\<forall>c \<in> set ident. c < 0x80" using chars safe_char_facts(1) by blast
  then have "length ident \<le> 48" using v str_len_ascii by (simp add: valid_id_def)
  ultimately show ?thesis
    using pre by (intro safe_valid) (auto simp: MAX_RULE_NAME_BYTES_def)
qed

lemma entry_rule_fields:
  "r_name (entry_build e s) = entry_rule_name e" "r_name (rule_as e u) = entry_rule_name e"
  "r_enabled (rule_as e u)" "legacy_rule e = Some old \<Longrightarrow> r_name old = entry_rule_name e"
  by (auto simp: entry_build_def rule_as_def legacy_rule_def split: if_splits)

lemma find_uid_leaf: "find (\<lambda>leaf. op_operand leaf = lit ''user.id'') (leaves_before_sender e @ uid_leaf u # rest) = Some (uid_leaf u)"
proof -
  have "find (\<lambda>leaf. op_operand leaf = lit ''user.id'') (leaves_before_sender e) = None"
    by (auto simp: find_None_set leaves_before_sender_def curated_leaf_def split: option.splits)
  then show ?thesis by (simp add: find_append)
qed

lemma sender_uid_of_install:
  assumes "ce_sender e = Some (Account name)" "uid \<le> U32_MAX"
  shows "sender_uid (rule_as e (Some uid)) = Some uid"
proof -
  have "canonical_uid (decimal uid)" using canonical_uid_iff assms(2) by blast
  then show ?thesis
    using assms find_uid_leaf[of e uid]
    by (simp add: sender_uid_def rule_as_def entry_build_def build_leaves_split(1) parse_decimal)
qed

lemma sender_uid_bound: "sender_uid r = Some uid \<Longrightarrow> uid \<le> U32_MAX"
  by (auto simp: sender_uid_def parse_unsigned_def Let_def split: option.splits if_splits)

lemma leaves_after_sender_head:
  "check_sender (leaves_after_sender e) destination =
     (if destination = DestAnyAddress then Inl SenderNeeded else Inr (leaves_after_sender e))"
  by (simp add: check_sender_def leaves_after_sender_def curated_leaf_def)

lemma check_leaves_without_uid:
  assumes ok: "check_leaves (leaves_before_sender e @ uid_leaf a # leaves_after_sender e) = Inr ()"
    and e: "destinations_of e = 1" "\<not> ce_any_address e"
  shows "check_leaves (leaves_before_sender e @ leaves_after_sender e) = Inr ()"
proof -
  obtain dests where dests: "leaves_before_sender e = path_leaf (ce_path e) # dests" "dests = [] \<longleftrightarrow> ce_any_address e"
    "dests = [] \<or> (\<exists>d. dests = [d] \<and> op_operand d \<in> {lit ''dest.host'', lit ''dest.ip''})"
    using destination_before_sender[OF e(1)] by blast
  obtain program r1 destination r2 r3 r4 where steps:
    "check_program (path_leaf (ce_path e) # dests @ uid_leaf a # leaves_after_sender e) = Inr (program, r1)"
    "check_destination r1 program = Inr (destination, r2)" "check_sender r2 destination = Inr r3"
    "check_port r3 destination = Inr r4" "check_protocol r4 destination = Inr []"
    "\<forall>m \<in> set (path_leaf (ce_path e) # dests @ uid_leaf a # leaves_after_sender e). op_list m = []"
    using ok unfolding check_leaves_Inr dests(1) by auto
  have r1: "r1 = dests @ uid_leaf a # leaves_after_sender e"
    and program: "check_program (path_leaf (ce_path e) # xs) = Inr (program, xs)" for xs
    using steps(1) by (auto simp: check_program_def split: if_splits)
  note dest = check_destination_other_uid[OF steps(2)[unfolded r1] dests(3)]
  have "r3 = leaves_after_sender e" using steps(3) dest(1) check_sender_uid_leaf_Inr by simp
  moreover have "check_destination (dests @ leaves_after_sender e) program = Inr (destination, leaves_after_sender e)"
    using steps(2)[unfolded r1] dests(2,3) e(2) by (auto simp: check_destination_def split: if_splits)
  moreover have "check_sender (leaves_after_sender e) destination = Inr (leaves_after_sender e)"
    using dest(3) dests(2) e(2) by (auto simp: leaves_after_sender_head)
  ultimately show ?thesis
    unfolding check_leaves_Inr dests(1) using program steps(4,5,6) by auto
qed

lemma editor_accepts_without_uid:
  assumes accepted: "validate_user_rule lib r Editor = Inr ()"
    and r: "r_operator r = Some (Operator (lit ''list'') (lit ''list'') [] False (path_leaf p # xs @ uid_leaf a # ys))"
  shows "validate_user_rule lib (r\<lparr> r_operator := Some (Operator (lit ''list'') (lit ''list'') [] False (path_leaf p # xs @ ys)) \<rparr>) Editor = Inr ()"
proof -
  let ?op = "\<lambda>us. Operator (lit ''list'') (lit ''list'') [] False (path_leaf p # xs @ us @ ys)"
  obtain op where "r_operator r = Some op" "validate_operator lib op = Inr ()" "check_import_operator lib op Editor = []"
    using accepted_operator[OF accepted] by blast
  then have ok: "validate_list lib (?op [uid_leaf a]) = Inr ()" "check_import_operator lib (?op [uid_leaf a]) Editor = []"
    using r by (auto simp: validate_operator_def)
  have path: "op_operand (path_leaf p) \<notin> set HASH_OPERANDS" "op_operand (path_leaf p) \<noteq> lit ''true''" "narrows lib (path_leaf p)"
    using answer_operands(9) by (auto simp: path_leaf_def narrows_def)
  have "validate_list lib (?op []) = Inr ()"
    using ok(1) path by (auto simp: validate_list_Inr)
  moreover have "check_import_operator lib (?op []) Editor = []"
    using ok(2) path by (auto simp: check_editor_operator_list)
  moreover have "within_limits (r\<lparr> r_operator := Some (?op []) \<rparr>)" if "within_limits r"
    using that r by (auto simp: within_limits_def)
  ultimately show ?thesis
    using accepted r by (auto simp: validate_user_rule_def check_rule_def validate_operator_def Let_def split: if_splits)
qed

lemma installed_leaves:
  assumes "ce_sender e \<noteq> None"
  obtains u where "r_operator (rule_as e (Some 1)) = Some (Operator (lit ''list'') (lit ''list'') [] False
      (leaves_before_sender e @ uid_leaf u # leaves_after_sender e))"
proof -
  from assms obtain sender where "ce_sender e = Some sender" by blast
  then show ?thesis
    using that[of 1] that[of "case sender of UserId uid \<Rightarrow> uid | Account _ \<Rightarrow> 1"]
    by (cases sender) (auto simp: rule_as_def entry_build_def build_leaves_split)
qed

lemma legacy_rule_passes:
  assumes checked: "entry_check lib e = Inr ()" and old: "legacy_rule e = Some old"
  shows "check_curated_rule lib old = Inr ()"
proof -
  have e: "ce_sender e \<noteq> None" "\<not> ce_any_address e" "old = entry_build e None"
    using old by (auto simp: legacy_rule_def split: if_splits)
  have ok: "check_curated_rule lib (rule_as e (Some 1)) = Inr ()" "destinations_of e = 1"
    using checked by (auto simp: entry_check_def split: if_splits)
  obtain u where op: "r_operator (rule_as e (Some 1)) = Some (Operator (lit ''list'') (lit ''list'') [] False
      (leaves_before_sender e @ uid_leaf u # leaves_after_sender e))" using installed_leaves[OF e(1)] by blast
  have rule: "old = (rule_as e (Some 1))\<lparr> r_operator := Some (Operator (lit ''list'') (lit ''list'') [] False
      (leaves_before_sender e @ leaves_after_sender e)) \<rparr>"
    by (simp add: e(3) rule_as_def entry_build_def build_leaves_split)
  obtain dests where dests: "leaves_before_sender e = path_leaf (ce_path e) # dests"
    using destination_before_sender[OF ok(2)] by blast
  obtain ident where ident: "strip_curated (r_name (rule_as e (Some 1))) = Some ident" "valid_id ident"
    "check_leaves (leaves_before_sender e @ uid_leaf u # leaves_after_sender e) = Inr ()"
    "validate_user_rule lib ((rule_as e (Some 1))\<lparr> r_name := lit ''curated-check-'' @ ident \<rparr>) Editor = Inr ()"
    using ok(1) op by (auto simp: check_curated_rule_def split: option.splits if_splits sum.splits)
  have "r_operator ((rule_as e (Some 1))\<lparr> r_name := lit ''curated-check-'' @ ident \<rparr>) =
      Some (Operator (lit ''list'') (lit ''list'') [] False (path_leaf (ce_path e) # dests @ uid_leaf u # leaves_after_sender e))"
    using op dests by simp
  from editor_accepts_without_uid[OF ident(4) this]
  have "validate_user_rule lib (old\<lparr> r_name := lit ''curated-check-'' @ ident \<rparr>) Editor = Inr ()"
    unfolding rule rule_update_swap dests by simp
  then show ?thesis
    using ok(1) op ident check_leaves_without_uid[OF ident(3) ok(2) e(2)]
    by (auto simp: check_curated_rule_def rule split: option.splits if_splits sum.splits)
qed

text \<open>An unedited copy is the entry's rule at the user ID it names.\<close>

lemma unedited_copy:
  assumes checked: "entry_check lib e = Inr ()" and ours: "rule_matching e current = Some ours"
    and uid: "broad e \<longrightarrow> sender_uid current \<noteq> Some 0"
  shows "check_curated_rule lib ours = Inr ()" "rule_matching e ours = Some ours" "r_name ours = entry_rule_name e"
proof -
  obtain u where u: "ours = rule_as e (Some u)" "u \<le> U32_MAX" "ce_any_address e \<longrightarrow> 0 < u"
    "entry_account e = None \<or> sender_uid current = Some u"
  proof (cases "entry_account e")
    case None
    then have "ours = rule_as e (Some 1)"
      using ours by (auto simp: rule_matching_def entry_rule_def rule_as_def entry_account_def
          split: option.splits curated_sender.splits)
    then show ?thesis using that[of 1] None by (auto simp: U32_MAX_def)
  next
    case (Some name)
    then obtain uid where "sender_uid current = Some uid" "ours = rule_as e (Some uid)"
      using ours by (auto simp: rule_matching_def entry_account_def split: option.splits curated_sender.splits)
    then show ?thesis using that[of uid] sender_uid_bound uid by (auto simp: broad_def)
  qed
  show "check_curated_rule lib ours = Inr ()"
    using checked_entries_install_at_any_uid[OF checked u(2,3)] u(1) by simp
  show "r_name ours = entry_rule_name e" using u(1) entry_rule_fields by simp
  show "rule_matching e ours = Some ours"
    using u(1,2) sender_uid_of_install[of e _ u]
    by (auto simp: rule_matching_def entry_rule_def rule_as_def entry_account_def split: option.splits curated_sender.splits)
qed

text \<open>
  Turning a recommended rule on or off from the Rules page sends the reviewed rule and
  nothing else: the command carries one rule that means to the daemon what the listed copy
  means, with the switch turned and the copy's creation time, and it passes the check at
  the send point. (The one rule that may reach any address is turned on by its own path,
  and a copy of it for root is never sent.)
\<close>

theorem curated_toggles_pass:
  assumes toggle: "toggle_command lib (curated_entries lib f) current switch = Some c"
    and broad: "\<And>e. entry_for_rule_name (curated_entries lib f) (r_name current) = Some e \<Longrightarrow> broad e \<Longrightarrow>
        \<not> switch \<and> sender_uid current \<noteq> Some 0"
  shows "\<exists>r. n_rules (cc_notification c) = [r] \<and> canonical lib r = canonical lib current
    \<and> r_enabled r = switch \<and> r_created r = r_created current
    \<and> curated_check lib (curated_entries lib f) c = Inr ()"
proof -
  let ?es = "curated_entries lib f"
  obtain e where e: "entry_for_rule_name ?es (r_name current) = Some e" "curated_toggleable lib ?es current"
    using toggle by (auto simp: toggle_command_def split: if_splits option.splits)
  then have "e \<in> set ?es \<and> entry_rule_name e = r_name current"
    using find_Some_set[of "\<lambda>e. entry_rule_name e = r_name current" ?es e] by (simp add: entry_for_rule_name_def)
  then have checked: "entry_check lib e = Inr ()" and name: "entry_rule_name e = r_name current"
    using offered_entries_checked by auto
  obtain base where base: "c = curated_change (base\<lparr> r_enabled := switch, r_created := r_created current \<rparr>)"
    "canonical lib base = canonical lib current" "check_curated_rule lib base = Inr ()" "r_name base = entry_rule_name e"
    "is_unedited lib (Some e) None base \<or> (\<not> switch \<and> is_legacy lib e base)"
  proof (cases "is_unedited lib (Some e) None current")
    case True
    then obtain ours where ours: "rule_matching e current = Some ours" "canonical lib current = canonical lib ours"
      by (auto simp: is_unedited_def Let_def split: option.splits)
    have uid: "broad e \<longrightarrow> sender_uid current \<noteq> Some 0" using broad[OF e(1)] by blast
    show ?thesis
      using that[of ours] toggle e True ours unedited_copy[OF checked ours(1) uid]
      by (simp add: toggle_command_def is_unedited_def)
  next
    case False
    then obtain old where old: "legacy_rule e = Some old" "canonical lib current = canonical lib old" "\<not> switch"
      using toggle e by (auto simp: toggle_command_def curated_toggleable_def is_legacy_def split: option.splits if_splits)
    show ?thesis
      using that[of old] toggle e False old legacy_rule_passes[OF checked old(1)] entry_rule_fields(4)[OF old(1)]
      by (simp add: toggle_command_def is_legacy_def)
  qed
  let ?r = "base\<lparr> r_enabled := switch, r_created := r_created current \<rparr>"
  have "valid_id (ce_id e)" using checked by (auto simp: entry_check_def split: if_splits)
  then have "validate_rule_name (r_name ?r) = Inr ()" using base(4) validated_name_short by (simp add: entry_rule_name_def)
  moreover have "is_unedited lib (Some e) None ?r \<or> (\<not> r_enabled ?r \<and> is_legacy lib e ?r)"
    using base(5) by (auto simp: is_unedited_def is_legacy_def checks_ignore_switch split: option.splits)
  moreover have "\<not> broad_rule ?es ?r" using base(4) name e(1) broad[OF e(1)] by (auto simp: broad_rule_def)
  ultimately have "curated_check lib ?es c = Inr ()"
    using base(1,3,4) name e(1) by (simp add: curated_check_def curated_change_def command_of_def checks_ignore_switch)
  then show ?thesis using base(1,2) by (simp add: curated_change_def command_of_def checks_ignore_switch)
qed

definition example_file :: data_file where
  "example_file = \<lparr> df_version = 1,
     df_groups = [\<lparr> cg_id = lit ''name-resolution'', cg_title = lit ''Name resolution'', cg_description = lit ''DNS'' \<rparr>],
     df_entries = [example_entry] \<rparr>"

theorem curated_toggles_pass_witness:
  "\<exists>c r. toggle_command domain_regex (curated_entries domain_regex example_file) (rule_as example_entry (Some 990)) False = Some c
     \<and> n_rules (cc_notification c) = [r] \<and> \<not> r_enabled r
     \<and> curated_check domain_regex (curated_entries domain_regex example_file) c = Inr ()"
proof -
  let ?es = "curated_entries domain_regex example_file" and ?r = "rule_as example_entry (Some 990)"
  have "toggle_command domain_regex ?es ?r False \<noteq> None" by code_simp
  then obtain c where c: "toggle_command domain_regex ?es ?r False = Some c" by blast
  have "sender_uid ?r \<noteq> Some 0" by code_simp
  then show ?thesis using curated_toggles_pass[OF c] c by blast
qed

end
