(* ===== verification/Rules_Sync_Props.thy ===== *)
theory Rules_Sync_Props
  imports Rules_Sync
begin

text \<open>
  Properties of the rule list as the bridge runs it: the list, its staged snapshots and its
  publishers are one state machine whose steps are the methods of \<open>Rules_Sync\<close>.

  \<^item> the revision tells every change of the list;
  \<^item> a GUI that applies the broadcasts in order shows the list the bridge holds;
  \<^item> staged snapshots are bounded, one per connection, adopted at most once per stream;
  \<^item> adopting a snapshot again after changes loses no rule.
\<close>

section \<open>The machine\<close>

text \<open>
  A \<open>Subscribe\<close> takes a receipt at once and stages its rules later, possibly after newer
  ones: the receipts not yet staged are part of the state.

  The events are the calls of \<open>RulesSync\<close>. Two places write the shared cache beside it and are
  not among them: a pass of the shipped defaults takes back the mark of a file that never was
  (\<open>forget_file_left\<close>, in \<open>Curated_Worker\<close>), and a lost edit takes its rule off the list
  (\<open>remove_rule\<close>, the \<open>cr_forget\<close> of \<open>Rule_Edits\<close>). Both bump the revision of the cache if they change it.
\<close>

record sync_world =
  sw_sync :: rules_sync
  sw_receipts :: "receipt list"

datatype sync_event =
  Subscribe
| Stage nat conn_key "rule list"
| Hello conn_key stream_id
| Readopt conn_key stream_id
| Withdraw
| PromptAnswer rule
| ConfirmedReply notification
| RefusedReply notification
| CountPing nat nat nat
| HitPing "event list" nat nat
| PruneTick
| Hold
| DropHold
| Settled "command_error + unit"

definition new_sync_world :: sync_world where
  "new_sync_world = \<lparr> sw_sync = new_sync, sw_receipts = [] \<rparr>"

fun sync_op :: "sync_clock \<Rightarrow> sync_event \<Rightarrow> rules_sync \<Rightarrow> rules_sync" where
  "sync_op ck (Hello key stream) s = fst (sync_commit key stream ck s)"
| "sync_op ck (Readopt key stream) s = fst (sync_readopt key stream ck s)"
| "sync_op ck Withdraw s = sync_withdraw s"
| "sync_op ck (PromptAnswer r) s = sync_upsert r ck s"
| "sync_op ck (ConfirmedReply sent) s = sync_apply_confirmed sent ck s"
| "sync_op ck (RefusedReply sent) s = sync_apply_refused sent ck s"
| "sync_op ck (CountPing reported up in_flight) s = observe_daemon_rules reported up in_flight ck s"
| "sync_op ck (HitPing evs up hits) s = sync_record_hits evs up hits ck s"
| "sync_op ck PruneTick s = prune_tick ck s"
| "sync_op ck Hold s = hold_publishes s"
| "sync_op ck DropHold s = (if rs_holds s = 0 then s else drop_hold s)"
| "sync_op ck (Settled outcome) s = settle_rule_command outcome s"
| "sync_op ck _ s = s"

fun sync_step :: "(rule \<Rightarrow> nat) \<Rightarrow> sync_world \<Rightarrow> sync_clock \<times> sync_event \<Rightarrow> sync_world" where
  "sync_step len w (ck, Subscribe) =
     (let (s, r) = sync_receive (sw_sync w) in \<lparr> sw_sync = s, sw_receipts = sw_receipts w @ [r] \<rparr>)"
| "sync_step len w (ck, Stage i key rules) =
     (if i < length (sw_receipts w)
      then \<lparr> sw_sync = sync_stage_received len key rules (sw_receipts w ! i) ck (sw_sync w),
             sw_receipts = take i (sw_receipts w) @ drop (Suc i) (sw_receipts w) \<rparr>
      else w)"
| "sync_step len w (ck, e) = w\<lparr> sw_sync := sync_op ck e (sw_sync w) \<rparr>"

definition sync_run :: "(rule \<Rightarrow> nat) \<Rightarrow> (sync_clock \<times> sync_event) list \<Rightarrow> sync_world" where
  "sync_run len es = foldl (sync_step len) new_sync_world es"

lemma sync_run_simps [simp]:
  "sync_run len [] = new_sync_world"
  "sync_run len (es @ [e]) = sync_step len (sync_run len es) e"
  by (simp_all add: sync_run_def)

text \<open>A step acts on the staging alone, or is one operation.\<close>

lemma sync_step_cases:
  obtains (receive) "e = Subscribe" | (stage) i key rules where "e = Stage i key rules"
  | (op) "sync_step len w (ck, e) = w\<lparr> sw_sync := sync_op ck e (sw_sync w) \<rparr>"
  by (cases e) auto

section \<open>The revision\<close>

lemma sound_frame:
  assumes "listing c' = listing c" "rc_revision c' = rc_revision c" "rc_expiries c' = rc_expiries c"
    "rc_may_hold c' = rc_may_hold c" "rc_files_left_held c' = rc_files_left_held c"
    "rc_files_left_revisions c' = rc_files_left_revisions c"
  shows "sound_change c c'"
  using assms
  by (cases "rc_rules c") (auto simp: sound_change_def rules_inv_def list_inv_def files_inv_def advances_def listing_def)

lemma adopt_cache_sound:
  assumes "rules_inv c"
  shows "rules_inv (adopt_cache snap clock c) \<and> rc_revision c < rc_revision (adopt_cache snap clock c)"
proof -
  let ?a = "replace_all_at_revision (sn_rules snap) (sn_observed_revision snap) clock c"
  let ?b = "set_left_out_at_revision (sn_left_out snap) (sn_observed_revision snap) ?a"
  let ?c = "?b\<lparr> rc_left_out_temporary := sn_left_out_temporary snap \<rparr>"
  have a: "rules_inv ?a" "rc_revision c < rc_revision ?a" "rc_rules ?a \<noteq> None"
    using replace_all_sound[OF assms] by simp_all
  have "rules_inv ?b" "rc_revision ?a \<le> rc_revision ?b"
    using set_left_out_sound[OF a(1,3)] by simp_all
  moreover have "sound_change ?b ?c" by (rule sound_frame) (simp_all add: listing_def)
  ultimately have c: "rules_inv ?c" "rc_revision c < rc_revision ?c"
    using a(2) by (auto simp: sound_change_def)
  have "sound_change ?c (journal_replay clock (sn_journal snap) ?c)" by simp
  with c show ?thesis
    by (auto simp: adopt_cache_def Let_def sound_change_def advances_def)
qed

lemma sound_adopt_cache [simp]: "sound_change c (adopt_cache snap clock c)"
  using adopt_cache_sound by (simp add: sound_change_def advances_def)

lemma cache_frames [simp]:
  "rs_cache (broadcast ms s) = rs_cache s" "rs_cache (publish_rules s) = rs_cache s"
  "rs_cache (forget_hits ns s) = rs_cache s" "rs_cache (sync_record x s) = rs_cache s"
  "rs_cache (publish_after_command s) = rs_cache s" "rs_cache (publish_held_changes s) = rs_cache s"
  "rs_cache (drop_hold s) = rs_cache s" "rs_cache (hold_publishes s) = rs_cache s"
  "rs_cache (sync_record_hits evs up h ck s) = rs_cache s"
  "rs_cache (settle_rule_command outcome s) = rs_cache s"
  "rs_cache (sync_stage_received len key rules r ck s) = rs_cache s"
  "rs_cache (fst (sync_receive s)) = rs_cache s"
  by (simp_all add: broadcast_def publish_rules_def forget_hits_def sync_record_def publish_after_command_def
      publish_held_changes_def drop_hold_def hold_publishes_def sync_record_hits_def settle_rule_command_def
      sync_stage_received_def sync_receive_def Let_def pending_receive_def split: sum.split)

lemma sound_sequence [simp]: "sound_change c (c\<lparr> rc_snapshot_sequence := n \<rparr>)"
  by (rule sound_frame) (simp_all add: listing_def)

lemma sound_over_limit [simp]: "sound_change c (c\<lparr> rc_over_limit_total := t \<rparr>)"
  by (rule sound_frame) (simp_all add: listing_def)

lemma sound_adopt [simp]: "sound_change (rs_cache s) (rs_cache (fst (sync_adopt snap ck s)))"
proof (cases "sn_over_limit snap")
  case None
  have "sound_change (rs_cache s)
      (adopt_cache snap (ck_mono ck) ((rs_cache s)\<lparr> rc_snapshot_sequence := sn_sequence snap \<rparr>))"
    by (rule sound_trans[OF sound_sequence sound_adopt_cache])
  then show ?thesis by (simp add: sync_adopt_def Let_def None)
next
  case (Some t)
  let ?c = "(rs_cache s)\<lparr> rc_snapshot_sequence := sn_sequence snap \<rparr>"
  have "sound_change (rs_cache s) (?c\<lparr> rc_over_limit_total := Some t \<rparr>)"
    by (rule sound_trans[OF sound_sequence sound_over_limit])
  moreover have "sound_change (rs_cache s) ((set_unknown ?c)\<lparr> rc_over_limit_total := Some t \<rparr>)"
    by (rule sound_trans[OF sound_trans[OF sound_sequence sound_set_unknown] sound_over_limit])
  ultimately show ?thesis by (simp add: sync_adopt_def Let_def Some)
qed

lemma sound_withdraw [simp]: "sound_change (rs_cache s) (rs_cache (sync_withdraw s))"
proof -
  have "sound_change (rs_cache s) (set_unknown ((rs_cache s)\<lparr> rc_over_limit_total := None \<rparr>))"
    by (rule sound_trans[OF sound_over_limit sound_set_unknown])
  then show ?thesis by (simp add: sync_withdraw_def Let_def)
qed

lemma sound_prompt [simp]: "sound_change (rs_cache s) (rs_cache (sync_upsert r ck s))"
proof -
  have "sound_change (rs_cache s)
      (upsert_at r (ck_secs ck) (ck_mono ck) (note_prompt_answer (r_name r) (rs_cache s)))"
    by (rule sound_trans[OF sound_prompt_answer sound_upsert])
  then show ?thesis by (simp add: sync_upsert_def Let_def)
qed

lemma sound_adopt_pending [simp]:
  "sound_change (rs_cache s) (rs_cache (fst (sync_adopt snap ck (s\<lparr> rs_pending := p \<rparr>))))"
  using sound_adopt[of "s\<lparr> rs_pending := p \<rparr>"] by simp

lemma sound_op: "sound_change (rs_cache s) (rs_cache (sync_op ck e s))"
  by (cases e)
     (simp_all add: sync_commit_def sync_readopt_def sync_apply_confirmed_def sync_apply_refused_def
        observe_daemon_rules_def prune_tick_def Let_def case_prod_beta split: option.split)

lemma sound_step: "sound_change (rs_cache (sw_sync w)) (rs_cache (sw_sync (sync_step len w (ck, e))))"
  by (cases rule: sync_step_cases[where e = e and len = len and w = w and ck = ck]) (simp_all add: case_prod_beta sound_op)

text \<open>
  The contract of a revision counter: whatever is done to the state, a reader who sees the
  same revision twice has missed nothing in between.
\<close>

locale versioned = state_machine init step inv
  for init :: "'s \<Rightarrow> bool" and step :: "'s \<Rightarrow> 'e \<Rightarrow> 's" and inv :: "'s \<Rightarrow> bool" +
  fixes version :: "'s \<Rightarrow> nat"
    and view :: "'s \<Rightarrow> 'v"
  assumes step_advances: "inv s \<Longrightarrow>
    version s < version (step s e) \<or> (version (step s e) = version s \<and> view (step s e) = view s)"
begin

lemma run_advances:
  "inv s \<Longrightarrow> version s \<le> version (foldl step s es)
     \<and> (version (foldl step s es) = version s \<longrightarrow> view (foldl step s es) = view s)"
proof (induction es arbitrary: s)
  case (Cons e es)
  from Cons.IH[OF inv_step[OF Cons.prems, of e]] step_advances[OF Cons.prems, of e] show ?case by auto
qed simp

lemma same_version_same_view:
  assumes "init s" "version (foldl step s (es @ es')) = version (foldl step s es)"
  shows "view (foldl step s (es @ es')) = view (foldl step s es)"
  using run_advances[OF inv_reachable[OF assms(1), of es], of es'] assms(2) by simp

end

interpretation rules_version: versioned "\<lambda>w. w = new_sync_world" "sync_step len"
  "\<lambda>w. rules_inv (rs_cache (sw_sync w))" "\<lambda>w. rc_revision (rs_cache (sw_sync w))"
  "\<lambda>w. listing (rs_cache (sw_sync w))" for len :: "rule \<Rightarrow> nat"
proof unfold_locales
  fix w :: sync_world and e :: "sync_clock \<times> sync_event"
  obtain ck ev where e: "e = (ck, ev)" by (cases e)
  have sound: "sound_change (rs_cache (sw_sync w)) (rs_cache (sw_sync (sync_step len w e)))"
    unfolding e by (rule sound_step)
  show "w = new_sync_world \<Longrightarrow> rules_inv (rs_cache (sw_sync w))"
    by (simp add: new_sync_world_def new_sync_def)
  assume "rules_inv (rs_cache (sw_sync w))"
  with sound show "rules_inv (rs_cache (sw_sync (sync_step len w e)))"
    and "rc_revision (rs_cache (sw_sync w)) < rc_revision (rs_cache (sw_sync (sync_step len w e)))
      \<or> (rc_revision (rs_cache (sw_sync (sync_step len w e))) = rc_revision (rs_cache (sw_sync w))
         \<and> listing (rs_cache (sw_sync (sync_step len w e))) = listing (rs_cache (sw_sync w)))"
    by (auto simp: sound_change_def advances_def)
qed

text \<open>
  The revision tells every change: between two moments at which the list has the same
  revision, whatever snapshots were adopted or withdrawn, commands answered, prompts
  remembered and timers run out, neither the rules nor the rules left out nor the marked
  files have changed.
\<close>

theorem revision_tells_changes:
  assumes "rc_revision (rs_cache (sw_sync (sync_run len (es @ es')))) = rc_revision (rs_cache (sw_sync (sync_run len es)))"
  shows "rc_rules (rs_cache (sw_sync (sync_run len (es @ es')))) = rc_rules (rs_cache (sw_sync (sync_run len es)))
     \<and> rc_left_out (rs_cache (sw_sync (sync_run len (es @ es')))) = rc_left_out (rs_cache (sw_sync (sync_run len es)))
     \<and> rc_files_left (rs_cache (sw_sync (sync_run len (es @ es')))) = rc_files_left (rs_cache (sw_sync (sync_run len es)))"
  using rules_version.same_version_same_view[OF refl, of len es es'] assms
  unfolding sync_run_def listing_def by simp

definition at_second :: "nat \<Rightarrow> sync_clock" where
  "at_second n = \<lparr> ck_secs = int n, ck_ms = 1000 * int n, ck_mono = n * NANOS \<rparr>"

theorem revision_tells_changes_witness:
  "rc_rules (rs_cache (sw_sync (sync_run (\<lambda>_. 0) [(at_second 1, Subscribe), (at_second 1, Stage 0 None [example_temporary]),
      (at_second 2, Hello None 1), (at_second 3, Hello None 1)])))
   = rc_rules (rs_cache (sw_sync (sync_run (\<lambda>_. 0) [(at_second 1, Subscribe), (at_second 1, Stage 0 None [example_temporary]),
      (at_second 2, Hello None 1)])))"
proof -
  let ?es = "[(at_second 1, Subscribe), (at_second 1, Stage 0 None [example_temporary]), (at_second 2, Hello None 1)]"
  have "rc_revision (rs_cache (sw_sync (sync_run (\<lambda>_. 0) (?es @ [(at_second 3, Hello None 1)]))))
      = rc_revision (rs_cache (sw_sync (sync_run (\<lambda>_. 0) ?es)))"
    by code_simp
  from revision_tells_changes[OF this] show ?thesis by simp
qed

section \<open>What the GUIs show\<close>

text \<open>A client that applies every broadcast in order, from an empty list.\<close>

fun gui_apply :: "rules_message \<Rightarrow> (rstr, rule) fmap \<Rightarrow> (rstr, rule) fmap" where
  "gui_apply (SetRules rs) m = fm_collect (map (\<lambda>r. (r_name r, r)) rs)"
| "gui_apply (UpdateRules rs) m = fold (\<lambda>r. fmupd (r_name r) r) rs m"
| "gui_apply (RulesNotShown n) m = m"

fun gui_note :: "rules_message \<Rightarrow> rules_not_shown \<Rightarrow> rules_not_shown" where
  "gui_note (RulesNotShown n) old = n"
| "gui_note _ old = old"

definition gui_list :: "rules_message list \<Rightarrow> (rstr, rule) fmap" where
  "gui_list sent = fold gui_apply sent fmempty"

definition gui_not_shown :: "rules_message list \<Rightarrow> rules_not_shown" where
  "gui_not_shown sent = fold gui_note sent (not_shown new_rules_cache)"

definition listed :: "rules_cache \<Rightarrow> (rstr, rule) fmap" where
  "listed c = (case rc_rules c of None \<Rightarrow> fmempty | Some rs \<Rightarrow> rs)"

definition notes_ok :: "rules_not_shown \<Rightarrow> rules_cache \<Rightarrow> bool" where
  "notes_ok n c \<longleftrightarrow> n\<lparr> ns_too_large := ns_too_large (not_shown c) \<rparr> = not_shown c
     \<and> ns_too_large (not_shown c) \<le> ns_too_large n"

definition gui_ok :: "rules_sync \<Rightarrow> bool" where
  "gui_ok s \<longleftrightarrow> gui_list (rs_sent s) = listed (rs_cache s) \<and> notes_ok (gui_not_shown (rs_sent s)) (rs_cache s)"

definition gui_inv :: "rules_sync \<Rightarrow> bool" where
  "gui_inv s \<longleftrightarrow> rules_inv (rs_cache s) \<and> (rs_held_changes s \<longrightarrow> 0 < rs_holds s)
     \<and> (\<not> rs_held_changes s \<longrightarrow> gui_ok s)"

lemma gui_broadcast [simp]:
  "gui_list (rs_sent (broadcast ms s)) = fold gui_apply ms (gui_list (rs_sent s))"
  "gui_not_shown (rs_sent (broadcast ms s)) = fold gui_note ms (gui_not_shown (rs_sent s))"
  by (simp_all add: broadcast_def gui_list_def gui_not_shown_def)

lemma notes_ok_refl [simp]: "notes_ok (not_shown c) c"
  by (simp add: notes_ok_def)

lemma notes_ok_smaller:
  assumes "notes_ok n c" "(not_shown c')\<lparr> ns_too_large := ns_too_large (not_shown c) \<rparr> = not_shown c"
    "ns_too_large (not_shown c') \<le> ns_too_large (not_shown c)"
  shows "notes_ok n c'"
  using assms by (cases n; cases "not_shown c"; cases "not_shown c'") (auto simp: notes_ok_def)

lemma collect_wire:
  assumes "\<forall>n r. fmlookup rs n = Some r \<longrightarrow> r_name r = n"
  shows "fm_collect (map (\<lambda>r. (r_name r, r)) (map (\<lambda>n. the (fmlookup rs n)) (fm_keys rs))) = rs"
proof (rule fmap_ext)
  fix k
  have "map (\<lambda>r. (r_name r, r)) (map (\<lambda>n. the (fmlookup rs n)) (fm_keys rs)) = fm_entries rs"
    using assms by (auto simp: fm_entries_def fmlookup_dom_iff)
  then show "fmlookup (fm_collect (map (\<lambda>r. (r_name r, r)) (map (\<lambda>n. the (fmlookup rs n)) (fm_keys rs)))) k = fmlookup rs k"
    by (simp add: map_of_rev_distinct)
qed

lemma gui_publish: "rules_inv (rs_cache s) \<Longrightarrow> gui_ok (publish_rules s)"
  by (cases "rc_rules (rs_cache s)")
     (simp_all add: gui_ok_def publish_rules_def snapshot_wire_def listed_def fm_collect_def[of "[]"]
        collect_wire[unfolded map_map] rules_inv_def list_inv_def)

lemma gui_ok_frame:
  assumes "gui_ok s" "rs_sent s' = rs_sent s" "rc_rules (rs_cache s') = rc_rules (rs_cache s)"
    "not_shown (rs_cache s') = not_shown (rs_cache s)"
  shows "gui_ok s'"
  using assms by (simp add: gui_ok_def listed_def notes_ok_def)

lemma publish_frames [simp]:
  "rs_held_changes (publish_rules s) = rs_held_changes s" "rs_holds (publish_rules s) = rs_holds s"
  "rs_held_changes (broadcast ms s) = rs_held_changes s" "rs_holds (broadcast ms s) = rs_holds s"
  "rs_held_changes (forget_hits ns s) = rs_held_changes s" "rs_holds (forget_hits ns s) = rs_holds s"
  "rs_held_changes (sync_record x s) = rs_held_changes s" "rs_holds (sync_record x s) = rs_holds s"
  "rs_sent (forget_hits ns s) = rs_sent s" "rs_sent (sync_record x s) = rs_sent s"
  by (simp_all add: publish_rules_def broadcast_def forget_hits_def sync_record_def)

lemma gui_inv_publish:
  "rules_inv (rs_cache s) \<Longrightarrow> (rs_held_changes s \<Longrightarrow> 0 < rs_holds s) \<Longrightarrow> gui_inv (publish_rules s)"
  using gui_publish[of s] by (auto simp: gui_inv_def)

lemma gui_inv_after_command:
  "rules_inv (rs_cache s) \<Longrightarrow> (rs_held_changes s \<Longrightarrow> 0 < rs_holds s) \<Longrightarrow> gui_inv (publish_after_command s)"
  using gui_publish[of s] by (auto simp: publish_after_command_def gui_inv_def)

text \<open>What the operations on the list leave of the hint and of the over-limit count.\<close>

definition hints :: "rules_cache \<Rightarrow> nat option \<times> count_watch" where
  "hints c = (rc_over_limit_total c, rc_count_watch c)"

lemma hints_frames [simp]:
  "hints (bump c) = hints c" "hints (forget_file_left n c) = hints c" "hints (mark_file_left n c) = hints c"
  "hints (remove_rule n c) = hints c" "hints (upsert_at r now clock c) = hints c"
  "hints (note_maybe_applied n c) = hints c" "hints (note_prompt_answer n c) = hints c"
  "hints (c\<lparr> rc_files_left_held := x \<rparr>) = hints c"
  by (simp_all add: hints_def bump_def forget_file_left_def mark_file_left_def remove_rule_def upsert_at_def
      note_maybe_applied_def note_prompt_answer_def Let_def split: option.split)

lemma hints_fold: "(\<And>x c. hints (f x c) = hints c) \<Longrightarrow> hints (fold f xs c) = hints c"
  by (induction xs arbitrary: c) simp_all

lemma hints_refused [simp]: "hints (fst (apply_refused_at sent now clock c)) = hints c"
proof -
  have "hints (apply_not_saved_rule now clock r c) = hints c" for r c
    by (simp add: apply_not_saved_rule_def)
  then show ?thesis
    by (simp add: apply_refused_at_def Let_def hints_fold split: refused_effect.split)
qed

lemma not_shown_same: "listing c' = listing c \<Longrightarrow> hints c' = hints c \<Longrightarrow> not_shown c' = not_shown c"
  by (simp add: not_shown_def listing_def hints_def is_unknown_def count_mismatch_def)

lemma gui_inv_held: "gui_inv s \<Longrightarrow> rs_held_changes s \<Longrightarrow> 0 < rs_holds s"
  and gui_inv_rules: "gui_inv s \<Longrightarrow> rules_inv (rs_cache s)"
  by (auto simp: gui_inv_def)

lemma gui_inv_same:
  assumes "gui_inv s" "rs_sent s' = rs_sent s" "rs_cache s' = rs_cache s"
    "rs_holds s' = rs_holds s" "rs_held_changes s' = rs_held_changes s"
  shows "gui_inv s'"
  using assms by (simp add: gui_inv_def gui_ok_def)

lemma rules_inv_sound: "sound_change c c' \<Longrightarrow> rules_inv c \<Longrightarrow> rules_inv c'"
  by (simp add: sound_change_def)

lemma gui_inv_confirmed: "gui_inv s \<Longrightarrow> gui_inv (sync_apply_confirmed sent ck s)"
  unfolding sync_apply_confirmed_def Let_def
  by (rule gui_inv_after_command) (auto simp: gui_inv_def rules_inv_sound[OF sound_confirmed] split: if_splits)

lemma gui_inv_refused:
  assumes "gui_inv s"
  shows "gui_inv (sync_apply_refused sent ck s)"
proof -
  define c where "c = fst (apply_refused_at sent (ck_secs ck) (ck_mono ck) (rs_cache s))"
  define s' where "s' = (let s = sync_record (Refused sent (ck_secs ck)) (s\<lparr> rs_cache := c \<rparr>)
     in if refused_effect_of sent = Removed then forget_hits (map r_name (n_rules sent)) s else s)"
  have s': "rs_cache s' = c" "rs_sent s' = rs_sent s" "rs_holds s' = rs_holds s"
    "rs_held_changes s' = rs_held_changes s"
    by (simp_all add: s'_def Let_def)
  have eq: "sync_apply_refused sent ck s =
      (if snd (apply_refused_at sent (ck_secs ck) (ck_mono ck) (rs_cache s)) then publish_after_command s' else s')"
    by (simp add: sync_apply_refused_def s'_def c_def Let_def case_prod_beta)
  have inv: "rules_inv c" using assms sound_refused by (simp add: gui_inv_def c_def sound_change_def)
  have "gui_inv s'" if "\<not> snd (apply_refused_at sent (ck_secs ck) (ck_mono ck) (rs_cache s))"
  proof -
    have "rc_revision c = rc_revision (rs_cache s)" using that by (simp add: c_def apply_refused_at_def Let_def)
    then have "listing c = listing (rs_cache s)"
      using sound_refused[of "rs_cache s" sent "ck_secs ck" "ck_mono ck"] gui_inv_rules[OF assms]
      unfolding c_def[symmetric] by (simp add: sound_change_def advances_def)
    moreover have "hints c = hints (rs_cache s)" by (simp add: c_def)
    ultimately have "not_shown c = not_shown (rs_cache s)" by (rule not_shown_same)
    moreover have "rc_rules c = rc_rules (rs_cache s)"
      using \<open>listing c = listing (rs_cache s)\<close> by (simp add: listing_def)
    ultimately have "gui_ok s \<Longrightarrow> gui_ok s'" by (simp add: gui_ok_def s' listed_def notes_ok_def)
    with assms inv show ?thesis by (simp add: gui_inv_def s')
  qed
  moreover have "gui_inv (publish_after_command s')"
    by (rule gui_inv_after_command) (use inv assms in \<open>simp_all add: s' gui_inv_def\<close>)
  ultimately show ?thesis unfolding eq by simp
qed

lemma gui_inv_prune:
  assumes "gui_inv s"
  shows "gui_inv (prune_tick ck s)"
proof (cases "snd (prune_expired_at (ck_secs ck) (ck_mono ck) (rs_cache s)) = []")
  case True
  then have "fst (prune_expired_at (ck_secs ck) (ck_mono ck) (rs_cache s)) = rs_cache s"
    by (auto simp: prune_expired_at_def Let_def split: if_splits)
  with True show ?thesis
    by (intro gui_inv_same[OF assms]) (simp_all add: prune_tick_def case_prod_beta Let_def)
next
  case False
  have "rules_inv (fst (prune_expired_at (ck_secs ck) (ck_mono ck) (rs_cache s)))"
    using assms sound_prune by (simp add: gui_inv_def sound_change_def)
  with False show ?thesis
    unfolding prune_tick_def Let_def case_prod_beta
    by (simp del: publish_frames(1,2) cache_frames(2)) (rule gui_inv_publish, use gui_inv_held[OF assms] in simp_all)
qed

lemma observe_keeps_view:
  "rc_rules (fst (observe_rule_count r c)) = rc_rules c"
  "\<not> snd (observe_rule_count r c) \<Longrightarrow> not_shown (fst (observe_rule_count r c)) = not_shown c"
  by (auto simp: observe_rule_count_def not_shown_def is_unknown_def count_mismatch_def Let_def
      restart_run_def watch_arrives_raised split: option.splits)

lemma gui_inv_observe:
  assumes "gui_inv s"
  shows "gui_inv (observe_daemon_rules reported up in_flight ck s)"
proof -
  define r where "r = \<lparr> cr_reported = reported, cr_uptime = up,
     cr_settling = (awaiting_adoption (ck_mono ck) (rs_pending s) \<or> 0 < in_flight), cr_now = ck_mono ck \<rparr>"
  define c where "c = fst (observe_rule_count r (rs_cache s))"
  have eq: "observe_daemon_rules reported up in_flight ck s =
      (if snd (observe_rule_count r (rs_cache s)) then broadcast [RulesNotShown (not_shown c)] (s\<lparr> rs_cache := c \<rparr>)
       else s\<lparr> rs_cache := c \<rparr>)"
    by (simp add: observe_daemon_rules_def r_def c_def Let_def case_prod_beta)
  have inv: "rules_inv c" using assms sound_observe by (simp add: gui_inv_def c_def sound_change_def)
  have "gui_ok s \<Longrightarrow> gui_ok (observe_daemon_rules reported up in_flight ck s)"
    using observe_keeps_view[of r "rs_cache s"] unfolding c_def[symmetric] eq
    by (auto simp: gui_ok_def listed_def notes_ok_def)
  with assms inv show ?thesis by (auto simp: gui_inv_def eq )
qed

lemma listed_unknown [simp]: "rc_rules c = None \<Longrightarrow> listed c = fmempty"
  by (simp add: listed_def)

lemma set_unknown_rules [simp]: "rc_rules (set_unknown c) = None"
  by (simp add: set_unknown_def Let_def)

lemma gui_inv_adopt:
  assumes "gui_inv s"
  shows "gui_inv (fst (sync_adopt snap ck s))"
proof (cases "sn_over_limit snap")
  case None
  let ?c = "adopt_cache snap (ck_mono ck) ((rs_cache s)\<lparr> rc_snapshot_sequence := sn_sequence snap \<rparr>)"
  let ?s = "s\<lparr> rs_cache := ?c,
     rs_hits := hits_adopt_snapshot (ck_ms ck) (\<lambda>n. contains n ?c) (rs_hits s) \<rparr>"
  have "rules_inv ?c"
    using rules_inv_sound[OF sound_trans[OF sound_sequence sound_adopt_cache]] gui_inv_rules[OF assms] by blast
  then have "gui_inv (publish_rules ?s)"
    using assms by (intro gui_inv_publish) (auto simp: gui_inv_def)
  moreover have "fst (sync_adopt snap ck s) = (publish_rules ?s)\<lparr> rs_synced := rs_synced (publish_rules ?s) + 1 \<rparr>"
    by (simp add: sync_adopt_def None Let_def)
  ultimately show ?thesis by (auto intro: gui_inv_same)
next
  case (Some t)
  have inv: "rules_inv (rs_cache (fst (sync_adopt snap ck s)))"
    using rules_inv_sound[OF sound_adopt] gui_inv_rules[OF assms] by blast
  have held: "rs_held_changes (fst (sync_adopt snap ck s)) = rs_held_changes s"
    "rs_holds (fst (sync_adopt snap ck s)) = rs_holds s"
    by (simp_all add: sync_adopt_def Some Let_def)
  have "gui_ok s \<Longrightarrow> gui_ok (fst (sync_adopt snap ck s))"
    by (auto simp: gui_ok_def sync_adopt_def Some Let_def is_unknown_def listed_def fm_collect_def)
  with assms inv show ?thesis by (simp add: gui_inv_def held)
qed

lemma gui_inv_withdraw:
  assumes "gui_inv s"
  shows "gui_inv (sync_withdraw s)"
proof -
  have inv: "rules_inv (rs_cache (sync_withdraw s))"
    using rules_inv_sound[OF sound_withdraw] gui_inv_rules[OF assms] by blast
  have held: "rs_held_changes (sync_withdraw s) = rs_held_changes s" "rs_holds (sync_withdraw s) = rs_holds s"
    by (simp_all add: sync_withdraw_def Let_def)
  have "gui_ok s \<Longrightarrow> gui_ok (sync_withdraw s)"
    by (auto simp: gui_ok_def sync_withdraw_def Let_def is_unknown_def listed_def fm_collect_def notes_ok_def not_shown_def
        count_mismatch_def)
  with assms inv show ?thesis by (simp add: gui_inv_def held)
qed

lemma gui_inv_upsert:
  assumes "gui_inv s"
  shows "gui_inv (sync_upsert r ck s)"
proof (cases "rc_rules (rs_cache s)")
  case None
  then show ?thesis using assms by (simp add: sync_upsert_def is_unknown_def)
next
  case (Some rs)
  define c where "c = upsert_at r (ck_secs ck) (ck_mono ck) (note_prompt_answer (r_name r) (rs_cache s))"
  define r' where "r' = (if r_created r = 0 then r\<lparr> r_created := ck_secs ck \<rparr> else r)"
  have c: "rc_rules c = Some (fmupd (r_name r) r' rs)" "rc_left_out c = fmdrop (r_name r) (rc_left_out (rs_cache s))"
    "rc_files_left c = rc_files_left (rs_cache s)"
    using Some by (simp_all add: c_def upsert_at_def note_prompt_answer_def Let_def r'_def)
  have name: "r_name r' = r_name r" by (simp add: r'_def)
  define s' where "s' = sync_record (Prompt r (ck_secs ck))
     (if (case fmlookup (rc_expiries (rs_cache s)) (r_name r) of Some e \<Rightarrow> ex_at e \<le> r_created r | None \<Rightarrow> False)
      then forget_hits [r_name r] s else s)"
  have s': "rs_sent s' = rs_sent s" "rs_cache s' = rs_cache s" "rs_holds s' = rs_holds s"
    "rs_held_changes s' = rs_held_changes s"
    by (simp_all add: s'_def split: option.split)
  have eq: "sync_upsert r ck s = broadcast [UpdateRules [r']] (s'\<lparr> rs_cache := c \<rparr>)"
    using Some c(1) by (simp add: sync_upsert_def is_unknown_def Let_def s'_def c_def[symmetric])
  have inv: "rules_inv c"
    using rules_inv_sound[OF sound_trans[OF sound_prompt_answer sound_upsert]] gui_inv_rules[OF assms]
    unfolding c_def by blast
  have "hints c = hints (rs_cache s)" by (simp add: c_def)
  then have "(not_shown c)\<lparr> ns_too_large := ns_too_large (not_shown (rs_cache s)) \<rparr> = not_shown (rs_cache s)"
    using Some c by (simp add: not_shown_def hints_def is_unknown_def count_mismatch_def)
  moreover have "ns_too_large (not_shown c) \<le> ns_too_large (not_shown (rs_cache s))"
    using fm_len_fmdrop_le[of "r_name r" "rc_left_out (rs_cache s)"]
    by (auto simp: not_shown_def c(2) u32_try_from_def)
  ultimately have "gui_ok s \<Longrightarrow> gui_ok (sync_upsert r ck s)"
    using notes_ok_smaller[of "gui_not_shown (rs_sent s)" "rs_cache s" c]
    by (simp add: gui_ok_def eq s' listed_def Some c(1) name)
  with assms inv show ?thesis by (simp add: gui_inv_def eq s')
qed

lemma gui_inv_drop:
  assumes "gui_inv s" "rs_holds s \<noteq> 0"
  shows "gui_inv (drop_hold s)"
proof -
  let ?s = "s\<lparr> rs_holds := rs_holds s - 1 \<rparr>"
  have ok: "gui_ok s \<Longrightarrow> gui_ok ?s" by (rule gui_ok_frame) simp_all
  have "gui_inv (publish_rules (?s\<lparr> rs_held_changes := False \<rparr>))"
    by (rule gui_inv_publish) (use gui_inv_rules[OF assms(1)] in simp_all)
  with ok assms show ?thesis
    by (auto simp: drop_hold_def publish_held_changes_def Let_def gui_inv_def)
qed

lemma gui_inv_op: "gui_inv s \<Longrightarrow> gui_inv (sync_op ck e s)"
proof (induction ck e s rule: sync_op.induct)
  case (1 ck key stream s)
  have "gui_inv (s\<lparr> rs_pending := p \<rparr>)" for p using "1.prems" by (rule gui_inv_same) simp_all
  then show ?case
    by (auto simp: sync_commit_def Let_def case_prod_beta gui_inv_adopt split: option.split)
next
  case (2 ck key stream s)
  then show ?case by (auto simp: sync_readopt_def gui_inv_adopt split: option.split)
next
  case (8 ck evs up hits s)
  then show ?case by (auto simp: sync_record_hits_def intro: gui_inv_same)
next
  case (10 ck s)
  then show ?case by (simp add: hold_publishes_def gui_inv_def gui_ok_def)
next
  case (12 ck outcome s)
  then show ?case
    using gui_inv_publish[of s] by (auto simp: settle_rule_command_def gui_inv_held gui_inv_rules split: sum.split)
qed (simp_all add: gui_inv_withdraw gui_inv_upsert gui_inv_confirmed gui_inv_refused gui_inv_observe
      gui_inv_prune gui_inv_drop)

lemma new_sync_gui: "gui_inv new_sync"
proof -
  have "rc_rules new_rules_cache = None" by (simp add: new_rules_cache_def)
  then show ?thesis by (simp add: gui_inv_def gui_ok_def new_sync_def gui_list_def gui_not_shown_def)
qed

lemma gui_inv_step: "gui_inv (sw_sync w) \<Longrightarrow> gui_inv (sw_sync (sync_step len w (ck, e)))"
  by (cases rule: sync_step_cases[where e = e and len = len and w = w and ck = ck])
     (auto simp: sync_receive_def sync_stage_received_def Let_def case_prod_beta gui_inv_op intro: gui_inv_same)

interpretation gui_machine: state_machine "\<lambda>w. w = new_sync_world" "sync_step len" "\<lambda>w. gui_inv (sw_sync w)"
  for len :: "rule \<Rightarrow> nat"
  by unfold_locales (auto simp: new_sync_world_def new_sync_gui gui_inv_step)

text \<open>
  C31. What the GUIs show is what the bridge holds: a client that applies the broadcasts in
  order has exactly the listed rules (none while there is no list) whenever no change is
  held back, and changes are held back only while a hold is alive. Its last note has the
  over-limit count, the files left and the hint of the moment, and counts at least the
  rules left out for their size.
\<close>

theorem gui_shows_the_list:
  assumes "\<not> rs_held_changes (sw_sync (sync_run len es)) \<or> rs_holds (sw_sync (sync_run len es)) = 0"
  shows "gui_list (rs_sent (sw_sync (sync_run len es))) = listed (rs_cache (sw_sync (sync_run len es)))
    \<and> notes_ok (gui_not_shown (rs_sent (sw_sync (sync_run len es)))) (rs_cache (sw_sync (sync_run len es)))"
  using gui_machine.inv_reachable[OF refl, of len es] assms
  unfolding sync_run_def[symmetric] gui_inv_def gui_ok_def by auto

definition example_answer :: rule where
  "example_answer = example_temporary\<lparr> r_name := lit ''mail'', r_duration := lit ''always'' \<rparr>"

definition example_sync :: "(sync_clock \<times> sync_event) list" where
  "example_sync = [(at_second 1, Subscribe), (at_second 1, Stage 0 None [example_temporary]),
     (at_second 2, Hello None 1), (at_second 3, PromptAnswer example_answer)]"

theorem gui_shows_the_list_witness:
  "fm_keys (gui_list (rs_sent (sw_sync (sync_run (\<lambda>_. 0) example_sync)))) = [lit ''mail'', lit ''web'']"
proof -
  have free: "\<not> rs_held_changes (sw_sync (sync_run (\<lambda>_. 0) example_sync))
      \<or> rs_holds (sw_sync (sync_run (\<lambda>_. 0) example_sync)) = 0" by code_simp
  have "fm_keys (listed (rs_cache (sw_sync (sync_run (\<lambda>_. 0) example_sync)))) = [lit ''mail'', lit ''web'']"
    by code_simp
  with gui_shows_the_list[OF free] show ?thesis by simp
qed

end
