(* ===== verification/Rules_Journal.thy ===== *)
theory Rules_Journal
  imports Rules_Sync_Props
begin

text \<open>
  Staged snapshots and their journals (\<open>cache/rules_sync.rs\<close>): every \<open>Subscribe\<close> has a
  number of its own, a stream adopts a snapshot at most once, and adopting a snapshot
  again replays what changed the list since, so that no listed rule is lost.
\<close>

section \<open>Changes as functions on the rules\<close>

definition stamped :: "rule \<Rightarrow> int \<Rightarrow> rule" where
  "stamped r now = (if r_created r = 0 then r\<lparr> r_created := now \<rparr> else r)"

definition put_rule :: "int \<Rightarrow> rule \<Rightarrow> (rstr, rule) fmap \<Rightarrow> (rstr, rule) fmap" where
  "put_rule now r = fmupd (r_name r) (stamped (r\<lparr> r_created := now \<rparr>) now)"

fun rules_effect :: "journaled \<Rightarrow> (rstr, rule) fmap \<Rightarrow> (rstr, rule) fmap" where
  "rules_effect (Prompt r t) = fmupd (r_name r) (stamped r t)"
| "rules_effect (Confirmed sent t) =
     (if n_type sent = ChangeRule then fold (put_rule t) (n_rules sent)
      else if n_type sent = DeleteRule then fold (\<lambda>r. fmdrop (r_name r)) (n_rules sent) else id)"
| "rules_effect (Refused sent t) =
     (case refused_effect_of sent of
        Removed \<Rightarrow> fold (\<lambda>r. fmdrop (r_name r)) (n_rules sent)
      | AppliedNotSaved \<Rightarrow> fold (put_rule t) (n_rules sent)
      | UnknownEffect \<Rightarrow> id)"

definition replayed :: "snapshot \<Rightarrow> (rstr, rule) fmap" where
  "replayed snap = fold rules_effect (j_changes (sn_journal snap)) (fm_collect (map (\<lambda>r. (r_name r, r)) (sn_rules snap)))"

text \<open>A part of a list, from which at most the rules of the given names are missing.\<close>

definition sub_rules :: "rstr set \<Rightarrow> (rstr, rule) fmap \<Rightarrow> (rstr, rule) fmap \<Rightarrow> bool" where
  "sub_rules P m n \<longleftrightarrow> (\<forall>k v. fmlookup m k = Some v \<longrightarrow> fmlookup n k = Some v)
     \<and> (\<forall>k. fmlookup m k = None \<longrightarrow> fmlookup n k \<noteq> None \<longrightarrow> k \<in> P)"

lemma sub_rules_refl [simp]: "sub_rules P m m"
  by (simp add: sub_rules_def)

lemma sub_rules_fold: "(\<And>x m n. sub_rules P m n \<Longrightarrow> sub_rules P (f x m) (f x n)) \<Longrightarrow> sub_rules P m n
    \<Longrightarrow> sub_rules P (fold f xs m) (fold f xs n)"
  by (induction xs arbitrary: m n) simp_all

lemma sub_rules_update:
  "sub_rules P m n \<Longrightarrow> sub_rules P (fmupd k v m) (fmupd k v n)" "sub_rules P m n \<Longrightarrow> sub_rules P (fmdrop k m) (fmdrop k n)"
  "(\<And>k. \<not> keep k \<Longrightarrow> k \<in> P) \<Longrightarrow> sub_rules P (fmfilter keep m) m" "sub_rules P a b \<Longrightarrow> sub_rules P b c \<Longrightarrow> sub_rules P a c"
proof -
  show "sub_rules P a b \<Longrightarrow> sub_rules P b c \<Longrightarrow> sub_rules P a c"
    unfolding sub_rules_def by (metis not_None_eq)
qed (auto simp: sub_rules_def fmfilter.rep_eq map_filter_def split: if_splits)

lemma sub_rules_effect: "sub_rules P m n \<Longrightarrow> sub_rules P (rules_effect x m) (rules_effect x n)"
  by (cases x) (auto simp: put_rule_def intro!: sub_rules_fold sub_rules_update(1,2) split: refused_effect.split)

lemma rules_fold:
  "(\<And>x c. rc_rules (f x c) = map_option (g x) (rc_rules c)) \<Longrightarrow>
     rc_rules (fold f xs c) = map_option (fold g xs) (rc_rules c)"
  by (induction xs arbitrary: c) (simp_all add: option.map_comp comp_def option.map_id)

lemma rules_upsert: "rc_rules (upsert_at r now clock c) = map_option (fmupd (r_name r) (stamped r now)) (rc_rules c)"
  by (simp add: upsert_at_def Let_def stamped_def split: option.split)

lemma rules_frames [simp]:
  "rc_rules (forget_file_left n c) = rc_rules c" "rc_rules (forget_file_left_if_held n c) = rc_rules c"
  "rc_rules (mark_file_left n c) = rc_rules c" "rc_rules (note_maybe_applied n c) = rc_rules c"
  "rc_rules (note_prompt_answer n c) = rc_rules c"
  "rc_rules (remove_rule n c) = map_option (fmdrop n) (rc_rules c)"
  by (simp_all add: forget_file_left_def forget_file_left_if_held_def mark_file_left_def note_maybe_applied_def
      note_prompt_answer_def remove_rule_def Let_def)

lemma rules_confirmed: "rc_rules (apply_confirmed_at sent now clock c) = map_option (rules_effect (Confirmed sent now)) (rc_rules c)"
proof -
  have "rc_rules (apply_confirmed_rule now clock r c) = map_option (put_rule now r) (rc_rules c)" for r c
    by (simp add: apply_confirmed_rule_def rules_upsert put_rule_def)
  then show ?thesis by (simp add: apply_confirmed_at_def rules_fold option.map_id)
qed

lemma rules_refused: "rc_rules (fst (apply_refused_at sent now clock c)) = map_option (rules_effect (Refused sent now)) (rc_rules c)"
proof -
  have a: "rc_rules (apply_not_saved_rule now clock r c) = map_option (put_rule now r) (rc_rules c)" for r c
    by (simp add: apply_not_saved_rule_def rules_upsert put_rule_def)
  have b: "rc_rules (fold (\<lambda>r. note_maybe_applied (r_name r)) xs c) = rc_rules c" for xs c
    by (induction xs arbitrary: c) simp_all
  show ?thesis
    by (cases "refused_effect_of sent") (simp_all add: apply_refused_at_def Let_def a b rules_fold option.map_id)
qed

lemma rules_replay: "rc_rules (journal_replay clock j c) = map_option (fold rules_effect (j_changes j)) (rc_rules c)"
proof -
  have "rc_rules (replay_change clock x c) = map_option (rules_effect x) (rc_rules c)" for x c
    by (cases x) (simp_all add: rules_confirmed rules_refused rules_upsert del: rules_effect.simps(2,3))
  then show ?thesis unfolding journal_replay_def by (rule rules_fold)
qed

lemma adopt_cache_rules:
  "rc_rules (adopt_cache snap clock c) =
     Some (if j_overflowed (sn_journal snap) then fm_collect (map (\<lambda>r. (r_name r, r)) (sn_rules snap)) else replayed snap)"
proof -
  let ?a = "replace_all_at_revision (sn_rules snap) (sn_observed_revision snap) clock c"
  have "rc_rules ?a = Some (fm_collect (map (\<lambda>r. (r_name r, r)) (sn_rules snap)))"
    by (simp add: replace_all_at_revision_def Let_def)
  moreover have "rc_rules (set_left_out_at_revision l obs c) = rc_rules c" for l obs c
    using fold_forget_frame(1)[where f = "\<lambda>x. x"] by (simp add: set_left_out_at_revision_def)
  ultimately show ?thesis by (simp add: adopt_cache_def Let_def rules_replay replayed_def)
qed

section \<open>Numbers of snapshots\<close>

abbreviation entry_seq :: "staged \<Rightarrow> nat" where
  "entry_seq e \<equiv> sn_sequence (sg_snapshot e)"

definition numbers :: "sync_world \<Rightarrow> nat list" where
  "numbers w = map entry_seq (pd_entries (rs_pending (sw_sync w))) @ map rp_sequence (sw_receipts w)"

definition numbers_ok :: "sync_world \<Rightarrow> bool" where
  "numbers_ok w \<longleftrightarrow> distinct (numbers w)
     \<and> (\<forall>n \<in> set (numbers w). 0 < n \<and> n \<le> pd_staged (rs_pending (sw_sync w)))"

definition journal_ok :: "rstr set \<Rightarrow> rules_cache \<Rightarrow> staged \<Rightarrow> bool" where
  "journal_ok P c e \<longleftrightarrow> entry_seq e = rc_snapshot_sequence c \<longrightarrow> \<not> j_overflowed (sn_journal (sg_snapshot e)) \<longrightarrow>
     (\<forall>rs. rc_rules c = Some rs \<longrightarrow> sub_rules P rs (replayed (sg_snapshot e)))"

definition journal_inv :: "rstr set \<Rightarrow> sync_world \<Rightarrow> bool" where
  "journal_inv P w \<longleftrightarrow> numbers_ok w
     \<and> rc_snapshot_sequence (rs_cache (sw_sync w)) \<le> pd_staged (rs_pending (sw_sync w))
     \<and> rc_snapshot_sequence (rs_cache (sw_sync w)) \<notin> set (map rp_sequence (sw_receipts w))
     \<and> (\<forall>e \<in> set (pd_entries (rs_pending (sw_sync w))). journal_ok P (rs_cache (sw_sync w)) e)"

lemma pending_frames [simp]:
  "rs_pending (broadcast ms s) = rs_pending s" "rs_pending (publish_rules s) = rs_pending s"
  "rs_pending (forget_hits ns s) = rs_pending s" "rs_pending (publish_after_command s) = rs_pending s"
  "rs_pending (publish_held_changes s) = rs_pending s" "rs_pending (drop_hold s) = rs_pending s"
  "rs_pending (hold_publishes s) = rs_pending s" "rs_pending (sync_record_hits evs up h ck s) = rs_pending s"
  "rs_pending (settle_rule_command outcome s) = rs_pending s" "rs_pending (sync_withdraw s) = rs_pending s"
  "rs_pending (fst (sync_adopt snap ck s)) = rs_pending s" "rs_pending (prune_tick ck s) = rs_pending s"
  "rs_pending (observe_daemon_rules reported up k ck s) = rs_pending s"
  by (simp_all add: broadcast_def publish_rules_def forget_hits_def publish_after_command_def
      publish_held_changes_def drop_hold_def hold_publishes_def sync_record_hits_def settle_rule_command_def
      sync_withdraw_def sync_adopt_def prune_tick_def observe_daemon_rules_def Let_def case_prod_beta
      split: sum.split option.split)

lemma sequence_frames [simp]:
  "rc_snapshot_sequence (set_unknown c) = rc_snapshot_sequence c"
  "rc_snapshot_sequence (fst (observe_rule_count reading c)) = rc_snapshot_sequence c"
  "rc_snapshot_sequence (forget_file_left n c) = rc_snapshot_sequence c"
  "rc_snapshot_sequence (forget_file_left_in_snapshot obs n c) = rc_snapshot_sequence c"
  "rc_snapshot_sequence (forget_file_left_if_held n c) = rc_snapshot_sequence c"
  "rc_snapshot_sequence (mark_file_left n c) = rc_snapshot_sequence c"
  "rc_snapshot_sequence (remove_rule n c) = rc_snapshot_sequence c"
  "rc_snapshot_sequence (upsert_at r now clock c) = rc_snapshot_sequence c"
  "rc_snapshot_sequence (note_maybe_applied n c) = rc_snapshot_sequence c"
  "rc_snapshot_sequence (note_prompt_answer n c) = rc_snapshot_sequence c"
  "rc_snapshot_sequence (prune_one clock n c) = rc_snapshot_sequence c"
  by (simp_all add: set_unknown_def observe_rule_count_def forget_file_left_def forget_file_left_in_snapshot_def
      forget_file_left_if_held_def mark_file_left_def remove_rule_def upsert_at_def note_maybe_applied_def
      note_prompt_answer_def prune_one_def Let_def split: option.split)

lemma sequence_fold: "(\<And>x c. rc_snapshot_sequence (f x c) = rc_snapshot_sequence c) \<Longrightarrow>
    rc_snapshot_sequence (fold f xs c) = rc_snapshot_sequence c"
  by (induction xs arbitrary: c) simp_all

lemma sequence_operations [simp]:
  "rc_snapshot_sequence (apply_confirmed_at sent now clock c) = rc_snapshot_sequence c"
  "rc_snapshot_sequence (fst (apply_refused_at sent now clock c)) = rc_snapshot_sequence c"
  "rc_snapshot_sequence (fst (prune_expired_at t clock c)) = rc_snapshot_sequence c"
proof -
  have "rc_snapshot_sequence (apply_confirmed_rule now clock r c) = rc_snapshot_sequence c" for r c
    by (simp add: apply_confirmed_rule_def)
  then show "rc_snapshot_sequence (apply_confirmed_at sent now clock c) = rc_snapshot_sequence c"
    by (simp add: apply_confirmed_at_def sequence_fold)
  have "rc_snapshot_sequence (apply_not_saved_rule now clock r c) = rc_snapshot_sequence c" for r c
    by (simp add: apply_not_saved_rule_def)
  then show "rc_snapshot_sequence (fst (apply_refused_at sent now clock c)) = rc_snapshot_sequence c"
    by (simp add: apply_refused_at_def Let_def sequence_fold split: refused_effect.split)
  show "rc_snapshot_sequence (fst (prune_expired_at t clock c)) = rc_snapshot_sequence c"
    by (simp add: prune_expired_at_def Let_def sequence_fold bump_def)
qed

lemma sequence_adopt_cache [simp]: "rc_snapshot_sequence (adopt_cache snap clock c) = rc_snapshot_sequence c"
proof -
  have "rc_snapshot_sequence (replay_change clock x c) = rc_snapshot_sequence c" for x c
    by (cases x) simp_all
  then show ?thesis
    by (simp add: adopt_cache_def Let_def journal_replay_def replace_all_at_revision_def set_left_out_at_revision_def
        sequence_fold)
qed

lemma sequence_adopt [simp]: "rc_snapshot_sequence (rs_cache (fst (sync_adopt snap ck s))) = sn_sequence snap"
  by (simp add: sync_adopt_def Let_def split: option.split)

subsection \<open>Steps that journal nothing\<close>

lemma journal_inv_mono:
  assumes "journal_inv P w" "sw_receipts w' = sw_receipts w"
    and "pd_staged (rs_pending (sw_sync w')) = pd_staged (rs_pending (sw_sync w))"
    and "distinct (map entry_seq (pd_entries (rs_pending (sw_sync w'))))"
    and "sg_snapshot ` set (pd_entries (rs_pending (sw_sync w'))) \<subseteq> sg_snapshot ` set (pd_entries (rs_pending (sw_sync w)))"
    and "rc_snapshot_sequence (rs_cache (sw_sync w')) = rc_snapshot_sequence (rs_cache (sw_sync w))"
    and "\<And>rs'. rc_rules (rs_cache (sw_sync w')) = Some rs' \<Longrightarrow>
       \<exists>rs. rc_rules (rs_cache (sw_sync w)) = Some rs \<and> sub_rules P rs' rs"
  shows "journal_inv P w'"
proof -
  have seqs: "entry_seq ` set (pd_entries (rs_pending (sw_sync w'))) \<subseteq> entry_seq ` set (pd_entries (rs_pending (sw_sync w)))"
    using image_mono[OF assms(5), of sn_sequence] by (simp add: image_image)
  have "numbers_ok w'"
    using assms(1-4) seqs unfolding journal_inv_def numbers_ok_def numbers_def
    by (auto simp: subset_iff)
  moreover have "journal_ok P (rs_cache (sw_sync w')) e" if "e \<in> set (pd_entries (rs_pending (sw_sync w')))" for e
  proof -
    from subsetD[OF assms(5) imageI[OF that]]
    obtain e0 where e0: "sg_snapshot e = sg_snapshot e0" "e0 \<in> set (pd_entries (rs_pending (sw_sync w)))"
      by (rule imageE)
    then have "journal_ok P (rs_cache (sw_sync w)) e0" using assms(1) by (simp add: journal_inv_def)
    then show ?thesis
      using assms(6,7) e0(1) unfolding journal_ok_def by (metis sub_rules_update(4))
  qed
  ultimately show ?thesis using assms(1-3,6) by (simp add: journal_inv_def)
qed

lemma numbers_distinct_entries: "journal_inv P w \<Longrightarrow> distinct (map entry_seq (pd_entries (rs_pending (sw_sync w))))"
  by (simp add: journal_inv_def numbers_ok_def numbers_def)

lemma journal_inv_quiet:
  assumes "journal_inv P w" "rs_pending s = rs_pending (sw_sync w)"
    and "rc_snapshot_sequence (rs_cache s) = rc_snapshot_sequence (rs_cache (sw_sync w))"
    and "\<And>rs'. rc_rules (rs_cache s) = Some rs' \<Longrightarrow>
       \<exists>rs. rc_rules (rs_cache (sw_sync w)) = Some rs \<and> sub_rules P rs' rs"
  shows "journal_inv P (w\<lparr> sw_sync := s \<rparr>)"
  by (rule journal_inv_mono[OF assms(1)]) (use assms numbers_distinct_entries[OF assms(1)] in simp_all)

lemma journal_inv_adopt:
  assumes "journal_inv P w" "snap \<in> sg_snapshot ` set (pd_entries (rs_pending (sw_sync w)))"
  shows "journal_inv P (w\<lparr> sw_sync := fst (sync_adopt snap ck (sw_sync w)) \<rparr>)"
proof -
  let ?es = "pd_entries (rs_pending (sw_sync w))"
  let ?s = "fst (sync_adopt snap ck (sw_sync w))"
  obtain e0 where e0: "e0 \<in> set ?es" "sg_snapshot e0 = snap" using assms(2) by auto
  have rules: "rc_rules (rs_cache ?s) = None \<or> rc_rules (rs_cache ?s) = Some (if j_overflowed (sn_journal snap)
      then fm_collect (map (\<lambda>r. (r_name r, r)) (sn_rules snap)) else replayed snap)"
    by (simp add: sync_adopt_def Let_def adopt_cache_rules is_unknown_def split: option.split)
  have "sn_sequence snap \<in> set (map entry_seq ?es)" using e0 by force
  moreover have "set (map entry_seq ?es) \<inter> set (map rp_sequence (sw_receipts w)) = {}"
    "\<forall>n \<in> set (map entry_seq ?es). n \<le> pd_staged (rs_pending (sw_sync w))"
    using assms(1) by (auto simp: journal_inv_def numbers_ok_def numbers_def)
  ultimately have "sn_sequence snap \<le> pd_staged (rs_pending (sw_sync w))"
    "sn_sequence snap \<notin> set (map rp_sequence (sw_receipts w))" by blast+
  moreover have "journal_ok P (rs_cache ?s) e" if "e \<in> set ?es" for e
  proof (cases "entry_seq e = sn_sequence snap")
    case True
    have "e = e0"
      using numbers_distinct_entries[OF assms(1)] that e0 True by (auto simp: distinct_map inj_on_def)
    then show ?thesis using rules e0(2) by (auto simp: journal_ok_def)
  qed (simp add: journal_ok_def)
  moreover have "numbers_ok (w\<lparr> sw_sync := ?s \<rparr>)"
    using assms(1) by (simp add: journal_inv_def numbers_ok_def numbers_def)
  ultimately show ?thesis by (simp add: journal_inv_def)
qed

subsection \<open>Steps that are journaled\<close>

lemma journal_change_seq [simp]: "entry_seq (journal_change x e) = entry_seq e"
  by (simp add: journal_change_def)

lemma replayed_record:
  "\<not> j_overflowed (sn_journal (sg_snapshot (journal_change x e))) \<Longrightarrow>
     \<not> j_overflowed (sn_journal (sg_snapshot e))
     \<and> replayed (sg_snapshot (journal_change x e)) = rules_effect x (replayed (sg_snapshot e))"
  by (auto simp: journal_change_def journal_record_def replayed_def split: if_splits)

lemma set_update_unique:
  "distinct (map f xs) \<Longrightarrow> y \<in> set (update_first (\<lambda>x. f x = k) g xs) \<Longrightarrow>
     (\<exists>x \<in> set xs. f x = k \<and> y = g x) \<or> (y \<in> set xs \<and> f y \<noteq> k)"
  by (induction xs) (auto split: if_splits, metis imageI)

lemma journal_inv_recorded:
  assumes inv: "journal_inv P w"
    and rules: "rc_rules (rs_cache s) = map_option (rules_effect x) (rc_rules (rs_cache (sw_sync w)))"
    and seq: "rc_snapshot_sequence (rs_cache s) = rc_snapshot_sequence (rs_cache (sw_sync w))"
    and pending: "rs_pending s = rs_pending (sync_record x (sw_sync w))"
  shows "journal_inv P (w\<lparr> sw_sync := s \<rparr>)"
proof (cases "rc_rules (rs_cache (sw_sync w))")
  case None
  then have "rs_pending s = rs_pending (sw_sync w)" using pending by (simp add: sync_record_def is_unknown_def)
  then show ?thesis by (rule journal_inv_quiet[OF inv]) (use None rules seq in simp_all)
next
  case (Some rs)
  let ?es = "pd_entries (rs_pending (sw_sync w))"
  let ?k = "rc_snapshot_sequence (rs_cache (sw_sync w))"
  have es: "pd_entries (rs_pending s) = update_first (\<lambda>e. entry_seq e = ?k) (journal_change x) ?es"
    "pd_staged (rs_pending s) = pd_staged (rs_pending (sw_sync w))"
    using pending Some by (simp_all add: sync_record_def is_unknown_def pending_record_def)
  have seqs: "map entry_seq (pd_entries (rs_pending s)) = map entry_seq ?es"
    unfolding es(1) by (rule map_update_first) simp
  have "journal_ok P (rs_cache s) e" if e: "e \<in> set (pd_entries (rs_pending s))" for e
  proof -
    from set_update_unique[OF numbers_distinct_entries[OF inv] e[unfolded es(1)]]
    consider e0 where "e0 \<in> set ?es" "entry_seq e0 = ?k" "e = journal_change x e0" | "entry_seq e \<noteq> ?k" by blast
    then show ?thesis
    proof cases
      case 1
      then have "journal_ok P (rs_cache (sw_sync w)) e0" using inv by (simp add: journal_inv_def)
      then show ?thesis
        using 1 replayed_record[of x e0] sub_rules_effect[of P rs "replayed (sg_snapshot e0)" x] rules Some
        by (auto simp: journal_ok_def)
    qed (simp add: journal_ok_def seq)
  qed
  moreover have "numbers_ok (w\<lparr> sw_sync := s \<rparr>)"
    using inv seqs es(2) by (simp add: journal_inv_def numbers_ok_def numbers_def)
  ultimately show ?thesis using inv seq es(2) by (simp add: journal_inv_def)
qed

lemma sync_record_pending_cong: "rs_pending s = rs_pending s' \<Longrightarrow> rs_cache s = rs_cache s' \<Longrightarrow>
    rs_pending (sync_record x s) = rs_pending (sync_record x s')"
  by (simp add: sync_record_def)

lemma journal_inv_upsert:
  assumes "journal_inv P w"
  shows "journal_inv P (w\<lparr> sw_sync := sync_upsert r ck (sw_sync w) \<rparr>)"
proof (cases "is_unknown (rs_cache (sw_sync w))")
  case True
  then show ?thesis using assms by (simp add: sync_upsert_def)
next
  case False
  show ?thesis
  proof (rule journal_inv_recorded[OF assms, where x = "Prompt r (ck_secs ck)"])
    show "rs_pending (sync_upsert r ck (sw_sync w)) = rs_pending (sync_record (Prompt r (ck_secs ck)) (sw_sync w))"
      using False by (auto simp: sync_upsert_def Let_def intro!: sync_record_pending_cong)
  qed (use False in \<open>simp_all add: sync_upsert_def Let_def rules_upsert\<close>)
qed

lemma record_same_knowledge:
  assumes "is_unknown (rs_cache s') = is_unknown (rs_cache s)" "rs_pending s' = rs_pending s"
    "rc_snapshot_sequence (rs_cache s') = rc_snapshot_sequence (rs_cache s)"
  shows "rs_pending (sync_record x s') = rs_pending (sync_record x s)"
  using assms by (simp add: sync_record_def)

lemma journal_inv_confirmed:
  assumes "journal_inv P w"
  shows "journal_inv P (w\<lparr> sw_sync := sync_apply_confirmed sent ck (sw_sync w) \<rparr>)"
proof (rule journal_inv_recorded[OF assms, where x = "Confirmed sent (ck_secs ck)"])
  show "rs_pending (sync_apply_confirmed sent ck (sw_sync w))
      = rs_pending (sync_record (Confirmed sent (ck_secs ck)) (sw_sync w))"
    by (auto simp: sync_apply_confirmed_def Let_def is_unknown_def rules_confirmed intro!: record_same_knowledge)
qed (simp_all add: sync_apply_confirmed_def Let_def rules_confirmed del: rules_effect.simps)

lemma journal_inv_refused:
  assumes "journal_inv P w"
  shows "journal_inv P (w\<lparr> sw_sync := sync_apply_refused sent ck (sw_sync w) \<rparr>)"
proof (rule journal_inv_recorded[OF assms, where x = "Refused sent (ck_secs ck)"])
  show "rs_pending (sync_apply_refused sent ck (sw_sync w))
      = rs_pending (sync_record (Refused sent (ck_secs ck)) (sw_sync w))"
    by (auto simp: sync_apply_refused_def Let_def case_prod_beta is_unknown_def rules_refused intro!: record_same_knowledge)
qed (simp_all add: sync_apply_refused_def Let_def case_prod_beta rules_refused del: rules_effect.simps)

subsection \<open>Staging and adoption\<close>

lemma set_remove_first: "set (remove_first P xs) \<subseteq> set xs"
  by (induction xs) auto

lemma distinct_map_remove_first: "distinct (map f xs) \<Longrightarrow> distinct (map f (remove_first P xs))"
  by (induction xs) (use set_remove_first[of P] in auto)

lemma adopt_fresh_effect:
  assumes "distinct (map entry_seq (pd_entries p))" "adopt_fresh key stream now p = (p', found)"
  shows "distinct (map entry_seq (pd_entries p'))" "pd_staged p' = pd_staged p"
    "sg_snapshot ` set (pd_entries p') \<subseteq> sg_snapshot ` set (pd_entries p)"
    "found = Some snap \<Longrightarrow> snap \<in> sg_snapshot ` set (pd_entries p')"
proof -
  let ?f = "\<lambda>e. e\<lparr> sg_adopted_by := sg_adopted_by e @ [stream] \<rparr>"
  let ?up = "update_first (\<lambda>e. sg_key e = key) ?f (pd_entries p)"
  have up: "map sg_snapshot ?up = map sg_snapshot (pd_entries p)" "map entry_seq ?up = map entry_seq (pd_entries p)"
    by (rule map_update_first; simp)+
  then have up_set: "sg_snapshot ` set ?up = sg_snapshot ` set (pd_entries p)" by (metis list.set_map)
  have cases: "p' = p \<and> found = None \<or> p' = p\<lparr> pd_entries := remove_first (\<lambda>e. sg_key e = key) (pd_entries p) \<rparr> \<and> found = None
      \<or> p' = p\<lparr> pd_entries := ?up \<rparr> \<and> (\<exists>e \<in> set (pd_entries p). found = Some (sg_snapshot e))"
  proof (cases "find (\<lambda>e. sg_key e = key) (pd_entries p)")
    case None
    then show ?thesis using assms(2) by (simp add: adopt_fresh_def)
  next
    case (Some e)
    then have "e \<in> set (pd_entries p)" by (auto dest: find_Some_set)
    then show ?thesis using assms(2) Some by (auto simp: adopt_fresh_def split: if_splits)
  qed
  show "distinct (map entry_seq (pd_entries p'))"
    using cases assms(1) up(2) distinct_map_remove_first[of entry_seq] by auto
  show "pd_staged p' = pd_staged p" using cases by auto
  show "sg_snapshot ` set (pd_entries p') \<subseteq> sg_snapshot ` set (pd_entries p)"
    using cases up_set set_remove_first[of "\<lambda>e. sg_key e = key" "pd_entries p"] by auto
  show "found = Some snap \<Longrightarrow> snap \<in> sg_snapshot ` set (pd_entries p')"
    using cases up_set by auto
qed

lemma journal_inv_hello:
  assumes "journal_inv P w"
  shows "journal_inv P (w\<lparr> sw_sync := fst (sync_commit key stream ck (sw_sync w)) \<rparr>)"
proof -
  obtain p found where af: "adopt_fresh key stream (ck_mono ck) (rs_pending (sw_sync w)) = (p, found)"
    by (cases "adopt_fresh key stream (ck_mono ck) (rs_pending (sw_sync w))")
  note eff = adopt_fresh_effect[OF numbers_distinct_entries[OF assms] af]
  let ?w = "w\<lparr> sw_sync := (sw_sync w)\<lparr> rs_pending := p \<rparr> \<rparr>"
  have inv: "journal_inv P ?w" by (rule journal_inv_mono[OF assms]) (use eff in simp_all)
  then show ?thesis
    using journal_inv_adopt[OF inv] eff(4) by (cases found) (simp_all add: sync_commit_def af)
qed

lemma journal_inv_readopt:
  assumes "journal_inv P w"
  shows "journal_inv P (w\<lparr> sw_sync := fst (sync_readopt key stream ck (sw_sync w)) \<rparr>)"
proof -
  have "snap \<in> sg_snapshot ` set (pd_entries (rs_pending (sw_sync w)))"
    if "adopted_fresh key stream (ck_mono ck) (rs_pending (sw_sync w)) = Some snap" for snap
    using that by (auto simp: adopted_fresh_def dest!: find_Some_set split: option.splits if_splits)
  then show ?thesis
    using assms journal_inv_adopt[OF assms] by (auto simp: sync_readopt_def split: option.split)
qed

lemma stage_entries:
  assumes "e \<in> set (pd_entries (pending_stage_received key snap now received p))"
  shows "e \<in> set (pd_entries p) \<or> (sg_snapshot e = snap\<lparr> sn_sequence := received \<rparr> \<and> sg_adopted_by e = [])"
  using assms by (auto simp: pending_stage_received_def pop_to_cap_def Let_def dest!: in_set_dropD split: if_splits)

lemma stage_distinct:
  assumes "distinct (map entry_seq (pd_entries p))" "received \<notin> set (map entry_seq (pd_entries p))"
  shows "distinct (map entry_seq (pd_entries (pending_stage_received key snap now received p)))"
proof -
  have "distinct (map entry_seq (drop k (filter P (pd_entries p) @ [e])))" if "entry_seq e = received" for k P e
    unfolding drop_map[symmetric] using assms that by (intro distinct_drop) (auto simp: distinct_map_filter)
  then show ?thesis
    using assms(1) by (simp add: pending_stage_received_def pop_to_cap_def Let_def distinct_map_filter del: drop_append)
qed

lemma disjoint_insert_sub: "A' \<subseteq> insert r A \<Longrightarrow> A \<inter> B = {} \<Longrightarrow> r \<notin> B \<Longrightarrow> A' \<inter> B = {}"
  by blast

lemma journal_inv_stage:
  assumes inv: "journal_inv P w" and i: "i < length (sw_receipts w)"
  shows "journal_inv P (sync_step len w (ck, Stage i key rules))"
proof -
  obtain a r b where split: "sw_receipts w = a @ r # b" "take i (sw_receipts w) @ drop (Suc i) (sw_receipts w) = a @ b"
    "sw_receipts w ! i = r"
    using id_take_nth_drop[OF i] by metis
  define p where "p = rs_pending (sw_sync w)"
  define snap where "snap = (bounded_snapshot len rules)\<lparr> sn_observed_revision := rp_revision r \<rparr>"
  define p' where "p' = pending_stage_received key snap (ck_mono ck) (rp_sequence r) p"
  have step: "sync_step len w (ck, Stage i key rules) =
      \<lparr> sw_sync = (sw_sync w)\<lparr> rs_pending := p' \<rparr>, sw_receipts = a @ b \<rparr>"
    using i split(2,3) by (simp add: p'_def p_def snap_def sync_stage_received_def)
  have staged: "pd_staged p' = pd_staged p" by (simp add: p'_def pending_stage_received_def Let_def)
  have nums: "distinct (map entry_seq (pd_entries p) @ map rp_sequence (a @ r # b))"
    "\<forall>n \<in> set (map entry_seq (pd_entries p) @ map rp_sequence (a @ r # b)). 0 < n \<and> n \<le> pd_staged p"
    using inv by (simp_all add: journal_inv_def numbers_ok_def numbers_def p_def split)
  have old: "e \<in> set (pd_entries p') \<Longrightarrow>
      e \<in> set (pd_entries p) \<or> (sg_snapshot e = snap\<lparr> sn_sequence := rp_sequence r \<rparr> \<and> sg_adopted_by e = [])" for e
    unfolding p'_def by (rule stage_entries)
  have seqs: "set (map entry_seq (pd_entries p')) \<subseteq> insert (rp_sequence r) (set (map entry_seq (pd_entries p)))"
  proof
    fix n assume "n \<in> set (map entry_seq (pd_entries p'))"
    then obtain e where "e \<in> set (pd_entries p')" "n = entry_seq e" by auto
    then show "n \<in> insert (rp_sequence r) (set (map entry_seq (pd_entries p)))" using old[of e] by auto
  qed
  have "distinct (map entry_seq (pd_entries p'))" unfolding p'_def by (rule stage_distinct) (use nums(1) in auto)
  moreover have "set (map entry_seq (pd_entries p')) \<inter> set (map rp_sequence (a @ b)) = {}"
    by (rule disjoint_insert_sub[OF seqs]) (use nums(1) in auto)
  moreover have "\<forall>n \<in> set (map entry_seq (pd_entries p')). 0 < n \<and> n \<le> pd_staged p"
  proof
    fix n assume "n \<in> set (map entry_seq (pd_entries p'))"
    from subsetD[OF seqs this] nums(2) show "0 < n \<and> n \<le> pd_staged p" by auto
  qed
  ultimately have "numbers_ok (sync_step len w (ck, Stage i key rules))"
    using nums unfolding step numbers_ok_def numbers_def by (auto simp: staged)
  moreover have "journal_ok P (rs_cache (sw_sync w)) e" if "e \<in> set (pd_entries p')" for e
    using old[OF that] inv by (auto simp: journal_inv_def journal_ok_def p_def split)
  ultimately show ?thesis using inv unfolding step journal_inv_def p_def[symmetric] by (simp add: split staged)
qed

lemma journal_inv_receive:
  assumes "journal_inv P w"
  shows "journal_inv P (sync_step len w (ck, Subscribe))"
  using assms
  by (auto simp: journal_inv_def numbers_ok_def numbers_def sync_receive_def pending_receive_def le_SucI
      dest: Suc_n_not_le_n[THEN notE, rotated])

text \<open>
  The names whose timer an event finds run out. Expiry is the one change of the list that
  is not journaled: the rules it takes off come back with the snapshot.
\<close>

fun expired_at :: "sync_world \<Rightarrow> sync_clock \<times> sync_event \<Rightarrow> rstr set" where
  "expired_at w (ck, PruneTick) =
     {n. \<exists>t. fmlookup (rc_expiries (rs_cache (sw_sync w))) n = Some t \<and> ex_at t \<le> ck_secs ck}"
| "expired_at w _ = {}"

lemma journal_inv_op:
  assumes "journal_inv P w" "expired_at w (ck, e) \<subseteq> P"
  shows "journal_inv P (w\<lparr> sw_sync := sync_op ck e (sw_sync w) \<rparr>)"
proof -
  have quiet: "rs_pending s = rs_pending (sw_sync w) \<Longrightarrow> rs_cache s = rs_cache (sw_sync w)
      \<Longrightarrow> journal_inv P (w\<lparr> sw_sync := s \<rparr>)" for s
    by (rule journal_inv_quiet[OF assms(1)]) simp_all
  have shrinks: "rs_pending s = rs_pending (sw_sync w)
      \<Longrightarrow> rc_snapshot_sequence (rs_cache s) = rc_snapshot_sequence (rs_cache (sw_sync w))
      \<Longrightarrow> rc_rules (rs_cache s) \<in> {None, rc_rules (rs_cache (sw_sync w))} \<Longrightarrow> journal_inv P (w\<lparr> sw_sync := s \<rparr>)" for s
    by (rule journal_inv_quiet[OF assms(1)]) (auto, metis sub_rules_refl)
  show ?thesis
  proof (cases e)
    case PruneTick
    let ?c = "rs_cache (sw_sync w)"
    have "set (expired_names (ck_secs ck) ?c) \<subseteq> P"
      using assms(2) by (auto simp: PruneTick expired_names_def split: option.splits)
    then have "rc_rules (fst (prune_expired_at (ck_secs ck) (ck_mono ck) ?c)) = Some rs'
        \<Longrightarrow> \<exists>rs. rc_rules ?c = Some rs \<and> sub_rules P rs' rs" for rs'
      by (auto simp: prune_expired_at_def Let_def fold_prune intro!: sub_rules_update(3) split: if_splits)
    moreover have "rs_cache (prune_tick ck (sw_sync w)) = fst (prune_expired_at (ck_secs ck) (ck_mono ck) ?c)"
      by (simp add: prune_tick_def Let_def case_prod_beta)
    ultimately show ?thesis unfolding PruneTick sync_op.simps
      by (intro journal_inv_quiet[OF assms(1)]) simp_all
  next
    case Withdraw
    show ?thesis unfolding Withdraw sync_op.simps
      by (rule shrinks) (simp_all add: sync_withdraw_def Let_def is_unknown_def)
  next
    case (CountPing reported up k)
    show ?thesis unfolding CountPing sync_op.simps
      by (rule shrinks) (simp_all add: observe_daemon_rules_def Let_def case_prod_beta observe_keeps_view(1))
  qed (simp_all add: assms(1) journal_inv_hello journal_inv_readopt journal_inv_upsert journal_inv_confirmed
      journal_inv_refused quiet del: sync_upsert_def)
qed

lemma journal_inv_step:
  assumes "journal_inv P w" "expired_at w (ck, e) \<subseteq> P"
  shows "journal_inv P (sync_step len w (ck, e))"
proof (cases rule: sync_step_cases[where e = e and len = len and w = w and ck = ck])
  case receive
  then show ?thesis using journal_inv_receive[OF assms(1)] by simp
next
  case (stage i key rules)
  then show ?thesis using journal_inv_stage[OF assms(1)] assms(1) by (cases "i < length (sw_receipts w)") simp_all
next
  case op
  then show ?thesis using journal_inv_op[OF assms] by simp
qed

lemma journal_inv_start: "journal_inv P new_sync_world"
  by (simp add: journal_inv_def numbers_ok_def numbers_def new_sync_world_def new_sync_def new_pending_def
      new_rules_cache_def)










section \<open>Bounds, and one adoption per stream\<close>

lemma record_pending: "rs_pending (sync_record x s) = rs_pending s
    \<or> rs_pending (sync_record x s) = pending_record (rc_snapshot_sequence (rs_cache s)) x (rs_pending s)"
  by (simp add: sync_record_def)

lemma pending_op_cases:
  obtains (same) "rs_pending (sync_op ck e s) = rs_pending s" "\<And>key stream. e \<noteq> Hello key stream"
  | (recorded) q x where "rs_pending (sync_op ck e s) = pending_record q x (rs_pending s)"
      "\<And>key stream. e \<noteq> Hello key stream"
  | (hello) key stream where "e = Hello key stream"
      "rs_pending (sync_op ck e s) = fst (adopt_fresh key stream (ck_mono ck) (rs_pending s))"
proof (cases e)
  case (Hello key stream)
  then show ?thesis
    using hello by (simp add: sync_commit_def Let_def case_prod_beta split: option.splits)
next
  case (PromptAnswer r)
  have "rs_pending (sync_upsert r ck s) = rs_pending s \<or> (\<exists>q x. rs_pending (sync_upsert r ck s) = pending_record q x (rs_pending s))"
    using record_pending[of "Prompt r (ck_secs ck)" s] record_pending[of "Prompt r (ck_secs ck)" "forget_hits [r_name r] s"]
    by (auto simp: sync_upsert_def Let_def)
  then show ?thesis using PromptAnswer same recorded by auto
next
  case (ConfirmedReply sent)
  have "rs_pending (sync_apply_confirmed sent ck s) = rs_pending s
      \<or> (\<exists>q x. rs_pending (sync_apply_confirmed sent ck s) = pending_record q x (rs_pending s))"
    by (auto simp: sync_apply_confirmed_def Let_def sync_record_def)
  then show ?thesis using ConfirmedReply same recorded by auto
next
  case (RefusedReply sent)
  have "rs_pending (sync_apply_refused sent ck s) = rs_pending s
      \<or> (\<exists>q x. rs_pending (sync_apply_refused sent ck s) = pending_record q x (rs_pending s))"
    by (auto simp: sync_apply_refused_def Let_def case_prod_beta sync_record_def)
  then show ?thesis using RefusedReply same recorded by auto
next
  case (Readopt key stream)
  then show ?thesis using same by (auto simp: sync_readopt_def split: option.splits)
qed (use same in simp_all)

definition pending_ok :: "pending_snapshots \<Rightarrow> bool" where
  "pending_ok p \<longleftrightarrow> length (pd_entries p) \<le> PENDING_SNAPSHOT_CAP \<and> distinct (map sg_key (pd_entries p))"

lemma journal_change_frame [simp]:
  "sg_key (journal_change x e) = sg_key e" "sg_adopted_by (journal_change x e) = sg_adopted_by e"
  by (simp_all add: journal_change_def)

lemma pending_ok_record: "pending_ok p \<Longrightarrow> pending_ok (pending_record q x p)"
  by (simp add: pending_ok_def pending_record_def map_update_first[where g = sg_key])

lemma pending_ok_adopt:
  assumes "pending_ok p"
  shows "pending_ok (fst (adopt_fresh key stream now p))"
proof -
  have "length (remove_first P xs) \<le> length xs" for P and xs :: "staged list"
    by (induction xs) auto
  then have "length (remove_first (\<lambda>e. sg_key e = key) (pd_entries p)) \<le> length (pd_entries p)" .
  then show ?thesis
    using assms distinct_map_remove_first[of sg_key]
    by (auto simp: pending_ok_def adopt_fresh_def map_update_first[where g = sg_key] split: option.split)
qed

lemma pending_ok_stage:
  assumes "pending_ok p"
  shows "pending_ok (pending_stage_received key snap now received p)"
proof -
  have "distinct (map sg_key (drop k (filter (\<lambda>e. sg_key e \<noteq> key) (filter P (pd_entries p)) @ [e])))"
    if "sg_key e = key" for k P e
    unfolding drop_map[symmetric] using assms that
    by (intro distinct_drop) (auto simp: pending_ok_def distinct_map_filter)
  moreover have "length (filter P (pd_entries p)) \<le> PENDING_SNAPSHOT_CAP" for P
    using assms le_trans[OF length_filter_le] by (auto simp: pending_ok_def)
  ultimately show ?thesis
    using assms
    by (auto simp: pending_ok_def pending_stage_received_def pop_to_cap_def Let_def distinct_map_filter simp del: drop_append)
qed

lemma pending_ok_step:
  assumes "pending_ok (rs_pending (sw_sync w))"
  shows "pending_ok (rs_pending (sw_sync (sync_step len w (ck, e))))"
proof (cases rule: sync_step_cases[where e = e and len = len and w = w and ck = ck])
  case receive
  then show ?thesis using assms by (simp add: sync_receive_def pending_receive_def pending_ok_def)
next
  case (stage i key rules)
  then show ?thesis using assms pending_ok_stage by (simp add: sync_stage_received_def)
next
  case op
  then show ?thesis
    using assms
    by (cases rule: pending_op_cases[where ck = ck and e = e and s = "sw_sync w"])
       (simp_all add: pending_ok_record pending_ok_adopt)
qed

interpretation pending_machine: state_machine "\<lambda>w. w = new_sync_world" "sync_step len"
  "\<lambda>w. pending_ok (rs_pending (sw_sync w))" for len :: "rule \<Rightarrow> nat"
proof unfold_locales
  show "w = new_sync_world \<Longrightarrow> pending_ok (rs_pending (sw_sync w))" for w
    by (simp add: new_sync_world_def new_sync_def new_pending_def pending_ok_def)
  show "pending_ok (rs_pending (sw_sync w)) \<Longrightarrow> pending_ok (rs_pending (sw_sync (sync_step len w e)))" for w e
    by (cases e) (simp add: pending_ok_step)
qed

text \<open>The adoptions of a run: which stream adopted the snapshot of which \<open>Subscribe\<close>.\<close>

fun adopted_at :: "sync_world \<Rightarrow> sync_clock \<times> sync_event \<Rightarrow> (stream_id \<times> nat) list" where
  "adopted_at w (ck, Hello key stream) =
     (case snd (adopt_fresh key stream (ck_mono ck) (rs_pending (sw_sync w))) of
        Some snap \<Rightarrow> [(stream, sn_sequence snap)] | None \<Rightarrow> [])"
| "adopted_at w _ = []"

fun adoptions :: "(rule \<Rightarrow> nat) \<Rightarrow> sync_world \<Rightarrow> (sync_clock \<times> sync_event) list \<Rightarrow> (stream_id \<times> nat) list" where
  "adoptions len w [] = []"
| "adoptions len w (e # es) = adopted_at w e @ adoptions len (sync_step len w e) es"

text \<open>An adoption that happened is written on the snapshot, for as long as it is staged.\<close>

definition noted :: "sync_world \<Rightarrow> stream_id \<times> nat \<Rightarrow> bool" where
  "noted w = (\<lambda>(stream, n). n \<le> pd_staged (rs_pending (sw_sync w)) \<and> n \<notin> set (map rp_sequence (sw_receipts w))
     \<and> (\<forall>e \<in> set (pd_entries (rs_pending (sw_sync w))). entry_seq e = n \<longrightarrow> stream \<in> set (sg_adopted_by e)))"

lemma set_update_first_cases: "y \<in> set (update_first P f xs) \<Longrightarrow> y \<in> set xs \<or> (\<exists>x \<in> set xs. P x \<and> y = f x)"
  by (induction xs) (auto split: if_splits)

lemma adopt_fresh_entries:
  "e' \<in> set (pd_entries (fst (adopt_fresh key stream now p))) \<Longrightarrow>
     \<exists>e \<in> set (pd_entries p). entry_seq e' = entry_seq e \<and> set (sg_adopted_by e) \<subseteq> set (sg_adopted_by e')"
  using set_remove_first[of "\<lambda>s. sg_key s = key" "pd_entries p"]
  by (auto simp: adopt_fresh_def dest!: set_update_first_cases split: option.splits if_splits)

lemma adopt_fresh_staged [simp]: "pd_staged (fst (adopt_fresh key stream now p)) = pd_staged p"
  by (simp add: adopt_fresh_def split: option.split)

lemma noted_op:
  assumes "noted w (stream, n)"
  shows "noted (w\<lparr> sw_sync := sync_op ck e (sw_sync w) \<rparr>) (stream, n)"
proof (cases rule: pending_op_cases[where ck = ck and e = e and s = "sw_sync w"])
  case same
  then show ?thesis using assms by (simp add: noted_def)
next
  case (recorded q x)
  then show ?thesis
    using assms by (auto simp: noted_def pending_record_def dest!: set_update_first_cases)
next
  case (hello key st)
  then show ?thesis
    using assms adopt_fresh_entries[of _ key st "ck_mono ck" "rs_pending (sw_sync w)"]
    by (simp add: noted_def) (metis subset_code(1))
qed

lemma noted_step:
  assumes "noted w (stream, n)"
  shows "noted (sync_step len w (ck, e)) (stream, n)"
proof (cases rule: sync_step_cases[where e = e and len = len and w = w and ck = ck])
  case receive
  then show ?thesis using assms by (auto simp: noted_def sync_receive_def pending_receive_def)
next
  case (stage i key rules)
  show ?thesis
  proof (cases "i < length (sw_receipts w)")
    case True
    then have "rp_sequence (sw_receipts w ! i) \<noteq> n" using assms by (auto simp: noted_def)
    moreover have "pd_staged (pending_stage_received key snap now received p) = pd_staged p" for snap now received p
      by (simp add: pending_stage_received_def Let_def)
    moreover have "set (take i xs @ drop (Suc i) xs) \<subseteq> set xs" for xs :: "receipt list"
      by (auto dest: in_set_takeD in_set_dropD)
    ultimately show ?thesis
      using True stage assms
      by (auto simp: noted_def sync_stage_received_def dest!: in_set_takeD in_set_dropD stage_entries)
  qed (use stage assms in simp)
next
  case op
  then show ?thesis using noted_op[OF assms] by simp
qed

lemma find_update_unique:
  "find P xs = Some s \<Longrightarrow> distinct (map g xs) \<Longrightarrow> y \<in> set (update_first P f xs) \<Longrightarrow> g y = g s \<Longrightarrow> y = f s"
proof (induction xs)
  case (Cons a xs)
  show ?case
  proof (cases "P a")
    case True
    then have "s = a" "y = f a \<or> y \<in> set xs" using Cons.prems by auto
    with Cons.prems show ?thesis by (auto simp: image_iff)
  next
    case False
    then have "s \<in> set xs" using Cons.prems(1) by (auto dest: find_Some_set)
    then have "g y \<noteq> g a" using Cons.prems by (auto simp: image_iff)
    with False Cons show ?thesis by auto
  qed
qed simp

lemma adoption_new:
  assumes "journal_inv P w" "adopted_at w (ck, e) = [(stream, n)]"
  shows "\<not> noted w (stream, n) \<and> noted (sync_step len w (ck, e)) (stream, n)"
proof -
  obtain key snap where e: "e = Hello key stream" and n: "n = sn_sequence snap"
    and af: "snd (adopt_fresh key stream (ck_mono ck) (rs_pending (sw_sync w))) = Some snap"
    using assms(2) by (cases e) (auto split: option.splits)
  let ?p = "rs_pending (sw_sync w)"
  let ?f = "\<lambda>s. s\<lparr> sg_adopted_by := sg_adopted_by s @ [stream] \<rparr>"
  from af obtain s where s: "find (\<lambda>s. sg_key s = key) (pd_entries ?p) = Some s" "stream \<notin> set (sg_adopted_by s)"
    "snap = sg_snapshot s"
    and p': "pd_entries (fst (adopt_fresh key stream (ck_mono ck) ?p)) = update_first (\<lambda>s. sg_key s = key) ?f (pd_entries ?p)"
    by (auto simp: adopt_fresh_def split: option.splits if_splits)
  have mem: "s \<in> set (pd_entries ?p)" "sg_key s = key" using find_Some_set[OF s(1)] by auto
  have step: "rs_pending (sw_sync (sync_step len w (ck, e))) = fst (adopt_fresh key stream (ck_mono ck) ?p)"
    by (simp add: e sync_commit_def Let_def case_prod_beta split: option.split)
  have receipts: "sw_receipts (sync_step len w (ck, e)) = sw_receipts w" by (simp add: e)
  have "n \<le> pd_staged ?p" "n \<notin> set (map rp_sequence (sw_receipts w))"
    using assms(1) mem(1) unfolding n s(3) journal_inv_def numbers_ok_def numbers_def by auto
  moreover have "stream \<in> set (sg_adopted_by e')"
    if e': "e' \<in> set (update_first (\<lambda>s. sg_key s = key) ?f (pd_entries ?p))" "entry_seq e' = n" for e'
  proof -
    have "e' = ?f s"
      using find_update_unique[OF s(1) numbers_distinct_entries[OF assms(1)] e'(1)] e'(2) by (simp add: n s(3))
    then show ?thesis by simp
  qed
  ultimately have "noted (sync_step len w (ck, e)) (stream, n)"
    by (simp add: noted_def step receipts p')
  moreover have "\<not> noted w (stream, n)" using mem(1) s(2,3) n by (auto simp: noted_def)
  ultimately show ?thesis by blast
qed

lemma adopted_at_short: "adopted_at w e = [] \<or> (\<exists>x. adopted_at w e = [x])"
  by (cases e; cases "snd e") (auto split: option.splits)

lemma adoptions_fresh:
  "journal_inv UNIV w \<Longrightarrow> (\<forall>x \<in> set (adoptions len w es). \<not> noted w x) \<and> distinct (adoptions len w es)"
proof (induction es arbitrary: w)
  case (Cons e es)
  obtain ck ev where e: "e = (ck, ev)" by (cases e)
  let ?w = "sync_step len w e"
  have ih: "\<forall>x \<in> set (adoptions len ?w es). \<not> noted ?w x" "distinct (adoptions len ?w es)"
    using Cons.IH[OF journal_inv_step[OF Cons.prems subset_UNIV, of len ck ev]] by (simp_all add: e)
  have later: "\<not> noted w x" if "x \<in> set (adoptions len ?w es)" for x
    using ih(1) that noted_step[of w "fst x" "snd x" len ck ev] by (auto simp: e)
  from adopted_at_short[of w e] show ?case
  proof
    assume "\<exists>x. adopted_at w e = [x]"
    then obtain stream n where x: "adopted_at w e = [(stream, n)]" by (metis surj_pair)
    from adoption_new[OF Cons.prems x[unfolded e], of len] ih later show ?thesis
      unfolding adoptions.simps x by (auto simp: e)
  qed (use ih(2) later in simp)
qed simp

text \<open>
  Staging is bounded and a stream cannot replay a list: after any run at most four
  snapshots are staged, each for a connection of its own, and no stream has adopted the
  snapshot of the same \<open>Subscribe\<close> with two of its HELLOs.
\<close>

theorem adopted_once_per_stream:
  "length (pd_entries (rs_pending (sw_sync (sync_run len es)))) \<le> 4
   \<and> distinct (map sg_key (pd_entries (rs_pending (sw_sync (sync_run len es)))))
   \<and> distinct (adoptions len new_sync_world es)"
  using pending_machine.inv_reachable[OF refl, of len es]
    adoptions_fresh[OF journal_inv_start, of len es]
  by (simp add: pending_ok_def PENDING_SNAPSHOT_CAP_def sync_run_def)

end
