(* ===== verification/Daemon_Machine.thy ===== *)
theory Daemon_Machine
  imports Daemon_Commands Bridge_Commands_Props Rules_Journal
begin

text \<open>
  The daemon side as one machine: streams open, say HELLO, answer and close, the parts of
  the bridge send commands and wait for them, and the rule list changes meanwhile. Its
  steps are the methods of \<open>Daemon_Commands\<close> and \<open>Rules_Sync\<close> in any order, and every
  step keeps \<open>daemon_inv\<close>: what the streams, the waiters and the queues may look like.
\<close>

section \<open>The machine\<close>

datatype request =
  UserCommand notification | BlocklistCommand notification | LeftoverDelete notification
| ProfileCommand notification | CuratedDirect curated_command | CuratedGuarded curated_command nat guard
| CuratedToggle rstr bool

record send_env =
  se_len :: "rule \<Rightarrow> nat"
  se_lib :: regex_lib
  se_entries :: "curated_entry list"
  se_tag :: "rstr \<Rightarrow> rstr option"

fun perform :: "send_env \<Rightarrow> request \<Rightarrow> daemon_commands \<Rightarrow> dispatched" where
  "perform env (UserCommand n) d = send (se_lib env) (se_entries env) n d"
| "perform env (BlocklistCommand n) d = send_blocklist (se_lib env) (se_entries env) n d"
| "perform env (LeftoverDelete n) d = send_leftover_delete (se_lib env) (se_entries env) n d"
| "perform env (ProfileCommand n) d = send_profile (se_lib env) (se_entries env) (se_tag env) n d"
| "perform env (CuratedDirect c) d = send_curated (se_lib env) (se_entries env) c d"
| "perform env (CuratedGuarded c generation g) d = send_curated_guarded_as (se_lib env) (se_entries env) c generation g d"
| "perform env (CuratedToggle name b) d = send_curated_toggle (se_lib env) (se_entries env) name b d"

text \<open>Events of the rule list that do not come through the daemon's streams.\<close>

fun outside_event :: "sync_event \<Rightarrow> bool" where
  "outside_event (Hello _ _) = False"
| "outside_event (Readopt _ _) = False"
| "outside_event Withdraw = False"
| "outside_event (ConfirmedReply _) = False"
| "outside_event (RefusedReply _) = False"
| "outside_event _ = True"

record daemon_world =
  dw_cmds :: daemon_commands
  dw_receipts :: "receipt list"

definition list_of :: "daemon_world \<Rightarrow> sync_world" where
  "list_of w = \<lparr> sw_sync = dc_rules (dw_cmds w), sw_receipts = dw_receipts w \<rparr>"

inductive daemon_step :: "send_env \<Rightarrow> daemon_world \<Rightarrow> daemon_world \<Rightarrow> bool" for env where
  opened: "daemon_step env w (w\<lparr> dw_cmds := fst (open_stream conn (dw_cmds w)) \<rparr>)"
| replied: "daemon_step env w (w\<lparr> dw_cmds := fst (on_reply ck stream reply (dw_cmds w)) \<rparr>)"
| closed: "daemon_step env w (w\<lparr> dw_cmds := close_stream ck stream (dw_cmds w) \<rparr>)"
| sent: "perform env req (dw_cmds w) = Some (result, d) \<Longrightarrow> daemon_step env w (w\<lparr> dw_cmds := d \<rparr>)"
| pinned: "daemon_step env w (w\<lparr> dw_cmds := fst (pin_blocklist_root root (dw_cmds w)) \<rparr>)"
| timed_out: "daemon_step env w (w\<lparr> dw_cmds := wait_timeout ck ident (dw_cmds w) \<rparr>)"
| wait_dropped: "daemon_step env w (w\<lparr> dw_cmds := drop_pending ident (dw_cmds w) \<rparr>)"
| received: "daemon_step env w (w\<lparr> dw_cmds := fst (stream_recv stream (dw_cmds w)) \<rparr>)"
| receiver_gone: "daemon_step env w (w\<lparr> dw_cmds := receiver_dropped stream (dw_cmds w) \<rparr>)"
| listed: "outside_event e \<Longrightarrow> sync_step (se_len env) (list_of w) (ck, e) = \<lparr> sw_sync = rules, sw_receipts = rcs \<rparr> \<Longrightarrow>
    daemon_step env w \<lparr> dw_cmds = (dw_cmds w)\<lparr> dc_rules := rules \<rparr>, dw_receipts = rcs \<rparr>"

inductive_cases daemon_stepE: "daemon_step env w w'"

definition new_world :: "transport \<Rightarrow> daemon_world" where
  "new_world transport = \<lparr> dw_cmds = new_commands transport new_sync, dw_receipts = [] \<rparr>"

abbreviation daemon_reaches :: "send_env \<Rightarrow> transport \<Rightarrow> daemon_world \<Rightarrow> bool" where
  "daemon_reaches env transport \<equiv> reachable (\<lambda>w. w = new_world transport) (daemon_step env)"

section \<open>What an operation leaves alone\<close>

lemma refused_eq [simp]: "refused e d = Some (res, d') \<longleftrightarrow> res = Inl e \<and> d' = d"
  by (auto simp: refused_def)

text \<open>Everything but the queues is kept when a command is queued.\<close>

definition same_streams :: "daemon_commands \<Rightarrow> daemon_commands \<Rightarrow> bool" where
  "same_streams d d' \<longleftrightarrow> (\<forall>s. rel_option (\<lambda>a b. os_conn a = os_conn b \<and> os_hello a = os_hello b)
      (fmlookup (dc_streams d) s) (fmlookup (dc_streams d') s))"

lemma same_streams_refl [simp]: "same_streams d d"
  by (auto simp: same_streams_def option.rel_refl)

lemma same_streams_trans: "same_streams a b \<Longrightarrow> same_streams b c \<Longrightarrow> same_streams a c"
  unfolding same_streams_def
  by (metis (mono_tags, lifting) option.rel_sel)

lemma same_streams_upd:
  assumes "fmlookup (dc_streams d) t = Some os" "os_conn os' = os_conn os" "os_hello os' = os_hello os"
  shows "same_streams d (d\<lparr> dc_streams := fmupd t os' (dc_streams d) \<rparr>)"
  using assms by (auto simp: same_streams_def option.rel_refl)

lemma queue_on_frame:
  assumes "queue_on ts n d = Some (d', k)"
  shows "d' = d\<lparr> dc_streams := dc_streams d' \<rparr> \<and> same_streams d d'"
  using assms
proof (induction ts arbitrary: d k)
  case (Cons t ts)
  obtain os where os: "fmlookup (dc_streams d) t = Some os" using Cons.prems by (auto split: option.splits)
  show ?case
  proof (cases "os_reading os \<and> length (os_queue os) < STREAM_QUEUE_CAPACITY")
    case True
    let ?d = "d\<lparr> dc_streams := fmupd t (os\<lparr> os_queue := os_queue os @ [n] \<rparr>) (dc_streams d) \<rparr>"
    from True Cons.prems os obtain k' where "queue_on ts n ?d = Some (d', k')" by auto
    from Cons.IH[OF this] show ?thesis
      using same_streams_upd[OF os, of "os\<lparr> os_queue := os_queue os @ [n] \<rparr>"] same_streams_trans
      by (auto intro: same_streams_trans)
  next
    case False
    then show ?thesis using Cons os by auto
  qed
qed simp

lemma enqueue_frame:
  assumes "enqueue n ts stream d = Some (res, d')"
  shows "\<exists>streams waiters. d' = d\<lparr> dc_next_id := dc_next_id d + 1, dc_streams := streams, dc_waiters := waiters \<rparr>
    \<and> same_streams d d'
    \<and> (waiters = dc_waiters d \<or> waiters = fmupd (dc_next_id d) \<lparr> wt_stream = stream, wt_command = n\<lparr> n_id := dc_next_id d \<rparr> \<rparr> (dc_waiters d))"
proof -
  obtain e k where q: "queue_on ts (n\<lparr> n_id := dc_next_id d \<rparr>) (d\<lparr> dc_next_id := dc_next_id d + 1 \<rparr>) = Some (e, k)"
    using assms by (auto simp: enqueue_def Let_def split: option.splits)
  from queue_on_frame[OF q] obtain streams where e: "e = d\<lparr> dc_next_id := dc_next_id d + 1, dc_streams := streams \<rparr>"
    and same: "same_streams d e" by (force simp: same_streams_def)
  have "d' = e \<or> d' = e\<lparr> dc_waiters := fmupd (dc_next_id d) \<lparr> wt_stream = stream, wt_command = n\<lparr> n_id := dc_next_id d \<rparr> \<rparr> (dc_waiters e) \<rparr>"
    using assms q by (auto simp: enqueue_def Let_def split: if_splits)
  then show ?thesis
  proof
    assume "d' = e"
    then have "d' = d\<lparr> dc_next_id := dc_next_id d + 1, dc_streams := streams, dc_waiters := dc_waiters d \<rparr>"
      using e by simp
    then show ?thesis using same \<open>d' = e\<close> by blast
  next
    let ?ws = "fmupd (dc_next_id d) \<lparr> wt_stream = stream, wt_command = n\<lparr> n_id := dc_next_id d \<rparr> \<rparr> (dc_waiters d)"
    assume d': "d' = e\<lparr> dc_waiters := fmupd (dc_next_id d) \<lparr> wt_stream = stream, wt_command = n\<lparr> n_id := dc_next_id d \<rparr> \<rparr> (dc_waiters e) \<rparr>"
    then have "d' = d\<lparr> dc_next_id := dc_next_id d + 1, dc_streams := streams, dc_waiters := ?ws \<rparr>"
      using e by simp
    moreover have "same_streams d d'" using same d' by (simp add: same_streams_def)
    ultimately show ?thesis by blast
  qed
qed

section \<open>What is sent, and to whom\<close>

text \<open>
  A user's rule, or one of the bridge's own kinds of rule in its reviewed shape: a blocklist
  rule reading the pinned directory, an enabled profile rule the bridge tagged, or a shipped
  default as an entry of the data file has it (a copy in the old form only turned off).
\<close>

definition user_rule_ok :: "send_env \<Rightarrow> action \<Rightarrow> rule \<Rightarrow> bool" where
  "user_rule_ok env a r \<longleftrightarrow>
     \<not> is_reserved_name (r_name r)
     \<and> (a = ChangeRule \<longrightarrow> (\<exists>op. r_operator r = Some op \<and> validate_operator (se_lib env) op = Inr ()))"

definition blocklist_rule_ok :: "rstr option \<Rightarrow> action \<Rightarrow> rule \<Rightarrow> bool" where
  "blocklist_rule_ok root a r \<longleftrightarrow>
     is_reserved_blocklist_name (r_name r) \<and> (a = DeleteRule \<longrightarrow> r_operator r = None)
     \<and> (a = ChangeRule \<longrightarrow> r_action r = lit ''deny'' \<and> r_duration r = lit ''always'' \<and> r_enabled r \<and> \<not> r_precedence r
          \<and> (\<exists>dir kind data. root = Some dir \<and> data_matches data kind (r_name r) dir
               \<and> r_operator r = Some (Operator (lit ''lists'') (list_operand kind) data False [])))"

definition profile_rule_ok :: "send_env \<Rightarrow> action \<Rightarrow> rule \<Rightarrow> bool" where
  "profile_rule_ok env a r \<longleftrightarrow>
     is_reserved_profile_name (r_name r) \<and> (a = DeleteRule \<longrightarrow> r_operator r = None)
     \<and> (a = ChangeRule \<longrightarrow> r_enabled r \<and> se_tag env (r_description r) = Some (lit ''profile'')
          \<and> validate_user_rule (se_lib env) r ProfileRule = Inr ())"

definition curated_rule_ok :: "send_env \<Rightarrow> action \<Rightarrow> rule \<Rightarrow> bool" where
  "curated_rule_ok env a r \<longleftrightarrow>
     is_reserved_curated_name (r_name r) \<and> (a = DeleteRule \<longrightarrow> r_operator r = None \<and> curated_name (r_name r))
     \<and> (a = ChangeRule \<longrightarrow> check_curated_rule (se_lib env) r = Inr ()
          \<and> (\<exists>e. entry_for_rule_name (se_entries env) (r_name r) = Some e
               \<and> (is_unedited (se_lib env) (Some e) None r \<or> \<not> r_enabled r \<and> is_legacy (se_lib env) e r)))"

definition permitted_rule :: "send_env \<Rightarrow> rstr option \<Rightarrow> action \<Rightarrow> rule \<Rightarrow> bool" where
  "permitted_rule env root a r \<longleftrightarrow>
     validate_rule_name (r_name r) = Inr () \<and> \<not> is_reserved_packaged_name (r_name r)
     \<and> (user_rule_ok env a r \<or> blocklist_rule_ok root a r \<or> profile_rule_ok env a r \<or> curated_rule_ok env a r)"

definition permitted :: "send_env \<Rightarrow> rstr option \<Rightarrow> notification \<Rightarrow> bool" where
  "permitted env root n \<longleftrightarrow>
     n_type n \<in> {ChangeRule, DeleteRule} \<and> (\<forall>r \<in> set (n_rules n). permitted_rule env root (n_type n) r)"

lemma sendable_names:
  "check_sendable n = Inr () \<Longrightarrow> n_type n \<in> {ChangeRule, DeleteRule} \<and> (\<forall>r \<in> set (n_rules n). validate_rule_name (r_name r) = Inr ())"
  by (auto simp: check_sendable_def ALLOWED_ACTIONS_def list_ex_iff split: if_splits)

text \<open>No name is under two of the reserved prefixes.\<close>

lemma reserved_prefixes_disjoint:
  "is_reserved_packaged_name n \<Longrightarrow> \<not> is_reserved_blocklist_name n"
  "is_reserved_packaged_name n \<Longrightarrow> \<not> is_reserved_profile_name n"
  "is_reserved_packaged_name n \<Longrightarrow> \<not> is_reserved_curated_name n"
proof -
  have apart: "\<not> prefix p n \<or> \<not> prefix q n" if "length q \<le> length p" "hd p \<noteq> hd q \<or> p ! 1 \<noteq> q ! 1" "2 \<le> length q" for p q :: rstr
  proof (rule ccontr)
    assume "\<not> ?thesis"
    then have "prefix q p" using that(1) by (blast intro: prefix_length_prefix)
    then obtain z where "p = q @ z" by (auto simp: prefix_def)
    then show False using that(2,3) by (cases q; cases "tl q") auto
  qed
  have "\<not> prefix PACKAGED_RULE_NAME_PREFIX n \<or> \<not> prefix BLOCKLIST_RULE_NAME_PREFIX n"
    "\<not> prefix PACKAGED_RULE_NAME_PREFIX n \<or> \<not> prefix LEGACY_BLOCKLIST_RULE_NAME_PREFIX n"
    "\<not> prefix PACKAGED_RULE_NAME_PREFIX n \<or> \<not> prefix PROFILE_RULE_NAME_PREFIX n"
    "\<not> prefix CURATED_DEFAULT_RULE_NAME_PREFIX n \<or> \<not> prefix PACKAGED_RULE_NAME_PREFIX n"
    by (rule apart; code_simp)+
  then show "is_reserved_packaged_name n \<Longrightarrow> \<not> is_reserved_blocklist_name n"
    and "is_reserved_packaged_name n \<Longrightarrow> \<not> is_reserved_profile_name n"
    and "is_reserved_packaged_name n \<Longrightarrow> \<not> is_reserved_curated_name n"
    unfolding is_reserved_packaged_name_def is_reserved_blocklist_name_def is_reserved_profile_name_def
      is_reserved_curated_name_def by blast+
qed

lemma from_operand_Some: "from_operand x = Some kind \<Longrightarrow> x = list_operand kind"
  by (auto simp: from_operand_def split: if_splits)

lemma permitted_user:
  assumes "check_sendable n = Inr ()" "\<not> list_ex (\<lambda>r. is_reserved_name (r_name r)) (n_rules n)"
    and "\<not> (n_type n = ChangeRule
              \<and> list_ex (\<lambda>r. case r_operator r of Some op \<Rightarrow> validate_operator (se_lib env) op \<noteq> Inr () | None \<Rightarrow> True) (n_rules n))"
  shows "permitted env root n"
  using sendable_names[OF assms(1)] assms(2,3)
  by (fastforce simp: permitted_def permitted_rule_def user_rule_ok_def list_ex_iff is_reserved_name_def split: option.splits)

lemma permitted_blocklist:
  assumes "blocklist_check n root = Inr ()"
  shows "permitted env root n"
proof -
  obtain r where r: "n_rules n = [r]" using assms by (auto simp: blocklist_check_def split: list.splits)
  from assms r have name: "validate_rule_name (r_name r) = Inr ()"
    and cases: "(n_type n = DeleteRule \<and> is_reserved_blocklist_name (r_name r) \<and> r_operator r = None) \<or> n_type n = ChangeRule"
    by (auto simp: blocklist_check_def split: if_splits)
  show ?thesis
  proof (cases "n_type n = DeleteRule")
    case True
    then show ?thesis using name cases r reserved_prefixes_disjoint(1)[of "r_name r"]
      by (auto simp: permitted_def permitted_rule_def blocklist_rule_ok_def)
  next
    case False
    with cases have change: "n_type n = ChangeRule" by blast
    from assms r False change name obtain dir op kind where *: "root = Some dir" "prefix BLOCKLIST_RULE_NAME_PREFIX (r_name r)"
        "r_action r = lit ''deny''" "r_duration r = lit ''always''" "r_enabled r" "\<not> r_precedence r" "r_operator r = Some op"
        "op_type op = lit ''lists''" "op_list op = []" "from_operand (op_operand op) = Some kind"
        "data_matches (op_data op) kind (r_name r) dir" "\<not> op_sensitive op"
      by (simp add: blocklist_check_def Let_def split: if_splits option.splits)
    have op: "op = Operator (lit ''lists'') (list_operand kind) (op_data op) False []"
      using *(8-10,12) from_operand_Some by (cases op) simp
    have "is_reserved_blocklist_name (r_name r)" using *(2) by (simp add: is_reserved_blocklist_name_def)
    then show ?thesis
      using name r change * op reserved_prefixes_disjoint(1)[of "r_name r"]
      unfolding permitted_def permitted_rule_def blocklist_rule_ok_def by auto
  qed
qed

lemma permitted_profile:
  assumes "profile_check (se_lib env) (se_tag env) n = Inr ()"
  shows "permitted env root n"
proof -
  obtain r where r: "n_rules n = [r]" using assms by (auto simp: profile_check_def split: list.splits)
  then show ?thesis
    using assms reserved_prefixes_disjoint(2)[of "r_name r"]
    by (auto simp: profile_check_def permitted_def permitted_rule_def profile_rule_ok_def made_by_bridge_def split: if_splits option.splits)
qed

lemma permitted_curated:
  assumes "curated_check (se_lib env) (se_entries env) c = Inr ()"
  shows "permitted env root (cc_notification c)"
proof -
  obtain r where r: "n_rules (cc_notification c) = [r]" using assms by (auto simp: curated_check_def split: list.splits)
  have named: "is_reserved_curated_name (r_name r)"
    if "curated_name (r_name r) \<or> check_curated_rule (se_lib env) r = Inr ()"
    using that by (auto simp: curated_name_def check_curated_rule_def strip_curated_def is_reserved_curated_name_def
        split: option.splits if_splits)
  have name: "validate_rule_name (r_name r) = Inr ()" "n_type (cc_notification c) \<in> {ChangeRule, DeleteRule}"
    using assms r by (auto simp: curated_check_def split: if_splits)
  have "curated_rule_ok env (n_type (cc_notification c)) r"
    using assms r named by (auto simp: curated_check_def curated_rule_ok_def split: if_splits option.splits)
  moreover from this have "\<not> is_reserved_packaged_name (r_name r)"
    using reserved_prefixes_disjoint(3) by (auto simp: curated_rule_ok_def)
  ultimately show ?thesis using r name by (simp add: permitted_def permitted_rule_def)
qed

text \<open>Where a queued command goes, and what its waiter waits for.\<close>

definition addressed :: "daemon_commands \<Rightarrow> stream_id list \<Rightarrow> stream_id option \<Rightarrow> bool" where
  "addressed d ts stream \<longleftrightarrow>
     (dc_transport d = Tcp \<and> ts = fm_keys (dc_streams d) \<and> ts \<noteq> [] \<and> stream = None)
     \<or> (\<exists>s. dc_current d = Some s \<and> ts = [s] \<and> stream = Some s)"

lemma curated_admission_Inr:
  "curated_admission lib es n generation g d = Inr ts \<Longrightarrow> \<exists>s. dc_current d = Some s \<and> dc_committed_by d = Some s \<and> ts = [s]"
  by (auto simp: curated_admission_def split: if_splits option.splits list.splits)

lemma usual_targets_addressed:
  assumes "targets d delivery = Inr ts" "dc_committed_by d = None \<or> dc_committed_by d = dc_current d"
  shows "addressed d ts (case dc_transport d of Tcp \<Rightarrow> None | Unix \<Rightarrow> dc_current d)"
  using assms
  by (cases "dc_transport d"; cases delivery) (auto simp: targets_def addressed_def split: if_splits option.splits)

definition sends :: "send_env \<Rightarrow> daemon_commands \<Rightarrow> (send_error + nat) \<Rightarrow> daemon_commands \<Rightarrow> bool" where
  "sends env d res d' \<longleftrightarrow> (d' = d \<and> isl res)
     \<or> (\<exists>n ts stream. permitted env (dc_blocklist_root d) n \<and> addressed d ts stream \<and> enqueue n ts stream d = Some (res, d'))"

lemma sends_refused [simp]: "refused e d = Some (res, d') \<Longrightarrow> sends env d res d'"
  by (simp add: sends_def)

lemma dispatch_sends:
  assumes sent: "dispatch_via_checked lib es n delivery curated d = Some (res, d')"
    and by_current: "dc_committed_by d = None \<or> dc_committed_by d = dc_current d"
    and permitted: "check_sendable n = Inr () \<Longrightarrow> permitted env (dc_blocklist_root d) n"
  shows "sends env d res d'"
proof (cases "check_sendable n")
  case (Inr u)
  then have ok: "permitted env (dc_blocklist_root d) n" using permitted by simp
  show ?thesis
  proof (cases "targets d delivery")
    case (Inr ts)
    show ?thesis
    proof (cases "delivery = CommittedStream \<and> \<not> has_list (dc_rules d)")
      case True
      then show ?thesis using sent Inr \<open>check_sendable n = Inr u\<close> by (simp add: dispatch_via_checked_def sends_def)
    next
      case False
      note here = sent[unfolded dispatch_via_checked_def \<open>check_sendable n = Inr u\<close> Inr sum.case if_not_P[OF False]]
      show ?thesis
      proof (cases curated)
        case None
        then show ?thesis using here ok usual_targets_addressed[OF Inr by_current] by (auto simp: sends_def)
      next
        case (Some g)
        obtain generation gd where g: "g = (generation, gd)" by (cases g)
        show ?thesis
        proof (cases "curated_admission lib es n generation gd d")
          case (Inl e)
          then show ?thesis using here Some g by (simp add: sends_def)
        next
          case admitted: (Inr us)
          from curated_admission_Inr[OF admitted] have "addressed d us (dc_committed_by d)"
            by (auto simp: addressed_def)
          then show ?thesis using here Some g admitted ok by (auto simp: sends_def)
        qed
      qed
    qed
  qed (use sent Inr in \<open>simp add: dispatch_via_checked_def sends_def\<close>)
qed (use sent in \<open>simp add: dispatch_via_checked_def sends_def\<close>)

lemma curated_sends:
  assumes "send_curated (se_lib env) (se_entries env) c d = Some (res, d')"
    and "dc_committed_by d = None \<or> dc_committed_by d = dc_current d"
  shows "sends env d res d'"
  using assms(1) dispatch_sends[OF _ assms(2)] permitted_curated
  by (auto simp: send_curated_def dispatch_def split: sum.splits if_splits)

lemma perform_sends:
  assumes sent: "perform env req d = Some (res, d')"
    and by_current: "dc_committed_by d = None \<or> dc_committed_by d = dc_current d"
  shows "sends env d res d'"
proof (cases req)
  case (UserCommand n)
  then show ?thesis
    using sent dispatch_sends[OF _ by_current permitted_user[where env = env], of "se_lib env" "se_entries env" n Usual None res d']
    by (auto simp: send_def dispatch_def split: if_splits)
next
  case (LeftoverDelete n)
  have "permitted env (dc_blocklist_root d) n" if "blocklist_check n None = Inr ()" "n_type n = DeleteRule"
    using permitted_blocklist[OF that(1), of env] that(2) by (auto simp: permitted_def permitted_rule_def blocklist_rule_ok_def)
  then show ?thesis
    using LeftoverDelete sent dispatch_sends[OF _ by_current]
    by (auto simp: send_leftover_delete_def split: if_splits sum.splits)
next
  case (BlocklistCommand n)
  then show ?thesis
    using sent dispatch_sends[OF _ by_current] permitted_blocklist
    by (auto simp: send_blocklist_def dispatch_def split: sum.splits)
next
  case (ProfileCommand n)
  then show ?thesis
    using sent dispatch_sends[OF _ by_current] permitted_profile
    by (auto simp: send_profile_def dispatch_def split: sum.splits)
next
  case (CuratedDirect c)
  then show ?thesis
    using sent curated_sends[OF _ by_current] by auto
next
  case (CuratedGuarded c generation g)
  then show ?thesis
    using sent dispatch_sends[OF _ by_current] permitted_curated
    by (auto simp: send_curated_guarded_as_def split: sum.splits)
next
  case (CuratedToggle name b)
  let ?c = "Option.bind (Option.bind (rc_rules (rs_cache (dc_rules d))) (\<lambda>rules. fmlookup rules name))
      (\<lambda>c. toggle_command (se_lib env) (se_entries env) c b)"
  show ?thesis
  proof (cases ?c)
    case None
    then show ?thesis using sent CuratedToggle by (simp add: send_curated_toggle_def Let_def)
  next
    case (Some c)
    note here = sent[unfolded CuratedToggle perform.simps send_curated_toggle_def Let_def Some option.case]
    show ?thesis
    proof (cases "case entry_for_rule_name (se_entries env) name of Some e \<Rightarrow> broad e | None \<Rightarrow> False")
      case True
      then show ?thesis
        using here dispatch_sends[OF _ by_current] permitted_curated
        by (auto split: sum.splits if_splits)
    next
      case False
      then show ?thesis using here curated_sends[OF _ by_current] by auto
    qed
  qed
qed

text \<open>The command a request carries, and the requests that may carry a rule reaching any address.\<close>

definition carried :: "send_env \<Rightarrow> daemon_commands \<Rightarrow> request \<Rightarrow> notification option" where
  "carried env d req =
     (case req of
        UserCommand n \<Rightarrow> Some n | BlocklistCommand n \<Rightarrow> Some n | LeftoverDelete n \<Rightarrow> Some n | ProfileCommand n \<Rightarrow> Some n
      | CuratedDirect c \<Rightarrow> Some (cc_notification c) | CuratedGuarded c _ _ \<Rightarrow> Some (cc_notification c)
      | CuratedToggle name b \<Rightarrow>
          map_option cc_notification (Option.bind (Option.bind (rc_rules (rs_cache (dc_rules d))) (\<lambda>rules. fmlookup rules name))
            (\<lambda>c. toggle_command (se_lib env) (se_entries env) c b)))"

definition broad_authorized_request :: "request \<Rightarrow> bool" where
  "broad_authorized_request req = (case req of CuratedGuarded c _ _ \<Rightarrow> cc_broad_authorized c | _ \<Rightarrow> False)"

lemma dispatch_enqueues:
  assumes "dispatch_via_checked lib es n delivery curated d = Some (Inr i, d')"
  shows "\<exists>ts stream. enqueue n ts stream d = Some (Inr i, d')"
  using assms by (fastforce simp: dispatch_via_checked_def split: sum.splits if_splits option.splits prod.splits)

lemma curated_enqueues:
  "send_curated lib es c d = Some (Inr i, d') \<Longrightarrow> \<exists>ts stream. enqueue (cc_notification c) ts stream d = Some (Inr i, d')"
  using dispatch_enqueues by (auto simp: send_curated_def dispatch_def split: sum.splits if_splits)

lemma perform_carried:
  assumes "perform env req d = Some (Inr i, d')"
  shows "\<exists>n ts stream. carried env d req = Some n \<and> enqueue n ts stream d = Some (Inr i, d')"
proof (cases req)
  case (CuratedToggle name b)
  let ?c = "Option.bind (Option.bind (rc_rules (rs_cache (dc_rules d))) (\<lambda>rules. fmlookup rules name))
      (\<lambda>c. toggle_command (se_lib env) (se_entries env) c b)"
  obtain c where c: "?c = Some c" using assms CuratedToggle by (cases ?c) (auto simp: send_curated_toggle_def Let_def)
  then have "carried env d req = Some (cc_notification c)" using CuratedToggle by (simp add: carried_def)
  moreover note here = assms[unfolded CuratedToggle perform.simps send_curated_toggle_def Let_def c option.case]
  have "\<exists>ts stream. enqueue (cc_notification c) ts stream d = Some (Inr i, d')"
    using here dispatch_enqueues curated_enqueues by (auto split: sum.splits if_splits)
  ultimately show ?thesis by blast
qed (use assms dispatch_enqueues curated_enqueues in \<open>auto simp: carried_def send_def send_blocklist_def send_leftover_delete_def
      send_profile_def send_curated_guarded_as_def dispatch_def split: sum.splits if_splits\<close>)

lemma broad_rule_name: "broad_rule es r \<Longrightarrow> is_reserved_curated_name (r_name r)"
proof -
  assume "broad_rule es r"
  then obtain e where "entry_for_rule_name es (r_name r) = Some e" by (auto simp: broad_rule_def split: option.splits)
  then have "entry_rule_name e = r_name r" by (auto simp: entry_for_rule_name_def find_Some_iff)
  then show ?thesis unfolding is_reserved_curated_name_def entry_rule_name_def by (metis prefixI)
qed

lemma curated_prefix_apart:
  "is_reserved_curated_name n \<Longrightarrow> \<not> is_reserved_blocklist_name n \<and> \<not> is_reserved_profile_name n \<and> is_reserved_name n"
proof -
  have apart: "\<not> prefix p n \<or> \<not> prefix q n" if "length q \<le> length p" "\<not> prefix q p" for p q :: rstr
    using that by (meson prefix_length_prefix)
  have "\<not> prefix CURATED_DEFAULT_RULE_NAME_PREFIX n \<or> \<not> prefix BLOCKLIST_RULE_NAME_PREFIX n"
    "\<not> prefix CURATED_DEFAULT_RULE_NAME_PREFIX n \<or> \<not> prefix LEGACY_BLOCKLIST_RULE_NAME_PREFIX n"
    "\<not> prefix CURATED_DEFAULT_RULE_NAME_PREFIX n \<or> \<not> prefix PROFILE_RULE_NAME_PREFIX n"
    by (rule apart; code_simp)+
  then show "is_reserved_curated_name n \<Longrightarrow> \<not> is_reserved_blocklist_name n \<and> \<not> is_reserved_profile_name n \<and> is_reserved_name n"
    by (auto simp: is_reserved_curated_name_def is_reserved_blocklist_name_def is_reserved_profile_name_def is_reserved_name_def)
qed

lemma curated_check_broad:
  "curated_check lib es c = Inr () \<Longrightarrow> n_type (cc_notification c) = ChangeRule \<Longrightarrow> r \<in> set (n_rules (cc_notification c))
     \<Longrightarrow> broad_rule es r \<Longrightarrow> cc_broad_authorized c"
  by (auto simp: curated_check_def split: list.splits if_splits)

lemma toggle_unauthorized: "toggle_command lib es current b = Some c \<Longrightarrow> \<not> cc_broad_authorized c"
  by (auto simp: toggle_command_def curated_change_def Let_def split: if_splits option.splits)

lemma blocklist_check_name:
  "blocklist_check n pinned = Inr () \<Longrightarrow> r \<in> set (n_rules n) \<Longrightarrow> is_reserved_blocklist_name (r_name r)"
  by (auto simp: blocklist_check_def is_reserved_blocklist_name_def Let_def split: list.splits if_splits option.splits)

lemma broad_needs_authority:
  assumes "perform env req d = Some (Inr i, d')" "carried env d req = Some n" "n_type n = ChangeRule"
    and "r \<in> set (n_rules n)" "broad_rule (se_entries env) r"
  shows "broad_authorized_request req"
proof -
  note name = curated_prefix_apart[OF broad_rule_name[OF assms(5)]]
  have direct: False if "send_curated (se_lib env) (se_entries env) c d = Some (Inr i, d')" "cc_notification c = n" for c
    using that assms(3-5) by (auto simp: send_curated_def curated_check_def split: sum.splits list.splits if_splits)
  show ?thesis
  proof (cases req)
    case (CuratedGuarded c g x)
    then show ?thesis
      using assms curated_check_broad[of "se_lib env" "se_entries env" c r]
      by (auto simp: carried_def broad_authorized_request_def send_curated_guarded_as_def split: sum.splits)
  next
    case (CuratedToggle name b)
    let ?c = "Option.bind (Option.bind (rc_rules (rs_cache (dc_rules d))) (\<lambda>rules. fmlookup rules name))
        (\<lambda>c. toggle_command (se_lib env) (se_entries env) c b)"
    obtain c where c: "?c = Some c" "cc_notification c = n"
      using assms(2) CuratedToggle by (auto simp: carried_def)
    have unauthorized: "\<not> cc_broad_authorized c" using c(1) toggle_unauthorized by (auto split: bind_splits)
    note here = assms(1)[unfolded CuratedToggle perform.simps send_curated_toggle_def Let_def c(1) option.case]
    show ?thesis
      using here direct[of c] c(2) assms(3-5) unauthorized curated_check_broad[of "se_lib env" "se_entries env" c r]
      by (auto split: sum.splits if_splits)
  qed (use assms name direct blocklist_check_name in \<open>auto simp: carried_def send_def send_blocklist_def send_leftover_delete_def
      send_profile_def profile_check_def list_ex_iff split: sum.splits list.splits if_splits\<close>)
qed

section \<open>Nothing appears in the list by itself\<close>

text \<open>The cache shows nothing: no list, and no count of a list over the limits.\<close>

definition blank :: "rules_cache \<Rightarrow> bool" where
  "blank c \<longleftrightarrow> rc_rules c = None \<and> rc_over_limit_total c = None"

lemma blank_withdrawn [simp]: "blank (rs_cache (sync_withdraw s))"
  by (auto simp: blank_def sync_withdraw_def set_unknown_def is_unknown_def Let_def)

lemma commit_nothing: "sync_commit key stream ck s = (s', AdoptedNothing) \<Longrightarrow> rs_cache s' = rs_cache s"
  by (auto simp: sync_commit_def sync_adopt_def Let_def split: option.splits prod.splits)

lemma readopt_nothing: "sync_readopt key stream ck s = (s', AdoptedNothing) \<Longrightarrow> rs_cache s' = rs_cache s"
  by (auto simp: sync_readopt_def sync_adopt_def Let_def split: option.splits if_splits)

lemma blank_fold: "(\<And>x c. blank c \<Longrightarrow> blank (f x c)) \<Longrightarrow> blank c \<Longrightarrow> blank (fold f xs c)"
  by (induction xs arbitrary: c) simp_all

lemmas blank_ops = blank_def bump_def forget_file_left_def forget_file_left_if_held_def mark_file_left_def
  upsert_at_def remove_rule_def apply_confirmed_rule_def apply_not_saved_rule_def note_maybe_applied_def
  is_unknown_def contains_def Let_def

lemma blank_confirmed: "blank c \<Longrightarrow> blank (apply_confirmed_at sent now clock c)"
  unfolding apply_confirmed_at_def by (auto intro!: blank_fold) (auto simp: blank_ops)

lemma blank_refused: "blank c \<Longrightarrow> blank (fst (apply_refused_at sent now clock c))"
  unfolding apply_refused_at_def Let_def fst_conv
  by (auto intro!: blank_fold split: refused_effect.split) (auto simp: blank_ops)

lemma blank_op:
  assumes "blank (rs_cache s)" "\<forall>key stream. e \<noteq> Hello key stream \<and> e \<noteq> Readopt key stream"
  shows "blank (rs_cache (sync_op ck e s))"
proof (cases e)
  case (ConfirmedReply sent)
  then show ?thesis using blank_confirmed[OF assms(1)] by (simp add: sync_apply_confirmed_def Let_def)
next
  case (RefusedReply sent)
  then show ?thesis using blank_refused[OF assms(1)] by (simp add: sync_apply_refused_def Let_def case_prod_beta)
next
  case Withdraw
  then show ?thesis by simp
next
  case (PromptAnswer r)
  then show ?thesis using assms(1) by (simp add: sync_upsert_def blank_def is_unknown_def)
next
  case (CountPing a b c)
  then show ?thesis using assms(1)
    by (simp add: observe_daemon_rules_def observe_rule_count_def expected_count_def blank_def Let_def case_prod_beta)
next
  case PruneTick
  then show ?thesis using assms(1) by (simp add: prune_tick_def prune_expired_at_def blank_def)
qed (use assms in auto)

lemma blank_outside:
  assumes "outside_event e" "blank (rs_cache (sw_sync w))"
  shows "blank (rs_cache (sw_sync (sync_step len w (ck, e))))"
  by (cases rule: sync_step_cases[where e = e and len = len and w = w and ck = ck])
     (use assms in \<open>auto simp: case_prod_beta intro!: blank_op\<close>)

section \<open>The current stream\<close>

definition hello_of :: "daemon_commands \<Rightarrow> stream_id \<Rightarrow> nat option" where
  "hello_of d s = Option.bind (fmlookup (dc_streams d) s) os_hello"

text \<open>\<open>s\<close> is open and no open stream has said HELLO since \<open>s\<close> did.\<close>

definition last_hello :: "daemon_commands \<Rightarrow> stream_id \<Rightarrow> bool" where
  "last_hello d s \<longleftrightarrow> (\<exists>h. hello_of d s = Some h \<and> (\<forall>s' h'. hello_of d s' = Some h' \<longrightarrow> h' \<le> h))"

definition streams_inv :: "daemon_commands \<Rightarrow> bool" where
  "streams_inv d \<longleftrightarrow>
     (\<forall>s. fmlookup (dc_streams d) s \<noteq> None \<longrightarrow> s < dc_next_stream d)
     \<and> (\<forall>s h. hello_of d s = Some h \<longrightarrow> h < dc_next_hello d)
     \<and> (dc_current d = None \<longrightarrow> (\<forall>s. hello_of d s = None)) \<and> (\<forall>s. dc_current d = Some s \<longrightarrow> last_hello d s)
     \<and> (dc_committed_by d = None \<or> dc_committed_by d = dc_current d)
     \<and> (dc_committed_by d = None \<longrightarrow> blank (rs_cache (dc_rules d)))"

lemma set_said_hello: "(h, i) \<in> set (said_hello m) \<longleftrightarrow> Option.bind (fmlookup m i) os_hello = Some h"
proof
  assume "Option.bind (fmlookup m i) os_hello = Some h"
  then obtain os where os: "fmlookup m i = Some os" "os_hello os = Some h" by (cases "fmlookup m i") auto
  then have "i \<in> set (fm_keys m)" by (simp add: fmdomI)
  with os show "(h, i) \<in> set (said_hello m)" unfolding said_hello_def by (auto intro!: bexI[of _ i])
qed (auto simp: said_hello_def split: option.splits)

lemma newest_None: "newest xs = None \<longleftrightarrow> xs = []"
  by (cases xs rule: newest.cases) (auto split: option.splits)

lemma newest_Some:
  "newest xs = Some (h, i) \<Longrightarrow> (h, i) \<in> set xs \<and> (\<forall>(h', i') \<in> set xs. h' \<le> h)"
proof (induction xs arbitrary: h i rule: newest.induct)
  case (2 h0 i0 xs)
  show ?case
  proof (cases "newest xs")
    case None
    then show ?thesis using 2 by (auto simp: newest_None)
  next
    case (Some a)
    then show ?thesis using 2 by (cases a) (fastforce split: if_splits)
  qed
qed simp

lemma same_streams_None:
  assumes "same_streams d d'"
  shows "fmlookup (dc_streams d') s = None \<longleftrightarrow> fmlookup (dc_streams d) s = None"
  using assms[unfolded same_streams_def, rule_format, of s]
  by (cases "fmlookup (dc_streams d) s"; cases "fmlookup (dc_streams d') s") auto

lemma streams_inv_blank: "streams_inv d \<Longrightarrow> dc_committed_by d = None \<Longrightarrow> blank (rs_cache (dc_rules d))"
  by (simp add: streams_inv_def)

lemma streams_inv_cong:
  assumes "streams_inv d" "same_streams d d'" "dc_next_hello d' = dc_next_hello d" "dc_next_stream d' = dc_next_stream d" "dc_current d' = dc_current d"
    "dc_committed_by d' = dc_committed_by d" "dc_committed_by d = None \<Longrightarrow> blank (rs_cache (dc_rules d'))"
  shows "streams_inv d'"
proof -
  have "hello_of d' s = hello_of d s" for s
    using assms(2) unfolding same_streams_def hello_of_def
    by (smt (verit) bind.bind_lunit bind.bind_lzero option.rel_sel option.collapse)
  then have "hello_of d' = hello_of d" by blast
  moreover have "fmlookup (dc_streams d') s = None \<longleftrightarrow> fmlookup (dc_streams d) s = None" for s
    by (rule same_streams_None[OF assms(2)])
  ultimately show ?thesis using assms unfolding streams_inv_def last_hello_def by simp
qed

lemma streams_inv_hello:
  assumes "streams_inv d"
  shows "streams_inv (fst (hello ck stream d))"
proof (cases "fmlookup (dc_streams d) stream")
  case (Some os)
  let ?m = "fmupd stream (os\<lparr> os_hello := Some (dc_next_hello d) \<rparr>) (dc_streams d)"
  obtain rules committed where c: "sync_commit (os_conn os) stream ck (dc_rules d) = (rules, committed)" by fastforce
  define d' where "d' = fst (hello ck stream d)"
  have d': "dc_streams d' = ?m" "dc_next_hello d' = dc_next_hello d + 1" "dc_current d' = Some stream"
    "dc_next_stream d' = dc_next_stream d"
    by (simp_all add: d'_def hello_def Some Let_def c)
  have hello: "hello_of d' s = (if s = stream then Some (dc_next_hello d) else hello_of d s)" for s
    by (simp add: hello_of_def d')
  have "last_hello d' stream"
    using assms by (auto simp: last_hello_def hello streams_inv_def less_imp_le)
  moreover have "\<forall>s h. hello_of d' s = Some h \<longrightarrow> h < dc_next_hello d'"
    using assms by (auto simp: hello d' streams_inv_def less_Suc_eq)
  moreover have "(dc_committed_by d' = None \<or> dc_committed_by d' = Some stream)
      \<and> (dc_committed_by d' = None \<longrightarrow> blank (rs_cache (dc_rules d')))"
    using assms c commit_nothing[of "os_conn os" stream ck "dc_rules d" rules]
    by (auto simp: d'_def hello_def Some Let_def streams_inv_def)
  moreover have "\<forall>s. fmlookup (dc_streams d') s \<noteq> None \<longrightarrow> s < dc_next_stream d'"
    using assms Some by (auto simp: streams_inv_def d')
  ultimately show ?thesis unfolding streams_inv_def d'_def[symmetric] d'(3) by simp
qed (simp add: hello_def assms)

lemma readopt_for_current_frame:
  assumes "readopt_for_current ck d = (d', by)"
  shows "d' = d\<lparr> dc_rules := dc_rules d' \<rparr> \<and> (by = None \<or> by = dc_current d)"
  using assms by (auto simp: readopt_for_current_def split: if_splits option.splits prod.splits)

text \<open>The state of \<open>close_stream\<close> before the waiters are failed.\<close>

definition without_stream :: "sync_clock \<Rightarrow> stream_id \<Rightarrow> daemon_commands \<Rightarrow> daemon_commands" where
  "without_stream ck stream d =
     (let d = d\<lparr> dc_streams := fmdrop stream (dc_streams d) \<rparr>;
          d = (if dc_current d = Some stream
               then d\<lparr> dc_current := map_option snd (newest (said_hello (dc_streams d))) \<rparr> else d)
      in if dc_committed_by d = Some stream
         then (let (d, by) = readopt_for_current ck d;
                   d = d\<lparr> dc_committed_by := by \<rparr>
               in if by = None then d\<lparr> dc_rules := sync_withdraw (dc_rules d) \<rparr> else d)
         else d)"

lemma close_stream_eq:
  "close_stream ck stream d =
     (if fmlookup (dc_streams d) stream = None then d
      else fold (\<lambda>i. settle_waiter i (Inl StreamClosed)) (failed_waiters stream (without_stream ck stream d)) (without_stream ck stream d))"
  by (simp add: close_stream_def without_stream_def Let_def)

lemma without_stream_frame:
  "\<exists>rules by current. without_stream ck stream d = d\<lparr> dc_streams := fmdrop stream (dc_streams d), dc_current := current,
     dc_committed_by := by, dc_rules := rules \<rparr>
     \<and> current = (if dc_current d = Some stream then map_option snd (newest (said_hello (fmdrop stream (dc_streams d)))) else dc_current d)
     \<and> (if dc_committed_by d = Some stream then by = None \<or> by = current else by = dc_committed_by d \<and> rules = dc_rules d)
     \<and> (dc_committed_by d = Some stream \<longrightarrow> by = None \<longrightarrow> blank (rs_cache rules))"
proof -
  define current where "current = (if dc_current d = Some stream then map_option snd (newest (said_hello (fmdrop stream (dc_streams d)))) else dc_current d)"
  define e where "e = d\<lparr> dc_streams := fmdrop stream (dc_streams d), dc_current := current \<rparr>"
  have w: "without_stream ck stream d = (if dc_committed_by d = Some stream
         then (let (d, by) = readopt_for_current ck e;
                   d = d\<lparr> dc_committed_by := by \<rparr>
               in if by = None then d\<lparr> dc_rules := sync_withdraw (dc_rules d) \<rparr> else d)
         else e)"
    by (simp add: without_stream_def e_def current_def Let_def)
  show ?thesis
  proof (cases "dc_committed_by d = Some stream")
    case False
    then show ?thesis unfolding w current_def[symmetric] by (auto simp: e_def intro!: exI[of _ "dc_rules d"] exI[of _ "dc_committed_by d"])
  next
    case True
    obtain f adopter where f: "readopt_for_current ck e = (f, adopter)" by fastforce
    from readopt_for_current_frame[OF f] obtain rs where fr: "f = e\<lparr> dc_rules := rs \<rparr>" "adopter = None \<or> adopter = current"
      by (auto simp: e_def)
    have "without_stream ck stream d = d\<lparr> dc_streams := fmdrop stream (dc_streams d), dc_current := current,
       dc_committed_by := adopter, dc_rules := (if adopter = None then sync_withdraw rs else rs) \<rparr>"
      unfolding w f fr(1) using True by (auto simp: e_def Let_def)
    then show ?thesis unfolding current_def[symmetric] using True fr(2)
      by (intro exI[of _ "if adopter = None then sync_withdraw rs else rs"] exI[of _ adopter] exI[of _ current]) auto
  qed
qed

lemma streams_inv_without:
  assumes "streams_inv d"
  shows "streams_inv (without_stream ck stream d)"
proof -
  obtain rules by' current where
    w: "without_stream ck stream d = d\<lparr> dc_streams := fmdrop stream (dc_streams d), dc_current := current,
          dc_committed_by := by', dc_rules := rules \<rparr>"
    and current: "current = (if dc_current d = Some stream then map_option snd (newest (said_hello (fmdrop stream (dc_streams d)))) else dc_current d)"
    and comm: "if dc_committed_by d = Some stream then by' = None \<or> by' = current else by' = dc_committed_by d \<and> rules = dc_rules d"
    and bl: "dc_committed_by d = Some stream \<longrightarrow> by' = None \<longrightarrow> blank (rs_cache rules)"
    using without_stream_frame[of ck stream d] by blast
  define d' where "d' = without_stream ck stream d"
  have hello: "hello_of d' s = (if s = stream then None else hello_of d s)" for s
    by (simp add: hello_of_def d'_def w)
  have said: "(h, i) \<in> set (said_hello (fmdrop stream (dc_streams d))) \<longleftrightarrow> hello_of d' i = Some h" for h i
    by (simp add: set_said_hello hello_of_def d'_def w)
  have "(current = None \<longrightarrow> (\<forall>s. hello_of d' s = None)) \<and> (\<forall>s. current = Some s \<longrightarrow> last_hello d' s)"
  proof (cases "dc_current d = Some stream")
    case False
    then show ?thesis using assms by (auto simp: current streams_inv_def last_hello_def hello)
  next
    case True
    then have c: "current = map_option snd (newest (said_hello (fmdrop stream (dc_streams d))))" using current by simp
    show ?thesis
    proof (cases "newest (said_hello (fmdrop stream (dc_streams d)))")
      case None
      then have "hello_of d' s \<noteq> Some h" for s h using said[of h s] by (simp add: newest_None)
      then have "hello_of d' s = None" for s by (cases "hello_of d' s") auto
      then show ?thesis using c None by simp
    next
      case (Some a)
      obtain h i where a: "a = (h, i)" by (cases a)
      from newest_Some[OF Some[unfolded a]] show ?thesis using c Some a by (force simp: last_hello_def said)
    qed
  qed
  moreover have "by' = None \<or> by' = current" "by' = None \<longrightarrow> blank (rs_cache rules)"
    using assms comm bl current unfolding streams_inv_def by (auto split: if_splits)
  moreover have "dc_next_hello d' = dc_next_hello d" "dc_current d' = current" "dc_committed_by d' = by'" "dc_rules d' = rules"
    "\<forall>s. fmlookup (dc_streams d') s \<noteq> None \<longrightarrow> s < dc_next_stream d'"
    using assms by (simp_all add: d'_def w streams_inv_def)
  moreover have "\<forall>s h. hello_of d' s = Some h \<longrightarrow> h < dc_next_hello d"
    using assms by (auto simp: hello streams_inv_def)
  ultimately have "streams_inv d'" unfolding streams_inv_def by simp
  then show ?thesis by (simp add: d'_def)
qed

section \<open>Commands waiting\<close>

definition waiters_inv :: "daemon_commands \<Rightarrow> bool" where
  "waiters_inv d \<longleftrightarrow> distinct (map fst (dc_outcomes d)) \<and>
     (\<forall>i. (fmlookup (dc_waiters d) i \<noteq> None \<longrightarrow> i < dc_next_id d \<and> fmlookup (dc_late d) i = None \<and> i \<notin> fst ` set (dc_outcomes d))
        \<and> (fmlookup (dc_late d) i \<noteq> None \<longrightarrow> i < dc_next_id d \<and> i \<notin> fst ` set (dc_outcomes d))
        \<and> (i \<in> fst ` set (dc_outcomes d) \<longrightarrow> i < dc_next_id d))"

definition waits_on_open :: "daemon_commands \<Rightarrow> bool" where
  "waits_on_open d \<longleftrightarrow>
     (dc_transport d = Tcp \<longrightarrow> dc_streams d = fmempty \<longrightarrow> dc_waiters d = fmempty)
     \<and> (dc_transport d = Unix \<longrightarrow> (\<forall>i w. fmlookup (dc_waiters d) i = Some w \<longrightarrow>
           (\<exists>s. wt_stream w = Some s \<and> fmlookup (dc_streams d) s \<noteq> None)))"

lemma waiters_inv_cong:
  "waiters_inv d \<Longrightarrow> dc_waiters d' = dc_waiters d \<Longrightarrow> dc_late d' = dc_late d \<Longrightarrow> dc_outcomes d' = dc_outcomes d
    \<Longrightarrow> dc_next_id d \<le> dc_next_id d' \<Longrightarrow> waiters_inv d'"
  unfolding waiters_inv_def by (metis order_less_le_trans)

lemma waiters_inv_added:
  "waiters_inv d \<Longrightarrow> dc_waiters d' = fmupd (dc_next_id d) w (dc_waiters d) \<Longrightarrow> dc_late d' = dc_late d
    \<Longrightarrow> dc_outcomes d' = dc_outcomes d \<Longrightarrow> dc_next_id d' = dc_next_id d + 1 \<Longrightarrow> waiters_inv d'"
  unfolding waiters_inv_def by (simp add: less_Suc_eq) (metis less_irrefl not_None_eq)

lemma waiters_inv_settle:
  "waiters_inv d \<Longrightarrow> fmlookup (dc_waiters d) i \<noteq> None \<Longrightarrow> waiters_inv (settle_waiter i oc d)"
  unfolding waiters_inv_def settle_waiter_def by (auto split: if_splits)

lemma waiters_inv_fail:
  assumes "waiters_inv d" "distinct is" "set is \<subseteq> fset (fmdom (dc_waiters d))"
  shows "waiters_inv (fold (\<lambda>i. settle_waiter i oc) is d)"
  using assms
proof (induction "is" arbitrary: d)
  case (Cons i "is")
  have "waiters_inv (settle_waiter i oc d)"
    using waiters_inv_settle[of d i oc] Cons.prems by (auto simp: fmlookup_dom_iff)
  then show ?case using Cons.IH[of "settle_waiter i oc d"] Cons.prems by (auto simp: settle_waiter_def)
qed simp

lemma settle_fold_frame:
  "fold (\<lambda>i. settle_waiter i oc) is d
     = d\<lparr> dc_waiters := fmdrop_set (set is) (dc_waiters d), dc_outcomes := dc_outcomes d @ map (\<lambda>i. (i, oc)) is \<rparr>"
proof (induction "is" arbitrary: d)
  case (Cons i "is")
  have "fmdrop_set (set is) (fmdrop i m) = fmdrop_set (insert i (set is)) m" for m :: "(nat, waiter) fmap"
    by (rule fmap_ext) auto
  then show ?case unfolding fold_Cons comp_apply Cons.IH by (simp add: settle_waiter_def)
qed simp

lemma waiters_inv_timeout: "waiters_inv d \<Longrightarrow> waiters_inv (wait_timeout ck i d)"
  unfolding waiters_inv_def wait_timeout_def
  by (auto split: option.splits if_splits)

lemma waiters_inv_dropped: "waiters_inv d \<Longrightarrow> waiters_inv (drop_pending i d)"
  unfolding waiters_inv_def drop_pending_def by auto

lemma waiters_inv_late:
  "waiters_inv d \<Longrightarrow> waiters_inv (d\<lparr> dc_late := fmdrop i (dc_late d) \<rparr>)"
  unfolding waiters_inv_def by auto

section \<open>What is queued\<close>

definition queues_inv :: "send_env \<Rightarrow> daemon_commands \<Rightarrow> bool" where
  "queues_inv env d \<longleftrightarrow>
     (\<forall>s os. fmlookup (dc_streams d) s = Some os \<longrightarrow>
        length (os_queue os) \<le> STREAM_QUEUE_CAPACITY \<and> (\<forall>n \<in> set (os_queue os). permitted env (dc_blocklist_root d) n))"

lemma permitted_id [simp]: "permitted env root (n\<lparr> n_id := i \<rparr>) = permitted env root n"
  by (simp add: permitted_def)

lemma permitted_pinned:
  assumes "permitted env root n" "root = None \<or> root' = root"
  shows "permitted env root' n"
  using assms unfolding permitted_def permitted_rule_def blocklist_rule_ok_def by (cases root) auto

lemma queues_inv_upd:
  assumes "queues_inv env d" "dc_streams d' = fmupd s os (dc_streams d)" "dc_blocklist_root d' = dc_blocklist_root d"
    "length (os_queue os) \<le> STREAM_QUEUE_CAPACITY" "\<forall>n \<in> set (os_queue os). permitted env (dc_blocklist_root d) n"
  shows "queues_inv env d'"
  using assms unfolding queues_inv_def by auto

lemma queues_inv_queue_on:
  assumes "queue_on ts n d = Some (d', k)" "queues_inv env d" "permitted env (dc_blocklist_root d) n"
  shows "queues_inv env d'"
  using assms
proof (induction ts arbitrary: d k)
  case (Cons t ts)
  obtain os where os: "fmlookup (dc_streams d) t = Some os" using Cons.prems by (auto split: option.splits)
  show ?case
  proof (cases "os_reading os \<and> length (os_queue os) < STREAM_QUEUE_CAPACITY")
    case True
    let ?d = "d\<lparr> dc_streams := fmupd t (os\<lparr> os_queue := os_queue os @ [n] \<rparr>) (dc_streams d) \<rparr>"
    from True Cons.prems os obtain k' where q: "queue_on ts n ?d = Some (d', k')" by auto
    have "queues_inv env ?d"
      by (rule queues_inv_upd[OF Cons.prems(2), where s = t and os = "os\<lparr> os_queue := os_queue os @ [n] \<rparr>"])
         (use True Cons.prems(2,3) os in \<open>auto simp: queues_inv_def\<close>)
    from Cons.IH[OF q this] show ?thesis using Cons.prems(3) by simp
  next
    case False
    then show ?thesis using Cons os by auto
  qed
qed simp

lemma queues_inv_enqueue:
  assumes "enqueue n ts stream d = Some (res, d')" "queues_inv env d" "permitted env (dc_blocklist_root d) n"
  shows "queues_inv env d'"
proof -
  obtain e k where q: "queue_on ts (n\<lparr> n_id := dc_next_id d \<rparr>) (d\<lparr> dc_next_id := dc_next_id d + 1 \<rparr>) = Some (e, k)"
    using assms(1) by (auto simp: enqueue_def Let_def split: option.splits)
  have "queues_inv env e"
    by (rule queues_inv_queue_on[OF q]) (use assms(2,3) in \<open>simp_all add: queues_inv_def\<close>)
  moreover have "d' = e \<or> (\<exists>ws. d' = e\<lparr> dc_waiters := ws \<rparr>)"
    using assms(1) q by (auto simp: enqueue_def Let_def split: if_splits)
  ultimately show ?thesis by (auto simp: queues_inv_def)
qed

section \<open>The machine keeps its invariant\<close>

definition daemon_inv :: "send_env \<Rightarrow> daemon_commands \<Rightarrow> bool" where
  "daemon_inv env d \<longleftrightarrow> streams_inv d \<and> waiters_inv d \<and> waits_on_open d \<and> queues_inv env d"

lemma daemon_inv_new: "daemon_inv env (new_commands transport new_sync)"
  by (auto simp: daemon_inv_def streams_inv_def waiters_inv_def waits_on_open_def queues_inv_def new_commands_def
      hello_of_def blank_def new_sync_def new_rules_cache_def)

lemma daemon_inv_open: "daemon_inv env d \<Longrightarrow> daemon_inv env (fst (open_stream conn d))"
proof -
  assume inv: "daemon_inv env d"
  define d' where "d' = fst (open_stream conn d)"
  let ?os = "\<lparr> os_conn = conn, os_hello = None, os_queue = [], os_reading = True \<rparr>"
  have d': "d' = d\<lparr> dc_next_stream := dc_next_stream d + 1, dc_streams := fmupd (dc_next_stream d) ?os (dc_streams d) \<rparr>"
    by (simp add: d'_def open_stream_def Let_def)
  have "fmlookup (dc_streams d) (dc_next_stream d) = None"
    using inv unfolding daemon_inv_def streams_inv_def by blast
  then have hello: "hello_of d' = hello_of d" by (auto simp: hello_of_def d' fun_eq_iff)
  have "\<forall>s. fmlookup (dc_streams d') s \<noteq> None \<longrightarrow> s < dc_next_stream d'"
    using inv unfolding daemon_inv_def streams_inv_def by (auto simp: d' less_Suc_eq)
  then have "streams_inv d'"
    using inv hello unfolding daemon_inv_def streams_inv_def last_hello_def by (simp add: d')
  moreover have "waiters_inv d'" using inv waiters_inv_cong[of d d'] by (simp add: daemon_inv_def d')
  moreover have "waits_on_open d'" using inv unfolding daemon_inv_def waits_on_open_def d' by simp metis
  moreover have "queues_inv env d'"
    using inv queues_inv_upd[of env d d' "dc_next_stream d" ?os] by (simp add: daemon_inv_def d')
  ultimately show ?thesis by (simp add: daemon_inv_def d'_def)
qed

lemma waits_on_open_sub:
  assumes "waits_on_open d" "dc_transport d' = dc_transport d"
    "\<And>s. fmlookup (dc_streams d') s = None \<longleftrightarrow> fmlookup (dc_streams d) s = None"
    "\<And>i w. fmlookup (dc_waiters d') i = Some w \<Longrightarrow> fmlookup (dc_waiters d) i = Some w"
  shows "waits_on_open d'"
proof (cases "dc_transport d")
  case Tcp
  have "dc_waiters d' = fmempty" if "dc_streams d' = fmempty"
  proof -
    have "dc_streams d = fmempty" using that assms(3) by (metis fmap_ext fmempty_lookup)
    then have "dc_waiters d = fmempty" using assms(1) Tcp by (simp add: waits_on_open_def)
    then have "fmlookup (dc_waiters d') i = None" for i using assms(4)[of i] by (cases "fmlookup (dc_waiters d') i") auto
    then show ?thesis by (auto intro: fmap_ext)
  qed
  then show ?thesis using Tcp assms(2) by (simp add: waits_on_open_def)
next
  case Unix
  then show ?thesis using assms unfolding waits_on_open_def by simp metis
qed

text \<open>The rules, the pinned directory, or one stream's queue changed.\<close>

lemma daemon_inv_rules:
  assumes "daemon_inv env d" "dc_committed_by d = None \<Longrightarrow> blank (rs_cache rules)"
  shows "daemon_inv env (d\<lparr> dc_rules := rules \<rparr>)"
  using assms unfolding daemon_inv_def streams_inv_def waiters_inv_def waits_on_open_def queues_inv_def last_hello_def
  by (simp add: hello_of_def)

lemma daemon_inv_pinned: "daemon_inv env d \<Longrightarrow> daemon_inv env (fst (pin_blocklist_root root d))"
proof -
  assume inv: "daemon_inv env d"
  obtain p where p: "fst (pin_blocklist_root root d) = d\<lparr> dc_blocklist_root := Some p \<rparr>"
    "dc_blocklist_root d = None \<or> Some p = dc_blocklist_root d"
    by (auto simp: pin_blocklist_root_def Let_def split: option.splits)
  have "permitted env (Some p) n" if "permitted env (dc_blocklist_root d) n" for n
    using permitted_pinned[OF that] p(2) by simp
  with inv show ?thesis
    unfolding p(1) daemon_inv_def streams_inv_def waiters_inv_def waits_on_open_def queues_inv_def last_hello_def
    by (simp add: hello_of_def)
qed

lemma daemon_inv_stream:
  assumes "daemon_inv env d" "fmlookup (dc_streams d) s = Some os" "os_conn os' = os_conn os" "os_hello os' = os_hello os"
    "length (os_queue os') \<le> length (os_queue os)" "set (os_queue os') \<subseteq> set (os_queue os)"
  shows "daemon_inv env (d\<lparr> dc_streams := fmupd s os' (dc_streams d) \<rparr>)"
proof -
  let ?d = "d\<lparr> dc_streams := fmupd s os' (dc_streams d) \<rparr>"
  have "streams_inv ?d"
    by (rule streams_inv_cong[OF _ same_streams_upd[OF assms(2-4)]])
       (use assms(1) streams_inv_blank in \<open>simp_all add: daemon_inv_def\<close>)
  moreover have "waiters_inv ?d" using assms(1) waiters_inv_cong[of d ?d] by (simp add: daemon_inv_def)
  moreover have "waits_on_open ?d"
    by (rule waits_on_open_sub[of d]) (use assms(1,2) in \<open>auto simp: daemon_inv_def\<close>)
  moreover have "queues_inv env ?d"
    by (rule queues_inv_upd[of env d _ s os'])
       (use assms in \<open>auto simp: daemon_inv_def queues_inv_def intro: order_trans\<close>)
  ultimately show ?thesis by (simp add: daemon_inv_def)
qed

text \<open>One waiter settled, or given up.\<close>

lemma daemon_inv_waiters:
  assumes "daemon_inv env d" "d' = d\<lparr> dc_waiters := ws, dc_late := late, dc_outcomes := oc \<rparr>" "waiters_inv d'"
    "\<And>i w. fmlookup ws i = Some w \<Longrightarrow> fmlookup (dc_waiters d) i = Some w"
  shows "daemon_inv env d'"
proof -
  have "streams_inv d'" using streams_inv_cong[of d d'] assms(1,2) by (simp add: daemon_inv_def same_streams_def streams_inv_def option.rel_refl)
  moreover have "waits_on_open d'"
    by (rule waits_on_open_sub[of d]) (use assms in \<open>auto simp: daemon_inv_def\<close>)
  moreover have "queues_inv env d'" using assms(1,2) by (simp add: daemon_inv_def queues_inv_def)
  ultimately show ?thesis using assms(3) by (simp add: daemon_inv_def)
qed

lemma daemon_inv_settle:
  assumes "daemon_inv env d" "fmlookup (dc_waiters d) i \<noteq> None"
  shows "daemon_inv env (settle_waiter i oc d)"
  by (rule daemon_inv_waiters[OF assms(1), where ws = "fmdrop i (dc_waiters d)" and late = "dc_late d"])
     (use assms waiters_inv_settle[of d i oc] in \<open>auto simp: settle_waiter_def daemon_inv_def split: if_splits\<close>)

lemma daemon_inv_timeout:
  assumes "daemon_inv env d"
  shows "daemon_inv env (wait_timeout ck i d)"
proof (cases "fmlookup (dc_waiters d) i")
  case (Some w)
  have inv: "waiters_inv (wait_timeout ck i d)" using assms waiters_inv_timeout by (simp add: daemon_inv_def)
  from Some obtain late where
    eq: "wait_timeout ck i d = d\<lparr> dc_waiters := fmdrop i (dc_waiters d), dc_late := late, dc_outcomes := dc_outcomes d \<rparr>"
    by (simp add: wait_timeout_def)
  show ?thesis by (rule daemon_inv_waiters[OF assms eq inv]) (simp split: if_splits)
qed (simp add: wait_timeout_def assms)

lemma daemon_inv_dropped:
  assumes "daemon_inv env d"
  shows "daemon_inv env (drop_pending i d)"
  by (rule daemon_inv_waiters[OF assms, where ws = "fmdrop i (dc_waiters d)" and late = "dc_late d" and oc = "dc_outcomes d"])
     (use assms waiters_inv_dropped in \<open>auto simp: drop_pending_def daemon_inv_def split: if_splits\<close>)

lemma daemon_inv_hello:
  assumes "daemon_inv env d"
  shows "daemon_inv env (fst (hello ck stream d))"
proof (cases "fmlookup (dc_streams d) stream")
  case (Some os)
  let ?os = "os\<lparr> os_hello := Some (dc_next_hello d) \<rparr>"
  define d' where "d' = fst (hello ck stream d)"
  have d': "dc_streams d' = fmupd stream ?os (dc_streams d)" "dc_waiters d' = dc_waiters d" "dc_late d' = dc_late d"
    "dc_outcomes d' = dc_outcomes d" "dc_next_id d' = dc_next_id d" "dc_transport d' = dc_transport d"
    "dc_blocklist_root d' = dc_blocklist_root d"
    by (simp_all add: d'_def hello_def Some Let_def case_prod_beta)
  have "waiters_inv d'" using assms waiters_inv_cong[of d d'] by (simp add: daemon_inv_def d')
  moreover have "waits_on_open d'"
    by (rule waits_on_open_sub[of d]) (use assms Some in \<open>auto simp: daemon_inv_def d'\<close>)
  moreover have "queues_inv env d'"
    by (rule queues_inv_upd[of env d d' stream ?os]) (use assms Some in \<open>auto simp: daemon_inv_def queues_inv_def d'\<close>)
  ultimately show ?thesis using assms streams_inv_hello by (simp add: daemon_inv_def d'_def)
qed (simp add: hello_def assms)

lemma apply_reply_eq:
  "apply_reply ok command ck d = d\<lparr> dc_rules := sync_op ck (if ok then ConfirmedReply command else RefusedReply command) (dc_rules d) \<rparr>"
  by (simp add: apply_reply_def)

lemma daemon_inv_reply:
  assumes "daemon_inv env d"
  shows "daemon_inv env (apply_reply ok command ck d)"
  unfolding apply_reply_eq
  by (rule daemon_inv_rules[OF assms], rule blank_op) (use assms in \<open>simp_all add: daemon_inv_def streams_inv_blank\<close>)

lemma daemon_inv_late: "daemon_inv env d \<Longrightarrow> daemon_inv env (d\<lparr> dc_late := fmdrop i (dc_late d) \<rparr>)"
  by (rule daemon_inv_waiters[where d = d and ws = "dc_waiters d" and oc = "dc_outcomes d"])
     (auto intro: waiters_inv_late simp: daemon_inv_def)

lemma daemon_inv_on_reply:
  assumes "daemon_inv env d"
  shows "daemon_inv env (fst (on_reply ck stream reply d))"
proof -
  have waiting: "fmlookup (dc_waiters (apply_reply ok command ck d)) i = fmlookup (dc_waiters d) i" for ok command i
    by (simp add: apply_reply_def)
  show ?thesis
    unfolding on_reply_def Let_def
    using daemon_inv_hello[OF assms] daemon_inv_settle[OF daemon_inv_reply[OF assms]] daemon_inv_late[OF assms]
      daemon_inv_reply[OF daemon_inv_late[OF assms]] assms waiting
    by (auto split: option.split)
qed

lemma failed_waiters_waiting:
  "distinct (failed_waiters stream d)" "set (failed_waiters stream d) \<subseteq> fset (fmdom (dc_waiters d))"
  by (auto simp: failed_waiters_def split: transport.split)

lemma waits_on_open_close:
  assumes "waits_on_open d" "dc_transport d' = dc_transport d" "dc_waiters d' = dc_waiters d"
    "dc_streams d' = fmdrop stream (dc_streams d)"
  shows "waits_on_open (d'\<lparr> dc_waiters := fmdrop_set (set (failed_waiters stream d')) (dc_waiters d'), dc_outcomes := oc \<rparr>)"
proof (cases "dc_transport d")
  case Tcp
  have "fmdrop_set (set (fm_keys (dc_waiters d'))) (dc_waiters d') = fmempty"
    by (rule fmap_ext) (simp add: fmdom_notD)
  then show ?thesis using Tcp assms(2) by (auto simp: waits_on_open_def failed_waiters_def)
next
  case Unix
  have "\<exists>s. wt_stream w = Some s \<and> fmlookup (dc_streams d') s \<noteq> None"
    if w: "fmlookup (dc_waiters d') i = Some w" and kept: "i \<notin> set (failed_waiters stream d')" for i w
  proof -
    obtain s where s: "wt_stream w = Some s" "fmlookup (dc_streams d) s \<noteq> None"
      using assms(1,3) Unix w unfolding waits_on_open_def by metis
    have "s \<noteq> stream" using kept w s(1) Unix assms(2) by (auto simp: failed_waiters_def fmdomI)
    then show ?thesis using s assms(4) by auto
  qed
  then show ?thesis using Unix assms(2) by (simp add: waits_on_open_def)
qed

lemma daemon_inv_close:
  assumes "daemon_inv env d"
  shows "daemon_inv env (close_stream ck stream d)"
proof (cases "fmlookup (dc_streams d) stream")
  case (Some os)
  define d' where "d' = without_stream ck stream d"
  have d': "dc_transport d' = dc_transport d" "dc_waiters d' = dc_waiters d" "dc_streams d' = fmdrop stream (dc_streams d)"
    "dc_late d' = dc_late d" "dc_outcomes d' = dc_outcomes d" "dc_next_id d' = dc_next_id d" "dc_blocklist_root d' = dc_blocklist_root d"
    using without_stream_frame[of ck stream d] by (auto simp: d'_def)
  define e where "e = fold (\<lambda>i. settle_waiter i (Inl StreamClosed)) (failed_waiters stream d') d'"
  have e: "e = d'\<lparr> dc_waiters := fmdrop_set (set (failed_waiters stream d')) (dc_waiters d'),
      dc_outcomes := dc_outcomes d' @ map (\<lambda>i. (i, Inl StreamClosed)) (failed_waiters stream d') \<rparr>"
    unfolding e_def by (rule settle_fold_frame)
  have "waiters_inv d'" using assms waiters_inv_cong[of d d'] by (simp add: daemon_inv_def d')
  then have "waiters_inv e" unfolding e_def by (rule waiters_inv_fail) (rule failed_waiters_waiting)+
  moreover have "waits_on_open e"
    unfolding e by (rule waits_on_open_close[of d]) (use assms in \<open>simp_all add: daemon_inv_def d'\<close>)
  moreover have "streams_inv d'" using assms streams_inv_without by (simp add: daemon_inv_def d'_def)
  then have "streams_inv e"
    by (rule streams_inv_cong) (use \<open>streams_inv d'\<close> streams_inv_blank in \<open>simp_all add: e same_streams_def option.rel_refl\<close>)
  moreover have "queues_inv env e" using assms unfolding daemon_inv_def queues_inv_def e by (simp add: d' split: if_splits)
  ultimately show ?thesis using Some by (simp add: close_stream_eq daemon_inv_def e_def d'_def)
qed (simp add: close_stream_def assms)

lemma addressed_open:
  assumes "addressed d ts stream" "streams_inv d"
  shows "ts \<noteq> [] \<and> (\<forall>t \<in> set ts. fmlookup (dc_streams d) t \<noteq> None)
    \<and> (dc_transport d = Unix \<longrightarrow> (\<exists>s. stream = Some s \<and> fmlookup (dc_streams d) s \<noteq> None))"
proof -
  have "fmlookup (dc_streams d) s \<noteq> None" if "dc_current d = Some s" for s
    using assms(2) that by (cases "fmlookup (dc_streams d) s") (auto simp: streams_inv_def last_hello_def hello_of_def)
  then show ?thesis using assms(1) by (auto simp: addressed_def fmlookup_dom_iff)
qed

lemma daemon_inv_sent:
  assumes "daemon_inv env d" "sends env d res d'"
  shows "daemon_inv env d'"
proof (cases "d' = d \<and> isl res")
  case False
  then obtain n ts stream where n: "permitted env (dc_blocklist_root d) n" "addressed d ts stream"
      "enqueue n ts stream d = Some (res, d')"
    using assms(2) by (auto simp: sends_def)
  let ?w = "\<lparr> wt_stream = stream, wt_command = n\<lparr> n_id := dc_next_id d \<rparr> \<rparr>"
  from enqueue_frame[OF n(3)] obtain streams waiters where
    d': "d' = d\<lparr> dc_next_id := dc_next_id d + 1, dc_streams := streams, dc_waiters := waiters \<rparr>"
    and same: "same_streams d d'"
    and ws: "waiters = dc_waiters d \<or> waiters = fmupd (dc_next_id d) ?w (dc_waiters d)" by blast
  from assms(1) have inv: "streams_inv d" "waiters_inv d" "waits_on_open d" by (simp_all add: daemon_inv_def)
  note None = same_streams_None[OF same]
  have "streams_inv d'" by (rule streams_inv_cong[OF inv(1) same]) (use inv(1) streams_inv_blank in \<open>simp_all add: d'\<close>)
  moreover have "waiters_inv d'"
    using ws waiters_inv_cong[OF inv(2), of d'] waiters_inv_added[OF inv(2), of d' ?w] by (auto simp: d')
  moreover have "waits_on_open d'"
  proof -
    obtain t where t: "t \<in> set ts" "fmlookup (dc_streams d) t \<noteq> None" using addressed_open[OF n(2) inv(1)] by (cases ts) auto
    have "dc_streams d' \<noteq> fmempty" using t(2) None[of t] by auto
    moreover have "\<exists>s. wt_stream w = Some s \<and> fmlookup (dc_streams d') s \<noteq> None"
      if "dc_transport d = Unix" "fmlookup waiters i = Some w" for i w
      using ws that inv(3) addressed_open[OF n(2) inv(1)] unfolding waits_on_open_def None
      by (auto split: if_splits)
    ultimately show ?thesis unfolding waits_on_open_def by (simp add: d')
  qed
  moreover have "queues_inv env d'" using queues_inv_enqueue[OF n(3)] assms(1) n(1) by (simp add: daemon_inv_def)
  ultimately show ?thesis by (simp add: daemon_inv_def)
qed (use assms in simp)

lemma daemon_inv_received: "daemon_inv env d \<Longrightarrow> daemon_inv env (fst (stream_recv stream d))"
  by (auto simp: stream_recv_def split: option.split list.split intro!: daemon_inv_stream)

lemma daemon_inv_gone: "daemon_inv env d \<Longrightarrow> daemon_inv env (receiver_dropped stream d)"
  by (auto simp: receiver_dropped_def split: option.split intro!: daemon_inv_stream)

lemma daemon_inv_step:
  assumes "daemon_inv env (dw_cmds w)" "daemon_step env w w'"
  shows "daemon_inv env (dw_cmds w')"
  using assms(2)
proof (cases rule: daemon_step.cases)
  case (sent req result d)
  have "sends env (dw_cmds w) result d"
    by (rule perform_sends[OF sent(2)]) (use assms(1) in \<open>simp add: daemon_inv_def streams_inv_def\<close>)
  then show ?thesis using daemon_inv_sent[OF assms(1)] sent(1) by simp
next
  case (listed e ck rules rcs)
  have "blank (rs_cache rules)" if "dc_committed_by (dw_cmds w) = None"
    using blank_outside[OF listed(2), of "list_of w" "se_len env" ck] listed(3) assms(1) that
    by (simp add: list_of_def daemon_inv_def streams_inv_blank)
  then show ?thesis using daemon_inv_rules[OF assms(1)] listed(1) by simp
qed (use assms(1) daemon_inv_open daemon_inv_on_reply daemon_inv_close daemon_inv_pinned daemon_inv_timeout
       daemon_inv_dropped daemon_inv_received daemon_inv_gone in simp_all)

interpretation daemon_machine: transition_system "\<lambda>w. w = new_world transport" "daemon_step env"
  "\<lambda>w. daemon_inv env (dw_cmds w)" for transport :: transport and env :: send_env
  by unfold_locales (auto simp: new_world_def daemon_inv_new intro: daemon_inv_step)

end
