(* ===== verification/Daemon_Props.thy ===== *)
theory Daemon_Props
  imports Daemon_Machine
begin

text \<open>
  Properties of the machine of \<open>Daemon_Machine\<close>.

  \<^item> the rule list in it is a run of the rule-list machine, so what is proved of that
    machine holds here;
  \<^item> the list shown belongs to the current stream;
  \<^item> a command is settled at most once, and no command waits on a stream that is gone;
  \<^item> the daemon gets only commands of the reviewed shapes, and sending never panics;
  \<^item> the GUI offers an edit exactly when the bridge would send it.
\<close>

section \<open>The rule list in the machine\<close>

definition rules_moves :: "rules_sync \<Rightarrow> rules_sync \<Rightarrow> bool" where
  "rules_moves a b \<longleftrightarrow> (\<exists>es. (\<forall>(ck, e) \<in> set es. \<not> outside_event e) \<and> b = fold (\<lambda>(ck, e). sync_op ck e) es a)"

lemma moves_refl [simp, intro]: "rules_moves a a"
  unfolding rules_moves_def by (intro exI[of _ "[]"]) simp

lemma moves_op: "\<not> outside_event e \<Longrightarrow> rules_moves a (sync_op ck e a)"
  unfolding rules_moves_def by (intro exI[of _ "[(ck, e)]"]) simp

lemma moves_trans: "rules_moves a b \<Longrightarrow> rules_moves b c \<Longrightarrow> rules_moves a c"
  unfolding rules_moves_def by (metis (no_types, lifting) Un_iff comp_apply fold_append set_append)

lemma moves_run:
  assumes "rules_moves a b"
  shows "\<exists>es. \<lparr> sw_sync = b, sw_receipts = rcs \<rparr> = foldl (sync_step len) \<lparr> sw_sync = a, sw_receipts = rcs \<rparr> es"
proof -
  have step: "sync_step len w (ck, e) = w\<lparr> sw_sync := sync_op ck e (sw_sync w) \<rparr>" if "\<not> outside_event e" for w ck e
    using that by (cases e) simp_all
  from assms obtain es where es: "\<forall>(ck, e) \<in> set es. \<not> outside_event e" "b = fold (\<lambda>(ck, e). sync_op ck e) es a"
    unfolding rules_moves_def by blast
  from es(1) have "\<lparr> sw_sync = fold (\<lambda>(ck, e). sync_op ck e) es a, sw_receipts = rcs \<rparr>
      = foldl (sync_step len) \<lparr> sw_sync = a, sw_receipts = rcs \<rparr> es"
    by (induction es arbitrary: a) (auto simp: step)
  then show ?thesis using es(2) by blast
qed

lemma moves_withdraw: "rules_moves a (sync_withdraw a)"
  using moves_op[of Withdraw] by simp

lemma moves_hello: "rules_moves (dc_rules d) (dc_rules (fst (hello ck stream d)))"
proof (cases "fmlookup (dc_streams d) stream")
  case (Some os)
  have commit: "rules_moves (dc_rules d) (fst (sync_commit (os_conn os) stream ck (dc_rules d)))"
    using moves_op[of "Hello (os_conn os) stream" "dc_rules d" ck] by simp
  have "dc_rules (fst (hello ck stream d)) \<in> {fst (sync_commit (os_conn os) stream ck (dc_rules d)),
      sync_withdraw (fst (sync_commit (os_conn os) stream ck (dc_rules d)))}"
    by (auto simp: hello_def Some Let_def case_prod_beta)
  then show ?thesis using commit moves_trans[OF commit moves_withdraw] by auto
qed (simp add: hello_def)

lemma moves_reply: "rules_moves (dc_rules d) (dc_rules (apply_reply ok command ck d))"
  unfolding apply_reply_eq by (simp del: sync_op.simps add: moves_op)

lemma moves_on_reply: "rules_moves (dc_rules d) (dc_rules (fst (on_reply ck stream reply d)))"
  using moves_hello moves_reply[of "d\<lparr> dc_late := fmdrop (nr_id reply) (dc_late d) \<rparr>"]
  by (auto simp: on_reply_def Let_def settle_waiter_def moves_reply split: option.split)

lemma moves_readopt: "rules_moves (dc_rules d) (dc_rules (fst (readopt_for_current ck d)))"
proof -
  have "rules_moves (dc_rules d) (fst (sync_readopt key next ck (dc_rules d)))" for key "next"
    using moves_op[of "Readopt key next" "dc_rules d" ck] by simp
  then show ?thesis by (auto simp: readopt_for_current_def case_prod_beta split: option.split)
qed

lemma moves_close: "rules_moves (dc_rules d) (dc_rules (close_stream ck stream d))"
proof -
  have "rules_moves (dc_rules d) (dc_rules (without_stream ck stream d))"
  proof -
    define e where "e = d\<lparr> dc_streams := fmdrop stream (dc_streams d), dc_current :=
        (if dc_current d = Some stream then map_option snd (newest (said_hello (fmdrop stream (dc_streams d)))) else dc_current d) \<rparr>"
    have "dc_rules (without_stream ck stream d) \<in> {dc_rules d, dc_rules (fst (readopt_for_current ck e)),
        sync_withdraw (dc_rules (fst (readopt_for_current ck e)))}"
      by (auto simp: without_stream_def e_def Let_def case_prod_beta)
    moreover have r: "rules_moves (dc_rules d) (dc_rules (fst (readopt_for_current ck e)))"
      using moves_readopt[of e ck] by (simp add: e_def)
    ultimately show ?thesis using moves_trans[OF r moves_withdraw] by auto
  qed
  then show ?thesis by (simp add: close_stream_eq settle_fold_frame)
qed

lemma perform_rules:
  assumes "sends env d res d'"
  shows "dc_rules d' = dc_rules d"
  using assms enqueue_frame[of _ _ _ d res d'] unfolding sends_def by fastforce

lemma step_run:
  assumes "daemon_inv env (dw_cmds w)" "daemon_step env w w'"
  shows "\<exists>es. list_of w' = foldl (sync_step (se_len env)) (list_of w) es"
  using assms(2)
proof (cases rule: daemon_step.cases)
  case (replied ck stream reply)
  show ?thesis unfolding replied list_of_def by (simp, rule moves_run, rule moves_on_reply)
next
  case (closed ck stream)
  show ?thesis unfolding closed list_of_def by (simp, rule moves_run, rule moves_close)
next
  case (sent req result d)
  have "sends env (dw_cmds w) result d"
    by (rule perform_sends[OF sent(2)]) (use assms(1) in \<open>simp add: daemon_inv_def streams_inv_def\<close>)
  from perform_rules[OF this] have "list_of w' = list_of w" by (simp add: sent(1) list_of_def)
  then show ?thesis by (intro exI[of _ "[]"]) simp
next
  case (listed e ck rules rcs)
  then show ?thesis by (intro exI[of _ "[(ck, e)]"]) (simp add: list_of_def)
qed (intro exI[of _ "[]"], auto simp: list_of_def open_stream_def pin_blocklist_root_def wait_timeout_def drop_pending_def
       stream_recv_def receiver_dropped_def Let_def split: option.split list.split)+

section \<open>Sending\<close>

lemma queue_on_total:
  "\<forall>t \<in> set ts. fmlookup (dc_streams d) t \<noteq> None \<Longrightarrow> \<exists>d' k. queue_on ts n d = Some (d', k)"
proof (induction ts arbitrary: d)
  case (Cons t ts)
  then obtain os where os: "fmlookup (dc_streams d) t = Some os" by auto
  let ?d = "d\<lparr> dc_streams := fmupd t (os\<lparr> os_queue := os_queue os @ [n] \<rparr>) (dc_streams d) \<rparr>"
  have "\<exists>d' k. queue_on ts n ?d = Some (d', k)" "\<exists>d' k. queue_on ts n d = Some (d', k)"
    by (rule Cons.IH; use Cons.prems in simp)+
  then show ?case using os by auto
qed simp

lemma queue_on_count:
  assumes "queue_on ts n d = Some (d', k)"
  shows "(k = 0 \<longrightarrow> d' = d) \<and> (0 < k \<longrightarrow> (\<exists>s os. fmlookup (dc_streams d') s = Some os \<and> n \<in> set (os_queue os)))
    \<and> (\<forall>s os. fmlookup (dc_streams d) s = Some os \<longrightarrow> n \<in> set (os_queue os) \<longrightarrow>
         (\<exists>os'. fmlookup (dc_streams d') s = Some os' \<and> n \<in> set (os_queue os')))"
  using assms
proof (induction ts arbitrary: d k)
  case (Cons t ts)
  obtain os where os: "fmlookup (dc_streams d) t = Some os" using Cons.prems by (auto split: option.splits)
  show ?case
  proof (cases "os_reading os \<and> length (os_queue os) < STREAM_QUEUE_CAPACITY")
    case True
    let ?d = "d\<lparr> dc_streams := fmupd t (os\<lparr> os_queue := os_queue os @ [n] \<rparr>) (dc_streams d) \<rparr>"
    from True Cons.prems os obtain k' where q: "queue_on ts n ?d = Some (d', k')" "k = k' + 1" by auto
    have kept: "\<exists>os'. fmlookup (dc_streams d') s = Some os' \<and> n \<in> set (os_queue os')"
      if "fmlookup (dc_streams ?d) s = Some o'" "n \<in> set (os_queue o')" for s o'
      using Cons.IH[OF q(1)] that by blast
    have "\<exists>os'. fmlookup (dc_streams d') t = Some os' \<and> n \<in> set (os_queue os')" by (rule kept[of t "os\<lparr> os_queue := os_queue os @ [n] \<rparr>"]) simp_all
    moreover have "\<exists>os'. fmlookup (dc_streams d') s = Some os' \<and> n \<in> set (os_queue os')"
      if "fmlookup (dc_streams d) s = Some o'" "n \<in> set (os_queue o')" for s o'
      using that calculation by (cases "s = t") (auto intro!: kept)
    ultimately show ?thesis using q(2) by auto
  next
    case False
    then show ?thesis using Cons os by auto
  qed
qed simp

lemma enqueue_total:
  assumes "addressed d ts stream" "streams_inv d"
  shows "\<exists>res d'. enqueue n ts stream d = Some (res, d')"
proof -
  have "\<forall>t \<in> set ts. fmlookup (dc_streams (d\<lparr> dc_next_id := dc_next_id d + 1 \<rparr>)) t \<noteq> None"
    using addressed_open[OF assms] by simp
  from queue_on_total[OF this] show ?thesis by (auto simp: enqueue_def Let_def split: option.split)
qed

lemma dispatch_total:
  assumes "streams_inv d"
  shows "\<exists>res d'. dispatch_via_checked lib es n delivery curated d = Some (res, d')"
proof -
  have by_current: "dc_committed_by d = None \<or> dc_committed_by d = dc_current d" using assms by (simp add: streams_inv_def)
  have plain: "\<exists>res d'. enqueue n ts (case dc_transport d of Tcp \<Rightarrow> None | Unix \<Rightarrow> dc_current d) d = Some (res, d')"
    if "targets d delivery = Inr ts" for ts
    using enqueue_total[OF usual_targets_addressed[OF that by_current] assms] .
  have guarded: "\<exists>res d'. enqueue n ts (dc_committed_by d) d = Some (res, d')"
    if "curated_admission lib es n generation g d = Inr ts" for ts generation g
    by (rule enqueue_total[OF _ assms]) (use curated_admission_Inr[OF that] in \<open>auto simp: addressed_def\<close>)
  show ?thesis
    unfolding dispatch_via_checked_def using plain guarded by (simp split: sum.split option.split)
qed

lemma perform_total:
  assumes "streams_inv d"
  shows "\<exists>res d'. perform env req d = Some (res, d')"
proof -
  note total = dispatch_total[OF assms]
  have curated: "\<exists>res d'. send_curated lib es c d = Some (res, d')" for lib es c
    using total by (simp add: send_curated_def dispatch_def split: sum.split)
  show ?thesis
    by (cases req)
       (simp_all add: send_def send_blocklist_def send_leftover_delete_def send_profile_def send_curated_guarded_as_def
          send_curated_toggle_def dispatch_def total curated Let_def split: sum.split option.split)
qed

lemma enqueue_outcome:
  assumes "enqueue n ts stream d = Some (res, d')" "waiters_inv d"
  shows "case res of
      Inl e \<Rightarrow> e = NotQueued \<and> d' = d\<lparr> dc_next_id := dc_next_id d + 1 \<rparr>
    | Inr i \<Rightarrow> fmlookup (dc_waiters d) i = None \<and> i \<notin> fst ` set (dc_outcomes d) \<and> fmlookup (dc_waiters d') i \<noteq> None
        \<and> (\<exists>s os. fmlookup (dc_streams d') s = Some os \<and> n\<lparr> n_id := i \<rparr> \<in> set (os_queue os))"
proof -
  obtain e k where q: "queue_on ts (n\<lparr> n_id := dc_next_id d \<rparr>) (d\<lparr> dc_next_id := dc_next_id d + 1 \<rparr>) = Some (e, k)"
    using assms(1) by (auto simp: enqueue_def Let_def split: option.splits)
  have fresh: "fmlookup (dc_waiters d) (dc_next_id d) = None" "dc_next_id d \<notin> fst ` set (dc_outcomes d)"
    using assms(2) unfolding waiters_inv_def by (metis less_irrefl)+
  show ?thesis
  proof (cases "k = 0")
    case True
    then show ?thesis using assms(1) q queue_on_count[OF q] by (auto simp: enqueue_def Let_def)
  next
    case False
    then have "res = Inr (dc_next_id d)" "fmlookup (dc_waiters d') (dc_next_id d) \<noteq> None" "dc_streams d' = dc_streams e"
      using assms(1) q by (auto simp: enqueue_def Let_def)
    then show ?thesis using False fresh queue_on_count[OF q] by simp
  qed
qed

section \<open>A run of the bridge\<close>

text \<open>
  A daemon connects on the Unix socket, subscribes with one rule, says HELLO, and a delete
  of that rule is sent to it.
\<close>

definition listed_world :: "send_env \<Rightarrow> sync_clock \<Rightarrow> sync_event \<Rightarrow> daemon_world \<Rightarrow> daemon_world" where
  "listed_world env ck e w =
     (let l = sync_step (se_len env) (list_of w) (ck, e)
      in \<lparr> dw_cmds = (dw_cmds w)\<lparr> dc_rules := sw_sync l \<rparr>, dw_receipts = sw_receipts l \<rparr>)"

definition sent_world :: "send_env \<Rightarrow> request \<Rightarrow> daemon_world \<Rightarrow> daemon_world" where
  "sent_world env req w = w\<lparr> dw_cmds := snd (the (perform env req (dw_cmds w))) \<rparr>"

lemma reach_listed:
  assumes "daemon_reaches env transport w" "outside_event e"
  shows "daemon_reaches env transport (listed_world env ck e w)"
  unfolding listed_world_def Let_def by (rule reach_step[OF assms(1) daemon_step.listed[OF assms(2), where ck = ck]]) simp

lemma reach_opened:
  assumes "daemon_reaches env transport w"
  shows "daemon_reaches env transport (w\<lparr> dw_cmds := fst (open_stream conn (dw_cmds w)) \<rparr>)"
  by (rule reach_step[OF assms]) (rule daemon_step.opened)

lemma reach_replied:
  assumes "daemon_reaches env transport w"
  shows "daemon_reaches env transport (w\<lparr> dw_cmds := fst (on_reply ck stream reply (dw_cmds w)) \<rparr>)"
  by (rule reach_step[OF assms]) (rule daemon_step.replied)

lemma reach_sent:
  assumes "daemon_reaches env transport w"
  shows "daemon_reaches env transport (sent_world env req w)"
proof -
  have "streams_inv (dw_cmds w)" using daemon_machine.inv_reachable[OF assms] by (simp add: daemon_inv_def)
  from perform_total[OF this] obtain res d' where p: "perform env req (dw_cmds w) = Some (res, d')" by blast
  show ?thesis using reach_step[OF assms daemon_step.sent[OF p]] by (simp add: sent_world_def p)
qed

definition quiet_env :: send_env where
  "quiet_env = \<lparr> se_len = (\<lambda>_. 0), se_lib = no_regex, se_entries = [], se_tag = (\<lambda>_. None) \<rparr>"

definition delete_web :: notification where
  "delete_web = \<lparr> n_id = 0, n_type = DeleteRule, n_rules = [example_temporary] \<rparr>"

definition greeted_world :: daemon_world where
  "greeted_world =
     (let w = (new_world Unix)\<lparr> dw_cmds := fst (open_stream None (dw_cmds (new_world Unix))) \<rparr>;
          w = listed_world quiet_env (at_second 1) Subscribe w;
          w = listed_world quiet_env (at_second 1) (Stage 0 None [example_temporary]) w
      in w\<lparr> dw_cmds := fst (on_reply (at_second 2) 1 \<lparr> nr_id = 0, nr_ok = True, nr_data = [] \<rparr> (dw_cmds w)) \<rparr>)"

definition waiting_world :: daemon_world where
  "waiting_world = sent_world quiet_env (UserCommand delete_web) greeted_world"

lemma greeted_reached: "daemon_reaches quiet_env Unix greeted_world"
  unfolding greeted_world_def Let_def
  by (intro reach_replied reach_listed reach_opened reach_init) simp_all

lemma waiting_reached: "daemon_reaches quiet_env Unix waiting_world"
  unfolding waiting_world_def by (rule reach_sent[OF greeted_reached])

section \<open>What holds of every run\<close>

text \<open>
  C13. Sending never panics: in every state the bridge can be in, whichever of its parts
  sends whatever it likes, the send returns. If it returns an error, no waiter, no stream
  and nothing of the list has changed; if it returns a number, the number is a new one,
  its waiter is in place and the command asked for is in the queue of an open stream.
\<close>

theorem send_never_panics:
  assumes "daemon_reaches env transport w"
  shows "\<exists>res d'. perform env req (dw_cmds w) = Some (res, d')
    \<and> (case res of
         Inl e \<Rightarrow> d' = (dw_cmds w)\<lparr> dc_next_id := dc_next_id d' \<rparr>
       | Inr i \<Rightarrow> fmlookup (dc_waiters (dw_cmds w)) i = None \<and> i \<notin> fst ` set (dc_outcomes (dw_cmds w))
           \<and> fmlookup (dc_waiters d') i \<noteq> None
           \<and> (\<exists>s os n. carried env (dw_cmds w) req = Some n \<and> fmlookup (dc_streams d') s = Some os
                \<and> n\<lparr> n_id := i \<rparr> \<in> set (os_queue os)))"
proof -
  have inv: "daemon_inv env (dw_cmds w)" using daemon_machine.inv_reachable assms by blast
  then have inv': "streams_inv (dw_cmds w)" "waiters_inv (dw_cmds w)" by (simp_all add: daemon_inv_def)
  obtain res d' where p: "perform env req (dw_cmds w) = Some (res, d')" using perform_total[OF inv'(1)] by blast
  have "sends env (dw_cmds w) res d'" by (rule perform_sends[OF p]) (use inv'(1) in \<open>simp add: streams_inv_def\<close>)
  then consider (no) e where "d' = dw_cmds w" "res = Inl e"
    | (yes) n ts stream where "enqueue n ts stream (dw_cmds w) = Some (res, d')"
    unfolding sends_def isl_def by blast
  then show ?thesis
  proof cases
    case no
    then show ?thesis using p by simp
  next
    case yes
    show ?thesis
    proof (cases res)
      case (Inl e)
      then show ?thesis using enqueue_outcome[OF yes inv'(2)] p by auto
    next
      case (Inr i)
      obtain m ts' stream' where "carried env (dw_cmds w) req = Some m" "enqueue m ts' stream' (dw_cmds w) = Some (Inr i, d')"
        using perform_carried p Inr by blast
      then show ?thesis using enqueue_outcome[of m ts' stream' "dw_cmds w" "Inr i" d'] inv'(2) p Inr by auto
    qed
  qed
qed

theorem send_never_panics_witness:
  "\<exists>res d'. perform quiet_env (UserCommand delete_web) (dw_cmds greeted_world) = Some (res, d') \<and> res = Inr 1
     \<and> fmlookup (dc_waiters d') 1 \<noteq> None"
proof -
  have "map_option fst (perform quiet_env (UserCommand delete_web) (dw_cmds greeted_world)) = Some (Inr 1)" by code_simp
  then show ?thesis using send_never_panics[OF greeted_reached, of "UserCommand delete_web"] by auto
qed



text \<open>
  C12. A command is settled at most once: its number is never given out again, and once it
  has an outcome it neither waits nor is remembered as late. On the Unix socket a command
  waits only on a stream that is open, and over TCP only while one is.
\<close>

theorem commands_settle_once:
  assumes "daemon_reaches env transport w"
  shows "distinct (map fst (dc_outcomes (dw_cmds w)))
    \<and> (\<forall>i wt. fmlookup (dc_waiters (dw_cmds w)) i = Some wt \<longrightarrow>
         i \<notin> fst ` set (dc_outcomes (dw_cmds w)) \<and> fmlookup (dc_late (dw_cmds w)) i = None
         \<and> dc_streams (dw_cmds w) \<noteq> fmempty
         \<and> (dc_transport (dw_cmds w) = Unix \<longrightarrow>
              (\<exists>s. wt_stream wt = Some s \<and> fmlookup (dc_streams (dw_cmds w)) s \<noteq> None)))
    \<and> (\<forall>i late. fmlookup (dc_late (dw_cmds w)) i = Some late \<longrightarrow> i \<notin> fst ` set (dc_outcomes (dw_cmds w)))"
proof -
  have inv: "waiters_inv (dw_cmds w)" "waits_on_open (dw_cmds w)"
    using daemon_machine.inv_reachable[OF assms] by (simp_all add: daemon_inv_def)
  have "dc_streams (dw_cmds w) \<noteq> fmempty" if "fmlookup (dc_waiters (dw_cmds w)) i = Some wt" for i wt
    using inv(2) that unfolding waits_on_open_def by (cases "dc_transport (dw_cmds w)") fastforce+
  then show ?thesis using inv unfolding waiters_inv_def waits_on_open_def by blast
qed

theorem commands_settle_once_witness:
  "fm_keys (dc_waiters (dw_cmds waiting_world)) = [1] \<and> 1 \<notin> fst ` set (dc_outcomes (dw_cmds waiting_world))"
proof -
  have "fm_keys (dc_waiters (dw_cmds waiting_world)) = [1]" "fmlookup (dc_waiters (dw_cmds waiting_world)) 1 \<noteq> None"
    by code_simp+
  then show ?thesis using commands_settle_once[OF waiting_reached] by auto
qed

text \<open>
  C11. The list belongs to the current stream. The current stream is open and none of the
  open ones has said HELLO after it, and there is none only if no open stream has said
  HELLO; the cache shows a list, or the count of one over the limits, only if the current
  stream committed it.
\<close>

theorem list_belongs_to_current_stream:
  assumes "daemon_reaches env transport w"
  shows "(case dc_current (dw_cmds w) of
       None \<Rightarrow> \<forall>s. hello_of (dw_cmds w) s = None
     | Some s \<Rightarrow> \<exists>h. hello_of (dw_cmds w) s = Some h \<and> (\<forall>s' h'. hello_of (dw_cmds w) s' = Some h' \<longrightarrow> h' \<le> h))
    \<and> (dc_committed_by (dw_cmds w) = None \<or> dc_committed_by (dw_cmds w) = dc_current (dw_cmds w))
    \<and> (has_list (dc_rules (dw_cmds w)) \<or> rc_over_limit_total (rs_cache (dc_rules (dw_cmds w))) \<noteq> None
         \<longrightarrow> dc_committed_by (dw_cmds w) \<noteq> None)"
proof -
  have inv: "streams_inv (dw_cmds w)"
    using daemon_machine.inv_reachable[OF assms] by (simp add: daemon_inv_def)
  then show ?thesis
    unfolding streams_inv_def has_list_def is_unknown_def blank_def last_hello_def by (auto split: option.split)
qed

theorem list_belongs_to_current_stream_witness:
  "has_list (dc_rules (dw_cmds waiting_world)) \<and> dc_committed_by (dw_cmds waiting_world) = Some 1
   \<and> dc_current (dw_cmds waiting_world) = Some 1"
proof -
  have "has_list (dc_rules (dw_cmds waiting_world))" "dc_committed_by (dw_cmds waiting_world) = Some 1" by code_simp+
  then show ?thesis using list_belongs_to_current_stream[OF waiting_reached] by auto
qed

text \<open>
  The rule list of a running bridge, with every stream, reply and command that touches
  it, is always a state of the rule-list machine.
\<close>

theorem daemon_list_refines:
  assumes "daemon_reaches env transport w"
  shows "\<exists>es. list_of w = sync_run (se_len env) es"
  using assms
proof (induction rule: reachable.induct)
  case (reach_init w)
  then show ?case by (intro exI[of _ "[]"]) (simp add: list_of_def new_world_def new_commands_def new_sync_world_def)
next
  case (reach_step w w')
  then obtain es where es: "list_of w = sync_run (se_len env) es" by blast
  have "daemon_inv env (dw_cmds w)" using daemon_machine.inv_reachable reach_step(1) by blast
  from step_run[OF this reach_step(2)] obtain es' where "list_of w' = foldl (sync_step (se_len env)) (list_of w) es'" by blast
  then have "list_of w' = sync_run (se_len env) (es @ es')" using es by (simp add: sync_run_def)
  then show ?case by blast
qed

theorem daemon_list_refines_witness:
  "rc_rules (rs_cache (sw_sync (list_of waiting_world))) \<noteq> None
   \<and> (\<exists>es. list_of waiting_world = sync_run (se_len quiet_env) es)"
proof -
  have "rc_rules (rs_cache (sw_sync (list_of waiting_world))) \<noteq> None" by code_simp
  with daemon_list_refines[OF waiting_reached] show ?thesis by simp
qed

text \<open>
  The GUI offers an edit exactly when the bridge would send it: a change of a rule is
  refused for its name or operator if and only if the rule is shown read-only, and a
  delete if and only if the rule is not shown deletable.
\<close>

theorem edits_offered_are_sent:
  "((\<exists>e d'. send lib es \<lparr> n_id = 0, n_type = ChangeRule, n_rules = [r] \<rparr> d = Some (Inl e, d')
       \<and> e \<in> {ReservedName, RefusedOperator, InvalidRuleName, NotAllowed})
     \<longleftrightarrow> read_only_reason lib (curated_toggleable lib es) r \<noteq> None)
   \<and> ((\<exists>e d'. send lib es \<lparr> n_id = 0, n_type = DeleteRule, n_rules = [r] \<rparr> d = Some (Inl e, d')
       \<and> e \<in> {ReservedName, RefusedOperator, InvalidRuleName, NotAllowed})
     \<longleftrightarrow> \<not> deletable r)"
proof -
  have queued: "e = NotQueued" if "enqueue n ts stream d = Some (Inl e, d')" for n ts stream e d'
    using that by (auto simp: enqueue_def Let_def split: option.splits if_splits)
  have targeted: "e = NoDaemon" if "targets d Usual = Inl e" for e
    using that by (cases "dc_transport d") (auto simp: targets_def split: if_splits)
  have refused: "(\<exists>e d'. dispatch lib es n d = Some (Inl e, d') \<and> e \<in> {ReservedName, RefusedOperator, InvalidRuleName, NotAllowed})
      \<longleftrightarrow> check_sendable n \<noteq> Inr ()" for n
  proof (cases "check_sendable n")
    case (Inr u)
    then show ?thesis
      by (cases "targets d Usual") (auto simp: dispatch_def dispatch_via_checked_def dest: queued targeted)
  qed (auto simp: dispatch_def dispatch_via_checked_def check_sendable_def split: if_splits)
  have fetch: "is_reserved_packaged_name PACKAGED_FETCH_RULE_NAME" by code_simp
  have sendable: "check_sendable \<lparr> n_id = 0, n_type = a, n_rules = [r] \<rparr> = Inr () \<longleftrightarrow> validate_rule_name (r_name r) = Inr ()"
    if "a \<in> {ChangeRule, DeleteRule}" for a
    using that by (auto simp: check_sendable_def ALLOWED_ACTIONS_def)
  have reserved: "send lib es n d = refused ReservedName d" if "is_reserved_name (r_name r)" "n_rules n = [r]" for n
    using that by (simp add: send_def)
  show ?thesis
  proof (cases "is_reserved_name (r_name r)")
    case True
    then have "read_only_reason lib (curated_toggleable lib es) r \<noteq> None"
      by (auto simp: read_only_reason_def is_reserved_name_def)
    then show ?thesis using True reserved[OF True] by (auto simp: deletable_def)
  next
    case False
    let ?op_ok = "case r_operator r of Some op \<Rightarrow> validate_operator lib op = Inr () | None \<Rightarrow> False"
    have "read_only_reason lib (curated_toggleable lib es) r = None \<longleftrightarrow> validate_rule_name (r_name r) = Inr () \<and> ?op_ok"
      using False fetch by (auto simp: read_only_reason_def is_reserved_name_def split: option.split)
    moreover have "send lib es \<lparr> n_id = 0, n_type = ChangeRule, n_rules = [r] \<rparr> d =
        (if ?op_ok then dispatch lib es \<lparr> n_id = 0, n_type = ChangeRule, n_rules = [r] \<rparr> d else refused RefusedOperator d)"
      using False by (auto simp: send_def split: option.split)
    moreover have "send lib es \<lparr> n_id = 0, n_type = DeleteRule, n_rules = [r] \<rparr> d =
        dispatch lib es \<lparr> n_id = 0, n_type = DeleteRule, n_rules = [r] \<rparr> d"
      using False by (simp add: send_def)
    ultimately show ?thesis using False refused sendable by (auto simp: deletable_def)
  qed
qed

end
