(* ===== verification/Prompt_Slot.thy ===== *)
theory Prompt_Slot
  imports Prelude
begin

text \<open>
  \<open>prompt_slot.rs\<close>: which prompts hold the daemon's single prompt slot, and how often the
  daemon has applied its default action meanwhile, read off the cumulative miss counter of
  its pings.

  The map of holders with its sequence numbers is shown to be a list in hold order
  (\<open>slot_spec\<close>), and the pair of readings a holder keeps to be the ends of the last run of
  readings without a daemon restart or a new rule snapshot. \<open>slot_handle\<close> adds what
  the handle broadcasts; every handle operation sends under the slot lock, so the list of
  messages is in the order of the changes.
\<close>

section \<open>Readings and holders\<close>

record reading =
  misses :: nat
  uptime :: nat
  rules_generation :: nat

record holder =
  h_what :: rstr
  h_since_ms :: nat
  h_seq :: nat
  h_baseline :: "reading option"
  h_last :: "reading option"

definition holder_observe :: "reading \<Rightarrow> holder \<Rightarrow> holder" where
  "holder_observe r h =
     (let latest = (case h_last h of Some l \<Rightarrow> Some l | None \<Rightarrow> h_baseline h);
          reset = (case latest of
                     Some prev \<Rightarrow> uptime r < uptime prev \<or> rules_generation r \<noteq> rules_generation prev
                   | None \<Rightarrow> False)
      in if h_baseline h = None \<or> reset
         then h\<lparr> h_baseline := Some r, h_last := None \<rparr>
         else h\<lparr> h_last := Some r \<rparr>)"

definition defaulted_at_least :: "holder \<Rightarrow> nat option" where
  "defaulted_at_least h =
     (case (h_baseline h, h_last h) of
        (Some b, Some l) \<Rightarrow> Some (misses l - misses b)
      | _ \<Rightarrow> None)"

record prompt_slot =
  holders :: "(rstr, holder) fmap"
  next_seq :: nat

definition empty_slot :: prompt_slot where
  "empty_slot = \<lparr> holders = fmempty, next_seq = 0 \<rparr>"

definition slot_hold :: "rstr \<Rightarrow> rstr \<Rightarrow> nat \<Rightarrow> prompt_slot \<Rightarrow> prompt_slot" where
  "slot_hold row_id what since_ms s =
     (let seq = next_seq s + 1
      in \<lparr> holders = fmupd row_id \<lparr> h_what = what, h_since_ms = since_ms, h_seq = seq,
                                     h_baseline = None, h_last = None \<rparr> (holders s),
           next_seq = seq \<rparr>)"

definition slot_release :: "rstr \<Rightarrow> prompt_slot \<Rightarrow> prompt_slot \<times> nat option option" where
  "slot_release row_id s =
     (s\<lparr> holders := fmdrop row_id (holders s) \<rparr>,
      map_option defaulted_at_least (fmlookup (holders s) row_id))"

definition slot_observe :: "nat \<Rightarrow> nat \<Rightarrow> nat \<Rightarrow> prompt_slot \<Rightarrow> prompt_slot" where
  "slot_observe rule_misses up generation s =
     s\<lparr> holders := fmmap (holder_observe \<lparr> misses = rule_misses, uptime = up, rules_generation = generation \<rparr>)
                          (holders s) \<rparr>"

text \<open>\<open>Iterator::min_by_key\<close>: the first of the least elements.\<close>

fun min_by_key :: "('a \<Rightarrow> nat) \<Rightarrow> 'a list \<Rightarrow> 'a option" where
  "min_by_key f [] = None"
| "min_by_key f (x # xs) =
     (case min_by_key f xs of None \<Rightarrow> Some x | Some y \<Rightarrow> if f x \<le> f y then Some x else Some y)"

definition slot_entries :: "prompt_slot \<Rightarrow> (rstr \<times> holder) list" where
  "slot_entries s = map (\<lambda>k. (k, the (fmlookup (holders s) k))) (fm_keys (holders s))"

definition slot_oldest :: "prompt_slot \<Rightarrow> (rstr \<times> holder) option" where
  "slot_oldest s = min_by_key (\<lambda>(_, h). h_seq h) (slot_entries s)"

record prompt_slot_holder =
  psh_row_id :: rstr
  psh_what :: rstr
  psh_since_ms :: nat

record slot_message =
  sm_holder :: "prompt_slot_holder option"
  sm_holders :: nat
  sm_defaulted_at_least :: "nat option"

definition slot_message_of :: "prompt_slot \<Rightarrow> slot_message" where
  "slot_message_of s =
     (let oldest = slot_oldest s
      in \<lparr> sm_holder = map_option (\<lambda>(row_id, h). \<lparr> psh_row_id = row_id, psh_what = h_what h,
                                                   psh_since_ms = h_since_ms h \<rparr>) oldest,
           sm_holders = u32_try_from (fm_len (holders s)),
           sm_defaulted_at_least = Option.bind oldest (\<lambda>(_, h). defaulted_at_least h) \<rparr>)"

section \<open>The shared handle\<close>

datatype slot_notice = PromptSlotSummary nat nat

record slot_handle =
  sh_slot :: prompt_slot
  sh_sent :: "slot_message list"
  sh_notices :: "slot_notice list"

definition new_handle :: slot_handle where
  "new_handle = \<lparr> sh_slot = empty_slot, sh_sent = [], sh_notices = [] \<rparr>"

definition handle_hold :: "rstr \<Rightarrow> rstr \<Rightarrow> nat \<Rightarrow> slot_handle \<Rightarrow> slot_handle" where
  "handle_hold row_id what now_ms h =
     (let slot = slot_hold row_id what now_ms (sh_slot h)
      in h\<lparr> sh_slot := slot, sh_sent := sh_sent h @ [slot_message_of slot] \<rparr>)"

definition handle_release :: "rstr \<Rightarrow> nat \<Rightarrow> slot_handle \<Rightarrow> slot_handle" where
  "handle_release row_id ask_id h =
     (let (slot, released) = slot_release row_id (sh_slot h)
      in case released of
           None \<Rightarrow> h
         | Some count \<Rightarrow>
             h\<lparr> sh_slot := slot, sh_sent := sh_sent h @ [slot_message_of slot],
                sh_notices := sh_notices h @
                  (case count of Some n \<Rightarrow> if n > 0 then [PromptSlotSummary ask_id n] else []
                               | None \<Rightarrow> []) \<rparr>)"

definition handle_observe :: "nat \<Rightarrow> nat \<Rightarrow> nat \<Rightarrow> slot_handle \<Rightarrow> slot_handle" where
  "handle_observe rule_misses up generation h =
     (let before = slot_message_of (sh_slot h);
          slot = slot_observe rule_misses up generation (sh_slot h);
          after = slot_message_of slot
      in h\<lparr> sh_slot := slot, sh_sent := sh_sent h @ (if after \<noteq> before then [after] else []) \<rparr>)"

definition handle_announce :: "slot_handle \<Rightarrow> slot_handle" where
  "handle_announce h = h\<lparr> sh_sent := sh_sent h @ [slot_message_of (sh_slot h)] \<rparr>"

datatype slot_event =
  Hold rstr rstr nat | Release rstr nat | Observe nat nat nat | Announce

fun slot_step :: "slot_handle \<Rightarrow> slot_event \<Rightarrow> slot_handle" where
  "slot_step h (Hold row_id what now_ms) = handle_hold row_id what now_ms h"
| "slot_step h (Release row_id ask_id) = handle_release row_id ask_id h"
| "slot_step h (Observe rule_misses up generation) = handle_observe rule_misses up generation h"
| "slot_step h Announce = handle_announce h"

definition slot_run :: "slot_event list \<Rightarrow> slot_handle" where
  "slot_run es = foldl slot_step new_handle es"

section \<open>The specification: prompts in hold order\<close>

record held =
  held_id :: rstr
  held_what :: rstr
  held_since :: nat
  held_readings :: "reading list"

definition same_run :: "reading \<Rightarrow> reading \<Rightarrow> bool" where
  "same_run prev r \<longleftrightarrow> uptime prev \<le> uptime r \<and> rules_generation r = rules_generation prev"

text \<open>The longest final part of the readings without a restart or a new snapshot.\<close>

fun last_run :: "reading list \<Rightarrow> reading list" where
  "last_run [] = []"
| "last_run (r # rs) = (if successively same_run (r # rs) then r # rs else last_run rs)"

definition misses_during :: "reading list \<Rightarrow> nat option" where
  "misses_during rs =
     (case last_run rs of b # r # rest \<Rightarrow> Some (misses (last (r # rest)) - misses b) | _ \<Rightarrow> None)"

fun spec_slot_step :: "held list \<Rightarrow> slot_event \<Rightarrow> held list" where
  "spec_slot_step q (Hold row_id what now_ms) =
     filter (\<lambda>x. held_id x \<noteq> row_id) q
     @ [\<lparr> held_id = row_id, held_what = what, held_since = now_ms, held_readings = [] \<rparr>]"
| "spec_slot_step q (Release row_id ask_id) = filter (\<lambda>x. held_id x \<noteq> row_id) q"
| "spec_slot_step q (Observe m u g) =
     map (\<lambda>x. x\<lparr> held_readings := held_readings x @ [\<lparr> misses = m, uptime = u, rules_generation = g \<rparr>] \<rparr>) q"
| "spec_slot_step q Announce = q"

definition slot_spec :: "slot_event list \<Rightarrow> held list" where
  "slot_spec es = foldl spec_slot_step [] es"

fun spec_message :: "held list \<Rightarrow> slot_message" where
  "spec_message [] = \<lparr> sm_holder = None, sm_holders = 0, sm_defaulted_at_least = None \<rparr>"
| "spec_message (x # q) =
     \<lparr> sm_holder = Some \<lparr> psh_row_id = held_id x, psh_what = held_what x, psh_since_ms = held_since x \<rparr>,
       sm_holders = u32_try_from (Suc (length q)),
       sm_defaulted_at_least = misses_during (held_readings x) \<rparr>"

section \<open>Lemmas on runs of readings\<close>

lemma last_run_suffix: "\<exists>pre. rs = pre @ last_run rs"
proof (induction rs)
  case (Cons r rs)
  then obtain pre where pre: "rs = pre @ last_run rs" by blast
  show ?case
  proof (cases "successively same_run (r # rs)")
    case False
    then have "r # rs = (r # pre) @ last_run (r # rs)" using pre by simp
    then show ?thesis by blast
  qed (auto intro: exI[of _ "[]"])
qed simp

lemma last_run_successively: "successively same_run (last_run rs)"
  by (induction rs) auto

lemma last_run_not_Nil: "rs \<noteq> [] \<Longrightarrow> last_run rs \<noteq> []"
proof (induction rs)
  case (Cons r rs)
  then show ?case by (cases rs) auto
qed simp

lemma last_last_run: "rs \<noteq> [] \<Longrightarrow> last (last_run rs) = last rs"
  by (metis last_appendR last_run_not_Nil last_run_suffix)

lemma last_run_snoc:
  "last_run (rs @ [r]) =
     (if rs \<noteq> [] \<and> same_run (last rs) r then last_run rs @ [r] else [r])"
proof (induction rs)
  case (Cons x rs)
  have "successively same_run (x # rs @ [r]) \<longleftrightarrow>
      successively same_run (x # rs) \<and> same_run (last (x # rs)) r"
    using successively_append_iff[of same_run "x # rs" "[r]"] by simp
  with Cons show ?case by (cases rs) auto
qed simp

section \<open>The slot refines the list\<close>

definition holder_sees :: "holder \<Rightarrow> reading list \<Rightarrow> bool" where
  "holder_sees h rs \<longleftrightarrow>
     h_baseline h = (case last_run rs of [] \<Rightarrow> None | b # _ \<Rightarrow> Some b)
     \<and> h_last h = (case last_run rs of b # r # rest \<Rightarrow> Some (last (r # rest)) | _ \<Rightarrow> None)"

lemma holder_sees_observe:
  assumes "holder_sees h rs"
  shows "holder_sees (holder_observe r h) (rs @ [r])"
proof (cases "rs = []")
  case True
  with assms show ?thesis by (simp add: holder_sees_def holder_observe_def last_run_snoc)
next
  case False
  then obtain b run where run: "last_run rs = b # run" by (meson last_run_not_Nil neq_Nil_conv)
  with assms have "h_baseline h = Some b"
    and latest: "(case h_last h of Some l \<Rightarrow> Some l | None \<Rightarrow> h_baseline h) = Some (last rs)"
    using last_last_run[OF False] by (auto simp: holder_sees_def split: list.splits)
  then show ?thesis
    using False run
    by (cases run) (auto simp: holder_sees_def holder_observe_def last_run_snoc same_run_def Let_def)
qed

lemma holder_sees_count: "holder_sees h rs \<Longrightarrow> defaulted_at_least h = misses_during rs"
  by (auto simp: holder_sees_def defaulted_at_least_def misses_during_def split: list.splits)

definition seq_of :: "prompt_slot \<Rightarrow> held \<Rightarrow> nat" where
  "seq_of s x = h_seq (the (fmlookup (holders s) (held_id x)))"

definition stands_for :: "prompt_slot \<Rightarrow> held \<Rightarrow> bool" where
  "stands_for s x \<longleftrightarrow>
     (\<exists>h. fmlookup (holders s) (held_id x) = Some h \<and> h_what h = held_what x
        \<and> h_since_ms h = held_since x \<and> holder_sees h (held_readings x) \<and> h_seq h \<le> next_seq s)"

definition slot_rel :: "prompt_slot \<Rightarrow> held list \<Rightarrow> bool" where
  "slot_rel s q \<longleftrightarrow>
     distinct (map held_id q) \<and> fset (fmdom (holders s)) = held_id ` set q
     \<and> (\<forall>x \<in> set q. stands_for s x) \<and> sorted_wrt (\<lambda>x y. seq_of s x < seq_of s y) q"

lemma slot_rel_empty [simp]: "slot_rel empty_slot []"
  by (simp add: slot_rel_def empty_slot_def)

lemma sorted_seq_filter:
  assumes "sorted_wrt (\<lambda>x y. seq_of s x < seq_of s y) q"
    and "\<And>x. x \<in> set q \<Longrightarrow> P x \<Longrightarrow> seq_of s' x = seq_of s x"
  shows "sorted_wrt (\<lambda>x y. seq_of s' x < seq_of s' y) (filter P q)"
  using assms by (induction q) auto

lemma slot_rel_release:
  assumes "slot_rel s q"
  shows "slot_rel (fst (slot_release row_id s)) (filter (\<lambda>x. held_id x \<noteq> row_id) q)"
proof -
  let ?s = "fst (slot_release row_id s)"
  have keep: "fmlookup (holders ?s) k = fmlookup (holders s) k" if "k \<noteq> row_id" for k
    using that by (simp add: slot_release_def)
  have "sorted_wrt (\<lambda>x y. seq_of ?s x < seq_of ?s y) (filter (\<lambda>x. held_id x \<noteq> row_id) q)"
    using assms keep by (intro sorted_seq_filter[of s]) (auto simp: slot_rel_def seq_of_def)
  moreover have "stands_for ?s x" if "stands_for s x" "held_id x \<noteq> row_id" for x
    using that keep by (auto simp: stands_for_def slot_release_def)
  ultimately show ?thesis
    using assms by (auto simp: slot_rel_def slot_release_def distinct_map_filter)
qed

lemma slot_rel_hold:
  assumes "slot_rel s q"
  shows "slot_rel (slot_hold row_id what now_ms s) (spec_slot_step q (Hold row_id what now_ms))"
proof -
  let ?s = "slot_hold row_id what now_ms s" and ?q = "filter (\<lambda>x. held_id x \<noteq> row_id) q"
  have keep: "fmlookup (holders ?s) k = fmlookup (holders s) k" if "k \<noteq> row_id" for k
    using that by (simp add: slot_hold_def Let_def)
  have stands: "stands_for ?s x" and older: "seq_of ?s x \<le> next_seq s" if "x \<in> set ?q" for x
    using that assms keep by (fastforce simp: slot_rel_def stands_for_def seq_of_def slot_hold_def Let_def)+
  have "sorted_wrt (\<lambda>x y. seq_of ?s x < seq_of ?s y) ?q"
    using assms keep by (intro sorted_seq_filter[of s]) (auto simp: slot_rel_def seq_of_def)
  moreover have "seq_of ?s \<lparr> held_id = row_id, held_what = what, held_since = now_ms, held_readings = [] \<rparr> = next_seq s + 1"
    by (simp add: seq_of_def slot_hold_def Let_def)
  ultimately show ?thesis
    using assms stands older
    by (auto simp: slot_rel_def sorted_wrt_append slot_hold_def Let_def stands_for_def holder_sees_def
        distinct_map_filter less_Suc_eq_le)
qed

lemma slot_rel_observe:
  assumes "slot_rel s q"
  shows "slot_rel (slot_observe m u g s) (spec_slot_step q (Observe m u g))"
proof -
  have "h_seq (holder_observe r h) = h_seq h" "h_what (holder_observe r h) = h_what h"
    "h_since_ms (holder_observe r h) = h_since_ms h" for r h
    by (simp_all add: holder_observe_def Let_def)
  note kept = this
  let ?s = "slot_observe m u g s" and ?r = "\<lparr> misses = m, uptime = u, rules_generation = g \<rparr>"
  let ?f = "\<lambda>x. x\<lparr> held_readings := held_readings x @ [?r] \<rparr>"
  have stands: "stands_for ?s (?f x)" "seq_of ?s (?f x) = seq_of s x" if "x \<in> set q" for x
    using that assms kept holder_sees_observe
    by (fastforce simp: slot_rel_def stands_for_def slot_observe_def seq_of_def)+
  have "sorted_wrt (\<lambda>x y. seq_of ?s (?f x) < seq_of ?s (?f y)) q"
    by (rule sorted_wrt_mono_rel[of q "\<lambda>x y. seq_of s x < seq_of s y"])
      (use assms stands(2) in \<open>auto simp: slot_rel_def\<close>)
  then show ?thesis
    using assms stands(1)
    by (simp add: slot_rel_def sorted_wrt_map comp_def image_image slot_observe_def)
qed

lemma min_by_key_least:
  assumes "x \<in> set xs" "\<And>y. y \<in> set xs \<Longrightarrow> y \<noteq> x \<Longrightarrow> f x < f y"
  shows "min_by_key f xs = Some x"
  using assms
proof (induction xs)
  case (Cons a xs)
  have mem: "min_by_key f xs = Some y \<Longrightarrow> y \<in> set xs" for y
    by (induction xs arbitrary: y) (auto split: option.splits if_splits)
  show ?case
  proof (cases "x = a")
    case True
    then show ?thesis using Cons.prems mem by (fastforce split: option.splits)
  next
    case False
    then have "min_by_key f xs = Some x" using Cons by auto
    then show ?thesis using Cons.prems(2)[of a] False by auto
  qed
qed simp

lemma slot_oldest_head:
  assumes "slot_rel s (x # q)"
  shows "\<exists>h. slot_oldest s = Some (held_id x, h) \<and> fmlookup (holders s) (held_id x) = Some h"
proof -
  obtain h where h: "fmlookup (holders s) (held_id x) = Some h"
    using assms by (auto simp: slot_rel_def stands_for_def)
  have "min_by_key (\<lambda>(_, h). h_seq h) (slot_entries s) = Some (held_id x, h)"
  proof (rule min_by_key_least)
    show "(held_id x, h) \<in> set (slot_entries s)"
      using h by (auto simp: slot_entries_def image_iff fmdomI)
  next
    fix e assume e: "e \<in> set (slot_entries s)" "e \<noteq> (held_id x, h)"
    then obtain y where "y \<in> set (x # q)" "e = (held_id y, the (fmlookup (holders s) (held_id y)))"
      using assms by (auto simp: slot_entries_def slot_rel_def)
    with e(2) h assms show "(case (held_id x, h) of (_, h) \<Rightarrow> h_seq h) < (case e of (_, h) \<Rightarrow> h_seq h)"
      by (auto simp: slot_rel_def seq_of_def)
  qed
  then show ?thesis using h by (simp add: slot_oldest_def)
qed

lemma slot_rel_len: "slot_rel s q \<Longrightarrow> fm_len (holders s) = length q"
  by (metis distinct_card fcard.rep_eq fm_len_def length_map list.set_map slot_rel_def)

lemma slot_message_refines:
  assumes "slot_rel s q"
  shows "slot_message_of s = spec_message q"
proof (cases q)
  case Nil
  then have "fm_keys (holders s) = []"
    using assms set_fm_keys[of "holders s"] by (metis image_empty list.set(1) set_empty slot_rel_def)
  then show ?thesis
    using Nil slot_rel_len[OF assms]
    by (simp add: slot_message_of_def slot_oldest_def slot_entries_def u32_try_from_def)
next
  case (Cons x xs)
  obtain h where "slot_oldest s = Some (held_id x, h)" "fmlookup (holders s) (held_id x) = Some h"
    using slot_oldest_head assms Cons by blast
  moreover have "stands_for s x" using assms Cons by (simp add: slot_rel_def)
  ultimately show ?thesis
    using slot_rel_len[OF assms] Cons
    by (auto simp: slot_message_of_def stands_for_def holder_sees_count)
qed

lemma slot_step_rel:
  assumes "slot_rel (sh_slot h) q"
  shows "slot_rel (sh_slot (slot_step h e)) (spec_slot_step q e)"
proof (cases e)
  case (Release row_id ask_id)
  show ?thesis
  proof (cases "fmlookup (holders (sh_slot h)) row_id")
    case None
    then have "\<forall>x \<in> set q. held_id x \<noteq> row_id"
      using assms by (auto simp: slot_rel_def stands_for_def)
    then have "filter (\<lambda>x. held_id x \<noteq> row_id) q = q" by (simp add: filter_id_conv)
    then show ?thesis using assms None by (simp add: Release handle_release_def slot_release_def)
  next
    case (Some k)
    then show ?thesis
      using slot_rel_release[OF assms] by (simp add: Release handle_release_def slot_release_def)
  qed
qed (use assms slot_rel_hold slot_rel_observe in
    \<open>simp_all add: handle_hold_def handle_observe_def handle_announce_def Let_def\<close>)

lemma slot_run_snoc [simp]: "slot_run (es @ [e]) = slot_step (slot_run es) e"
  by (simp add: slot_run_def)

lemma slot_spec_snoc [simp]: "slot_spec (es @ [e]) = spec_slot_step (slot_spec es) e"
  by (simp add: slot_spec_def)

lemma slot_run_rel: "slot_rel (sh_slot (slot_run es)) (slot_spec es)"
proof (induction es rule: rev_induct)
  case Nil
  then show ?case by (simp add: slot_run_def slot_spec_def new_handle_def)
next
  case (snoc e es)
  then show ?case by (simp add: slot_step_rel)
qed

text \<open>
  The slot is a queue of prompts: after any holds, releases and pings the message names
  the prompt that has held the slot longest (a prompt held again counts from its new hold),
  how many prompts hold it, and the misses between the first and the last reading of the
  last stretch without a daemon restart or a new rule snapshot since that prompt's hold.
\<close>

theorem slot_message_is_oldest_hold:
  "slot_message_of (sh_slot (slot_run es)) = spec_message (slot_spec es)"
  by (rule slot_message_refines) (rule slot_run_rel)

section \<open>What is announced\<close>

definition announced_inv :: "slot_handle \<Rightarrow> bool" where
  "announced_inv h \<longleftrightarrow>
     (if sh_sent h = [] then slot_message_of (sh_slot h) = spec_message []
      else last (sh_sent h) = slot_message_of (sh_slot h))"

lemma announced_step: "announced_inv h \<Longrightarrow> announced_inv (slot_step h e)"
  by (cases e)
    (auto simp: announced_inv_def handle_hold_def handle_release_def handle_observe_def
      handle_announce_def Let_def split: option.splits prod.splits if_splits)

interpretation announcements: state_machine "\<lambda>h. h = new_handle" slot_step announced_inv
proof
  show "s = new_handle \<Longrightarrow> announced_inv s" for s
    using slot_message_refines[OF slot_rel_empty] by (simp add: announced_inv_def new_handle_def)
qed (rule announced_step)

text \<open>
  Clients that keep only the latest announcement are up to date: after any sequence of
  changes the last message sent is the current state, and if none has been sent nothing
  holds the slot. A ping that changes nothing sends nothing.
\<close>

theorem last_announcement_is_current:
  "(if sh_sent (slot_run es) = [] then slot_message_of (sh_slot (slot_run es)) = spec_message []
    else last (sh_sent (slot_run es)) = slot_message_of (sh_slot (slot_run es)))
   \<and> (spec_message (slot_spec (es @ [Observe m u g])) = spec_message (slot_spec es)
      \<longleftrightarrow> sh_sent (slot_run (es @ [Observe m u g])) = sh_sent (slot_run es))"
proof -
  have "announced_inv (slot_run es)"
    unfolding slot_run_def by (rule announcements.inv_reachable) simp
  moreover have "spec_message (slot_spec (es @ [Observe m u g])) = slot_message_of (slot_observe m u g (sh_slot (slot_run es)))"
    using slot_message_refines[OF slot_run_rel, of "es @ [Observe m u g]"] by (simp add: handle_observe_def Let_def)
  ultimately show ?thesis
    unfolding announced_inv_def slot_message_refines[OF slot_run_rel, of es, symmetric]
    by (simp add: handle_observe_def Let_def del: slot_spec_snoc)
qed

section \<open>The summary notice\<close>

text \<open>
  A release sends at most one summary notice, and sends one exactly when the prompt was
  held and its own readings show at least one miss; the notice carries that prompt's count.
\<close>

theorem summary_notice_exact:
  "sh_notices (slot_run (es @ [Release row_id ask_id])) =
     sh_notices (slot_run es) @
     (case find (\<lambda>x. held_id x = row_id) (slot_spec es) of
        None \<Rightarrow> []
      | Some x \<Rightarrow> (case misses_during (held_readings x) of
                    Some n \<Rightarrow> if 0 < n then [PromptSlotSummary ask_id n] else []
                  | None \<Rightarrow> []))"
proof (cases "find (\<lambda>x. held_id x = row_id) (slot_spec es)")
  case None
  then have "fmlookup (holders (sh_slot (slot_run es))) row_id = None"
    using slot_run_rel[of es] by (auto simp: find_None_set slot_rel_def fmlookup_None_iff)
  then show ?thesis using None by (simp add: handle_release_def slot_release_def)
next
  case (Some x)
  then have "x \<in> set (slot_spec es)" "held_id x = row_id" using find_Some_set by fastforce+
  then obtain h where "fmlookup (holders (sh_slot (slot_run es))) row_id = Some h"
    "holder_sees h (held_readings x)"
    using slot_run_rel[of es] by (auto simp: slot_rel_def stands_for_def)
  then show ?thesis
    using Some by (simp add: handle_release_def slot_release_def holder_sees_count)
qed

end
