(* ===== verification/Curated_Store.thy ===== *)
theory Curated_Store
  imports Curated_Props Rule_Wire "HOL-Library.Word"
begin

unbundle bit_operations_syntax

text \<open>
  \<open>curated/store.rs\<close> and \<open>curated/intent.rs\<close>: the user's choices for the shipped defaults, the
  consent kept for a rule that may reach any address, the file they are saved in, and the
  tickets a GUI connection holds while its user reads what it consents to.

  The file is read by \<open>serde_json\<close> into the datatype \<open>saved_file\<close>. The fingerprint of a
  canonical rule (the hexadecimal SHA-256 of its JSON) is an argument; so are the encoded
  size of a file, the random bytes of a ticket and the list \<open>entries()\<close>.
\<close>

section \<open>Choices\<close>

datatype broad_authority = AuthorityEnable | AdoptionOnly

record broad_grant =
  bg_version :: nat
  bg_id :: rstr
  bg_consent :: rstr
  bg_policy :: rstr
  bg_authority :: broad_authority

record choices =
  ch_enabled :: "rstr fset"
  ch_disabled :: "rstr fset"
  ch_installed :: "(rstr, canonical_rule) fmap"
  ch_installed_ids :: "rstr fset"
  ch_deleted :: "rstr fset"
  ch_grants :: "(rstr, broad_grant) fmap"
  ch_files_left :: "rstr fset"

definition no_choices :: choices where
  "no_choices = \<lparr> ch_enabled = {||}, ch_disabled = {||}, ch_installed = fmempty, ch_installed_ids = {||},
     ch_deleted = {||}, ch_grants = fmempty, ch_files_left = {||} \<rparr>"

definition BROAD_CONSENT :: rstr where "BROAD_CONSENT = lit ''resolver-any-address-v1''"
definition GRANT_VERSION :: nat where "GRANT_VERSION = 1"

text \<open>What the source reads of the program's own data: the entry list, the lower-casing of
  \<open>canonical\<close> and the fingerprint.\<close>

record curated_env =
  cv_lib :: regex_lib
  cv_entries :: "curated_entry list"
  cv_groups :: "curated_group list"
  cv_fingerprint :: "canonical_rule \<Rightarrow> rstr"

abbreviation canon :: "curated_env \<Rightarrow> rule \<Rightarrow> canonical_rule" where
  "canon v \<equiv> canonical (cv_lib v)"

definition entry_of :: "curated_env \<Rightarrow> rstr \<Rightarrow> curated_entry option" where
  "entry_of v ident = find (\<lambda>e. ce_id e = ident) (cv_entries v)"

definition broad_policy_fingerprint :: "curated_env \<Rightarrow> curated_entry \<Rightarrow> rstr" where
  "broad_policy_fingerprint v e = cv_fingerprint v (canon v (entry_rule e))"

definition grant_matches :: "curated_env \<Rightarrow> broad_grant \<Rightarrow> curated_entry \<Rightarrow> bool" where
  "grant_matches v g e \<longleftrightarrow>
     ce_any_address e \<and> bg_version g = GRANT_VERSION \<and> bg_id g = ce_id e \<and> bg_consent g = BROAD_CONSENT
     \<and> bg_policy g = broad_policy_fingerprint v e"

definition carried_over :: "curated_env \<Rightarrow> broad_grant \<Rightarrow> curated_entry \<Rightarrow> canonical_rule option \<Rightarrow> broad_grant option" where
  "carried_over v g e copy =
     (if grant_matches v g e then Some g
      else let for_copy = (case copy of Some c \<Rightarrow> bg_policy g = cv_fingerprint v c | None \<Rightarrow> False);
               carried = g\<lparr> bg_policy := broad_policy_fingerprint v e \<rparr>
           in if for_copy \<and> grant_matches v carried e then Some carried else None)"

definition revoke_broad :: "rstr \<Rightarrow> choices \<Rightarrow> choices" where
  "revoke_broad ident c = c\<lparr> ch_grants := fmdrop ident (ch_grants c) \<rparr>"

definition grant_broad :: "curated_env \<Rightarrow> rstr \<Rightarrow> bool \<Rightarrow> choices \<Rightarrow> choices" where
  "grant_broad v ident activation c =
     (case find (\<lambda>e. ce_id e = ident \<and> ce_any_address e) (cv_entries v) of
        Some e \<Rightarrow> c\<lparr> ch_grants := fmupd ident
            \<lparr> bg_version = GRANT_VERSION, bg_id = ident, bg_consent = BROAD_CONSENT,
              bg_policy = broad_policy_fingerprint v e,
              bg_authority = (if activation then AuthorityEnable else AdoptionOnly) \<rparr> (ch_grants c) \<rparr>
      | None \<Rightarrow> c)"

definition has_broad_authority_for :: "curated_env \<Rightarrow> curated_entry \<Rightarrow> choices \<Rightarrow> bool" where
  "has_broad_authority_for v e c \<longleftrightarrow>
     ce_id e |\<in>| ch_enabled c \<and> ce_id e |\<notin>| ch_disabled c \<and> ce_id e |\<notin>| ch_deleted c
     \<and> (case fmlookup (ch_grants c) (ce_id e) of
          Some g \<Rightarrow> bg_authority g = AuthorityEnable \<and> grant_matches v g e | None \<Rightarrow> False)"

definition has_broad_authority :: "curated_env \<Rightarrow> rstr \<Rightarrow> choices \<Rightarrow> bool" where
  "has_broad_authority v ident c \<longleftrightarrow>
     (case entry_of v ident of Some e \<Rightarrow> has_broad_authority_for v e c | None \<Rightarrow> False)"

definition choice_enable :: "rstr \<Rightarrow> choices \<Rightarrow> choices" where
  "choice_enable ident c =
     (let c' = (if ident |\<in>| ch_enabled c then c
                else c\<lparr> ch_enabled := finsert ident (ch_enabled c), ch_deleted := ch_deleted c |-| {|ident|} \<rparr>)
      in c'\<lparr> ch_disabled := ch_disabled c' |-| {|ident|} \<rparr>)"

definition choice_disable :: "rstr \<Rightarrow> choices \<Rightarrow> choices" where
  "choice_disable ident c =
     c\<lparr> ch_enabled := ch_enabled c |-| {|ident|}, ch_disabled := finsert ident (ch_disabled c),
        ch_grants := fmdrop ident (ch_grants c) \<rparr>"

definition choice_installed :: "curated_env \<Rightarrow> rstr \<Rightarrow> rule \<Rightarrow> choices \<Rightarrow> choices" where
  "choice_installed v ident r c =
     c\<lparr> ch_installed := fmupd ident (canon v r) (ch_installed c), ch_installed_ids := finsert ident (ch_installed_ids c) \<rparr>"

definition choice_removed :: "rstr \<Rightarrow> choices \<Rightarrow> choices" where
  "choice_removed ident c =
     c\<lparr> ch_installed := fmdrop ident (ch_installed c), ch_installed_ids := ch_installed_ids c |-| {|ident|} \<rparr>"

definition file_left :: "rstr \<Rightarrow> choices \<Rightarrow> choices" where
  "file_left ident c = c\<lparr> ch_files_left := finsert ident (ch_files_left c) \<rparr>"

definition file_gone :: "rstr \<Rightarrow> choices \<Rightarrow> choices" where
  "file_gone ident c = c\<lparr> ch_files_left := ch_files_left c |-| {|ident|} \<rparr>"

definition was_installed :: "rstr \<Rightarrow> choices \<Rightarrow> bool" where
  "was_installed ident c \<longleftrightarrow> ident |\<in>| ch_installed_ids c \<or> ident |\<in>| fmdom (ch_installed c)"

definition user_removed :: "rstr \<Rightarrow> choices \<Rightarrow> choices" where
  "user_removed ident c =
     (let c = choice_removed ident c
      in c\<lparr> ch_deleted := finsert ident (ch_deleted c), ch_grants := fmdrop ident (ch_grants c) \<rparr>)"

section \<open>The file\<close>

definition MAX_FILE_BYTES :: nat where "MAX_FILE_BYTES = 512 * 1024"
definition MAX_IDS :: nat where "MAX_IDS = 256"
definition STORE_VERSION :: nat where "STORE_VERSION = 3"

record choices_v1 =
  v1_enabled :: "rstr fset"
  v1_installed :: "(rstr, json) fmap"
  v1_deleted :: "rstr fset"

datatype saved_file = FileV1 choices_v1 | FileV2 choices | FileV3 choices | FileOther nat

datatype store_error = UnsupportedVersion nat | TooManyChoices | InvalidChoices | ChoicesTooLarge

definition curated_rule_name :: "rstr \<Rightarrow> rstr" where
  "curated_rule_name ident = CURATED_DEFAULT_RULE_NAME_PREFIX @ ident"

definition from_v1 :: "curated_env \<Rightarrow> choices_v1 \<Rightarrow> choices" where
  "from_v1 v f =
     no_choices\<lparr> ch_enabled := v1_enabled f,
       ch_installed_ids := fmdom (v1_installed f),
       ch_installed := fm_collect (List.map_filter (\<lambda>ident.
           case rule_from_wire (cv_lib v) (the (fmlookup (v1_installed f) ident)) of
             Inr r \<Rightarrow> Some (ident, canon v r) | Inl _ \<Rightarrow> None) (fm_keys (v1_installed f))),
       ch_deleted := v1_deleted f \<rparr>"

definition valid_copy :: "curated_env \<Rightarrow> rstr \<Rightarrow> canonical_rule \<Rightarrow> bool" where
  "valid_copy v ident copy \<longleftrightarrow>
     valid_id ident \<and> cr_name copy = curated_rule_name ident
     \<and> (case entry_of v ident of
          Some e \<Rightarrow> (case rule_matching e (to_rule copy) of Some ours \<Rightarrow> copy = canon v ours | None \<Rightarrow> False)
        | None \<Rightarrow> check_curated_rule (cv_lib v) (to_rule copy) = Inr ())"

definition cleaned_grant :: "curated_env \<Rightarrow> choices \<Rightarrow> rstr \<Rightarrow> broad_grant \<Rightarrow> broad_grant option" where
  "cleaned_grant v c ident g =
     (case entry_of v ident of
        None \<Rightarrow> None
      | Some e \<Rightarrow> carried_over v g e
          (case fmlookup (ch_installed c) ident of Some copy \<Rightarrow> if valid_copy v ident copy then Some copy else None | None \<Rightarrow> None))"

definition cleaned :: "curated_env \<Rightarrow> choices \<Rightarrow> choices" where
  "cleaned v c =
     \<lparr> ch_enabled = ffilter valid_id (ch_enabled c),
       ch_disabled = ffilter valid_id (ch_disabled c),
       ch_installed = fm_retain (valid_copy v) (ch_installed c),
       ch_installed_ids = ffilter valid_id (ch_installed_ids c |\<union>| fmdom (ch_installed c)),
       ch_deleted = ffilter valid_id (ch_deleted c),
       ch_grants = fm_collect (List.map_filter (\<lambda>ident.
           map_option (Pair ident) (cleaned_grant v c ident (the (fmlookup (ch_grants c) ident)))) (fm_keys (ch_grants c))),
       ch_files_left = ffilter valid_id (ch_files_left c) \<rparr>"

definition choices_count :: "choices \<Rightarrow> nat" where
  "choices_count c = fcard (ch_enabled c) + fcard (ch_disabled c) + fcard (ch_deleted c) + fm_len (ch_installed c)
     + fcard (ch_installed_ids c) + fm_len (ch_grants c) + fcard (ch_files_left c)"

definition store_load :: "curated_env \<Rightarrow> saved_file option \<Rightarrow> store_error + choices option" where
  "store_load v file =
     (case file of
        None \<Rightarrow> Inr None
      | Some (FileOther n) \<Rightarrow> Inl (UnsupportedVersion n)
      | Some f \<Rightarrow>
          (let c = (case f of FileV1 x \<Rightarrow> from_v1 v x | FileV2 x \<Rightarrow> x\<lparr> ch_grants := fmempty \<rparr> | FileV3 x \<Rightarrow> x)
           in if 7 * MAX_IDS < choices_count c then Inl TooManyChoices else Inr (Some (cleaned v c))))"

definition store_save :: "curated_env \<Rightarrow> (saved_file \<Rightarrow> nat) \<Rightarrow> choices \<Rightarrow> store_error + saved_file" where
  "store_save v encoded_len c =
     (if cleaned v c \<noteq> c then Inl InvalidChoices
      else if MAX_FILE_BYTES < encoded_len (FileV3 c) then Inl ChoicesTooLarge
      else Inr (FileV3 c))"

section \<open>Tickets (intent.rs)\<close>

definition CONSENT_VERSION :: rstr where "CONSENT_VERSION = lit ''resolver-any-address-v1''"
definition INTENT_LIFETIME :: nat where "INTENT_LIFETIME = 120 * NANOS"
definition DNS_ENTRY_ID :: rstr where "DNS_ENTRY_ID = lit ''dns-resolved''"

datatype intent_error = InvalidIntent | StaleIntent | IntentUnavailable

datatype intent_purpose = PurposeEnable | PurposeReenable | PurposeKeep

record pending_intent =
  pi_request :: rstr
  pi_id :: rstr
  pi_purpose :: intent_purpose
  pi_fingerprint :: rstr
  pi_revision :: "64 word"
  pi_expires :: instant
  pi_ticket :: rstr

record intent_context =
  ic_alive :: bool
  ic_pending :: "pending_intent option"

definition websocket_context :: intent_context where
  "websocket_context = \<lparr> ic_alive = True, ic_pending = None \<rparr>"

definition intent_admit :: "intent_context \<Rightarrow> intent_error + unit" where
  "intent_admit x = (if ic_alive x then Inr () else Inl StaleIntent)"

definition intent_kill :: "intent_context \<Rightarrow> intent_context" where
  "intent_kill x = x\<lparr> ic_alive := False, ic_pending := None \<rparr>"

definition intent_invalidate :: "intent_context \<Rightarrow> intent_context" where
  "intent_invalidate x = x\<lparr> ic_pending := None \<rparr>"

definition valid_request_id :: "rstr \<Rightarrow> bool" where
  "valid_request_id s \<longleftrightarrow> 1 \<le> str_len s \<and> str_len s \<le> 64 \<and> list_all (\<lambda>c. is_ascii_alphanumeric c \<or> c = 45) s"

definition valid_ticket :: "rstr \<Rightarrow> bool" where
  "valid_ticket s \<longleftrightarrow> str_len s = 64 \<and> list_all (\<lambda>c. is_ascii_digit c \<or> (97 \<le> c \<and> c \<le> 102)) s"

definition constant_time_equal :: "rstr \<Rightarrow> rstr \<Rightarrow> bool" where
  "constant_time_equal a b \<longleftrightarrow>
     str_len a = str_len b
     \<and> fold (\<lambda>(x, y) difference. difference OR (x XOR y))
         (zip (map of_nat (as_bytes a)) (map of_nat (as_bytes b))) (0 :: 8 word) = 0"

text \<open>\<open>ticket\<close> is the random one, or \<open>None\<close> when the system gives no random bytes.\<close>

definition intent_prepare ::
  "rstr option \<Rightarrow> instant \<Rightarrow> rstr \<Rightarrow> rstr \<Rightarrow> intent_purpose \<Rightarrow> rstr \<Rightarrow> 64 word \<Rightarrow> intent_context \<Rightarrow> intent_context \<times> (intent_error + rstr)" where
  "intent_prepare ticket now request_id ident purpose fingerprint revision x =
     (let x = intent_invalidate x
      in if \<not> valid_request_id request_id \<or> ident \<noteq> DNS_ENTRY_ID \<or> \<not> valid_ticket fingerprint then (x, Inl InvalidIntent)
         else case ticket of
                None \<Rightarrow> (x, Inl IntentUnavailable)
              | Some t \<Rightarrow>
                  (x\<lparr> ic_pending := Some \<lparr> pi_request = request_id, pi_id = ident, pi_purpose = purpose,
                       pi_fingerprint = fingerprint, pi_revision = revision,
                       pi_expires = now + INTENT_LIFETIME, pi_ticket = t \<rparr> \<rparr>, Inr t))"

definition intent_consume ::
  "instant \<Rightarrow> rstr \<Rightarrow> rstr \<Rightarrow> rstr \<Rightarrow> intent_purpose \<Rightarrow> rstr \<Rightarrow> 64 word \<Rightarrow> rstr \<Rightarrow> intent_context \<Rightarrow> intent_context \<times> (intent_error + unit)" where
  "intent_consume now request_id ticket ident purpose fingerprint revision consent x =
     (case ic_pending x of
        None \<Rightarrow> (x, Inl StaleIntent)
      | Some p \<Rightarrow>
          (intent_invalidate x,
           if \<not> valid_request_id request_id \<or> \<not> valid_ticket ticket \<or> ident \<noteq> DNS_ENTRY_ID \<or> consent \<noteq> CONSENT_VERSION
           then Inl InvalidIntent
           else if pi_expires p \<le> now \<or> pi_request p \<noteq> request_id \<or> pi_id p \<noteq> ident \<or> pi_purpose p \<noteq> purpose
                   \<or> pi_fingerprint p \<noteq> fingerprint \<or> pi_revision p \<noteq> revision \<or> \<not> constant_time_equal (pi_ticket p) ticket
           then Inl StaleIntent
           else Inr ()))"

definition intent_cancel :: "rstr \<Rightarrow> rstr \<Rightarrow> intent_context \<Rightarrow> intent_context \<times> bool" where
  "intent_cancel request_id ident x =
     (case ic_pending x of
        Some p \<Rightarrow> if pi_request p = request_id \<and> pi_id p = ident then (intent_invalidate x, True) else (x, False)
      | None \<Rightarrow> (x, False))"

end
