(* ===== verification/Curated_Reconcile.thy ===== *)
theory Curated_Reconcile
  imports Curated_Store
begin

text \<open>
  \<open>curated/reconcile.rs\<close> and \<open>curated/orphans.rs\<close>: what to do about the shipped defaults, given
  the daemon's rules and the user's choices.
\<close>

section \<open>Plans\<close>

datatype curated_action = Install rstr | Upgrade rstr | Delete rstr rstr

datatype entry_status =
  StWaiting | StUnavailable | StInFirewall | StInFirewallButOff | StOff | StInstalling | StAwaitingConsent
| StInstalled | StInstalledButOff | StRemoving | StEditedByYou | StDeletedOutside | StNotInstalled | StNotRemoved
| StOffFileLeft | StUnknown

record daemon_rules =
  dr_rules :: "(rstr, rule) fmap"
  dr_left_out :: "rstr fset"
  dr_files_left :: "rstr fset"
  dr_maybe_applied :: "rstr fset"

record plan_result =
  pl_choices :: choices
  pl_actions :: "curated_action list"
  pl_statuses :: "(rstr, entry_status) fmap"

definition in_firewall :: "rule \<Rightarrow> entry_status" where
  "in_firewall r = (if r_enabled r then StInFirewall else StInFirewallButOff)"

text \<open>\<open>plan_legacy\<close> and \<open>plan_entry\<close> give the entry's status, the next choices and the actions added.\<close>

type_synonym planned = "entry_status \<times> choices \<times> curated_action list"

definition plan_legacy :: "curated_entry \<Rightarrow> rule \<Rightarrow> choices \<Rightarrow> choices \<Rightarrow> planned" where
  "plan_legacy e present c next =
     (let ident = ce_id e; on = ident |\<in>| ch_enabled c
      in if \<not> on \<and> ident |\<notin>| ch_disabled c then (in_firewall present, next, [])
         else let next = next\<lparr> ch_installed_ids := finsert ident (ch_installed_ids next),
                               ch_deleted := ch_deleted next |-| {|ident|} \<rparr>
              in if \<not> on then (StRemoving, next, [Delete ident (entry_rule_name e)])
                 else (if r_enabled present then StInstalled else StInstalledButOff, next, [Upgrade ident]))"

definition plan_missing :: "curated_env \<Rightarrow> curated_entry \<Rightarrow> daemon_rules \<Rightarrow> choices \<Rightarrow> choices \<Rightarrow> planned" where
  "plan_missing v e daemon c next =
     (let ident = ce_id e; name = entry_rule_name e; on = ident |\<in>| ch_enabled c;
          next = choice_removed ident next
      in if \<not> on \<and> name |\<in>| dr_maybe_applied daemon then (StRemoving, next, [Delete ident name])
         else if \<not> on \<and> name |\<in>| dr_files_left daemon then (StOffFileLeft, next, [])
         else if \<not> on then (StOff, next, [])
         else if ident |\<in>| ch_deleted c \<or> was_installed ident c
         then (StDeletedOutside,
               next\<lparr> ch_deleted := finsert ident (ch_deleted next), ch_grants := fmdrop ident (ch_grants next) \<rparr>, [])
         else if ce_any_address e \<and> \<not> has_broad_authority_for v e c then (StAwaitingConsent, next, [])
         else (StInstalling, next, [Install ident]))"

definition plan_entry :: "curated_env \<Rightarrow> curated_entry \<Rightarrow> daemon_rules \<Rightarrow> choices \<Rightarrow> choices \<Rightarrow> planned" where
  "plan_entry v e daemon c next =
     (let ident = ce_id e; name = entry_rule_name e; on = ident |\<in>| ch_enabled c
      in if name |\<in>| dr_left_out daemon then (StEditedByYou, next, [])
         else case fmlookup (dr_rules daemon) name of
                None \<Rightarrow> plan_missing v e daemon c next
              | Some present \<Rightarrow>
                  if is_legacy (cv_lib v) e present then plan_legacy e present c next
                  else if \<not> is_unedited (cv_lib v) (Some e) None present then (StEditedByYou, next, [])
                  else if \<not> on \<and> ident |\<notin>| ch_disabled c then (in_firewall present, next, [])
                  else let next = choice_installed v ident present next;
                           next = next\<lparr> ch_deleted := ch_deleted next |-| {|ident|} \<rparr>
                       in if \<not> on then (StRemoving, next, [Delete ident name])
                          else (if r_enabled present then StInstalled else StInstalledButOff, next, []))"

fun plan_entries ::
  "curated_env \<Rightarrow> daemon_rules \<Rightarrow> choices \<Rightarrow> curated_entry list \<Rightarrow> choices \<Rightarrow> (rstr, entry_status) fmap
     \<Rightarrow> choices \<times> curated_action list \<times> (rstr, entry_status) fmap" where
  "plan_entries v daemon c [] next sts = (next, [], sts)"
| "plan_entries v daemon c (e # es) next sts =
     (let (st, next, acts) = plan_entry v e daemon c next;
          (next, acts', sts) = plan_entries v daemon c es next (fmupd (ce_id e) st sts)
      in (next, acts @ acts', sts))"

text \<open>A rule under the prefix that is no longer offered: deleted only if it is a recorded copy.\<close>

definition leftover_action :: "curated_env \<Rightarrow> daemon_rules \<Rightarrow> choices \<Rightarrow> rstr \<Rightarrow> curated_action list" where
  "leftover_action v daemon c name =
     (case strip_curated name of
        None \<Rightarrow> []
      | Some ident \<Rightarrow>
          if list_ex (\<lambda>e. ce_id e = ident) (cv_entries v) then []
          else if is_unedited (cv_lib v) None (fmlookup (ch_installed c) ident) (the (fmlookup (dr_rules daemon) name))
          then [Delete ident name] else [])"

definition plan :: "curated_env \<Rightarrow> daemon_rules \<Rightarrow> choices \<Rightarrow> plan_result" where
  "plan v daemon c =
     (let (next, acts, sts) = plan_entries v daemon c (cv_entries v) c fmempty;
          offered = (\<lambda>ident. list_ex (\<lambda>e. ce_id e = ident) (cv_entries v));
          next = next\<lparr> ch_installed := fm_retain (\<lambda>ident copy. offered ident \<or> cr_name copy |\<in>| fmdom (dr_rules daemon)) (ch_installed next),
                       ch_installed_ids := ffilter (\<lambda>ident. offered ident \<or> curated_rule_name ident |\<in>| fmdom (dr_rules daemon)) (ch_installed_ids next) \<rparr>
      in \<lparr> pl_choices = next,
           pl_actions = acts @ concat (map (leftover_action v daemon c) (fm_keys (dr_rules daemon))),
           pl_statuses = sts \<rparr>)"

definition inert_status :: "curated_env \<Rightarrow> daemon_rules \<Rightarrow> curated_entry \<Rightarrow> entry_status" where
  "inert_status v daemon e =
     (let name = entry_rule_name e
      in if name |\<in>| dr_left_out daemon then StEditedByYou
         else case fmlookup (dr_rules daemon) name of
                Some r \<Rightarrow> if is_unedited (cv_lib v) (Some e) None r \<or> is_legacy (cv_lib v) e r then in_firewall r else StEditedByYou
              | None \<Rightarrow> StUnavailable)"

definition inert_statuses :: "curated_env \<Rightarrow> daemon_rules \<Rightarrow> (rstr, entry_status) fmap" where
  "inert_statuses v daemon = fm_collect (map (\<lambda>e. (ce_id e, inert_status v daemon e)) (cv_entries v))"

section \<open>Rules nothing offers or owns\<close>

definition orphan_id :: "rstr \<Rightarrow> rstr option" where
  "orphan_id name = (case strip_curated name of Some ident \<Rightarrow> if valid_id ident then Some ident else None | None \<Rightarrow> None)"

definition is_orphan :: "curated_env \<Rightarrow> (rstr, rule) fmap \<Rightarrow> rstr fset \<Rightarrow> choices \<Rightarrow> rstr \<Rightarrow> bool" where
  "is_orphan v rules left_out c name \<longleftrightarrow>
     (case orphan_id name of
        Some ident \<Rightarrow> name |\<in>| fmdom rules \<and> name |\<notin>| left_out
          \<and> \<not> list_ex (\<lambda>e. ce_id e = ident) (cv_entries v) \<and> \<not> was_installed ident c
      | None \<Rightarrow> False)"

definition orphans :: "curated_env \<Rightarrow> (rstr, rule) fmap \<Rightarrow> rstr fset \<Rightarrow> choices \<Rightarrow> (rstr \<times> bool) list" where
  "orphans v rules left_out c =
     List.map_filter (\<lambda>name. map_option (\<lambda>ident. (ident, r_enabled (the (fmlookup rules name)))) (orphan_id name))
       (filter (is_orphan v rules left_out c) (fm_keys rules))"

end
