(* ===== verification/Curated_Manager_State.thy ===== *)
theory Curated_Manager_State
  imports Curated_Reconcile Daemon_Commands
begin

text \<open>
  \<open>curated/manager_state.rs\<close>, \<open>manager_resolver.rs\<close>, \<open>manager_moved.rs\<close> and
  \<open>manager_checks.rs\<close>: what the worker for the shipped defaults remembers between passes, and the
  bookkeeping it does on it. Counters (\<open>u64\<close>) are unbounded, except \<open>broad_revision\<close>, which wraps.
\<close>

section \<open>State\<close>

record storage_status =
  st_persistent :: bool
  st_reason :: "rstr option"
  st_unreadable :: bool

record maybe_applied =
  ma_epoch :: nat
  ma_file_possible :: bool

record failure =
  fl_generation :: nat
  fl_status :: entry_status
  fl_problem :: rstr

record orphan_failure =
  of_generation :: nat
  of_problem :: rstr
  of_file_left :: bool

datatype request_outcome = ChoiceAccepted | RefusedConsent | UnknownId | OutcomeUnavailable | OutcomeInvalid | OutcomeStale

record request_result =
  rr_id :: rstr
  rr_outcome :: request_outcome
  rr_reason :: rstr
  rr_choice_accepted :: "bool option"
  rr_persisted :: "bool option"

text \<open>A reply goes to one GUI connection, named by its number.\<close>

record pending_result =
  pr_reply :: nat
  pr_request_id :: "rstr option"
  pr_results :: "request_result list"
  pr_version :: nat
  pr_authority_revision :: "64 word option"
  pr_grant :: "broad_grant option"

type_synonym found = "(rstr, nat option) fmap"

record manager_state =
  ms_choices :: choices
  ms_broad_revision :: "64 word"
  ms_consent_problems :: "(rstr, rstr) fmap"
  ms_reenables :: "(rstr, 64 word) fmap"
  ms_request_results :: "pending_result list"
  ms_statuses :: "(rstr, entry_status) fmap"
  ms_problems :: "(rstr, rstr) fmap"
  ms_failures :: "(rstr, failure) fmap"
  ms_removal_failures :: "(rstr, failure) fmap"
  ms_removals :: "rstr fset"
  ms_orphan_removals :: "rstr fset"
  ms_orphan_failures :: "(rstr, orphan_failure) fmap"
  ms_maybe_applied :: "(rstr, maybe_applied) fmap"
  ms_install_refusals :: "(rstr, rstr \<times> nat) fmap"
  ms_withheld :: "rstr fset"
  ms_found :: found
  ms_moved :: "rstr fset"
  ms_repinned :: "(rstr, nat) fmap"
  ms_requests :: nat
  ms_file :: bool
  ms_storage :: storage_status
  ms_inert :: "rstr option"
  ms_version :: nat
  ms_saved :: nat

definition new_manager_state :: manager_state where
  "new_manager_state =
     \<lparr> ms_choices = no_choices, ms_broad_revision = 0, ms_consent_problems = fmempty, ms_reenables = fmempty,
       ms_request_results = [], ms_statuses = fmempty, ms_problems = fmempty, ms_failures = fmempty,
       ms_removal_failures = fmempty, ms_removals = {||}, ms_orphan_removals = {||}, ms_orphan_failures = fmempty,
       ms_maybe_applied = fmempty, ms_install_refusals = fmempty, ms_withheld = {||}, ms_found = fmempty,
       ms_moved = {||}, ms_repinned = fmempty, ms_requests = 0, ms_file = False,
       ms_storage = \<lparr> st_persistent = False, st_reason = None, st_unreadable = False \<rparr>,
       ms_inert = None, ms_version = 0, ms_saved = 0 \<rparr>"

definition clear_removals :: "manager_state \<Rightarrow> manager_state" where
  "clear_removals s = s\<lparr> ms_removals := {||}, ms_orphan_removals := {||} \<rparr>"

section \<open>Problems\<close>

record problem =
  pb_text :: rstr
  pb_sticky :: bool
  pb_daemon_refused :: bool
  pb_unanswered :: bool

datatype refusal = RefusalAdd | RefusalRemove

definition send_problem :: "send_error \<Rightarrow> problem" where
  "send_problem e =
     (let (text, sticky) =
        (case e of
           NotQueued \<Rightarrow>
             (lit ''The firewall service is busy; Snitchwatch tries again when its rule list next changes, or when you ask again.'',
              False)
         | NoDaemon \<Rightarrow> (lit ''The firewall service isn't connected.'', True)
         | _ \<Rightarrow> (lit ''Snitchwatch refused to send this rule.'', True))
      in \<lparr> pb_text = text, pb_sticky = sticky, pb_daemon_refused = False, pb_unanswered = False \<rparr>)"

definition command_problem :: "command_error \<Rightarrow> refusal \<Rightarrow> problem" where
  "command_problem e refusal =
     \<lparr> pb_text =
         (case e of
            Rejected_by_daemon _ \<Rightarrow>
              (case refusal of RefusalAdd \<Rightarrow> lit ''The firewall service refused the rule.''
               | RefusalRemove \<Rightarrow> lit ''The firewall service refused to remove the rule.'')
          | Timeout \<Rightarrow> lit ''The firewall service didn't answer.''
          | StreamClosed \<Rightarrow> lit ''The firewall service disconnected.''),
       pb_sticky = True,
       pb_daemon_refused = (case e of Rejected_by_daemon _ \<Rightarrow> True | _ \<Rightarrow> False),
       pb_unanswered = (e = Timeout) \<rparr>"

type_synonym command_result = "problem + unit"

section \<open>Bookkeeping\<close>

definition keep :: "choices \<Rightarrow> manager_state \<Rightarrow> manager_state" where
  "keep c s = (if ms_choices s \<noteq> c then s\<lparr> ms_choices := c, ms_version := ms_version s + 1 \<rparr> else s)"

definition track_maybe_applied ::
  "rstr \<Rightarrow> bool \<Rightarrow> command_result \<Rightarrow> bool \<Rightarrow> nat \<Rightarrow> manager_state \<Rightarrow> manager_state \<times> maybe_applied option" where
  "track_maybe_applied name install outcome marked epoch s =
     (let refused = (case outcome of Inl p \<Rightarrow> pb_daemon_refused p | Inr _ \<Rightarrow> False);
          unanswered = (case outcome of Inl p \<Rightarrow> pb_unanswered p | Inr _ \<Rightarrow> False)
      in if install \<and> (refused \<or> unanswered)
         then (let earlier = (case fmlookup (ms_maybe_applied s) name of Some r \<Rightarrow> ma_file_possible r | None \<Rightarrow> False)
               in (s\<lparr> ms_maybe_applied := fmupd name
                        \<lparr> ma_epoch = epoch, ma_file_possible = (unanswered \<or> marked \<or> earlier) \<rparr> (ms_maybe_applied s) \<rparr>, None))
         else if outcome = Inr () \<or> refused
         then (s\<lparr> ms_maybe_applied := fmdrop name (ms_maybe_applied s) \<rparr>, fmlookup (ms_maybe_applied s) name)
         else (s, None))"

definition set_status :: "rstr \<Rightarrow> entry_status \<Rightarrow> manager_state \<Rightarrow> manager_state" where
  "set_status ident st s = s\<lparr> ms_statuses := fmupd ident st (ms_statuses s) \<rparr>"

definition set_problem :: "rstr \<Rightarrow> rstr \<Rightarrow> manager_state \<Rightarrow> manager_state" where
  "set_problem ident text s = s\<lparr> ms_problems := fmupd ident text (ms_problems s) \<rparr>"

definition forget_failure :: "rstr \<Rightarrow> manager_state \<Rightarrow> manager_state" where
  "forget_failure ident s = s\<lparr> ms_failures := fmdrop ident (ms_failures s) \<rparr>"

definition deleted ::
  "rstr \<Rightarrow> bool \<Rightarrow> bool \<Rightarrow> bool \<Rightarrow> maybe_applied option \<Rightarrow> manager_state \<Rightarrow> manager_state \<times> bool" where
  "deleted ident was_refused listed marked dropped s =
     (let no_file = (case dropped of Some r \<Rightarrow> \<not> ma_file_possible r | None \<Rightarrow> False);
          left = (\<not> no_file \<and> (was_refused \<or> (marked \<and> \<not> listed)));
          removed = choice_removed ident (ms_choices s);
          (c, st) = (if left then (file_left ident removed, StOffFileLeft)
                     else if no_file \<or> listed then (file_gone ident removed, StOff)
                     else (removed, StOff))
      in (set_status ident st (forget_failure ident (keep c s)), no_file))"

definition no_file_marks :: "manager_state \<Rightarrow> rstr fset \<Rightarrow> rstr list" where
  "no_file_marks s files_left =
     filter (\<lambda>name. \<not> ma_file_possible (the (fmlookup (ms_maybe_applied s) name)) \<and> name |\<in>| files_left)
       (fm_keys (ms_maybe_applied s))"

definition fail :: "bool \<Rightarrow> rstr \<Rightarrow> entry_status \<Rightarrow> problem \<Rightarrow> nat \<Rightarrow> manager_state \<Rightarrow> manager_state" where
  "fail removal ident st p generation s =
     (let s = set_problem ident (pb_text p) (set_status ident st s);
          f = \<lparr> fl_generation = generation, fl_status = st, fl_problem = pb_text p \<rparr>
      in if \<not> pb_sticky p then s
         else if removal then s\<lparr> ms_removal_failures := fmupd ident f (ms_removal_failures s) \<rparr>
         else s\<lparr> ms_failures := fmupd ident f (ms_failures s) \<rparr>)"

fun action_id :: "curated_action \<Rightarrow> rstr" where
  "action_id (Install ident) = ident"
| "action_id (Upgrade ident) = ident"
| "action_id (Delete ident name) = ident"

text \<open>A failure laid over the status of its entry, as two functions do.\<close>

definition show_failure :: "rstr \<Rightarrow> failure \<Rightarrow> manager_state \<Rightarrow> manager_state" where
  "show_failure ident f s = set_problem ident (fl_problem f) (set_status ident (fl_status f) s)"

fun keep_unfailed :: "curated_action list \<Rightarrow> manager_state \<Rightarrow> manager_state \<times> curated_action list" where
  "keep_unfailed [] s = (s, [])"
| "keep_unfailed (a # as) s =
     (case fmlookup (ms_failures s) (action_id a) of
        Some f \<Rightarrow> keep_unfailed as (show_failure (action_id a) f s)
      | None \<Rightarrow> (let (s, kept) = keep_unfailed as s in (s, a # kept)))"

definition without_failed :: "curated_action list \<Rightarrow> nat \<Rightarrow> manager_state \<Rightarrow> manager_state \<times> curated_action list" where
  "without_failed actions generation s =
     keep_unfailed actions
       (s\<lparr> ms_failures := fm_retain (\<lambda>ident f. ident \<in> action_id ` set actions \<and> fl_generation f = generation) (ms_failures s) \<rparr>)"

definition still_edited :: "curated_env \<Rightarrow> rstr \<Rightarrow> daemon_rules \<Rightarrow> bool" where
  "still_edited v ident daemon =
     (case entry_of v ident of
        None \<Rightarrow> False
      | Some e \<Rightarrow>
          entry_rule_name e |\<in>| dr_left_out daemon
          \<or> (case fmlookup (dr_rules daemon) (entry_rule_name e) of
               Some r \<Rightarrow> \<not> is_unedited (cv_lib v) (Some e) None r \<and> \<not> is_legacy (cv_lib v) e r
             | None \<Rightarrow> False))"

definition show_removal_failures :: "curated_env \<Rightarrow> daemon_rules \<Rightarrow> nat \<Rightarrow> manager_state \<Rightarrow> manager_state" where
  "show_removal_failures v daemon generation s =
     (let kept = fm_retain (\<lambda>ident f. fl_generation f = generation \<and> still_edited v ident daemon) (ms_removal_failures s)
      in fold (\<lambda>ident. show_failure ident (the (fmlookup kept ident))) (fm_keys kept) (s\<lparr> ms_removal_failures := kept \<rparr>))"

section \<open>Accounts (manager_resolver.rs)\<close>

definition SYS_UID_MAX :: nat where "SYS_UID_MAX = 999"

definition DNS_ACCOUNT_REASON :: rstr where
  "DNS_ACCOUNT_REASON = lit ''Snitchwatch couldn't look up the system resolver's account (systemd-resolve) on this computer, so it doesn't install or update this rule. A copy already in the firewall is left as it is.''"

definition ACCOUNT_REASON :: rstr where
  "ACCOUNT_REASON = lit ''Snitchwatch couldn't look up the account this service runs as on this computer, so it doesn't install or update this rule. A copy already in the firewall is left as it is.''"

definition system_uid :: "nat option \<Rightarrow> nat option" where
  "system_uid u = (case u of Some uid \<Rightarrow> if 1 \<le> uid \<and> uid \<le> SYS_UID_MAX then Some uid else None | None \<Rightarrow> None)"

definition account_uid :: "curated_entry \<Rightarrow> found \<Rightarrow> nat option" where
  "account_uid e f =
     system_uid (Option.bind (entry_account e) (\<lambda>name. case fmlookup f name of Some u \<Rightarrow> u | None \<Rightarrow> None))"

definition withheld :: "curated_env \<Rightarrow> found \<Rightarrow> (rstr, rstr) fmap" where
  "withheld v f =
     fm_collect (map (\<lambda>e. (ce_id e, if ce_any_address e then DNS_ACCOUNT_REASON else ACCOUNT_REASON))
       (filter (\<lambda>e. entry_account e \<noteq> None \<and> account_uid e f = None) (cv_entries v)))"

definition undecided :: "rstr \<Rightarrow> manager_state \<Rightarrow> bool" where
  "undecided ident s \<longleftrightarrow> fmlookup (ms_statuses s) ident \<in> {Some StInFirewall, Some StInFirewallButOff}"

definition withhold_entry :: "(rstr, rstr) fmap \<Rightarrow> rstr \<Rightarrow> manager_state \<Rightarrow> manager_state" where
  "withhold_entry w ident s =
     (let s = (if undecided ident s then s else set_status ident StUnavailable s);
          s = set_problem ident (the (fmlookup w ident)) s
      in s\<lparr> ms_reenables := fmdrop ident (ms_reenables s) \<rparr>)"

definition withhold ::
  "curated_action list \<Rightarrow> (rstr, rstr) fmap \<Rightarrow> found \<Rightarrow> manager_state \<Rightarrow> manager_state \<times> curated_action list" where
  "withhold actions w f s =
     ((fold (withhold_entry w) (fm_keys w) s)\<lparr> ms_withheld := fmdom w, ms_found := f \<rparr>,
      filter (\<lambda>a. \<not> (case a of Install i \<Rightarrow> i |\<in>| fmdom w | Upgrade i \<Rightarrow> i |\<in>| fmdom w | Delete _ _ \<Rightarrow> False)) actions)"

text \<open>
  The lookup: \<open>uid_of\<close> and \<open>name_of\<close> are the host's account database. A result is taken unless
  the lookups were replaced meanwhile; one that changed bumps the epoch.
\<close>

record accounts =
  ac_lookup :: bool
  ac_found :: found
  ac_epoch :: nat
  ac_used :: nat
  ac_in_flight :: bool
  ac_serial :: nat

definition no_accounts :: accounts where
  "no_accounts = \<lparr> ac_lookup = False, ac_found = fmempty, ac_epoch = 0, ac_used = 0, ac_in_flight = False, ac_serial = 0 \<rparr>"

definition account_names :: "curated_env \<Rightarrow> rstr list" where
  "account_names v = rev (fold List.insert (List.map_filter entry_account (cv_entries v)) [])"

definition set_account_lookups :: "accounts \<Rightarrow> accounts" where
  "set_account_lookups a =
     a\<lparr> ac_lookup := True, ac_found := fmempty, ac_in_flight := False, ac_serial := ac_serial a + 1, ac_epoch := ac_epoch a + 1 \<rparr>"

definition lookup_start :: "accounts \<Rightarrow> accounts \<times> nat option" where
  "lookup_start a = (if ac_lookup a \<and> \<not> ac_in_flight a then (a\<lparr> ac_in_flight := True \<rparr>, Some (ac_serial a)) else (a, None))"

definition looked_up :: "curated_env \<Rightarrow> (rstr \<Rightarrow> nat option) \<Rightarrow> (nat \<Rightarrow> rstr option) \<Rightarrow> found" where
  "looked_up v uid_of name_of =
     fm_collect (map (\<lambda>name. (name,
         case system_uid (uid_of name) of Some uid \<Rightarrow> if name_of uid = Some name then Some uid else None | None \<Rightarrow> None))
       (account_names v))"

definition lookup_lands :: "nat \<Rightarrow> found option \<Rightarrow> accounts \<Rightarrow> accounts" where
  "lookup_lands serial answer a =
     (let a = (case answer of
                 Some f \<Rightarrow> if ac_serial a = serial \<and> ac_found a \<noteq> f then a\<lparr> ac_found := f, ac_epoch := ac_epoch a + 1 \<rparr> else a
               | None \<Rightarrow> a)
      in if ac_serial a = serial then a\<lparr> ac_in_flight := False \<rparr> else a)"

definition accounts_read :: "accounts \<Rightarrow> accounts \<times> found" where
  "accounts_read a = (a\<lparr> ac_used := ac_epoch a \<rparr>, ac_found a)"

section \<open>Moved accounts (manager_moved.rs)\<close>

definition DNS_MOVED_REASON :: rstr where
  "DNS_MOVED_REASON = lit ''The system resolver's account (systemd-resolve) now has a different user ID than the copy of this rule in the firewall names, so that copy no longer matches it. Confirm the DNS rule again (Review DNS choice) and Snitchwatch updates it.''"

definition MOVED_UNDECIDED_REASON :: rstr where
  "MOVED_UNDECIDED_REASON = lit ''This service's account now has a different user ID than the copy of this rule in the firewall names, so the copy may not match the service. It is left as it is until you turn this on or off.''"

definition REPINNED_NOTE :: rstr where
  "REPINNED_NOTE = lit ''This service's account has a new user ID on this computer, so Snitchwatch updated the rule to match it.''"

definition moved_entry :: "curated_env \<Rightarrow> found \<Rightarrow> (rstr, rule) fmap \<Rightarrow> curated_entry \<Rightarrow> bool" where
  "moved_entry v f rules e =
     (case account_uid e f of
        None \<Rightarrow> False
      | Some uid \<Rightarrow>
          (case fmlookup rules (entry_rule_name e) of
             None \<Rightarrow> False
           | Some r \<Rightarrow>
               is_unedited (cv_lib v) (Some e) None r
               \<and> (case sender_uid r of Some pinned \<Rightarrow> pinned \<noteq> uid | None \<Rightarrow> False)))"

definition moved :: "curated_env \<Rightarrow> found \<Rightarrow> (rstr, rule) fmap \<Rightarrow> rstr fset" where
  "moved v f rules = fset_of_list (map ce_id (filter (moved_entry v f rules) (cv_entries v)))"

definition handle_moved_entry ::
  "curated_env \<Rightarrow> (rstr, rule) fmap \<Rightarrow> rstr \<Rightarrow> manager_state \<times> curated_action list \<Rightarrow> manager_state \<times> curated_action list" where
  "handle_moved_entry v rules ident = (\<lambda>(s, acts).
     let s = s\<lparr> ms_reenables := fmdrop ident (ms_reenables s) \<rparr>
     in if undecided ident s then (set_problem ident MOVED_UNDECIDED_REASON s, acts)
        else if ident |\<notin>| ch_enabled (ms_choices s) then (s, acts)
        else case entry_of v ident of
               None \<Rightarrow> (s, acts)
             | Some e \<Rightarrow>
                 let active = (case fmlookup rules (entry_rule_name e) of Some r \<Rightarrow> r_enabled r | None \<Rightarrow> False)
                 in if broad e \<and> active \<and> \<not> has_broad_authority v ident (ms_choices s)
                    then (set_problem ident DNS_MOVED_REASON s, acts)
                    else (s, acts @ [Upgrade ident]))"

definition handle_moved ::
  "curated_env \<Rightarrow> rstr fset \<Rightarrow> (rstr, rule) fmap \<Rightarrow> manager_state \<Rightarrow> manager_state \<times> curated_action list" where
  "handle_moved v m rules s =
     fold (handle_moved_entry v rules) (sorted_list_of_fset m) (s\<lparr> ms_moved := m \<rparr>, [])"

section \<open>The live list (manager_checks.rs)\<close>

abbreviation cache_of :: "daemon_commands \<Rightarrow> rules_cache" where
  "cache_of d \<equiv> rs_cache (dc_rules d)"

definition still_unedited :: "curated_env \<Rightarrow> rstr \<Rightarrow> rstr \<Rightarrow> canonical_rule option \<Rightarrow> daemon_commands \<Rightarrow> bool" where
  "still_unedited v ident name recorded d =
     (case Option.bind (rc_rules (cache_of d)) (\<lambda>rules. fmlookup rules name) of
        None \<Rightarrow> False
      | Some r \<Rightarrow> is_unedited (cv_lib v) (entry_of v ident) recorded r
          \<or> (case entry_of v ident of Some e \<Rightarrow> is_legacy (cv_lib v) e r | None \<Rightarrow> False))"

definition still_missing :: "rstr \<Rightarrow> daemon_commands \<Rightarrow> bool" where
  "still_missing name d =
     ((case rc_rules (cache_of d) of Some rules \<Rightarrow> name |\<notin>| fmdom rules | None \<Rightarrow> False)
      \<and> name |\<notin>| fmdom (rc_left_out (cache_of d)))"

definition still_wanted :: "curated_env \<Rightarrow> daemon_commands \<Rightarrow> manager_state \<Rightarrow> curated_action \<Rightarrow> bool" where
  "still_wanted v d s a =
     (if ms_inert s \<noteq> None then False
      else case a of
             Install ident \<Rightarrow>
               ident |\<in>| ch_enabled (ms_choices s) \<and> ident |\<notin>| ch_deleted (ms_choices s)
               \<and> still_missing (curated_rule_name ident) d
           | Upgrade ident \<Rightarrow> ident |\<in>| ch_enabled (ms_choices s)
           | Delete ident name \<Rightarrow>
               (ident |\<notin>| ch_enabled (ms_choices s) \<or> \<not> list_ex (\<lambda>e. ce_id e = ident) (cv_entries v))
               \<and> (still_unedited v ident name (fmlookup (ch_installed (ms_choices s)) ident) d
                  \<or> (name |\<in>| fmdom (ms_maybe_applied s) \<and> still_missing name d)))"

end
