(* ===== verification/Curated_Manager.thy ===== *)
theory Curated_Manager
  imports Curated_Manager_State
begin

text \<open>
  \<open>curated/manager.rs\<close>, \<open>manager_intent.rs\<close>, \<open>manager_upgrade.rs\<close>, \<open>manager_orphans.rs\<close>, the
  saving in \<open>manager_state.rs\<close> and \<open>curated/wire.rs\<close>: the requests a GUI makes about the shipped
  defaults and the passes of the worker that carries them out.

  Each method holds the state lock between two \<open>await\<close>s, so an \<open>async\<close> method is a \<open>_send\<close>
  part, up to the command it queues, and a \<open>_finish\<close> part, from the answer on. A \<open>_send\<close> part that
  returns early is \<open>Skipped\<close>. The broadcast channel and the private replies are lists of
  what was sent; \<open>wake\<close> only decides when the worker looks, so it is left out.
\<close>

section \<open>State\<close>

record default_summary =
  ds_id :: rstr
  ds_group :: rstr
  ds_program :: rstr
  ds_allows :: rstr
  ds_why :: rstr
  ds_on :: bool
  ds_broad :: bool
  ds_status :: entry_status
  ds_problem :: "rstr option"

record orphan_summary =
  or_id :: rstr
  or_enabled :: bool
  or_file_left :: bool
  or_problem :: "rstr option"

record curated_message =
  cm_entries :: "default_summary list"
  cm_groups :: "curated_group list"
  cm_orphans :: "orphan_summary list"
  cm_storage :: storage_status
  cm_unavailable :: "rstr option"

datatype private_message =
  RequestResult "rstr option" "request_result list"
| BroadOptInPrepared rstr rstr intent_purpose rstr

record curated_defaults =
  cd_commands :: daemon_commands
  cd_state :: manager_state
  cd_last :: "curated_message option"
  cd_written :: nat
  cd_accounts :: accounts
  cd_file :: "saved_file option"
  cd_contexts :: "nat \<Rightarrow> intent_context"
  cd_broadcast :: "curated_message list"
  cd_private :: "(nat \<times> private_message) list"

abbreviation with_state :: "manager_state \<Rightarrow> curated_defaults \<Rightarrow> curated_defaults" where
  "with_state s m \<equiv> m\<lparr> cd_state := s \<rparr>"

definition UNREADABLE_REASON :: rstr where
  "UNREADABLE_REASON = lit ''Snitchwatch can't read its saved choices for recommended rules (curated-defaults.json in its state folder), so it adds and removes none: rules already in the firewall were left in place. Repair the file, then restart Snitchwatch's background service to restore your choices. Without the file, Snitchwatch starts the next time with no choices: recommended rules already in the firewall stay as they are until you turn each one on or off.''"

definition SAVE_FAILED_REASON :: rstr where
  "SAVE_FAILED_REASON = lit ''Snitchwatch couldn't save its choices for recommended rules, so it adds and removes none until its background service restarts: rules already in the firewall were left in place.''"

definition INSTALL_REFUSED_REASON :: rstr where
  "INSTALL_REFUSED_REASON = lit ''The firewall service refused the rule, so Snitchwatch turned it off again. Turn it on to try again.''"

definition CONSENT_REQUIRED :: rstr where
  "CONSENT_REQUIRED = lit ''This DNS rule allows the system resolver to send DNS to any address. Confirm it on the Recommended page before turning it on.''"

definition ORPHAN_FILE_LEFT_REASON :: rstr where
  "ORPHAN_FILE_LEFT_REASON = lit ''The firewall service stopped using this rule but couldn't remove its saved file, so it may come back when the service restarts.''"

definition new_defaults :: "daemon_commands \<Rightarrow> saved_file option \<Rightarrow> curated_defaults" where
  "new_defaults d file =
     \<lparr> cd_commands = d, cd_state = new_manager_state, cd_last = None, cd_written = 0, cd_accounts = no_accounts,
       cd_file = file, cd_contexts = (\<lambda>_. websocket_context), cd_broadcast = [], cd_private = [] \<rparr>"

definition store_error_text :: "store_error \<Rightarrow> rstr" where
  "store_error_text e =
     (case e of
        UnsupportedVersion n \<Rightarrow> lit ''unsupported version '' @ decimal n
      | TooManyChoices \<Rightarrow> lit ''the file lists too many entries''
      | InvalidChoices \<Rightarrow> lit ''the choices hold an invalid id or copy''
      | ChoicesTooLarge \<Rightarrow> lit ''the choices are too large to save'')"

text \<open>\<open>unreadable\<close> is the error of reading or parsing the file, when it has one.\<close>

definition attach_file :: "curated_env \<Rightarrow> rstr option \<Rightarrow> curated_defaults \<Rightarrow> curated_defaults" where
  "attach_file v unreadable m =
     (let s = cd_state m;
          unusable = (\<lambda>text. s\<lparr> ms_storage := \<lparr> st_persistent = False, st_reason = Some text, st_unreadable = True \<rparr>,
                                 ms_inert := Some UNREADABLE_REASON \<rparr>)
      in with_state
           (case unreadable of
              Some text \<Rightarrow> unusable text
            | None \<Rightarrow>
                (case store_load v (cd_file m) of
                   Inl e \<Rightarrow> unusable (store_error_text e)
                 | Inr loaded \<Rightarrow>
                     s\<lparr> ms_choices := (case loaded of Some c \<Rightarrow> c | None \<Rightarrow> no_choices), ms_file := True,
                        ms_storage := \<lparr> st_persistent = True, st_reason = None, st_unreadable = False \<rparr> \<rparr>)) m)"

definition set_storage :: "storage_status \<Rightarrow> curated_defaults \<Rightarrow> curated_defaults" where
  "set_storage status m = with_state ((cd_state m)\<lparr> ms_storage := status \<rparr>) m"

definition set_unavailable :: "rstr \<Rightarrow> curated_defaults \<Rightarrow> curated_defaults" where
  "set_unavailable reason m = with_state ((cd_state m)\<lparr> ms_inert := Some reason \<rparr>) m"

definition PER_USER_REASON :: rstr where
  "PER_USER_REASON = lit ''Recommended rules need the system-wide Snitchwatch service; this per-user service can't be sure it is talking to the real firewall service.''"

definition NO_STORAGE_REASON :: rstr where
  "NO_STORAGE_REASON = lit ''Recommended rules need saved settings, so that a rule you delete stays deleted, and Snitchwatch has no usable state folder.''"

text \<open>\<open>configure\<close> of \<open>curated_storage.rs\<close>: the start of a bridge, with what \<open>Storage\<close> says of itself.\<close>

definition configure_curated ::
  "curated_env \<Rightarrow> storage_status \<Rightarrow> bool \<Rightarrow> bool \<Rightarrow> rstr option \<Rightarrow> curated_defaults \<Rightarrow> curated_defaults" where
  "configure_curated v status has_directory system_bridge unreadable m =
     (let m = set_storage status m
      in if has_directory \<and> system_bridge then attach_file v unreadable m
         else if has_directory then set_unavailable PER_USER_REASON m
         else set_unavailable NO_STORAGE_REASON m)"

abbreviation is_inert :: "curated_defaults \<Rightarrow> bool" where
  "is_inert m \<equiv> ms_inert (cd_state m) \<noteq> None"

abbreviation generation_of :: "curated_defaults \<Rightarrow> nat" where
  "generation_of m \<equiv> dc_ready (cd_commands m)"

section \<open>What GUIs are told\<close>

fun protocol_label :: "curated_protocol \<Rightarrow> rstr" where
  "protocol_label ProtoTcp = lit ''TCP''"
| "protocol_label ProtoUdp = lit ''UDP''"
| "protocol_label ProtoTcpAndUdp = lit ''TCP and UDP''"

definition entry_allows :: "curated_entry \<Rightarrow> rstr" where
  "entry_allows e =
     (let to = (case ce_host e of
                  Some host \<Rightarrow> host
                | None \<Rightarrow> if ce_any_address e then lit ''any address''
                          else if ce_multicast_dns e then lit ''the multicast DNS group (224.0.0.251 and ff02::fb)''
                          else lit ''this computer only (127.0.0.1 and ::1)'');
          sender = (case ce_sender e of
                      Some (UserId uid) \<Rightarrow> if uid = 0 then lit '', but only while it runs as root (user ID 0)''
                                           else lit '', but only while it runs as user ID '' @ decimal uid
                    | Some (Account name) \<Rightarrow> lit '', but only while it runs as the '' @ name @ lit '' account''
                    | None \<Rightarrow> [])
      in ce_path e @ lit '' may connect to '' @ to @ lit '' on '' @ protocol_label (ce_protocol e) @ lit '' port ''
           @ decimal (ce_port e) @ lit '', over IPv4 and IPv6'' @ sender @ lit ''.'')"

definition summary :: "curated_entry \<Rightarrow> manager_state \<Rightarrow> bool \<Rightarrow> default_summary" where
  "summary e s rules_known =
     (let ident = ce_id e;
          status = (if rules_known then (case fmlookup (ms_statuses s) ident of Some st \<Rightarrow> st | None \<Rightarrow> StOff) else StWaiting);
          awaiting = (status = StAwaitingConsent);
          kept = (case fmlookup (ms_consent_problems s) ident of
                    Some p \<Rightarrow> Some p
                  | None \<Rightarrow>
                      (case fmlookup (ms_problems s) ident of
                         Some p \<Rightarrow> Some p
                       | None \<Rightarrow>
                           (case fmlookup (ms_install_refusals s) ident of
                              Some (p, _) \<Rightarrow> Some p
                            | None \<Rightarrow> if ident |\<in>| fmdom (ms_repinned s) then Some REPINNED_NOTE else None)))
      in \<lparr> ds_id = ident, ds_group = ce_group e, ds_program = ce_path e, ds_allows = entry_allows e, ds_why = ce_why e,
           ds_on = (ident |\<in>| ch_enabled (ms_choices s) \<or> status = StInFirewall),
           ds_broad = broad e,
           ds_status = (if awaiting then StNotInstalled else status),
           ds_problem = (if awaiting
             then Some (lit ''awaitingConsent: Confirm this broad DNS rule on the Recommended page before installation.'')
             else kept) \<rparr>)"

definition orphan_summaries :: "curated_env \<Rightarrow> curated_defaults \<Rightarrow> orphan_summary list" where
  "orphan_summaries v m =
     (let s = cd_state m; cache = cache_of (cd_commands m);
          failure = (\<lambda>ident. case fmlookup (ms_orphan_failures s) ident of
                       Some f \<Rightarrow> if of_generation f = generation_of m then Some f else None | None \<Rightarrow> None)
      in if is_inert m then []
         else case rc_rules cache of
                None \<Rightarrow> []
              | Some rules \<Rightarrow>
                  let listed = map (\<lambda>(ident, enabled).
                        \<lparr> or_id = ident, or_enabled = enabled, or_file_left = False,
                          or_problem = (case failure ident of Some f \<Rightarrow> if of_file_left f then None else Some (of_problem f) | None \<Rightarrow> None) \<rparr>)
                        (orphans v rules (fmdom (rc_left_out cache)) (ms_choices s));
                      left = List.map_filter (\<lambda>ident.
                        case failure ident of
                          Some f \<Rightarrow> if of_file_left f \<and> \<not> list_ex (\<lambda>x. or_id x = ident) listed
                                    then Some \<lparr> or_id = ident, or_enabled = False, or_file_left = True, or_problem = Some (of_problem f) \<rparr>
                                    else None
                        | None \<Rightarrow> None) (fm_keys (ms_orphan_failures s))
                  in sort_key or_id (listed @ left))"

definition message :: "curated_env \<Rightarrow> curated_defaults \<Rightarrow> curated_message" where
  "message v m =
     (let s = cd_state m; rules_known = (rc_rules (cache_of (cd_commands m)) \<noteq> None)
      in \<lparr> cm_entries = map (\<lambda>e. summary e s rules_known) (cv_entries v), cm_groups = cv_groups v,
           cm_orphans = orphan_summaries v m, cm_storage = ms_storage s, cm_unavailable = ms_inert s \<rparr>)"

definition announce :: "curated_env \<Rightarrow> curated_defaults \<Rightarrow> curated_defaults" where
  "announce v m = m\<lparr> cd_last := Some (message v m), cd_broadcast := cd_broadcast m @ [message v m] \<rparr>"

definition announce_changed :: "curated_env \<Rightarrow> curated_defaults \<Rightarrow> curated_defaults" where
  "announce_changed v m = (if cd_last m \<noteq> Some (message v m) then announce v m else m)"

section \<open>Saving\<close>

record save_job =
  sj_choices :: choices
  sj_version :: nat

text \<open>How writing the file ends: an error before the new file has its name, or after.\<close>

datatype file_write = Wrote | WriteFailed rstr | SyncFailed rstr

definition save_job_of :: "manager_state \<Rightarrow> save_job option" where
  "save_job_of s =
     (if ms_file s \<and> ms_inert s = None \<and> ms_version s \<noteq> ms_saved s
      then Some \<lparr> sj_choices = ms_choices s, sj_version = ms_version s \<rparr> else None)"

definition save_in_order ::
  "curated_env \<Rightarrow> (saved_file \<Rightarrow> nat) \<Rightarrow> file_write \<Rightarrow> save_job \<Rightarrow> curated_defaults \<Rightarrow> curated_defaults \<times> (rstr + nat)" where
  "save_in_order v encoded_len io job m =
     (if sj_version job \<le> cd_written m then (m, Inr (cd_written m))
      else case store_save v encoded_len (sj_choices job) of
             Inl e \<Rightarrow> (m, Inl (store_error_text e))
           | Inr f \<Rightarrow>
               (case io of
                  WriteFailed text \<Rightarrow> (m, Inl text)
                | SyncFailed text \<Rightarrow> (m\<lparr> cd_file := Some f \<rparr>, Inl text)
                | Wrote \<Rightarrow> (m\<lparr> cd_file := Some f, cd_written := sj_version job \<rparr>, Inr (sj_version job))))"

definition saved :: "rstr + nat \<Rightarrow> manager_state \<Rightarrow> manager_state" where
  "saved outcome s =
     (case outcome of
        Inr version \<Rightarrow> s\<lparr> ms_saved := max (ms_saved s) version \<rparr>
      | Inl text \<Rightarrow>
          s\<lparr> ms_file := False, ms_storage := \<lparr> st_persistent = False, st_reason = Some text, st_unreadable = False \<rparr>,
             ms_inert := Some SAVE_FAILED_REASON \<rparr>)"

definition save_now :: "curated_env \<Rightarrow> (saved_file \<Rightarrow> nat) \<Rightarrow> file_write \<Rightarrow> curated_defaults \<Rightarrow> curated_defaults" where
  "save_now v encoded_len io m =
     (case save_job_of (cd_state m) of
        None \<Rightarrow> m
      | Some job \<Rightarrow> (let (m, outcome) = save_in_order v encoded_len io job m in with_state (saved outcome (cd_state m)) m))"

section \<open>Requests (manager_intent.rs)\<close>

definition make_result :: "rstr \<Rightarrow> request_outcome \<Rightarrow> rstr \<Rightarrow> request_result" where
  "make_result ident oc reason =
     \<lparr> rr_id = ident, rr_outcome = oc, rr_reason = reason, rr_choice_accepted = None, rr_persisted = None \<rparr>"

fun error_outcome :: "intent_error \<Rightarrow> request_outcome" where
  "error_outcome InvalidIntent = OutcomeInvalid"
| "error_outcome StaleIntent = OutcomeStale"
| "error_outcome IntentUnavailable = OutcomeUnavailable"

definition send_private :: "nat option \<Rightarrow> rstr option \<Rightarrow> request_result list \<Rightarrow> curated_defaults \<Rightarrow> curated_defaults" where
  "send_private reply request_id results m =
     (case reply of Some k \<Rightarrow> m\<lparr> cd_private := cd_private m @ [(k, RequestResult request_id results)] \<rparr> | None \<Rightarrow> m)"

definition revoke_locked :: "curated_env \<Rightarrow> rstr \<Rightarrow> manager_state \<Rightarrow> manager_state" where
  "revoke_locked v ident s =
     (if list_ex (\<lambda>e. ce_id e = ident \<and> broad e) (cv_entries v)
      then keep (revoke_broad ident (ms_choices s))
             (s\<lparr> ms_broad_revision := ms_broad_revision s + 1, ms_reenables := fmdrop ident (ms_reenables s),
                 ms_consent_problems := fmdrop ident (ms_consent_problems s) \<rparr>)
      else s)"

definition ask_removal :: "curated_env \<Rightarrow> rstr \<Rightarrow> curated_defaults \<Rightarrow> curated_defaults" where
  "ask_removal v ident m =
     (if \<not> is_inert m \<and> list_ex (\<lambda>e. ce_id e = ident) (cv_entries v)
      then (let s = revoke_locked v ident (cd_state m)
            in with_state (s\<lparr> ms_install_refusals := fmdrop ident (ms_install_refusals s),
                 ms_removals := finsert ident (ms_removals s),
                 ms_removal_failures := fmdrop ident (ms_removal_failures s), ms_requests := ms_requests s + 1 \<rparr>) m)
      else m)"

definition still_orphan :: "curated_env \<Rightarrow> rstr \<Rightarrow> curated_defaults \<Rightarrow> bool" where
  "still_orphan v name m =
     (case rc_rules (cache_of (cd_commands m)) of
        Some rules \<Rightarrow> is_orphan v rules (fmdom (rc_left_out (cache_of (cd_commands m)))) (ms_choices (cd_state m)) name
      | None \<Rightarrow> False)"

definition ask_orphan_removal :: "curated_env \<Rightarrow> rstr \<Rightarrow> curated_defaults \<Rightarrow> curated_defaults" where
  "ask_orphan_removal v ident m =
     (if is_inert m \<or> \<not> valid_id ident \<or> \<not> still_orphan v (curated_rule_name ident) m then m
      else let s = cd_state m;
               left = (case fmlookup (ms_orphan_failures s) ident of Some f \<Rightarrow> of_file_left f | None \<Rightarrow> False);
               s = (if left then s else s\<lparr> ms_orphan_failures := fmdrop ident (ms_orphan_failures s) \<rparr>)
           in with_state (s\<lparr> ms_orphan_removals := finsert ident (ms_orphan_removals s), ms_requests := ms_requests s + 1 \<rparr>) m)"

definition ACCEPTED_REASON :: rstr where
  "ACCEPTED_REASON = lit ''Choice accepted; installation is reported separately.''"

definition accepted_result :: "rstr \<Rightarrow> request_result" where
  "accepted_result ident = (make_result ident ChoiceAccepted ACCEPTED_REASON)\<lparr> rr_choice_accepted := Some True \<rparr>"

text \<open>One id of a request, and the loop over them.\<close>

definition choose_one :: "curated_env \<Rightarrow> bool \<Rightarrow> rstr \<Rightarrow> manager_state \<Rightarrow> manager_state \<times> request_result" where
  "choose_one v on ident s =
     (case entry_of v ident of
        None \<Rightarrow> (s, make_result ident UnknownId (lit ''Unknown recommended rule.''))
      | Some e \<Rightarrow>
          if on \<and> broad e
          then (s\<lparr> ms_consent_problems := fmupd ident CONSENT_REQUIRED (ms_consent_problems s) \<rparr>,
                make_result ident RefusedConsent CONSENT_REQUIRED)
          else if ms_inert s \<noteq> None
          then (s, make_result ident OutcomeUnavailable (lit ''Recommended rules are unavailable.''))
          else let s = (if \<not> on then revoke_locked v ident s else s);
                   c = (if on then choice_enable ident (ms_choices s) else choice_disable ident (ms_choices s));
                   s = keep c s;
                   s = forget_failure ident (s\<lparr> ms_requests := ms_requests s + 1 \<rparr>)
               in (s\<lparr> ms_consent_problems := fmdrop ident (ms_consent_problems s) \<rparr>, accepted_result ident))"

fun choose_each :: "curated_env \<Rightarrow> bool \<Rightarrow> rstr list \<Rightarrow> rstr list \<Rightarrow> manager_state \<Rightarrow> manager_state \<times> request_result list" where
  "choose_each v on seen [] s = (s, [])"
| "choose_each v on seen (ident # ids) s =
     (if ident \<in> set seen then choose_each v on seen ids s
      else let (s, r) = choose_one v on ident s;
               (s, rs) = choose_each v on (ident # seen) ids s
           in (s, r # rs))"

definition choose_legacy ::
  "curated_env \<Rightarrow> rstr list \<Rightarrow> bool \<Rightarrow> rstr option \<Rightarrow> nat option \<Rightarrow> curated_defaults \<Rightarrow> curated_defaults" where
  "choose_legacy v ids on request_id reply m =
     (if reply \<noteq> None \<and> 256 \<le> length (ms_request_results (cd_state m))
      then send_private reply request_id [make_result [] OutcomeUnavailable (lit ''Request queue is full.'')] m
      else if 256 < length ids \<or> list_ex (\<lambda>ident. 64 < str_len ident) ids
      then send_private reply request_id [make_result [] OutcomeInvalid (lit ''Too many entries.'')] m
      else let (s, results) = choose_each v on [] ids (cd_state m)
           in announce_changed v
                (case reply of
                   None \<Rightarrow> with_state s m
                 | Some k \<Rightarrow>
                     if length (ms_request_results s) < 256
                     then with_state (s\<lparr> ms_request_results := ms_request_results s @
                            [\<lparr> pr_reply = k, pr_request_id = Option.bind request_id (\<lambda>r. if valid_request_id r then Some r else None),
                               pr_results = results, pr_version = ms_version s, pr_authority_revision = None, pr_grant = None \<rparr>],
                            ms_requests := ms_requests s + 1 \<rparr>) m
                     else send_private (Some k) request_id [make_result [] OutcomeUnavailable (lit ''Request queue is full.'')] (with_state s m)))"

definition broad_entry :: "curated_env \<Rightarrow> rstr \<Rightarrow> curated_entry option" where
  "broad_entry v ident = find (\<lambda>e. ce_id e = ident \<and> broad e) (cv_entries v)"

definition cannot_consent :: "rstr \<Rightarrow> manager_state \<Rightarrow> bool" where
  "cannot_consent ident s \<longleftrightarrow>
     ms_inert s \<noteq> None \<or> \<not> ms_file s \<or> \<not> st_persistent (ms_storage s) \<or> ident |\<in>| ms_withheld s"

definition prepare_ticket ::
  "curated_env \<Rightarrow> rstr option \<Rightarrow> instant \<Rightarrow> rstr \<Rightarrow> rstr \<Rightarrow> intent_purpose \<Rightarrow> manager_state \<Rightarrow> intent_context
     \<Rightarrow> intent_context \<times> (intent_error + rstr)" where
  "prepare_ticket v ticket now request_id ident purpose s x =
     (case intent_admit x of
        Inl e \<Rightarrow> (x, Inl e)
      | Inr _ \<Rightarrow>
          let x = intent_invalidate x
          in if \<not> valid_request_id request_id \<or> ident \<noteq> DNS_ENTRY_ID then (x, Inl InvalidIntent)
             else if cannot_consent ident s then (x, Inl IntentUnavailable)
             else case broad_entry v ident of
                    None \<Rightarrow> (x, Inl InvalidIntent)
                  | Some e \<Rightarrow> intent_prepare ticket now request_id ident purpose (broad_policy_fingerprint v e) (ms_broad_revision s) x)"

text \<open>\<open>context\<close> and \<open>reply\<close> are the connection the request came on, when it carries them.\<close>

definition prepare_intent ::
  "curated_env \<Rightarrow> rstr option \<Rightarrow> instant \<Rightarrow> rstr \<Rightarrow> rstr \<Rightarrow> intent_purpose \<Rightarrow> nat option \<Rightarrow> nat option \<Rightarrow> curated_defaults \<Rightarrow> curated_defaults" where
  "prepare_intent v ticket now request_id ident purpose ctx reply m =
     (let (m, prepared) =
        (case ctx of
           None \<Rightarrow> (m, Inl InvalidIntent)
         | Some k \<Rightarrow> (let (x, p) = prepare_ticket v ticket now request_id ident purpose (cd_state m) (cd_contexts m k)
                       in (m\<lparr> cd_contexts := (cd_contexts m)(k := x) \<rparr>, p)))
      in case prepared of
           Inr t \<Rightarrow>
             (case reply of
                Some k \<Rightarrow> m\<lparr> cd_private := cd_private m @ [(k, BroadOptInPrepared request_id ident purpose t)] \<rparr>
              | None \<Rightarrow> m)
         | Inl e \<Rightarrow> send_private reply (Some request_id) [make_result ident (error_outcome e) (lit ''The DNS intent could not be prepared.'')] m)"

definition cancel_intent :: "rstr \<Rightarrow> rstr \<Rightarrow> nat option \<Rightarrow> nat option \<Rightarrow> curated_defaults \<Rightarrow> curated_defaults" where
  "cancel_intent request_id ident ctx reply m =
     (let (m, oc) =
        (case ctx of
           None \<Rightarrow> (m, OutcomeInvalid)
         | Some k \<Rightarrow>
             (case intent_admit (cd_contexts m k) of
                Inl e \<Rightarrow> (m, error_outcome e)
              | Inr _ \<Rightarrow>
                  if valid_request_id request_id \<and> ident = DNS_ENTRY_ID
                  then (m\<lparr> cd_contexts := (cd_contexts m)(k := fst (intent_cancel request_id ident (cd_contexts m k))) \<rparr>, ChoiceAccepted)
                  else (m\<lparr> cd_contexts := (cd_contexts m)(k := intent_invalidate (cd_contexts m k)) \<rparr>, OutcomeInvalid)))
      in send_private reply (Some request_id) [make_result ident oc (lit ''Intent cancelled; no rule was enabled.'')] m)"

text \<open>What a consumed ticket does: whether the choice is taken, and whether the rule may be turned on by it.\<close>

definition intent_activation :: "intent_purpose \<Rightarrow> rule option \<Rightarrow> intent_error + bool" where
  "intent_activation purpose current =
     (case purpose of
        PurposeKeep \<Rightarrow> (case current of None \<Rightarrow> Inl StaleIntent | Some r \<Rightarrow> Inr (r_enabled r))
      | PurposeEnable \<Rightarrow> (case current of Some r \<Rightarrow> if \<not> r_enabled r then Inl InvalidIntent else Inr True | None \<Rightarrow> Inr True)
      | PurposeReenable \<Rightarrow> (case current of Some r \<Rightarrow> if r_enabled r then Inl StaleIntent else Inr True | None \<Rightarrow> Inl StaleIntent))"

definition take_consent ::
  "curated_env \<Rightarrow> curated_entry \<Rightarrow> rstr \<Rightarrow> intent_purpose \<Rightarrow> bool \<Rightarrow> rules_cache \<Rightarrow> manager_state \<Rightarrow> intent_error + manager_state" where
  "take_consent v e ident purpose replying cache s =
     (if cannot_consent ident s \<or> (replying \<and> 256 \<le> length (ms_request_results s)) then Inl IntentUnavailable
      else case rc_rules cache of
             None \<Rightarrow> Inl IntentUnavailable
           | Some rules \<Rightarrow>
               let name = entry_rule_name e; c = ms_choices s; current = fmlookup rules name
               in if name |\<in>| fmdom (rc_left_out cache) \<or> name |\<in>| rc_files_left cache \<or> ident |\<in>| ch_files_left c
                     \<or> (ident |\<in>| ch_deleted c \<and> \<not> (purpose = PurposeEnable \<and> ident |\<in>| ch_disabled c))
                  then Inl StaleIntent
                  else if (case current of Some r \<Rightarrow> \<not> is_unedited (cv_lib v) (Some e) None r | None \<Rightarrow> False) then Inl InvalidIntent
                  else (case intent_activation purpose current of
                          Inl x \<Rightarrow> Inl x
                        | Inr activation \<Rightarrow>
                            let c = grant_broad v ident activation (choice_enable ident c);
                                c = (case current of Some r \<Rightarrow> choice_installed v ident r c | None \<Rightarrow> c);
                                s = keep c s;
                                s = forget_failure ident (s\<lparr> ms_requests := ms_requests s + 1 \<rparr>);
                                s = s\<lparr> ms_consent_problems := fmdrop ident (ms_consent_problems s) \<rparr>
                            in Inr (if purpose = PurposeReenable
                                    then s\<lparr> ms_reenables := fmupd ident (ms_broad_revision s) (ms_reenables s) \<rparr> else s)))"

definition accept_ticket ::
  "curated_env \<Rightarrow> instant \<Rightarrow> rstr \<Rightarrow> rstr \<Rightarrow> rstr \<Rightarrow> rstr \<Rightarrow> intent_purpose \<Rightarrow> bool \<Rightarrow> bool \<Rightarrow> rules_cache \<Rightarrow> manager_state
     \<Rightarrow> intent_context \<Rightarrow> intent_context \<times> (intent_error + manager_state)" where
  "accept_ticket v now request_id ident ticket consent purpose keeping replying cache s x =
     (case intent_admit x of
        Inl e \<Rightarrow> (x, Inl e)
      | Inr _ \<Rightarrow>
          if \<not> valid_request_id request_id \<or> ident \<noteq> DNS_ENTRY_ID \<or> keeping \<noteq> (purpose = PurposeKeep)
          then (intent_invalidate x, Inl InvalidIntent)
          else case broad_entry v ident of
                 None \<Rightarrow> (x, Inl InvalidIntent)
               | Some e \<Rightarrow>
                   (case intent_consume now request_id ticket ident purpose (broad_policy_fingerprint v e) (ms_broad_revision s) consent x of
                      (x, Inl err) \<Rightarrow> (x, Inl err)
                    | (x, Inr _) \<Rightarrow> (x, take_consent v e ident purpose replying cache s)))"

definition accept_intent ::
  "curated_env \<Rightarrow> instant \<Rightarrow> rstr \<Rightarrow> rstr \<Rightarrow> rstr \<Rightarrow> rstr \<Rightarrow> intent_purpose \<Rightarrow> bool \<Rightarrow> nat option \<Rightarrow> nat option
     \<Rightarrow> curated_defaults \<Rightarrow> curated_defaults" where
  "accept_intent v now request_id ident ticket consent purpose keeping ctx reply m =
     (let (m, accepted) =
        (case ctx of
           None \<Rightarrow> (m, Inl InvalidIntent)
         | Some k \<Rightarrow>
             (let (x, a) = accept_ticket v now request_id ident ticket consent purpose keeping (reply \<noteq> None)
                             (cache_of (cd_commands m)) (cd_state m) (cd_contexts m k)
              in (m\<lparr> cd_contexts := (cd_contexts m)(k := x) \<rparr>, a)))
      in case accepted of
           Inl e \<Rightarrow> send_private reply (Some request_id)
             [make_result ident (error_outcome e) (lit ''The DNS intent was refused; the firewall was left unchanged.'')] m
         | Inr s \<Rightarrow>
             let s = (case reply of
                        None \<Rightarrow> s
                      | Some k \<Rightarrow>
                          s\<lparr> ms_request_results := ms_request_results s @
                            [\<lparr> pr_reply = k, pr_request_id = Some request_id, pr_results = [accepted_result ident], pr_version = ms_version s,
                               pr_authority_revision = Some (ms_broad_revision s),
                               pr_grant = fmlookup (ch_grants (ms_choices s)) ident \<rparr>] \<rparr>)
             in announce_changed v (with_state s m))"

text \<open>Turning a rule on or off on the Rules page; \<open>None\<close> is the panic of the send.\<close>

definition send_managed_toggle ::
  "curated_env \<Rightarrow> rstr \<Rightarrow> bool \<Rightarrow> curated_defaults \<Rightarrow> ((send_error + nat) \<times> curated_defaults) option" where
  "send_managed_toggle v name enabled m =
     (let s = cd_state m;
          send = (\<lambda>s. map_option (\<lambda>(r, d). (r, m\<lparr> cd_state := s, cd_commands := d \<rparr>))
                         (send_curated_toggle (cv_lib v) (cv_entries v) name enabled (cd_commands m)))
      in if ms_inert s \<noteq> None then Some (Inl ReservedName, m)
         else case entry_for_rule_name (cv_entries v) name of
                None \<Rightarrow> send s
              | Some e \<Rightarrow>
                  if enabled \<and> (ce_id e |\<in>| ms_moved s \<or> ce_id e |\<in>| ms_withheld s) then Some (Inl ReservedName, m)
                  else if broad e
                  then (if enabled then Some (Inl ReservedName, m)
                        else let s = revoke_locked v (ce_id e) s in send (s\<lparr> ms_requests := ms_requests s + 1 \<rparr>))
                  else send s)"

definition NOT_SAVED_REASON :: rstr where
  "NOT_SAVED_REASON = lit ''Choice accepted in memory, but saved authority is unavailable or revoked; no activation is authorized.''"

definition flush_result :: "manager_state \<Rightarrow> pending_result \<Rightarrow> request_result \<Rightarrow> request_result" where
  "flush_result s request r =
     (if rr_choice_accepted r \<noteq> Some True then r
      else let current = (case pr_authority_revision request of
                            None \<Rightarrow> True
                          | Some revision \<Rightarrow>
                              revision = ms_broad_revision s \<and> fmlookup (ch_grants (ms_choices s)) (rr_id r) = pr_grant request);
               persisted = (st_persistent (ms_storage s) \<and> ms_inert s = None \<and> pr_version request \<le> ms_saved s \<and> current);
               r = r\<lparr> rr_persisted := Some persisted \<rparr>
           in if persisted then r else r\<lparr> rr_reason := NOT_SAVED_REASON \<rparr>)"

definition flush_request_results :: "curated_defaults \<Rightarrow> curated_defaults" where
  "flush_request_results m =
     (let s = cd_state m
      in fold (\<lambda>request. send_private (Some (pr_reply request)) (pr_request_id request)
                           (map (flush_result s request) (pr_results request)))
           (ms_request_results s) (with_state (s\<lparr> ms_request_results := [] \<rparr>) m))"

end
