(* ===== verification/Curated_Worker.thy ===== *)
theory Curated_Worker
  imports Curated_Manager
begin

text \<open>
  The worker of \<open>curated/manager.rs\<close>, \<open>manager_upgrade.rs\<close>, \<open>manager_orphans.rs\<close> and
  \<open>manager_intent.rs\<close>: one reconcile pass, the commands it sends and what their answers
  change.
\<close>

section \<open>Sending a command and its answer\<close>

datatype 'a attempt = Skipped | Panicked | Attempted "send_error + nat" 'a

definition attempted :: "curated_defaults \<Rightarrow> dispatched \<Rightarrow> 'a \<Rightarrow> curated_defaults \<times> 'a attempt" where
  "attempted m sent x =
     (case sent of None \<Rightarrow> (m, Panicked) | Some (r, d) \<Rightarrow> (m\<lparr> cd_commands := d \<rparr>, Attempted r x))"

text \<open>\<open>reply\<close> is what \<open>PendingReply::wait\<close> gave for a command that was queued.\<close>

definition wait_sent :: "send_error + nat \<Rightarrow> outcome \<Rightarrow> refusal \<Rightarrow> command_result" where
  "wait_sent sent reply refusal =
     (case sent of
        Inl e \<Rightarrow> Inl (send_problem e)
      | Inr _ \<Rightarrow> (case reply of Inl e \<Rightarrow> Inl (command_problem e refusal) | Inr _ \<Rightarrow> Inr ()))"

datatype confirmed = DoneInstall rule | DoneDelete bool

record waiting =
  wg_id :: rstr
  wg_name :: rstr
  wg_done :: confirmed

text \<open>What a broad rule needs at the moment it is sent: its consent, saved and not revoked since.\<close>

definition no_authority :: "curated_env \<Rightarrow> 64 word \<Rightarrow> rstr \<Rightarrow> manager_state \<Rightarrow> bool" where
  "no_authority v revision ident s \<longleftrightarrow>
     ms_broad_revision s \<noteq> revision \<or> \<not> has_broad_authority v ident (ms_choices s) \<or> ms_saved s < ms_version s
     \<or> \<not> st_persistent (ms_storage s)"

definition install_send ::
  "curated_env \<Rightarrow> nat \<Rightarrow> 64 word \<Rightarrow> rstr \<Rightarrow> curated_defaults \<Rightarrow> curated_defaults \<times> waiting attempt" where
  "install_send v generation revision ident m =
     (case entry_of v ident of
        None \<Rightarrow> (m, Skipped)
      | Some e \<Rightarrow>
          let s = cd_state m; name = entry_rule_name e; d = cd_commands m
          in if ms_inert s \<noteq> None \<or> generation_of m \<noteq> generation
                \<or> ident |\<notin>| ch_enabled (ms_choices s) \<or> ident |\<in>| ch_deleted (ms_choices s)
                \<or> (broad e \<and> no_authority v revision ident s) \<or> \<not> still_missing name d
             then (m, Skipped)
             else let uid = account_uid e (ms_found s)
                  in attempted m
                       (if broad e then send_curated_guarded (cv_lib v) (cv_entries v) (authorized_install e uid) generation False d
                        else send_curated (cv_lib v) (cv_entries v) (install_as e uid) d)
                       \<lparr> wg_id = ident, wg_name = name, wg_done = DoneInstall (rule_as e uid) \<rparr>)"

definition delete_send :: "curated_env \<Rightarrow> rstr \<Rightarrow> rstr \<Rightarrow> curated_defaults \<Rightarrow> curated_defaults \<times> waiting attempt" where
  "delete_send v ident name m =
     (case curated_delete name of
        None \<Rightarrow> (m, Skipped)
      | Some c \<Rightarrow> attempted m (send_curated (cv_lib v) (cv_entries v) c (cd_commands m))
          \<lparr> wg_id = ident, wg_name = name, wg_done = DoneDelete (\<not> still_missing name (cd_commands m)) \<rparr>)"

definition forget_mark :: "rstr \<Rightarrow> curated_defaults \<Rightarrow> curated_defaults" where
  "forget_mark name m =
     (let d = cd_commands m; r = dc_rules d
      in m\<lparr> cd_commands := d\<lparr> dc_rules := r\<lparr> rs_cache := forget_file_left name (rs_cache r) \<rparr> \<rparr> \<rparr>)"

text \<open>The entry turned off because the daemon refused its rule (issue 130).\<close>

definition turned_off_again :: "curated_env \<Rightarrow> rstr \<Rightarrow> nat \<Rightarrow> manager_state \<Rightarrow> manager_state" where
  "turned_off_again v ident generation s =
     (let s = revoke_locked v ident s;
          s = keep (choice_disable ident (ms_choices s)) s;
          s = set_status ident StNotInstalled (forget_failure ident s)
      in s\<lparr> ms_install_refusals := fmupd ident (INSTALL_REFUSED_REASON, generation) (ms_install_refusals s) \<rparr>)"

definition apply_finish ::
  "curated_env \<Rightarrow> nat \<Rightarrow> nat \<Rightarrow> waiting \<Rightarrow> command_result \<Rightarrow> curated_defaults \<Rightarrow> curated_defaults" where
  "apply_finish v generation epoch w outcome m =
     (let ident = wg_id w; name = wg_name w;
          marked = (name |\<in>| rc_files_left (cache_of (cd_commands m)) \<or> ident |\<in>| ch_files_left (ms_choices (cd_state m)));
          install = (case wg_done w of DoneInstall _ \<Rightarrow> True | DoneDelete _ \<Rightarrow> False);
          (s, dropped) = track_maybe_applied name install outcome marked epoch (cd_state m);
          (s, no_file) =
            (case (outcome, wg_done w) of
               (Inr _, DoneInstall r) \<Rightarrow>
                 (set_status ident StInstalled (forget_failure ident
                    (keep (file_gone ident (choice_installed v ident r (ms_choices s))) s)), False)
             | (Inr _, DoneDelete listed) \<Rightarrow> deleted ident False listed marked dropped s
             | (Inl p, DoneDelete listed) \<Rightarrow>
                 if pb_daemon_refused p then deleted ident True listed marked dropped s
                 else (fail False ident StNotRemoved p generation s, False)
             | (Inl p, DoneInstall _) \<Rightarrow>
                 if ident |\<notin>| ch_enabled (ms_choices s) then (s, False)
                 else if pb_daemon_refused p then (turned_off_again v ident generation s, False)
                 else (fail False ident StNotInstalled p generation s, False))
      in (if no_file then forget_mark name else (\<lambda>m. m)) (with_state s m))"

section \<open>Upgrades (manager_upgrade.rs)\<close>

record upgrading =
  ug_id :: rstr
  ug_name :: rstr
  ug_rule :: "rule option"
  ug_status :: entry_status
  ug_moved :: bool

definition upgrade_send ::
  "curated_env \<Rightarrow> nat \<Rightarrow> 64 word \<Rightarrow> rstr \<Rightarrow> curated_defaults \<Rightarrow> curated_defaults \<times> upgrading attempt" where
  "upgrade_send v generation revision ident m =
     (case entry_of v ident of
        None \<Rightarrow> (m, Skipped)
      | Some e \<Rightarrow>
          let s = cd_state m; d = cd_commands m; lib = cv_lib v; es = cv_entries v
          in if ms_inert s \<noteq> None \<or> generation_of m \<noteq> generation
                \<or> ident |\<notin>| ch_enabled (ms_choices s) \<or> ident |\<in>| ch_deleted (ms_choices s) \<or> ident |\<in>| ms_withheld s
             then (m, Skipped)
             else case Option.bind (rc_rules (cache_of d)) (\<lambda>rules. fmlookup rules (entry_rule_name e)) of
                    None \<Rightarrow> (m, Skipped)
                  | Some current \<Rightarrow>
                      let uid = account_uid e (ms_found s);
                          guarded = (broad e \<and> r_enabled current)
                      in if guarded \<and> no_authority v revision ident s then (m, Skipped)
                         else (case (if guarded then authorized_upgrade lib e current uid else upgrade lib e current uid) of
                                 None \<Rightarrow> (m, Skipped)
                               | Some c \<Rightarrow>
                                   attempted m
                                     (if guarded then send_curated_guarded_replace lib es c generation d else send_curated lib es c d)
                                     \<lparr> ug_id = ident, ug_name = entry_rule_name e,
                                       ug_rule = (case n_rules (cc_notification c) of r # _ \<Rightarrow> Some r | [] \<Rightarrow> None),
                                       ug_status = (if r_enabled current then StInstalled else StInstalledButOff),
                                       ug_moved = (\<not> is_legacy lib e current) \<rparr>))"

definition upgrade_finish ::
  "curated_env \<Rightarrow> nat \<Rightarrow> nat \<Rightarrow> upgrading \<Rightarrow> command_result \<Rightarrow> curated_defaults \<Rightarrow> curated_defaults" where
  "upgrade_finish v generation epoch u outcome m =
     (let ident = ug_id u; name = ug_name u; s = cd_state m;
          marked = (name |\<in>| rc_files_left (cache_of (cd_commands m)) \<or> ident |\<in>| ch_files_left (ms_choices s));
          s = (if ug_moved u then fst (track_maybe_applied name True outcome marked epoch s) else s)
      in with_state
           (case outcome of
              Inr _ \<Rightarrow>
                (case ug_rule u of
                   Some r \<Rightarrow>
                     (let s = set_status ident (ug_status u) (forget_failure ident (keep (choice_installed v ident r (ms_choices s)) s))
                      in if ug_moved u then s\<lparr> ms_repinned := fmupd ident generation (ms_repinned s) \<rparr> else s)
                 | None \<Rightarrow> s)
            | Inl p \<Rightarrow>
                if ug_moved u \<and> pb_daemon_refused p then turned_off_again v ident generation s
                else fail False ident (ug_status u) p generation s) m)"

section \<open>Removals the user asked for\<close>

definition remove_send ::
  "curated_env \<Rightarrow> daemon_rules \<Rightarrow> rstr \<Rightarrow> curated_defaults \<Rightarrow> curated_defaults \<times> rstr attempt" where
  "remove_send v daemon ident m =
     (case entry_of v ident of
        None \<Rightarrow> (m, Skipped)
      | Some e \<Rightarrow>
          if \<not> still_edited v ident daemon then (m, Skipped)
          else case curated_delete (entry_rule_name e) of
                 None \<Rightarrow> (m, Skipped)
               | Some c \<Rightarrow> attempted m (send_curated (cv_lib v) (cv_entries v) c (cd_commands m)) (entry_rule_name e))"

definition removal_done :: "rstr \<Rightarrow> choices \<Rightarrow> entry_status \<Rightarrow> manager_state \<Rightarrow> manager_state" where
  "removal_done ident c off s =
     (let st = (if ident |\<in>| ch_enabled c then StDeletedOutside else off);
          s = keep c s
      in set_status ident st (s\<lparr> ms_removal_failures := fmdrop ident (ms_removal_failures s) \<rparr>))"

definition remove_finish ::
  "curated_env \<Rightarrow> nat \<Rightarrow> nat \<Rightarrow> rstr \<Rightarrow> rstr \<Rightarrow> command_result \<Rightarrow> curated_defaults \<Rightarrow> curated_defaults" where
  "remove_finish v generation epoch ident name outcome m =
     (let s = fst (track_maybe_applied name False outcome False epoch (cd_state m))
      in with_state
           (case outcome of
              Inr _ \<Rightarrow> removal_done ident (file_gone ident (user_removed ident (ms_choices s))) StOff s
            | Inl p \<Rightarrow>
                if pb_daemon_refused p
                then removal_done ident (file_left ident (user_removed ident (ms_choices s))) StOffFileLeft s
                else let s = (if pb_sticky p then s
                              else (let s = revoke_locked v ident s in s\<lparr> ms_removals := finsert ident (ms_removals s) \<rparr>))
                     in fail True ident StNotRemoved p generation s) m)"

text \<open>Removals not yet sent when the daemon reconnected.\<close>

definition requeue_removals :: "rstr list \<Rightarrow> manager_state \<Rightarrow> manager_state" where
  "requeue_removals ids s = s\<lparr> ms_removals := ms_removals s |\<union>| fset_of_list ids \<rparr>"

section \<open>Orphans (manager_orphans.rs)\<close>

definition take_orphan_removals :: "nat \<Rightarrow> manager_state \<Rightarrow> manager_state \<times> rstr fset" where
  "take_orphan_removals generation s =
     (if ms_inert s \<noteq> None then (s\<lparr> ms_orphan_removals := {||}, ms_orphan_failures := fmempty \<rparr>, {||})
      else (s\<lparr> ms_orphan_failures := fm_retain (\<lambda>_ f. of_generation f = generation) (ms_orphan_failures s),
               ms_orphan_removals := {||} \<rparr>, ms_orphan_removals s))"

definition requeue_orphans :: "rstr list \<Rightarrow> manager_state \<Rightarrow> manager_state" where
  "requeue_orphans ids s = s\<lparr> ms_orphan_removals := ms_orphan_removals s |\<union>| fset_of_list ids \<rparr>"

definition remove_orphan_send ::
  "curated_env \<Rightarrow> nat \<Rightarrow> rstr \<Rightarrow> curated_defaults \<Rightarrow> curated_defaults \<times> unit attempt" where
  "remove_orphan_send v generation ident m =
     (let name = curated_rule_name ident
      in if is_inert m \<or> generation_of m \<noteq> generation \<or> \<not> still_orphan v name m then (m, Skipped)
         else case curated_delete name of
                None \<Rightarrow> (m, Skipped)
              | Some c \<Rightarrow>
                  attempted m (send_curated_guarded_delete (cv_lib v) (cv_entries v) c generation (cd_commands m)) ())"

definition remove_orphan_finish :: "nat \<Rightarrow> rstr \<Rightarrow> command_result \<Rightarrow> manager_state \<Rightarrow> manager_state" where
  "remove_orphan_finish generation ident outcome s =
     (case outcome of
        Inr _ \<Rightarrow> s\<lparr> ms_orphan_failures := fmdrop ident (ms_orphan_failures s) \<rparr>
      | Inl p \<Rightarrow>
          if pb_daemon_refused p
          then s\<lparr> ms_orphan_failures := fmupd ident
                   \<lparr> of_generation = generation, of_problem = ORPHAN_FILE_LEFT_REASON, of_file_left = True \<rparr> (ms_orphan_failures s) \<rparr>
          else let s = (if pb_sticky p then s else requeue_orphans [ident] s)
               in s\<lparr> ms_orphan_failures := fmupd ident
                      \<lparr> of_generation = generation, of_problem = pb_text p, of_file_left = False \<rparr> (ms_orphan_failures s) \<rparr>)"

section \<open>Turning a rule on again (manager_intent.rs)\<close>

definition reenable_send ::
  "curated_env \<Rightarrow> nat \<Rightarrow> 64 word \<Rightarrow> rstr \<Rightarrow> curated_defaults \<Rightarrow> curated_defaults \<times> unit attempt" where
  "reenable_send v generation revision ident m =
     (let s = cd_state m; d = cd_commands m; cache = cache_of d
      in if ms_inert s \<noteq> None \<or> no_authority v revision ident s \<or> generation_of m \<noteq> generation then (m, Skipped)
         else case entry_of v ident of
                None \<Rightarrow> (m, Skipped)
              | Some e \<Rightarrow>
                  let name = entry_rule_name e
                  in if name |\<in>| fmdom (rc_left_out cache) \<or> name |\<in>| rc_files_left cache \<or> ident |\<in>| ch_files_left (ms_choices s)
                     then (m, Skipped)
                     else (case Option.bind (rc_rules cache) (\<lambda>rules. fmlookup rules name) of
                             None \<Rightarrow> (m, Skipped)
                           | Some current \<Rightarrow>
                               if r_enabled current then (m, Skipped)
                               else (case authorized_toggle (cv_lib v) (cv_entries v) current of
                                       None \<Rightarrow> (m, Skipped)
                                     | Some c \<Rightarrow> attempted m (send_curated_guarded (cv_lib v) (cv_entries v) c generation True d) ())))"

definition reenable_finish :: "curated_env \<Rightarrow> nat \<Rightarrow> rstr \<Rightarrow> command_result \<Rightarrow> manager_state \<Rightarrow> manager_state" where
  "reenable_finish v generation ident outcome s =
     (case outcome of
        Inr _ \<Rightarrow> set_status ident StInstalled s
      | Inl p \<Rightarrow> fail False ident StInstalledButOff p generation (if pb_daemon_refused p then revoke_locked v ident s else s))"

text \<open>After a refusal the rule is turned off again, once.\<close>

definition reenable_undo :: "curated_env \<Rightarrow> rstr \<Rightarrow> curated_defaults \<Rightarrow> curated_defaults \<times> unit attempt" where
  "reenable_undo v ident m =
     attempted m (send_curated_toggle (cv_lib v) (cv_entries v) (curated_rule_name ident) False (cd_commands m)) ()"

section \<open>A pass\<close>

record pass_list =
  ps_rules :: "(rstr, rule) fmap"
  ps_left_out :: "rstr fset"
  ps_files_left :: "rstr fset"
  ps_epoch :: nat

definition read_list :: "daemon_commands \<Rightarrow> pass_list option" where
  "read_list d =
     (let cache = cache_of d
      in map_option (\<lambda>rules. \<lparr> ps_rules = rules, ps_left_out = fmdom (rc_left_out cache), ps_files_left = rc_files_left cache,
                               ps_epoch = rc_snapshot_sequence cache \<rparr>) (rc_rules cache))"

text \<open>The records of unlisted rules: those of an earlier snapshot are forgotten, and a mark for a
  file that never was is taken back.\<close>

definition pass_records :: "pass_list \<Rightarrow> curated_defaults \<Rightarrow> curated_defaults \<times> daemon_rules" where
  "pass_records l m =
     (let s = cd_state m;
          no_files = no_file_marks s (ps_files_left l);
          s = s\<lparr> ms_maybe_applied := fm_retain (\<lambda>_ r. ma_epoch r = ps_epoch l) (ms_maybe_applied s) \<rparr>;
          files_left = ps_files_left l |\<union>| curated_rule_name |`| ch_files_left (ms_choices s)
      in (fold forget_mark no_files (with_state s m),
          \<lparr> dr_rules = ps_rules l, dr_left_out = ps_left_out l, dr_files_left = files_left |-| fset_of_list no_files,
            dr_maybe_applied = fmdom (ms_maybe_applied s) \<rparr>))"

record pass_work =
  pw_actions :: "(curated_action \<times> 64 word) list"
  pw_removals :: "rstr fset"
  pw_reenables :: "(rstr, 64 word) fmap"

definition no_work :: pass_work where
  "no_work = \<lparr> pw_actions = [], pw_removals = {||}, pw_reenables = fmempty \<rparr>"

definition pass_plan :: "curated_env \<Rightarrow> daemon_rules \<Rightarrow> nat \<Rightarrow> found \<Rightarrow> manager_state \<Rightarrow> manager_state \<times> pass_work" where
  "pass_plan v daemon generation f s =
     (let s = s\<lparr> ms_problems := fmempty \<rparr>
      in if ms_inert s \<noteq> None
         then (s\<lparr> ms_statuses := inert_statuses v daemon, ms_removals := {||}, ms_removal_failures := fmempty,
                  ms_reenables := fmempty \<rparr>, no_work)
         else let planned = plan v daemon (ms_choices s);
                  s = keep (pl_choices planned) (s\<lparr> ms_statuses := pl_statuses planned \<rparr>);
                  s = s\<lparr> ms_install_refusals :=
                           fm_retain (\<lambda>ident x. ident |\<notin>| ch_enabled (ms_choices s) \<and> snd x = generation) (ms_install_refusals s),
                         ms_repinned := fm_retain (\<lambda>_ seen. seen = generation) (ms_repinned s) \<rparr>;
                  (s, moves) = handle_moved v (moved v f (dr_rules daemon)) (dr_rules daemon) s;
                  (s, actions) = without_failed (pl_actions planned @ moves) generation s;
                  s = show_removal_failures v daemon generation s;
                  (s, actions) = withhold actions (withheld v f) f s
              in (s\<lparr> ms_removals := {||}, ms_reenables := fmempty \<rparr>,
                  \<lparr> pw_actions = map (\<lambda>a. (a, ms_broad_revision s)) actions, pw_removals = ms_removals s,
                    pw_reenables = ms_reenables s \<rparr>))"

text \<open>What decides whether a pass runs.\<close>

record pass_key =
  pk_revision :: nat
  pk_known :: bool
  pk_generation :: nat
  pk_version :: nat
  pk_inert :: bool
  pk_requests :: nat
  pk_accounts :: nat

definition pass_key_of :: "curated_defaults \<Rightarrow> pass_key" where
  "pass_key_of m =
     (let cache = cache_of (cd_commands m); s = cd_state m
      in \<lparr> pk_revision = rc_revision cache, pk_known = (rc_rules cache \<noteq> None), pk_generation = generation_of m,
           pk_version = ms_version s, pk_inert = (ms_inert s \<noteq> None), pk_requests = ms_requests s,
           pk_accounts = ac_epoch (cd_accounts m) \<rparr>)"

section \<open>The whole pass\<close>

text \<open>
  \<open>reconcile\<close> with its \<open>await\<close>s as an environment, which may change anything meanwhile: a save,
  the lookup of the accounts, the answer to a command. \<open>None\<close> is the panic of a send.
\<close>

record pass_env =
  pe_save :: "curated_defaults \<Rightarrow> curated_defaults"
  pe_found :: "curated_defaults \<Rightarrow> curated_defaults \<times> found"
  pe_reply :: "nat \<Rightarrow> curated_defaults \<Rightarrow> curated_defaults \<times> outcome"

definition awaited :: "pass_env \<Rightarrow> send_error + nat \<Rightarrow> refusal \<Rightarrow> curated_defaults \<Rightarrow> curated_defaults \<times> command_result" where
  "awaited pe sent refusal m =
     (case sent of
        Inl e \<Rightarrow> (m, Inl (send_problem e))
      | Inr ident \<Rightarrow> (let (m, reply) = pe_reply pe ident m in (m, wait_sent sent reply refusal)))"

definition save_and_announce :: "curated_env \<Rightarrow> pass_env \<Rightarrow> curated_defaults \<Rightarrow> curated_defaults" where
  "save_and_announce v pe m = announce_changed v (pe_save pe m)"

text \<open>An attempt and what its answer does.\<close>

definition carry_out ::
  "curated_defaults \<times> 'a attempt \<Rightarrow> pass_env \<Rightarrow> refusal \<Rightarrow> ('a \<Rightarrow> command_result \<Rightarrow> curated_defaults \<Rightarrow> curated_defaults)
     \<Rightarrow> curated_defaults option" where
  "carry_out tried pe refusal finish =
     (case tried of
        (m, Skipped) \<Rightarrow> Some m
      | (m, Panicked) \<Rightarrow> None
      | (m, Attempted sent x) \<Rightarrow> (let (m, oc) = awaited pe sent refusal m in Some (finish x oc m)))"

definition apply_action ::
  "curated_env \<Rightarrow> pass_env \<Rightarrow> nat \<Rightarrow> nat \<Rightarrow> curated_action \<times> 64 word \<Rightarrow> curated_defaults \<Rightarrow> curated_defaults option" where
  "apply_action v pe generation epoch = (\<lambda>(a, revision) m.
     case a of
       Install ident \<Rightarrow> carry_out (install_send v generation revision ident m) pe RefusalAdd (apply_finish v generation epoch)
     | Upgrade ident \<Rightarrow> carry_out (upgrade_send v generation revision ident m) pe RefusalAdd (upgrade_finish v generation epoch)
     | Delete ident name \<Rightarrow> carry_out (delete_send v ident name m) pe RefusalRemove (apply_finish v generation epoch))"

fun apply_each ::
  "curated_env \<Rightarrow> pass_env \<Rightarrow> nat \<Rightarrow> nat \<Rightarrow> (curated_action \<times> 64 word) list \<Rightarrow> curated_defaults \<Rightarrow> curated_defaults option" where
  "apply_each v pe generation epoch [] m = Some m"
| "apply_each v pe generation epoch (a # as) m =
     (if generation_of m \<noteq> generation then Some m
      else if \<not> still_wanted v (cd_commands m) (cd_state m) (fst a) then apply_each v pe generation epoch as m
      else Option.bind (apply_action v pe generation epoch a m)
             (\<lambda>m. apply_each v pe generation epoch as (save_and_announce v pe m)))"

fun remove_each ::
  "curated_env \<Rightarrow> pass_env \<Rightarrow> daemon_rules \<Rightarrow> nat \<Rightarrow> nat \<Rightarrow> rstr list \<Rightarrow> curated_defaults \<Rightarrow> curated_defaults option" where
  "remove_each v pe daemon generation epoch [] m = Some m"
| "remove_each v pe daemon generation epoch (ident # ids) m =
     (if is_inert m then Some m
      else if generation_of m \<noteq> generation then Some (with_state (requeue_removals (ident # ids) (cd_state m)) m)
      else Option.bind
             (carry_out (remove_send v daemon ident m) pe RefusalRemove (\<lambda>name. remove_finish v generation epoch ident name))
             (\<lambda>m. remove_each v pe daemon generation epoch ids (save_and_announce v pe m)))"

definition remove_orphan :: "curated_env \<Rightarrow> pass_env \<Rightarrow> nat \<Rightarrow> rstr \<Rightarrow> curated_defaults \<Rightarrow> curated_defaults option" where
  "remove_orphan v pe generation ident m =
     (case remove_orphan_send v generation ident m of
        (m, Attempted (Inl e) u) \<Rightarrow>
          Some (if generation_of m \<noteq> generation then with_state (requeue_orphans [ident] (cd_state m)) m
                else with_state (remove_orphan_finish generation ident (Inl (send_problem e)) (cd_state m)) m)
      | tried \<Rightarrow> carry_out tried pe RefusalRemove
          (\<lambda>_ oc m. with_state (remove_orphan_finish generation ident oc (cd_state m)) m))"

fun remove_orphans :: "curated_env \<Rightarrow> pass_env \<Rightarrow> nat \<Rightarrow> rstr list \<Rightarrow> curated_defaults \<Rightarrow> curated_defaults option" where
  "remove_orphans v pe generation [] m = Some m"
| "remove_orphans v pe generation (ident # ids) m =
     (if is_inert m then Some m
      else if generation_of m \<noteq> generation then Some (with_state (requeue_orphans (ident # ids) (cd_state m)) m)
      else Option.bind (remove_orphan v pe generation ident m) (\<lambda>m. remove_orphans v pe generation ids (announce_changed v m)))"

definition reenable :: "curated_env \<Rightarrow> pass_env \<Rightarrow> nat \<Rightarrow> 64 word \<Rightarrow> rstr \<Rightarrow> curated_defaults \<Rightarrow> curated_defaults option" where
  "reenable v pe generation revision ident m =
     (case reenable_send v generation revision ident m of
        (m, Skipped) \<Rightarrow> Some m
      | (m, Panicked) \<Rightarrow> None
      | (m, Attempted sent u) \<Rightarrow>
          (let (m, oc) = awaited pe sent RefusalAdd m;
               m = with_state (reenable_finish v generation ident oc (cd_state m)) m
           in if (case oc of Inl p \<Rightarrow> pb_daemon_refused p | Inr _ \<Rightarrow> False)
              then carry_out (reenable_undo v ident m) pe RefusalRemove (\<lambda>_ _ m. m) else Some m))"

fun reenable_each ::
  "curated_env \<Rightarrow> pass_env \<Rightarrow> nat \<Rightarrow> (rstr \<times> 64 word) list \<Rightarrow> curated_defaults \<Rightarrow> curated_defaults option" where
  "reenable_each v pe generation [] m = Some m"
| "reenable_each v pe generation ((ident, revision) # rs) m =
     Option.bind (reenable v pe generation revision ident m) (\<lambda>m. reenable_each v pe generation rs (save_and_announce v pe m))"

text \<open>The hold on the rule list's broadcasts while the commands go out is left out.\<close>

definition pass_commands ::
  "curated_env \<Rightarrow> pass_env \<Rightarrow> daemon_rules \<Rightarrow> nat \<Rightarrow> nat \<Rightarrow> pass_work \<Rightarrow> rstr list \<Rightarrow> curated_defaults \<Rightarrow> curated_defaults option" where
  "pass_commands v pe daemon generation epoch work orphan_ids m =
     Option.bind (remove_each v pe daemon generation epoch (sorted_list_of_fset (pw_removals work)) m) (\<lambda>m.
     Option.bind (remove_orphans v pe generation orphan_ids m) (\<lambda>m.
     Option.bind (apply_each v pe generation epoch (pw_actions work) m) (\<lambda>m.
     reenable_each v pe generation
       (map (\<lambda>ident. (ident, the (fmlookup (pw_reenables work) ident))) (fm_keys (pw_reenables work))) m)))"

definition reconcile :: "curated_env \<Rightarrow> pass_env \<Rightarrow> curated_defaults \<Rightarrow> curated_defaults option" where
  "reconcile v pe m =
     (let m = m\<lparr> cd_accounts := fst (accounts_read (cd_accounts m)) \<rparr>;
          m = flush_request_results (pe_save pe m);
          generation = generation_of m
      in case read_list (cd_commands m) of
           None \<Rightarrow> Some (announce_changed v (with_state (clear_removals (cd_state m)) m))
         | Some l \<Rightarrow>
             let (m, f) = (if is_inert m then (m, fmempty) else pe_found pe m);
                 (m, daemon) = pass_records l m;
                 (s, work) = pass_plan v daemon generation f (cd_state m);
                 (s, orphan_set) = take_orphan_removals generation s;
                 m = save_and_announce v pe (with_state s m)
             in if pw_actions work = [] \<and> pw_removals work = {||} \<and> pw_reenables work = fmempty \<and> orphan_set = {||} then Some m
                else pass_commands v pe daemon generation (ps_epoch l) work (sorted_list_of_fset orphan_set) m)"

end
