(* ===== verification/Curated_Reconcile_Props.thy ===== *)
theory Curated_Reconcile_Props
  imports Curated_Reconcile Bridge_Commands_Props
begin

text \<open>
  Properties of the plans and of the saved choices.

  \<^item> which commands a plan has: nothing but the user's own choices is installed, and nothing
    but the bridge's own unedited copies is deleted;
  \<^item> saved choices load back, and a plan keeps them fit to be saved;
  \<^item> one pass settles: once its commands are answered, a second plan has none.
\<close>

section \<open>Commands of a plan\<close>

definition warranted :: "curated_env \<Rightarrow> daemon_rules \<Rightarrow> choices \<Rightarrow> curated_action \<Rightarrow> bool" where
  "warranted v daemon c a \<longleftrightarrow>
     (case a of
        Install i \<Rightarrow> (\<exists>e \<in> set (cv_entries v). ce_id e = i \<and> entry_rule_name e |\<notin>| dr_left_out daemon
            \<and> fmlookup (dr_rules daemon) (entry_rule_name e) = None
            \<and> i |\<in>| ch_enabled c \<and> i |\<notin>| ch_deleted c \<and> \<not> was_installed i c
            \<and> (ce_any_address e \<longrightarrow> has_broad_authority_for v e c))
      | Upgrade i \<Rightarrow> (\<exists>e \<in> set (cv_entries v). ce_id e = i \<and> entry_rule_name e |\<notin>| dr_left_out daemon
            \<and> i |\<in>| ch_enabled c \<and> (\<exists>r. fmlookup (dr_rules daemon) (entry_rule_name e) = Some r \<and> is_legacy (cv_lib v) e r))
      | Delete i name \<Rightarrow> name = curated_rule_name i
          \<and> ((\<exists>e \<in> set (cv_entries v). ce_id e = i \<and> name |\<notin>| dr_left_out daemon \<and> i |\<notin>| ch_enabled c
               \<and> (case fmlookup (dr_rules daemon) name of
                    None \<Rightarrow> name |\<in>| dr_maybe_applied daemon
                  | Some r \<Rightarrow> i |\<in>| ch_disabled c \<and> (is_legacy (cv_lib v) e r \<or> is_unedited (cv_lib v) (Some e) None r)))
             \<or> ((\<forall>e \<in> set (cv_entries v). ce_id e \<noteq> i)
               \<and> (\<exists>r. fmlookup (dr_rules daemon) name = Some r \<and> fmlookup (ch_installed c) i = Some (canon v r)))))"

lemma entry_name: "entry_rule_name e = curated_rule_name (ce_id e)"
  by (simp add: entry_rule_name_def curated_rule_name_def)

lemma curated_rule_name_inject [simp]: "curated_rule_name i = curated_rule_name j \<longleftrightarrow> i = j"
  by (simp add: curated_rule_name_def)

lemma strip_curated_Some: "strip_curated name = Some i \<longleftrightarrow> name = curated_rule_name i"
  by (auto simp: strip_curated_def curated_rule_name_def prefix_def)

text \<open>The commands planned for one entry do not depend on those before it.\<close>

abbreviation entry_actions :: "curated_env \<Rightarrow> daemon_rules \<Rightarrow> choices \<Rightarrow> curated_entry \<Rightarrow> curated_action list" where
  "entry_actions v daemon c e \<equiv> snd (snd (plan_entry v e daemon c c))"

lemmas plan_defs = plan_entry_def plan_missing_def plan_legacy_def Let_def

lemma plan_entry_actions: "snd (snd (plan_entry v e daemon c next)) = entry_actions v daemon c e"
  by (auto simp: plan_defs split: option.split)

lemma plan_entry_status: "fst (plan_entry v e daemon c next) = fst (plan_entry v e daemon c c)"
  by (auto simp: plan_defs split: option.split)

lemma plan_entries_actions:
  "fst (snd (plan_entries v daemon c es next sts)) = concat (map (entry_actions v daemon c) es)"
proof (induction es arbitrary: "next" sts)
  case (Cons e es)
  then show ?case using plan_entry_actions[of v e daemon c "next"] by (simp add: case_prod_beta Let_def)
qed simp

lemma plan_actions:
  "pl_actions (plan v daemon c) = concat (map (entry_actions v daemon c) (cv_entries v))
     @ concat (map (leftover_action v daemon c) (fm_keys (dr_rules daemon)))"
  using plan_entries_actions[of v daemon c "cv_entries v" c fmempty]
  by (simp add: plan_def Let_def case_prod_beta)

lemma entry_action_warranted:
  "a \<in> set (entry_actions v daemon c e) \<longleftrightarrow>
    (case a of
       Install i \<Rightarrow> i = ce_id e \<and> entry_rule_name e |\<notin>| dr_left_out daemon \<and> fmlookup (dr_rules daemon) (entry_rule_name e) = None
         \<and> i |\<in>| ch_enabled c \<and> i |\<notin>| ch_deleted c \<and> \<not> was_installed i c \<and> (ce_any_address e \<longrightarrow> has_broad_authority_for v e c)
     | Upgrade i \<Rightarrow> i = ce_id e \<and> entry_rule_name e |\<notin>| dr_left_out daemon \<and> i |\<in>| ch_enabled c
         \<and> (\<exists>r. fmlookup (dr_rules daemon) (entry_rule_name e) = Some r \<and> is_legacy (cv_lib v) e r)
     | Delete i name \<Rightarrow> i = ce_id e \<and> name = entry_rule_name e \<and> name |\<notin>| dr_left_out daemon \<and> i |\<notin>| ch_enabled c
         \<and> (case fmlookup (dr_rules daemon) name of
              None \<Rightarrow> name |\<in>| dr_maybe_applied daemon
            | Some r \<Rightarrow> i |\<in>| ch_disabled c \<and> (is_legacy (cv_lib v) e r \<or> is_unedited (cv_lib v) (Some e) None r)))"
  by (cases "fmlookup (dr_rules daemon) (entry_rule_name e)"; cases a)
     (auto simp: plan_defs was_installed_def)

lemma leftover_action_iff:
  "a \<in> set (leftover_action v daemon c name) \<longleftrightarrow>
     (\<exists>i. a = Delete i name \<and> name = curated_rule_name i \<and> (\<forall>e \<in> set (cv_entries v). ce_id e \<noteq> i)
        \<and> is_unedited (cv_lib v) None (fmlookup (ch_installed c) i) (the (fmlookup (dr_rules daemon) name)))"
proof (cases "strip_curated name")
  case None
  then have "name \<noteq> curated_rule_name i" for i using strip_curated_Some[of name i] by simp
  then show ?thesis using None by (simp add: leftover_action_def)
next
  case (Some i)
  then have "name = curated_rule_name i" using strip_curated_Some by blast
  then show ?thesis using Some by (auto simp: leftover_action_def list_ex_iff)
qed

lemma plan_actions_warranted: "a \<in> set (pl_actions (plan v daemon c)) \<longleftrightarrow> warranted v daemon c a"
proof -
  have parts: "a \<in> set (pl_actions (plan v daemon c)) \<longleftrightarrow> (\<exists>e \<in> set (cv_entries v). a \<in> set (entry_actions v daemon c e))
      \<or> (\<exists>name \<in> set (fm_keys (dr_rules daemon)). a \<in> set (leftover_action v daemon c name))"
    by (auto simp: plan_actions)
  have left: "(\<exists>name \<in> set (fm_keys (dr_rules daemon)). a \<in> set (leftover_action v daemon c name)) \<longleftrightarrow>
      (\<exists>i. a = Delete i (curated_rule_name i) \<and> (\<forall>e \<in> set (cv_entries v). ce_id e \<noteq> i)
        \<and> (\<exists>r. fmlookup (dr_rules daemon) (curated_rule_name i) = Some r \<and> fmlookup (ch_installed c) i = Some (canon v r)))"
  proof
    assume "\<exists>name \<in> set (fm_keys (dr_rules daemon)). a \<in> set (leftover_action v daemon c name)"
    then obtain i where i: "a = Delete i (curated_rule_name i)" "\<forall>e \<in> set (cv_entries v). ce_id e \<noteq> i"
      "curated_rule_name i |\<in>| fmdom (dr_rules daemon)"
      "is_unedited (cv_lib v) None (fmlookup (ch_installed c) i) (the (fmlookup (dr_rules daemon) (curated_rule_name i)))"
      unfolding leftover_action_iff by auto
    then obtain r where "fmlookup (dr_rules daemon) (curated_rule_name i) = Some r" by (auto simp: fmlookup_dom_iff)
    then show "\<exists>i. a = Delete i (curated_rule_name i) \<and> (\<forall>e \<in> set (cv_entries v). ce_id e \<noteq> i)
        \<and> (\<exists>r. fmlookup (dr_rules daemon) (curated_rule_name i) = Some r \<and> fmlookup (ch_installed c) i = Some (canon v r))"
      using i by (auto simp: is_unedited_def split: option.splits)
  next
    assume "\<exists>i. a = Delete i (curated_rule_name i) \<and> (\<forall>e \<in> set (cv_entries v). ce_id e \<noteq> i)
        \<and> (\<exists>r. fmlookup (dr_rules daemon) (curated_rule_name i) = Some r \<and> fmlookup (ch_installed c) i = Some (canon v r))"
    then obtain i r where "a = Delete i (curated_rule_name i)" "\<forall>e \<in> set (cv_entries v). ce_id e \<noteq> i"
      "fmlookup (dr_rules daemon) (curated_rule_name i) = Some r" "fmlookup (ch_installed c) i = Some (canon v r)" by blast
    then show "\<exists>name \<in> set (fm_keys (dr_rules daemon)). a \<in> set (leftover_action v daemon c name)"
      unfolding leftover_action_iff
      by (intro bexI[of _ "curated_rule_name i"]) (auto simp: is_unedited_def fmdomI)
  qed
  show ?thesis
  proof (cases a)
    case (Delete i name)
    define Q where "Q e \<longleftrightarrow> (case fmlookup (dr_rules daemon) name of
        None \<Rightarrow> name |\<in>| dr_maybe_applied daemon
      | Some r \<Rightarrow> i |\<in>| ch_disabled c \<and> (is_legacy (cv_lib v) e r \<or> is_unedited (cv_lib v) (Some e) None r))" for e
    have entries: "(\<exists>e \<in> set (cv_entries v). a \<in> set (entry_actions v daemon c e)) \<longleftrightarrow>
        (\<exists>e \<in> set (cv_entries v). i = ce_id e \<and> name = curated_rule_name (ce_id e) \<and> name |\<notin>| dr_left_out daemon
          \<and> i |\<notin>| ch_enabled c \<and> Q e)"
      unfolding entry_action_warranted entry_name Q_def by (simp add: Delete)
    have spec: "warranted v daemon c a \<longleftrightarrow> name = curated_rule_name i
        \<and> ((\<exists>e \<in> set (cv_entries v). ce_id e = i \<and> name |\<notin>| dr_left_out daemon \<and> i |\<notin>| ch_enabled c \<and> Q e)
          \<or> ((\<forall>e \<in> set (cv_entries v). ce_id e \<noteq> i)
            \<and> (\<exists>r. fmlookup (dr_rules daemon) name = Some r \<and> fmlookup (ch_installed c) i = Some (canon v r))))"
      unfolding warranted_def Q_def by (simp add: Delete)
    show ?thesis unfolding parts entries left spec by (auto simp: Delete)
  qed (use left in \<open>auto simp: plan_actions warranted_def entry_action_warranted entry_name\<close>)
qed

text \<open>
  C16. What a reconcile pass does, exactly: it installs an entry if the user turned it on, it
  was not there before and is not there now, and, when it may reach any address, its
  consent stands; it upgrades an entry that is on and still has its old shape; it deletes
  the bridge's own unedited copy of an entry the user turned off, a rule an unanswered
  install may have left, and a recorded copy of an entry no longer offered. An edited copy,
  one too large to read, and any rule outside the prefix are left alone.
\<close>

theorem plan_acts_only_as_warranted: "a \<in> set (pl_actions (plan v daemon c)) \<longleftrightarrow> warranted v daemon c a"
  by (rule plan_actions_warranted)

section \<open>Saved choices\<close>

text \<open>What \<open>cleaned\<close> leaves alone.\<close>

definition saveable :: "curated_env \<Rightarrow> choices \<Rightarrow> bool" where
  "saveable v c \<longleftrightarrow>
     (\<forall>i. i |\<in>| ch_enabled c |\<union>| ch_disabled c |\<union>| ch_installed_ids c |\<union>| ch_deleted c |\<union>| ch_files_left c \<longrightarrow> valid_id i)
     \<and> (\<forall>i copy. fmlookup (ch_installed c) i = Some copy \<longrightarrow> valid_copy v i copy \<and> i |\<in>| ch_installed_ids c)
     \<and> (\<forall>i g. fmlookup (ch_grants c) i = Some g \<longrightarrow> (\<exists>e. entry_of v i = Some e \<and> grant_matches v g e))"

lemma map_of_map_filter:
  "distinct ks \<Longrightarrow> map_of (rev (List.map_filter (\<lambda>k. map_option (Pair k) (f k)) ks)) k = (if k \<in> set ks then f k else None)"
proof (induction ks)
  case (Cons x xs)
  show ?case
  proof (cases "f x")
    case None
    then show ?thesis using Cons by (auto simp: map_filter_simps)
  next
    case (Some y)
    then show ?thesis using Cons
      by (cases "k = x"; cases "f k") (auto simp: map_filter_simps map_add_def split: if_splits)
  qed
qed (simp add: map_filter_simps)

lemma cleaned_grants [simp]:
  "fmlookup (ch_grants (cleaned v c)) i = Option.bind (fmlookup (ch_grants c) i) (cleaned_grant v c i)"
proof (cases "fmlookup (ch_grants c) i")
  case None
  then have "i |\<notin>| fmdom (ch_grants c)" by (simp add: fmlookup_None_iff)
  then show ?thesis
    using None map_of_map_filter[where ks = "fm_keys (ch_grants c)" and f = "\<lambda>i. cleaned_grant v c i (the (fmlookup (ch_grants c) i))" and k = i]
    by (simp add: cleaned_def)
next
  case (Some g)
  then have "i |\<in>| fmdom (ch_grants c)" by (simp add: fmdomI)
  then show ?thesis
    using map_of_map_filter[where ks = "fm_keys (ch_grants c)" and f = "\<lambda>i. cleaned_grant v c i (the (fmlookup (ch_grants c) i))" and k = i] Some
    by (simp add: cleaned_def)
qed

lemma carried_over_Some: "carried_over v g e copy = Some g' \<Longrightarrow> grant_matches v g' e"
  by (auto simp: carried_over_def Let_def split: if_splits)

lemma carried_over_fix: "carried_over v g e copy = Some g \<longleftrightarrow> grant_matches v g e"
proof
  assume "carried_over v g e copy = Some g"
  then show "grant_matches v g e" by (rule carried_over_Some)
qed (simp add: carried_over_def)

lemma cleaned_grant_fix: "cleaned_grant v c i g = Some g \<longleftrightarrow> (\<exists>e. entry_of v i = Some e \<and> grant_matches v g e)"
  by (cases "entry_of v i") (simp_all add: cleaned_grant_def carried_over_fix)

lemma valid_copy_id: "valid_copy v i copy \<Longrightarrow> valid_id i"
  by (simp add: valid_copy_def)

lemma ffilter_id: "ffilter P A = A \<longleftrightarrow> (\<forall>x. x |\<in>| A \<longrightarrow> P x)"
  by (auto simp: fset_eq_iff)

lemma fm_retain_id: "fm_retain P m = m \<longleftrightarrow> (\<forall>k x. fmlookup m k = Some x \<longrightarrow> P k x)"
proof
  assume eq: "fm_retain P m = m"
  show "\<forall>k x. fmlookup m k = Some x \<longrightarrow> P k x"
  proof (intro allI impI)
    fix k x assume "fmlookup m k = Some x"
    moreover have "fmlookup (fm_retain P m) k = fmlookup m k" using eq by simp
    ultimately show "P k x" by (simp split: if_splits)
  qed
qed (auto intro!: fmap_ext split: option.split)

lemma cleaned_id_iff: "cleaned v c = c \<longleftrightarrow> saveable v c"
proof -
  have grants: "ch_grants (cleaned v c) = ch_grants c
      \<longleftrightarrow> (\<forall>i g. fmlookup (ch_grants c) i = Some g \<longrightarrow> (\<exists>e. entry_of v i = Some e \<and> grant_matches v g e))"
  proof -
    have "ch_grants (cleaned v c) = ch_grants c \<longleftrightarrow> (\<forall>i. fmlookup (ch_grants (cleaned v c)) i = fmlookup (ch_grants c) i)"
      by (metis fmap_ext)
    also have "\<dots> \<longleftrightarrow> (\<forall>i g. fmlookup (ch_grants c) i = Some g \<longrightarrow> cleaned_grant v c i g = Some g)"
      unfolding cleaned_grants by (metis bind.bind_lunit bind.bind_lzero not_None_eq)
    finally show ?thesis unfolding cleaned_grant_fix .
  qed
  have ids: "ffilter valid_id (ch_installed_ids c |\<union>| fmdom (ch_installed c)) = ch_installed_ids c
      \<longleftrightarrow> (\<forall>i. i |\<in>| ch_installed_ids c \<longrightarrow> valid_id i) \<and> (\<forall>i copy. fmlookup (ch_installed c) i = Some copy \<longrightarrow> valid_id i \<longrightarrow> i |\<in>| ch_installed_ids c)"
    by (auto simp: fset_eq_iff fmlookup_dom_iff)
  have "cleaned v c = c \<longleftrightarrow> ffilter valid_id (ch_enabled c) = ch_enabled c \<and> ffilter valid_id (ch_disabled c) = ch_disabled c
      \<and> fm_retain (valid_copy v) (ch_installed c) = ch_installed c
      \<and> ffilter valid_id (ch_installed_ids c |\<union>| fmdom (ch_installed c)) = ch_installed_ids c
      \<and> ffilter valid_id (ch_deleted c) = ch_deleted c \<and> ch_grants (cleaned v c) = ch_grants c
      \<and> ffilter valid_id (ch_files_left c) = ch_files_left c"
    by (cases c) (auto simp: cleaned_def)
  then show ?thesis
    unfolding grants ids ffilter_id fm_retain_id saveable_def funion_iff using valid_copy_id[of v] by blast
qed

lemma cleaned_saveable: "saveable v (cleaned v c)"
proof -
  have "valid_copy v i copy \<and> i |\<in>| ch_installed_ids (cleaned v c)" if "fmlookup (ch_installed (cleaned v c)) i = Some copy" for i copy
    using that valid_copy_id[of v i copy] by (auto simp: cleaned_def fmdomI split: option.splits if_splits)
  moreover have "\<exists>e. entry_of v i = Some e \<and> grant_matches v g e" if "fmlookup (ch_grants (cleaned v c)) i = Some g" for i g
    using that carried_over_Some by (auto simp: bind_eq_Some_conv cleaned_grant_def split: option.splits)
  ultimately show ?thesis unfolding saveable_def by (auto simp: cleaned_def)
qed

text \<open>
  C20. Saved choices load back: what \<open>save\<close> accepts \<open>load\<close> reads unchanged, as long as the file is
  not over the limit on entries; and whatever a file of any version holds, what is kept of
  it can be saved again, unchanged.
\<close>

theorem choices_load_back:
  "(store_save v len c = Inr f \<and> choices_count c \<le> 7 * MAX_IDS \<longrightarrow> store_load v (Some f) = Inr (Some c))
   \<and> (store_load v (Some f') = Inr (Some c') \<and> len (FileV3 c') \<le> MAX_FILE_BYTES \<longrightarrow> store_save v len c' = Inr (FileV3 c'))"
proof -
  have "store_load v (Some f) = Inr (Some c)" if "store_save v len c = Inr f" "choices_count c \<le> 7 * MAX_IDS"
    using that by (auto simp: store_save_def store_load_def Let_def split: if_splits)
  moreover have "store_save v len c' = Inr (FileV3 c')" if loaded: "store_load v (Some f') = Inr (Some c')" and len: "len (FileV3 c') \<le> MAX_FILE_BYTES"
  proof -
    obtain x where "c' = cleaned v x"
      using loaded by (cases f') (auto simp: store_load_def Let_def split: if_splits)
    then have "cleaned v c' = c'" using cleaned_saveable cleaned_id_iff by blast
    then show ?thesis using len by (simp add: store_save_def)
  qed
  ultimately show ?thesis by blast
qed

text \<open>An example: the DNS entry, on, with its consent.\<close>

definition example_env :: curated_env where
  "example_env = \<lparr> cv_lib = domain_regex, cv_entries = [example_entry], cv_groups = df_groups example_file,
     cv_fingerprint = (\<lambda>_. replicate 64 48) \<rparr>"

definition example_choices :: choices where
  "example_choices = grant_broad example_env DNS_ENTRY_ID True (choice_enable DNS_ENTRY_ID no_choices)"

lemma example_saveable: "cleaned example_env example_choices = example_choices"
  by code_simp

theorem choices_load_back_witness:
  "store_load example_env (Some (FileV3 example_choices)) = Inr (Some example_choices)"
proof -
  have "store_save example_env (\<lambda>_. 100) example_choices = Inr (FileV3 example_choices)"
    using example_saveable by (simp add: store_save_def MAX_FILE_BYTES_def)
  moreover have "choices_count example_choices \<le> 7 * MAX_IDS" by code_simp
  ultimately show ?thesis using choices_load_back by blast
qed

section \<open>Plans keep the choices fit to be saved\<close>

text \<open>What the check of the data file promises of the entries.\<close>

definition entries_ok :: "curated_env \<Rightarrow> bool" where
  "entries_ok v \<longleftrightarrow> distinct (map ce_id (cv_entries v)) \<and> (\<forall>e \<in> set (cv_entries v). valid_id (ce_id e))"

lemma check_entries_ok:
  "check_entries lib seen es = Inr () \<Longrightarrow> distinct (map ce_id es) \<and> (\<forall>e \<in> set es. valid_id (ce_id e) \<and> ce_id e \<notin> set seen)"
proof (induction es arbitrary: seen)
  case (Cons e es)
  then have "entry_check lib e = Inr ()" "ce_id e \<notin> set seen" "check_entries lib (ce_id e # seen) es = Inr ()"
    by (auto split: sum.splits if_splits)
  then show ?case using Cons.IH[of "ce_id e # seen"] by (auto simp: entry_check_def split: if_splits)
qed simp

lemma curated_entries_ok: "cv_entries v = curated_entries lib f \<Longrightarrow> entries_ok v"
  using check_entries_ok[of lib "[]" "df_entries f"]
  by (auto simp: entries_ok_def curated_entries_def parse_file_def split: sum.splits if_splits)

lemma entry_of_entries: "entries_ok v \<Longrightarrow> e \<in> set (cv_entries v) \<Longrightarrow> entry_of v (ce_id e) = Some e"
proof -
  have "distinct (map ce_id es) \<Longrightarrow> e \<in> set es \<Longrightarrow> find (\<lambda>x. ce_id x = ce_id e) es = Some e" for es
    by (induction es) (auto intro: rev_image_eqI)
  then show "entries_ok v \<Longrightarrow> e \<in> set (cv_entries v) \<Longrightarrow> entry_of v (ce_id e) = Some e"
    by (simp add: entries_ok_def entry_of_def)
qed

lemma sender_uid_as:
  assumes "ce_sender e = Some (Account name)" "uid \<le> U32_MAX"
  shows "sender_uid (to_rule (canonical lib (rule_as e (Some uid)))) = Some uid"
proof -
  let ?f = "\<lambda>leaf. to_operator (canonical_leaf_of lib leaf)"
  have "find (\<lambda>leaf. op_operand leaf = lit ''user.id'') (map ?f (build_leaves e (Some (decimal uid)))) = Some (uid_leaf uid)"
    by (auto simp: build_leaves_def curated_leaf_def uid_leaf_def split: option.split)
  moreover have "canonical_uid (decimal uid)" using assms(2) canonical_uid_iff by blast
  ultimately show ?thesis
    using assms parse_decimal[of U32_MAX uid]
    by (simp add: sender_uid_def to_rule_def canonical_def rule_as_def entry_build_def comp_def uid_leaf_def)
qed

lemma unedited_valid_copy:
  assumes "entries_ok v" "e \<in> set (cv_entries v)" "is_unedited (cv_lib v) (Some e) None r"
  shows "valid_copy v (ce_id e) (canon v r)"
proof -
  obtain ours where ours: "rule_matching e r = Some ours" "canon v r = canon v ours"
    using assms(3) by (auto simp: is_unedited_def Let_def split: option.splits)
  have "rule_matching e (to_rule (canon v ours)) = Some ours"
  proof (cases "\<exists>name. ce_sender e = Some (Account name)")
    case True
    then obtain name where name: "ce_sender e = Some (Account name)" by blast
    then obtain uid where uid: "sender_uid r = Some uid" "ours = rule_as e (Some uid)"
      using ours(1) by (auto simp: rule_matching_def)
    from sender_uid_bound[OF uid(1)] have "uid \<le> U32_MAX" .
    then show ?thesis using name uid(2) sender_uid_as by (simp add: rule_matching_def)
  next
    case False
    then show ?thesis using ours(1) by (auto simp: rule_matching_def split: option.splits curated_sender.splits)
  qed
  moreover have "cr_name (canon v ours) = curated_rule_name (ce_id e)"
    using ours(1) by (auto simp: rule_matching_def rule_as_def entry_rule_def entry_build_def canonical_def entry_name
        split: option.splits curated_sender.splits)
  ultimately show ?thesis
    using assms(1,2) entry_of_entries[OF assms(1,2)] ours(2) by (simp add: valid_copy_def entries_ok_def)
qed

lemma saveable_entry:
  assumes "entries_ok v" "e \<in> set (cv_entries v)" "saveable v next"
  shows "saveable v (fst (snd (plan_entry v e daemon c next)))"
proof -
  have valid: "valid_id (ce_id e)" using assms(1,2) by (simp add: entries_ok_def)
  have removed: "saveable v (choice_removed (ce_id e) next)"
    using assms(3) unfolding saveable_def choice_removed_def by auto
  have deleted: "saveable v (x\<lparr> ch_deleted := finsert (ce_id e) (ch_deleted x), ch_grants := fmdrop (ce_id e) (ch_grants x) \<rparr>)"
    if "saveable v x" for x
    using that valid unfolding saveable_def by auto
  have known: "saveable v (x\<lparr> ch_installed_ids := finsert (ce_id e) (ch_installed_ids x), ch_deleted := ch_deleted x |-| {|ce_id e|} \<rparr>)"
    if "saveable v x" for x
    using that valid unfolding saveable_def by auto
  have installed: "saveable v ((choice_installed v (ce_id e) r x)\<lparr> ch_deleted := ch_deleted x |-| {|ce_id e|} \<rparr>)"
    if "saveable v x" "is_unedited (cv_lib v) (Some e) None r" for x r
    using that valid unedited_valid_copy[OF assms(1,2) that(2)] unfolding saveable_def choice_installed_def by auto
  have same: "ch_deleted (choice_installed v i r x) = ch_deleted x" for i r x by (simp add: choice_installed_def)
  show ?thesis
  proof (cases "fmlookup (dr_rules daemon) (entry_rule_name e)")
    case None
    then show ?thesis using assms(3) removed deleted[OF removed] by (simp add: plan_entry_def plan_missing_def Let_def)
  next
    case (Some r)
    then show ?thesis
      using assms(3) known installed[OF assms(3), of r] by (simp add: plan_entry_def plan_legacy_def Let_def same)
  qed
qed

lemma saveable_entries:
  assumes "entries_ok v" "set es \<subseteq> set (cv_entries v)" "saveable v next"
  shows "saveable v (fst (plan_entries v daemon c es next sts))"
  using assms(2,3)
proof (induction es arbitrary: "next" sts)
  case (Cons e es)
  have "saveable v (fst (snd (plan_entry v e daemon c next)))"
    by (rule saveable_entry[OF assms(1)]) (use Cons.prems in auto)
  with Cons.IH[of "fst (snd (plan_entry v e daemon c next))"] Cons.prems show ?case
    by (simp add: case_prod_beta Let_def)
qed simp

text \<open>
  A plan keeps the choices fit to be saved: with the entries of a checked data file, the
  choices a pass leaves are ones that \<open>save\<close> accepts if those it started from were. So the
  bridge never turns itself off over choices it made.
\<close>

theorem plans_stay_saveable:
  assumes "cv_entries v = curated_entries lib f" "cleaned v c = c"
  shows "cleaned v (pl_choices (plan v daemon c)) = pl_choices (plan v daemon c)"
proof -
  have ok: "entries_ok v" by (rule curated_entries_ok[OF assms(1)])
  define n where "n = fst (plan_entries v daemon c (cv_entries v) c fmempty)"
  have n: "saveable v n" unfolding n_def by (rule saveable_entries[OF ok]) (use assms(2) cleaned_id_iff in auto)
  let ?offered = "\<lambda>i. list_ex (\<lambda>e. ce_id e = i) (cv_entries v)"
  have plan: "pl_choices (plan v daemon c) = n\<lparr>
      ch_installed := fm_retain (\<lambda>i copy. ?offered i \<or> cr_name copy |\<in>| fmdom (dr_rules daemon)) (ch_installed n),
      ch_installed_ids := ffilter (\<lambda>i. ?offered i \<or> curated_rule_name i |\<in>| fmdom (dr_rules daemon)) (ch_installed_ids n) \<rparr>"
    by (simp add: plan_def n_def Let_def case_prod_beta)
  have "cr_name copy = curated_rule_name i" if "fmlookup (ch_installed n) i = Some copy" for i copy
    using n that by (auto simp: saveable_def valid_copy_def)
  then have "saveable v (pl_choices (plan v daemon c))"
    using n unfolding plan saveable_def by (auto split: option.splits if_splits)
  then show ?thesis using cleaned_id_iff by blast
qed

theorem plans_stay_saveable_witness:
  "let d = \<lparr> dr_rules = fmempty, dr_left_out = {||}, dr_files_left = {||}, dr_maybe_applied = {||} \<rparr>
   in cleaned example_env (pl_choices (plan example_env d example_choices)) = pl_choices (plan example_env d example_choices)"
proof -
  have "cv_entries example_env = curated_entries domain_regex example_file" by code_simp
  from plans_stay_saveable[OF this example_saveable] show ?thesis unfolding Let_def .
qed

end
