(* ===== verification/Curated_Machine.thy ===== *)
theory Curated_Machine
  imports Curated_Worker Curated_Reconcile_Props Daemon_Machine
begin

text \<open>
  The manager of the shipped defaults as one machine: a GUI's requests, the parts of the
  worker's passes, the saves and the answers of the daemon, in any order. Everything else the
  bridge does with the daemon's streams is one step, \<open>elsewhere\<close>.
\<close>

section \<open>The machine\<close>

datatype manager_op =
  ChooseOp "rstr list" bool "rstr option" "nat option"
| AskRemovalOp rstr
| AskOrphanOp rstr
| PrepareOp "rstr option" instant rstr rstr intent_purpose "nat option" "nat option"
| CancelOp rstr rstr "nat option" "nat option"
| AcceptOp instant rstr rstr rstr rstr intent_purpose bool "nat option" "nat option"
| ToggleOp rstr bool
| DisconnectOp nat
| FlushOp
| AnnounceOp
| AccountsOp accounts
| UnknownListOp
| RecordsOp pass_list
| PlanOp daemon_rules nat found
| TakeOrphansOp nat
| RequeueOp "rstr list"
| RequeueOrphansOp "rstr list"
| InstallOp nat "64 word" rstr
| DeleteOp rstr rstr
| ApplyDoneOp nat nat waiting command_result
| UpgradeOp nat "64 word" rstr
| UpgradeDoneOp nat nat upgrading command_result
| RemoveOp daemon_rules rstr
| RemoveDoneOp nat nat rstr rstr command_result
| RemoveOrphanOp nat rstr
| RemoveOrphanDoneOp nat rstr command_result
| ReenableOp nat "64 word" rstr
| ReenableDoneOp nat rstr command_result
| UndoOp rstr

definition on_state :: "(manager_state \<Rightarrow> manager_state) \<Rightarrow> curated_defaults \<Rightarrow> curated_defaults" where
  "on_state f m = with_state (f (cd_state m)) m"

fun manager_run :: "curated_env \<Rightarrow> manager_op \<Rightarrow> curated_defaults \<Rightarrow> curated_defaults" where
  "manager_run v (ChooseOp ids on request_id reply) m = choose_legacy v ids on request_id reply m"
| "manager_run v (AskRemovalOp ident) m = ask_removal v ident m"
| "manager_run v (AskOrphanOp ident) m = ask_orphan_removal v ident m"
| "manager_run v (PrepareOp ticket now request_id ident purpose ctx reply) m =
     prepare_intent v ticket now request_id ident purpose ctx reply m"
| "manager_run v (CancelOp request_id ident ctx reply) m = cancel_intent request_id ident ctx reply m"
| "manager_run v (AcceptOp now request_id ident ticket consent purpose keeping ctx reply) m =
     accept_intent v now request_id ident ticket consent purpose keeping ctx reply m"
| "manager_run v (ToggleOp name enabled) m = (case send_managed_toggle v name enabled m of Some (_, m') \<Rightarrow> m' | None \<Rightarrow> m)"
| "manager_run v (DisconnectOp k) m = m\<lparr> cd_contexts := (cd_contexts m)(k := intent_kill (cd_contexts m k)) \<rparr>"
| "manager_run v FlushOp m = flush_request_results m"
| "manager_run v AnnounceOp m = announce_changed v m"
| "manager_run v (AccountsOp a) m = m\<lparr> cd_accounts := a \<rparr>"
| "manager_run v UnknownListOp m = on_state clear_removals m"
| "manager_run v (RecordsOp l) m = fst (pass_records l m)"
| "manager_run v (PlanOp daemon generation f) m = on_state (\<lambda>s. fst (pass_plan v daemon generation f s)) m"
| "manager_run v (TakeOrphansOp generation) m = on_state (\<lambda>s. fst (take_orphan_removals generation s)) m"
| "manager_run v (RequeueOp ids) m = on_state (requeue_removals ids) m"
| "manager_run v (RequeueOrphansOp ids) m = on_state (requeue_orphans ids) m"
| "manager_run v (InstallOp generation revision ident) m = fst (install_send v generation revision ident m)"
| "manager_run v (DeleteOp ident name) m = fst (delete_send v ident name m)"
| "manager_run v (ApplyDoneOp generation epoch w oc) m = apply_finish v generation epoch w oc m"
| "manager_run v (UpgradeOp generation revision ident) m = fst (upgrade_send v generation revision ident m)"
| "manager_run v (UpgradeDoneOp generation epoch u oc) m = upgrade_finish v generation epoch u oc m"
| "manager_run v (RemoveOp daemon ident) m = fst (remove_send v daemon ident m)"
| "manager_run v (RemoveDoneOp generation epoch ident name oc) m = remove_finish v generation epoch ident name oc m"
| "manager_run v (RemoveOrphanOp generation ident) m = fst (remove_orphan_send v generation ident m)"
| "manager_run v (RemoveOrphanDoneOp generation ident oc) m = on_state (remove_orphan_finish generation ident oc) m"
| "manager_run v (ReenableOp generation revision ident) m = fst (reenable_send v generation revision ident m)"
| "manager_run v (ReenableDoneOp generation ident oc) m = on_state (reenable_finish v generation ident oc) m"
| "manager_run v (UndoOp ident) m = fst (reenable_undo v ident m)"

record manager_world =
  mw_defaults :: curated_defaults
  mw_jobs :: "save_job list"
  mw_ends :: "(rstr + nat) list"

inductive manager_step :: "curated_env \<Rightarrow> (saved_file \<Rightarrow> nat) \<Rightarrow> manager_world \<Rightarrow> manager_world \<Rightarrow> bool" for v len where
  ran: "manager_step v len w (w\<lparr> mw_defaults := manager_run v op (mw_defaults w) \<rparr>)"
| save_begun: "save_job_of (cd_state (mw_defaults w)) = Some job \<Longrightarrow>
     manager_step v len w (w\<lparr> mw_jobs := mw_jobs w @ [job] \<rparr>)"
| save_ran: "job \<in> set (mw_jobs w) \<Longrightarrow> save_in_order v len io job (mw_defaults w) = (m, oc) \<Longrightarrow>
     manager_step v len w (w\<lparr> mw_defaults := m, mw_ends := mw_ends w @ [oc] \<rparr>)"
| save_ended: "oc \<in> set (mw_ends w) \<Longrightarrow> manager_step v len w (w\<lparr> mw_defaults := on_state (saved oc) (mw_defaults w) \<rparr>)"
| made_unavailable: "manager_step v len w (w\<lparr> mw_defaults := set_unavailable reason (mw_defaults w) \<rparr>)"
| elsewhere: "list_inv (cache_of d) \<Longrightarrow> manager_step v len w (w\<lparr> mw_defaults := (mw_defaults w)\<lparr> cd_commands := d \<rparr> \<rparr>)"

definition manager_start :: "curated_env \<Rightarrow> daemon_commands \<Rightarrow> saved_file option \<Rightarrow> storage_status \<Rightarrow> bool \<Rightarrow> bool \<Rightarrow> rstr option \<Rightarrow> manager_world" where
  "manager_start v d file status has_directory system_bridge unreadable =
     \<lparr> mw_defaults = configure_curated v status has_directory system_bridge unreadable (new_defaults d file),
       mw_jobs = [], mw_ends = [] \<rparr>"

definition manager_reaches :: "curated_env \<Rightarrow> (saved_file \<Rightarrow> nat) \<Rightarrow> manager_world \<Rightarrow> bool" where
  "manager_reaches v len w \<longleftrightarrow>
     (\<exists>d file status has_directory system_bridge unreadable. list_inv (cache_of d)
        \<and> (manager_step v len)\<^sup>*\<^sup>* (manager_start v d file status has_directory system_bridge unreadable) w)"

end
