(* ===== verification/Curated_Machine_Props.thy ===== *)
theory Curated_Machine_Props
  imports Curated_Machine
begin

text \<open>
  What the manager of the shipped defaults guarantees, whatever the order of requests,
  passes, saves and answers: consent is given by a ticket only, a rule that may reach any
  address is sent under saved consent only, and an inert bridge adds nothing.
\<close>

section \<open>What the operations do to the choices\<close>

text \<open>
  \<open>calm s s'\<close>: the choices changed only with their version, no consent was added, and what is
  saved and where stayed as it was.
\<close>

definition fewer_grants :: "choices \<Rightarrow> choices \<Rightarrow> bool" where
  "fewer_grants c c' \<longleftrightarrow> (\<forall>i g. fmlookup (ch_grants c') i = Some g \<longrightarrow> fmlookup (ch_grants c) i = Some g)"

definition versioned :: "manager_state \<Rightarrow> manager_state \<Rightarrow> bool" where
  "versioned s s' \<longleftrightarrow>
     (ms_version s' = ms_version s \<and> ms_choices s' = ms_choices s \<or> ms_version s < ms_version s')
     \<and> ms_saved s' = ms_saved s \<and> ms_storage s' = ms_storage s \<and> ms_inert s' = ms_inert s"

definition calm :: "manager_state \<Rightarrow> manager_state \<Rightarrow> bool" where
  "calm s s' \<longleftrightarrow> versioned s s' \<and> fewer_grants (ms_choices s) (ms_choices s')"

lemma fewer_refl [simp, intro]: "fewer_grants c c"
  by (simp add: fewer_grants_def)

lemma fewer_trans: "fewer_grants a b \<Longrightarrow> fewer_grants b c \<Longrightarrow> fewer_grants a c"
  by (simp add: fewer_grants_def)

lemma calm_refl [simp, intro]: "calm s s"
  by (simp add: calm_def versioned_def)

lemma versioned_trans: "versioned a b \<Longrightarrow> versioned b c \<Longrightarrow> versioned a c"
  by (auto simp: versioned_def)

lemma calm_trans [trans]: "calm a b \<Longrightarrow> calm b c \<Longrightarrow> calm a c"
  unfolding calm_def using fewer_trans versioned_trans by blast

lemma calm_frame [simp]:
  "calm s (s'\<lparr> ms_broad_revision := a1 \<rparr>) = calm s s'" "calm s (s'\<lparr> ms_consent_problems := a2 \<rparr>) = calm s s'"
  "calm s (s'\<lparr> ms_reenables := a3 \<rparr>) = calm s s'" "calm s (s'\<lparr> ms_request_results := a4 \<rparr>) = calm s s'"
  "calm s (s'\<lparr> ms_statuses := a5 \<rparr>) = calm s s'" "calm s (s'\<lparr> ms_problems := a6 \<rparr>) = calm s s'"
  "calm s (s'\<lparr> ms_failures := a7 \<rparr>) = calm s s'" "calm s (s'\<lparr> ms_removal_failures := a8 \<rparr>) = calm s s'"
  "calm s (s'\<lparr> ms_removals := a9 \<rparr>) = calm s s'" "calm s (s'\<lparr> ms_orphan_removals := b1 \<rparr>) = calm s s'"
  "calm s (s'\<lparr> ms_orphan_failures := b2 \<rparr>) = calm s s'" "calm s (s'\<lparr> ms_maybe_applied := b3 \<rparr>) = calm s s'"
  "calm s (s'\<lparr> ms_install_refusals := b4 \<rparr>) = calm s s'" "calm s (s'\<lparr> ms_withheld := b5 \<rparr>) = calm s s'"
  "calm s (s'\<lparr> ms_found := b6 \<rparr>) = calm s s'" "calm s (s'\<lparr> ms_moved := b7 \<rparr>) = calm s s'"
  "calm s (s'\<lparr> ms_repinned := b8 \<rparr>) = calm s s'" "calm s (s'\<lparr> ms_requests := b9 \<rparr>) = calm s s'"
  by (simp_all add: calm_def versioned_def)

lemma calm_status [simp]:
  "calm s (set_status i st s') = calm s s'" "calm s (set_problem i text s') = calm s s'"
  "calm s (forget_failure i s') = calm s s'" "calm s (show_failure i f s') = calm s s'"
  by (simp_all add: set_status_def set_problem_def forget_failure_def show_failure_def)

lemma calm_keep: "calm s s' \<Longrightarrow> fewer_grants (ms_choices s') c \<Longrightarrow> calm s (keep c s')"
  using fewer_trans[of "ms_choices s" "ms_choices s'" c] by (auto simp: calm_def versioned_def keep_def)

lemma fewer_choices [simp]:
  "fewer_grants c (revoke_broad i c)" "fewer_grants c (choice_enable i c)" "fewer_grants c (choice_disable i c)"
  "fewer_grants c (choice_installed v i r c)" "fewer_grants c (choice_removed i c)"
  "fewer_grants c (file_left i c')  = fewer_grants c c'" "fewer_grants c (file_gone i c') = fewer_grants c c'"
  "fewer_grants c (user_removed i c)"
  by (auto simp: fewer_grants_def revoke_broad_def choice_enable_def choice_disable_def choice_installed_def choice_removed_def
      file_left_def file_gone_def user_removed_def Let_def)

lemma calm_revoke: "calm s s' \<Longrightarrow> calm s (revoke_locked v i s')"
  by (auto simp: revoke_locked_def intro!: calm_keep)

lemma calm_tracked: "calm s s' \<Longrightarrow> calm s (fst (track_maybe_applied name install oc marked epoch s'))"
  by (simp add: track_maybe_applied_def Let_def)

lemma calm_fail: "calm s s' \<Longrightarrow> calm s (fail removal i st p generation s')"
  by (simp add: fail_def Let_def)

lemma calm_deleted: "calm s s' \<Longrightarrow> calm s (fst (deleted i was_refused b marked dropped s'))"
  by (auto simp: deleted_def Let_def intro!: calm_keep)

lemma calm_fold: "(\<And>x s'. calm s s' \<Longrightarrow> calm s (f x s')) \<Longrightarrow> calm s s' \<Longrightarrow> calm s (fold f xs s')"
  by (induction xs arbitrary: s') auto

lemmas calm_intros = calm_keep calm_revoke calm_tracked calm_fail calm_deleted calm_fold

section \<open>Plans add no consent\<close>

lemma fewer_plan_entry: "fewer_grants c next \<Longrightarrow> fewer_grants c (fst (snd (plan_entry v e daemon cc next)))"
  by (auto simp: plan_defs fewer_grants_def choice_removed_def choice_installed_def split: option.split)

lemma fewer_plan_entries: "fewer_grants c next \<Longrightarrow> fewer_grants c (fst (plan_entries v daemon cc es next sts))"
proof (induction es arbitrary: "next" sts)
  case (Cons e es)
  from Cons.IH[OF fewer_plan_entry[OF Cons.prems]] show ?case by (simp add: case_prod_beta Let_def)
qed simp

lemma fewer_plan: "fewer_grants c (pl_choices (plan v daemon c))"
  using fewer_plan_entries[of c c v daemon c "cv_entries v" fmempty]
  by (simp add: plan_def Let_def case_prod_beta fewer_grants_def)

lemma calm_handle_moved: "calm s s' \<Longrightarrow> calm s (fst (handle_moved v mv rules s'))"
proof -
  have one: "calm s (fst (handle_moved_entry v rules i x))" if "calm s (fst x)" for i x
    using that by (cases x) (auto simp: handle_moved_entry_def Let_def undecided_def split: option.split)
  have "calm s (fst (fold (handle_moved_entry v rules) ids x))" if "calm s (fst x)" for ids x
    using that one by (induction ids arbitrary: x) auto
  then show "calm s s' \<Longrightarrow> calm s (fst (handle_moved v mv rules s'))" by (simp add: handle_moved_def)
qed

lemma calm_keep_unfailed: "calm s s' \<Longrightarrow> calm s (fst (keep_unfailed as s'))"
  by (induction as s' rule: keep_unfailed.induct) (auto simp: case_prod_beta Let_def split: option.split)

lemma calm_pass_plan: "calm s (fst (pass_plan v daemon generation f s))"
proof (cases "ms_inert s")
  case (Some reason)
  then show ?thesis by (simp add: pass_plan_def Let_def)
next
  case None
  define s1 where "s1 = keep (pl_choices (plan v daemon (ms_choices s)))
      (s\<lparr> ms_problems := fmempty, ms_statuses := pl_statuses (plan v daemon (ms_choices s)) \<rparr>)"
  define s2 where "s2 = s1\<lparr> ms_install_refusals :=
      fm_retain (\<lambda>i x. i |\<notin>| ch_enabled (ms_choices s1) \<and> snd x = generation) (ms_install_refusals s1),
      ms_repinned := fm_retain (\<lambda>_ seen. seen = generation) (ms_repinned s1) \<rparr>"
  define moves where "moves = handle_moved v (moved v f (dr_rules daemon)) (dr_rules daemon) s2"
  define failed where "failed = without_failed (pl_actions (plan v daemon (ms_choices s)) @ snd moves) generation (fst moves)"
  define s3 where "s3 = show_removal_failures v daemon generation (fst failed)"
  define held where "held = withhold (snd failed) (withheld v f) f s3"
  have eq: "fst (pass_plan v daemon generation f s) = (fst held)\<lparr> ms_removals := {||}, ms_reenables := fmempty \<rparr>"
    using None by (simp add: pass_plan_def Let_def case_prod_beta held_def s3_def failed_def moves_def s2_def s1_def)
  have "calm s s1" unfolding s1_def by (rule calm_keep) (simp_all add: fewer_plan)
  then have "calm s s2" by (simp add: s2_def)
  then have "calm s (fst moves)" unfolding moves_def by (rule calm_handle_moved)
  then have "calm s (fst failed)" unfolding failed_def without_failed_def by (intro calm_keep_unfailed) simp
  then have "calm s s3" unfolding s3_def show_removal_failures_def Let_def by (intro calm_fold) simp_all
  then have "calm s (fst held)"
    unfolding held_def withhold_def by (auto simp: withhold_entry_def Let_def intro!: calm_fold)
  then show ?thesis by (simp add: eq)
qed

lemma calm_choose_one: "calm s s' \<Longrightarrow> calm s (fst (choose_one v on i s'))"
  by (auto simp: choose_one_def Let_def split: option.split intro!: calm_intros)

lemma calm_choose_each: "calm s s' \<Longrightarrow> calm s (fst (choose_each v on seen ids s'))"
  by (induction ids arbitrary: seen s') (auto simp: case_prod_beta Let_def calm_choose_one)

section \<open>What each step leaves alone\<close>

lemma send_private_frame [simp]:
  "cd_state (send_private reply r rs m) = cd_state m" "cd_file (send_private reply r rs m) = cd_file m"
  "cd_written (send_private reply r rs m) = cd_written m" "cd_commands (send_private reply r rs m) = cd_commands m"
  "cd_contexts (send_private reply r rs m) = cd_contexts m"
  by (simp_all add: send_private_def split: option.split)

lemma announce_frame [simp]:
  "cd_state (announce_changed v m) = cd_state m" "cd_file (announce_changed v m) = cd_file m"
  "cd_written (announce_changed v m) = cd_written m" "cd_commands (announce_changed v m) = cd_commands m"
  "cd_contexts (announce_changed v m) = cd_contexts m"
  by (simp_all add: announce_changed_def announce_def)

lemma attempted_frame [simp]:
  "cd_state (fst (attempted m sent x)) = cd_state m" "cd_file (fst (attempted m sent x)) = cd_file m"
  "cd_written (fst (attempted m sent x)) = cd_written m" "cd_contexts (fst (attempted m sent x)) = cd_contexts m"
  by (simp_all add: attempted_def split: option.split prod.split)

lemma forget_mark_frame [simp]:
  "cd_state (forget_mark name m) = cd_state m" "cd_file (forget_mark name m) = cd_file m"
  "cd_written (forget_mark name m) = cd_written m" "cd_contexts (forget_mark name m) = cd_contexts m"
  by (simp_all add: forget_mark_def Let_def)

lemma forget_marks_frame [simp]:
  "cd_state (fold forget_mark names m) = cd_state m" "cd_file (fold forget_mark names m) = cd_file m"
  "cd_written (fold forget_mark names m) = cd_written m" "cd_contexts (fold forget_mark names m) = cd_contexts m"
  by (induction names arbitrary: m) simp_all

lemma send_frame [simp]:
  "cd_state (fst (install_send v generation revision i m)) = cd_state m"
  "cd_state (fst (delete_send v i name m)) = cd_state m"
  "cd_state (fst (upgrade_send v generation revision i m)) = cd_state m"
  "cd_state (fst (remove_send v daemon i m)) = cd_state m"
  "cd_state (fst (remove_orphan_send v generation i m)) = cd_state m"
  "cd_state (fst (reenable_send v generation revision i m)) = cd_state m"
  "cd_state (fst (reenable_undo v i m)) = cd_state m"
  by (simp_all add: install_send_def delete_send_def upgrade_send_def remove_send_def remove_orphan_send_def reenable_send_def
      reenable_undo_def Let_def split: option.split)

lemma send_file_frame [simp]:
  "cd_file (fst (install_send v generation revision i m)) = cd_file m \<and> cd_written (fst (install_send v generation revision i m)) = cd_written m"
  "cd_file (fst (delete_send v i name m)) = cd_file m \<and> cd_written (fst (delete_send v i name m)) = cd_written m"
  "cd_file (fst (upgrade_send v generation revision i m)) = cd_file m \<and> cd_written (fst (upgrade_send v generation revision i m)) = cd_written m"
  "cd_file (fst (remove_send v daemon i m)) = cd_file m \<and> cd_written (fst (remove_send v daemon i m)) = cd_written m"
  "cd_file (fst (remove_orphan_send v generation i m)) = cd_file m \<and> cd_written (fst (remove_orphan_send v generation i m)) = cd_written m"
  "cd_file (fst (reenable_send v generation revision i m)) = cd_file m \<and> cd_written (fst (reenable_send v generation revision i m)) = cd_written m"
  "cd_file (fst (reenable_undo v i m)) = cd_file m \<and> cd_written (fst (reenable_undo v i m)) = cd_written m"
  by (simp_all add: install_send_def delete_send_def upgrade_send_def remove_send_def remove_orphan_send_def reenable_send_def
      reenable_undo_def Let_def split: option.split)

lemma flush_frame [simp]:
  "cd_file (flush_request_results m) = cd_file m" "cd_written (flush_request_results m) = cd_written m"
  "cd_commands (flush_request_results m) = cd_commands m" "cd_contexts (flush_request_results m) = cd_contexts m"
  "calm s (cd_state (flush_request_results m)) = calm s (cd_state m)"
proof -
  have fold: "cd_file (fold (\<lambda>request. send_private (f request) (g request) (h request)) rs m') = cd_file m'
    \<and> cd_written (fold (\<lambda>request. send_private (f request) (g request) (h request)) rs m') = cd_written m'
    \<and> cd_commands (fold (\<lambda>request. send_private (f request) (g request) (h request)) rs m') = cd_commands m'
    \<and> cd_contexts (fold (\<lambda>request. send_private (f request) (g request) (h request)) rs m') = cd_contexts m'
    \<and> cd_state (fold (\<lambda>request. send_private (f request) (g request) (h request)) rs m') = cd_state m'" for f g h m' and rs :: "pending_result list"
    by (induction rs arbitrary: m') simp_all
  show "cd_file (flush_request_results m) = cd_file m" "cd_written (flush_request_results m) = cd_written m"
    "cd_commands (flush_request_results m) = cd_commands m" "cd_contexts (flush_request_results m) = cd_contexts m"
    "calm s (cd_state (flush_request_results m)) = calm s (cd_state m)"
    by (simp_all add: flush_request_results_def Let_def fold)
qed

lemma calm_turned_off: "calm s s' \<Longrightarrow> calm s (turned_off_again v i generation s')"
  by (auto simp: turned_off_again_def Let_def intro!: calm_intros)

lemma calm_apply_finish: "calm (cd_state m) (cd_state (apply_finish v generation epoch w oc m))"
  by (cases oc; cases "wg_done w")
     (auto simp: apply_finish_def Let_def case_prod_beta calm_fail calm_turned_off calm_tracked calm_deleted intro!: calm_keep)

lemma calm_upgrade_finish: "calm (cd_state m) (cd_state (upgrade_finish v generation epoch u oc m))"
  by (auto simp: upgrade_finish_def Let_def calm_fail calm_turned_off calm_tracked intro!: calm_keep split: sum.split option.split)

lemma calm_removal_done: "calm s s' \<Longrightarrow> fewer_grants (ms_choices s') c \<Longrightarrow> calm s (removal_done i c off s')"
  by (simp add: removal_done_def Let_def calm_keep)

lemma calm_remove_finish: "calm (cd_state m) (cd_state (remove_finish v generation epoch i name oc m))"
  by (auto simp: remove_finish_def Let_def calm_tracked calm_revoke intro!: calm_fail calm_removal_done split: sum.split)

lemma finish_frame [simp]:
  "cd_file (apply_finish v generation epoch w oc m) = cd_file m" "cd_written (apply_finish v generation epoch w oc m) = cd_written m"
  "cd_file (upgrade_finish v generation epoch u oc m) = cd_file m" "cd_written (upgrade_finish v generation epoch u oc m) = cd_written m"
  "cd_file (remove_finish v generation epoch i name oc m) = cd_file m" "cd_written (remove_finish v generation epoch i name oc m) = cd_written m"
  by (simp_all add: apply_finish_def upgrade_finish_def remove_finish_def Let_def case_prod_beta)

lemma request_frame [simp]:
  "cd_file (choose_legacy v ids on request_opt reply m) = cd_file m" "cd_written (choose_legacy v ids on request_opt reply m) = cd_written m"
  "cd_file (prepare_intent v ticket now request_id i purpose ctx reply m) = cd_file m"
  "cd_written (prepare_intent v ticket now request_id i purpose ctx reply m) = cd_written m"
  "cd_state (prepare_intent v ticket now request_id i purpose ctx reply m) = cd_state m"
  "cd_file (cancel_intent request_id i ctx reply m) = cd_file m" "cd_written (cancel_intent request_id i ctx reply m) = cd_written m"
  "cd_state (cancel_intent request_id i ctx reply m) = cd_state m"
  "cd_file (accept_intent v now request_id i ticket' consent purpose keeping ctx reply m) = cd_file m"
  "cd_written (accept_intent v now request_id i ticket' consent purpose keeping ctx reply m) = cd_written m"
  by (simp_all add: choose_legacy_def prepare_intent_def cancel_intent_def accept_intent_def Let_def case_prod_beta split: option.split sum.split)

lemma asked_frame [simp]:
  "cd_file (ask_removal v i m) = cd_file m" "cd_written (ask_removal v i m) = cd_written m"
  "cd_file (ask_orphan_removal v i m) = cd_file m" "cd_written (ask_orphan_removal v i m) = cd_written m"
  "cd_file (on_state f m) = cd_file m" "cd_written (on_state f m) = cd_written m"
  "cd_file (fst (pass_records l m)) = cd_file m" "cd_written (fst (pass_records l m)) = cd_written m"
  by (simp_all add: ask_removal_def ask_orphan_removal_def on_state_def pass_records_def Let_def)

lemma toggle_cases:
  assumes "send_managed_toggle v name enabled m = Some (res, m')"
  obtains "m' = m" | s d where "m' = m\<lparr> cd_state := s, cd_commands := d \<rparr>" "calm (cd_state m) s" "\<not> is_inert m"
    "send_curated_toggle (cv_lib v) (cv_entries v) name enabled (cd_commands m) = Some (res, d)"
proof -
  define send where "send s = map_option (\<lambda>(r, d). (r, m\<lparr> cd_state := s, cd_commands := d \<rparr>))
      (send_curated_toggle (cv_lib v) (cv_entries v) name enabled (cd_commands m))" for s
  have "m' = m \<or> \<not> is_inert m \<and> (\<exists>s. calm (cd_state m) s \<and> send s = Some (res, m'))"
  proof (cases "is_inert m")
    case False
    note unfolded = assms[unfolded send_managed_toggle_def Let_def, folded send_def]
    show ?thesis
    proof (cases "entry_for_rule_name (cv_entries v) name")
      case None
      then show ?thesis using unfolded False by (auto intro: exI[of _ "cd_state m"])
    next
      case (Some e)
      have revoked: "calm (cd_state m) ((revoke_locked v (ce_id e) (cd_state m))\<lparr>
          ms_requests := ms_requests (revoke_locked v (ce_id e) (cd_state m)) + 1 \<rparr>)" by (simp add: calm_revoke)
      show ?thesis using unfolded False Some revoked by (fastforce split: if_splits)
    qed
  qed (use assms in \<open>simp add: send_managed_toggle_def Let_def\<close>)
  then show thesis using that by (auto simp: send_def)
qed

lemma run_file [simp]: "cd_file (manager_run v op m) = cd_file m" "cd_written (manager_run v op m) = cd_written m"
proof -
  have "cd_file m' = cd_file m \<and> cd_written m' = cd_written m" if "send_managed_toggle v name enabled m = Some (res, m')" for name enabled res m'
    using that by (cases rule: toggle_cases) auto
  then show "cd_file (manager_run v op m) = cd_file m" "cd_written (manager_run v op m) = cd_written m"
    by (cases op; auto split: option.split)+
qed

lemma on_state_state [simp]: "cd_state (on_state f m) = f (cd_state m)"
  by (simp add: on_state_def)

lemma calm_run:
  assumes "\<And>now r i t c p k x y. op \<noteq> AcceptOp now r i t c p k x y"
  shows "calm (cd_state m) (cd_state (manager_run v op m))"
proof (cases op)
  case (ChooseOp ids on request_id reply)
  then show ?thesis
    by (auto simp: choose_legacy_def Let_def case_prod_beta calm_choose_each split: option.split)
next
  case (ToggleOp name enabled)
  have "calm (cd_state m) (cd_state m')" if "send_managed_toggle v name enabled m = Some (res, m')" for res m'
    using that by (cases rule: toggle_cases) auto
  then show ?thesis using ToggleOp by (auto split: option.split)
next
  case (ApplyDoneOp generation epoch w oc)
  then show ?thesis by (simp add: calm_apply_finish)
next
  case (UpgradeDoneOp generation epoch u oc)
  then show ?thesis by (simp add: calm_upgrade_finish)
next
  case (RemoveDoneOp generation epoch i name oc)
  then show ?thesis by (simp add: calm_remove_finish)
qed (use assms in \<open>auto simp: ask_removal_def ask_orphan_removal_def pass_records_def clear_removals_def take_orphan_removals_def
    requeue_removals_def requeue_orphans_def remove_orphan_finish_def reenable_finish_def Let_def calm_pass_plan
    intro!: calm_revoke calm_fail split: option.split sum.split\<close>)

section \<open>Saved choices\<close>

definition on_disk :: "curated_env \<Rightarrow> saved_file option \<Rightarrow> choices \<Rightarrow> bool" where
  "on_disk v file c \<longleftrightarrow>
     file = Some (FileV3 c) \<or> store_load v file = Inr (Some c) \<or> (store_load v file = Inr None \<and> c = no_choices)"

definition active :: "manager_state \<Rightarrow> bool" where
  "active s \<longleftrightarrow> ms_inert s = None \<and> st_persistent (ms_storage s)"

text \<open>
  A version names one set of choices, nothing is counted as saved before it is written, and
  when the last version is written the file holds the choices.
\<close>

definition save_inv :: "curated_env \<Rightarrow> manager_world \<Rightarrow> bool" where
  "save_inv v w \<longleftrightarrow>
     (let m = mw_defaults w; s = cd_state m
      in ms_saved s \<le> cd_written m \<and> cd_written m \<le> ms_version s
         \<and> (active s \<and> cd_written m = ms_version s \<longrightarrow> on_disk v (cd_file m) (ms_choices s))
         \<and> (\<forall>job \<in> set (mw_jobs w). sj_version job \<le> ms_version s \<and> (sj_version job = ms_version s \<longrightarrow> sj_choices job = ms_choices s))
         \<and> (\<forall>n. Inr n \<in> set (mw_ends w) \<longrightarrow> n \<le> cd_written m))"

lemma take_consent_versioned:
  assumes "take_consent v e i purpose replying cache s = Inr s'"
  shows "versioned s s'"
proof -
  have kept: "versioned s ((keep c s)\<lparr> ms_requests := x1, ms_failures := x2, ms_consent_problems := x3, ms_reenables := x4 \<rparr>)"
    for c x1 x2 x3 x4 by (simp add: versioned_def keep_def)
  have kept': "versioned s ((keep c s)\<lparr> ms_requests := x1, ms_failures := x2, ms_consent_problems := x3 \<rparr>)"
    for c x1 x2 x3 by (simp add: versioned_def keep_def)
  obtain rules where rules: "rc_rules cache = Some rules"
    using assms by (auto simp: take_consent_def split: if_splits option.splits)
  obtain activation where activation: "intent_activation purpose (fmlookup rules (entry_rule_name e)) = Inr activation"
    using assms rules by (auto simp: take_consent_def Let_def split: if_splits sum.splits)
  show ?thesis
    using assms rules activation kept kept' by (auto simp: take_consent_def Let_def forget_failure_def split: if_splits)
qed

lemma accept_ticket_versioned: "snd (accept_ticket v now r i t c p k rep cache s x) = Inr s' \<Longrightarrow> versioned s s'"
  using take_consent_versioned[of v _ i p rep cache s s']
  by (auto simp: accept_ticket_def intent_consume_def intent_admit_def split: sum.splits if_splits option.splits)

lemma accept_state:
  "cd_state (accept_intent v now r i t c p k ctx reply m) =
     (case ctx of
        None \<Rightarrow> cd_state m
      | Some n \<Rightarrow>
          (case snd (accept_ticket v now r i t c p k (reply \<noteq> None) (cache_of (cd_commands m)) (cd_state m) (cd_contexts m n)) of
             Inl _ \<Rightarrow> cd_state m
           | Inr s \<Rightarrow> (case reply of None \<Rightarrow> s
               | Some q \<Rightarrow> s\<lparr> ms_request_results := ms_request_results s @
                   [\<lparr> pr_reply = q, pr_request_id = Some r, pr_results = [accepted_result i], pr_version = ms_version s,
                      pr_authority_revision = Some (ms_broad_revision s), pr_grant = fmlookup (ch_grants (ms_choices s)) i \<rparr>] \<rparr>)))"
  by (simp add: accept_intent_def Let_def case_prod_beta split: option.split sum.split)

lemma versioned_run: "versioned (cd_state m) (cd_state (manager_run v op m))"
proof (cases op)
  case (AcceptOp now r i t c p k ctx reply)
  have refl: "versioned (cd_state m) (cd_state m)" by (simp add: versioned_def)
  have "versioned (cd_state m) s'"
    if "snd (accept_ticket v now r i t c p k (reply \<noteq> None) (cache_of (cd_commands m)) (cd_state m) (cd_contexts m n)) = Inr s'" for n s'
    by (rule accept_ticket_versioned[OF that])
  moreover have "versioned s (s'\<lparr> ms_request_results := x \<rparr>) = versioned s s'" for s s' x by (simp add: versioned_def)
  ultimately show ?thesis using AcceptOp refl by (auto simp: accept_state split: option.split sum.split)
qed (use calm_run[of op m v] in \<open>auto simp: calm_def simp del: manager_run.simps\<close>)

lemma store_save_file: "store_save v len c = Inr f \<Longrightarrow> f = FileV3 c"
  by (auto simp: store_save_def split: if_splits)

lemma save_inv_start: "save_inv v (manager_start v d file status has_directory system_bridge unreadable)"
  by (auto simp: save_inv_def manager_start_def configure_curated_def set_storage_def attach_file_def set_unavailable_def
      new_defaults_def new_manager_state_def active_def on_disk_def Let_def split: option.split sum.split)

lemma save_inv_versioned:
  assumes "save_inv v w" "versioned (cd_state (mw_defaults w)) (cd_state m)" "cd_file m = cd_file (mw_defaults w)"
    "cd_written m = cd_written (mw_defaults w)"
  shows "save_inv v (w\<lparr> mw_defaults := m \<rparr>)"
  using assms by (fastforce simp: save_inv_def Let_def versioned_def active_def)

lemma save_inv_ran:
  assumes "save_inv v w" "job \<in> set (mw_jobs w)" "save_in_order v len io job (mw_defaults w) = (m, oc)"
  shows "save_inv v (w\<lparr> mw_defaults := m, mw_ends := mw_ends w @ [oc] \<rparr>)"
proof (cases "sj_version job \<le> cd_written (mw_defaults w)")
  case True
  then show ?thesis using assms by (auto simp: save_in_order_def save_inv_def Let_def)
next
  case False
  show ?thesis
  proof (cases "store_save v len (sj_choices job)")
    case (Inl e)
    then show ?thesis using assms False by (auto simp: save_in_order_def save_inv_def Let_def)
  next
    case (Inr f)
    have "f = FileV3 (sj_choices job)" by (rule store_save_file[OF Inr])
    then show ?thesis
      using assms False Inr by (cases io) (auto simp: save_in_order_def save_inv_def Let_def on_disk_def dest: bspec)
  qed
qed

lemma save_inv_step: "manager_step v len w w' \<Longrightarrow> save_inv v w \<Longrightarrow> save_inv v w'"
proof (induction rule: manager_step.induct)
  case (ran w op)
  then show ?case by (intro save_inv_versioned) (simp_all add: versioned_run del: manager_run.simps)
next
  case (save_begun w job)
  then show ?case by (auto simp: save_inv_def save_job_of_def Let_def split: if_splits)
next
  case (save_ran job w io m oc)
  then show ?case by (intro save_inv_ran)
next
  case (save_ended oc w)
  then show ?case by (auto simp: save_inv_def saved_def Let_def active_def split: sum.split)
next
  case (made_unavailable w reason)
  then show ?case by (auto simp: save_inv_def set_unavailable_def Let_def active_def)
next
  case (elsewhere d w)
  then show ?case by (intro save_inv_versioned) (simp_all add: versioned_def)
qed

lemma save_inv_reaches: "manager_reaches v len w \<Longrightarrow> save_inv v w"
proof -
  have "(manager_step v len)\<^sup>*\<^sup>* a b \<Longrightarrow> save_inv v a \<Longrightarrow> save_inv v b" for a b
    by (induction rule: rtranclp_induct) (auto intro: save_inv_step)
  then show "manager_reaches v len w \<Longrightarrow> save_inv v w" unfolding manager_reaches_def using save_inv_start by blast
qed

end
