(* ===== verification/Curated_Consent.thy ===== *)
theory Curated_Consent
  imports Curated_Machine_Props
begin

text \<open>
  Consent for the rules that may reach any address: where it comes from, what it is needed
  for, and what an inert bridge may still send.
\<close>

section \<open>What a send queues\<close>

definition queued :: "daemon_commands \<Rightarrow> notification set" where
  "queued d = {n. \<exists>i os. fmlookup (dc_streams d) i = Some os \<and> n \<in> set (os_queue os)}"

definition queues_at_most :: "notification \<Rightarrow> daemon_commands \<Rightarrow> daemon_commands \<Rightarrow> bool" where
  "queues_at_most n d d' \<longleftrightarrow> dc_rules d' = dc_rules d \<and> queued d' \<subseteq> insert (n\<lparr> n_id := dc_next_id d \<rparr>) (queued d)"

lemma queues_nothing [simp]: "queues_at_most n d d"
  by (auto simp: queues_at_most_def)

lemma queue_on_queued: "queue_on ts n d = Some (d', k) \<Longrightarrow> queued d' \<subseteq> insert n (queued d)"
proof (induction ts arbitrary: d k)
  case (Cons t ts)
  obtain os where os: "fmlookup (dc_streams d) t = Some os" using Cons.prems by (auto split: option.splits)
  let ?d = "d\<lparr> dc_streams := fmupd t (os\<lparr> os_queue := os_queue os @ [n] \<rparr>) (dc_streams d) \<rparr>"
  have "queued ?d \<subseteq> insert n (queued d)" using os by (auto simp: queued_def split: if_splits)
  moreover have "(\<exists>k'. queue_on ts n ?d = Some (d', k')) \<or> queue_on ts n d = Some (d', k)"
    using Cons.prems os by (auto split: if_splits)
  ultimately show ?case using Cons.IH by blast
qed auto

lemma enqueue_queues:
  assumes "enqueue n ts stream d = Some (res, d')"
  shows "queues_at_most n d d'"
proof -
  obtain e k where q: "queue_on ts (n\<lparr> n_id := dc_next_id d \<rparr>) (d\<lparr> dc_next_id := dc_next_id d + 1 \<rparr>) = Some (e, k)"
    using assms by (auto simp: enqueue_def Let_def split: option.splits)
  have "queued (d\<lparr> dc_next_id := dc_next_id d + 1 \<rparr>) = queued d" by (simp add: queued_def)
  then have "queued e \<subseteq> insert (n\<lparr> n_id := dc_next_id d \<rparr>) (queued d)" using queue_on_queued[OF q] by simp
  moreover have "dc_streams d' = dc_streams e" using assms q by (auto simp: enqueue_def Let_def split: if_splits)
  then have "queued d' = queued e" by (simp add: queued_def)
  moreover have "dc_rules d' = dc_rules d" using enqueue_frame[OF assms] by force
  ultimately show ?thesis by (simp add: queues_at_most_def)
qed

lemma dispatch_queues: "dispatch_via_checked lib es n delivery curated d = Some (res, d') \<Longrightarrow> queues_at_most n d d'"
  using enqueue_queues[of n]
  by (auto simp: dispatch_via_checked_def split: sum.splits if_splits option.splits prod.splits)

lemma guarded_queues:
  "send_curated_guarded_as lib es c generation g d = Some (res, d') \<Longrightarrow> queues_at_most (cc_notification c) d d'"
  using dispatch_queues[of lib es "cc_notification c"] by (auto simp: send_curated_guarded_as_def split: sum.splits)

definition turns_on_broad :: "curated_entry list \<Rightarrow> notification \<Rightarrow> bool" where
  "turns_on_broad es n \<longleftrightarrow> n_type n = ChangeRule \<and> (\<exists>r \<in> set (n_rules n). broad_rule es r)"

lemma turns_on_broad_id [simp]: "turns_on_broad es (n\<lparr> n_id := i \<rparr>) = turns_on_broad es n"
  by (simp add: turns_on_broad_def)

text \<open>A step that queues at most a command that turns on no broad rule.\<close>

definition harmless :: "curated_entry list \<Rightarrow> daemon_commands \<Rightarrow> daemon_commands \<Rightarrow> bool" where
  "harmless es d d' \<longleftrightarrow> (list_inv (cache_of d) \<longrightarrow> list_inv (cache_of d')) \<and> (\<forall>n \<in> queued d' - queued d. \<not> turns_on_broad es n)"

lemma harmless_refl [simp]: "harmless es d d"
  by (simp add: harmless_def)

lemma harmless_queues: "queues_at_most n d d' \<Longrightarrow> \<not> turns_on_broad es n \<Longrightarrow> harmless es d d'"
  by (auto simp: queues_at_most_def harmless_def)

lemma send_curated_queues: "send_curated lib es c d = Some (res, d') \<Longrightarrow> queues_at_most (cc_notification c) d d'"
  using dispatch_queues[of lib es "cc_notification c" Usual None d res d']
  by (auto simp: send_curated_def dispatch_def split: sum.splits if_splits list.splits)

lemma send_curated_harmless: "send_curated lib es c d = Some (res, d') \<Longrightarrow> harmless es d d'"
proof -
  assume sent: "send_curated lib es c d = Some (res, d')"
  show "harmless es d d'"
  proof (cases "curated_check lib es c = Inr () \<and> (\<forall>r rs. n_rules (cc_notification c) = r # rs \<longrightarrow> \<not> broad_rule es r)")
    case True
    then obtain r where "n_rules (cc_notification c) = [r]" "\<not> broad_rule es r"
      by (auto simp: curated_check_def split: list.splits)
    then have "\<not> turns_on_broad es (cc_notification c)" by (simp add: turns_on_broad_def)
    moreover have "queues_at_most (cc_notification c) d d'" by (rule send_curated_queues[OF sent])
    ultimately show ?thesis using harmless_queues by blast
  next
    case False
    then have "d' = d"
      using sent by (auto simp: send_curated_def split: sum.splits if_splits list.splits)
    then show ?thesis by simp
  qed
qed

lemma toggle_rules:
  "toggle_command lib es current enabled = Some c \<Longrightarrow>
     \<exists>r. n_rules (cc_notification c) = [r] \<and> n_type (cc_notification c) = ChangeRule \<and> r_enabled r = enabled
       \<and> (\<exists>e. entry_for_rule_name es (r_name current) = Some e
            \<and> (enabled \<longrightarrow> (\<exists>ours. rule_matching e current = Some ours \<and> r_name r = r_name ours)))"
  by (auto simp: toggle_command_def Let_def curated_change_def command_of_def split: if_splits option.splits)

lemma toggle_harmless: "send_curated_toggle lib es name enabled d = Some (res, d') \<Longrightarrow> harmless es d d'"
proof -
  assume sent: "send_curated_toggle lib es name enabled d = Some (res, d')"
  let ?current = "Option.bind (rc_rules (cache_of d)) (\<lambda>rules. fmlookup rules name)"
  show "harmless es d d'"
  proof (cases "Option.bind ?current (\<lambda>c. toggle_command lib es c enabled)")
    case None
    then show ?thesis using sent by (simp add: send_curated_toggle_def)
  next
    case (Some c)
    then obtain current where "toggle_command lib es current enabled = Some c" by (auto simp: bind_eq_Some_conv)
    from toggle_rules[OF this] obtain r where r: "n_rules (cc_notification c) = [r]" "r_enabled r = enabled" by auto
    show ?thesis
    proof (cases "case entry_for_rule_name es name of Some e \<Rightarrow> broad e | None \<Rightarrow> False")
      case False
      then show ?thesis using sent Some send_curated_harmless by (auto simp: send_curated_toggle_def)
    next
      case True
      show ?thesis
      proof (cases "enabled \<or> (\<exists>e. curated_check lib es c = Inl e)")
        case True
        then show ?thesis using sent Some \<open>case entry_for_rule_name es name of Some e \<Rightarrow> broad e | None \<Rightarrow> False\<close>
          by (cases enabled) (auto simp: send_curated_toggle_def)
      next
        case off: False
        then have "curated_check lib es c = Inr ()" by (cases "curated_check lib es c") auto
        then have "queues_at_most (cc_notification c) d d'"
          using sent Some True off dispatch_queues[of lib es "cc_notification c"] by (auto simp: send_curated_toggle_def)
        moreover have "\<not> turns_on_broad es (cc_notification c)" using r off by (simp add: turns_on_broad_def broad_rule_def)
        ultimately show ?thesis by (rule harmless_queues)
      qed
    qed
  qed
qed

lemma list_inv_forget: "list_inv (forget_file_left name c) = list_inv c"
proof -
  have fields: "rc_rules (forget_file_left name c) = rc_rules c" "rc_expiries (forget_file_left name c) = rc_expiries c"
    "rc_left_out (forget_file_left name c) = rc_left_out c" "rc_may_hold (forget_file_left name c) = rc_may_hold c"
    by (simp_all add: forget_file_left_def Let_def bump_def)
  show ?thesis unfolding list_inv_def fields ..
qed

lemma forget_marks_harmless: "harmless es d (cd_commands m) \<Longrightarrow> harmless es d (cd_commands (fold forget_mark names m))"
proof (induction names arbitrary: m)
  case (Cons name names)
  have "queued (cd_commands (forget_mark name m)) = queued (cd_commands m)"
    "cache_of (cd_commands (forget_mark name m)) = forget_file_left name (cache_of (cd_commands m))"
    by (simp_all add: forget_mark_def queued_def Let_def)
  then have "harmless es d (cd_commands (forget_mark name m))"
    using Cons.prems by (simp add: harmless_def list_inv_forget)
  with Cons.IH show ?case by simp
qed simp

lemma attempted_harmless:
  "(\<And>res d'. sent = Some (res, d') \<Longrightarrow> harmless es (cd_commands m) d') \<Longrightarrow> harmless es (cd_commands m) (cd_commands (fst (attempted m sent x)))"
  by (auto simp: attempted_def split: option.split)

lemma delete_type: "curated_delete name = Some c \<Longrightarrow> \<not> turns_on_broad es (cc_notification c)"
  by (auto simp: curated_delete_def turns_on_broad_def command_of_def split: if_splits)

lemma delete_send_harmless: "harmless es (cd_commands m) (cd_commands (fst (delete_send v i name m)))" if "es = cv_entries v"
  using that by (auto simp: delete_send_def intro!: attempted_harmless split: option.split intro: send_curated_harmless)

lemma remove_send_harmless: "harmless es (cd_commands m) (cd_commands (fst (remove_send v daemon i m)))" if "es = cv_entries v"
  using that by (auto simp: remove_send_def intro!: attempted_harmless split: option.split intro: send_curated_harmless)

lemma remove_orphan_send_harmless: "harmless es (cd_commands m) (cd_commands (fst (remove_orphan_send v generation i m)))"
proof -
  have "harmless es d d'" if "curated_delete name = Some c" "send_curated_guarded_delete lib es' c generation d = Some (res, d')"
    for name c lib es' d res d'
    using that harmless_queues[OF guarded_queues delete_type] by (auto simp: send_curated_guarded_delete_def)
  then show ?thesis by (auto simp: remove_orphan_send_def Let_def intro!: attempted_harmless split: option.split)
qed

text \<open>The operations that may turn on a broad rule.\<close>

fun may_turn_on :: "manager_op \<Rightarrow> bool" where
  "may_turn_on (InstallOp _ _ _) = True"
| "may_turn_on (UpgradeOp _ _ _) = True"
| "may_turn_on (ReenableOp _ _ _) = True"
| "may_turn_on _ = False"

lemma run_harmless:
  assumes "\<not> may_turn_on op"
  shows "harmless (cv_entries v) (cd_commands m) (cd_commands (manager_run v op m))"
proof (cases op)
  case (ToggleOp name enabled)
  have "harmless (cv_entries v) (cd_commands m) (cd_commands m')" if "send_managed_toggle v name enabled m = Some (res, m')" for res m'
    using that by (cases rule: toggle_cases) (auto intro: toggle_harmless)
  then show ?thesis using ToggleOp by (auto split: option.split)
next
  case (DeleteOp i name)
  then show ?thesis by (simp add: delete_send_harmless)
next
  case (RemoveOp daemon i)
  then show ?thesis by (simp add: remove_send_harmless)
next
  case (RemoveOrphanOp generation i)
  then show ?thesis by (simp add: remove_orphan_send_harmless)
next
  case (UndoOp i)
  then show ?thesis by (auto simp: reenable_undo_def intro!: attempted_harmless intro: toggle_harmless)
next
  case (RecordsOp l)
  then show ?thesis by (auto simp: pass_records_def Let_def intro!: forget_marks_harmless)
next
  case (ApplyDoneOp generation epoch w oc)
  have "harmless (cv_entries v) (cd_commands m) (cd_commands (forget_mark (wg_name w) (with_state s m)))" for s
    using forget_marks_harmless[of "cv_entries v" "cd_commands m" "with_state s m" "[wg_name w]"] by simp
  then show ?thesis using ApplyDoneOp by (auto simp: apply_finish_def Let_def case_prod_beta)
qed (use assms in \<open>auto simp: choose_legacy_def ask_removal_def ask_orphan_removal_def prepare_intent_def cancel_intent_def accept_intent_def
    on_state_def upgrade_finish_def remove_finish_def Let_def case_prod_beta split: option.split sum.split\<close>)

section \<open>A broad rule is sent under saved consent\<close>

lemma entry_by_name:
  assumes "entry_of v i = Some e"
  shows "ce_id e = i \<and> e \<in> set (cv_entries v) \<and> entry_for_rule_name (cv_entries v) (entry_rule_name e) = Some e"
proof -
  have "ce_id e = i" "e \<in> set (cv_entries v)"
    using assms unfolding entry_of_def by (auto simp: find_Some_iff)
  moreover have "(\<lambda>x. entry_rule_name x = entry_rule_name e) = (\<lambda>x. ce_id x = i)"
    using \<open>ce_id e = i\<close> by (auto simp: entry_name)
  ultimately show ?thesis using assms by (simp add: entry_for_rule_name_def entry_of_def)
qed

lemma entry_by_rule_name:
  assumes "entry_for_rule_name (cv_entries v) (entry_rule_name e) = Some e'" "entry_of v i = Some e"
  shows "e' = e"
  using assms entry_by_name[OF assms(2)] by simp

definition consented :: "curated_env \<Rightarrow> curated_entry \<Rightarrow> manager_state \<Rightarrow> bool" where
  "consented v e s \<longleftrightarrow> active s \<and> ms_version s \<le> ms_saved s \<and> has_broad_authority_for v e (ms_choices s)"

lemma not_no_authority:
  "ms_inert s = None \<Longrightarrow> \<not> no_authority v revision i s \<Longrightarrow> entry_of v i = Some e \<Longrightarrow> consented v e s"
  by (auto simp: no_authority_def consented_def active_def has_broad_authority_def)

text \<open>A guarded command turns on the one rule it carries.\<close>

lemma guarded_new:
  assumes "send_curated_guarded_as lib es c generation g d = Some (res, d')" "n_rules (cc_notification c) = [r]"
    "n \<in> queued d' - queued d" "r' \<in> set (n_rules n)"
  shows "r' = r"
  using guarded_queues[OF assms(1)] assms(2-4) by (auto simp: queues_at_most_def)

lemma new_attempted:
  assumes "n \<in> queued (cd_commands (fst (attempted m sent x))) - queued (cd_commands m)"
  obtains res d where "sent = Some (res, d)" "n \<in> queued d - queued (cd_commands m)"
  using assms by (auto simp: attempted_def split: option.splits)

lemma harmless_new: "harmless es d d' \<Longrightarrow> n \<in> queued d' - queued d \<Longrightarrow> \<not> turns_on_broad es n"
  by (simp add: harmless_def)

lemma rule_as_name [simp]: "r_name (rule_as e uid) = entry_rule_name e"
  by (simp add: rule_as_def entry_build_def)

lemma install_broad:
  assumes n: "n \<in> queued (cd_commands (fst (install_send v generation revision i m))) - queued (cd_commands m)"
    and on: "turns_on_broad (cv_entries v) n" and r: "r \<in> set (n_rules n)"
  shows "\<exists>e. entry_for_rule_name (cv_entries v) (r_name r) = Some e \<and> consented v e (cd_state m)"
proof (cases "entry_of v i")
  case None
  then show ?thesis using n by (simp add: install_send_def)
next
  case (Some e)
  let ?c = "authorized_install e (account_uid e (ms_found (cd_state m)))"
  note unfolded = n[unfolded install_send_def Some option.case Let_def]
  obtain sent and x :: waiting where n': "n \<in> queued (cd_commands (fst (attempted m sent x))) - queued (cd_commands m)"
    and free: "ms_inert (cd_state m) = None" "broad e \<longrightarrow> \<not> no_authority v revision i (cd_state m)"
    and sent: "sent = (if broad e then send_curated_guarded (cv_lib v) (cv_entries v) ?c generation False (cd_commands m)
                       else send_curated (cv_lib v) (cv_entries v) (install_as e (account_uid e (ms_found (cd_state m)))) (cd_commands m))"
    using unfolded by (auto split: if_splits)
  from n' obtain res d where d: "sent = Some (res, d)" "n \<in> queued d - queued (cd_commands m)" by (rule new_attempted)
  show ?thesis
  proof (cases "broad e")
    case False
    then show ?thesis using d sent on send_curated_harmless harmless_new by (metis (no_types, lifting))
  next
    case True
    have "n_rules (cc_notification ?c) = [rule_as e (account_uid e (ms_found (cd_state m)))]"
      by (simp add: authorized_install_def authorize_def install_as_def curated_change_def command_of_def)
    then have "r = rule_as e (account_uid e (ms_found (cd_state m)))"
      using d sent True r guarded_new by (auto simp: send_curated_guarded_def)
    then show ?thesis using True free not_no_authority[OF free(1) _ Some] entry_by_name[OF Some] by auto
  qed
qed

lemma upgrade_rules: "upgrade lib e current uid = Some c \<Longrightarrow> \<exists>r. n_rules (cc_notification c) = [r] \<and> r_name r = entry_rule_name e"
  by (auto simp: upgrade_def curated_change_def command_of_def Let_def split: if_splits)

lemma upgrade_broad:
  assumes n: "n \<in> queued (cd_commands (fst (upgrade_send v generation revision i m))) - queued (cd_commands m)"
    and on: "turns_on_broad (cv_entries v) n" and r: "r \<in> set (n_rules n)"
  shows "\<exists>e. entry_for_rule_name (cv_entries v) (r_name r) = Some e \<and> consented v e (cd_state m)"
proof (cases "entry_of v i")
  case None
  then show ?thesis using n by (simp add: upgrade_send_def)
next
  case (Some e)
  note unfolded = n[unfolded upgrade_send_def Some option.case Let_def]
  obtain current where current: "Option.bind (rc_rules (cache_of (cd_commands m))) (\<lambda>rules. fmlookup rules (entry_rule_name e)) = Some current"
    and free: "ms_inert (cd_state m) = None"
    using unfolded by (auto split: if_splits option.splits)
  define guarded where "guarded \<longleftrightarrow> broad e \<and> r_enabled current"
  define made where "made = (if guarded then authorized_upgrade (cv_lib v) e current (account_uid e (ms_found (cd_state m)))
      else upgrade (cv_lib v) e current (account_uid e (ms_found (cd_state m))))"
  note unfolded' = unfolded[unfolded current option.case, folded guarded_def, folded made_def]
  obtain c sent and x :: upgrading where n': "n \<in> queued (cd_commands (fst (attempted m sent x))) - queued (cd_commands m)"
    and made: "made = Some c" and authority: "guarded \<longrightarrow> \<not> no_authority v revision i (cd_state m)"
    and sent: "sent = (if guarded then send_curated_guarded_replace (cv_lib v) (cv_entries v) c generation (cd_commands m)
                       else send_curated (cv_lib v) (cv_entries v) c (cd_commands m))"
    using unfolded' by (cases made) (auto split: if_splits)
  from n' obtain res d where d: "sent = Some (res, d)" "n \<in> queued d - queued (cd_commands m)" by (rule new_attempted)
  show ?thesis
  proof (cases guarded)
    case False
    then show ?thesis using d sent on send_curated_harmless harmless_new by (metis (no_types, lifting))
  next
    case True
    obtain r0 where r0: "n_rules (cc_notification c) = [r0]" "r_name r0 = entry_rule_name e"
      using made True upgrade_rules by (fastforce simp: made_def authorized_upgrade_def authorize_def)
    then have "r = r0" using d sent True r guarded_new by (auto simp: send_curated_guarded_replace_def)
    then show ?thesis using True authority not_no_authority[OF free _ Some] entry_by_name[OF Some] r0 by auto
  qed
qed

lemma reenable_broad:
  assumes n: "n \<in> queued (cd_commands (fst (reenable_send v generation revision i m))) - queued (cd_commands m)"
    and inv: "list_inv (cache_of (cd_commands m))" and r: "r \<in> set (n_rules n)"
  shows "\<exists>e. entry_for_rule_name (cv_entries v) (r_name r) = Some e \<and> consented v e (cd_state m)"
proof (cases "entry_of v i")
  case None
  then show ?thesis using n by (simp add: reenable_send_def Let_def split: if_splits)
next
  case (Some e)
  note unfolded = n[unfolded reenable_send_def Some option.case Let_def]
  obtain current c where current: "Option.bind (rc_rules (cache_of (cd_commands m))) (\<lambda>rules. fmlookup rules (entry_rule_name e)) = Some current"
    and free: "ms_inert (cd_state m) = None" "\<not> no_authority v revision i (cd_state m)"
    and c: "authorized_toggle (cv_lib v) (cv_entries v) current = Some c"
    and n': "n \<in> queued (cd_commands (fst (attempted m
        (send_curated_guarded (cv_lib v) (cv_entries v) c generation True (cd_commands m)) ()))) - queued (cd_commands m)"
    using unfolded by (auto split: if_splits option.splits)
  have name: "r_name current = entry_rule_name e"
    using current inv by (auto simp: bind_eq_Some_conv list_inv_def)
  obtain c0 where c0: "toggle_command (cv_lib v) (cv_entries v) current True = Some c0" "cc_notification c = cc_notification c0"
    using c by (auto simp: authorized_toggle_def authorize_def)
  from toggle_rules[OF c0(1)] obtain r0 e' ours where r0: "n_rules (cc_notification c) = [r0]"
    "entry_for_rule_name (cv_entries v) (r_name current) = Some e'" "rule_matching e' current = Some ours" "r_name r0 = r_name ours"
    using c0(2) by auto
  have "e' = e" using r0(2) name entry_by_rule_name[OF _ Some] by simp
  then have "r_name r0 = entry_rule_name e"
    using r0(3,4) by (auto simp: rule_matching_def entry_rule_def entry_build_def split: option.splits curated_sender.splits)
  moreover have "r = r0"
  proof -
    from n' obtain res d where "send_curated_guarded (cv_lib v) (cv_entries v) c generation True (cd_commands m) = Some (res, d)"
      "n \<in> queued d - queued (cd_commands m)" by (rule new_attempted)
    then show ?thesis using r guarded_new[OF _ r0(1)] by (auto simp: send_curated_guarded_def)
  qed
  ultimately show ?thesis using free not_no_authority[OF free Some] entry_by_name[OF Some] by auto
qed

lemma guarded_list:
  "send_curated_guarded_as lib es c generation g d = Some (res, d') \<Longrightarrow> dc_rules d' = dc_rules d"
  using guarded_queues by (simp add: queues_at_most_def)

lemma run_list_inv:
  assumes "list_inv (cache_of (cd_commands m))"
  shows "list_inv (cache_of (cd_commands (manager_run v op m)))"
proof (cases "may_turn_on op")
  case False
  then show ?thesis using run_harmless[of op v m] assms by (simp add: harmless_def)
next
  case True
  have kept: "list_inv (cache_of (cd_commands (fst (attempted m sent x))))"
    if "\<And>res d. sent = Some (res, d) \<Longrightarrow> list_inv (cache_of d)" for sent and x :: 'x
    using that assms by (auto simp: attempted_def split: option.split)
  have direct: "list_inv (cache_of d)" if "send_curated (cv_lib v) (cv_entries v) c (cd_commands m) = Some (res, d)" for c res d
    using send_curated_harmless[OF that] assms by (simp add: harmless_def)
  have guarded: "list_inv (cache_of d)"
    if "send_curated_guarded_as (cv_lib v) (cv_entries v) c generation g (cd_commands m) = Some (res, d)" for c generation g res d
    using guarded_list[OF that] assms by simp
  show ?thesis
    using True
    by (cases op)
       (auto simp: install_send_def upgrade_send_def reenable_send_def Let_def send_curated_guarded_def send_curated_guarded_replace_def assms
          split: option.split intro!: kept intro: direct guarded)
qed

lemma list_inv_step: "manager_step v len w w' \<Longrightarrow> list_inv (cache_of (cd_commands (mw_defaults w)))
    \<Longrightarrow> list_inv (cache_of (cd_commands (mw_defaults w')))"
proof (induction rule: manager_step.induct)
  case (save_ran job w io m oc)
  then show ?case by (auto simp: save_in_order_def split: if_splits sum.splits file_write.splits)
qed (simp_all add: run_list_inv set_unavailable_def on_state_def del: manager_run.simps)

lemma list_inv_reaches: "manager_reaches v len w \<Longrightarrow> list_inv (cache_of (cd_commands (mw_defaults w)))"
proof -
  have run: "(manager_step v len)\<^sup>*\<^sup>* a b \<Longrightarrow> list_inv (cache_of (cd_commands (mw_defaults a)))
      \<Longrightarrow> list_inv (cache_of (cd_commands (mw_defaults b)))" for a b
    by (induction rule: rtranclp_induct) (auto intro: list_inv_step)
  have "cd_commands (mw_defaults (manager_start v d saved_as status has_directory system_bridge unreadable)) = d"
    for d saved_as status has_directory system_bridge unreadable
    by (simp add: manager_start_def configure_curated_def attach_file_def set_unavailable_def set_storage_def new_defaults_def Let_def)
  then show "manager_reaches v len w \<Longrightarrow> list_inv (cache_of (cd_commands (mw_defaults w)))"
    unfolding manager_reaches_def using run by metis
qed

lemma run_broad:
  assumes n: "n \<in> queued (cd_commands (manager_run v op m)) - queued (cd_commands m)"
    and inv: "list_inv (cache_of (cd_commands m))"
    and on: "n_type n = ChangeRule" "r \<in> set (n_rules n)" "broad_rule (cv_entries v) r"
  shows "\<exists>e. entry_for_rule_name (cv_entries v) (r_name r) = Some e \<and> consented v e (cd_state m)"
proof -
  have broad: "turns_on_broad (cv_entries v) n" using on by (auto simp: turns_on_broad_def)
  show ?thesis
  proof (cases "may_turn_on op")
    case False
    then show ?thesis using run_harmless harmless_new[OF _ n] broad by blast
  next
    case True
    then show ?thesis
    proof (cases op)
      case (InstallOp generation revision i)
      then show ?thesis using install_broad[OF _ broad on(2)] n by simp
    next
      case (UpgradeOp generation revision i)
      then show ?thesis using upgrade_broad[OF _ broad on(2)] n by simp
    next
      case (ReenableOp generation revision i)
      have "n \<in> queued (cd_commands (fst (reenable_send v generation revision i m))) - queued (cd_commands m)"
        using n ReenableOp by simp
      from reenable_broad[OF this inv on(2)] show ?thesis .
    qed simp_all
  qed
qed

text \<open>
  C14. A rule that may reach any address is never turned on without saved consent: whatever the
  order of requests, passes, saves and answers, when the manager queues a command that turns
  such a rule on, its entry is on and not deleted, a consent for exactly this rule stands,
  and the choices with that consent are the ones in the file.
\<close>

theorem broad_rules_need_saved_consent:
  assumes "manager_reaches v len w"
    and "n \<in> queued (cd_commands (manager_run v op (mw_defaults w)))" "n \<notin> queued (cd_commands (mw_defaults w))"
    and "n_type n = ChangeRule" "r \<in> set (n_rules n)" "broad_rule (cv_entries v) r"
  shows "\<exists>e. entry_for_rule_name (cv_entries v) (r_name r) = Some e
     \<and> has_broad_authority_for v e (ms_choices (cd_state (mw_defaults w)))
     \<and> on_disk v (cd_file (mw_defaults w)) (ms_choices (cd_state (mw_defaults w)))"
proof -
  have "n \<in> queued (cd_commands (manager_run v op (mw_defaults w))) - queued (cd_commands (mw_defaults w))" using assms(2,3) by simp
  from run_broad[OF this list_inv_reaches[OF assms(1)] assms(4-6)]
  obtain e where e: "entry_for_rule_name (cv_entries v) (r_name r) = Some e" "consented v e (cd_state (mw_defaults w))" by blast
  have "on_disk v (cd_file (mw_defaults w)) (ms_choices (cd_state (mw_defaults w)))"
    using save_inv_reaches[OF assms(1)] e(2) by (auto simp: save_inv_def consented_def Let_def)
  then show ?thesis using e by (auto simp: consented_def)
qed

text \<open>An example: the bridge starts with saved consent, plans once on an empty list and installs.\<close>

definition example_daemon :: daemon_commands where
  "example_daemon = (new_commands Unix (new_sync\<lparr> rs_cache := new_rules_cache\<lparr> rc_rules := Some fmempty \<rparr> \<rparr>))
     \<lparr> dc_streams := fmupd 1 \<lparr> os_conn = None, os_hello = Some 1, os_queue = [], os_reading = True \<rparr> fmempty,
       dc_current := Some 1, dc_committed_by := Some 1 \<rparr>"

definition example_plan :: manager_op where
  "example_plan = PlanOp \<lparr> dr_rules = fmempty, dr_left_out = {||}, dr_files_left = {||}, dr_maybe_applied = {||} \<rparr> 0
     (fmupd (lit ''systemd-resolve'') (Some 990) fmempty)"

definition example_start :: manager_world where
  "example_start = manager_start example_env example_daemon (Some (FileV3 example_choices))
     \<lparr> st_persistent = True, st_reason = None, st_unreadable = False \<rparr> True True None"

definition example_world :: manager_world where
  "example_world = example_start\<lparr> mw_defaults := manager_run example_env example_plan (mw_defaults example_start) \<rparr>"

lemma example_reached: "manager_reaches example_env (\<lambda>_. 100) example_world"
proof -
  have inv: "list_inv (cache_of example_daemon)"
    by (simp add: list_inv_def example_daemon_def new_commands_def new_sync_def new_rules_cache_def no_may_hold_def fcard_fempty)
  have "manager_step example_env (\<lambda>_. 100) example_start example_world"
    unfolding example_world_def by (rule manager_step.ran)
  then have "(manager_step example_env (\<lambda>_. 100))\<^sup>*\<^sup>* example_start example_world" by (rule r_into_rtranclp)
  then show ?thesis using inv unfolding manager_reaches_def example_start_def by blast
qed

definition example_command :: notification where
  "example_command = (command_of ChangeRule (rule_as example_entry (Some 990)))\<lparr> n_id := 1 \<rparr>"

lemma example_sent:
  "map_option os_queue (fmlookup (dc_streams (cd_commands
      (manager_run example_env (InstallOp 0 0 DNS_ENTRY_ID) (mw_defaults example_world)))) 1) = Some [example_command]"
  by code_simp

lemma example_empty: "queued (cd_commands (mw_defaults example_world)) = {}"
proof -
  have "dc_streams (cd_commands (mw_defaults example_world)) = fmupd 1 \<lparr> os_conn = None, os_hello = Some 1, os_queue = [], os_reading = True \<rparr> fmempty"
    by code_simp
  then show ?thesis by (auto simp: queued_def split: if_splits)
qed

theorem broad_rules_need_saved_consent_witness:
  "\<exists>e. entry_for_rule_name (cv_entries example_env) (entry_rule_name example_entry) = Some e
     \<and> has_broad_authority_for example_env e (ms_choices (cd_state (mw_defaults example_world)))
     \<and> on_disk example_env (cd_file (mw_defaults example_world)) (ms_choices (cd_state (mw_defaults example_world)))"
proof -
  let ?r = "rule_as example_entry (Some 990)"
  have sent: "example_command \<in> queued (cd_commands (manager_run example_env (InstallOp 0 0 DNS_ENTRY_ID) (mw_defaults example_world)))"
    unfolding queued_def using example_sent by (intro CollectI exI[of _ 1]) (auto simp del: manager_run.simps)
  have new: "example_command \<notin> queued (cd_commands (mw_defaults example_world))" by (simp add: example_empty)
  have shape: "n_type example_command = ChangeRule" "?r \<in> set (n_rules example_command)" "broad_rule (cv_entries example_env) ?r"
    by code_simp+
  from broad_rules_need_saved_consent[OF example_reached sent new shape] show ?thesis by simp
qed

section \<open>Consent is given by a ticket\<close>

lemma or_xor_zero:
  fixes zs :: "('a::len word \<times> 'a word) list"
  shows "fold (\<lambda>(x, y) difference. difference OR (x XOR y)) zs d = 0 \<longleftrightarrow> d = 0 \<and> (\<forall>(x, y) \<in> set zs. x = y)"
proof (induction zs arbitrary: d)
  case (Cons z zs)
  have "d OR e = 0 \<longleftrightarrow> d = 0 \<and> e = 0" for e :: "'a word"
    by (metis or.right_neutral or_eq_0_iff)
  moreover have "x XOR y = 0 \<longleftrightarrow> x = y" for x y :: "'a word" by (metis xor.assoc xor.left_neutral xor.right_neutral xor_self_eq)
  ultimately show ?case using Cons by (auto simp: case_prod_beta)
qed simp

lemma ascii_bytes: "\<forall>c \<in> set s. c < 128 \<Longrightarrow> as_bytes s = s"
  by (induction s) (auto simp: as_bytes_def utf8_encode_def)

lemma valid_ticket_ascii: "valid_ticket t \<Longrightarrow> \<forall>c \<in> set t. c < 128"
  by (auto simp: valid_ticket_def list_all_iff is_ascii_digit_def)

lemma zip_eq_iff: "length xs = length ys \<Longrightarrow> (\<forall>(x, y) \<in> set (zip xs ys). x = y) \<longleftrightarrow> xs = ys"
  by (induction xs ys rule: list_induct2) auto

lemma constant_time_equal_tickets:
  assumes "valid_ticket a" "valid_ticket b"
  shows "constant_time_equal a b \<longleftrightarrow> a = b"
proof -
  have len: "length a = length b"
    using assms valid_ticket_ascii[of a] valid_ticket_ascii[of b] str_len_ascii[of a] str_len_ascii[of b]
    by (simp add: valid_ticket_def)
  have inj: "map (of_nat :: nat \<Rightarrow> 8 word) a = map of_nat b \<longleftrightarrow> a = b"
  proof
    assume eq: "map (of_nat :: nat \<Rightarrow> 8 word) a = map of_nat b"
    have "map unat (map (of_nat :: nat \<Rightarrow> 8 word) xs) = xs" if "\<forall>c \<in> set xs. c < 128" for xs
      using that by (induction xs) (auto simp: unat_of_nat)
    with eq valid_ticket_ascii[OF assms(1)] valid_ticket_ascii[OF assms(2)] show "a = b" by metis
  qed simp
  show ?thesis
    unfolding constant_time_equal_def or_xor_zero ascii_bytes[OF valid_ticket_ascii[OF assms(1)]] ascii_bytes[OF valid_ticket_ascii[OF assms(2)]]
    using assms inj len zip_eq_iff[of "map (of_nat :: nat \<Rightarrow> 8 word) a" "map of_nat b"] by (auto simp: valid_ticket_def)
qed

lemma keep_choices [simp]: "ms_choices (keep c s) = c"
  by (simp add: keep_def)

lemma take_consent_grants:
  assumes "take_consent v e i purpose replying cache s = Inr s'" "broad_entry v i = Some e"
  shows "\<exists>g. ch_grants (ms_choices s') = fmupd i g (ch_grants (ms_choices s)) \<and> grant_matches v g e"
proof -
  have found: "find (\<lambda>e. ce_id e = i \<and> ce_any_address e) (cv_entries v) = Some e"
    using assms(2) by (simp add: broad_entry_def broad_def)
  then have e: "ce_id e = i" "ce_any_address e" by (auto simp: find_Some_iff)
  have grants: "\<exists>g. ch_grants (grant_broad v i a c) = fmupd i g (ch_grants c) \<and> grant_matches v g e" for a c
    using found e by (intro exI[of _ "the (fmlookup (ch_grants (grant_broad v i a c)) i)"]) (simp add: grant_broad_def grant_matches_def)
  have others: "ch_grants (choice_enable i c) = ch_grants c" "ch_grants (choice_installed v i r c) = ch_grants c" for c r
    by (simp_all add: choice_enable_def choice_installed_def Let_def)
  obtain rules where rules: "rc_rules cache = Some rules"
    using assms by (auto simp: take_consent_def split: if_splits option.splits)
  obtain a where "intent_activation purpose (fmlookup rules (entry_rule_name e)) = Inr a"
    using assms rules by (auto simp: take_consent_def Let_def split: if_splits sum.splits)
  then have "ch_grants (ms_choices s') = ch_grants (grant_broad v i a (choice_enable i (ms_choices s)))"
    using assms(1) rules keep_choices
    by (cases "fmlookup rules (entry_rule_name e)")
       (auto simp: take_consent_def Let_def forget_failure_def others split: if_splits)
  then show ?thesis using grants[of a "choice_enable i (ms_choices s)"] by (simp add: others)
qed

lemma accept_ticket_Inr:
  assumes "accept_ticket v now r i t c p k replying cache s x = (x', Inr s')"
  shows "\<exists>pend e. ic_alive x \<and> ic_pending x = Some pend \<and> ic_pending x' = None \<and> now < pi_expires pend \<and> pi_request pend = r
    \<and> pi_id pend = i \<and> pi_purpose pend = p \<and> c = CONSENT_VERSION \<and> pi_revision pend = ms_broad_revision s
    \<and> valid_ticket t \<and> constant_time_equal (pi_ticket pend) t \<and> broad_entry v i = Some e
    \<and> pi_fingerprint pend = broad_policy_fingerprint v e \<and> take_consent v e i p replying cache s = Inr s'"
  using assms
  by (auto simp: accept_ticket_def intent_admit_def intent_consume_def intent_invalidate_def split: if_splits option.splits sum.splits)

text \<open>
  C15. Consent is given by a ticket and by nothing else: if a step of the manager gives an entry
  a consent it did not have, the step is a GUI's confirmation on a live connection that
  held a ticket for this entry, request and purpose, not expired, made since the last
  revocation and for the rule as it is shipped; the ticket is gone afterwards, and the
  consent is for that rule.
\<close>

theorem consent_only_by_ticket:
  assumes "fmlookup (ch_grants (ms_choices (cd_state (manager_run v op m)))) i = Some g"
    and "fmlookup (ch_grants (ms_choices (cd_state m))) i \<noteq> Some g"
  shows "\<exists>now r t p k n reply pend e. op = AcceptOp now r i t CONSENT_VERSION p k (Some n) reply
    \<and> ic_alive (cd_contexts m n) \<and> ic_pending (cd_contexts m n) = Some pend \<and> ic_pending (cd_contexts (manager_run v op m) n) = None
    \<and> now < pi_expires pend \<and> pi_request pend = r \<and> pi_id pend = i \<and> pi_purpose pend = p
    \<and> pi_revision pend = ms_broad_revision (cd_state m) \<and> (valid_ticket (pi_ticket pend) \<longrightarrow> t = pi_ticket pend)
    \<and> broad_entry v i = Some e \<and> pi_fingerprint pend = broad_policy_fingerprint v e \<and> grant_matches v g e"
proof (cases "\<exists>now r j t c p k ctx reply. op = AcceptOp now r j t c p k ctx reply")
  case False
  then have "calm (cd_state m) (cd_state (manager_run v op m))" by (intro calm_run) auto
  then show ?thesis using assms by (auto simp: calm_def fewer_grants_def simp del: manager_run.simps)
next
  case True
  then obtain now r j t c p k ctx reply where op: "op = AcceptOp now r j t c p k ctx reply" by blast
  obtain n where ctx: "ctx = Some n" using assms op by (cases ctx) (auto simp: accept_state)
  define a where "a = accept_ticket v now r j t c p k (reply \<noteq> None) (cache_of (cd_commands m)) (cd_state m) (cd_contexts m n)"
  obtain s' where s': "snd a = Inr s'"
    using assms op ctx by (cases "snd a") (auto simp: accept_state a_def)
  then obtain x' where x': "a = (x', Inr s')" by (cases a) auto
  from accept_ticket_Inr[OF x'[unfolded a_def]] obtain pend e where pend: "ic_alive (cd_contexts m n)"
    "ic_pending (cd_contexts m n) = Some pend" "ic_pending x' = None" "now < pi_expires pend" "pi_request pend = r" "pi_id pend = j"
    "pi_purpose pend = p" "c = CONSENT_VERSION" "pi_revision pend = ms_broad_revision (cd_state m)" "valid_ticket t"
    "constant_time_equal (pi_ticket pend) t" "broad_entry v j = Some e" "pi_fingerprint pend = broad_policy_fingerprint v e"
    "take_consent v e j p (reply \<noteq> None) (cache_of (cd_commands m)) (cd_state m) = Inr s'" by blast
  from take_consent_grants[OF pend(14,12)] obtain g' where
    g': "ch_grants (ms_choices s') = fmupd j g' (ch_grants (ms_choices (cd_state m)))" "grant_matches v g' e" by blast
  have "ms_choices (cd_state (manager_run v op m)) = ms_choices s'"
    using op ctx s' by (simp add: accept_state a_def split: option.split)
  then have "i = j" "g = g'" using assms g' by (auto split: if_splits)
  moreover have "cd_contexts (manager_run v op m) n = x'"
    using op ctx x' by (auto simp: accept_intent_def Let_def a_def)
  moreover have "valid_ticket (pi_ticket pend) \<longrightarrow> t = pi_ticket pend"
    using pend(10,11) constant_time_equal_tickets by blast
  ultimately show ?thesis using op ctx pend g' by (simp del: manager_run.simps)
qed

text \<open>An example: a first run, in which a GUI asks for a ticket and confirms with it.\<close>

definition example_first_run :: curated_defaults where
  "example_first_run = mw_defaults (manager_start example_env example_daemon None
     \<lparr> st_persistent = True, st_reason = None, st_unreadable = False \<rparr> True True None)"

definition example_prepared :: curated_defaults where
  "example_prepared = manager_run example_env
     (PrepareOp (Some (replicate 64 97)) 0 (lit ''request-1'') DNS_ENTRY_ID PurposeEnable (Some 7) None) example_first_run"

definition example_accept :: manager_op where
  "example_accept = AcceptOp 1 (lit ''request-1'') DNS_ENTRY_ID (replicate 64 97) CONSENT_VERSION PurposeEnable False (Some 7) None"

theorem consent_only_by_ticket_witness:
  "\<exists>g pend e. ic_pending (cd_contexts example_prepared 7) = Some pend
     \<and> ic_pending (cd_contexts (manager_run example_env example_accept example_prepared) 7) = None
     \<and> pi_ticket pend = replicate 64 97 \<and> broad_entry example_env DNS_ENTRY_ID = Some e \<and> grant_matches example_env g e"
proof -
  have "fmlookup (ch_grants (ms_choices (cd_state (manager_run example_env example_accept example_prepared)))) DNS_ENTRY_ID \<noteq> None"
    by code_simp
  then obtain g where
    g: "fmlookup (ch_grants (ms_choices (cd_state (manager_run example_env example_accept example_prepared)))) DNS_ENTRY_ID = Some g" by blast
  have none: "fmlookup (ch_grants (ms_choices (cd_state example_prepared))) DNS_ENTRY_ID = None" by code_simp
  then have "fmlookup (ch_grants (ms_choices (cd_state example_prepared))) DNS_ENTRY_ID \<noteq> Some g" by simp
  from consent_only_by_ticket[OF g this] obtain pend e where
    "ic_pending (cd_contexts example_prepared 7) = Some pend"
    "ic_pending (cd_contexts (manager_run example_env example_accept example_prepared) 7) = None"
    "broad_entry example_env DNS_ENTRY_ID = Some e" "grant_matches example_env g e"
    by (auto simp: example_accept_def simp del: manager_run.simps)
  moreover have "map_option pi_ticket (ic_pending (cd_contexts example_prepared 7)) = Some (replicate 64 97)" by code_simp
  ultimately show ?thesis by auto
qed

section \<open>An inert bridge\<close>

text \<open>Every new command is one the step made.\<close>

lemma toggle_queues:
  assumes "send_curated_toggle lib es name enabled d = Some (res, d')" "n \<in> queued d' - queued d"
  shows "\<exists>current c r. toggle_command lib es current enabled = Some c \<and> n_rules n = [r] \<and> r_enabled r = enabled"
proof -
  let ?current = "Option.bind (rc_rules (cache_of d)) (\<lambda>rules. fmlookup rules name)"
  obtain c where c: "Option.bind ?current (\<lambda>c. toggle_command lib es c enabled) = Some c"
    using assms by (auto simp: send_curated_toggle_def split: option.splits)
  then obtain current where current: "toggle_command lib es current enabled = Some c" by (auto simp: bind_eq_Some_conv)
  have "d' = d \<or> queues_at_most (cc_notification c) d d'"
    using assms(1) c send_curated_queues[of lib es c d res d'] dispatch_queues[of lib es "cc_notification c" Usual _ d res d']
    by (auto simp: send_curated_toggle_def split: if_splits sum.splits option.splits)
  then have "n_rules n = n_rules (cc_notification c)" using assms(2) by (auto simp: queues_at_most_def)
  then show ?thesis using current toggle_rules[OF current] by metis
qed

lemma deleting_new:
  assumes "curated_delete name = Some c" "queues_at_most (cc_notification c) d d'" "n \<in> queued d' - queued d"
  shows "n_type n = DeleteRule"
proof -
  have "n_type (cc_notification c) = DeleteRule" using assms(1) by (auto simp: curated_delete_def command_of_def split: if_splits)
  then show ?thesis using assms(2,3) by (auto simp: queues_at_most_def)
qed

text \<open>
  C17. An inert bridge adds nothing to the firewall: once the choices cannot be read or saved, or
  are not this bridge's to make, any command a step of the manager still queues is a delete
  that was decided before, or turns a rule off.
\<close>

theorem inert_bridge_adds_nothing:
  assumes "is_inert m" "n \<in> queued (cd_commands (manager_run v op m))" "n \<notin> queued (cd_commands m)"
  shows "n_type n = DeleteRule \<or> (\<forall>r \<in> set (n_rules n). \<not> r_enabled r)"
proof -
  have n: "n \<in> queued (cd_commands (manager_run v op m)) - queued (cd_commands m)" using assms by simp
  show ?thesis
  proof (cases op)
    case (ToggleOp name enabled)
    then have "manager_run v op m = m" using assms(1) by (simp add: send_managed_toggle_def Let_def)
    then show ?thesis using n by simp
  next
    case (DeleteOp i name)
    obtain c where c: "curated_delete name = Some c" using n DeleteOp by (auto simp: delete_send_def split: option.splits)
    then show ?thesis
      using n DeleteOp deleting_new[OF c send_curated_queues] by (auto simp: delete_send_def attempted_def split: option.splits)
  next
    case (RemoveOp daemon i)
    then show ?thesis
      using n deleting_new[OF _ send_curated_queues] by (auto simp: remove_send_def attempted_def split: option.splits if_splits)
  next
    case (UndoOp i)
    then show ?thesis
      using n toggle_queues[of "cv_lib v" "cv_entries v" "curated_rule_name i" False "cd_commands m"]
      by (fastforce simp: reenable_undo_def attempted_def split: option.splits)
  next
    case (RecordsOp l)
    have "queued (cd_commands (fold forget_mark names m')) = queued (cd_commands m')" for names m'
      by (induction names arbitrary: m') (simp_all add: forget_mark_def queued_def Let_def)
    then show ?thesis using n RecordsOp by (simp add: pass_records_def Let_def)
  next
    case (ApplyDoneOp generation epoch w oc)
    have "queued (cd_commands (forget_mark name m')) = queued (cd_commands m')" for name m'
      by (simp add: forget_mark_def queued_def Let_def)
    then show ?thesis using n ApplyDoneOp by (auto simp: apply_finish_def Let_def case_prod_beta split: if_splits)
  qed (use n assms(1) in \<open>auto simp: choose_legacy_def ask_removal_def ask_orphan_removal_def prepare_intent_def cancel_intent_def
      accept_intent_def on_state_def upgrade_finish_def remove_finish_def install_send_def upgrade_send_def remove_orphan_send_def
      reenable_send_def Let_def case_prod_beta split: option.splits sum.splits if_splits\<close>)
qed

definition example_inert :: curated_defaults where
  "example_inert = set_unavailable SAVE_FAILED_REASON (mw_defaults example_world)"

definition example_delete :: notification where
  "example_delete = (command_of DeleteRule (named_rule (entry_rule_name example_entry)))\<lparr> n_id := 1 \<rparr>"

theorem inert_bridge_adds_nothing_witness:
  "example_delete \<in> queued (cd_commands (manager_run example_env (DeleteOp DNS_ENTRY_ID (entry_rule_name example_entry)) example_inert))
     \<and> (n_type example_delete = DeleteRule \<or> (\<forall>r \<in> set (n_rules example_delete). \<not> r_enabled r))"
proof -
  let ?m = "manager_run example_env (DeleteOp DNS_ENTRY_ID (entry_rule_name example_entry)) example_inert"
  have "map_option os_queue (fmlookup (dc_streams (cd_commands ?m)) 1) = Some [example_delete]" by code_simp
  then have sent: "example_delete \<in> queued (cd_commands ?m)"
    unfolding queued_def by (intro CollectI exI[of _ 1]) (auto simp del: manager_run.simps)
  have new: "example_delete \<notin> queued (cd_commands example_inert)" using example_empty by (simp add: example_inert_def set_unavailable_def)
  have "is_inert example_inert" by (simp add: example_inert_def set_unavailable_def)
  from inert_bridge_adds_nothing[OF this sent new] sent show ?thesis by blast
qed

end
