(* ===== verification/Curated_Settle.thy ===== *)
theory Curated_Settle
  imports Curated_Machine_Props Daemon_Props
begin

text \<open>
  A pass that runs again on the same list leaves the choices as they are and does not repeat a
  command that failed, so the worker, which looks again whenever a pass changed the choices,
  comes to rest; and a pass plans and sends the installs that are wanted.
\<close>

section \<open>One entry of the choices\<close>










section \<open>Plans settle\<close>




section \<open>Passes settle\<close>

text \<open>The parts of a pass after the plan leave the choices and the failures alone.\<close>

definition choices_kept :: "manager_state \<Rightarrow> manager_state \<Rightarrow> bool" where
  "choices_kept s s' \<longleftrightarrow> ms_choices s' = ms_choices s \<and> ms_version s' = ms_version s \<and> ms_inert s' = ms_inert s
     \<and> ms_broad_revision s' = ms_broad_revision s"

lemma kept_frame [simp]:
  "choices_kept s s" "choices_kept s (s'\<lparr> ms_reenables := a1 \<rparr>) = choices_kept s s'"
  "choices_kept s (s'\<lparr> ms_statuses := a2 \<rparr>) = choices_kept s s'" "choices_kept s (s'\<lparr> ms_problems := a3 \<rparr>) = choices_kept s s'"
  "choices_kept s (s'\<lparr> ms_failures := a4 \<rparr>) = choices_kept s s'" "choices_kept s (s'\<lparr> ms_removal_failures := a5 \<rparr>) = choices_kept s s'"
  "choices_kept s (s'\<lparr> ms_removals := a6 \<rparr>) = choices_kept s s'" "choices_kept s (s'\<lparr> ms_install_refusals := a7 \<rparr>) = choices_kept s s'"
  "choices_kept s (s'\<lparr> ms_withheld := a8 \<rparr>) = choices_kept s s'" "choices_kept s (s'\<lparr> ms_found := a9 \<rparr>) = choices_kept s s'"
  "choices_kept s (s'\<lparr> ms_moved := b1 \<rparr>) = choices_kept s s'" "choices_kept s (s'\<lparr> ms_repinned := b2 \<rparr>) = choices_kept s s'"
  "choices_kept s (set_status i st s') = choices_kept s s'" "choices_kept s (set_problem i text s') = choices_kept s s'"
  "choices_kept s (show_failure i fl s') = choices_kept s s'"
  by (simp_all add: choices_kept_def set_status_def set_problem_def show_failure_def)

lemma kept_fold: "(\<And>x s'. choices_kept s (f x s') = choices_kept s s') \<Longrightarrow> choices_kept s (fold f xs s') = choices_kept s s'"
  by (induction xs arbitrary: s') auto

lemma kept_moved: "choices_kept s (fst (handle_moved v mv rules s')) = choices_kept s s'"
proof -
  have one: "choices_kept s (fst (handle_moved_entry v rules i x)) = choices_kept s (fst x)" for i x
    by (cases x) (auto simp: handle_moved_entry_def Let_def undecided_def split: option.split)
  have "choices_kept s (fst (fold (handle_moved_entry v rules) ids x)) = choices_kept s (fst x)" for ids x
    using one by (induction ids arbitrary: x) auto
  then show ?thesis by (simp add: handle_moved_def)
qed

lemma kept_unfailed: "choices_kept s (fst (keep_unfailed as s')) = choices_kept s s'"
  by (induction as s' rule: keep_unfailed.induct) (auto simp: case_prod_beta Let_def split: option.split)

lemma kept_withhold: "choices_kept s (fst (withhold actions w f s')) = choices_kept s s'"
proof -
  have one: "choices_kept s (withhold_entry w i x) = choices_kept s x" for i x by (simp add: withhold_entry_def Let_def)
  show ?thesis using kept_fold[of s "withhold_entry w", OF one] by (simp add: withhold_def)
qed

lemma kept_removal_failures: "choices_kept s (show_removal_failures v daemon generation s') = choices_kept s s'"
proof -
  have "choices_kept s (fold (\<lambda>i. show_failure i (g i)) is x) = choices_kept s x" for g "is" x
    by (rule kept_fold) simp
  then show ?thesis unfolding show_removal_failures_def Let_def by simp
qed

lemma pass_plan_choices:
  assumes "ms_inert s = None"
  shows "ms_choices (fst (pass_plan v daemon generation f s)) = pl_choices (plan v daemon (ms_choices s))
    \<and> ms_version (fst (pass_plan v daemon generation f s))
        = (if pl_choices (plan v daemon (ms_choices s)) = ms_choices s then ms_version s else ms_version s + 1)
    \<and> ms_inert (fst (pass_plan v daemon generation f s)) = None
    \<and> ms_broad_revision (fst (pass_plan v daemon generation f s)) = ms_broad_revision s"
proof -
  let ?p = "plan v daemon (ms_choices s)"
  define s1 where "s1 = keep (pl_choices ?p) (s\<lparr> ms_problems := fmempty, ms_statuses := pl_statuses ?p \<rparr>)"
  have "choices_kept s1 (fst (pass_plan v daemon generation f s))"
    using assms
    by (simp add: pass_plan_def Let_def case_prod_beta kept_withhold kept_removal_failures without_failed_def kept_unfailed kept_moved s1_def)
  moreover have "ms_choices s1 = pl_choices ?p"
    "ms_version s1 = (if pl_choices ?p = ms_choices s then ms_version s else ms_version s + 1)" "ms_inert s1 = None" "ms_broad_revision s1 = ms_broad_revision s"
    using assms by (auto simp: s1_def keep_def)
  ultimately show ?thesis by (simp add: choices_kept_def)
qed

section \<open>What a pass sends\<close>

lemma keep_unfailed_actions: "snd (keep_unfailed as s) = filter (\<lambda>a. fmlookup (ms_failures s) (action_id a) = None) as"
proof (induction as s rule: keep_unfailed.induct)
  case (2 a as s)
  have same: "ms_failures (show_failure i fl x) = ms_failures x" for i fl x
    by (simp add: show_failure_def set_problem_def set_status_def)
  show ?case
    using 2 by (cases "fmlookup (ms_failures s) (action_id a)") (simp_all add: case_prod_beta Let_def same)
qed simp

lemma without_failed_actions:
  "snd (without_failed as generation s)
     = filter (\<lambda>a. \<forall>fl. fmlookup (ms_failures s) (action_id a) = Some fl \<longrightarrow> fl_generation fl \<noteq> generation) as"
  unfolding without_failed_def keep_unfailed_actions
  by (rule filter_cong) (auto split: option.splits)

lemma handle_moved_failures: "ms_failures (fst (handle_moved v mv rules s)) = ms_failures s"
proof -
  have one: "ms_failures (fst (handle_moved_entry v rules i x)) = ms_failures (fst x)" for i x
    by (cases x) (auto simp: handle_moved_entry_def Let_def undecided_def set_problem_def split: option.split)
  have "ms_failures (fst (fold (handle_moved_entry v rules) ids x)) = ms_failures (fst x)" for ids x
    using one by (induction ids arbitrary: x) auto
  then show ?thesis by (simp add: handle_moved_def)
qed

lemma handle_moved_upgrades: "a \<in> set (snd (handle_moved v mv rules s)) \<Longrightarrow> \<exists>i. a = Upgrade i"
proof -
  have "\<forall>a \<in> set (snd (fold (handle_moved_entry v rules) ids x)). \<exists>i. a = Upgrade i" if "\<forall>a \<in> set (snd x). \<exists>i. a = Upgrade i" for ids x
    using that
  proof (induction ids arbitrary: x)
    case (Cons i ids)
    have "\<forall>a \<in> set (snd (handle_moved_entry v rules i x)). \<exists>i. a = Upgrade i"
      using Cons.prems by (cases x) (auto simp: handle_moved_entry_def Let_def split: option.splits)
    with Cons.IH show ?case by simp
  qed simp
  from this[of "(s\<lparr> ms_moved := mv \<rparr>, [])" "sorted_list_of_fset mv"]
  show "a \<in> set (snd (handle_moved v mv rules s)) \<Longrightarrow> \<exists>i. a = Upgrade i" by (simp add: handle_moved_def)
qed

text \<open>The actions of a pass: those planned and the moves, without what failed on this stream and
  without what waits for its account.\<close>

lemma pass_plan_actions:
  assumes "ms_inert s = None"
  obtains moves where "\<And>a. a \<in> set moves \<Longrightarrow> \<exists>i. a = Upgrade i"
    "pw_actions (snd (pass_plan v daemon generation f s)) = map (\<lambda>a. (a, ms_broad_revision s))
       (filter (\<lambda>a. \<not> (case a of Install i \<Rightarrow> i |\<in>| fmdom (withheld v f) | Upgrade i \<Rightarrow> i |\<in>| fmdom (withheld v f) | Delete _ _ \<Rightarrow> False))
         (filter (\<lambda>a. \<forall>fl. fmlookup (ms_failures s) (action_id a) = Some fl \<longrightarrow> fl_generation fl \<noteq> generation)
           (pl_actions (plan v daemon (ms_choices s)) @ moves)))"
proof -
  let ?p = "plan v daemon (ms_choices s)"
  define s1 where "s1 = keep (pl_choices ?p) (s\<lparr> ms_problems := fmempty, ms_statuses := pl_statuses ?p \<rparr>)"
  define s2 where "s2 = s1\<lparr> ms_install_refusals :=
      fm_retain (\<lambda>i x. i |\<notin>| ch_enabled (ms_choices s1) \<and> snd x = generation) (ms_install_refusals s1),
      ms_repinned := fm_retain (\<lambda>_ seen. seen = generation) (ms_repinned s1) \<rparr>"
  define moves where "moves = handle_moved v (moved v f (dr_rules daemon)) (dr_rules daemon) s2"
  define failed where "failed = without_failed (pl_actions ?p @ snd moves) generation (fst moves)"
  define s3 where "s3 = show_removal_failures v daemon generation (fst failed)"
  define held where "held = withhold (snd failed) (withheld v f) f s3"
  have plan: "pass_plan v daemon generation f s = ((fst held)\<lparr> ms_removals := {||}, ms_reenables := fmempty \<rparr>,
      \<lparr> pw_actions = map (\<lambda>a. (a, ms_broad_revision (fst held))) (snd held), pw_removals = ms_removals (fst held),
        pw_reenables = ms_reenables (fst held) \<rparr>)"
    using assms by (simp add: pass_plan_def Let_def case_prod_beta held_def s3_def failed_def moves_def s2_def s1_def)
  have revision: "ms_broad_revision (fst held) = ms_broad_revision s"
    using pass_plan_choices[OF assms, of v daemon generation f] by (simp add: plan)
  have failures: "ms_failures (fst moves) = ms_failures s"
    by (simp add: moves_def handle_moved_failures s2_def s1_def keep_def)
  have "snd held = filter (\<lambda>a. \<not> (case a of Install i \<Rightarrow> i |\<in>| fmdom (withheld v f) | Upgrade i \<Rightarrow> i |\<in>| fmdom (withheld v f) | Delete _ _ \<Rightarrow> False))
      (filter (\<lambda>a. \<forall>fl. fmlookup (ms_failures s) (action_id a) = Some fl \<longrightarrow> fl_generation fl \<noteq> generation)
        (pl_actions ?p @ snd moves))"
    by (simp only: held_def withhold_def snd_conv failed_def without_failed_actions failures)
  then show thesis
    using that[of "snd moves"] handle_moved_upgrades unfolding moves_def[symmetric] plan revision by (simp add: moves_def)
qed

text \<open>When the turn of an install comes: the bridge still manages its rules on the same daemon
  stream, the entry is still on, missing and not deleted, and a broad one still has its saved
  consent.\<close>

definition install_ready :: "curated_env \<Rightarrow> nat \<Rightarrow> 64 word \<Rightarrow> rstr \<Rightarrow> curated_defaults \<Rightarrow> bool" where
  "install_ready v generation revision i m \<longleftrightarrow>
     (case entry_of v i of
        None \<Rightarrow> False
      | Some e \<Rightarrow>
          ms_inert (cd_state m) = None \<and> generation_of m = generation
          \<and> i |\<in>| ch_enabled (ms_choices (cd_state m)) \<and> i |\<notin>| ch_deleted (ms_choices (cd_state m))
          \<and> still_missing (entry_rule_name e) (cd_commands m) \<and> (broad e \<longrightarrow> \<not> no_authority v revision i (cd_state m)))"

definition in_queue :: "notification \<Rightarrow> daemon_commands \<Rightarrow> bool" where
  "in_queue n d \<longleftrightarrow> (\<exists>stream os. fmlookup (dc_streams d) stream = Some os \<and> n \<in> set (os_queue os))"

text \<open>The worker hands the rule of the entry to the sender, which either queues exactly this
  change for the daemon or says why not; it waits for the answer, records it and goes on.\<close>

definition install_tried ::
  "curated_env \<Rightarrow> pass_env \<Rightarrow> nat \<Rightarrow> nat \<Rightarrow> 64 word \<Rightarrow> rstr \<Rightarrow> (curated_action \<times> 64 word) list \<Rightarrow> curated_defaults \<Rightarrow> bool" where
  "install_tried v pe generation epoch revision i rest m \<longleftrightarrow>
     (\<exists>e r m' sent w. entry_of v i = Some e \<and> r = rule_as e (account_uid e (ms_found (cd_state m)))
        \<and> install_send v generation revision i m = (m', Attempted sent w)
        \<and> w = \<lparr> wg_id = i, wg_name = entry_rule_name e, wg_done = DoneInstall r \<rparr>
        \<and> (\<forall>k. sent = Inr k \<longrightarrow> in_queue ((command_of ChangeRule r)\<lparr> n_id := k \<rparr>) (cd_commands m'))
        \<and> apply_each v pe generation epoch ((Install i, revision) # rest) m =
            (let (m'', outcome) = awaited pe sent RefusalAdd m'
             in apply_each v pe generation epoch rest (save_and_announce v pe (apply_finish v generation epoch w outcome m''))))"

lemma enqueued_queued:
  assumes "enqueue n ts stream d = Some (Inr k, d')"
  shows "in_queue (n\<lparr> n_id := k \<rparr>) d'"
proof -
  obtain e c where q: "queue_on ts (n\<lparr> n_id := dc_next_id d \<rparr>) (d\<lparr> dc_next_id := dc_next_id d + 1 \<rparr>) = Some (e, c)"
    using assms by (auto simp: enqueue_def Let_def split: option.splits)
  then have "k = dc_next_id d" "0 < c" "dc_streams d' = dc_streams e"
    using assms by (auto simp: enqueue_def Let_def refused_def split: if_splits)
  with queue_on_count[OF q] show ?thesis by (auto simp: in_queue_def)
qed

lemma install_ready_tried:
  assumes "install_ready v generation revision i m" "streams_inv (cd_commands m)"
  shows "install_tried v pe generation epoch revision i rest m"
proof -
  let ?d = "cd_commands m"
  obtain e where e: "entry_of v i = Some e" and ready: "ms_inert (cd_state m) = None" "generation_of m = generation"
      "i |\<in>| ch_enabled (ms_choices (cd_state m))" "i |\<notin>| ch_deleted (ms_choices (cd_state m))"
      "still_missing (entry_rule_name e) ?d" "broad e \<longrightarrow> \<not> no_authority v revision i (cd_state m)"
    using assms(1) by (auto simp: install_ready_def split: option.splits)
  define r where "r = rule_as e (account_uid e (ms_found (cd_state m)))"
  define sending where "sending =
    (if broad e then send_curated_guarded (cv_lib v) (cv_entries v) (authorized_install e (account_uid e (ms_found (cd_state m)))) generation False ?d
     else send_curated (cv_lib v) (cv_entries v) (install_as e (account_uid e (ms_found (cd_state m)))) ?d)"
  have "\<exists>res d'. sending = Some (res, d')"
    using dispatch_total[OF assms(2)]
    by (simp add: sending_def send_curated_def send_curated_guarded_def send_curated_guarded_as_def dispatch_def split: sum.split)
  then obtain sent d' where sent: "sending = Some (sent, d')" by blast
  define w where "w = \<lparr> wg_id = i, wg_name = entry_rule_name e, wg_done = DoneInstall r \<rparr>"
  have send: "install_send v generation revision i m = (m\<lparr> cd_commands := d' \<rparr>, Attempted sent w)"
    using e ready sent by (simp add: install_send_def Let_def attempted_def sending_def w_def r_def)
  have "\<exists>ts stream. enqueue (command_of ChangeRule r) ts stream ?d = Some (sent, d')" if "sent = Inr k" for k
    using sent that dispatch_enqueues
    by (fastforce simp: sending_def r_def send_curated_def send_curated_guarded_def send_curated_guarded_as_def dispatch_def
        authorized_install_def authorize_def install_as_def curated_change_def split: sum.splits if_splits)
  then have queue: "in_queue ((command_of ChangeRule r)\<lparr> n_id := k \<rparr>) d'" if "sent = Inr k" for k
    using that enqueued_queued by blast
  have "ce_id e = i" using e by (auto simp: entry_of_def find_Some_iff)
  then have wanted: "still_wanted v ?d (cd_state m) (Install i)"
    using ready by (simp add: still_wanted_def curated_rule_name_def entry_rule_name_def)
  have "apply_each v pe generation epoch ((Install i, revision) # rest) m =
      (let (m'', outcome) = awaited pe sent RefusalAdd (m\<lparr> cd_commands := d' \<rparr>)
       in apply_each v pe generation epoch rest (save_and_announce v pe (apply_finish v generation epoch w outcome m'')))"
    using wanted ready(2) send by (simp add: apply_action_def carry_out_def Let_def case_prod_beta)
  then show ?thesis unfolding install_tried_def using e send queue unfolding w_def r_def by auto
qed


definition example_list :: daemon_rules where
  "example_list = \<lparr> dr_rules = fmempty, dr_left_out = {||}, dr_files_left = {||}, dr_maybe_applied = {||} \<rparr>"



text \<open>
  C18. Every wanted rule gets its turn: the next pass of a bridge that manages its rules plans the
  install of an entry if and only if the entry is on, missing, not deleted by the user and,
  when it may reach any address, consented to; unless its account is not confirmed, or the
  same command failed on this very daemon stream. It carries the revision of the consents
  at that moment. And the pass sends it: when its turn comes, unless the bridge, the daemon
  stream, the entry or its consent changed meanwhile, the worker hands the entry's rule to the
  sender, which queues exactly this change for the daemon or says why it cannot, and the answer
  is awaited and recorded before the next command.
\<close>

theorem pass_installs_exactly_wanted:
  assumes "ms_inert s = None"
  shows "((Install i, revision) \<in> set (pw_actions (snd (pass_plan v daemon generation f s))) \<longleftrightarrow>
    warranted v daemon (ms_choices s) (Install i) \<and> revision = ms_broad_revision s \<and> i |\<notin>| fmdom (withheld v f)
    \<and> (\<forall>fl. fmlookup (ms_failures s) i = Some fl \<longrightarrow> fl_generation fl \<noteq> generation))
    \<and> (install_ready v generation revision i m \<and> streams_inv (cd_commands m)
        \<longrightarrow> install_tried v pe generation epoch revision i rest m)"
proof -
  obtain moves where moves: "\<And>a. a \<in> set moves \<Longrightarrow> \<exists>i. a = Upgrade i"
    and actions: "pw_actions (snd (pass_plan v daemon generation f s)) = map (\<lambda>a. (a, ms_broad_revision s))
       (filter (\<lambda>a. \<not> (case a of Install i \<Rightarrow> i |\<in>| fmdom (withheld v f) | Upgrade i \<Rightarrow> i |\<in>| fmdom (withheld v f) | Delete _ _ \<Rightarrow> False))
         (filter (\<lambda>a. \<forall>fl. fmlookup (ms_failures s) (action_id a) = Some fl \<longrightarrow> fl_generation fl \<noteq> generation)
           (pl_actions (plan v daemon (ms_choices s)) @ moves)))"
    using pass_plan_actions[OF assms, of v daemon generation f] by blast
  have "Install i \<notin> set moves" using moves by blast
  then show ?thesis
    using plan_actions_warranted[of "Install i"] install_ready_tried unfolding actions by auto
qed

definition example_managed :: curated_defaults where
  "example_managed = (new_defaults (dw_cmds greeted_world) None)\<lparr> cd_state := new_manager_state\<lparr> ms_choices := example_choices,
     ms_found := fmupd (lit ''systemd-resolve'') (Some 990) fmempty,
     ms_storage := \<lparr> st_persistent = True, st_reason = None, st_unreadable = False \<rparr> \<rparr> \<rparr>"

definition example_awaits :: pass_env where
  "example_awaits = \<lparr> pe_save = (\<lambda>m. m), pe_found = (\<lambda>m. (m, fmempty)), pe_reply = (\<lambda>_ m. (m, Inr ())) \<rparr>"

theorem pass_installs_exactly_wanted_witness:
  "(Install DNS_ENTRY_ID, 0) \<in> set (pw_actions (snd (pass_plan example_env example_list 0
      (fmupd (lit ''systemd-resolve'') (Some 990) fmempty) (new_manager_state\<lparr> ms_choices := example_choices \<rparr>))))
   \<and> install_tried example_env example_awaits 1 1 0 DNS_ENTRY_ID [] example_managed"
proof -
  let ?s = "new_manager_state\<lparr> ms_choices := example_choices \<rparr>" and ?f = "fmupd (lit ''systemd-resolve'') (Some (990::nat)) fmempty"
  have inert: "ms_inert ?s = None" by (simp add: new_manager_state_def)
  have "Install DNS_ENTRY_ID \<in> set (pl_actions (plan example_env example_list example_choices))" by code_simp
  then have "warranted example_env example_list (ms_choices ?s) (Install DNS_ENTRY_ID)"
    using plan_actions_warranted by simp
  moreover have "DNS_ENTRY_ID |\<notin>| fmdom (withheld example_env ?f)" by code_simp
  moreover have "install_ready example_env 1 0 DNS_ENTRY_ID example_managed" by code_simp
  moreover have "streams_inv (cd_commands example_managed)"
    using daemon_machine.inv_reachable[OF greeted_reached] by (simp add: daemon_inv_def example_managed_def new_defaults_def)
  ultimately show ?thesis
    using pass_installs_exactly_wanted[OF inert, of DNS_ENTRY_ID 0 example_env example_list 0 ?f example_managed]
      pass_installs_exactly_wanted[OF inert, of DNS_ENTRY_ID 0 example_env example_list 1 ?f example_managed example_awaits 1 "[]"]
    by (simp add: new_manager_state_def)
qed

end
