(* ===== verification/Rule_Import.thy ===== *)
theory Rule_Import
  imports Rule_Wire
begin

text \<open>
  \<open>rule_io.rs\<close> with its modules \<open>preview.rs\<close>, \<open>caution.rs\<close> and \<open>limits.rs\<close>: a rules file
  and its envelope, what an export writes and leaves out, and the preview of an import: one
  item per rule of the file, with what applying it would do and why it starts unticked.

  A caution, a changed field and a problem are constructors instead of the fixed texts of
  the source. The protobuf library's size of a rule is the argument \<open>encoded_len\<close>, the JSON
  parser the argument \<open>from_str\<close>.
\<close>

section \<open>Documents\<close>

definition FORMAT :: rstr where "FORMAT = lit ''snitchwatch.rules''"
definition VERSION :: nat where "VERSION = 1"
definition MAX_CLIENT_MESSAGE_BYTES :: nat where "MAX_CLIENT_MESSAGE_BYTES = 1024 * 1024"
definition ENVELOPE_SLACK_BYTES :: nat where "ENVELOPE_SLACK_BYTES = 64 * 1024"
definition MAX_DOCUMENT_BYTES :: nat where
  "MAX_DOCUMENT_BYTES = MAX_CLIENT_MESSAGE_BYTES - ENVELOPE_SLACK_BYTES"

record source_info =
  so_daemon_version :: "rstr option"

record document =
  d_format :: rstr
  d_version :: nat
  d_exported_at_unix_ms :: nat
  d_source :: source_info
  d_rules :: "json list"

datatype document_error = TooLarge | NotJson | NotRulesFile | Newer | UnsupportedVersion | Malformed | TooManyFileRules

definition no_source :: source_info where "no_source = \<lparr> so_daemon_version = None \<rparr>"

text \<open>\<open>serde\<close> on the two structs: an unknown member is refused, a missing one is the default
  where the struct says so, a struct may also be written as the array of its fields, and an
  integer is never read from a float.\<close>

fun option_str_from_json :: "json \<Rightarrow> rstr option option" where
  "option_str_from_json JNull = Some None"
| "option_str_from_json (JString s) = Some (Some s)"
| "option_str_from_json _ = None"

fun unsigned_from_json :: "nat \<Rightarrow> json \<Rightarrow> nat option" where
  "unsigned_from_json largest (JNumber n) = (if 0 \<le> n \<and> n \<le> int largest then Some (nat n) else None)"
| "unsigned_from_json largest _ = None"

fun source_from_json :: "json \<Rightarrow> source_info option" where
  "source_from_json (JObject ms) =
     (if list_all (\<lambda>(k, _). k = lit ''daemonVersion'') ms
      then (case map_of ms (lit ''daemonVersion'') of
              None \<Rightarrow> Some no_source
            | Some v \<Rightarrow> map_option (\<lambda>d. \<lparr> so_daemon_version = d \<rparr>) (option_str_from_json v))
      else None)"
| "source_from_json (JArray []) = Some no_source"
| "source_from_json (JArray [v]) = map_option (\<lambda>d. \<lparr> so_daemon_version = d \<rparr>) (option_str_from_json v)"
| "source_from_json _ = None"

definition DOCUMENT_FIELDS :: "rstr list" where
  "DOCUMENT_FIELDS = map lit [''format'', ''version'', ''exportedAtUnixMs'', ''source'', ''rules'']"

definition document_from_json :: "(rstr \<times> json) list \<Rightarrow> document option" where
  "document_from_json ms =
     (if \<not> list_all (\<lambda>(k, _). k \<in> set DOCUMENT_FIELDS) ms then None
      else case (Option.bind (map_of ms (lit ''format'')) as_str,
                 Option.bind (map_of ms (lit ''version'')) (unsigned_from_json U32_MAX),
                 (case map_of ms (lit ''exportedAtUnixMs'') of None \<Rightarrow> Some 0 | Some v \<Rightarrow> unsigned_from_json U64_MAX v),
                 (case map_of ms (lit ''source'') of None \<Rightarrow> Some no_source | Some v \<Rightarrow> source_from_json v),
                 Option.bind (map_of ms (lit ''rules'')) as_array) of
             (Some f, Some v, Some at, Some src, Some rules) \<Rightarrow>
               Some \<lparr> d_format = f, d_version = v, d_exported_at_unix_ms = at, d_source = src, d_rules = rules \<rparr>
           | _ \<Rightarrow> None)"

text \<open>\<open>Value::as_f64\<close> as numerator and exponent of the denominator. The rounding of a large
  integer keeps it an integer larger than 1, which is all the caller asks.\<close>

fun as_f64 :: "json \<Rightarrow> (int \<times> nat) option" where
  "as_f64 (JNumber n) = Some (n, 0)"
| "as_f64 (JFloat m k) = Some (m, k)"
| "as_f64 _ = None"

definition json_put :: "rstr \<Rightarrow> json \<Rightarrow> (rstr \<times> json) list \<Rightarrow> (rstr \<times> json) list" where
  "json_put key v ms = (key, v) # filter (\<lambda>(k, _). k \<noteq> key) ms"

definition parse_document :: "json \<Rightarrow> document_error + document" where
  "parse_document v =
     (case v of
        JObject ms \<Rightarrow>
          (if Option.bind (map_of ms (lit ''format'')) as_str \<noteq> Some FORMAT then Inl NotRulesFile
           else case Option.bind (map_of ms (lit ''version'')) as_f64 of
             None \<Rightarrow> Inl UnsupportedVersion
           | Some (m, k) \<Rightarrow>
               if m mod 2 ^ k \<noteq> 0 then Inl UnsupportedVersion
               else if m = int VERSION * 2 ^ k
               then (case document_from_json (json_put (lit ''version'') (JNumber (int VERSION)) ms) of
                       None \<Rightarrow> Inl Malformed
                     | Some doc \<Rightarrow> if length (d_rules doc) > MAX_SNAPSHOT_RULES then Inl TooManyFileRules else Inr doc)
               else if m > int VERSION * 2 ^ k then Inl Newer
               else Inl UnsupportedVersion)
      | _ \<Rightarrow> Inl NotRulesFile)"

definition parse_document_text :: "(rstr \<Rightarrow> json option) \<Rightarrow> rstr \<Rightarrow> document_error + document" where
  "parse_document_text from_str text =
     (if str_len text > MAX_DOCUMENT_BYTES then Inl TooLarge
      else case from_str text of None \<Rightarrow> Inl NotJson | Some v \<Rightarrow> parse_document v)"

text \<open>\<open>serde\<close>'s other direction, what an export's reader gets.\<close>

definition source_to_json :: "source_info \<Rightarrow> json" where
  "source_to_json src =
     JObject (case so_daemon_version src of None \<Rightarrow> [] | Some v \<Rightarrow> [(lit ''daemonVersion'', JString v)])"

definition document_to_json :: "document \<Rightarrow> json" where
  "document_to_json doc = JObject
     [(lit ''format'', JString (d_format doc)), (lit ''version'', JNumber (int (d_version doc))),
      (lit ''exportedAtUnixMs'', JNumber (int (d_exported_at_unix_ms doc))),
      (lit ''source'', source_to_json (d_source doc)), (lit ''rules'', JArray (d_rules doc))]"

section \<open>Export\<close>

record omitted_counts =
  om_once :: nat
  om_timed :: nat
  om_managed :: nat
  om_unsupported_name :: nat
  om_unsupported_rule :: nat

definition no_omitted :: omitted_counts where
  "no_omitted = \<lparr> om_once = 0, om_timed = 0, om_managed = 0, om_unsupported_name = 0, om_unsupported_rule = 0 \<rparr>"

definition export_rule :: "rule \<Rightarrow> json" where
  "export_rule r = JObject
     [(lit ''name'', JString (r_name r)), (lit ''enabled'', JBool (r_enabled r)),
      (lit ''action'', JString (r_action r)), (lit ''duration'', JString (r_duration r)),
      (lit ''description'', JString (r_description r)), (lit ''precedence'', JBool (r_precedence r)),
      (lit ''nolog'', JBool (r_nolog r)),
      (lit ''operator'', case r_operator r of Some op \<Rightarrow> operator_to_wire op | None \<Rightarrow> JNull)]"

definition is_bridge_owned :: "rstr \<Rightarrow> bool" where
  "is_bridge_owned name = is_reserved_name name"

definition export_step :: "regex_lib \<Rightarrow> rule \<Rightarrow> omitted_counts \<times> json list \<Rightarrow> omitted_counts \<times> json list" where
  "export_step lib r = (\<lambda>(om, exported).
     if is_bridge_owned (r_name r) then (om\<lparr> om_managed := om_managed om + 1 \<rparr>, exported)
     else if validate_rule_name (r_name r) \<noteq> Inr ()
     then (om\<lparr> om_unsupported_name := om_unsupported_name om + 1 \<rparr>, exported)
     else if r_duration r = lit ''once'' then (om\<lparr> om_once := om_once om + 1 \<rparr>, exported)
     else if r_duration r \<notin> {lit ''always'', lit ''until restart''}
     then (om\<lparr> om_timed := om_timed om + 1 \<rparr>, exported)
     else if validate_user_rule lib r Import \<noteq> Inr ()
     then (om\<lparr> om_unsupported_rule := om_unsupported_rule om + 1 \<rparr>, exported)
     else (om, exported @ [export_rule r]))"

definition fm_values :: "('k::linorder, 'v) fmap \<Rightarrow> 'v list" where
  "fm_values m = map (\<lambda>k. the (fmlookup m k)) (fm_keys m)"

definition export_rules :: "regex_lib \<Rightarrow> rules_cache \<Rightarrow> nat \<Rightarrow> (document \<times> omitted_counts) option" where
  "export_rules lib c now_unix_ms =
     (case rc_rules c of
        None \<Rightarrow> None
      | Some rules \<Rightarrow>
          (let (om, exported) = fold (export_step lib) (fm_values rules) (no_omitted, [])
           in Some (\<lparr> d_format = FORMAT, d_version = VERSION, d_exported_at_unix_ms = now_unix_ms,
                      d_source = no_source, d_rules = exported \<rparr>, om)))"

datatype import_reason =
  WireReason wire_error | PolicyReason problem_reason | ENABLED_MISSING | DUPLICATE_NAME | HIDDEN_NAME

type_synonym import_problem = "rstr \<times> import_reason"

definition policy_problems :: "rule_problem list \<Rightarrow> import_problem list" where
  "policy_problems ps = map (\<lambda>(path, why). (path, PolicyReason why)) ps"

definition check_rule_for_apply :: "regex_lib \<Rightarrow> rule \<Rightarrow> import_problem list + rule" where
  "check_rule_for_apply lib r =
     (case rule_from_wire lib (export_rule r) of
        Inl e \<Rightarrow> Inl [(lit ''rule'', WireReason e)]
      | Inr reparsed \<Rightarrow>
          (case validate_user_rule lib reparsed Import of Inl ps \<Rightarrow> Inl (policy_problems ps) | Inr _ \<Rightarrow> Inr reparsed))"

section \<open>Comparing rules\<close>

datatype rule_field =
  EnabledField | ActionField | DurationField | DescriptionField | PrecedenceField | NologField | ConditionsField

fun normalised_operator :: "operator \<Rightarrow> operator" where
  "normalised_operator (Operator ty operand data sensitive members) =
     (if ty = lit ''list'' then Operator ty (lit ''list'') [] False (map normalised_operator members)
      else Operator ty operand data sensitive (map normalised_operator members))"

definition changed_fields :: "rule \<Rightarrow> rule \<Rightarrow> rule_field list" where
  "changed_fields old new =
     (if r_enabled old = r_enabled new then [] else [EnabledField])
     @ (if r_action old = r_action new then [] else [ActionField])
     @ (if r_duration old = r_duration new then [] else [DurationField])
     @ (if r_description old = r_description new then [] else [DescriptionField])
     @ (if r_precedence old = r_precedence new then [] else [PrecedenceField])
     @ (if r_nolog old = r_nolog new then [] else [NologField])
     @ (if map_option normalised_operator (r_operator old) = map_option normalised_operator (r_operator new)
        then [] else [ConditionsField])"

definition same_rule :: "rule option \<Rightarrow> rule option \<Rightarrow> bool" where
  "same_rule a b =
     (case (a, b) of (None, None) \<Rightarrow> True | (Some a, Some b) \<Rightarrow> changed_fields a b = [] | _ \<Rightarrow> False)"

definition only_enabled_differs :: "rule \<Rightarrow> rule \<Rightarrow> bool" where
  "only_enabled_differs old new \<longleftrightarrow> list_all (\<lambda>field. field = EnabledField) (changed_fields old new)"

definition is_deny :: "rule \<Rightarrow> bool" where
  "is_deny r \<longleftrightarrow> r_action r \<in> {lit ''deny'', lit ''reject''}"

definition weakens :: "rule \<Rightarrow> rule \<Rightarrow> bool" where
  "weakens old new \<longleftrightarrow>
     is_deny old \<and> r_action new = lit ''allow''
     \<or> is_deny old \<and> r_enabled old \<and> \<not> r_enabled new
     \<or> r_action new = lit ''allow'' \<and> r_precedence new \<and> \<not> (r_action old = lit ''allow'' \<and> r_precedence old)"

section \<open>Cautions\<close>

datatype caution =
  ALLOW_OVERRIDES | ALLOW_ALL_APPS | DENY_TO_ALLOW | DENY_OFF | DENY_ON | DENY_CONDITIONS | ALLOW_CONDITIONS
| ALLOW_ON | ALLOW_UNLOGGED | ALLOW_PERMANENT | DENY_UNLOGGED | LAUNCHER_ANYWHERE | DenyLasts rstr rstr

definition LAUNCHERS :: "rstr list" where
  "LAUNCHERS = map lit [''python'', ''python3'', ''bash'', ''sh'', ''zsh'', ''dash'', ''ksh'', ''fish'', ''env'',
     ''perl'', ''ruby'', ''node'', ''deno'', ''bun'', ''lua'', ''tclsh'', ''pwsh'', ''java'', ''php'', ''awk'',
     ''gawk'', ''mawk'', ''busybox'', ''toybox'', ''socat'', ''nc'', ''ncat'', ''netcat'', ''wine'', ''wine64'',
     ''xargs'', ''nohup'', ''sudo'', ''doas'', ''pkexec'', ''systemd-run'', ''flatpak'', ''flatpak-spawn'', ''steam'']"

definition VERSIONED_LAUNCHERS :: "rstr list" where
  "VERSIONED_LAUNCHERS = map lit [''python3.'', ''python'', ''php'', ''perl'', ''ruby'', ''lua'']"

definition versioned :: "rstr \<Rightarrow> rstr \<Rightarrow> bool" where
  "versioned name pre \<longleftrightarrow>
     prefix pre name
     \<and> (let v = drop (length pre) name in v \<noteq> [] \<and> list_all (\<lambda>b. is_ascii_digit b \<or> b = 46) v)"

definition is_launcher :: "rstr \<Rightarrow> bool" where
  "is_launcher path =
     (let name = last (split_on 47 path)
      in name \<in> set LAUNCHERS \<or> list_ex (versioned name) VERSIONED_LAUNCHERS
         \<or> prefix (lit ''ld-linux'') name \<or> prefix (lit ''ld.so'') name)"

definition operator_leaves :: "operator \<Rightarrow> operator list" where
  "operator_leaves op = (if op_type op = lit ''list'' then op_list op else [op])"

definition launcher_anywhere :: "rule \<Rightarrow> bool" where
  "launcher_anywhere r =
     (case r_operator r of
        None \<Rightarrow> False
      | Some op \<Rightarrow>
          list_ex (\<lambda>l. op_operand l = lit ''process.path'' \<and> op_type l = lit ''simple'' \<and> is_launcher (op_data l))
            (operator_leaves op)
          \<and> \<not> list_ex (\<lambda>l. op_operand l \<in> {lit ''dest.host'', lit ''dest.ip'', lit ''dest.network''}) (operator_leaves op))"

definition lasting :: "rstr \<Rightarrow> rstr" where
  "lasting duration =
     (if duration = lit ''always'' then lit ''always''
      else if duration = lit ''until restart'' then lit ''until the firewall restarts''
      else if duration = lit ''once'' then lit ''once''
      else lit ''for a limited time'')"

definition when_caution :: "bool \<Rightarrow> caution \<Rightarrow> caution list" where
  "when_caution b c = (if b then [c] else [])"

definition cautions :: "rule option \<Rightarrow> rule \<Rightarrow> bool \<Rightarrow> bool \<Rightarrow> caution list" where
  "cautions old new all_apps same_conditions =
     (let allow = (r_action new = lit ''allow'');
          overrode = (case old of None \<Rightarrow> False | Some o1 \<Rightarrow> r_action o1 = lit ''allow'' \<and> r_precedence o1)
      in when_caution (allow \<and> r_precedence new \<and> \<not> overrode) ALLOW_OVERRIDES
         @ when_caution (allow \<and> all_apps) ALLOW_ALL_APPS
         @ when_caution (allow \<and> launcher_anywhere new) LAUNCHER_ANYWHERE
         @ (case old of
              None \<Rightarrow> []
            | Some old \<Rightarrow>
                if is_deny old
                then when_caution allow DENY_TO_ALLOW
                     @ when_caution (r_enabled old \<and> \<not> r_enabled new) DENY_OFF
                     @ when_caution (\<not> r_enabled old \<and> r_enabled new) DENY_ON
                     @ when_caution (\<not> same_conditions) DENY_CONDITIONS
                     @ when_caution (r_duration old \<noteq> r_duration new)
                         (DenyLasts (lasting (r_duration old)) (lasting (r_duration new)))
                     @ when_caution (r_nolog new \<and> \<not> r_nolog old) DENY_UNLOGGED
                else if r_action old = lit ''allow'' \<and> allow
                then when_caution (\<not> same_conditions) ALLOW_CONDITIONS
                     @ when_caution (\<not> r_enabled old \<and> r_enabled new) ALLOW_ON
                     @ when_caution (r_nolog new \<and> \<not> r_nolog old) ALLOW_UNLOGGED
                     @ when_caution (r_duration old \<noteq> lit ''always'' \<and> r_duration new = lit ''always'') ALLOW_PERMANENT
                else []))"

fun plain_field :: "rule_field \<Rightarrow> rstr" where
  "plain_field EnabledField = lit ''on or off''"
| "plain_field ActionField = lit ''action''"
| "plain_field DurationField = lit ''how long it lasts''"
| "plain_field DescriptionField = lit ''description''"
| "plain_field PrecedenceField = lit ''whether it overrides other rules''"
| "plain_field NologField = lit ''logging''"
| "plain_field ConditionsField = lit ''conditions''"

definition applies_to_all_apps :: "rule \<Rightarrow> bool" where
  "applies_to_all_apps r = (case r_operator r of None \<Rightarrow> True | Some op \<Rightarrow> \<not> binds_to_programs op)"

definition edit_cautions :: "rule option \<Rightarrow> rule \<Rightarrow> caution list" where
  "edit_cautions old new =
     cautions old new (applies_to_all_apps new)
       (case old of None \<Rightarrow> True | Some old \<Rightarrow> ConditionsField \<notin> set (changed_fields old new))"

section \<open>The preview\<close>

text \<open>One line per condition.\<close>

definition condition :: "operator \<Rightarrow> rstr" where
  "condition leaf =
     (if op_operand leaf = lit ''true'' then lit ''always''
      else let verb = (if op_type leaf = lit ''regexp'' then lit ''matches''
                       else if op_type leaf = lit ''network'' then lit ''is in'' else lit ''is'');
               shown = strip_display_hazards (op_data leaf)
           in op_operand leaf @ lit '' '' @ verb @ lit '' '' @ shown
              @ (if op_sensitive leaf then lit '' (case-sensitive)'' else [])
              @ (if length shown \<noteq> length (op_data leaf) then lit '' (contains hidden characters, not shown)'' else []))"

definition conditions :: "operator \<Rightarrow> rstr list" where
  "conditions op = map condition (operator_leaves op)"

definition rule_conditions :: "rule \<Rightarrow> rstr list" where
  "rule_conditions r = (case r_operator r of None \<Rightarrow> [] | Some op \<Rightarrow> conditions op)"

record previous_rule =
  pv_enabled :: bool
  pv_action :: rstr
  pv_duration :: rstr
  pv_description :: rstr
  pv_precedence :: bool
  pv_nolog :: bool
  pv_conditions :: "rstr list"

definition previous :: "rule \<Rightarrow> previous_rule" where
  "previous old =
     \<lparr> pv_enabled = r_enabled old, pv_action = r_action old, pv_duration = r_duration old,
       pv_description = strip_display_hazards (r_description old), pv_precedence = r_precedence old,
       pv_nolog = r_nolog old, pv_conditions = rule_conditions old \<rparr>"

datatype import_kind = ItemAdd | ItemReplace | ItemUnchanged | ItemRefused

record import_item =
  it_index :: nat
  it_name :: rstr
  it_display_name :: rstr
  it_kind :: import_kind
  it_changed_fields :: "rstr list"
  it_problems :: "import_problem list"
  it_weakens :: bool
  it_applies_to_all_apps :: bool
  it_precedence :: bool
  it_persists :: bool
  it_enabled :: bool
  it_action :: rstr
  it_duration :: rstr
  it_description :: rstr
  it_nolog :: bool
  it_conditions :: "rstr list"
  it_ticked :: bool
  it_cautions :: "caution list"
  it_previous :: "previous_rule option"

definition empty_item :: import_item where
  "empty_item = \<lparr> it_index = 0, it_name = [], it_display_name = [], it_kind = ItemRefused, it_changed_fields = [],
     it_problems = [], it_weakens = False, it_applies_to_all_apps = False, it_precedence = False,
     it_persists = False, it_enabled = False, it_action = [], it_duration = [], it_description = [],
     it_nolog = False, it_conditions = [], it_ticked = False, it_cautions = [], it_previous = None \<rparr>"

record checked_rule =
  ck_index :: nat
  ck_name :: rstr
  ck_result :: "import_problem list + rule"

definition check_file_rule :: "regex_lib \<Rightarrow> nat \<Rightarrow> json \<Rightarrow> checked_rule" where
  "check_file_rule lib index v =
     (let raw_name = (case Option.bind (json_get v (lit ''name'')) as_str of Some s \<Rightarrow> s | None \<Rightarrow> [])
      in \<lparr> ck_index = index,
           ck_name = (if validate_rule_name raw_name = Inr () then raw_name else []),
           ck_result =
             (case rule_from_wire lib v of
                Inl e \<Rightarrow> Inl [(lit ''rule'', WireReason e)]
              | Inr r \<Rightarrow>
                  if Option.bind (json_get v (lit ''enabled'')) as_bool = None
                  then Inl [(lit ''enabled'', ENABLED_MISSING)]
                  else (case validate_user_rule lib r Import of Inl ps \<Rightarrow> Inl (policy_problems ps) | Inr _ \<Rightarrow> Inr r)) \<rparr>)"

definition times_named :: "rstr \<Rightarrow> checked_rule list \<Rightarrow> nat" where
  "times_named name cs = length (filter (\<lambda>c. ck_name c \<noteq> [] \<and> ck_name c = name) cs)"

definition refuse_duplicate :: "checked_rule list \<Rightarrow> checked_rule \<Rightarrow> checked_rule" where
  "refuse_duplicate checked c =
     (if times_named (ck_name c) checked > 1
      then c\<lparr> ck_result := (case ck_result c of
                              Inr _ \<Rightarrow> Inl [(lit ''name'', DUPLICATE_NAME)]
                            | Inl ps \<Rightarrow> Inl (ps @ [(lit ''name'', DUPLICATE_NAME)])) \<rparr>
      else c)"

definition check_rules :: "regex_lib \<Rightarrow> document \<Rightarrow> checked_rule list" where
  "check_rules lib doc =
     (let checked = map (\<lambda>(index, v). check_file_rule lib index v) (enumerate 0 (d_rules doc))
      in map (refuse_duplicate checked) checked)"

definition classify_parsed :: "import_item \<Rightarrow> rule \<Rightarrow> rule option \<Rightarrow> import_item" where
  "classify_parsed item parsed cached =
     (let changed = (case cached of None \<Rightarrow> [] | Some old \<Rightarrow> changed_fields old parsed);
          kind = (if cached = None then ItemAdd else if changed = [] then ItemUnchanged else ItemReplace);
          all_apps = applies_to_all_apps parsed;
          change = (kind = ItemAdd \<or> kind = ItemReplace);
          why = (if change then cautions cached parsed all_apps (ConditionsField \<notin> set changed) else [])
      in item\<lparr> it_kind := kind,
               it_changed_fields := map plain_field changed,
               it_weakens := (kind = ItemReplace \<and> (case cached of None \<Rightarrow> False | Some old \<Rightarrow> weakens old parsed)),
               it_applies_to_all_apps := all_apps,
               it_precedence := r_precedence parsed,
               it_persists := (r_duration parsed = lit ''always''),
               it_enabled := r_enabled parsed,
               it_action := r_action parsed,
               it_duration := r_duration parsed,
               it_description := strip_display_hazards (r_description parsed),
               it_nolog := r_nolog parsed,
               it_conditions := rule_conditions parsed,
               it_ticked := (change \<and> why = []),
               it_cautions := why,
               it_previous := (if kind = ItemReplace then map_option previous cached else None) \<rparr>)"

definition classify_checked :: "checked_rule \<Rightarrow> rule option \<Rightarrow> import_item" where
  "classify_checked c cached =
     (let item = empty_item\<lparr> it_index := ck_index c, it_name := ck_name c,
            it_display_name :=
              (if ck_name c = [] then lit ''Rule '' @ decimal (ck_index c + 1) @ lit '' (its name can't be used)''
               else strip_display_hazards (ck_name c)) \<rparr>
      in case ck_result c of
           Inl ps \<Rightarrow> item\<lparr> it_kind := ItemRefused, it_problems := ps \<rparr>
         | Inr parsed \<Rightarrow> classify_parsed item parsed cached)"

datatype preview_error = PreviewUnavailable | TooManyRules | SnapshotTooLarge

definition PER_RULE_BYTES :: nat where "PER_RULE_BYTES = 16"
definition SNAPSHOT_MARGIN_BYTES :: nat where "SNAPSHOT_MARGIN_BYTES = 256 * 1024"
definition MAX_DAEMON_MESSAGE_BYTES :: nat where "MAX_DAEMON_MESSAGE_BYTES = 4 * 1024 * 1024"

definition framed :: "(rule \<Rightarrow> nat) \<Rightarrow> rule \<Rightarrow> nat" where
  "framed encoded_len r = encoded_len r + PER_RULE_BYTES"

definition check_totals :: "(rule \<Rightarrow> nat) \<Rightarrow> (rstr, rule) fmap \<Rightarrow> (rstr, nat) fmap \<Rightarrow> (rstr, rule) fmap \<Rightarrow> preview_error + unit" where
  "check_totals encoded_len cached left_out applicable =
     (let adds = length (filter (\<lambda>name. name |\<notin>| fmdom cached) (fm_keys applicable));
          current = sum_list (map (framed encoded_len) (fm_values cached))
                    + sum_list (map (\<lambda>size. size + PER_RULE_BYTES) (fm_values left_out));
          growth = sum_list (map (\<lambda>name.
              framed encoded_len (the (fmlookup applicable name))
              - (case fmlookup cached name of None \<Rightarrow> 0 | Some old \<Rightarrow> framed encoded_len old)) (fm_keys applicable))
      in if fm_len cached + fm_len left_out + adds > MAX_SNAPSHOT_RULES then Inl TooManyRules
         else if current + growth > MAX_DAEMON_MESSAGE_BYTES - SNAPSHOT_MARGIN_BYTES then Inl SnapshotTooLarge
         else Inr ())"

definition classify_item :: "(rstr, rule) fmap \<Rightarrow> (rstr, nat) fmap \<Rightarrow> checked_rule \<Rightarrow> import_item" where
  "classify_item cached left_out c =
     (if ck_name c |\<in>| fmdom left_out
      then classify_checked (c\<lparr> ck_result := Inl [(lit ''name'', HIDDEN_NAME)] \<rparr>) None
      else classify_checked c (fmlookup cached (ck_name c)))"

definition note_applicable ::
  "(rstr, rule) fmap \<Rightarrow> (rstr, nat) fmap \<Rightarrow> checked_rule \<Rightarrow> (rstr, rule) fmap \<Rightarrow> (rstr, rule) fmap" where
  "note_applicable cached left_out c applicable =
     (if it_kind (classify_item cached left_out c) \<in> {ItemAdd, ItemReplace}
      then (case ck_result c of Inr parsed \<Rightarrow> fmupd (r_name parsed) parsed applicable | Inl _ \<Rightarrow> applicable)
      else applicable)"

record import_preview =
  ip_items :: "import_item list"
  ip_applicable :: "(rstr, rule) fmap"

definition classify_rules :: "(rule \<Rightarrow> nat) \<Rightarrow> checked_rule list \<Rightarrow> rules_cache \<Rightarrow> preview_error + import_preview" where
  "classify_rules encoded_len checked c =
     (case rc_rules c of
        None \<Rightarrow> Inl PreviewUnavailable
      | Some cached \<Rightarrow>
          (let applicable = fold (note_applicable cached (rc_left_out c)) checked fmempty
           in case check_totals encoded_len cached (rc_left_out c) applicable of
                Inl e \<Rightarrow> Inl e
              | Inr _ \<Rightarrow> Inr \<lparr> ip_items = map (classify_item cached (rc_left_out c)) checked,
                               ip_applicable = applicable \<rparr>))"

definition preview :: "regex_lib \<Rightarrow> (rule \<Rightarrow> nat) \<Rightarrow> document \<Rightarrow> rules_cache \<Rightarrow> preview_error + import_preview" where
  "preview lib encoded_len doc c = classify_rules encoded_len (check_rules lib doc) c"

end
