(* ===== verification/Rule_Import_Props.thy ===== *)
theory Rule_Import_Props
  imports Rule_Import Rules_Props
begin

text \<open>
  Properties of rules files: what an export writes is read back as the rules it came from,
  and a preview tells every change that could let more through.
\<close>

section \<open>What an export writes\<close>

definition exportable :: "regex_lib \<Rightarrow> rule \<Rightarrow> bool" where
  "exportable lib r \<longleftrightarrow>
     \<not> is_bridge_owned (r_name r) \<and> validate_rule_name (r_name r) = Inr ()
     \<and> r_duration r \<in> {lit ''always'', lit ''until restart''} \<and> validate_user_rule lib r Import = Inr ()"

definition omitted_total :: "omitted_counts \<Rightarrow> nat" where
  "omitted_total om = om_once om + om_timed om + om_managed om + om_unsupported_name om + om_unsupported_rule om"

lemma export_step_exportable:
  "export_step lib r (om, js) =
     (if exportable lib r then (om, js @ [export_rule r]) else (fst (export_step lib r (om, js)), js))"
  "\<not> exportable lib r \<Longrightarrow> omitted_total (fst (export_step lib r (om, js))) = Suc (omitted_total om)"
  by (auto simp: export_step_def exportable_def omitted_total_def)

lemma export_fold:
  "\<exists>om'. fold (export_step lib) rs (om, js) = (om', js @ map export_rule (filter (exportable lib) rs))
     \<and> omitted_total om' + length (filter (exportable lib) rs) = omitted_total om + length rs"
proof (induction rs arbitrary: om js)
  case (Cons r rs)
  show ?case
  proof (cases "exportable lib r")
    case True
    then show ?thesis
      using Cons[of om "js @ [export_rule r]"] export_step_exportable(1)[of lib r om js] by auto
  next
    case False
    then show ?thesis
      using Cons[of "fst (export_step lib r (om, js))" js] export_step_exportable(1)[of lib r om js]
        export_step_exportable(2)[of lib r om js] by simp
  qed
qed simp

lemma length_fm_values [simp]: "length (fm_values m) = fm_len m"
  by (simp add: fm_values_def fm_len_def fm_keys_def sorted_list_of_fset.rep_eq fcard.rep_eq)

lemma small_maps [simp]:
  "fm_keys fmempty = []" "fm_values fmempty = []" "fm_keys (fmupd k v fmempty) = [k]" "fm_values (fmupd k v fmempty) = [v]"
  by (simp_all add: fm_values_def fm_keys_def sorted_list_of_fset.rep_eq)

lemma set_fm_values: "x \<in> set (fm_values m) \<longleftrightarrow> (\<exists>k. fmlookup m k = Some x)"
  by (auto simp: fm_values_def fmlookup_dom_iff) (metis fmdomI image_eqI option.sel)

lemma distinct_named_values:
  assumes "\<And>n r. fmlookup m n = Some r \<Longrightarrow> f r = n"
  shows "distinct (map f (fm_values m))"
proof -
  have "map f (fm_values m) = fm_keys m"
    unfolding fm_values_def map_map
    by (rule map_idI) (auto simp: fmlookup_dom_iff assms)
  then show ?thesis by simp
qed

section \<open>Reading an exported rule\<close>

definition returned_rule :: "rule \<Rightarrow> rule" where
  "returned_rule r = r\<lparr> r_created := 0, r_operator := map_option returned_operator (r_operator r) \<rparr>"

lemma returned_leaves [simp]: "leaves_of (returned_operator op) = leaves_of op"
  by (simp add: leaves_of_def returned_operator_def)

lemma returned_within_limits: "operator_ok d op \<Longrightarrow> operator_ok d (returned_operator op)"
  by (cases op) (auto simp: returned_operator_def)

lemma returned_rule_accepted:
  assumes "validate_user_rule lib r Import = Inr ()"
  shows "validate_user_rule lib (returned_rule r) Import = Inr ()"
proof -
  obtain op where op: "r_operator r = Some op" "validate_operator lib op = Inr ()" "check_import_operator lib op Import = []"
    using accepted_operator[OF assms] by blast
  have "validate_operator lib (returned_operator op) = Inr ()" using operator_round_trip(2)[OF op(2)] .
  moreover have "check_import_operator lib (returned_operator op) Import = []"
    using op(3) by (simp add: check_import_operator_def)
  moreover have "within_limits r"
    using assms by (auto simp: validate_user_rule_def check_rule_def Let_def split: if_splits)
  then have "within_limits (returned_rule r)"
    using op(1) by (auto simp: within_limits_def returned_rule_def returned_within_limits)
  ultimately show ?thesis
    using assms op by (auto simp: validate_user_rule_def check_rule_def returned_rule_def Let_def split: if_splits)
qed

lemma exported_rule_read:
  assumes "validate_user_rule lib r Import = Inr ()"
  shows "rule_from_wire lib (export_rule r) = Inr (returned_rule r)"
proof -
  obtain op where op: "r_operator r = Some op" "validate_operator lib op = Inr ()"
    using accepted_operator[OF assms] by blast
  have "r_action r \<noteq> []" "r_duration r \<noteq> []" "validate_rule_name (r_name r) = Inr ()"
    using assms by (auto simp: validate_user_rule_def check_rule_def Let_def split: if_splits sum.splits)
  then show ?thesis
    using op operator_round_trip[OF op(2)]
    by (simp add: rule_from_wire_def export_rule_def nonempty_field_def str_field_def bool_field_def returned_rule_def)
qed

lemma normalised_returned: "normalised_operator (returned_operator op) = normalised_operator op"
  by (cases op) (auto simp: returned_operator_def)

lemma returned_unchanged: "changed_fields r (returned_rule r) = []" "changed_fields (returned_rule r) r = []"
  by (auto simp: changed_fields_def returned_rule_def normalised_returned option.map_comp comp_def)

lemma exported_rule_checked:
  assumes "exportable lib r"
  shows "check_file_rule lib i (export_rule r) = \<lparr> ck_index = i, ck_name = r_name r, ck_result = Inr (returned_rule r) \<rparr>"
proof -
  have ok: "validate_user_rule lib r Import = Inr ()" "validate_rule_name (r_name r) = Inr ()"
    using assms by (auto simp: exportable_def)
  have "json_get (export_rule r) (lit ''name'') = Some (JString (r_name r))"
    "json_get (export_rule r) (lit ''enabled'') = Some (JBool (r_enabled r))"
    by (simp_all add: export_rule_def json_get_def)
  then show ?thesis
    using ok exported_rule_read[OF ok(1)] returned_rule_accepted[OF ok(1)]
    by (simp add: check_file_rule_def Let_def)
qed

lemma times_named_distinct:
  "distinct (map ck_name cs) \<Longrightarrow> c \<in> set cs \<Longrightarrow> times_named (ck_name c) cs \<le> 1"
proof (induction cs)
  case (Cons x cs)
  have "filter (\<lambda>c. ck_name c \<noteq> [] \<and> ck_name c = n) cs = []" if "n \<notin> ck_name ` set cs" for n
    using that by (auto simp: filter_empty_conv)
  then show ?case using Cons by (auto simp: times_named_def)
qed simp

lemma refuse_duplicate_distinct:
  "distinct (map ck_name cs) \<Longrightarrow> map (refuse_duplicate cs) cs = cs"
  using times_named_distinct[of cs] by (intro map_idI) (fastforce simp: refuse_duplicate_def not_less)

lemma exported_rules_checked:
  assumes "\<forall>r \<in> set rs. exportable lib r" "distinct (map r_name rs)" "d_rules doc = map export_rule rs"
  shows "map ck_result (check_rules lib doc) = map (Inr \<circ> returned_rule) rs"
    and "map ck_name (check_rules lib doc) = map r_name rs"
proof -
  let ?checked = "map (\<lambda>(i, v). check_file_rule lib i v) (enumerate 0 (d_rules doc))"
  have "map (\<lambda>(i, v). check_file_rule lib i v) (enumerate n (map export_rule rs)) =
      map (\<lambda>(i, r). \<lparr> ck_index = i, ck_name = r_name r, ck_result = Inr (returned_rule r) \<rparr>) (enumerate n rs)" for n
    using assms(1) by (induction rs arbitrary: n) (auto simp: exported_rule_checked)
  then have checked: "?checked = map (\<lambda>(i, r). \<lparr> ck_index = i, ck_name = r_name r, ck_result = Inr (returned_rule r) \<rparr>)
      (enumerate 0 rs)" using assms(3) by simp
  have snd: "map (f \<circ> snd) (enumerate n rs) = map f rs" for f :: "rule \<Rightarrow> 'b" and n
    by (metis map_map map_snd_enumerate)
  have names: "map ck_name ?checked = map r_name rs"
    unfolding checked map_map using snd[of r_name 0] by (simp add: comp_def case_prod_beta)
  then have "check_rules lib doc = ?checked"
    using refuse_duplicate_distinct[of ?checked] assms(2) by (simp add: check_rules_def Let_def)
  then show "map ck_name (check_rules lib doc) = map r_name rs" using names by simp
  show "map ck_result (check_rules lib doc) = map (Inr \<circ> returned_rule) rs"
    unfolding \<open>check_rules lib doc = ?checked\<close> checked map_map
    using snd[of "Inr \<circ> returned_rule" 0] by (simp add: comp_def case_prod_beta)
qed

lemma unchanged_item:
  assumes "ck_result c = Inr (returned_rule r)" "ck_name c |\<notin>| fmdom left_out" "fmlookup cached (ck_name c) = Some r"
  shows "it_kind (classify_item cached left_out c) = ItemUnchanged"
  using assms by (simp add: classify_item_def classify_checked_def classify_parsed_def returned_unchanged(1) Let_def)

lemma listed_not_hidden: "fmdom rules |\<inter>| fmdom left_out = {||} \<Longrightarrow> fmlookup rules n = Some r \<Longrightarrow> n |\<notin>| fmdom left_out"
  by (metis disjoint_iff_fnot_equal fmdomI)

lemma nothing_applicable:
  "\<forall>c \<in> set cs. it_kind (classify_item cached left_out c) = ItemUnchanged \<Longrightarrow>
     fold (note_applicable cached left_out) cs m = m"
  by (induction cs) (auto simp: note_applicable_def)

lemma check_totals_length:
  "check_totals len cached left_out fmempty = Inr () \<Longrightarrow> fm_len cached \<le> MAX_SNAPSHOT_RULES"
  by (auto simp: check_totals_def Let_def split: if_splits)

lemma document_round_trip:
  assumes "d_format doc = FORMAT" "d_version doc = VERSION" "d_exported_at_unix_ms doc \<le> U64_MAX"
    "length (d_rules doc) \<le> MAX_SNAPSHOT_RULES"
  shows "parse_document (document_to_json doc) = Inr doc"
proof -
  have src: "source_from_json (source_to_json s) = Some s" for s
    by (cases "so_daemon_version s") (simp_all add: source_to_json_def no_source_def)
  show ?thesis
    using assms
    by (simp add: parse_document_def document_to_json_def document_from_json_def json_put_def DOCUMENT_FIELDS_def src
        VERSION_def U32_MAX_def)
qed

text \<open>
  C28. An export of at most 960 KiB is accepted back, and a larger one is refused as too large:
  the file it writes (a text that reads as the JSON of the export) parses as the document it
  is, every rule in it is read and passes the policy, and a preview of that document against
  the list it was exported from finds nothing to do: every item is unchanged and nothing would be sent. Every rule of
  the list is either in the file or counted as left out. (The list is one the bridge can
  hold, and the daemon reports no rule both in full and as too large to show.)
\<close>

theorem export_imports_unchanged:
  assumes inv: "rules_inv c" and rules: "rc_rules c = Some rules" and disjoint: "fmdom rules |\<inter>| fmdom (rc_left_out c) = {||}"
    and now: "now \<le> U64_MAX" and fits: "check_totals len rules (rc_left_out c) fmempty = Inr ()"
    and exported: "export_rules lib c now = Some (doc, om)" and saved: "from_str content = Some (document_to_json doc)"
  shows "parse_document_text from_str content = (if str_len content \<le> MAX_DOCUMENT_BYTES then Inr doc else Inl TooLarge)
    \<and> (\<exists>p. preview lib len doc c = Inr p \<and> ip_applicable p = fmempty
           \<and> length (ip_items p) = length (d_rules doc) \<and> (\<forall>item \<in> set (ip_items p). it_kind item = ItemUnchanged))
    \<and> length (d_rules doc) + omitted_total om = fm_len rules"
proof -
  let ?rs = "filter (exportable lib) (fm_values rules)"
  obtain om' where fold: "fold (export_step lib) (fm_values rules) (no_omitted, []) = (om', map export_rule ?rs)"
    and count: "omitted_total om' + length ?rs = omitted_total no_omitted + fm_len rules"
    using export_fold[of lib "fm_values rules" no_omitted "[]"] by auto
  have doc: "doc = \<lparr> d_format = FORMAT, d_version = VERSION, d_exported_at_unix_ms = now, d_source = no_source,
      d_rules = map export_rule ?rs \<rparr>" "om = om'"
    using exported fold by (auto simp: export_rules_def rules)
  have total: "length (d_rules doc) + omitted_total om = fm_len rules"
    using count doc by (simp add: no_omitted_def omitted_total_def)
  moreover have "fm_len rules \<le> MAX_SNAPSHOT_RULES" using check_totals_length[OF fits] .
  ultimately have parsed: "parse_document (document_to_json doc) = Inr doc"
    using document_round_trip[of doc] now doc(1) by simp
  have named: "r_name r = n" if "fmlookup rules n = Some r" for n r
    using inv that rules by (auto simp: rules_inv_def list_inv_def)
  have distinct: "distinct (map r_name ?rs)"
    using distinct_named_values[of rules r_name] named by (simp add: distinct_map_filter)
  have all: "\<forall>r \<in> set ?rs. exportable lib r" by simp
  have d_rules: "d_rules doc = map export_rule ?rs" by (simp add: doc(1))
  note checked = exported_rules_checked[OF all distinct d_rules]
  have unchanged: "it_kind (classify_item rules (rc_left_out c) ck) = ItemUnchanged" if "ck \<in> set (check_rules lib doc)" for ck
  proof -
    have len: "length (check_rules lib doc) = length ?rs" using arg_cong[OF checked(1), of length] by simp
    from that obtain i where i: "i < length ?rs" "ck = check_rules lib doc ! i"
      unfolding in_set_conv_nth len by blast
    have ck: "ck_result ck = Inr (returned_rule (?rs ! i))" "ck_name ck = r_name (?rs ! i)"
      using arg_cong[OF checked(1), of "\<lambda>xs. xs ! i"] arg_cong[OF checked(2), of "\<lambda>xs. xs ! i"] i len by simp_all
    have "?rs ! i \<in> set ?rs" using i(1) by (rule nth_mem)
    then have "?rs ! i \<in> set (fm_values rules)" by (meson filter_is_subset subsetD)
    then obtain n where n: "fmlookup rules n = Some (?rs ! i)" unfolding set_fm_values ..
    show ?thesis by (rule unchanged_item[OF ck(1) _ _]) (simp_all only: ck(2) named[OF n] listed_not_hidden[OF disjoint n] n not_False_eq_True)
  qed
  then have "fold (note_applicable rules (rc_left_out c)) (check_rules lib doc) fmempty = fmempty"
    using nothing_applicable by blast
  moreover have "length (check_rules lib doc) = length (d_rules doc)" by (simp add: check_rules_def Let_def)
  ultimately have "preview lib len doc c =
      Inr \<lparr> ip_items = map (classify_item rules (rc_left_out c)) (check_rules lib doc), ip_applicable = fmempty \<rparr>"
    using fits by (simp add: preview_def classify_rules_def rules Let_def)
  moreover have "parse_document_text from_str content = (if str_len content \<le> MAX_DOCUMENT_BYTES then Inr doc else Inl TooLarge)"
    using saved parsed by (simp add: parse_document_text_def)
  ultimately show ?thesis using total unchanged \<open>length (check_rules lib doc) = length (d_rules doc)\<close> by simp
qed

definition example_user_rule :: rule where
  "example_user_rule = example_edited\<lparr> r_duration := lit ''always'', r_created := 7 \<rparr>"

definition example_list :: rules_cache where
  "example_list = new_rules_cache\<lparr> rc_rules := Some (fmupd (lit ''mail'') example_user_rule fmempty) \<rparr>"

lemma example_list_facts:
  "rules_inv example_list" "rc_rules example_list = Some (fmupd (lit ''mail'') example_user_rule fmempty)"
  "rc_left_out example_list = fmempty"
  by (simp_all add: example_list_def new_rules_cache_def rules_inv_def list_inv_def files_inv_def no_may_hold_def fcard.rep_eq
      example_user_rule_def example_edited_def)

text \<open>A reader that knows the text of one file.\<close>

definition example_reader :: "rstr \<Rightarrow> json option" where
  "example_reader text =
     (if text = lit ''exported'' then map_option (\<lambda>x. document_to_json (fst x)) (export_rules no_regex example_list 1000) else None)"

theorem export_imports_unchanged_witness:
  "\<exists>doc om p. export_rules no_regex example_list 1000 = Some (doc, om) \<and> length (d_rules doc) = 1
     \<and> parse_document_text example_reader (lit ''exported'') = Inr doc
     \<and> preview no_regex (\<lambda>_. 200) doc example_list = Inr p \<and> map it_kind (ip_items p) = [ItemUnchanged]"
proof -
  have fits: "check_totals (\<lambda>_. 200) (fmupd (lit ''mail'') example_user_rule fmempty) fmempty fmempty = Inr ()"
    by (simp add: check_totals_def fm_len_fmupd framed_def PER_RULE_BYTES_def
        MAX_SNAPSHOT_RULES_def MAX_DAEMON_MESSAGE_BYTES_def SNAPSHOT_MARGIN_BYTES_def)
  have "exportable no_regex example_user_rule" by code_simp
  then have one: "export_step no_regex example_user_rule (no_omitted, []) = (no_omitted, [export_rule example_user_rule])"
    using export_step_exportable(1)[of no_regex example_user_rule no_omitted "[]"] by simp
  obtain doc om where export: "export_rules no_regex example_list 1000 = Some (doc, om)" "d_rules doc = [export_rule example_user_rule]"
    by (simp add: export_rules_def example_list_facts(2) one)
  have U: "1000 \<le> U64_MAX" by (simp add: U64_MAX_def)
  have read: "example_reader (lit ''exported'') = Some (document_to_json doc)" by (simp add: example_reader_def export(1))
  have small: "str_len (lit ''exported'') \<le> MAX_DOCUMENT_BYTES" by code_simp
  note accepted = export_imports_unchanged[where from_str = example_reader and content = "lit ''exported''" and len = "\<lambda>_. 200",
      OF example_list_facts(1,2) _ U _ export(1) read]
  obtain p where p: "preview no_regex (\<lambda>_. 200) doc example_list = Inr p" "length (ip_items p) = 1"
    "\<forall>item \<in> set (ip_items p). it_kind item = ItemUnchanged"
    using accepted fits export(2) by (auto simp: example_list_facts(3))
  have "parse_document_text example_reader (lit ''exported'') = Inr doc"
    using accepted fits small by (simp add: example_list_facts(3))
  moreover from p(2,3) have "map it_kind (ip_items p) = [ItemUnchanged]" by (cases "ip_items p") auto
  ultimately show ?thesis using export p(1) by auto
qed

end
