(* ===== verification/Rule_Rows.thy ===== *)
theory Rule_Rows
  imports Rule_Wire
begin

text \<open>
  \<open>rules/row_store.rs\<close> of the desktop shell: a rule as the Rules tab reads it from the
  bridge's JSON, where it came from, and the list of rules with the bridge's two messages.
\<close>

section \<open>A row\<close>

record gui_rule =
  gr_name :: rstr
  gr_enabled :: bool
  gr_action :: rstr
  gr_duration :: rstr
  gr_description :: rstr
  gr_operator :: json
  gr_precedence :: bool
  gr_nolog :: bool
  gr_created :: int
  gr_display_name :: "rstr option"
  gr_read_only_reason :: "rstr option"
  gr_deletable :: "bool option"
  gr_user_names :: "(rstr, rstr) fmap"
  gr_toggleable :: "bool option"

definition GUI_RULE_FIELDS :: "rstr list" where
  "GUI_RULE_FIELDS = map lit [''name'', ''enabled'', ''action'', ''duration'', ''description'', ''operator'', ''precedence'',
     ''nolog'', ''created'', ''displayName'', ''readOnlyReason'', ''deletable'', ''userNames'', ''toggleable'']"

text \<open>\<open>serde\<close> with a default for every field: a missing member is the default, a member of
  another type is an error, an unknown one is passed over. A struct may also be written as
  the array of its fields.\<close>

definition field_or :: "'a \<Rightarrow> (json \<Rightarrow> 'a option) \<Rightarrow> (rstr \<times> json) list \<Rightarrow> string \<Rightarrow> 'a option" where
  "field_or dflt read ms key = (case map_of ms (lit key) of None \<Rightarrow> Some dflt | Some v \<Rightarrow> read v)"

fun nullable :: "(json \<Rightarrow> 'a option) \<Rightarrow> json \<Rightarrow> 'a option option" where
  "nullable read JNull = Some None"
| "nullable read v = map_option Some (read v)"

fun as_i64 :: "json \<Rightarrow> int option" where
  "as_i64 (JNumber n) = i64_checked n"
| "as_i64 _ = None"

fun str_map :: "(rstr \<times> json) list \<Rightarrow> (rstr, rstr) fmap option" where
  "str_map [] = Some fmempty"
| "str_map ((k, v) # ms) =
     (case (as_str v, str_map ms) of (Some s, Some m) \<Rightarrow> Some (fmupd k s m) | _ \<Rightarrow> None)"

definition gui_rule_from_members :: "(rstr \<times> json) list \<Rightarrow> gui_rule option" where
  "gui_rule_from_members ms =
     (case (field_or [] as_str ms ''name'', field_or True as_bool ms ''enabled'', field_or [] as_str ms ''action'',
            field_or [] as_str ms ''duration'', field_or [] as_str ms ''description'',
            field_or JNull Some ms ''operator'', field_or False as_bool ms ''precedence'',
            field_or False as_bool ms ''nolog'', field_or 0 as_i64 ms ''created'',
            field_or None (nullable as_str) ms ''displayName'', field_or None (nullable as_str) ms ''readOnlyReason'',
            field_or None (nullable as_bool) ms ''deletable'',
            field_or fmempty (\<lambda>v. Option.bind (as_object v) str_map) ms ''userNames'',
            field_or None (nullable as_bool) ms ''toggleable'') of
        (Some name, Some enabled, Some act, Some duration, Some description, Some op, Some precedence, Some nolog,
         Some created, Some display_name, Some reason, Some may_delete, Some names, Some may_toggle) \<Rightarrow>
          Some \<lparr> gr_name = name, gr_enabled = enabled, gr_action = act, gr_duration = duration,
                 gr_description = description, gr_operator = op, gr_precedence = precedence, gr_nolog = nolog,
                 gr_created = created, gr_display_name = display_name, gr_read_only_reason = reason,
                 gr_deletable = may_delete, gr_user_names = names, gr_toggleable = may_toggle \<rparr>
      | _ \<Rightarrow> None)"

fun gui_rule_from_json :: "json \<Rightarrow> gui_rule option" where
  "gui_rule_from_json (JObject ms) = gui_rule_from_members ms"
| "gui_rule_from_json (JArray vs) =
     (if length vs > length GUI_RULE_FIELDS then None else gui_rule_from_members (zip GUI_RULE_FIELDS vs))"
| "gui_rule_from_json _ = None"

definition shown_name :: "gui_rule \<Rightarrow> rstr" where
  "shown_name r = (case gr_display_name r of Some n \<Rightarrow> n | None \<Rightarrow> gr_name r)"

definition is_read_only :: "gui_rule \<Rightarrow> bool" where
  "is_read_only r \<longleftrightarrow> gr_read_only_reason r \<noteq> None"

definition can_delete :: "gui_rule \<Rightarrow> bool" where
  "can_delete r = (case gr_deletable r of Some b \<Rightarrow> b | None \<Rightarrow> \<not> is_read_only r)"

definition can_toggle :: "gui_rule \<Rightarrow> bool" where
  "can_toggle r = (case gr_toggleable r of Some b \<Rightarrow> b | None \<Rightarrow> \<not> is_read_only r)"

section \<open>Where a rule came from\<close>

datatype rule_source = FromUser | FromProfile | FromRecommended | FromBlocklist rstr

definition BLOCKLIST_BANDS :: "rstr list" where
  "BLOCKLIST_BANDS = [lit ''z00-blocklist:'', lit ''900-blocklist:'']"

definition rule_source :: "gui_rule \<Rightarrow> rule_source" where
  "rule_source r =
     (case find (\<lambda>p. prefix p (gr_name r)) BLOCKLIST_BANDS of
        Some p \<Rightarrow> FromBlocklist (hd (split_on 58 (drop (length p) (gr_name r))))
      | None \<Rightarrow>
          if is_reserved_profile_name (gr_name r) then FromProfile
          else if is_reserved_curated_name (gr_name r) \<and> gr_toggleable r = Some True then FromRecommended
          else FromUser)"

definition is_blocklist_sourced :: "gui_rule \<Rightarrow> bool" where
  "is_blocklist_sourced r \<longleftrightarrow> (case rule_source r of FromBlocklist _ \<Rightarrow> True | _ \<Rightarrow> False)"

section \<open>The list\<close>

type_synonym rules_store = "gui_rule list"

definition find_by_name :: "rstr \<Rightarrow> rules_store \<Rightarrow> gui_rule option" where
  "find_by_name name store = find (\<lambda>r. gr_name r = name) store"

fun index_of :: "rstr \<Rightarrow> rules_store \<Rightarrow> nat option" where
  "index_of name [] = None"
| "index_of name (r # rs) = (if gr_name r = name then Some 0 else map_option Suc (index_of name rs))"

definition upsert_row :: "gui_rule \<Rightarrow> rules_store \<Rightarrow> rules_store \<times> bool" where
  "upsert_row r store =
     (case find_by_name (gr_name r) store of
        Some existing \<Rightarrow>
          if existing = r then (store, False)
          else (update_first (\<lambda>x. gr_name x = gr_name r) (\<lambda>_. r) store, True)
      | None \<Rightarrow> (store @ [r], True))"

datatype rules_message = SetRules "json list" | UpdateRules "json list"

fun upsert_rows :: "json list \<Rightarrow> rules_store \<times> bool \<Rightarrow> rules_store \<times> bool" where
  "upsert_rows [] (store, changed) = (store, changed)"
| "upsert_rows (v # vs) (store, changed) =
     (case gui_rule_from_json v of
        None \<Rightarrow> upsert_rows vs (store, changed)
      | Some r \<Rightarrow> (let (store, c) = upsert_row r store in upsert_rows vs (store, changed \<or> c)))"

fun store_apply :: "rules_message \<Rightarrow> rules_store \<Rightarrow> rules_store \<times> bool" where
  "store_apply (SetRules vs) store = (let rules = List.map_filter gui_rule_from_json vs in (rules, rules \<noteq> store))"
| "store_apply (UpdateRules vs) store = upsert_rows vs (store, False)"

definition store_is_deletable :: "rstr \<Rightarrow> rules_store \<Rightarrow> bool" where
  "store_is_deletable name store = (case find_by_name name store of Some r \<Rightarrow> can_delete r | None \<Rightarrow> False)"

text \<open>\<open>rule_json_with_enabled\<close>: the rule as sent back, without the fields the bridge only
  shows.\<close>

definition gui_rule_to_json :: "gui_rule \<Rightarrow> json" where
  "gui_rule_to_json r = JObject
     [(lit ''name'', JString (gr_name r)), (lit ''enabled'', JBool (gr_enabled r)),
      (lit ''action'', JString (gr_action r)), (lit ''duration'', JString (gr_duration r)),
      (lit ''description'', JString (gr_description r)), (lit ''operator'', gr_operator r),
      (lit ''precedence'', JBool (gr_precedence r)), (lit ''nolog'', JBool (gr_nolog r))]"

definition DNS_RULE_NAME :: rstr where "DNS_RULE_NAME = lit ''snitchwatch-default-dns-resolved''"

definition rule_json_with_enabled :: "rstr \<Rightarrow> bool \<Rightarrow> rules_store \<Rightarrow> json option" where
  "rule_json_with_enabled name enabled store =
     (case find_by_name name store of
        None \<Rightarrow> None
      | Some r \<Rightarrow>
          if \<not> can_toggle r then None
          else if enabled \<and> gr_name r = DNS_RULE_NAME \<and> rule_source r = FromRecommended then None
          else Some (gui_rule_to_json (r\<lparr> gr_enabled := enabled \<rparr>)))"

end
