(* ===== verification/Re2.thy ===== *)
theory Re2
  imports Rule_Policy
begin

text \<open>
  \<open>rules/simulator/re2.rs\<close> of the desktop shell: a pattern as the daemon's engine (Go's RE2)
  reads it, rewritten for the \<open>regex\<close> crate, or refused where the two are not known to agree.

  A function that takes characters from the front of the pattern and appends to the output
  returns what is left of the pattern and what it appended.
\<close>

section \<open>Sets of characters\<close>

type_synonym ranges = "(nat \<times> nat) list"

definition BACKSLASH :: rchar where "BACKSLASH = 92"

definition DIGIT :: ranges where "DIGIT = [(48, 57)]"
definition WORD :: ranges where "WORD = [(48, 57), (65, 90), (97, 122), (95, 95)]"
definition PERL_SPACE :: ranges where "PERL_SPACE = [(9, 10), (12, 13), (32, 32)]"

definition POSIX :: "(rstr \<times> ranges) list" where
  "POSIX =
     [(lit ''alnum'', [(48, 57), (65, 90), (97, 122)]), (lit ''alpha'', [(65, 90), (97, 122)]),
      (lit ''ascii'', [(0, 0x7F)]), (lit ''blank'', [(9, 9), (32, 32)]), (lit ''cntrl'', [(0, 0x1F), (0x7F, 0x7F)]),
      (lit ''digit'', DIGIT), (lit ''graph'', [(0x21, 0x7E)]), (lit ''lower'', [(97, 122)]),
      (lit ''print'', [(0x20, 0x7E)]), (lit ''punct'', [(0x21, 0x2F), (0x3A, 0x40), (0x5B, 0x60), (0x7B, 0x7E)]),
      (lit ''space'', [(9, 13), (32, 32)]), (lit ''upper'', [(65, 90)]), (lit ''word'', WORD),
      (lit ''xdigit'', [(48, 57), (65, 70), (97, 102)])]"

definition perl_ranges :: "rchar \<Rightarrow> ranges" where
  "perl_ranges c = (if c = 119 then WORD else if c = 100 then DIGIT else PERL_SPACE)"

text \<open>\<open>{:X}\<close>: the hexadecimal digits of a byte, in upper case, without leading zeros.\<close>

definition upper_hex_digit :: "nat \<Rightarrow> rchar" where
  "upper_hex_digit n = (if n < 10 then 48 + n else 55 + n)"

definition hex :: "nat \<Rightarrow> rstr" where
  "hex byte = BACKSLASH # lit ''x{'' @ (if byte < 16 then [upper_hex_digit byte] else [upper_hex_digit (byte div 16), upper_hex_digit (byte mod 16)])
     @ lit ''}''"

definition class_members :: "ranges \<Rightarrow> rstr" where
  "class_members rs = concat (map (\<lambda>(lo, hi). hex lo @ (if hi \<noteq> lo then lit ''-'' @ hex hi else [])) rs)"

definition ascii_set :: "ranges \<Rightarrow> bool \<Rightarrow> rstr" where
  "ascii_set rs negated = lit ''['' @ (if negated then lit ''^'' else []) @ class_members rs @ lit '']''"

definition is_ascii_uppercase :: "rchar \<Rightarrow> bool" where
  "is_ascii_uppercase c \<longleftrightarrow> 65 \<le> c \<and> c \<le> 90"

definition is_ascii_punctuation :: "rchar \<Rightarrow> bool" where
  "is_ascii_punctuation c \<longleftrightarrow> (33 \<le> c \<and> c \<le> 47) \<or> (58 \<le> c \<and> c \<le> 64) \<or> (91 \<le> c \<and> c \<le> 96) \<or> (123 \<le> c \<and> c \<le> 126)"

definition is_plain_punctuation :: "rchar \<Rightarrow> bool" where
  "is_plain_punctuation c \<longleftrightarrow> is_ascii_punctuation c \<and> c \<notin> {BACKSLASH, 91, 93, 94, 45}"

section \<open>Outside a class\<close>

definition PERL_CLASSES :: "rchar list" where "PERL_CLASSES = lit ''wWdDsS''"

definition perl_set :: "rchar \<Rightarrow> rstr" where
  "perl_set esc = ascii_set (perl_ranges (ascii_lower esc)) (is_ascii_uppercase esc)"

definition upto_brace :: "rstr \<Rightarrow> rstr \<times> rstr" where
  "upto_brace cs =
     (case dropWhile (\<lambda>c. c \<noteq> 125) cs of
        [] \<Rightarrow> ([], cs)
      | c # rest \<Rightarrow> (rest, takeWhile (\<lambda>c. c \<noteq> 125) cs @ [c]))"

fun re2_escape :: "rstr \<Rightarrow> rstr \<times> rstr" where
  "re2_escape [] = ([], [BACKSLASH])"
| "re2_escape (esc # cs) =
     (if esc \<in> set PERL_CLASSES then (cs, perl_set esc)
      else if esc = 60 \<or> esc = 62 then (cs, [esc])
      else if esc \<in> set (lit ''pPx'') \<and> cs \<noteq> [] \<and> hd cs = 123
      then (let (rest, copied) = upto_brace cs in (rest, BACKSLASH # esc # copied))
      else if esc = 98 then (cs, lit ''(?-u:'' @ BACKSLASH # lit ''b)'')
      else if esc = 66 then (cs, lit ''(?-u:'' @ BACKSLASH # lit ''B)'')
      else (cs, [BACKSLASH, esc]))"

definition repeat_number :: "rstr \<Rightarrow> bool" where
  "repeat_number text \<longleftrightarrow> list_all is_ascii_digit text \<and> \<not> (length text > 1 \<and> hd text = 48)"

definition is_repeat_body :: "rstr \<Rightarrow> bool" where
  "is_repeat_body body =
     (let (min, max) = (case split_once 44 body of Some (a, b) \<Rightarrow> (a, Some b) | None \<Rightarrow> (body, None))
      in min \<noteq> [] \<and> repeat_number min \<and> (case max of None \<Rightarrow> True | Some m \<Rightarrow> repeat_number m))"

definition re2_brace :: "rstr \<Rightarrow> rstr \<times> rstr" where
  "re2_brace cs =
     (let body = takeWhile (\<lambda>c. is_ascii_digit c \<or> c = 44) cs; look = drop (length body) cs
      in if look \<noteq> [] \<and> hd look = 125 \<and> is_repeat_body body
         then (drop (length body + 1) cs, lit ''{'' @ body @ lit ''}'')
         else (cs, [BACKSLASH, 123]))"

section \<open>Inside a class\<close>

fun range_or_literal :: "rchar \<Rightarrow> rstr \<Rightarrow> (rstr \<times> rstr) option" where
  "range_or_literal lo (c # cs) =
     (if c \<noteq> 45 then Some (c # cs, hex lo)
      else case cs of
             hi # rest \<Rightarrow> if is_ascii_alphanumeric hi \<and> lo \<le> hi then Some (rest, hex lo @ lit ''-'' @ hex hi) else None
           | [] \<Rightarrow> None)"
| "range_or_literal lo [] = Some ([], hex lo)"

fun perl_class :: "rstr \<Rightarrow> (rstr \<times> rstr) option" where
  "perl_class (esc # cs) = (if esc \<in> set PERL_CLASSES then Some (cs, perl_set esc) else None)"
| "perl_class [] = None"

fun posix_name :: "rstr \<Rightarrow> rstr \<Rightarrow> (rstr \<times> rstr) option" where
  "posix_name name [] = None"
| "posix_name name (c # cs) =
     (if c = 58 then Some (cs, name)
      else if is_ascii_alphabetic c \<or> (c = 94 \<and> name = []) then posix_name (name @ [c]) cs
      else None)"

definition posix_class :: "rstr \<Rightarrow> (rstr \<times> rstr) option" where
  "posix_class cs =
     (case cs of
        c # cs \<Rightarrow>
          (if c \<noteq> 58 then None
           else case posix_name [] cs of
             None \<Rightarrow> None
           | Some (rest, name) \<Rightarrow>
               (case rest of
                  close # rest \<Rightarrow>
                    (if close \<noteq> 93 then None
                     else let negated = (name \<noteq> [] \<and> hd name = 94); known = (if negated then tl name else name)
                          in map_option (\<lambda>rs. (rest, ascii_set rs negated)) (map_of POSIX known))
                | [] \<Rightarrow> None))
      | [] \<Rightarrow> None)"

definition class_item :: "rchar \<Rightarrow> rstr \<Rightarrow> (rstr \<times> rstr) option" where
  "class_item c cs =
     (if is_ascii_alphanumeric c then range_or_literal c cs
      else if is_plain_punctuation c then Some (cs, hex c)
      else if c = BACKSLASH then perl_class cs
      else if c = 91 then posix_class cs
      else None)"

lemma range_or_literal_shrinks: "range_or_literal lo cs = Some (rest, out) \<Longrightarrow> length rest \<le> length cs"
  by (cases "(lo, cs)" rule: range_or_literal.cases) (auto split: if_splits list.splits)

lemma posix_name_shrinks: "posix_name name cs = Some (rest, out) \<Longrightarrow> length rest \<le> length cs"
  by (induction name cs rule: posix_name.induct) (auto split: if_splits)

lemma class_item_shrinks: "class_item c cs = Some (rest, out) \<Longrightarrow> length rest \<le> length cs"
proof -
  have "length rest \<le> length cs" if "posix_class cs = Some (rest, out)"
    using that by (auto simp: posix_class_def Let_def dest!: posix_name_shrinks split: list.splits if_splits option.splits)
  moreover have "length rest \<le> length cs" if "perl_class cs = Some (rest, out)"
    using that by (cases cs rule: perl_class.cases) (auto split: if_splits)
  ultimately show "class_item c cs = Some (rest, out) \<Longrightarrow> length rest \<le> length cs"
    by (auto simp: class_item_def dest: range_or_literal_shrinks split: if_splits)
qed

function class_items :: "bool \<Rightarrow> rstr \<Rightarrow> (rstr \<times> rstr) option" where
  "class_items any [] = None"
| "class_items any (c # cs) =
     (if c = 93 \<and> any then Some (cs, lit '']'')
      else case class_item c cs of
             None \<Rightarrow> None
           | Some (rest, out) \<Rightarrow> map_option (\<lambda>(rest, more). (rest, out @ more)) (class_items True rest))"
  by pat_completeness auto
termination
  by (relation "measure (\<lambda>(_, cs). length cs)") (auto dest: class_item_shrinks simp: less_Suc_eq_le)

text \<open>\<open>any\<close>: an item has been read, so a closing bracket closes the class.\<close>

definition re2_class :: "rstr \<Rightarrow> (rstr \<times> rstr) option" where
  "re2_class cs =
     (let negated = (cs \<noteq> [] \<and> hd cs = 94)
      in map_option (\<lambda>(rest, out). (rest, lit ''['' @ (if negated then lit ''^'' else []) @ out))
           (class_items False (if negated then tl cs else cs)))"

lemma class_items_shrinks: "class_items any cs = Some (rest, out) \<Longrightarrow> length rest \<le> length cs"
proof (induction any cs arbitrary: out rule: class_items.induct)
  case (2 any c cs)
  then show ?case
    by (fastforce dest: class_item_shrinks split: if_splits option.splits)
qed simp

lemma re2_class_shrinks: "re2_class cs = Some (rest, out) \<Longrightarrow> length rest \<le> length cs"
  by (cases cs) (auto simp: re2_class_def Let_def simp del: class_items.simps dest!: class_items_shrinks split: if_splits)

lemma re2_escape_shrinks: "re2_escape cs = (rest, out) \<Longrightarrow> length rest \<le> length cs"
proof (cases cs)
  case (Cons c ds)
  have "length (fst (upto_brace ds)) \<le> length ds"
    by (auto simp: upto_brace_def split: list.splits) (metis length_Cons length_dropWhile_le Suc_leD)
  then show "re2_escape cs = (rest, out) \<Longrightarrow> length rest \<le> length cs"
    using Cons by (auto simp: case_prod_beta Let_def split: if_splits)
qed simp

lemma re2_brace_shrinks: "re2_brace cs = (rest, out) \<Longrightarrow> length rest \<le> length cs"
  by (auto simp: re2_brace_def Let_def split: if_splits)

section \<open>The whole pattern\<close>

function to_regex_crate :: "rstr \<Rightarrow> rstr option" where
  "to_regex_crate [] = Some []"
| "to_regex_crate (c # cs) =
     (if c = BACKSLASH
      then (case re2_escape cs of (rest, out) \<Rightarrow> map_option (\<lambda>more. out @ more) (to_regex_crate rest))
      else if c = 91
      then (case re2_class cs of
              None \<Rightarrow> None | Some (rest, out) \<Rightarrow> map_option (\<lambda>more. out @ more) (to_regex_crate rest))
      else if c = 123
      then (case re2_brace cs of (rest, out) \<Rightarrow> map_option (\<lambda>more. out @ more) (to_regex_crate rest))
      else map_option (\<lambda>more. c # more) (to_regex_crate cs))"
  by pat_completeness auto
termination
  by (relation "measure length")
    (auto simp: less_Suc_eq_le simp del: re2_escape.simps
      dest: re2_class_shrinks re2_escape_shrinks[OF sym] re2_brace_shrinks[OF sym])

end
