(* ===== verification/Rule_Match.thy ===== *)
theory Rule_Match
  imports Rule_Rows Re2 "HOL-Library.Word"
begin

text \<open>
  The rule-match simulator of the desktop shell, \<open>rules/simulator.rs\<close> with its modules
  \<open>operator.rs\<close>, \<open>compare.rs\<close> and \<open>network.rs\<close>: what the daemon would decide for a
  connection, from the cached rules. An input that is not known is \<open>None\<close>; a condition that
  needs one is not evaluated, and a rule's truth is three-valued.

  The reasons and the names of inputs shown to the user are constructors. The Unicode case
  tables of the standard library are the record \<open>unicode_lib\<close>, the \<open>regex\<close> crate is
  \<open>rx_build\<close> of \<open>regex_lib\<close>.
\<close>

unbundle bit_operations_syntax

section \<open>Comparing text\<close>

record unicode_lib =
  uc_to_uppercase :: "rchar \<Rightarrow> rstr"
  uc_to_lowercase :: "rchar \<Rightarrow> rstr"

definition single :: "rstr \<Rightarrow> rchar option" where
  "single cs = (case cs of [c] \<Rightarrow> Some c | _ \<Rightarrow> None)"

definition fold_char :: "unicode_lib \<Rightarrow> rchar \<Rightarrow> rchar" where
  "fold_char uc c =
     (if c = 0x131 then c
      else let upper = (case single (uc_to_uppercase uc c) of Some u \<Rightarrow> u | None \<Rightarrow> c)
           in (case single (uc_to_lowercase uc upper) of Some l \<Rightarrow> l | None \<Rightarrow> upper))"

fun go_equal_fold :: "unicode_lib \<Rightarrow> rstr \<Rightarrow> rstr \<Rightarrow> bool" where
  "go_equal_fold uc [] [] = True"
| "go_equal_fold uc (x # xs) (y # ys) = ((x = y \<or> fold_char uc x = fold_char uc y) \<and> go_equal_fold uc xs ys)"
| "go_equal_fold uc _ _ = False"

definition go_lower_char :: "unicode_lib \<Rightarrow> rchar \<Rightarrow> rchar" where
  "go_lower_char uc c =
     (if c = 0x130 then 105 else case single (uc_to_lowercase uc c) of Some l \<Rightarrow> l | None \<Rightarrow> c)"

definition go_to_lower :: "unicode_lib \<Rightarrow> rstr \<Rightarrow> rstr" where
  "go_to_lower uc s = map (go_lower_char uc) s"

definition simple_cmp :: "unicode_lib \<Rightarrow> rstr \<Rightarrow> rstr \<Rightarrow> bool \<Rightarrow> bool" where
  "simple_cmp uc subject data sensitive = (if sensitive then subject = data else go_equal_fold uc subject data)"

definition hash_cmp :: "rstr \<Rightarrow> rstr \<Rightarrow> bool" where
  "hash_cmp subject data \<longleftrightarrow> subject = [] \<or> subject = data"

definition REGEX_SIZE_LIMIT :: nat where "REGEX_SIZE_LIMIT = 64 * 1024 * 1024"

datatype sim_regexp_error = RegexTooLarge | RegexSyntax | RegexClassForm

definition compile_regexp :: "regex_lib \<Rightarrow> unicode_lib \<Rightarrow> rstr \<Rightarrow> bool \<Rightarrow> sim_regexp_error + (rstr \<Rightarrow> bool)" where
  "compile_regexp lib uc pat sensitive =
     (case to_regex_crate (if sensitive then pat else go_to_lower uc pat) of
        None \<Rightarrow> Inl RegexClassForm
      | Some rewritten \<Rightarrow>
          (case rx_build lib REGEX_SIZE_LIMIT rewritten of
             Inl CompiledTooBig \<Rightarrow> Inl RegexTooLarge
           | Inl SyntaxError \<Rightarrow> Inl RegexSyntax
           | Inr re \<Rightarrow> Inr (\<lambda>subject. re (if sensitive then subject else go_to_lower uc subject))))"

section \<open>Networks\<close>

datatype net_addr = Net4 "32 word" | Net6 "128 word"

definition u32_of_octets :: "nat list \<Rightarrow> 32 word" where
  "u32_of_octets octets = of_nat (foldl (\<lambda>n d. n * 256 + d) 0 octets)"

definition u128_of_segments :: "nat list \<Rightarrow> 128 word" where
  "u128_of_segments segments = of_nat (foldl (\<lambda>n d. n * 65536 + d) 0 segments)"

fun net_addr_of :: "ip_addr \<Rightarrow> net_addr" where
  "net_addr_of (V4 octets) = Net4 (u32_of_octets octets)"
| "net_addr_of (V6 segments) = Net6 (u128_of_segments segments)"

definition mapped_octets :: "nat list \<Rightarrow> nat list" where
  "mapped_octets segments =
     [segments ! 6 div 256, segments ! 6 mod 256, segments ! 7 div 256, segments ! 7 mod 256]"

definition sim_parse_ip :: "rstr \<Rightarrow> ip_addr option" where
  "sim_parse_ip text =
     (case parse_ip_addr text of
        None \<Rightarrow> None
      | Some (V6 segments) \<Rightarrow> Some (if is_ipv4_mapped segments then V4 (mapped_octets segments) else V6 segments)
      | Some (V4 octets) \<Rightarrow> Some (V4 octets))"

text \<open>\<open>u32::MAX.checked_shl(32 - prefix).unwrap_or(0)\<close> and the same for 128 bits.\<close>

definition mask4 :: "nat \<Rightarrow> 32 word" where
  "mask4 p = (if 32 - p < 32 then push_bit (32 - p) (-1) else 0)"

definition mask6 :: "nat \<Rightarrow> 128 word" where
  "mask6 p = (if 128 - p < 128 then push_bit (128 - p) (-1) else 0)"

record cidr =
  ci_addr :: net_addr
  ci_prefix :: nat

definition cidr_new :: "net_addr \<Rightarrow> nat \<Rightarrow> cidr" where
  "cidr_new addr p =
     (case addr of
        Net6 v6 \<Rightarrow>
          (let masked = v6 AND mask6 p
           in if drop_bit 32 masked = 0xffff
              then \<lparr> ci_addr = Net4 (ucast masked), ci_prefix = p - 96 \<rparr>
              else \<lparr> ci_addr = addr, ci_prefix = p \<rparr>)
      | Net4 _ \<Rightarrow> \<lparr> ci_addr = addr, ci_prefix = p \<rparr>)"

definition cidr_contains :: "cidr \<Rightarrow> net_addr \<Rightarrow> bool" where
  "cidr_contains c ip =
     (case (ci_addr c, ip) of
        (Net4 net, Net4 ip) \<Rightarrow> net AND mask4 (ci_prefix c) = ip AND mask4 (ci_prefix c)
      | (Net6 net, Net6 ip) \<Rightarrow> net AND mask6 (ci_prefix c) = ip AND mask6 (ci_prefix c)
      | _ \<Rightarrow> False)"

definition parse_cidr :: "rstr \<Rightarrow> cidr option" where
  "parse_cidr text =
     (case split_once 47 text of
        None \<Rightarrow> None
      | Some (addr, bits) \<Rightarrow>
          (case parse_ip_addr addr of
             None \<Rightarrow> None
           | Some a \<Rightarrow>
               if bits = [] \<or> \<not> list_all is_ascii_digit bits then None
               else (case parse_unsigned 255 bits of
                       None \<Rightarrow> None
                     | Some p \<Rightarrow>
                         if p \<le> (case a of V4 _ \<Rightarrow> 32 | V6 _ \<Rightarrow> 128) then Some (cidr_new (net_addr_of a) p) else None)))"

definition ALIASES :: "(rstr \<times> rstr list) list" where
  "ALIASES =
     [(lit ''LAN'', map lit [''10.0.0.0/8'', ''172.16.0.0/12'', ''192.168.0.0/16'', ''127.0.0.0/8'', ''fc00::/7'']),
      (lit ''MULTICAST'', map lit [''224.0.0.0/4'', ''ff00::/8''])]"

definition network_contains :: "rstr \<Rightarrow> ip_addr \<Rightarrow> bool option" where
  "network_contains data ip =
     (case map_of ALIASES data of
        Some cidrs \<Rightarrow> Some (list_ex (\<lambda>c. cidr_contains c (net_addr_of ip)) (List.map_filter parse_cidr cidrs))
      | None \<Rightarrow> map_option (\<lambda>c. cidr_contains c (net_addr_of ip)) (parse_cidr data))"

text \<open>\<open>IpAddr::to_string\<close>: the first longest run of at least two zero segments is written
  as two colons.\<close>

fun lower_hex :: "nat \<Rightarrow> rstr" where
  "lower_hex n = (if n < 16 then [if n < 10 then 48 + n else 87 + n]
                  else lower_hex (n div 16) @ [if n mod 16 < 10 then 48 + n mod 16 else 87 + n mod 16])"

declare lower_hex.simps [simp del]

fun zero_runs :: "nat \<Rightarrow> nat list \<Rightarrow> (nat \<times> nat) list" where
  "zero_runs i [] = []"
| "zero_runs i (s # ss) =
     (if s = 0 then (i, Suc (length (takeWhile (\<lambda>x. x = 0) ss))) # zero_runs (Suc i) ss else zero_runs (Suc i) ss)"

definition longest_zeros :: "nat list \<Rightarrow> nat \<times> nat" where
  "longest_zeros segments = foldl (\<lambda>best run. if snd run > snd best then run else best) (0, 0) (zero_runs 0 segments)"

definition ipv6_to_string :: "nat list \<Rightarrow> rstr" where
  "ipv6_to_string segments =
     (if is_ipv4_mapped segments then lit ''::ffff:'' @ ipv4_to_string (mapped_octets segments)
      else let (start, len) = longest_zeros segments
           in if len > 1
              then join_with 58 (map lower_hex (take start segments)) @ lit ''::''
                   @ join_with 58 (map lower_hex (drop (start + len) segments))
              else join_with 58 (map lower_hex segments))"

fun ip_to_string :: "ip_addr \<Rightarrow> rstr" where
  "ip_to_string (V4 octets) = ipv4_to_string octets"
| "ip_to_string (V6 segments) = ipv6_to_string segments"

section \<open>Conditions\<close>

datatype sim_reason =
  USER_NAME | LISTS | BAD_PAIRING | UNKNOWN_NETWORK | NESTED_LIST | REGEX_ENGINE | REGEX_TOO_LARGE | REGEX_CLASS
| UNKNOWN_TYPE | LEGACY_SHAPE | UNREADABLE

datatype sim_input_name =
  PROCESS_PATH | PROTOCOL | DEST_HOST | PARENT_PATHS | COMMAND | PID | UID | ENV | SRC_IP | SRC_PORT | DEST_IP
| IFACE_IN | IFACE_OUT | CHECKSUM_MD5 | CHECKSUMS_ON

datatype sim_warning = HASH_OFF | HASH_NONE_RECORDED

record simulation_input =
  si_process_path :: "rstr option"
  si_dest_host :: "rstr option"
  si_dest_port :: nat
  si_protocol :: "rstr option"
  si_parent_paths :: "rstr list option"
  si_command :: "rstr option"
  si_pid :: "nat option"
  si_uid :: "nat option"
  si_env :: "(rstr, rstr) fmap option"
  si_src_ip :: "rstr option"
  si_src_port :: "nat option"
  si_dest_ip :: "rstr option"
  si_iface_in :: "rstr option"
  si_iface_out :: "rstr option"
  si_checksums :: "(rstr, rstr) fmap option"
  si_checksums_enabled :: "bool option"

datatype sim_kind = KSimple | KRegexp | KNetwork | KLists

record sim_leaf =
  sl_kind :: sim_kind
  sl_operand :: rstr
  sl_data :: rstr
  sl_sensitive :: bool

datatype sim_operator = OpTrue | OpList "sim_operator list" | OpLeaf sim_leaf | OpUnsupported rstr sim_reason

definition is_some :: "'a option \<Rightarrow> bool" where "is_some x \<longleftrightarrow> x \<noteq> None"

definition single_tagged_variant :: "(rstr \<times> json) list \<Rightarrow> (rstr \<times> json) option" where
  "single_tagged_variant ms =
     (case ms of
        [(tag, inner)] \<Rightarrow>
          if is_some (json_get inner (lit ''operand'')) \<or> is_some (json_get inner (lit ''operands'')) then Some (tag, inner)
          else None
      | _ \<Rightarrow> None)"

definition str_member :: "(rstr \<times> json) list \<Rightarrow> rstr \<Rightarrow> rstr \<Rightarrow> rstr" where
  "str_member ms key dflt = (case Option.bind (map_of ms key) as_str of Some s \<Rightarrow> s | None \<Rightarrow> dflt)"

definition parse_leaf :: "(rstr \<times> json) list \<Rightarrow> rstr \<Rightarrow> rstr \<Rightarrow> sim_operator" where
  "parse_leaf ms ty operand =
     (let leaf = (\<lambda>k. OpLeaf \<lparr> sl_kind = k, sl_operand = operand, sl_data = str_member ms (lit ''data'') [],
                               sl_sensitive = bool_field ms (lit ''sensitive'') \<rparr>)
      in if ty = lit ''simple'' then leaf KSimple
         else if ty = lit ''regexp'' then leaf KRegexp
         else if ty = lit ''network'' then leaf KNetwork
         else if ty = lit ''lists'' then leaf KLists
         else OpUnsupported (if operand = [] then ty else operand) UNKNOWN_TYPE)"

text \<open>The members a list's value holds: the array, or none.\<close>

definition children :: "json option \<Rightarrow> json list" where
  "children v = (case Option.bind v as_array of Some vs \<Rightarrow> vs | None \<Rightarrow> [])"

lemma size_member: "map_of ms k = Some v \<Longrightarrow> size v < size (JObject ms)"
proof (induction ms)
  case (Cons m ms)
  then show ?case by (cases m) (auto split: if_splits)
qed simp

lemma size_json_get: "json_get v k = Some w \<Longrightarrow> size w < size v"
  by (cases v) (auto simp: json_get_def dest: size_member)

lemma size_child: "x \<in> set (children (Some v)) \<Longrightarrow> size x < size v"
  by (cases v) (auto simp: children_def size_list_estimation' less_Suc_eq_le)

function parse_operator :: "json \<Rightarrow> sim_operator" where
  "parse_operator v =
     (case v of
        JObject ms \<Rightarrow>
          (case single_tagged_variant ms of
             Some (tag, inner) \<Rightarrow>
               if tag = lit ''list'' then OpList (map parse_operator (children (json_get inner (lit ''operands''))))
               else OpUnsupported (case Option.bind (json_get inner (lit ''operand'')) as_str of Some s \<Rightarrow> s | None \<Rightarrow> tag) LEGACY_SHAPE
           | None \<Rightarrow>
               (let operand = str_member ms (lit ''operand'') []; ty = str_member ms (lit ''type'') (lit ''simple'')
                in if ty = lit ''list'' \<or> operand = lit ''list''
                   then OpList (map parse_operator (children
                          (case map_of ms (lit ''list'') of Some l \<Rightarrow> Some l | None \<Rightarrow> map_of ms (lit ''operands''))))
                   else if operand = lit ''true'' then OpTrue
                   else parse_leaf ms ty operand))
      | _ \<Rightarrow> OpUnsupported (lit ''<unrecognized operator shape>'') UNREADABLE)"
  by pat_completeness auto
termination
proof (relation "measure size", goal_cases)
  case (2 v ms operand ty x)
  then obtain w k where w: "map_of ms k = Some w" "x \<in> set (children (Some w))"
    by (cases "map_of ms (lit ''list'')"; cases "map_of ms (lit ''operands'')") (auto simp: children_def)
  then show ?case using 2 size_member[OF w(1)] size_child[OF w(2)] by simp
next
  case (3 v ms pr tag inner x)
  then have "json_get v tag = Some inner"
    by (auto simp: json_get_def single_tagged_variant_def split: list.splits prod.splits if_splits)
  then have "size inner < size v" by (rule size_json_get)
  moreover obtain w where w: "json_get inner (lit ''operands'') = Some w"
    using 3 by (cases "json_get inner (lit ''operands'')") (auto simp: children_def)
  ultimately show ?case using 3 size_json_get[OF w] size_child[of x w] by (simp add: w)
qed simp

declare parse_operator.simps [simp del]

section \<open>Outcomes\<close>

datatype truth = Yes | No | Unknown

datatype gap = Unevaluated rstr sim_input_name bool | Unsupported rstr sim_reason

record outcome =
  oc_truth :: truth
  oc_gaps :: "gap list"
  oc_warnings :: "sim_warning list"

definition definite :: "truth \<Rightarrow> outcome" where
  "definite t = \<lparr> oc_truth = t, oc_gaps = [], oc_warnings = [] \<rparr>"

definition from_bool :: "bool \<Rightarrow> outcome" where
  "from_bool matched = definite (if matched then Yes else No)"

definition yes_with :: "sim_warning \<Rightarrow> outcome" where
  "yes_with w = (definite Yes)\<lparr> oc_warnings := [w] \<rparr>"

definition outcome_gap :: "gap \<Rightarrow> outcome" where
  "outcome_gap g = (definite Unknown)\<lparr> oc_gaps := [g] \<rparr>"

definition unevaluated :: "rstr \<Rightarrow> sim_input_name \<Rightarrow> outcome" where
  "unevaluated operand missing = outcome_gap (Unevaluated operand missing False)"

definition invalid :: "rstr \<Rightarrow> sim_input_name \<Rightarrow> outcome" where
  "invalid operand inp = outcome_gap (Unevaluated operand inp True)"

definition unsupported :: "rstr \<Rightarrow> sim_reason \<Rightarrow> outcome" where
  "unsupported operand reason = outcome_gap (Unsupported operand reason)"

section \<open>Evaluation\<close>

datatype sim_matcher = MSimple rstr bool | MRegexp "rstr \<Rightarrow> bool"

definition matcher_new :: "regex_lib \<Rightarrow> unicode_lib \<Rightarrow> sim_leaf \<Rightarrow> sim_reason + sim_matcher" where
  "matcher_new lib uc leaf =
     (case sl_kind leaf of
        KSimple \<Rightarrow> Inr (MSimple (sl_data leaf) (sl_sensitive leaf))
      | KRegexp \<Rightarrow>
          (case compile_regexp lib uc (sl_data leaf) (sl_sensitive leaf) of
             Inr re \<Rightarrow> Inr (MRegexp re)
           | Inl RegexTooLarge \<Rightarrow> Inl REGEX_TOO_LARGE
           | Inl RegexSyntax \<Rightarrow> Inl REGEX_ENGINE
           | Inl RegexClassForm \<Rightarrow> Inl REGEX_CLASS)
      | _ \<Rightarrow> Inl BAD_PAIRING)"

fun matcher_matches :: "unicode_lib \<Rightarrow> sim_matcher \<Rightarrow> rstr \<Rightarrow> bool" where
  "matcher_matches uc (MSimple data sensitive) subject = simple_cmp uc subject data sensitive"
| "matcher_matches uc (MRegexp re) subject = re subject"

fun matches_hash :: "sim_matcher \<Rightarrow> rstr \<Rightarrow> bool" where
  "matches_hash (MSimple data sensitive) checksum = hash_cmp checksum data"
| "matches_hash (MRegexp re) checksum = re checksum"

datatype subject = Known rstr | Missing sim_input_name | Invalid sim_input_name | NotAnOperand

definition known_or :: "rstr option \<Rightarrow> sim_input_name \<Rightarrow> subject" where
  "known_or v missing = (case v of Some s \<Rightarrow> Known s | None \<Rightarrow> Missing missing)"

definition ip_subject :: "rstr option \<Rightarrow> sim_input_name \<Rightarrow> subject" where
  "ip_subject text inp =
     (case text of
        None \<Rightarrow> Missing inp
      | Some text \<Rightarrow> (case sim_parse_ip text of Some ip \<Rightarrow> Known (ip_to_string ip) | None \<Rightarrow> Invalid inp))"

definition is_env_trim :: "rchar \<Rightarrow> bool" where
  "is_env_trim c \<longleftrightarrow> c \<in> {13, 10, 9, 32}"

definition text_subject :: "rstr \<Rightarrow> simulation_input \<Rightarrow> subject" where
  "text_subject operand inp =
     (if operand = lit ''process.path'' then known_or (si_process_path inp) PROCESS_PATH
      else if operand = lit ''process.command'' then known_or (si_command inp) COMMAND
      else if operand = lit ''process.id'' then known_or (map_option decimal (si_pid inp)) PID
      else if operand = lit ''dest.host'' then known_or (si_dest_host inp) DEST_HOST
      else if operand = lit ''dest.ip'' then ip_subject (si_dest_ip inp) DEST_IP
      else if operand = lit ''dest.port'' then Known (decimal (si_dest_port inp))
      else if operand = lit ''user.id'' then known_or (map_option decimal (si_uid inp)) UID
      else if operand = lit ''source.ip'' then ip_subject (si_src_ip inp) SRC_IP
      else if operand = lit ''source.port'' then known_or (map_option decimal (si_src_port inp)) SRC_PORT
      else if operand = lit ''protocol'' then known_or (si_protocol inp) PROTOCOL
      else if operand = lit ''iface.in'' then known_or (si_iface_in inp) IFACE_IN
      else if operand = lit ''iface.out'' then known_or (si_iface_out inp) IFACE_OUT
      else if prefix (lit ''process.env.'') operand
      then (case si_env inp of
              None \<Rightarrow> Missing ENV
            | Some env \<Rightarrow>
                Known (case fmlookup env (trim_matches is_env_trim (drop (length (lit ''process.env.'')) operand)) of
                         Some v \<Rightarrow> v | None \<Rightarrow> []))
      else NotAnOperand)"

definition parent_path :: "regex_lib \<Rightarrow> unicode_lib \<Rightarrow> sim_leaf \<Rightarrow> simulation_input \<Rightarrow> outcome" where
  "parent_path lib uc leaf inp =
     (case si_parent_paths inp of
        None \<Rightarrow> unevaluated (sl_operand leaf) PARENT_PATHS
      | Some ancestors \<Rightarrow>
          (case matcher_new lib uc leaf of
             Inr m \<Rightarrow> from_bool (list_ex (matcher_matches uc m) ancestors)
           | Inl why \<Rightarrow> unsupported (sl_operand leaf) why))"

definition hash_with_checksums_on :: "regex_lib \<Rightarrow> unicode_lib \<Rightarrow> sim_leaf \<Rightarrow> simulation_input \<Rightarrow> outcome" where
  "hash_with_checksums_on lib uc leaf inp =
     (case si_checksums inp of
        None \<Rightarrow> unevaluated (sl_operand leaf) CHECKSUM_MD5
      | Some checksums \<Rightarrow>
          (let sums = map (\<lambda>k. the (fmlookup checksums k)) (fm_keys checksums)
           in if sums = [] then yes_with HASH_NONE_RECORDED
              else (case matcher_new lib uc leaf of
                      Inl why \<Rightarrow> unsupported (sl_operand leaf) why
                    | Inr m \<Rightarrow>
                        if sl_kind leaf = KSimple \<and> list_ex (\<lambda>s. s = []) sums then yes_with HASH_NONE_RECORDED
                        else from_bool (list_ex (matches_hash m) sums))))"

definition hash_with_checksum_setting_unknown ::
  "regex_lib \<Rightarrow> unicode_lib \<Rightarrow> sim_leaf \<Rightarrow> simulation_input \<Rightarrow> outcome" where
  "hash_with_checksum_setting_unknown lib uc leaf inp =
     (let on = hash_with_checksums_on lib uc leaf inp
      in if oc_truth on = Yes then on
         else \<lparr> oc_truth = Unknown,
                oc_gaps = Unevaluated (sl_operand leaf) CHECKSUMS_ON False # (if oc_truth on = Unknown then oc_gaps on else []),
                oc_warnings = [] \<rparr>)"

definition hash_operand :: "regex_lib \<Rightarrow> unicode_lib \<Rightarrow> sim_leaf \<Rightarrow> simulation_input \<Rightarrow> outcome" where
  "hash_operand lib uc leaf inp =
     (case si_checksums_enabled inp of
        Some False \<Rightarrow> yes_with HASH_OFF
      | Some True \<Rightarrow> hash_with_checksums_on lib uc leaf inp
      | None \<Rightarrow> hash_with_checksum_setting_unknown lib uc leaf inp)"

definition network_operand :: "sim_leaf \<Rightarrow> rstr option \<Rightarrow> sim_input_name \<Rightarrow> outcome" where
  "network_operand leaf ip inp =
     (case sl_kind leaf of
        KRegexp \<Rightarrow> definite No
      | KNetwork \<Rightarrow>
          (case ip of
             None \<Rightarrow> unevaluated (sl_operand leaf) inp
           | Some text \<Rightarrow>
               (case sim_parse_ip text of
                  None \<Rightarrow> invalid (sl_operand leaf) inp
                | Some addr \<Rightarrow>
                    (case network_contains (sl_data leaf) addr of
                       Some inside \<Rightarrow> from_bool inside
                     | None \<Rightarrow> unsupported (sl_operand leaf) UNKNOWN_NETWORK)))
      | _ \<Rightarrow> unsupported (sl_operand leaf) BAD_PAIRING)"

definition text_operand :: "regex_lib \<Rightarrow> unicode_lib \<Rightarrow> sim_leaf \<Rightarrow> simulation_input \<Rightarrow> outcome" where
  "text_operand lib uc leaf inp =
     (case text_subject (sl_operand leaf) inp of
        NotAnOperand \<Rightarrow> definite No
      | s \<Rightarrow>
          if sl_kind leaf = KNetwork \<or> sl_kind leaf = KLists then unsupported (sl_operand leaf) BAD_PAIRING
          else (case s of
                  Missing what \<Rightarrow> unevaluated (sl_operand leaf) what
                | Invalid what \<Rightarrow> invalid (sl_operand leaf) what
                | Known subject \<Rightarrow>
                    (case matcher_new lib uc leaf of
                       Inr m \<Rightarrow> from_bool (matcher_matches uc m subject)
                     | Inl why \<Rightarrow> unsupported (sl_operand leaf) why)
                | NotAnOperand \<Rightarrow> definite No))"

definition evaluate_leaf :: "regex_lib \<Rightarrow> unicode_lib \<Rightarrow> sim_leaf \<Rightarrow> simulation_input \<Rightarrow> outcome" where
  "evaluate_leaf lib uc leaf inp =
     (let operand = sl_operand leaf
      in if sl_kind leaf = KLists \<or> prefix (lit ''lists.'') operand then unsupported operand LISTS
         else if operand = lit ''user.name'' then unsupported operand USER_NAME
         else if operand = lit ''process.parent.path'' then parent_path lib uc leaf inp
         else if operand \<in> {lit ''process.hash.md5'', lit ''process.hash.sha1''} then hash_operand lib uc leaf inp
         else if operand = lit ''dest.network'' then network_operand leaf (si_dest_ip inp) DEST_IP
         else if operand = lit ''source.network'' then network_operand leaf (si_src_ip inp) SRC_IP
         else text_operand lib uc leaf inp)"

text \<open>A member of a list; a list in a list is not simulated.\<close>

fun evaluate_member :: "regex_lib \<Rightarrow> unicode_lib \<Rightarrow> simulation_input \<Rightarrow> sim_operator \<Rightarrow> outcome" where
  "evaluate_member lib uc inp OpTrue = definite Yes"
| "evaluate_member lib uc inp (OpUnsupported operand reason) = unsupported operand reason"
| "evaluate_member lib uc inp (OpLeaf leaf) = evaluate_leaf lib uc leaf inp"
| "evaluate_member lib uc inp (OpList _) = unsupported (lit ''list'') NESTED_LIST"

definition note_warnings :: "sim_warning list \<Rightarrow> sim_warning list \<Rightarrow> sim_warning list" where
  "note_warnings new warnings = fold (\<lambda>w ws. if w \<in> set ws then ws else ws @ [w]) new warnings"

fun evaluate_list ::
  "(sim_operator \<Rightarrow> outcome) \<Rightarrow> bool \<Rightarrow> gap list \<Rightarrow> sim_warning list \<Rightarrow> sim_operator list \<Rightarrow> outcome" where
  "evaluate_list eval undecided gaps warnings [] =
     \<lparr> oc_truth = (if undecided then Unknown else Yes), oc_gaps = gaps, oc_warnings = warnings \<rparr>"
| "evaluate_list eval undecided gaps warnings (child # rest) =
     (let oc = eval child
      in case oc_truth oc of
           No \<Rightarrow> definite No
         | Unknown \<Rightarrow> evaluate_list eval True (gaps @ oc_gaps oc) (note_warnings (oc_warnings oc) warnings) rest
         | Yes \<Rightarrow> evaluate_list eval undecided gaps (note_warnings (oc_warnings oc) warnings) rest)"

definition evaluate :: "regex_lib \<Rightarrow> unicode_lib \<Rightarrow> simulation_input \<Rightarrow> sim_operator \<Rightarrow> outcome" where
  "evaluate lib uc inp op =
     (case op of
        OpList members \<Rightarrow> evaluate_list (evaluate_member lib uc inp) False [] [] members
      | _ \<Rightarrow> evaluate_member lib uc inp op)"

section \<open>The scan\<close>

definition stops_scan :: "gui_rule \<Rightarrow> bool" where
  "stops_scan r \<longleftrightarrow> gr_precedence r \<or> gr_action r = lit ''deny'' \<or> gr_action r = lit ''reject''"

definition daemon_action :: "gui_rule \<Rightarrow> rstr" where
  "daemon_action r = (if gr_action r = lit ''allow'' then lit ''allow'' else lit ''deny'')"

record scan_result =
  sc_decider :: "(nat \<times> gui_rule \<times> sim_warning list) option"
  sc_undecided :: "(nat \<times> gui_rule \<times> gap list) list"

fun scan_from :: "(gui_rule \<Rightarrow> outcome) \<Rightarrow> nat \<Rightarrow> gui_rule list \<Rightarrow> scan_result \<Rightarrow> scan_result" where
  "scan_from eval position [] found = found"
| "scan_from eval position (r # rs) found =
     (let oc = eval r
      in case oc_truth oc of
           No \<Rightarrow> scan_from eval (Suc position) rs found
         | Unknown \<Rightarrow>
             scan_from eval (Suc position) rs (found\<lparr> sc_undecided := sc_undecided found @ [(position, r, oc_gaps oc)] \<rparr>)
         | Yes \<Rightarrow>
             (let found = found\<lparr> sc_decider := Some (position, r, oc_warnings oc) \<rparr>
              in if stops_scan r then found else scan_from eval (Suc position) rs found))"

definition evaluate_rule :: "regex_lib \<Rightarrow> unicode_lib \<Rightarrow> simulation_input \<Rightarrow> gui_rule \<Rightarrow> outcome" where
  "evaluate_rule lib uc inp r = evaluate lib uc inp (parse_operator (gr_operator r))"

definition scan :: "regex_lib \<Rightarrow> unicode_lib \<Rightarrow> gui_rule list \<Rightarrow> simulation_input \<Rightarrow> scan_result" where
  "scan lib uc active inp = scan_from (evaluate_rule lib uc inp) 0 active \<lparr> sc_decider = None, sc_undecided = [] \<rparr>"

text \<open>The undecided rules that could have changed the verdict, and what they lacked.\<close>

definition matters :: "scan_result \<Rightarrow> nat \<times> gui_rule \<times> gap list \<Rightarrow> bool" where
  "matters found = (\<lambda>(position, r, gaps).
     stops_scan r \<or> (case sc_decider found of None \<Rightarrow> True | Some (d, _) \<Rightarrow> position > d))"

record unevaluated_entry =
  ue_rule :: rstr
  ue_operand :: rstr
  ue_missing :: sim_input_name
  ue_invalid :: bool

definition note_gap ::
  "gui_rule \<Rightarrow> gap \<Rightarrow> (rstr \<times> sim_reason) fset \<times> unevaluated_entry list \<Rightarrow> (rstr \<times> sim_reason) fset \<times> unevaluated_entry list" where
  "note_gap r g = (\<lambda>(unsupp, uneval).
     case g of
       Unsupported operand reason \<Rightarrow> (finsert (operand, reason) unsupp, uneval)
     | Unevaluated operand missing bad \<Rightarrow>
         (let entry = \<lparr> ue_rule = shown_name r, ue_operand = operand, ue_missing = missing, ue_invalid = bad \<rparr>
          in (unsupp, if entry \<in> set uneval then uneval else uneval @ [entry])))"

definition gaps_that_matter :: "scan_result \<Rightarrow> (rstr \<times> sim_reason) fset \<times> unevaluated_entry list" where
  "gaps_that_matter found =
     fold (\<lambda>(_, r, gaps) acc. fold (note_gap r) gaps acc) (filter (matters found) (sc_undecided found)) ({||}, [])"

record simulation_result =
  sr_matched_rule :: "rstr option"
  sr_action :: "rstr option"
  sr_precedence :: "nat option"
  sr_unsupported_operands :: "(rstr \<times> sim_reason) fset"
  sr_unevaluated :: "unevaluated_entry list"
  sr_warnings :: "sim_warning list"

definition active_rules :: "rules_store \<Rightarrow> gui_rule list" where
  "active_rules store = sort_key gr_name (filter gr_enabled store)"

definition simulate :: "regex_lib \<Rightarrow> unicode_lib \<Rightarrow> rules_store \<Rightarrow> simulation_input \<Rightarrow> simulation_result" where
  "simulate lib uc store inp =
     (let found = scan lib uc (active_rules store) inp;
          (unsupp, uneval) = gaps_that_matter found
      in case sc_decider found of
           Some (_, r, warnings) \<Rightarrow>
             \<lparr> sr_matched_rule = Some (shown_name r), sr_action = Some (daemon_action r),
               sr_precedence = index_of (gr_name r) store, sr_unsupported_operands = unsupp,
               sr_unevaluated = uneval, sr_warnings = warnings \<rparr>
         | None \<Rightarrow>
             \<lparr> sr_matched_rule = None, sr_action = None, sr_precedence = None, sr_unsupported_operands = unsupp,
               sr_unevaluated = uneval, sr_warnings = [] \<rparr>)"

end
