(* ===== verification/Rule_Shadow.thy ===== *)
theory Rule_Shadow
  imports Rule_Match
begin

text \<open>
  The rule insights of the desktop shell: \<open>rules/insights/atoms.rs\<close> (a rule's conditions as a
  conjunction, and when one condition provably implies another), \<open>shadow.rs\<close> (rules that can
  never decide a connection), \<open>state.rs\<close> (the life of an analysis, so that a result for an
  older list is never shown) and \<open>rules/deciding.rs\<close>.

  A condition (\<open>Atom\<close>) has the fields of a leaf of the simulator; the regular expression it
  compiles on first use is compiled where it is used.
\<close>

unbundle bit_operations_syntax

section \<open>Conditions\<close>

datatype proof_kind = ProofExact | ProofEngine

type_synonym atom = sim_leaf

definition TEXT_OPERANDS :: "rstr list" where
  "TEXT_OPERANDS = map lit [''process.path'', ''process.command'', ''process.id'', ''dest.host'', ''dest.ip'', ''dest.port'',
     ''source.ip'', ''source.port'', ''user.id'', ''protocol'']"

definition INSIGHT_NETWORK_OPERANDS :: "rstr list" where
  "INSIGHT_NETWORK_OPERANDS = [lit ''dest.network'', lit ''source.network'']"

definition atom_from_leaf :: "sim_leaf \<Rightarrow> atom option" where
  "atom_from_leaf leaf =
     (let modelled = (case sl_kind leaf of
            KSimple \<Rightarrow> sl_operand leaf \<in> set TEXT_OPERANDS
          | KRegexp \<Rightarrow> sl_operand leaf \<in> set TEXT_OPERANDS
          | KNetwork \<Rightarrow> sl_operand leaf \<in> set INSIGHT_NETWORK_OPERANDS
          | KLists \<Rightarrow> False)
      in if modelled then Some leaf else None)"

record conjunction =
  cj_atoms :: "atom list"
  cj_opaque :: bool

definition conjunction_add :: "sim_operator \<Rightarrow> conjunction \<Rightarrow> conjunction" where
  "conjunction_add op c =
     (case op of
        OpTrue \<Rightarrow> c
      | OpLeaf leaf \<Rightarrow>
          (case atom_from_leaf leaf of
             Some a \<Rightarrow> c\<lparr> cj_atoms := cj_atoms c @ [a] \<rparr> | None \<Rightarrow> c\<lparr> cj_opaque := True \<rparr>)
      | _ \<Rightarrow> c\<lparr> cj_opaque := True \<rparr>)"

definition conjunction_from_rule :: "gui_rule \<Rightarrow> conjunction" where
  "conjunction_from_rule r =
     (let empty = \<lparr> cj_atoms = [], cj_opaque = False \<rparr>
      in case parse_operator (gr_operator r) of
           OpList ms \<Rightarrow> if ms = [] then empty\<lparr> cj_opaque := True \<rparr> else fold conjunction_add ms empty
         | op \<Rightarrow> conjunction_add op empty)"

section \<open>IPv4 networks\<close>

definition canonical_ipv4 :: "rstr \<Rightarrow> 32 word option" where
  "canonical_ipv4 text =
     (case parse_ipv4 text of
        Some octets \<Rightarrow> if ipv4_to_string octets = text then Some (u32_of_octets octets) else None
      | None \<Rightarrow> None)"

record v4_net =
  v4_addr :: "32 word"
  v4_prefix :: nat

definition v4_net_parse :: "rstr \<Rightarrow> v4_net option" where
  "v4_net_parse text =
     (case split_once 47 text of
        None \<Rightarrow> None
      | Some (addr, bits) \<Rightarrow>
          if bits = [] \<or> \<not> list_all is_ascii_digit bits then None
          else (case parse_unsigned 255 bits of
                  None \<Rightarrow> None
                | Some p \<Rightarrow>
                    if p > 32 then None
                    else map_option (\<lambda>octets. \<lparr> v4_addr = u32_of_octets octets AND mask4 p, v4_prefix = p \<rparr>) (parse_ipv4 addr)))"

definition v4_net_contains :: "v4_net \<Rightarrow> 32 word \<Rightarrow> bool" where
  "v4_net_contains net ip \<longleftrightarrow> ip AND mask4 (v4_prefix net) = v4_addr net"

section \<open>Implication\<close>

definition simple_implies_simple :: "unicode_lib \<Rightarrow> atom \<Rightarrow> atom \<Rightarrow> bool" where
  "simple_implies_simple uc premise goal =
     (if sl_sensitive goal then sl_sensitive premise \<and> sl_data premise = sl_data goal
      else simple_cmp uc (sl_data premise) (sl_data goal) False)"

definition simple_implies_regexp :: "regex_lib \<Rightarrow> unicode_lib \<Rightarrow> atom \<Rightarrow> atom \<Rightarrow> bool" where
  "simple_implies_regexp lib uc premise goal =
     (case compile_regexp lib uc (sl_data goal) (sl_sensitive goal) of
        Inl _ \<Rightarrow> False
      | Inr is_match \<Rightarrow>
          if sl_sensitive premise then is_match (sl_data premise)
          else \<not> sl_sensitive goal \<and> list_all (\<lambda>c. c < 0x80) (sl_data premise)
               \<and> \<not> list_ex (\<lambda>c. c = 115 \<or> c = 83) (sl_data premise) \<and> is_match (sl_data premise))"

definition literal_ip_in_network :: "atom \<Rightarrow> atom \<Rightarrow> bool" where
  "literal_ip_in_network premise goal =
     ((sl_operand premise, sl_operand goal) \<in>
          {(lit ''dest.ip'', lit ''dest.network''), (lit ''source.ip'', lit ''source.network'')}
      \<and> (case (canonical_ipv4 (sl_data premise), v4_net_parse (sl_data goal)) of
           (Some ip, Some net) \<Rightarrow> v4_net_contains net ip
         | _ \<Rightarrow> False))"

definition network_in_network :: "rstr \<Rightarrow> rstr \<Rightarrow> bool" where
  "network_in_network premise goal =
     (case (v4_net_parse premise, v4_net_parse goal) of
        (Some inner, Some outer) \<Rightarrow> v4_prefix inner \<ge> v4_prefix outer \<and> v4_net_contains outer (v4_addr inner)
      | _ \<Rightarrow> False)"

definition implies :: "regex_lib \<Rightarrow> unicode_lib \<Rightarrow> atom \<Rightarrow> atom \<Rightarrow> proof_kind option" where
  "implies lib uc premise goal =
     (let proven = (\<lambda>b p. if b then Some p else None)
      in if premise = goal then Some ProofExact
         else case (sl_kind premise, sl_kind goal) of
                (KSimple, KSimple) \<Rightarrow>
                  if sl_operand premise = sl_operand goal then proven (simple_implies_simple uc premise goal) ProofExact else None
              | (KSimple, KRegexp) \<Rightarrow>
                  if sl_operand premise = sl_operand goal then proven (simple_implies_regexp lib uc premise goal) ProofEngine else None
              | (KSimple, KNetwork) \<Rightarrow> proven (literal_ip_in_network premise goal) ProofExact
              | (KNetwork, KNetwork) \<Rightarrow>
                  if sl_operand premise = sl_operand goal
                  then proven (network_in_network (sl_data premise) (sl_data goal)) ProofExact else None
              | _ \<Rightarrow> None)"

definition strongest :: "proof_kind list \<Rightarrow> proof_kind option" where
  "strongest ps = (if ProofExact \<in> set ps then Some ProofExact else if ps = [] then None else Some ProofEngine)"

fun covers_all :: "regex_lib \<Rightarrow> unicode_lib \<Rightarrow> atom list \<Rightarrow> proof_kind \<Rightarrow> atom list \<Rightarrow> proof_kind option" where
  "covers_all lib uc premises weakest [] = Some weakest"
| "covers_all lib uc premises weakest (goal # goals) =
     (case strongest (List.map_filter (\<lambda>premise. implies lib uc premise goal) premises) of
        None \<Rightarrow> None
      | Some p \<Rightarrow> covers_all lib uc premises (if p = ProofEngine then ProofEngine else weakest) goals)"

definition covers :: "regex_lib \<Rightarrow> unicode_lib \<Rightarrow> conjunction \<Rightarrow> conjunction \<Rightarrow> proof_kind option" where
  "covers lib uc c other =
     (if cj_opaque c then None else covers_all lib uc (cj_atoms other) ProofExact (cj_atoms c))"

section \<open>Shadowed rules\<close>

definition MAX_ANALYZED_RULES :: nat where "MAX_ANALYZED_RULES = 2000"

datatype finding_kind = NeverDecides | MayBeShadowed

record finding =
  fi_kind :: finding_kind
  fi_by :: rstr
  fi_by_display :: rstr

datatype analysis = AnalysisDone "(rstr, finding) fmap" | TooMany nat nat

definition PACKAGED_RULE_PREFIX :: rstr where "PACKAGED_RULE_PREFIX = lit ''000-snitchwatch-''"

definition is_managed :: "gui_rule \<Rightarrow> bool" where
  "is_managed r \<longleftrightarrow> is_read_only r \<or> is_blocklist_sourced r \<or> prefix PACKAGED_RULE_PREFIX (gr_name r)"

record covering =
  cv_proof :: proof_kind
  cv_position :: nat
  cv_stops :: bool

definition covering_rule :: "regex_lib \<Rightarrow> unicode_lib \<Rightarrow> gui_rule list \<Rightarrow> nat \<Rightarrow> nat \<Rightarrow> covering option" where
  "covering_rule lib uc active position other =
     (let candidate = active ! other; shadowed_stops = stops_scan (active ! position); stops = stops_scan candidate;
          conditions = conjunction_from_rule candidate
      in if other = position \<or> gr_duration candidate \<noteq> lit ''always'' \<or> is_reserved_profile_name (gr_name candidate)
            \<or> cj_opaque conditions
         then None
         else if \<not> (if stops then \<not> shadowed_stops \<or> other < position else \<not> shadowed_stops \<and> other > position)
         then None
         else map_option (\<lambda>p. \<lparr> cv_proof = p, cv_position = other, cv_stops = stops \<rparr>)
                (covers lib uc conditions (conjunction_from_rule (active ! position))))"

text \<open>The covering rules are found in the order of their positions: the first is the one
  with the least, the last the one with the greatest position.\<close>

definition named_covering :: "covering list \<Rightarrow> covering option" where
  "named_covering cs =
     (case strongest (map cv_proof cs) of
        None \<Rightarrow> None
      | Some p \<Rightarrow>
          (let tier = filter (\<lambda>c. cv_proof c = p) cs
           in case filter cv_stops tier of
                c # _ \<Rightarrow> Some c
              | [] \<Rightarrow> if tier = [] then None else Some (last tier)))"

definition shadowed_by :: "regex_lib \<Rightarrow> unicode_lib \<Rightarrow> nat \<Rightarrow> gui_rule list \<Rightarrow> finding option" where
  "shadowed_by lib uc position active =
     map_option (\<lambda>c. \<lparr> fi_kind = (case cv_proof c of ProofExact \<Rightarrow> NeverDecides | ProofEngine \<Rightarrow> MayBeShadowed),
                       fi_by = gr_name (active ! cv_position c), fi_by_display = shown_name (active ! cv_position c) \<rparr>)
       (named_covering (List.map_filter (covering_rule lib uc active position) [0..<length active]))"

definition note_finding ::
  "regex_lib \<Rightarrow> unicode_lib \<Rightarrow> gui_rule list \<Rightarrow> nat \<Rightarrow> (rstr, finding) fmap \<Rightarrow> (rstr, finding) fmap" where
  "note_finding lib uc active position findings =
     (let r = active ! position
      in if is_managed r then findings
         else case shadowed_by lib uc position active of
                Some f \<Rightarrow> fmupd (gr_name r) f findings
              | None \<Rightarrow> findings)"

text \<open>\<open>analyze\<close>; a cancelled analysis gives nothing and is left out.\<close>

definition analyze :: "regex_lib \<Rightarrow> unicode_lib \<Rightarrow> gui_rule list \<Rightarrow> analysis" where
  "analyze lib uc rules =
     (let active = active_rules rules
      in if length active > MAX_ANALYZED_RULES then TooMany (length active) MAX_ANALYZED_RULES
         else AnalysisDone (fold (note_finding lib uc active) [0..<length active] fmempty))"

section \<open>The life of an analysis\<close>

datatype phase = PhaseIdle | PhaseRunning | PhaseDone | PhaseTooMany | PhaseStale

text \<open>A run is known by its generation; \<open>as_cancelled\<close> holds those told to stop.\<close>

record analysis_state =
  as_phase :: phase
  as_generation :: nat
  as_running :: "nat option"
  as_cancelled :: "nat list"
  as_enabled :: nat
  as_findings :: "(rstr, finding) fmap"

definition new_analysis :: analysis_state where
  "new_analysis = \<lparr> as_phase = PhaseIdle, as_generation = 0, as_running = None, as_cancelled = [], as_enabled = 0,
     as_findings = fmempty \<rparr>"

definition rules_changed :: "analysis_state \<Rightarrow> analysis_state" where
  "rules_changed s =
     s\<lparr> as_generation := as_generation s + 1,
        as_running := None,
        as_cancelled := (case as_running s of Some g \<Rightarrow> g # as_cancelled s | None \<Rightarrow> as_cancelled s),
        as_findings := fmempty,
        as_phase := (if as_phase s \<noteq> PhaseIdle then PhaseStale else as_phase s) \<rparr>"

definition analysis_start :: "analysis_state \<Rightarrow> analysis_state \<times> nat option" where
  "analysis_start s =
     (if as_phase s = PhaseRunning then (s, None)
      else (s\<lparr> as_phase := PhaseRunning, as_running := Some (as_generation s), as_findings := fmempty \<rparr>,
            Some (as_generation s)))"

definition analysis_finish :: "nat \<Rightarrow> analysis \<Rightarrow> analysis_state \<Rightarrow> analysis_state" where
  "analysis_finish generation a s =
     (if as_running s \<noteq> Some generation then s
      else case a of
             AnalysisDone findings \<Rightarrow> s\<lparr> as_running := None, as_findings := findings, as_phase := PhaseDone \<rparr>
           | TooMany enabled _ \<Rightarrow> s\<lparr> as_running := None, as_enabled := enabled, as_phase := PhaseTooMany \<rparr>)"

section \<open>The rules tab\<close>

text \<open>The part of \<open>rules_model.rs\<close> that runs the analysis: the list, the analysis and the
  threads started for it, each with the generation and the copy of the list it was given.
  A message that is not a list of rules leaves the list alone and is left out.\<close>

record rules_tab =
  rt_store :: rules_store
  rt_analysis :: analysis_state
  rt_workers :: "(nat \<times> gui_rule list) list"

definition new_rules_tab :: rules_tab where
  "new_rules_tab = \<lparr> rt_store = [], rt_analysis = new_analysis, rt_workers = [] \<rparr>"

definition apply_rules_message :: "rules_message \<Rightarrow> rules_tab \<Rightarrow> rules_tab" where
  "apply_rules_message msg tab =
     (let (store, changed) = store_apply msg (rt_store tab)
      in tab\<lparr> rt_store := store,
              rt_analysis := (if changed then rules_changed (rt_analysis tab) else rt_analysis tab) \<rparr>)"

definition tab_analyze :: "rules_tab \<Rightarrow> rules_tab" where
  "tab_analyze tab =
     (case analysis_start (rt_analysis tab) of
        (_, None) \<Rightarrow> tab
      | (a, Some generation) \<Rightarrow> tab\<lparr> rt_analysis := a, rt_workers := (generation, rt_store tab) # rt_workers tab \<rparr>)"

definition finish_analysis :: "nat \<Rightarrow> analysis \<Rightarrow> rules_tab \<Rightarrow> rules_tab" where
  "finish_analysis generation a tab = tab\<lparr> rt_analysis := analysis_finish generation a (rt_analysis tab) \<rparr>"

text \<open>A thread ends with its result, or gives up once it is told to stop. It may have its
  result queued already when it is told, so both can happen then.\<close>

inductive tab_step :: "regex_lib \<Rightarrow> unicode_lib \<Rightarrow> rules_tab \<Rightarrow> rules_tab \<Rightarrow> bool" for lib uc where
  tab_message: "tab_step lib uc tab (apply_rules_message msg tab)"
| tab_asked: "tab_step lib uc tab (tab_analyze tab)"
| tab_finished: "(generation, rules) \<in> set (rt_workers tab) \<Longrightarrow>
    tab_step lib uc tab
      (finish_analysis generation (analyze lib uc rules) (tab\<lparr> rt_workers := remove1 (generation, rules) (rt_workers tab) \<rparr>))"
| tab_gave_up: "(generation, rules) \<in> set (rt_workers tab) \<Longrightarrow> generation \<in> set (as_cancelled (rt_analysis tab)) \<Longrightarrow>
    tab_step lib uc tab (tab\<lparr> rt_workers := remove1 (generation, rules) (rt_workers tab) \<rparr>)"

section \<open>How a rule decides, in words\<close>

datatype deciding_text = OFF | DECIDES_FIRST | BLOCKS | ALLOWS | UNRECOGNISED

definition how_it_decides :: "gui_rule \<Rightarrow> deciding_text" where
  "how_it_decides r =
     (if \<not> gr_enabled r then OFF
      else if gr_precedence r then DECIDES_FIRST
      else if stops_scan r then BLOCKS
      else if daemon_action r = lit ''allow'' then ALLOWS
      else UNRECOGNISED)"

definition UNRECOGNISED_ACTION :: rstr where "UNRECOGNISED_ACTION = lit ''unrecognised''"
definition MAX_ACTION_CHARS :: nat where "MAX_ACTION_CHARS = 32"

definition normalized_action :: "gui_rule \<Rightarrow> rstr" where
  "normalized_action r =
     (if gr_action r \<in> {lit ''allow'', lit ''deny'', lit ''reject''} then daemon_action r else UNRECOGNISED_ACTION)"

definition action_label :: "gui_rule \<Rightarrow> rstr" where
  "action_label r =
     (if normalized_action r \<noteq> UNRECOGNISED_ACTION then normalized_action r
      else let plain = strip_display_hazards (gr_action r)
           in [34] @ take MAX_ACTION_CHARS plain @ (if length plain > MAX_ACTION_CHARS then [ELLIPSIS] else [])
              @ [34] @ lit '' (unrecognised: blocks)'')"

end
