(* ===== verification/Rule_Match_Props.thy ===== *)
theory Rule_Match_Props
  imports Rule_Match Rule_Policy_Props
begin

text \<open>
  The simulator against the daemon's rule: of the matching rules, in name order, the first
  that stops the check decides, and without one the last. The verdict is shown to be the
  daemon's whatever the conditions that could not be evaluated turn out to be, as long as
  the simulator reports none of them.
\<close>

section \<open>Which rule decides\<close>

definition decider_of :: "(gui_rule \<Rightarrow> bool) \<Rightarrow> gui_rule list \<Rightarrow> gui_rule option" where
  "decider_of m rs =
     (case find (\<lambda>r. m r \<and> stops_scan r) rs of
        Some r \<Rightarrow> Some r
      | None \<Rightarrow> if filter m rs = [] then None else Some (last (filter m rs)))"

lemma decider_of_Nil [simp]: "decider_of m [] = None"
  by (simp add: decider_of_def)

lemma decider_of_Cons:
  "decider_of m (r # rs) =
     (if m r \<and> stops_scan r then Some r
      else case decider_of m rs of Some x \<Rightarrow> Some x | None \<Rightarrow> if m r then Some r else None)"
  by (auto simp: decider_of_def split: option.splits)

lemma decider_of_mem: "decider_of m rs = Some r \<Longrightarrow> r \<in> set rs \<and> m r"
  by (induction rs) (auto simp: decider_of_Cons split: if_splits option.splits)

lemma decider_of_cong: "(\<And>r. r \<in> set rs \<Longrightarrow> m r = m' r) \<Longrightarrow> decider_of m rs = decider_of m' rs"
  by (induction rs) (auto simp: decider_of_Cons split: option.splits)

text \<open>A rule that does not decide a connection can go without a change.\<close>

lemma decider_of_remove:
  "decider_of m (xs @ r # ys) \<noteq> Some r \<Longrightarrow> decider_of m (xs @ ys) = decider_of m (xs @ r # ys)"
proof (induction xs)
  case Nil
  then show ?case by (auto simp: decider_of_Cons split: if_splits option.splits)
next
  case (Cons x xs)
  then show ?case by (auto simp: decider_of_Cons split: if_splits option.splits)
qed

definition says_yes :: "('r \<Rightarrow> outcome) \<Rightarrow> 'r \<Rightarrow> bool" where
  "says_yes eval r \<longleftrightarrow> oc_truth (eval r) = Yes"

definition decider_rule :: "scan_result \<Rightarrow> gui_rule option" where
  "decider_rule found = map_option (\<lambda>(_, r, _). r) (sc_decider found)"

lemma decider_rule_update [simp]:
  "decider_rule (found\<lparr> sc_decider := Some (i, r, w) \<rparr>) = Some r"
  "decider_rule (found\<lparr> sc_undecided := u \<rparr>) = decider_rule found"
  by (simp_all add: decider_rule_def)

lemma says_yes_truth:
  "oc_truth (eval r) = Yes \<Longrightarrow> says_yes eval r"
  "oc_truth (eval r) = No \<Longrightarrow> \<not> says_yes eval r"
  "oc_truth (eval r) = Unknown \<Longrightarrow> \<not> says_yes eval r"
  by (simp_all add: says_yes_def)

lemma scan_decider:
  "decider_rule (scan_from eval i rs found) =
     (case decider_of (says_yes eval) rs of Some r \<Rightarrow> Some r | None \<Rightarrow> decider_rule found)"
proof (induction rs arbitrary: i found)
  case (Cons r rs)
  show ?case
    by (cases "oc_truth (eval r)")
      (auto simp: Cons decider_of_Cons says_yes_truth Let_def split: option.splits)
qed simp

lemma scan_nothing: "decider_of (says_yes eval) rs = None \<Longrightarrow> sc_decider (scan_from eval i rs found) = sc_decider found"
proof (induction rs arbitrary: i found)
  case (Cons r rs)
  then show ?case
    by (cases "oc_truth (eval r)")
      (auto simp: decider_of_Cons says_yes_truth Let_def split: option.splits if_splits)
qed simp

lemma scan_keeps_undecided: "set (sc_undecided found) \<subseteq> set (sc_undecided (scan_from eval i rs found))"
proof (induction rs arbitrary: i found)
  case (Cons r rs)
  show ?case
  proof (cases "oc_truth (eval r)")
    case Unknown
    then show ?thesis
      using Cons[of "found\<lparr> sc_undecided := sc_undecided found @ [(i, r, oc_gaps (eval r))] \<rparr>" "Suc i"]
      by (auto simp: Let_def)
  next
    case Yes
    then show ?thesis
      using Cons[of "found\<lparr> sc_decider := Some (i, r, oc_warnings (eval r)) \<rparr>" "Suc i"] by (auto simp: Let_def)
  qed (use Cons in \<open>simp add: Let_def\<close>)
qed simp

text \<open>A two-valued reading of the rules that agrees with every definite outcome.\<close>

definition agrees :: "('r \<Rightarrow> outcome) \<Rightarrow> ('r \<Rightarrow> bool) \<Rightarrow> 'r \<Rightarrow> bool" where
  "agrees eval m r \<longleftrightarrow> (case oc_truth (eval r) of Yes \<Rightarrow> m r | No \<Rightarrow> \<not> m r | Unknown \<Rightarrow> True)"

lemma scan_exact:
  assumes "\<forall>r \<in> set rs. agrees eval m r"
    and "\<forall>entry \<in> set (sc_undecided (scan_from eval i rs found)). \<not> matters (scan_from eval i rs found) entry"
    and "\<forall>d r w. sc_decider found = Some (d, r, w) \<longrightarrow> d < i"
  shows "decider_of m rs = decider_of (says_yes eval) rs"
  using assms
proof (induction rs arbitrary: i found)
  case (Cons r rs)
  let ?scan = "scan_from eval i (r # rs) found"
  show ?case
  proof (cases "oc_truth (eval r)")
    case No
    then have "decider_of m rs = decider_of (says_yes eval) rs"
      using Cons.IH[of "Suc i" found] Cons.prems by (simp add: Let_def less_Suc_eq)
    then show ?thesis using No Cons.prems(1) by (simp add: decider_of_Cons says_yes_truth agrees_def)
  next
    case Yes
    then have m: "m r" "says_yes eval r" using Cons.prems(1) by (simp_all add: agrees_def says_yes_truth)
    show ?thesis
    proof (cases "stops_scan r")
      case False
      then have "decider_of m rs = decider_of (says_yes eval) rs"
        using Cons.IH[of "Suc i" "found\<lparr> sc_decider := Some (i, r, oc_warnings (eval r)) \<rparr>"] Cons.prems Yes
        by (simp add: Let_def)
      then show ?thesis using m by (simp add: decider_of_Cons)
    qed (simp add: decider_of_Cons m)
  next
    case Unknown
    let ?found = "found\<lparr> sc_undecided := sc_undecided found @ [(i, r, oc_gaps (eval r))] \<rparr>"
    have scan: "?scan = scan_from eval (Suc i) rs ?found" using Unknown by (simp add: Let_def)
    have same: "decider_of m rs = decider_of (says_yes eval) rs"
      using Cons.IH[of "Suc i" ?found] Cons.prems unfolding scan by (simp add: less_Suc_eq)
    have "(i, r, oc_gaps (eval r)) \<in> set (sc_undecided ?scan)"
      using scan_keeps_undecided[of ?found eval "Suc i" rs] unfolding scan by auto
    then have "\<not> matters ?scan (i, r, oc_gaps (eval r))" using Cons.prems(2) by blast
    then obtain d x w where d: "\<not> stops_scan r" "sc_decider ?scan = Some (d, x, w)" "i \<le> d"
      by (auto simp: matters_def not_less split: option.splits)
    have "decider_of (says_yes eval) rs \<noteq> None"
    proof
      assume "decider_of (says_yes eval) rs = None"
      then have "sc_decider found = Some (d, x, w)"
        using scan_nothing[of eval rs "Suc i" ?found] d(2) unfolding scan by simp
      then show False using Cons.prems(3) d(3) by fastforce
    qed
    then show ?thesis
      using same d(1) Unknown by (auto simp: decider_of_Cons says_yes_truth)
  qed
qed simp

section \<open>What is reported\<close>

definition explained :: "outcome \<Rightarrow> bool" where
  "explained oc \<longleftrightarrow> (oc_truth oc = Unknown \<longrightarrow> oc_gaps oc \<noteq> [])"

lemma explained_outcome [simp]:
  "explained (definite Yes)" "explained (definite No)" "explained (from_bool b)" "explained (yes_with w)"
  "explained (unsupported x why)" "explained (unevaluated x what)" "explained (invalid x what)"
  by (simp_all add: explained_def definite_def from_bool_def yes_with_def unsupported_def unevaluated_def invalid_def
      outcome_gap_def)

lemma explained_parent: "explained (parent_path lib uc leaf inp)"
  by (simp add: parent_path_def split: option.split sum.split)

lemma explained_hash: "explained (hash_operand lib uc leaf inp)"
proof -
  have "explained (hash_with_checksums_on lib uc leaf inp)"
    by (simp add: hash_with_checksums_on_def Let_def split: option.split sum.split)
  moreover from this have "explained (hash_with_checksum_setting_unknown lib uc leaf inp)"
    by (simp add: hash_with_checksum_setting_unknown_def Let_def) (simp add: explained_def)
  ultimately show ?thesis by (simp add: hash_operand_def split: option.split bool.split)
qed

lemma explained_network: "explained (network_operand leaf ip what)"
  by (simp add: network_operand_def split: option.split sim_kind.split)

lemma explained_text: "explained (text_operand lib uc leaf inp)"
  by (simp add: text_operand_def split: subject.split sum.split)

lemma explained_leaf: "explained (evaluate_leaf lib uc leaf inp)"
  by (simp add: evaluate_leaf_def Let_def explained_parent explained_hash explained_network explained_text)

lemma explained_member: "explained (evaluate_member lib uc inp op)"
  by (cases op) (simp_all add: explained_leaf)

lemma explained_list:
  assumes "\<And>op. explained (eval op)" "undecided \<Longrightarrow> gaps \<noteq> []"
  shows "explained (evaluate_list eval undecided gaps ws ops)"
  using assms(2)
proof (induction ops arbitrary: undecided gaps ws)
  case (Cons op ops)
  then show ?case
    using assms(1)[of op] by (cases "oc_truth (eval op)") (simp_all add: Let_def explained_def[of "eval op"])
qed (simp add: explained_def)

lemma explained_rule: "explained (evaluate_rule lib uc inp r)"
  by (auto simp: evaluate_rule_def evaluate_def explained_member explained_leaf explained_list split: sim_operator.split)

lemma scan_undecided:
  assumes "entry \<in> set (sc_undecided (scan_from eval i rs found))"
  shows "entry \<in> set (sc_undecided found)
    \<or> (\<exists>j r. r \<in> set rs \<and> oc_truth (eval r) = Unknown \<and> entry = (j, r, oc_gaps (eval r)))"
  using assms
proof (induction rs arbitrary: i found)
  case (Cons r rs)
  show ?case
  proof (cases "oc_truth (eval r)")
    case Unknown
    then show ?thesis
      using Cons.IH[of "Suc i" "found\<lparr> sc_undecided := sc_undecided found @ [(i, r, oc_gaps (eval r))] \<rparr>"] Cons.prems
      by (auto simp: Let_def)
  next
    case Yes
    then show ?thesis
      using Cons.IH[of "Suc i" "found\<lparr> sc_decider := Some (i, r, oc_warnings (eval r)) \<rparr>"] Cons.prems
      by (auto simp: Let_def split: if_splits)
  qed (use Cons in \<open>auto simp: Let_def\<close>)
qed simp

definition reported :: "(rstr \<times> sim_reason) fset \<times> unevaluated_entry list \<Rightarrow> bool" where
  "reported acc \<longleftrightarrow> fst acc \<noteq> {||} \<or> snd acc \<noteq> []"

lemma note_gap_reported: "reported (note_gap r g acc)"
  by (cases acc; cases g) (auto simp: note_gap_def reported_def Let_def)

lemma note_gaps_reported: "reported acc \<or> gaps \<noteq> [] \<Longrightarrow> reported (fold (note_gap r) gaps acc)"
  by (induction gaps arbitrary: acc) (auto simp: note_gap_reported)

lemma matters_reported:
  assumes "\<forall>(_, _, gaps) \<in> set entries. gaps \<noteq> []" "entries \<noteq> [] \<or> reported acc"
  shows "reported (fold (\<lambda>(_, r, gaps) acc. fold (note_gap r) gaps acc) entries acc)"
  using assms
proof (induction entries arbitrary: acc)
  case (Cons e es)
  then show ?case by (cases e) (auto simp: note_gaps_reported)
qed simp

lemma nothing_reported:
  assumes "gaps_that_matter (scan lib uc active inp) = ({||}, [])"
  shows "\<forall>entry \<in> set (sc_undecided (scan lib uc active inp)). \<not> matters (scan lib uc active inp) entry"
proof -
  let ?found = "scan lib uc active inp"
  have gaps: "\<forall>(_, _, gaps) \<in> set (filter (matters ?found) (sc_undecided ?found)). gaps \<noteq> []"
    using explained_rule unfolding scan_def explained_def by (fastforce dest: scan_undecided)
  have "\<not> reported (gaps_that_matter ?found)" using assms by (simp add: reported_def)
  then have "filter (matters ?found) (sc_undecided ?found) = []"
    using matters_reported[OF gaps, of "({||}, [])"] unfolding gaps_that_matter_def by blast
  then show ?thesis by (simp add: filter_empty_conv)
qed

lemma simulate_fields:
  "sr_matched_rule (simulate lib uc store inp) =
     map_option shown_name (decider_of (says_yes (evaluate_rule lib uc inp)) (active_rules store))"
  "sr_action (simulate lib uc store inp) =
     map_option daemon_action (decider_of (says_yes (evaluate_rule lib uc inp)) (active_rules store))"
  "(sr_unsupported_operands (simulate lib uc store inp), sr_unevaluated (simulate lib uc store inp)) =
     gaps_that_matter (scan lib uc (active_rules store) inp)"
proof -
  let ?found = "scan lib uc (active_rules store) inp"
  have decider: "decider_rule ?found = decider_of (says_yes (evaluate_rule lib uc inp)) (active_rules store)"
    using scan_decider[of "evaluate_rule lib uc inp" 0 "active_rules store" "\<lparr> sc_decider = None, sc_undecided = [] \<rparr>"]
    by (simp add: scan_def decider_rule_def split: option.splits)
  show "sr_matched_rule (simulate lib uc store inp) =
     map_option shown_name (decider_of (says_yes (evaluate_rule lib uc inp)) (active_rules store))"
    "sr_action (simulate lib uc store inp) =
     map_option daemon_action (decider_of (says_yes (evaluate_rule lib uc inp)) (active_rules store))"
    "(sr_unsupported_operands (simulate lib uc store inp), sr_unevaluated (simulate lib uc store inp)) =
     gaps_that_matter ?found"
    unfolding decider[symmetric]
    by (auto simp: simulate_def decider_rule_def Let_def split: option.splits prod.splits)
qed

lemma active_rules_mem: "r \<in> set (active_rules store) \<longleftrightarrow> r \<in> set store \<and> gr_enabled r"
  by (auto simp: active_rules_def)

lemma simulated_verdict:
  assumes "sr_unsupported_operands (simulate lib uc store inp) = {||}" "sr_unevaluated (simulate lib uc store inp) = []"
    and "\<forall>r \<in> set store. gr_enabled r \<longrightarrow> agrees (evaluate_rule lib uc inp) m r"
  shows "sr_matched_rule (simulate lib uc store inp) = map_option shown_name (decider_of m (active_rules store))
    \<and> sr_action (simulate lib uc store inp) = map_option daemon_action (decider_of m (active_rules store))"
proof -
  have "gaps_that_matter (scan lib uc (active_rules store) inp) = ({||}, [])"
    using assms(1,2) simulate_fields(3)[of lib uc store inp] by simp
  from nothing_reported[OF this]
  have "decider_of m (active_rules store) = decider_of (says_yes (evaluate_rule lib uc inp)) (active_rules store)"
    using assms(3) unfolding scan_def by (intro scan_exact) (auto simp: active_rules_mem)
  then show ?thesis by (simp add: simulate_fields)
qed

text \<open>
  C21. A simulated verdict without a caveat is the daemon's: take any reading of the enabled
  rules, matching or not, that agrees with the simulator wherever the simulator is definite
  and is free where it is not (an input left unknown, a condition it cannot evaluate). If
  the simulator lists nothing it could not evaluate, the rule it names and the verdict it
  gives are those of that reading: the first matching rule in name order that denies,
  rejects or decides first, and otherwise the last matching rule.
\<close>

theorem simulated_verdict_exact:
  assumes "sr_unsupported_operands (simulate lib uc store inp) = {||}" "sr_unevaluated (simulate lib uc store inp) = []"
    and "\<forall>r \<in> set store. gr_enabled r \<longrightarrow> agrees (evaluate_rule lib uc inp) m r"
  shows "sr_matched_rule (simulate lib uc store inp) = map_option shown_name (decider_of m (active_rules store))
    \<and> sr_action (simulate lib uc store inp) = map_option daemon_action (decider_of m (active_rules store))"
  by (rule simulated_verdict[OF assms])

definition ascii_tables :: unicode_lib where
  "ascii_tables = \<lparr> uc_to_uppercase = (\<lambda>c. [if 97 \<le> c \<and> c \<le> 122 then c - 32 else c]),
     uc_to_lowercase = (\<lambda>c. [ascii_lower c]) \<rparr>"

definition example_row :: "string \<Rightarrow> string \<Rightarrow> string \<Rightarrow> string \<Rightarrow> gui_rule" where
  "example_row name act operand data =
     \<lparr> gr_name = lit name, gr_enabled = True, gr_action = lit act, gr_duration = lit ''always'', gr_description = [],
       gr_operator = JObject [(lit ''type'', JString (lit ''simple'')), (lit ''operand'', JString (lit operand)),
                              (lit ''data'', JString (lit data)), (lit ''sensitive'', JBool False)],
       gr_precedence = False, gr_nolog = False, gr_created = 0, gr_display_name = None, gr_read_only_reason = None,
       gr_deletable = None, gr_user_names = fmempty, gr_toggleable = None \<rparr>"

definition example_store :: rules_store where
  "example_store = [example_row ''web'' ''allow'' ''dest.host'' ''Example.com'', example_row ''mail'' ''deny'' ''dest.port'' ''25'',
     example_row ''me'' ''allow'' ''user.id'' ''1000'']"

definition example_input :: simulation_input where
  "example_input = \<lparr> si_process_path = None, si_dest_host = Some (lit ''example.com''), si_dest_port = 443,
     si_protocol = None, si_parent_paths = None, si_command = None, si_pid = None, si_uid = None, si_env = None,
     si_src_ip = None, si_src_port = None, si_dest_ip = None, si_iface_in = None, si_iface_out = None,
     si_checksums = None, si_checksums_enabled = None \<rparr>"

lemma example_simulated:
  "sr_unsupported_operands (simulate no_regex ascii_tables example_store example_input) = {||}"
  "sr_unevaluated (simulate no_regex ascii_tables example_store example_input) = []"
  "sr_matched_rule (simulate no_regex ascii_tables example_store example_input) = Some (lit ''web'')"
  "map oc_truth (map (evaluate_rule no_regex ascii_tables example_input) example_store) = [Yes, No, Unknown]"
  by code_simp+

theorem simulated_verdict_exact_witness:
  "map_option shown_name (decider_of (\<lambda>r. gr_name r \<noteq> lit ''mail'') (active_rules example_store)) = Some (lit ''web'')"
proof -
  have "\<forall>r \<in> set example_store. gr_enabled r \<longrightarrow>
      agrees (evaluate_rule no_regex ascii_tables example_input) (\<lambda>r. gr_name r \<noteq> lit ''mail'') r"
    using example_simulated(4) by (simp add: agrees_def example_store_def example_row_def)
  from simulated_verdict_exact[OF example_simulated(1,2) this] example_simulated(3) show ?thesis by simp
qed

section \<open>Knowing more\<close>

definition known_more :: "'a option \<Rightarrow> 'a option \<Rightarrow> bool" where
  "known_more a b \<longleftrightarrow> a = None \<or> b = a"

text \<open>The second input fills in what the first leaves unknown.\<close>

definition completes :: "simulation_input \<Rightarrow> simulation_input \<Rightarrow> bool" where
  "completes i j \<longleftrightarrow>
     si_dest_port j = si_dest_port i
     \<and> known_more (si_process_path i) (si_process_path j) \<and> known_more (si_dest_host i) (si_dest_host j)
     \<and> known_more (si_protocol i) (si_protocol j) \<and> known_more (si_parent_paths i) (si_parent_paths j)
     \<and> known_more (si_command i) (si_command j) \<and> known_more (si_pid i) (si_pid j)
     \<and> known_more (si_uid i) (si_uid j) \<and> known_more (si_env i) (si_env j)
     \<and> known_more (si_src_ip i) (si_src_ip j) \<and> known_more (si_src_port i) (si_src_port j)
     \<and> known_more (si_dest_ip i) (si_dest_ip j) \<and> known_more (si_iface_in i) (si_iface_in j)
     \<and> known_more (si_iface_out i) (si_iface_out j) \<and> known_more (si_checksums i) (si_checksums j)
     \<and> known_more (si_checksums_enabled i) (si_checksums_enabled j)"

definition settles :: "outcome \<Rightarrow> outcome \<Rightarrow> bool" where
  "settles oc oc' \<longleftrightarrow> oc_truth oc = Unknown \<or> oc_truth oc' = oc_truth oc"

lemma settles_refl [simp]: "settles oc oc"
  by (simp add: settles_def)

lemma settles_gap [simp]:
  "settles (unsupported x why) oc" "settles (unevaluated x what) oc" "settles (invalid x what) oc"
  by (simp_all add: settles_def unsupported_def unevaluated_def invalid_def outcome_gap_def definite_def)

definition subject_settles :: "subject \<Rightarrow> subject \<Rightarrow> bool" where
  "subject_settles s t \<longleftrightarrow> (\<exists>w. s = Missing w) \<or> t = s"

lemma subject_settles_simps [simp]:
  "subject_settles s s" "subject_settles (Missing w) t"
  "known_more a b \<Longrightarrow> subject_settles (known_or a what) (known_or b what)"
  "known_more x y \<Longrightarrow> subject_settles (known_or (map_option f x) what) (known_or (map_option f y) what)"
  "known_more a b \<Longrightarrow> subject_settles (ip_subject a what) (ip_subject b what)"
  by (auto simp: subject_settles_def known_or_def ip_subject_def known_more_def)

lemma subject_settles_if:
  "(b \<Longrightarrow> subject_settles s s') \<Longrightarrow> (\<not> b \<Longrightarrow> subject_settles t t') \<Longrightarrow>
     subject_settles (if b then s else t) (if b then s' else t')"
  by simp

lemma text_subject_settles:
  assumes "completes i j"
  shows "subject_settles (text_subject operand i) (text_subject operand j)"
  unfolding text_subject_def using assms
  by (intro subject_settles_if)
    (auto simp: completes_def known_more_def[of "si_env i"] split: option.split)

lemma text_settles:
  assumes "completes i j"
  shows "settles (text_operand lib uc leaf i) (text_operand lib uc leaf j)"
  using text_subject_settles[OF assms, of "sl_operand leaf"]
  by (auto simp: text_operand_def subject_settles_def)

lemma parent_settles: "completes i j \<Longrightarrow> settles (parent_path lib uc leaf i) (parent_path lib uc leaf j)"
  by (cases "si_parent_paths i") (auto simp: parent_path_def completes_def known_more_def)

lemma checksums_on_settles:
  "completes i j \<Longrightarrow> settles (hash_with_checksums_on lib uc leaf i) (hash_with_checksums_on lib uc leaf j)"
  by (cases "si_checksums i") (auto simp: hash_with_checksums_on_def completes_def known_more_def)

lemma setting_unknown_truth:
  "oc_truth (hash_with_checksum_setting_unknown lib uc leaf i) =
     (if oc_truth (hash_with_checksums_on lib uc leaf i) = Yes then Yes else Unknown)"
  by (simp add: hash_with_checksum_setting_unknown_def Let_def)

lemma hash_settles:
  assumes "completes i j"
  shows "settles (hash_operand lib uc leaf i) (hash_operand lib uc leaf j)"
proof -
  have on: "settles (hash_with_checksums_on lib uc leaf i) (hash_with_checksums_on lib uc leaf j)"
    using checksums_on_settles[OF assms] .
  have set: "known_more (si_checksums_enabled i) (si_checksums_enabled j)" using assms by (simp add: completes_def)
  show ?thesis
  proof (cases "si_checksums_enabled i")
    case None
    then show ?thesis
      using on by (auto simp: hash_operand_def settles_def setting_unknown_truth yes_with_def definite_def
          split: option.split bool.split if_splits)
  next
    case (Some b)
    then show ?thesis using on set by (cases b) (auto simp: hash_operand_def known_more_def)
  qed
qed

lemma network_settles: "known_more a b \<Longrightarrow> settles (network_operand leaf a what) (network_operand leaf b what)"
  by (cases a; cases "sl_kind leaf") (auto simp: network_operand_def known_more_def)

lemma leaf_settles:
  assumes "completes i j"
  shows "settles (evaluate_leaf lib uc leaf i) (evaluate_leaf lib uc leaf j)"
proof -
  have "known_more (si_dest_ip i) (si_dest_ip j)" "known_more (si_src_ip i) (si_src_ip j)"
    using assms by (simp_all add: completes_def)
  then show ?thesis
    by (simp add: evaluate_leaf_def Let_def network_settles parent_settles[OF assms] hash_settles[OF assms] text_settles[OF assms])
qed

lemma member_settles: "completes i j \<Longrightarrow> settles (evaluate_member lib uc i op) (evaluate_member lib uc j op)"
  by (cases op) (simp_all add: leaf_settles)

text \<open>A list is a conjunction of its members in three-valued logic.\<close>

lemma list_truth:
  "oc_truth (evaluate_list eval undecided gaps ws ops) =
     (if \<exists>op \<in> set ops. oc_truth (eval op) = No then No
      else if undecided \<or> (\<exists>op \<in> set ops. oc_truth (eval op) = Unknown) then Unknown else Yes)"
proof (induction ops arbitrary: undecided gaps ws)
  case (Cons op ops)
  then show ?case by (cases "oc_truth (eval op)") (simp_all add: Let_def definite_def)
qed simp

lemma list_settles:
  assumes "\<And>op. settles (eval op) (eval' op)"
  shows "settles (evaluate_list eval False [] [] ops) (evaluate_list eval' False [] [] ops)"
  using assms unfolding settles_def list_truth by (smt (verit) truth.exhaust truth.distinct)

lemma rule_settles: "completes i j \<Longrightarrow> settles (evaluate_rule lib uc i r) (evaluate_rule lib uc j r)"
  by (auto simp: evaluate_rule_def evaluate_def leaf_settles list_settles member_settles split: sim_operator.split)

text \<open>
  Filling in what was left unknown cannot change a verdict without a caveat: if the
  simulator lists nothing it could not evaluate, the same simulation with any of the unknown
  inputs given a value names the same rule and the same verdict.
\<close>

theorem verdict_survives_more_input:
  assumes "sr_unsupported_operands (simulate lib uc store inp) = {||}" "sr_unevaluated (simulate lib uc store inp) = []"
    and "completes inp filled"
  shows "sr_matched_rule (simulate lib uc store filled) = sr_matched_rule (simulate lib uc store inp)
    \<and> sr_action (simulate lib uc store filled) = sr_action (simulate lib uc store inp)"
proof -
  have "agrees (evaluate_rule lib uc inp) (says_yes (evaluate_rule lib uc filled)) r" for r
    using rule_settles[OF assms(3), of lib uc r] by (auto simp: agrees_def says_yes_def settles_def split: truth.split)
  then show ?thesis
    using simulated_verdict[OF assms(1,2), of "says_yes (evaluate_rule lib uc filled)"] simulate_fields(1,2)[of lib uc store filled]
    by simp
qed

theorem verdict_survives_more_input_witness:
  "sr_matched_rule (simulate no_regex ascii_tables example_store (example_input\<lparr> si_uid := Some 1000 \<rparr>)) = Some (lit ''web'')"
proof -
  have "completes example_input (example_input\<lparr> si_uid := Some 1000 \<rparr>)"
    by (simp add: completes_def known_more_def example_input_def)
  from verdict_survives_more_input[OF example_simulated(1,2) this] example_simulated(3) show ?thesis by simp
qed

end
