(* ===== verification/Rule_Shadow_Props.thy ===== *)
theory Rule_Shadow_Props
  imports Rule_Shadow Rule_Match_Props Blocklist_Props
begin

text \<open>
  The insights are right: a rule that covers another matches every connection the other
  matches, so a rule with a finding decides no connection at all, and could go without any
  verdict changing. A finding is shown only for the list it was computed from.
\<close>

unbundle bit_operations_syntax

section \<open>Addresses and their texts\<close>

definition is_ip_char :: "rchar \<Rightarrow> bool" where
  "is_ip_char c \<longleftrightarrow> is_ascii_digit c \<or> c = 46 \<or> c = 58 \<or> (97 \<le> c \<and> c \<le> 102)"

lemma set_join_with: "set (join_with c ps) \<subseteq> insert c (\<Union>p \<in> set ps. set p)"
  by (induction c ps rule: join_with.induct) auto

lemma join_with_separator: "c \<in> set (join_with c (p # q # ps))"
  by simp

lemma decimal_ip_chars: "list_all is_ip_char (decimal n)"
  using decimal_digits by (auto simp: list_all_iff is_ip_char_def)

lemma lower_hex_ip_chars: "list_all is_ip_char (lower_hex n)"
proof (induction n rule: lower_hex.induct)
  case (1 n)
  have "is_ip_char (if d < 10 then 48 + d else 87 + d)" if "d < 16" for d
    using that by (auto simp: is_ip_char_def is_ascii_digit_def)
  then show ?case using 1 by (subst lower_hex.simps) simp
qed

lemma join_ip_chars:
  assumes "\<forall>p \<in> set ps. list_all is_ip_char p" "is_ip_char c"
  shows "list_all is_ip_char (join_with c ps)"
  using set_join_with[of c ps] assms by (fastforce simp: list_all_iff)

lemma ipv4_text_chars: "list_all is_ip_char (ipv4_to_string octets)"
  unfolding ipv4_to_string_def by (rule join_ip_chars) (auto simp: decimal_ip_chars is_ip_char_def)

lemma ipv6_text_chars: "list_all is_ip_char (ipv6_to_string segments)"
proof -
  have sep: "is_ip_char 58" by (simp add: is_ip_char_def)
  have "list_all is_ip_char (join_with 58 (map lower_hex xs))" for xs
    by (rule join_ip_chars) (auto simp: lower_hex_ip_chars sep)
  moreover have "list_all is_ip_char (lit ''::ffff:'')" "list_all is_ip_char (lit ''::'')" by code_simp+
  ultimately show ?thesis by (simp add: ipv6_to_string_def ipv4_text_chars split: prod.split)
qed

lemma ip_text_chars: "list_all is_ip_char (ip_to_string ip)"
  by (cases ip) (simp_all add: ipv4_text_chars ipv6_text_chars)

lemma ipv4_text_no_colon: "58 \<notin> set (ipv4_to_string octets)"
  using set_join_with[of 46 "map decimal octets"] decimal_digits
  by (fastforce simp: ipv4_to_string_def is_ascii_digit_def)

lemma ipv6_text_colon:
  assumes "length segments > 1"
  shows "58 \<in> set (ipv6_to_string segments)"
proof -
  have colon: "58 \<in> set (lit ''::'')" "58 \<in> set (lit ''::ffff:'')" by code_simp+
  obtain a b rest where segments: "segments = a # b # rest"
    using assms by (cases segments; cases "tl segments") auto
  obtain start len where "longest_zeros segments = (start, len)" by (cases "longest_zeros segments")
  then show ?thesis using colon by (simp add: ipv6_to_string_def) (simp add: segments)
qed

lemma read_segments_length: "length (fst (read_segments i n s)) \<le> n"
  by (induction i n s rule: read_segments.induct) (auto split: option.splits prod.splits if_splits)

lemma parse_ipv6_length:
  assumes "parse_ipv6 s = Some segments"
  shows "length segments = 8"
proof -
  obtain head v4 rest where head: "read_segments 0 8 s = (head, v4, rest)" by (cases "read_segments 0 8 s") auto
  have len: "length head \<le> 8" using read_segments_length[of 0 8 s] by (simp add: head)
  show ?thesis
  proof (cases "length head = 8")
    case False
    then obtain a b rest' where rest: "rest = a # b # rest'" "a = 58 \<and> b = 58"
      using assms by (auto simp: parse_ipv6_def head split: if_splits list.splits)
    obtain tail w r where tail: "read_segments 0 (8 - (length head + 1)) rest' = (tail, w, r)"
      by (cases "read_segments 0 (8 - (length head + 1)) rest'") auto
    have "length tail \<le> 8 - (length head + 1)"
      using read_segments_length[of 0 "8 - (length head + 1)" rest'] by (simp only: tail fst_conv)
    then show ?thesis
      using assms False len tail by (auto simp: parse_ipv6_def head rest Let_def split: if_splits)
  qed (use assms in \<open>simp add: parse_ipv6_def head split: if_splits\<close>)
qed

lemma ipv4_text_inject:
  assumes "ipv4_to_string xs = ipv4_to_string ys" "xs \<noteq> []" "ys \<noteq> []"
  shows "xs = ys"
proof -
  have "46 \<notin> set (decimal n)" for n using decimal_digits[of 46 n] by (auto simp: is_ascii_digit_def)
  then have "split_on 46 (ipv4_to_string zs) = map decimal zs" if "zs \<noteq> []" for zs
    using that split_join[of "map decimal zs" 46] by (auto simp: ipv4_to_string_def)
  then have "map decimal xs = map decimal ys" using assms by metis
  then show ?thesis by (metis decimal_inject inj_on_def inj_map_eq_map)
qed

text \<open>An address printed as an IPv4 text is that IPv4 address.\<close>

lemma printed_ipv4:
  assumes "sim_parse_ip written = Some ip" "ip_to_string ip = data" "parse_ipv4 data = Some octets"
  shows "ip = V4 octets"
proof -
  have data: "ipv4_to_string octets = data" "length octets = 4" using parse_ipv4_text[OF assms(3)] by auto
  show ?thesis
  proof (cases ip)
    case (V4 xs)
    have "xs \<noteq> []"
      using assms(1) V4 parse_ipv4_text[of written xs]
      by (auto simp: sim_parse_ip_def mapped_octets_def parse_ip_addr_def parse_ipv4_def split: option.splits ip_addr.splits if_splits)
    moreover have "octets \<noteq> []" using data(2) by auto
    ultimately show ?thesis using V4 assms(2) data(1) ipv4_text_inject[of xs octets] by simp
  next
    case (V6 segments)
    then have "parse_ipv6 written = Some segments"
      using assms(1) by (auto simp: sim_parse_ip_def parse_ip_addr_def split: option.splits ip_addr.splits if_splits)
    then have "58 \<in> set data" using ipv6_text_colon[of segments] parse_ipv6_length V6 assms(2) by auto
    then show ?thesis using ipv4_text_no_colon data(1) by blast
  qed
qed

section \<open>Masks\<close>

lemma bit_mask4: "bit (mask4 p) n \<longleftrightarrow> 32 - p \<le> n \<and> n < 32"
  by (auto simp: mask4_def bit_simps)

lemma mask4_narrower:
  assumes "q \<le> p" "a AND mask4 p = b AND mask4 p"
  shows "a AND mask4 q = b AND mask4 q"
proof -
  have "mask4 q AND mask4 p = mask4 q" using assms(1) by (auto intro!: bit_eqI simp: bit_simps bit_mask4)
  then show ?thesis using assms(2) by (metis and.assoc and.commute)
qed

lemma v4_net_network:
  assumes "v4_net_parse data = Some net"
  shows "network_contains data (V4 octets) = Some (v4_net_contains net (u32_of_octets octets))"
    and "network_contains data (V6 segments) = Some False" "v4_addr net AND mask4 (v4_prefix net) = v4_addr net"
proof -
  obtain addr bits p xs where net: "split_once 47 data = Some (addr, bits)" "bits \<noteq> []" "list_all is_ascii_digit bits"
    "parse_unsigned 255 bits = Some p" "p \<le> 32" "parse_ipv4 addr = Some xs"
    "net = \<lparr> v4_addr = u32_of_octets xs AND mask4 p, v4_prefix = p \<rparr>"
    using assms by (auto simp: v4_net_parse_def split: option.splits if_splits)
  have ip: "parse_ip_addr addr = Some (V4 xs)"
    using net(6) by (auto simp: parse_ipv4_def parse_ip_addr_def split: option.splits if_splits)
  have "split_once 47 (lit ''LAN'') = None" "split_once 47 (lit ''MULTICAST'') = None" by code_simp+
  then have "map_of ALIASES data = None" using net(1) by (auto simp: ALIASES_def)
  moreover have "parse_cidr data = Some \<lparr> ci_addr = Net4 (u32_of_octets xs), ci_prefix = p \<rparr>"
    using net ip by (simp add: parse_cidr_def cidr_new_def)
  ultimately show "network_contains data (V4 octets) = Some (v4_net_contains net (u32_of_octets octets))"
    "network_contains data (V6 segments) = Some False" "v4_addr net AND mask4 (v4_prefix net) = v4_addr net"
    using net(7) by (auto simp: network_contains_def cidr_contains_def v4_net_contains_def and.assoc)
qed

section \<open>Case folding\<close>

text \<open>What the Unicode case tables say, in the terms of the two comparisons: a character
  that folds like an ASCII character other than \<open>s\<close> has its lower case (the long s is why
  \<open>s\<close> is left out), and no two of the characters addresses are written with fold alike.\<close>

definition unicode_tables :: "unicode_lib \<Rightarrow> bool" where
  "unicode_tables uc \<longleftrightarrow>
     (\<forall>c x. c < 0x80 \<and> c \<noteq> 115 \<and> c \<noteq> 83 \<and> fold_char uc x = fold_char uc c \<longrightarrow> go_lower_char uc x = go_lower_char uc c)
     \<and> (\<forall>c d. is_ip_char c \<and> is_ip_char d \<and> fold_char uc c = fold_char uc d \<longrightarrow> c = d)"

lemma unicode_lower:
  "unicode_tables uc \<Longrightarrow> c < 0x80 \<Longrightarrow> c \<noteq> 115 \<Longrightarrow> c \<noteq> 83 \<Longrightarrow> fold_char uc x = fold_char uc c \<Longrightarrow>
     go_lower_char uc x = go_lower_char uc c"
  unfolding unicode_tables_def by blast

lemma unicode_ip:
  "unicode_tables uc \<Longrightarrow> is_ip_char c \<Longrightarrow> is_ip_char d \<Longrightarrow> fold_char uc c = fold_char uc d \<Longrightarrow> c = d"
  unfolding unicode_tables_def by blast

lemma go_equal_fold_iff: "go_equal_fold uc a b \<longleftrightarrow> map (fold_char uc) a = map (fold_char uc) b"
  by (induction uc a b rule: go_equal_fold.induct) auto

lemma fold_same_lower:
  assumes "unicode_tables uc" "go_equal_fold uc subject data" "list_all (\<lambda>c. c < 0x80) data"
    "\<not> list_ex (\<lambda>c. c = 115 \<or> c = 83) data"
  shows "go_to_lower uc subject = go_to_lower uc data"
  using assms(2-4) unfolding go_equal_fold_iff go_to_lower_def
proof (induction data arbitrary: subject)
  case (Cons y ys)
  from Cons.prems(1) obtain x xs where subject: "subject = x # xs" "fold_char uc x = fold_char uc y"
      "map (fold_char uc) xs = map (fold_char uc) ys"
    by (cases subject) auto
  then have "go_lower_char uc x = go_lower_char uc y"
    using Cons.prems(2,3) by (intro unicode_lower[OF assms(1)]) auto
  moreover have "map (go_lower_char uc) xs = map (go_lower_char uc) ys"
    using Cons.IH[OF subject(3)] Cons.prems(2,3) by auto
  ultimately show ?case by (simp add: subject(1))
qed simp

lemma fold_same_ip:
  assumes "unicode_tables uc" "go_equal_fold uc a b" "list_all is_ip_char a" "list_all is_ip_char b"
  shows "a = b"
  using assms(2-4) unfolding go_equal_fold_iff
proof (induction a arbitrary: b)
  case (Cons x xs)
  then show ?case using unicode_ip[OF assms(1)] by (cases b) auto
qed simp

section \<open>When a condition holds\<close>

definition holds :: "regex_lib \<Rightarrow> unicode_lib \<Rightarrow> simulation_input \<Rightarrow> atom \<Rightarrow> bool" where
  "holds lib uc inp a \<longleftrightarrow> oc_truth (evaluate_leaf lib uc a inp) = Yes"

lemma outcome_truth [simp]:
  "oc_truth (definite t) = t" "oc_truth (from_bool b) = (if b then Yes else No)" "oc_truth (yes_with w) = Yes"
  "oc_truth (unsupported x why) = Unknown" "oc_truth (unevaluated x what) = Unknown" "oc_truth (invalid x what) = Unknown"
  by (simp_all add: definite_def from_bool_def yes_with_def unsupported_def unevaluated_def invalid_def outcome_gap_def)

lemma text_operand_leaf:
  "x \<in> set TEXT_OPERANDS \<Longrightarrow> \<not> prefix (lit ''lists.'') x \<and> x \<noteq> lit ''user.name'' \<and> x \<noteq> lit ''process.parent.path''
     \<and> x \<notin> {lit ''process.hash.md5'', lit ''process.hash.sha1''} \<and> x \<noteq> lit ''dest.network'' \<and> x \<noteq> lit ''source.network''"
proof -
  have "list_all (\<lambda>x. \<not> prefix (lit ''lists.'') x \<and> x \<noteq> lit ''user.name'' \<and> x \<noteq> lit ''process.parent.path''
     \<and> x \<notin> {lit ''process.hash.md5'', lit ''process.hash.sha1''} \<and> x \<noteq> lit ''dest.network'' \<and> x \<noteq> lit ''source.network'')
     TEXT_OPERANDS"
    by code_simp
  then show "x \<in> set TEXT_OPERANDS \<Longrightarrow> ?thesis" by (simp add: list_all_iff)
qed

lemma text_holds:
  assumes "sl_operand a \<in> set TEXT_OPERANDS" "sl_kind a = KSimple \<or> sl_kind a = KRegexp"
  shows "holds lib uc inp a \<longleftrightarrow>
     (\<exists>s m. text_subject (sl_operand a) inp = Known s \<and> matcher_new lib uc a = Inr m \<and> matcher_matches uc m s)"
proof -
  have "evaluate_leaf lib uc a inp = text_operand lib uc a inp"
    using text_operand_leaf[OF assms(1)] assms(2) by (auto simp: evaluate_leaf_def Let_def)
  then show ?thesis
    using assms(2) by (auto simp: holds_def text_operand_def split: subject.splits sum.splits)
qed

definition network_ip :: "rstr \<Rightarrow> simulation_input \<Rightarrow> rstr option" where
  "network_ip operand inp = (if operand = lit ''dest.network'' then si_dest_ip inp else si_src_ip inp)"

lemma evaluate_network:
  assumes "sl_operand a \<in> set INSIGHT_NETWORK_OPERANDS" "sl_kind a = KNetwork"
  shows "evaluate_leaf lib uc a inp =
     network_operand a (network_ip (sl_operand a) inp) (if sl_operand a = lit ''dest.network'' then DEST_IP else SRC_IP)"
proof -
  let ?dst = "lit ''dest.network''"
  let ?src = "lit ''source.network''"
  have ne: "list_all (\<lambda>x. \<not> prefix (lit ''lists.'') x \<and> x \<noteq> lit ''user.name'' \<and> x \<noteq> lit ''process.parent.path''
     \<and> x \<notin> {lit ''process.hash.md5'', lit ''process.hash.sha1''}) [?dst, ?src]" "?src \<noteq> ?dst"
    by code_simp+
  then show ?thesis
    using assms by (auto simp: evaluate_leaf_def Let_def network_ip_def INSIGHT_NETWORK_OPERANDS_def)
qed

lemma network_holds:
  assumes "sl_operand a \<in> set INSIGHT_NETWORK_OPERANDS" "sl_kind a = KNetwork"
  shows "holds lib uc inp a \<longleftrightarrow>
     (\<exists>written ip. network_ip (sl_operand a) inp = Some written \<and> sim_parse_ip written = Some ip
        \<and> network_contains (sl_data a) ip = Some True)"
  using assms(2) by (auto simp: evaluate_network[OF assms] holds_def network_operand_def split: option.splits)

section \<open>Implication is sound\<close>

definition modelled :: "atom \<Rightarrow> bool" where
  "modelled a \<longleftrightarrow> atom_from_leaf a = Some a"

lemma modelled_simple: "modelled a \<Longrightarrow> sl_kind a = KSimple \<Longrightarrow> sl_operand a \<in> set TEXT_OPERANDS"
  and modelled_regexp: "modelled a \<Longrightarrow> sl_kind a = KRegexp \<Longrightarrow> sl_operand a \<in> set TEXT_OPERANDS"
  and modelled_network: "modelled a \<Longrightarrow> sl_kind a = KNetwork \<Longrightarrow> sl_operand a \<in> set INSIGHT_NETWORK_OPERANDS"
  by (auto simp: modelled_def atom_from_leaf_def split: if_splits)

lemma simple_holds:
  assumes "modelled a" "sl_kind a = KSimple"
  shows "holds lib uc inp a \<longleftrightarrow>
     (\<exists>s. text_subject (sl_operand a) inp = Known s \<and> simple_cmp uc s (sl_data a) (sl_sensitive a))"
  using text_holds[OF modelled_simple[OF assms]] assms(2) by (simp add: matcher_new_def)

lemma regexp_holds:
  assumes "modelled a" "sl_kind a = KRegexp"
  shows "holds lib uc inp a \<longleftrightarrow>
     (\<exists>s re. text_subject (sl_operand a) inp = Known s \<and> compile_regexp lib uc (sl_data a) (sl_sensitive a) = Inr re \<and> re s)"
  using text_holds[OF modelled_regexp[OF assms]] assms(2)
  by (auto simp: matcher_new_def split: sum.splits sim_regexp_error.splits)

lemma simple_simple_sound:
  assumes "modelled p" "modelled g" "sl_kind p = KSimple" "sl_kind g = KSimple" "sl_operand p = sl_operand g"
    and "simple_implies_simple uc p g" "holds lib uc inp p"
  shows "holds lib uc inp g"
  using assms(5-7)
  by (auto simp: simple_holds[OF assms(1,3)] simple_holds[OF assms(2,4)] simple_implies_simple_def simple_cmp_def
      go_equal_fold_iff split: if_splits)

lemma compiled_lower:
  assumes "compile_regexp lib uc pat False = Inr re" "go_to_lower uc x = go_to_lower uc y"
  shows "re x = re y"
  using assms by (auto simp: compile_regexp_def split: option.splits sum.splits compile_error.splits)

lemma simple_regexp_sound:
  assumes "modelled p" "modelled g" "sl_kind p = KSimple" "sl_kind g = KRegexp" "sl_operand p = sl_operand g"
    and "unicode_tables uc" "simple_implies_regexp lib uc p g" "holds lib uc inp p"
  shows "holds lib uc inp g"
proof -
  obtain s where s: "text_subject (sl_operand g) inp = Known s" "simple_cmp uc s (sl_data p) (sl_sensitive p)"
    using assms(5,8) by (auto simp: simple_holds[OF assms(1,3)])
  obtain re where re: "compile_regexp lib uc (sl_data g) (sl_sensitive g) = Inr re" "re (sl_data p)"
    using assms(7) by (auto simp: simple_implies_regexp_def split: sum.splits if_splits)
  have "re s"
  proof (cases "sl_sensitive p")
    case True
    then show ?thesis using s(2) re(2) by (simp add: simple_cmp_def)
  next
    case False
    then have "\<not> sl_sensitive g" "list_all (\<lambda>c. c < 0x80) (sl_data p)" "\<not> list_ex (\<lambda>c. c = 115 \<or> c = 83) (sl_data p)"
      using assms(7) re(1) by (simp_all add: simple_implies_regexp_def)
    then show ?thesis
      using s(2) False re compiled_lower[of lib uc "sl_data g" re s "sl_data p"] fold_same_lower[OF assms(6)]
      by (simp add: simple_cmp_def)
  qed
  then show ?thesis using s(1) re(1) by (auto simp: regexp_holds[OF assms(2,4)])
qed

lemma literal_network_sound:
  assumes "modelled p" "modelled g" "sl_kind p = KSimple" "sl_kind g = KNetwork"
    and "unicode_tables uc" "literal_ip_in_network p g" "holds lib uc inp p"
  shows "holds lib uc inp g"
proof -
  obtain octets net where lits: "parse_ipv4 (sl_data p) = Some octets" "ipv4_to_string octets = sl_data p"
      "v4_net_parse (sl_data g) = Some net" "v4_net_contains net (u32_of_octets octets)"
    using assms(6) by (auto simp: literal_ip_in_network_def canonical_ipv4_def split: option.splits if_splits)
  have ne: "lit ''dest.ip'' \<noteq> lit ''source.ip''" "lit ''source.network'' \<noteq> lit ''dest.network''" by code_simp+
  obtain what where ops: "text_subject (sl_operand p) inp = ip_subject (network_ip (sl_operand g) inp) what"
  proof -
    have "text_subject (lit ''dest.ip'') inp = ip_subject (si_dest_ip inp) DEST_IP"
      "text_subject (lit ''source.ip'') inp = ip_subject (si_src_ip inp) SRC_IP"
      by (simp_all add: text_subject_def lit_def)
    then show ?thesis using assms(6) ne that by (auto simp: literal_ip_in_network_def network_ip_def)
  qed
  obtain s where s: "text_subject (sl_operand p) inp = Known s" "simple_cmp uc s (sl_data p) (sl_sensitive p)"
    using assms(7) by (auto simp: simple_holds[OF assms(1,3)])
  obtain written ip where ip: "network_ip (sl_operand g) inp = Some written" "sim_parse_ip written = Some ip" "s = ip_to_string ip"
    using s(1) unfolding ops by (auto simp: ip_subject_def split: option.splits)
  have "list_all is_ip_char s" "list_all is_ip_char (sl_data p)"
    using ip(3) ip_text_chars lits(2) ipv4_text_chars[of octets] by auto
  then have "s = sl_data p" using s(2) fold_same_ip[OF assms(5)] by (auto simp: simple_cmp_def split: if_splits)
  then have "ip = V4 octets" using printed_ipv4[OF ip(2) _ lits(1)] ip(3) by simp
  then show ?thesis
    using ip(1,2) lits(3,4) v4_net_network(1)[OF lits(3), of octets]
    by (auto simp: network_holds[OF modelled_network[OF assms(2,4)] assms(4)])
qed

lemma network_network_sound:
  assumes "modelled p" "modelled g" "sl_kind p = KNetwork" "sl_kind g = KNetwork" "sl_operand p = sl_operand g"
    and "network_in_network (sl_data p) (sl_data g)" "holds lib uc inp p"
  shows "holds lib uc inp g"
proof -
  obtain inner outer where nets: "v4_net_parse (sl_data p) = Some inner" "v4_net_parse (sl_data g) = Some outer"
      "v4_prefix outer \<le> v4_prefix inner" "v4_net_contains outer (v4_addr inner)"
    using assms(6) by (auto simp: network_in_network_def split: option.splits)
  obtain written ip where ip: "network_ip (sl_operand g) inp = Some written" "sim_parse_ip written = Some ip"
      "network_contains (sl_data p) ip = Some True"
    using assms(5,7) by (auto simp: network_holds[OF modelled_network[OF assms(1,3)] assms(3)])
  have "network_contains (sl_data g) ip = Some True"
  proof (cases ip)
    case (V4 octets)
    then have "u32_of_octets octets AND mask4 (v4_prefix inner) = v4_addr inner AND mask4 (v4_prefix inner)"
      using ip(3) v4_net_network[OF nets(1)] by (simp add: v4_net_contains_def)
    from mask4_narrower[OF nets(3) this] show ?thesis
      using nets(4) V4 v4_net_network(1)[OF nets(2)] by (simp add: v4_net_contains_def)
  next
    case (V6 segments)
    then show ?thesis using ip(3) v4_net_network(2)[OF nets(1)] by simp
  qed
  then show ?thesis
    using ip(1,2) by (auto simp: network_holds[OF modelled_network[OF assms(2,4)] assms(4)])
qed

section \<open>Covering is sound\<close>

text \<open>A connection all of whose inputs the conditions above need are known, and a reading of
  all conditions at it: as the simulator evaluates them, and free where it cannot (lists,
  user names, patterns it does not take). Then a rule matches when all its conditions do.\<close>

definition complete_input :: "simulation_input \<Rightarrow> bool" where
  "complete_input inp \<longleftrightarrow> (\<forall>x \<in> set TEXT_OPERANDS. \<exists>s. text_subject x inp = Known s)"

definition reading :: "regex_lib \<Rightarrow> unicode_lib \<Rightarrow> simulation_input \<Rightarrow> (sim_operator \<Rightarrow> bool) \<Rightarrow> bool" where
  "reading lib uc inp t \<longleftrightarrow> (\<forall>op. agrees (evaluate_member lib uc inp) t op)"

definition rule_matches :: "(sim_operator \<Rightarrow> bool) \<Rightarrow> gui_rule \<Rightarrow> bool" where
  "rule_matches t r = (case parse_operator (gr_operator r) of OpList ms \<Rightarrow> list_all t ms | op \<Rightarrow> t op)"

lemma reading_true: "reading lib uc inp t \<Longrightarrow> t OpTrue"
  by (auto simp: reading_def agrees_def dest: spec[of _ OpTrue])

lemma reading_leaf:
  assumes "reading lib uc inp t"
  shows "holds lib uc inp a \<Longrightarrow> t (OpLeaf a)"
    and "t (OpLeaf a) \<Longrightarrow> oc_truth (evaluate_leaf lib uc a inp) \<noteq> Unknown \<Longrightarrow> holds lib uc inp a"
  using spec[OF assms[unfolded reading_def], of "OpLeaf a"]
  by (auto simp: agrees_def holds_def split: truth.splits)

lemma simple_definite:
  assumes "complete_input inp" "modelled a" "sl_kind a = KSimple"
  shows "oc_truth (evaluate_leaf lib uc a inp) \<noteq> Unknown"
proof -
  have op: "sl_operand a \<in> set TEXT_OPERANDS" by (rule modelled_simple[OF assms(2,3)])
  then obtain s where s: "text_subject (sl_operand a) inp = Known s" using assms(1) by (auto simp: complete_input_def)
  have "evaluate_leaf lib uc a inp = text_operand lib uc a inp"
    using text_operand_leaf[OF op] assms(3) by (auto simp: evaluate_leaf_def Let_def)
  then show ?thesis using assms(3) s by (simp add: text_operand_def matcher_new_def)
qed

lemma known_ip_parses:
  assumes "complete_input inp"
  shows "\<exists>written ip. network_ip x inp = Some written \<and> sim_parse_ip written = Some ip"
proof -
  have "lit ''dest.ip'' \<in> set TEXT_OPERANDS" "lit ''source.ip'' \<in> set TEXT_OPERANDS" by (simp_all add: TEXT_OPERANDS_def)
  then obtain s s' where "text_subject (lit ''dest.ip'') inp = Known s" "text_subject (lit ''source.ip'') inp = Known s'"
    using assms unfolding complete_input_def by blast
  then have "ip_subject (si_dest_ip inp) DEST_IP = Known s" "ip_subject (si_src_ip inp) SRC_IP = Known s'"
    by (simp_all add: text_subject_def lit_def)
  then show ?thesis by (auto simp: network_ip_def ip_subject_def split: option.splits)
qed

lemma network_definite:
  assumes "complete_input inp" "modelled a" "sl_kind a = KNetwork" "v4_net_parse (sl_data a) = Some net"
  shows "oc_truth (evaluate_leaf lib uc a inp) \<noteq> Unknown"
proof -
  obtain written ip where ip: "network_ip (sl_operand a) inp = Some written" "sim_parse_ip written = Some ip"
    using known_ip_parses[OF assms(1)] by blast
  obtain b where "network_contains (sl_data a) ip = Some b"
    using v4_net_network[OF assms(4)] by (cases ip) auto
  then show ?thesis
    using ip by (simp add: evaluate_network[OF modelled_network[OF assms(2,3)] assms(3)] network_operand_def assms(3))
qed

lemma implies_sound:
  assumes "reading lib uc inp t" "complete_input inp" "unicode_tables uc" "modelled p" "modelled g"
    and "implies lib uc p g = Some k" "t (OpLeaf p)"
  shows "t (OpLeaf g)"
proof (cases "p = g")
  case False
  consider "sl_kind p = KSimple" | "sl_kind p = KNetwork" "network_in_network (sl_data p) (sl_data g)"
    using assms(6) False unfolding implies_def Let_def by (cases "sl_kind p"; cases "sl_kind g") (auto split: if_splits)
  then have "oc_truth (evaluate_leaf lib uc p inp) \<noteq> Unknown"
    using simple_definite[OF assms(2,4)] network_definite[OF assms(2,4)]
    by cases (auto simp: network_in_network_def split: option.splits)
  then have "holds lib uc inp p" using reading_leaf(2)[OF assms(1)] assms(7) by blast
  then have "holds lib uc inp g"
    using False assms(3,6) simple_simple_sound[OF assms(4,5)] simple_regexp_sound[OF assms(4,5)]
      literal_network_sound[OF assms(4,5)] network_network_sound[OF assms(4,5)]
    unfolding implies_def Let_def by (cases "sl_kind p"; cases "sl_kind g") (auto split: if_splits)
  then show ?thesis by (rule reading_leaf(1)[OF assms(1)])
qed (use assms(7) in simp)

definition member_atom :: "sim_operator \<Rightarrow> atom option" where
  "member_atom op = (case op of OpLeaf leaf \<Rightarrow> atom_from_leaf leaf | _ \<Rightarrow> None)"

lemma conjunction_add_parts:
  "cj_atoms (conjunction_add op c) = cj_atoms c @ (case member_atom op of Some a \<Rightarrow> [a] | None \<Rightarrow> [])"
  "cj_opaque (conjunction_add op c) \<longleftrightarrow> cj_opaque c \<or> (op \<noteq> OpTrue \<and> member_atom op = None)"
  by (auto simp: conjunction_add_def member_atom_def split: sim_operator.splits option.splits)

lemma conjunction_fold_parts:
  "set (cj_atoms (fold conjunction_add ms c)) = set (cj_atoms c) \<union> {a. \<exists>op \<in> set ms. member_atom op = Some a}"
  "cj_opaque (fold conjunction_add ms c) \<longleftrightarrow> cj_opaque c \<or> (\<exists>op \<in> set ms. op \<noteq> OpTrue \<and> member_atom op = None)"
  by (induction ms arbitrary: c) (auto simp: conjunction_add_parts split: option.splits)

lemma member_atom_leaf: "member_atom op = Some a \<Longrightarrow> op = OpLeaf a \<and> modelled a"
  by (auto simp: member_atom_def modelled_def atom_from_leaf_def split: sim_operator.splits if_splits)

definition rule_members :: "gui_rule \<Rightarrow> sim_operator list" where
  "rule_members r = (case parse_operator (gr_operator r) of OpList ms \<Rightarrow> ms | op \<Rightarrow> [op])"

lemma rule_matches_members: "rule_matches t r \<longleftrightarrow> (\<forall>op \<in> set (rule_members r). t op)"
  by (simp add: rule_matches_def rule_members_def list_all_iff split: sim_operator.split)

lemma conjunction_atoms: "set (cj_atoms (conjunction_from_rule r)) = {a. \<exists>op \<in> set (rule_members r). member_atom op = Some a}"
  by (auto simp: conjunction_from_rule_def rule_members_def conjunction_add_parts conjunction_fold_parts Let_def
      split: sim_operator.splits option.splits)

lemma conjunction_opaque:
  "\<not> cj_opaque (conjunction_from_rule r) \<Longrightarrow> op \<in> set (rule_members r) \<Longrightarrow> op = OpTrue \<or> (\<exists>a. member_atom op = Some a)"
  by (auto simp: conjunction_from_rule_def rule_members_def conjunction_add_parts conjunction_fold_parts Let_def
      split: sim_operator.splits if_splits)

lemma strongest_some: "strongest (List.map_filter f ps) = Some k \<Longrightarrow> \<exists>p \<in> set ps. \<exists>k. f p = Some k"
  by (induction ps) (auto simp: strongest_def map_filter_simps split: option.splits)

lemma covers_all_some:
  "covers_all lib uc premises w goals = Some k \<Longrightarrow> g \<in> set goals \<Longrightarrow> \<exists>p \<in> set premises. \<exists>k. implies lib uc p g = Some k"
proof (induction goals arbitrary: w)
  case (Cons x xs)
  then show ?case by (auto split: option.splits dest: strongest_some)
qed simp

lemma covers_sound:
  assumes "reading lib uc inp t" "complete_input inp" "unicode_tables uc"
    and "covers lib uc (conjunction_from_rule a) (conjunction_from_rule b) = Some k" "rule_matches t b"
  shows "rule_matches t a"
proof -
  have clear: "\<not> cj_opaque (conjunction_from_rule a)"
    and all: "covers_all lib uc (cj_atoms (conjunction_from_rule b)) ProofExact (cj_atoms (conjunction_from_rule a)) = Some k"
    using assms(4) by (auto simp: covers_def split: if_splits)
  have "t op" if op: "op \<in> set (rule_members a)" for op
  proof (cases "op = OpTrue")
    case False
    then obtain g where g: "member_atom op = Some g" using conjunction_opaque[OF clear op] by blast
    then have "g \<in> set (cj_atoms (conjunction_from_rule a))" using op by (auto simp: conjunction_atoms)
    from covers_all_some[OF all this] obtain p j where p: "p \<in> set (cj_atoms (conjunction_from_rule b))" "implies lib uc p g = Some j"
      by blast
    then obtain op' where "op' \<in> set (rule_members b)" "member_atom op' = Some p" by (auto simp: conjunction_atoms)
    then have "t (OpLeaf p)" "modelled p" using assms(5) member_atom_leaf by (auto simp: rule_matches_members)
    then show ?thesis
      using implies_sound[OF assms(1-3) _ _ p(2)] member_atom_leaf[OF g] by blast
  qed (use reading_true[OF assms(1)] in simp)
  then show ?thesis by (simp add: rule_matches_members)
qed

section \<open>Covered rules do not decide\<close>

lemma earlier_stops:
  assumes "distinct rs" "other < position" "position < length rs" "m (rs ! other)" "stops_scan (rs ! other)"
  shows "decider_of m rs \<noteq> Some (rs ! position)"
proof
  assume "decider_of m rs = Some (rs ! position)"
  moreover have "find (\<lambda>r. m r \<and> stops_scan r) rs \<noteq> None"
    using assms(2-5) by (auto simp: find_None_iff)
  ultimately have "find (\<lambda>r. m r \<and> stops_scan r) rs = Some (rs ! position)" by (auto simp: decider_of_def)
  then obtain i where "i < length rs" "rs ! i = rs ! position" "\<forall>j<i. \<not> (m (rs ! j) \<and> stops_scan (rs ! j))"
    by (auto simp: find_Some_iff)
  then show False using assms by (auto simp: nth_eq_iff_index_eq)
qed

lemma stops_instead:
  assumes "r \<in> set rs" "m r" "stops_scan r" "\<not> stops_scan x"
  shows "decider_of m rs \<noteq> Some x"
proof
  assume "decider_of m rs = Some x"
  moreover have "find (\<lambda>r. m r \<and> stops_scan r) rs \<noteq> None" using assms(1-3) by (auto simp: find_None_iff)
  ultimately have "find (\<lambda>r. m r \<and> stops_scan r) rs = Some x" by (auto simp: decider_of_def)
  then show False using assms(4) by (auto simp: find_Some_iff)
qed

lemma later_overrides:
  assumes "distinct rs" "position < other" "other < length rs" "m (rs ! other)" "\<not> stops_scan (rs ! position)"
  shows "decider_of m rs \<noteq> Some (rs ! position)"
proof
  assume d: "decider_of m rs = Some (rs ! position)"
  then have none: "find (\<lambda>r. m r \<and> stops_scan r) rs = None"
    using assms(5) by (auto simp: decider_of_def find_Some_iff split: option.splits)
  let ?late = "filter m (drop (Suc position) rs)"
  have "rs ! other \<in> set ?late"
    using assms(2-4) by (auto simp: in_set_conv_nth intro!: exI[of _ "other - Suc position"])
  moreover have rs: "rs = take (Suc position) rs @ drop (Suc position) rs" by simp
  ultimately have "last (filter m rs) = last ?late" "filter m rs \<noteq> []"
    by (metis filter_append last_appendR empty_iff empty_set, metis filter_append append_is_Nil_conv empty_iff empty_set)
  then have "rs ! position = last ?late" using d none by (simp add: decider_of_def)
  moreover have "last ?late \<in> set (drop (Suc position) rs)"
    using last_in_set[of ?late] \<open>rs ! other \<in> set ?late\<close> by (metis empty_iff empty_set filter_is_subset subsetD)
  ultimately have "rs ! position \<in> set (drop (Suc position) rs)" by simp
  moreover have "rs ! position \<in> set (take (Suc position) rs)"
    using assms(2,3) by (auto simp: in_set_conv_nth intro!: exI[of _ position])
  ultimately show False
    using assms(1) distinct_append[of "take (Suc position) rs" "drop (Suc position) rs"] by auto
qed

lemma covered_not_decider:
  assumes "covering_rule lib uc active position other = Some c" "distinct active" "position < length active" "other < length active"
    and "m (active ! position) \<Longrightarrow> m (active ! other)"
  shows "decider_of m active \<noteq> Some (active ! position)"
proof (cases "m (active ! position)")
  case True
  then have m: "m (active ! other)" by (rule assms(5))
  have side: "if stops_scan (active ! other) then \<not> stops_scan (active ! position) \<or> other < position
      else \<not> stops_scan (active ! position) \<and> other > position"
    using assms(1) by (auto simp: covering_rule_def Let_def split: if_splits)
  show ?thesis
  proof (cases "stops_scan (active ! other)")
    case True
    then show ?thesis
      using side m assms(2-4) earlier_stops stops_instead[of "active ! other"] by (auto simp: nth_mem)
  next
    case False
    then show ?thesis using side m assms(2-4) later_overrides by auto
  qed
qed (auto dest: decider_of_mem)

lemma covering_covers:
  "covering_rule lib uc active position other = Some c \<Longrightarrow>
     \<exists>k. covers lib uc (conjunction_from_rule (active ! other)) (conjunction_from_rule (active ! position)) = Some k"
  by (auto simp: covering_rule_def Let_def split: if_splits)

lemma map_filter_mem: "y \<in> set (List.map_filter f xs) \<longleftrightarrow> (\<exists>x \<in> set xs. f x = Some y)"
  by (induction xs) (auto simp: map_filter_simps split: option.splits)

lemma shadowed_covered:
  assumes "shadowed_by lib uc position active = Some f"
  obtains other c where "other < length active" "covering_rule lib uc active position other = Some c"
proof -
  obtain c where "named_covering (List.map_filter (covering_rule lib uc active position) [0..<length active]) = Some c"
    using assms by (auto simp: shadowed_by_def)
  moreover have "named_covering cs = Some c \<Longrightarrow> c \<in> set cs" for cs
    by (auto simp: named_covering_def Let_def filter_eq_Cons_iff split: option.splits list.splits if_splits
        dest!: last_in_set[of "filter _ _"])
  ultimately have "c \<in> set (List.map_filter (covering_rule lib uc active position) [0..<length active])" by blast
  then have "\<exists>other \<in> set [0..<length active]. covering_rule lib uc active position other = Some c"
    by (simp only: map_filter_mem)
  then show thesis using that by auto
qed

lemma note_finding_lookup:
  "fmlookup (note_finding lib uc active i fs) n = Some f \<Longrightarrow>
     fmlookup fs n = Some f \<or> gr_name (active ! i) = n \<and> shadowed_by lib uc i active = Some f"
  by (auto simp: note_finding_def Let_def split: if_splits option.splits)

lemma finding_position:
  assumes "fmlookup (fold (note_finding lib uc active) is fs) n = Some f"
  shows "fmlookup fs n = Some f \<or> (\<exists>i \<in> set is. gr_name (active ! i) = n \<and> shadowed_by lib uc i active = Some f)"
  using assms
proof (induction "is" arbitrary: fs)
  case (Cons i js)
  then show ?case
    using Cons.IH[of "note_finding lib uc active i fs"] note_finding_lookup[of lib uc active i fs n f] by auto
qed simp

lemma active_distinct:
  assumes "distinct (map gr_name store)"
  shows "distinct (map gr_name (active_rules store))"
  using assms unfolding active_rules_def distinct_map by (auto intro: inj_on_subset)

lemma active_without:
  "active_rules (filter P store) = filter P (active_rules store)"
  by (simp add: active_rules_def filter_sort[symmetric] filter_filter conj_commute)

lemma found_rule_never_decides:
  assumes "unicode_tables uc" "distinct (map gr_name store)" "analyze lib uc store = AnalysisDone findings"
    and "fmlookup findings n = Some f" "reading lib uc inp t" "complete_input inp"
  obtains xs r ys where "active_rules store = xs @ r # ys" "gr_name r = n"
    "decider_of (rule_matches t) (active_rules store) \<noteq> Some r"
proof -
  let ?active = "active_rules store"
  have "fmlookup (fold (note_finding lib uc ?active) [0..<length ?active] fmempty) n = Some f"
    using assms(3,4) by (auto simp: analyze_def Let_def split: if_splits)
  from finding_position[OF this] obtain i where i: "i < length ?active" "gr_name (?active ! i) = n"
      "shadowed_by lib uc i ?active = Some f"
    by auto
  obtain other c where other: "other < length ?active" "covering_rule lib uc ?active i other = Some c"
    using shadowed_covered[OF i(3)] .
  obtain k where k: "covers lib uc (conjunction_from_rule (?active ! other)) (conjunction_from_rule (?active ! i)) = Some k"
    using covering_covers[OF other(2)] by blast
  have "distinct ?active" using active_distinct[OF assms(2)] by (simp add: distinct_map)
  then have "decider_of (rule_matches t) ?active \<noteq> Some (?active ! i)"
    using covered_not_decider[OF other(2) _ i(1) other(1), of "rule_matches t"] covers_sound[OF assms(5,6,1) k] by blast
  then show thesis using that[of "take i ?active" "?active ! i" "drop (Suc i) ?active"] i(1,2) by (simp add: id_take_nth_drop)
qed

text \<open>
  C22. A rule the analysis flags decides no connection: take any connection whose inputs are
  known, and any reading of the rules' conditions at it that agrees with the simulator
  wherever the simulator can evaluate a condition and is free where it cannot. No rule of
  the flagged name decides the connection, and deleting the rule changes nothing: the same
  rule, or none, still decides.
\<close>

theorem shadowed_rules_never_decide:
  assumes "unicode_tables uc" "distinct (map gr_name store)" "analyze lib uc store = AnalysisDone findings"
    and "fmlookup findings n = Some f" "reading lib uc inp t" "complete_input inp"
  shows "decider_of (rule_matches t) (active_rules (filter (\<lambda>r. gr_name r \<noteq> n) store)) =
           decider_of (rule_matches t) (active_rules store)
    \<and> (\<forall>r. decider_of (rule_matches t) (active_rules store) = Some r \<longrightarrow> gr_name r \<noteq> n)"
proof -
  obtain xs x ys where split: "active_rules store = xs @ x # ys" "gr_name x = n"
      "decider_of (rule_matches t) (active_rules store) \<noteq> Some x"
    using found_rule_never_decides[OF assms] .
  have "\<forall>r \<in> set xs \<union> set ys. gr_name r \<noteq> n"
    using active_distinct[OF assms(2)] split(2) unfolding split(1) by (force simp: image_iff)
  then have "filter (\<lambda>r. gr_name r \<noteq> n) (active_rules store) = xs @ ys" using split(1,2) by (simp add: filter_id_conv)
  then have same: "decider_of (rule_matches t) (active_rules (filter (\<lambda>r. gr_name r \<noteq> n) store)) =
           decider_of (rule_matches t) (active_rules store)"
    using decider_of_remove[of "rule_matches t" xs x ys] split(1,3) by (simp add: active_without)
  have "gr_name r \<noteq> n" if "decider_of (rule_matches t) (active_rules store) = Some r" for r
    using decider_of_mem[OF that[folded same]] by (simp add: active_rules_mem)
  with same show ?thesis by blast
qed

definition network_row :: "string \<Rightarrow> string \<Rightarrow> string \<Rightarrow> string \<Rightarrow> gui_rule" where
  "network_row name act operand data =
     (example_row name act operand data)\<lparr> gr_operator :=
        JObject [(lit ''type'', JString (lit ''network'')), (lit ''operand'', JString (lit operand)),
                 (lit ''data'', JString (lit data)), (lit ''sensitive'', JBool False)] \<rparr>"

definition shadow_store :: rules_store where
  "shadow_store = [example_row ''printer'' ''allow'' ''dest.ip'' ''10.1.2.3'', network_row ''office'' ''deny'' ''dest.network'' ''10.0.0.0/8'']"

definition office_finding :: finding where
  "office_finding = \<lparr> fi_kind = NeverDecides, fi_by = lit ''office'', fi_by_display = lit ''office'' \<rparr>"

definition full_input :: simulation_input where
  "full_input = \<lparr> si_process_path = Some [], si_dest_host = Some [], si_dest_port = 631,
     si_protocol = Some (lit ''tcp''), si_parent_paths = None, si_command = Some [], si_pid = Some 1, si_uid = Some 1000,
     si_env = None, si_src_ip = Some (lit ''10.0.0.9''), si_src_port = Some 4000, si_dest_ip = Some (lit ''10.1.2.3''),
     si_iface_in = None, si_iface_out = None, si_checksums = None, si_checksums_enabled = None \<rparr>"

lemma shadow_store_findings:
  "analyze no_regex ascii_tables shadow_store = AnalysisDone (fmupd (lit ''printer'') office_finding fmempty)"
  by code_simp

lemma ascii_tables_unicode: "unicode_tables ascii_tables"
  by (auto simp: unicode_tables_def ascii_tables_def fold_char_def go_lower_char_def single_def ascii_lower_def is_ip_char_def
      is_ascii_digit_def Let_def split: if_splits)

lemma full_input_complete: "complete_input full_input"
proof -
  have "list_all (\<lambda>x. case text_subject x full_input of Known _ \<Rightarrow> True | _ \<Rightarrow> False) TEXT_OPERANDS" by code_simp
  moreover have "(case s of Known _ \<Rightarrow> True | _ \<Rightarrow> False) \<Longrightarrow> \<exists>x. s = Known x" for s by (cases s) auto
  ultimately show ?thesis unfolding complete_input_def list_all_iff by blast
qed

lemma says_yes_reading: "reading lib uc inp (says_yes (evaluate_member lib uc inp))"
  by (auto simp: reading_def agrees_def says_yes_def split: truth.split)

theorem shadowed_rules_never_decide_witness:
  "decider_of (rule_matches (says_yes (evaluate_member no_regex ascii_tables full_input))) (active_rules shadow_store)
     = Some (shadow_store ! 1) \<and> gr_name (shadow_store ! 1) \<noteq> lit ''printer''"
proof -
  let ?t = "says_yes (evaluate_member no_regex ascii_tables full_input)"
  have "distinct (map gr_name shadow_store)" by code_simp
  note never = shadowed_rules_never_decide[OF ascii_tables_unicode this shadow_store_findings _ says_yes_reading full_input_complete,
      of "lit ''printer''" office_finding]
  have "decider_of (rule_matches ?t) (active_rules shadow_store) = Some (shadow_store ! 1)" by code_simp
  then show ?thesis using never by simp
qed

section \<open>Findings are shown for the current list\<close>

lemma upsert_row_unchanged: "upsert_row r store = (store', False) \<Longrightarrow> store' = store"
  by (auto simp: upsert_row_def split: option.splits if_splits)

lemma upsert_rows_unchanged: "upsert_rows vs (store, changed) = (store', False) \<Longrightarrow> store' = store \<and> \<not> changed"
proof (induction vs arbitrary: store changed)
  case (Cons v vs)
  show ?case
  proof (cases "gui_rule_from_json v")
    case (Some r)
    obtain x c where "upsert_row r store = (x, c)" by (cases "upsert_row r store")
    then show ?thesis
      using Cons.IH[of x "changed \<or> c"] Cons.prems Some upsert_row_unchanged[of r store x] by auto
  qed (use Cons.IH[of store changed] Cons.prems in simp)
qed simp

lemma store_apply_unchanged: "store_apply msg store = (store', False) \<Longrightarrow> store' = store"
  by (cases msg) (auto simp: Let_def dest: upsert_rows_unchanged)

definition tab_inv :: "regex_lib \<Rightarrow> unicode_lib \<Rightarrow> rules_tab \<Rightarrow> bool" where
  "tab_inv lib uc tab \<longleftrightarrow>
     (let a = rt_analysis tab
      in (\<forall>(g, rules) \<in> set (rt_workers tab). g \<le> as_generation a \<and> (g = as_generation a \<longrightarrow> rules = rt_store tab))
         \<and> (\<forall>g. as_running a = Some g \<longrightarrow> g = as_generation a)
         \<and> (as_findings a = fmempty \<or> analyze lib uc (rt_store tab) = AnalysisDone (as_findings a))
         \<and> (as_phase a = PhaseDone \<longrightarrow> analyze lib uc (rt_store tab) = AnalysisDone (as_findings a))
         \<and> (as_phase a = PhaseTooMany \<longrightarrow> analyze lib uc (rt_store tab) = TooMany (as_enabled a) MAX_ANALYZED_RULES))"

lemma tab_inv_new: "tab_inv lib uc new_rules_tab"
  by (simp add: tab_inv_def new_rules_tab_def new_analysis_def)

lemma tab_inv_message: "tab_inv lib uc tab \<Longrightarrow> tab_inv lib uc (apply_rules_message msg tab)"
proof -
  assume inv: "tab_inv lib uc tab"
  obtain store changed where app: "store_apply msg (rt_store tab) = (store, changed)" by (cases "store_apply msg (rt_store tab)")
  then show ?thesis
    using inv store_apply_unchanged[of msg "rt_store tab" store]
    by (cases changed) (auto simp: tab_inv_def apply_rules_message_def rules_changed_def Let_def le_Suc_eq)
qed

lemma tab_inv_asked: "tab_inv lib uc tab \<Longrightarrow> tab_inv lib uc (tab_analyze tab)"
  by (auto simp: tab_inv_def tab_analyze_def analysis_start_def Let_def)

lemma tab_inv_finished:
  assumes "tab_inv lib uc tab" "(g, rules) \<in> set (rt_workers tab)"
  shows "tab_inv lib uc (finish_analysis g (analyze lib uc rules) (tab\<lparr> rt_workers := remove1 (g, rules) (rt_workers tab) \<rparr>))"
proof (cases "as_running (rt_analysis tab) = Some g")
  case True
  then have "rules = rt_store tab" using assms by (auto simp: tab_inv_def Let_def)
  then show ?thesis
    using assms True notin_set_remove1
    by (auto simp: tab_inv_def finish_analysis_def analysis_finish_def Let_def analyze_def
        dest!: set_mp[OF set_remove1_subset] split: if_splits)
next
  case False
  then show ?thesis
    using assms by (auto simp: tab_inv_def finish_analysis_def analysis_finish_def Let_def dest!: set_mp[OF set_remove1_subset])
qed

lemma tab_inv_step: "tab_step lib uc tab tab' \<Longrightarrow> tab_inv lib uc tab \<Longrightarrow> tab_inv lib uc tab'"
proof (induction rule: tab_step.induct)
  case (tab_gave_up g rules tab)
  then show ?case by (auto simp: tab_inv_def Let_def dest!: set_mp[OF set_remove1_subset])
qed (simp_all add: tab_inv_message tab_inv_asked tab_inv_finished)

interpretation rules_tab_machine: transition_system "\<lambda>tab. tab = new_rules_tab" "tab_step lib uc" "tab_inv lib uc" for lib uc
  by unfold_locales (auto intro: tab_inv_new tab_inv_step)

text \<open>
  C34. The rules tab never shows an insight about a list it no longer has: however list
  updates, requests for an analysis and the ends of analysis threads interleave, the
  findings shown are none or exactly what the analysis of the list now shown gives, and a
  tab that says the analysis is done, or that there are too many rules for it, says what it
  would say of the list now shown.
\<close>

theorem shown_findings_are_current:
  assumes "reachable (\<lambda>t. t = new_rules_tab) (tab_step lib uc) tab"
  shows "(as_findings (rt_analysis tab) = fmempty
           \<or> analyze lib uc (rt_store tab) = AnalysisDone (as_findings (rt_analysis tab)))
    \<and> (as_phase (rt_analysis tab) = PhaseDone \<longrightarrow>
           analyze lib uc (rt_store tab) = AnalysisDone (as_findings (rt_analysis tab)))
    \<and> (as_phase (rt_analysis tab) = PhaseTooMany \<longrightarrow>
           analyze lib uc (rt_store tab) = TooMany (as_enabled (rt_analysis tab)) MAX_ANALYZED_RULES)"
  using rules_tab_machine.inv_reachable[OF assms] by (simp add: tab_inv_def Let_def)

definition analysed_tab :: rules_tab where
  "analysed_tab = finish_analysis 0 (analyze no_regex ascii_tables [])
     ((tab_analyze new_rules_tab)\<lparr> rt_workers := remove1 (0, []) (rt_workers (tab_analyze new_rules_tab)) \<rparr>)"

theorem shown_findings_are_current_witness:
  "as_phase (rt_analysis analysed_tab) = PhaseDone
     \<and> analyze no_regex ascii_tables (rt_store analysed_tab) = AnalysisDone (as_findings (rt_analysis analysed_tab))"
proof -
  have "(0, []) \<in> set (rt_workers (tab_analyze new_rules_tab))" by code_simp
  then have "tab_step no_regex ascii_tables (tab_analyze new_rules_tab) analysed_tab"
    unfolding analysed_tab_def by (rule tab_finished)
  moreover have "reachable (\<lambda>t. t = new_rules_tab) (tab_step no_regex ascii_tables) (tab_analyze new_rules_tab)"
    by (rule reach_step[where s = new_rules_tab], rule reach_init) (simp_all add: tab_asked)
  ultimately have "reachable (\<lambda>t. t = new_rules_tab) (tab_step no_regex ascii_tables) analysed_tab"
    by (blast intro: reach_step)
  note current = shown_findings_are_current[OF this]
  have "as_phase (rt_analysis analysed_tab) = PhaseDone" by code_simp
  then show ?thesis using current by simp
qed

end
