(* ===== verification/Rule_Edits.thy ===== *)
theory Rule_Edits
  imports Rule_Import Daemon_Commands
begin

text \<open>
  Rule commands of the GUIs, as the command-line bridge runs them: \<open>rule_commands.rs\<close> with
  \<open>gates.rs\<close> (what a command may do, decided before anything is sent), \<open>steps.rs\<close>,
  \<open>rename.rs\<close>, \<open>edit.rs\<close> and \<open>refused.rs\<close> (what is sent, in which order, and what the answer
  says), and \<open>busy.rs\<close>, all under \<open>snitchwatch-bridge-cli/src\<close>; and
  \<open>translator/rule_notification.rs\<close> of the bridge.

  The texts shown to the user are constructors. What a command sent to the daemon came to
  is an argument (\<open>send_world\<close>): the answer to a command, after those sent before it.
\<close>

section \<open>Notifications (rule\_notification.rs)\<close>

datatype rule_effect = EffectAdd json | EffectUpdate rstr json | EffectDelete rstr

datatype reserved_kind = ReservedBlocklist | ReservedProfile | ReservedPackaged | ReservedCurated

datatype effect_error = EffectWire wire_error | EffectEmptyId | EffectName name_error | EffectReserved reserved_kind

definition refuse_reserved_name :: "rstr \<Rightarrow> effect_error + unit" where
  "refuse_reserved_name name =
     (if is_reserved_blocklist_name name then Inl (EffectReserved ReservedBlocklist)
      else if is_reserved_profile_name name then Inl (EffectReserved ReservedProfile)
      else if is_reserved_packaged_name name then Inl (EffectReserved ReservedPackaged)
      else if is_reserved_curated_name name then Inl (EffectReserved ReservedCurated)
      else Inr ())"

definition change_for_wire :: "regex_lib \<Rightarrow> json \<Rightarrow> effect_error + notification" where
  "change_for_wire lib v =
     (case rule_from_wire lib v of
        Inl e \<Rightarrow> Inl (EffectWire e)
      | Inr r \<Rightarrow> (case refuse_reserved_name (r_name r) of Inl e \<Rightarrow> Inl e | Inr _ \<Rightarrow> Inr (command_of ChangeRule r)))"

definition notification_for_effect :: "regex_lib \<Rightarrow> rule_effect \<Rightarrow> effect_error + notification" where
  "notification_for_effect lib effect =
     (case effect of
        EffectAdd v \<Rightarrow> change_for_wire lib v
      | EffectUpdate rule_id v \<Rightarrow>
          (case refuse_reserved_name rule_id of Inl e \<Rightarrow> Inl e | Inr _ \<Rightarrow> change_for_wire lib v)
      | EffectDelete rule_id \<Rightarrow>
          if rule_id = [] then Inl EffectEmptyId
          else (case validate_rule_name rule_id of
                  Inl e \<Rightarrow> Inl (EffectName e)
                | Inr _ \<Rightarrow>
                    (case refuse_reserved_name rule_id of
                       Inl e \<Rightarrow> Inl e
                     | Inr _ \<Rightarrow> Inr (command_of DeleteRule (named_rule rule_id)))))"

section \<open>Busy names (busy.rs)\<close>

type_synonym busy_names = "rstr fset"

definition busy_claim :: "rstr list \<Rightarrow> busy_names \<Rightarrow> busy_names option" where
  "busy_claim names busy =
     (if list_ex (\<lambda>n. n |\<in>| busy) names then None else Some (busy |\<union>| fset_of_list names))"

definition busy_drop :: "rstr list \<Rightarrow> busy_names \<Rightarrow> busy_names" where
  "busy_drop names busy = busy |-| fset_of_list names"

section \<open>Gates (gates.rs)\<close>

datatype gate_reason =
  NAME_TAKEN | TCP_REFUSED | BUSY | CURATED_INERT_REFUSED | NOT_LOADED | NOT_FOUND | HIDDEN | NEEDS_CONFIRMATION
| GateReadOnly read_only | GateEffect effect_error | GateWire wire_error | GatePolicy problem_reason
| CannotTurnOn problem_reason | GateSend send_error

type_synonym refusal = "(rstr \<times> gate_reason) list"

definition refusal :: "string \<Rightarrow> gate_reason \<Rightarrow> refusal" where
  "refusal path reason = [(lit path, reason)]"

datatype rule_command = CommandAdd json | CommandUpdate rstr json | CommandDelete rstr

datatype rule_plan =
  PlanSend notification
| PlanToggleCurated rstr bool
| PlanAdd notification rstr
| PlanEdit notification rule
| PlanRename notification rule

definition gate_notification :: "regex_lib \<Rightarrow> rule_effect \<Rightarrow> refusal + notification" where
  "gate_notification lib effect =
     (case notification_for_effect lib effect of Inl e \<Rightarrow> Inl (refusal ''rule'' (GateEffect e)) | Inr n \<Rightarrow> Inr n)"

definition name_free :: "rules_cache \<Rightarrow> rstr \<Rightarrow> busy_names \<Rightarrow> refusal + unit" where
  "name_free cache name busy =
     (case rc_rules cache of
        None \<Rightarrow> Inl (refusal ''rule'' NOT_LOADED)
      | Some rules \<Rightarrow>
          if fmlookup rules name \<noteq> None \<or> fmlookup (rc_left_out cache) name \<noteq> None then Inl (refusal ''name'' NAME_TAKEN)
          else if name |\<in>| busy then Inl (refusal ''name'' BUSY)
          else Inr ())"

definition changeable ::
  "regex_lib \<Rightarrow> curated_entry list \<Rightarrow> rules_cache \<Rightarrow> rstr \<Rightarrow> busy_names \<Rightarrow> refusal + rule" where
  "changeable lib es cache rule_id busy =
     (case rc_rules cache of
        None \<Rightarrow> Inl (refusal ''rule'' NOT_LOADED)
      | Some rules \<Rightarrow>
          if fmlookup (rc_left_out cache) rule_id \<noteq> None then Inl (refusal ''rule'' HIDDEN)
          else (case fmlookup rules rule_id of
                  None \<Rightarrow> Inl (refusal ''rule'' NOT_FOUND)
                | Some old \<Rightarrow>
                    (case read_only_reason lib (curated_toggleable lib es) old of
                       Some reason \<Rightarrow> Inl (refusal ''rule'' (GateReadOnly reason))
                     | None \<Rightarrow> if rule_id |\<in>| busy then Inl (refusal ''name'' BUSY) else Inr old)))"

definition may_turn_on :: "regex_lib \<Rightarrow> rule \<Rightarrow> refusal + unit" where
  "may_turn_on lib r =
     (let problems = enable_problems lib r
      in if problems = [] then Inr () else Inl (map (\<lambda>(path, reason). (path, CannotTurnOn reason)) problems))"

definition plan_add :: "regex_lib \<Rightarrow> json \<Rightarrow> bool \<Rightarrow> rules_cache \<Rightarrow> busy_names \<Rightarrow> refusal + rule_plan" where
  "plan_add lib v on_tcp cache busy =
     (if on_tcp then Inl (refusal ''rule'' TCP_REFUSED)
      else (case check_wire_rule lib v Editor of
              Inl (WireProblem e) \<Rightarrow> Inl (refusal ''rule'' (GateWire e))
            | Inl (PolicyProblems ps) \<Rightarrow> Inl (map (\<lambda>(path, reason). (path, GatePolicy reason)) ps)
            | Inr parsed \<Rightarrow>
                (case name_free cache (r_name parsed) busy of
                   Inl e \<Rightarrow> Inl e
                 | Inr _ \<Rightarrow>
                     (case gate_notification lib (EffectAdd v) of
                        Inl e \<Rightarrow> Inl e
                      | Inr change \<Rightarrow> Inr (PlanAdd change (r_name parsed))))))"

definition plan_curated_toggle ::
  "regex_lib \<Rightarrow> curated_entry list \<Rightarrow> rules_cache \<Rightarrow> rstr \<Rightarrow> json \<Rightarrow> busy_names \<Rightarrow> refusal + rule_plan" where
  "plan_curated_toggle lib es cache rule_id v busy =
     (case rc_rules cache of
        None \<Rightarrow> Inl (refusal ''rule'' NOT_LOADED)
      | Some rules \<Rightarrow>
          (case fmlookup rules rule_id of
             None \<Rightarrow> Inl (refusal ''rule'' NOT_FOUND)
           | Some old \<Rightarrow>
               (let reason = (case read_only_reason lib (curated_toggleable lib es) old of
                                Some reason \<Rightarrow> reason | None \<Rightarrow> CURATED_MANAGED_REASON)
                in case (if curated_toggleable lib es old then requested_toggle lib old v else None) of
                     None \<Rightarrow> Inl (refusal ''rule'' (GateReadOnly reason))
                   | Some enabled \<Rightarrow>
                       if rule_id |\<in>| busy then Inl (refusal ''name'' BUSY)
                       else if enabled \<and> (case entry_for_rule_name es rule_id of Some e \<Rightarrow> broad e | None \<Rightarrow> False)
                       then Inl (refusal ''rule'' NEEDS_CONFIRMATION)
                       else if enabled \<and> \<not> r_enabled old
                       then (case may_turn_on lib old of Inl e \<Rightarrow> Inl e | Inr _ \<Rightarrow> Inr (PlanToggleCurated rule_id enabled))
                       else Inr (PlanToggleCurated rule_id enabled))))"

definition plan_update ::
  "regex_lib \<Rightarrow> curated_entry list \<Rightarrow> rstr \<Rightarrow> json \<Rightarrow> bool \<Rightarrow> bool \<Rightarrow> rules_cache \<Rightarrow> busy_names \<Rightarrow> refusal + rule_plan" where
  "plan_update lib es rule_id v on_tcp curated_inert cache busy =
     (if is_reserved_curated_name rule_id
      then (if curated_inert then Inl (refusal ''rule'' CURATED_INERT_REFUSED)
            else plan_curated_toggle lib es cache rule_id v busy)
      else (case changeable lib es cache rule_id busy of
              Inl e \<Rightarrow> Inl e
            | Inr old \<Rightarrow>
                (case gate_notification lib (EffectUpdate rule_id v) of
                   Inl e \<Rightarrow> Inl e
                 | Inr change \<Rightarrow>
                     (let new = hd (n_rules change); renamed = r_name new \<noteq> rule_id
                      in if \<not> renamed \<and> only_enabled_differs old new
                         then (if r_enabled new \<and> \<not> r_enabled old
                               then (case may_turn_on lib new of Inl e \<Rightarrow> Inl e | Inr _ \<Rightarrow> Inr (PlanSend change))
                               else Inr (PlanSend change))
                         else if on_tcp then Inl (refusal ''rule'' TCP_REFUSED)
                         else (case validate_user_rule lib new Editor of
                                 Inl ps \<Rightarrow> Inl (map (\<lambda>(path, reason). (path, GatePolicy reason)) ps)
                               | Inr _ \<Rightarrow>
                                   if renamed
                                   then (case name_free cache (r_name new) busy of
                                           Inl e \<Rightarrow> Inl e
                                         | Inr _ \<Rightarrow> Inr (PlanRename change old))
                                   else Inr (PlanEdit change old))))))"

definition gates_plan ::
  "regex_lib \<Rightarrow> curated_entry list \<Rightarrow> rule_command \<Rightarrow> transport \<Rightarrow> rules_cache \<Rightarrow> busy_names \<Rightarrow> bool \<Rightarrow> refusal + rule_plan" where
  "gates_plan lib es c transport cache busy curated_inert =
     (case c of
        CommandDelete rule_id \<Rightarrow>
          if rule_id |\<in>| busy then Inl (refusal ''name'' BUSY)
          else (case gate_notification lib (EffectDelete rule_id) of Inl e \<Rightarrow> Inl e | Inr n \<Rightarrow> Inr (PlanSend n))
      | CommandAdd v \<Rightarrow> plan_add lib v (transport = Tcp) cache busy
      | CommandUpdate rule_id v \<Rightarrow> plan_update lib es rule_id v (transport = Tcp) curated_inert cache busy)"

section \<open>Answers (rule\_commands.rs, refused.rs)\<close>

datatype rename_decides = OLD_DECIDES | NEW_DECIDES | BOTH_OFF | BOTH_ALLOW

datatype change_note = DELETED_FILE_LEFT | TURNED_OFF_FILE_KEPT | CHANGED_NOT_SAVED | OLD_FILE_LEFT

datatype restore_note = RESTORED | GONE

datatype unsure_reason =
  NEW_UNCONFIRMED | BOTH_EXIST rename_decides | BOTH_MAY_EXIST rename_decides | UNANSWERED_LOST | MAY_HAVE_APPLIED rstr

datatype command_outcome =
  OutcomeOk
| OutcomeOkWithNote change_note rstr
| OutcomeRejected rstr "restore_note option"
| OutcomeTimeout
| OutcomeUnsure unsure_reason
| OutcomeNoDaemon
| OutcomeRefused refusal

definition MAX_REASON_CHARS :: nat where "MAX_REASON_CHARS = 200"

definition display_reason :: "rstr \<Rightarrow> rstr" where
  "display_reason t =
     (let shown = strip_display_hazards t
      in if length shown \<le> MAX_REASON_CHARS then shown else take MAX_REASON_CHARS shown @ [ELLIPSIS])"

fun wait_outcome :: "command_error + unit \<Rightarrow> command_outcome" where
  "wait_outcome (Inr _) = OutcomeOk"
| "wait_outcome (Inl (Rejected_by_daemon t)) = OutcomeRejected (display_reason t) None"
| "wait_outcome (Inl Timeout) = OutcomeTimeout"
| "wait_outcome (Inl StreamClosed) = OutcomeTimeout"

definition send_error_outcome :: "send_error \<Rightarrow> command_outcome" where
  "send_error_outcome e =
     (if e = NoDaemon \<or> e = NotQueued then OutcomeNoDaemon else OutcomeRefused (refusal ''rule'' (GateSend e)))"

datatype if_refused = IfRejected | IfAppliedNotSaved | IfMayHaveApplied

definition if_refused_of :: "notification \<Rightarrow> if_refused" where
  "if_refused_of sent =
     (if applied_but_not_saved sent then IfAppliedNotSaved
      else if may_have_applied sent then IfMayHaveApplied else IfRejected)"

definition if_refused_answer :: "if_refused \<Rightarrow> command_outcome \<Rightarrow> change_note \<Rightarrow> command_outcome" where
  "if_refused_answer x outcome not_saved =
     (case outcome of
        OutcomeRejected reason _ \<Rightarrow>
          (case x of
             IfRejected \<Rightarrow> outcome
           | IfAppliedNotSaved \<Rightarrow> OutcomeOkWithNote not_saved reason
           | IfMayHaveApplied \<Rightarrow> OutcomeUnsure (MAY_HAVE_APPLIED reason))
      | _ \<Rightarrow> outcome)"

section \<open>Steps (steps.rs)\<close>

text \<open>Sending fails, or the command is sent and waited for.\<close>

datatype sent = NotSent send_error | Waited "command_error + unit"

datatype sent_command = Command notification | SendToggle rstr bool

type_synonym sent_trace = "(sent_command \<times> sent) list"

type_synonym send_world = "sent_trace \<Rightarrow> sent_command \<Rightarrow> sent"

datatype command_step = StepOk | StepRejected rstr | StepUnanswered | StepNotSent command_outcome

fun step_of :: "sent \<Rightarrow> command_step" where
  "step_of (NotSent e) = StepNotSent (send_error_outcome e)"
| "step_of (Waited (Inr _)) = StepOk"
| "step_of (Waited (Inl (Rejected_by_daemon t))) = StepRejected t"
| "step_of (Waited (Inl Timeout)) = StepUnanswered"
| "step_of (Waited (Inl StreamClosed)) = StepUnanswered"

fun sent_outcome :: "sent \<Rightarrow> command_outcome" where
  "sent_outcome (NotSent e) = send_error_outcome e"
| "sent_outcome (Waited w) = wait_outcome w"

definition delete_command :: "rstr \<Rightarrow> notification" where
  "delete_command name = command_of DeleteRule (named_rule name)"

section \<open>Rename (rename.rs)\<close>

definition rule_blocks :: "rule \<Rightarrow> bool" where
  "rule_blocks r \<longleftrightarrow> r_precedence r \<or> r_action r \<in> {lit ''deny'', lit ''reject''}"

definition deciding :: "rule \<Rightarrow> rule \<Rightarrow> rename_decides" where
  "deciding old new =
     (if r_enabled old \<and> \<not> r_enabled new then OLD_DECIDES
      else if \<not> r_enabled old \<and> r_enabled new then NEW_DECIDES
      else if \<not> r_enabled old \<and> \<not> r_enabled new then BOTH_OFF
      else case (rule_blocks old, rule_blocks new) of
             (True, True) \<Rightarrow> if r_name old < r_name new then OLD_DECIDES else NEW_DECIDES
           | (True, False) \<Rightarrow> OLD_DECIDES
           | (False, True) \<Rightarrow> NEW_DECIDES
           | (False, False) \<Rightarrow> BOTH_ALLOW)"

definition rename_run :: "send_world \<Rightarrow> notification \<Rightarrow> rule \<Rightarrow> command_outcome \<times> sent_trace" where
  "rename_run world change old =
     (let new = hd (n_rules change);
          first = world [] (Command change);
          trace = [(Command change, first)]
      in case step_of first of
           StepRejected t \<Rightarrow> (wait_outcome (Inl (Rejected_by_daemon t)), trace)
         | StepUnanswered \<Rightarrow> (OutcomeUnsure NEW_UNCONFIRMED, trace)
         | StepNotSent outcome \<Rightarrow> (outcome, trace)
         | StepOk \<Rightarrow>
             (let second = world trace (Command (delete_command (r_name old)));
                  trace = trace @ [(Command (delete_command (r_name old)), second)]
              in (case step_of second of
                    StepOk \<Rightarrow> OutcomeOk
                  | StepRejected t \<Rightarrow> OutcomeOkWithNote OLD_FILE_LEFT (display_reason t)
                  | StepNotSent _ \<Rightarrow> OutcomeUnsure (BOTH_EXIST (deciding old new))
                  | StepUnanswered \<Rightarrow> OutcomeUnsure (BOTH_MAY_EXIST (deciding old new)), trace)))"

section \<open>Edit (edit.rs)\<close>

definition loses_file :: "rule \<Rightarrow> rule \<Rightarrow> bool" where
  "loses_file old new \<longleftrightarrow> r_duration old = lit ''always'' \<and> r_duration new \<noteq> lit ''always''"

text \<open>The last component says whether the rule leaves the bridge's list (\<open>forget\<close>).\<close>

definition edit_run :: "send_world \<Rightarrow> notification \<Rightarrow> rule \<Rightarrow> command_outcome \<times> sent_trace \<times> bool" where
  "edit_run world edit old =
     (let lost = loses_file old (hd (n_rules edit));
          first = world [] (Command edit);
          trace = [(Command edit, first)]
      in case step_of first of
           StepOk \<Rightarrow> (OutcomeOk, trace, False)
         | StepRejected t \<Rightarrow>
             if lost
             then (let restore = Command (command_of ChangeRule (old\<lparr> r_created := 0 \<rparr>));
                       second = world trace restore;
                       restored = (step_of second = StepOk)
                   in (OutcomeRejected (display_reason t) (Some (if restored then RESTORED else GONE)),
                       trace @ [(restore, second)], \<not> restored))
             else (if_refused_answer (if_refused_of edit) (wait_outcome (Inl (Rejected_by_daemon t))) CHANGED_NOT_SAVED,
                   trace, False)
         | StepUnanswered \<Rightarrow> if lost then (OutcomeUnsure UNANSWERED_LOST, trace, True) else (OutcomeTimeout, trace, False)
         | StepNotSent outcome \<Rightarrow> (outcome, trace, False))"

section \<open>Running a plan (rule\_commands.rs)\<close>

record command_run =
  cr_outcome :: command_outcome
  cr_trace :: sent_trace
  cr_forget :: bool
  cr_republish :: bool

definition needs_republish :: "command_outcome \<Rightarrow> bool" where
  "needs_republish outcome = (case outcome of OutcomeOk \<Rightarrow> False | OutcomeOkWithNote _ _ \<Rightarrow> False | _ \<Rightarrow> True)"

definition finished :: "command_outcome \<Rightarrow> sent_trace \<Rightarrow> bool \<Rightarrow> command_run" where
  "finished outcome trace forget =
     \<lparr> cr_outcome = outcome, cr_trace = trace, cr_forget = forget, cr_republish = needs_republish outcome \<rparr>"

definition send_run :: "send_world \<Rightarrow> notification \<Rightarrow> command_run" where
  "send_run world n =
     (let reply = world [] (Command n); trace = [(Command n, reply)]
      in case sent_outcome reply of
           OutcomeRejected reason _ \<Rightarrow>
             if n_type n = DeleteRule then finished (OutcomeOkWithNote DELETED_FILE_LEFT reason) trace False
             else finished (if_refused_answer (if_refused_of n) (sent_outcome reply) TURNED_OFF_FILE_KEPT) trace False
         | outcome \<Rightarrow> finished (if_refused_answer (if_refused_of n) outcome TURNED_OFF_FILE_KEPT) trace False)"

definition toggle_curated :: "send_world \<Rightarrow> rstr \<Rightarrow> bool \<Rightarrow> command_run" where
  "toggle_curated world name enabled =
     (let reply = world [] (SendToggle name enabled);
          trace = [(SendToggle name enabled, reply)];
          outcome = sent_outcome reply
      in if \<not> enabled then finished (if_refused_answer IfAppliedNotSaved outcome TURNED_OFF_FILE_KEPT) trace False
         else case outcome of
                OutcomeRejected _ _ \<Rightarrow>
                  finished outcome (trace @ [(SendToggle name False, world trace (SendToggle name False))]) False
              | _ \<Rightarrow> finished outcome trace False)"

definition plan_claims :: "rule_plan \<Rightarrow> rstr list" where
  "plan_claims p =
     (case p of
        PlanSend _ \<Rightarrow> []
      | PlanToggleCurated name _ \<Rightarrow> [name]
      | PlanAdd _ name \<Rightarrow> [name]
      | PlanEdit _ old \<Rightarrow> [r_name old]
      | PlanRename change old \<Rightarrow> [r_name old, r_name (hd (n_rules change))])"

fun run_plan :: "send_world \<Rightarrow> rule_plan \<Rightarrow> command_run" where
  "run_plan world (PlanSend n) = send_run world n"
| "run_plan world (PlanToggleCurated name enabled) = toggle_curated world name enabled"
| "run_plan world (PlanAdd change name) =
     (let reply = world [] (Command change)
      in finished (if_refused_answer (if_refused_of change) (sent_outcome reply) CHANGED_NOT_SAVED) [(Command change, reply)] False)"
| "run_plan world (PlanEdit change old) =
     (let (outcome, trace, forget) = edit_run world change old in finished outcome trace forget)"
| "run_plan world (PlanRename change old) =
     (let (outcome, trace) = rename_run world change old in finished outcome trace False)"

text \<open>\<open>try_route\<close>: a refused command sends nothing, as does one whose names another command
  is working on. Only a request without an id (\<open>asked\<close> is false) has the list sent again then.\<close>

definition refuse_command :: "bool \<Rightarrow> refusal \<Rightarrow> command_run" where
  "refuse_command asked problems = (finished (OutcomeRefused problems) [] False)\<lparr> cr_republish := \<not> asked \<rparr>"

definition route_command ::
  "regex_lib \<Rightarrow> curated_entry list \<Rightarrow> send_world \<Rightarrow> bool \<Rightarrow> rule_command \<Rightarrow> transport \<Rightarrow> rules_cache \<Rightarrow> busy_names \<Rightarrow> bool \<Rightarrow>
   command_run" where
  "route_command lib es world asked c transport cache busy curated_inert =
     (case gates_plan lib es c transport cache busy curated_inert of
        Inl problems \<Rightarrow> refuse_command asked problems
      | Inr p \<Rightarrow>
          (case busy_claim (plan_claims p) busy of
             None \<Rightarrow> refuse_command asked (refusal ''name'' BUSY)
           | Some _ \<Rightarrow> run_plan world p))"

end
