(* ===== verification/Rule_Edits_Props.thy ===== *)
theory Rule_Edits_Props
  imports Rule_Edits Rule_Match_Props Daemon_Props
begin

text \<open>
  What a rule command may send, and that its answer is true of the daemon: against the
  daemon's rules in memory and the documented effects of its answers, a command answered
  with success has been applied, one answered as not done has changed nothing (a rejected rename apart), and a rename
  leaves one of its two rules in every case.
\<close>

section \<open>The daemon's memory\<close>

text \<open>
  The stock daemon's rule commands, as \<open>rules_refused.rs\<close>, \<open>refused.rs\<close>, \<open>edit.rs\<close> and
  \<open>rename.rs\<close> document its \<open>rule/loader.go\<close>. Each result is an answer (\<open>OK\<close> or \<open>ERROR\<close>)
  with the rules then in memory; which of them comes about depends on the compiler of the
  conditions and on the disk.

  A rule without conditions is refused before anything changes. Otherwise a change first
  removes the file of a permanent rule that is to become temporary, which makes live reload
  drop the old rule from memory as well; a rule that is on is compiled, and an error there
  ends the command; then the rule is stored, and a permanent one is saved to its file, which
  may fail with the rule already stored. A delete drops the rule from memory and then
  removes the file of a permanent one, which may fail with the rule already gone.
\<close>

type_synonym daemon_memory = "(rstr, rule) fmap"

definition file_removed :: "rule \<Rightarrow> daemon_memory \<Rightarrow> bool" where
  "file_removed r m =
     (case fmlookup m (r_name r) of
        Some old \<Rightarrow> r_duration old = lit ''always'' \<and> r_duration r \<noteq> lit ''always''
      | None \<Rightarrow> False)"

definition daemon_change :: "rule \<Rightarrow> daemon_memory \<Rightarrow> (bool \<times> daemon_memory) list" where
  "daemon_change r m =
     (if r_operator r = None then [(False, m)]
      else (if r_enabled r
            then (False, m) # (if file_removed r m then [(False, fmdrop (r_name r) m)] else [])
            else [])
           @ (if r_duration r = lit ''always'' then [(False, fmupd (r_name r) r m)] else [])
           @ [(True, fmupd (r_name r) r m)])"

definition daemon_delete :: "rstr \<Rightarrow> daemon_memory \<Rightarrow> (bool \<times> daemon_memory) list" where
  "daemon_delete name m =
     (case fmlookup m name of
        None \<Rightarrow> [(True, m)]
      | Some old \<Rightarrow>
          (if r_duration old = lit ''always'' then [(False, fmdrop name m)] else []) @ [(True, fmdrop name m)])"

definition daemon_results :: "notification \<Rightarrow> daemon_memory \<Rightarrow> (bool \<times> daemon_memory) list" where
  "daemon_results n m =
     (case n_rules n of
        [r] \<Rightarrow> if n_type n = ChangeRule then daemon_change r m
               else if n_type n = DeleteRule then daemon_delete (r_name r) m else []
      | _ \<Rightarrow> [])"

text \<open>The memories an answer is compatible with: a command that was not sent did nothing; one
  without an answer did nothing or had any of its results.\<close>

fun reply_memories :: "notification \<Rightarrow> sent \<Rightarrow> daemon_memory \<Rightarrow> daemon_memory list" where
  "reply_memories n (NotSent _) m = [m]"
| "reply_memories n (Waited (Inr _)) m = map snd (filter fst (daemon_results n m))"
| "reply_memories n (Waited (Inl (Rejected_by_daemon _))) m = map snd (filter (\<lambda>x. \<not> fst x) (daemon_results n m))"
| "reply_memories n (Waited (Inl _)) m = m # map snd (daemon_results n m)"

fun memories_after :: "(notification \<times> sent) list \<Rightarrow> daemon_memory \<Rightarrow> daemon_memory list" where
  "memories_after [] m = [m]"
| "memories_after ((n, s) # trace) m = concat (map (memories_after trace) (reply_memories n s m))"

text \<open>The rule commands of a trace; the toggle of a shipped default is a command of its own
  kind and has its own theory.\<close>

definition rule_trace :: "sent_trace \<Rightarrow> (notification \<times> sent) list" where
  "rule_trace trace = List.map_filter (\<lambda>(c, s). case c of Command n \<Rightarrow> Some (n, s) | SendToggle _ _ \<Rightarrow> None) trace"

lemma rule_trace_simps [simp]:
  "rule_trace [] = []" "rule_trace ((Command n, s) # tr) = (n, s) # rule_trace tr"
  by (simp_all add: rule_trace_def map_filter_simps)

lemma command_of_parts [simp]:
  "n_type (command_of a r) = a" "n_rules (command_of a r) = [r]"
  by (simp_all add: command_of_def)

lemma refused_change_effect:
  "refused_effect_of (command_of ChangeRule r) = (if disabled_always r then AppliedNotSaved else UnknownEffect)"
  by (simp add: refused_effect_of_def)

lemma may_have_applied_change:
  "may_have_applied (command_of ChangeRule r) \<longleftrightarrow>
     \<not> disabled_always r \<and> r_enabled r \<and> r_duration r = lit ''always''"
  by (auto simp: may_have_applied_def refused_change_effect)

text \<open>What a command asks for: the memory with the change made.\<close>

definition applied :: "notification \<Rightarrow> daemon_memory \<Rightarrow> daemon_memory" where
  "applied n m =
     (if n_type n = ChangeRule then fold (\<lambda>r. fmupd (r_name r) r) (n_rules n) m
      else if n_type n = DeleteRule then fold (\<lambda>r. fmdrop (r_name r)) (n_rules n) m else m)"

lemma applied_command [simp]:
  "applied (command_of ChangeRule r) m = fmupd (r_name r) r m"
  "applied (command_of DeleteRule r) m = fmdrop (r_name r) m"
  by (simp_all add: applied_def)

lemma drop_absent: "fmlookup m k = None \<Longrightarrow> fmdrop k m = m"
  by (rule fmap_ext) auto

lemma daemon_results_command [simp]:
  "daemon_results (command_of ChangeRule r) m = daemon_change r m"
  "daemon_results (command_of DeleteRule r) m = daemon_delete (r_name r) m"
  by (simp_all add: daemon_results_def)

lemma daemon_delete_result: "(ok, m') \<in> set (daemon_delete name m) \<Longrightarrow> m' = fmdrop name m"
  by (auto simp: daemon_delete_def drop_absent split: option.splits if_splits)

lemma daemon_change_result:
  assumes "(ok, m') \<in> set (daemon_change r m)"
  shows "ok \<Longrightarrow> m' = fmupd (r_name r) r m"
    and "m' \<in> {m, fmdrop (r_name r) m, fmupd (r_name r) r m}"
    and "m' \<noteq> fmupd (r_name r) r m \<Longrightarrow> file_removed r m \<or> m' = m"
    and "\<not> ok \<Longrightarrow> r_operator r \<noteq> None \<Longrightarrow> \<not> r_enabled r \<Longrightarrow> m' = fmupd (r_name r) r m"
    and "\<not> ok \<Longrightarrow> r_duration r \<noteq> lit ''always'' \<Longrightarrow> file_removed r m \<or> m' = m"
  using assms by (auto simp: daemon_change_def split: if_splits)

lemma reply_results:
  assumes "m' \<in> set (reply_memories n s m)"
  shows "step_of s = StepOk \<Longrightarrow> (True, m') \<in> set (daemon_results n m)"
    and "step_of s = StepRejected t \<Longrightarrow> (False, m') \<in> set (daemon_results n m)"
    and "step_of s = StepNotSent o' \<Longrightarrow> m' = m"
    and "m' = m \<or> (\<exists>ok. (ok, m') \<in> set (daemon_results n m))"
  using assms by (cases s rule: step_of.cases; force)+

definition keeps_others :: "rstr \<Rightarrow> daemon_memory \<Rightarrow> daemon_memory \<Rightarrow> bool" where
  "keeps_others name m m' \<longleftrightarrow> (\<forall>x. x \<noteq> name \<longrightarrow> fmlookup m' x = fmlookup m x)"

lemma reply_keeps_others:
  assumes "a \<in> {ChangeRule, DeleteRule}" "m' \<in> set (reply_memories (command_of a r) s m)"
  shows "keeps_others (r_name r) m m'"
proof -
  have change: "keeps_others (r_name r) m m'" if "(ok, m') \<in> set (daemon_change r m)" for ok
    using daemon_change_result(2)[OF that] by (auto simp: keeps_others_def)
  have delete: "keeps_others (r_name r) m m'" if "(ok, m') \<in> set (daemon_delete (r_name r) m)" for ok
    using daemon_delete_result[OF that] by (simp add: keeps_others_def)
  from assms(1) reply_results(4)[OF assms(2)] change delete show ?thesis
    by (auto simp: keeps_others_def)
qed

section \<open>What is planned\<close>

lemma gate_notification_change:
  assumes "gate_notification lib (EffectUpdate rule_id v) = Inr n \<or> gate_notification lib (EffectAdd v) = Inr n"
  obtains r where "n = command_of ChangeRule r" "rule_from_wire lib v = Inr r" "\<not> is_reserved_name (r_name r)"
proof -
  have "refuse_reserved_name x = Inr u \<Longrightarrow> \<not> is_reserved_name x" for x u
    by (auto simp: refuse_reserved_name_def is_reserved_name_def split: if_splits)
  then show thesis
    using assms that
    by (auto simp: gate_notification_def notification_for_effect_def change_for_wire_def split: sum.splits)
qed

lemma gate_notification_delete:
  assumes "gate_notification lib (EffectDelete rule_id) = Inr n"
  shows "n = delete_command rule_id \<and> validate_rule_name rule_id = Inr () \<and> \<not> is_reserved_name rule_id"
  using assms
  by (auto simp: gate_notification_def notification_for_effect_def refuse_reserved_name_def is_reserved_name_def
      delete_command_def split: sum.splits if_splits)

lemma changeable_old:
  assumes "changeable lib es cache rule_id busy = Inr old"
  obtains rules where "rc_rules cache = Some rules" "fmlookup rules rule_id = Some old" "fmlookup (rc_left_out cache) rule_id = None"
    "read_only_reason lib (curated_toggleable lib es) old = None" "rule_id |\<notin>| busy"
  using assms by (auto simp: changeable_def split: option.splits if_splits)

lemma name_free_new:
  assumes "name_free cache name busy = Inr u"
  obtains rules where "rc_rules cache = Some rules" "fmlookup rules name = None" "fmlookup (rc_left_out cache) name = None" "name |\<notin>| busy"
  using assms by (auto simp: name_free_def split: option.splits if_splits)

text \<open>The commands a plan may send, in order.\<close>

definition plan_notifications :: "rule_plan \<Rightarrow> notification list" where
  "plan_notifications p =
     (case p of
        PlanSend n \<Rightarrow> [n]
      | PlanToggleCurated _ _ \<Rightarrow> []
      | PlanAdd change _ \<Rightarrow> [change]
      | PlanEdit change old \<Rightarrow> [change, command_of ChangeRule (old\<lparr> r_created := 0 \<rparr>)]
      | PlanRename change old \<Rightarrow> [change, delete_command (r_name old)])"

text \<open>What the gates let through, by the kind of plan.\<close>

datatype planned =
  PlannedDelete rstr
| PlannedToggle rule rule
| PlannedCurated rule bool
| PlannedAdd rule
| PlannedEdit rule rule
| PlannedRename rule rule

definition plan_for :: "planned \<Rightarrow> rule_plan \<Rightarrow> bool" where
  "plan_for k p =
     (case k of
        PlannedDelete name \<Rightarrow> p = PlanSend (delete_command name)
      | PlannedToggle old new \<Rightarrow> p = PlanSend (command_of ChangeRule new)
      | PlannedCurated old enabled \<Rightarrow> p = PlanToggleCurated (r_name old) enabled
      | PlannedAdd new \<Rightarrow> p = PlanAdd (command_of ChangeRule new) (r_name new)
      | PlannedEdit old new \<Rightarrow> p = PlanEdit (command_of ChangeRule new) old
      | PlannedRename old new \<Rightarrow> p = PlanRename (command_of ChangeRule new) old)"

text \<open>The rule and the change are those the GUI asked for.\<close>

definition asked_for :: "regex_lib \<Rightarrow> rule_command \<Rightarrow> planned \<Rightarrow> bool" where
  "asked_for lib c k =
     (case (c, k) of
        (CommandDelete name, PlannedDelete name') \<Rightarrow> name' = name
      | (CommandAdd v, PlannedAdd new) \<Rightarrow> rule_from_wire lib v = Inr new
      | (CommandUpdate rule_id v, PlannedToggle old new) \<Rightarrow> r_name old = rule_id \<and> rule_from_wire lib v = Inr new
      | (CommandUpdate rule_id v, PlannedEdit old new) \<Rightarrow> r_name old = rule_id \<and> rule_from_wire lib v = Inr new
      | (CommandUpdate rule_id v, PlannedRename old new) \<Rightarrow> r_name old = rule_id \<and> rule_from_wire lib v = Inr new
      | (CommandUpdate rule_id v, PlannedCurated old enabled) \<Rightarrow> r_name old = rule_id
          \<and> (\<exists>wanted. rule_from_wire lib v = Inr wanted \<and> canonical lib wanted = canonical lib old \<and> r_enabled wanted = enabled)
      | _ \<Rightarrow> False)"

definition may_change :: "regex_lib \<Rightarrow> curated_entry list \<Rightarrow> rules_cache \<Rightarrow> busy_names \<Rightarrow> rule \<Rightarrow> bool" where
  "may_change lib es cache busy old \<longleftrightarrow>
     (\<exists>rules. rc_rules cache = Some rules \<and> fmlookup rules (r_name old) = Some old)
     \<and> fmlookup (rc_left_out cache) (r_name old) = None
     \<and> read_only_reason lib (curated_toggleable lib es) old = None \<and> r_name old |\<notin>| busy"

definition may_create :: "regex_lib \<Rightarrow> rules_cache \<Rightarrow> busy_names \<Rightarrow> rstr \<Rightarrow> bool" where
  "may_create lib cache busy name \<longleftrightarrow>
     (\<exists>rules. rc_rules cache = Some rules \<and> fmlookup rules name = None)
     \<and> fmlookup (rc_left_out cache) name = None \<and> name |\<notin>| busy"

definition good_change :: "regex_lib \<Rightarrow> rule \<Rightarrow> bool" where
  "good_change lib new \<longleftrightarrow>
     (\<exists>v. rule_from_wire lib v = Inr new) \<and> \<not> is_reserved_name (r_name new)"

definition may_toggle_curated ::
  "regex_lib \<Rightarrow> curated_entry list \<Rightarrow> rules_cache \<Rightarrow> busy_names \<Rightarrow> rule \<Rightarrow> bool \<Rightarrow> bool" where
  "may_toggle_curated lib es cache busy old enabled \<longleftrightarrow>
     (\<exists>rules. rc_rules cache = Some rules \<and> fmlookup rules (r_name old) = Some old)
     \<and> is_reserved_curated_name (r_name old) \<and> curated_toggleable lib es old \<and> r_name old |\<notin>| busy
     \<and> (enabled \<longrightarrow> (\<forall>e. entry_for_rule_name es (r_name old) = Some e \<longrightarrow> \<not> broad e))
     \<and> (enabled \<and> \<not> r_enabled old \<longrightarrow> enable_problems lib old = [])"

definition warranted ::
  "regex_lib \<Rightarrow> curated_entry list \<Rightarrow> rules_cache \<Rightarrow> busy_names \<Rightarrow> transport \<Rightarrow> bool \<Rightarrow> planned \<Rightarrow> bool" where
  "warranted lib es cache busy transport inert k =
     (case k of
        PlannedDelete name \<Rightarrow> validate_rule_name name = Inr () \<and> \<not> is_reserved_name name \<and> name |\<notin>| busy
      | PlannedToggle old new \<Rightarrow>
          may_change lib es cache busy old \<and> good_change lib new \<and> r_name new = r_name old \<and> only_enabled_differs old new
          \<and> (r_enabled new \<and> \<not> r_enabled old \<longrightarrow> enable_problems lib new = [])
      | PlannedCurated old enabled \<Rightarrow> \<not> inert \<and> may_toggle_curated lib es cache busy old enabled
      | PlannedAdd new \<Rightarrow>
          transport \<noteq> Tcp \<and> may_create lib cache busy (r_name new) \<and> good_change lib new
          \<and> validate_user_rule lib new Editor = Inr ()
      | PlannedEdit old new \<Rightarrow>
          transport \<noteq> Tcp \<and> may_change lib es cache busy old \<and> good_change lib new \<and> r_name new = r_name old
          \<and> validate_user_rule lib new Editor = Inr ()
      | PlannedRename old new \<Rightarrow>
          transport \<noteq> Tcp \<and> may_change lib es cache busy old \<and> good_change lib new \<and> r_name new \<noteq> r_name old
          \<and> may_create lib cache busy (r_name new) \<and> validate_user_rule lib new Editor = Inr ())"

lemma planned_add:
  assumes "plan_add lib v on_tcp cache busy = Inr p"
  obtains new where "p = PlanAdd (command_of ChangeRule new) (r_name new)" "\<not> on_tcp" "may_create lib cache busy (r_name new)"
    "good_change lib new" "validate_user_rule lib new Editor = Inr ()" "rule_from_wire lib v = Inr new"
proof -
  obtain new u n where parts: "\<not> on_tcp" "check_wire_rule lib v Editor = Inr new" "name_free cache (r_name new) busy = Inr u"
      "gate_notification lib (EffectAdd v) = Inr n" "p = PlanAdd n (r_name new)"
    using assms by (auto simp: plan_add_def split: if_splits sum.splits wire_problem.splits)
  obtain r where r: "n = command_of ChangeRule r" "rule_from_wire lib v = Inr r" "\<not> is_reserved_name (r_name r)"
    using gate_notification_change parts(4) by blast
  have new: "r = new" "validate_user_rule lib new Editor = Inr ()"
    using parts(2) r(2) by (auto simp: check_wire_rule_def split: sum.splits)
  show thesis
    using that[of new] parts(1,5) r new name_free_new[OF parts(3)] by (auto simp: may_create_def good_change_def)
qed

lemma validate_unit: "validate_user_rule lib r pr = Inr u \<Longrightarrow> validate_user_rule lib r pr = Inr ()"
  by simp

lemma planned_update:
  assumes "plan_update lib es rule_id v on_tcp inert cache busy = Inr p" "list_inv cache"
    and "\<And>name e. p \<noteq> PlanToggleCurated name e"
  obtains old new where "may_change lib es cache busy old" "good_change lib new" "r_name old = rule_id" "rule_from_wire lib v = Inr new"
    "p = PlanSend (command_of ChangeRule new) \<and> r_name new = r_name old \<and> only_enabled_differs old new
        \<and> (r_enabled new \<and> \<not> r_enabled old \<longrightarrow> enable_problems lib new = [])
     \<or> \<not> on_tcp \<and> validate_user_rule lib new Editor = Inr ()
        \<and> (p = PlanEdit (command_of ChangeRule new) old \<and> r_name new = r_name old
           \<or> p = PlanRename (command_of ChangeRule new) old \<and> r_name new \<noteq> r_name old \<and> may_create lib cache busy (r_name new))"
proof -
  have "plan_curated_toggle lib es cache rule_id v busy \<noteq> Inr p"
    using assms(3) by (auto simp: plan_curated_toggle_def Let_def split: option.splits if_splits sum.splits)
  then obtain old n where parts: "\<not> is_reserved_curated_name rule_id" "changeable lib es cache rule_id busy = Inr old"
      "gate_notification lib (EffectUpdate rule_id v) = Inr n"
    using assms(1) by (auto simp: plan_update_def split: if_splits sum.splits)
  obtain new where new: "n = command_of ChangeRule new" "rule_from_wire lib v = Inr new" "\<not> is_reserved_name (r_name new)"
    using gate_notification_change parts(3) by blast
  obtain rules where rules: "rc_rules cache = Some rules" "fmlookup rules rule_id = Some old" "fmlookup (rc_left_out cache) rule_id = None"
      "read_only_reason lib (curated_toggleable lib es) old = None" "rule_id |\<notin>| busy"
    using changeable_old[OF parts(2)] .
  have name: "r_name old = rule_id" using assms(2) rules(1,2) by (auto simp: list_inv_def)
  have may: "may_change lib es cache busy old" using rules by (auto simp: may_change_def name)
  have good: "good_change lib new" using new by (auto simp: good_change_def)
  have free: "may_create lib cache busy (r_name new)" if "name_free cache (r_name new) busy = Inr u" for u
    using name_free_new[OF that] by (auto simp: may_create_def)
  have "p = PlanSend (command_of ChangeRule new) \<and> r_name new = r_name old \<and> only_enabled_differs old new
        \<and> (r_enabled new \<and> \<not> r_enabled old \<longrightarrow> enable_problems lib new = [])
     \<or> \<not> on_tcp \<and> validate_user_rule lib new Editor = Inr ()
        \<and> (p = PlanEdit (command_of ChangeRule new) old \<and> r_name new = r_name old
           \<or> p = PlanRename (command_of ChangeRule new) old \<and> r_name new \<noteq> r_name old \<and> may_create lib cache busy (r_name new))"
    using assms(1) parts new(1) free
    by (auto simp: plan_update_def name may_turn_on_def Let_def split: if_splits sum.splits)
  then show thesis using that may good name new(2) by blast
qed

lemma planned_curated:
  assumes "plan_update lib es rule_id v on_tcp inert cache busy = Inr (PlanToggleCurated name enabled)" "list_inv cache"
  obtains old where "name = r_name old" "r_name old = rule_id" "\<not> inert" "may_toggle_curated lib es cache busy old enabled"
    "requested_toggle lib old v = Some enabled"
proof -
  have reserved: "is_reserved_curated_name rule_id" "\<not> inert"
    and plan: "plan_curated_toggle lib es cache rule_id v busy = Inr (PlanToggleCurated name enabled)"
    using assms(1) by (auto simp: plan_update_def Let_def may_turn_on_def split: if_splits sum.splits)
  then obtain rules old where old: "rc_rules cache = Some rules" "fmlookup rules rule_id = Some old"
    by (auto simp: plan_curated_toggle_def split: option.splits)
  have "r_name old = rule_id" using assms(2) old by (auto simp: list_inv_def)
  moreover have "name = rule_id" "curated_toggleable lib es old" "requested_toggle lib old v = Some enabled" "rule_id |\<notin>| busy"
    "enabled \<and> \<not> r_enabled old \<longrightarrow> enable_problems lib old = []"
    "enabled \<longrightarrow> (\<forall>e. entry_for_rule_name es rule_id = Some e \<longrightarrow> \<not> broad e)"
    using plan old by (auto simp: plan_curated_toggle_def may_turn_on_def Let_def split: option.splits if_splits sum.splits)
  ultimately show thesis using that[of old] reserved old by (simp add: may_toggle_curated_def)
qed

lemma planned_kind:
  assumes "gates_plan lib es c transport cache busy inert = Inr p" "list_inv cache"
  obtains k where "plan_for k p" "asked_for lib c k" "warranted lib es cache busy transport inert k"
proof (cases "\<exists>name e. p = PlanToggleCurated name e")
  case True
  then obtain name enabled where p: "p = PlanToggleCurated name enabled" by blast
  then obtain rule_id v where c: "c = CommandUpdate rule_id v"
    using assms(1) by (cases c) (auto simp: gates_plan_def plan_add_def split: if_splits sum.splits wire_problem.splits)
  then have "plan_update lib es rule_id v (transport = Tcp) inert cache busy = Inr (PlanToggleCurated name enabled)"
    using assms(1) p by (simp add: gates_plan_def)
  then show thesis
    by (rule planned_curated[OF _ assms(2)])
      (rule that[of "PlannedCurated _ enabled"],
       auto simp: p c plan_for_def warranted_def asked_for_def requested_toggle_def split: sum.splits if_splits)
next
  case False
  show thesis
  proof (cases c)
    case (CommandDelete name)
    then show thesis
      using assms(1) that[of "PlannedDelete name"] gate_notification_delete[of lib name]
      by (auto simp: gates_plan_def plan_for_def asked_for_def warranted_def split: if_splits sum.splits)
  next
    case (CommandAdd v)
    then have "plan_add lib v (transport = Tcp) cache busy = Inr p" using assms(1) by (simp add: gates_plan_def)
    then show thesis
      by (rule planned_add) (rule that[of "PlannedAdd _"], auto simp: CommandAdd plan_for_def asked_for_def warranted_def)
  next
    case (CommandUpdate rule_id v)
    then have upd: "plan_update lib es rule_id v (transport = Tcp) inert cache busy = Inr p" using assms(1) by (simp add: gates_plan_def)
    obtain old new where may: "may_change lib es cache busy old" "good_change lib new" "r_name old = rule_id" "rule_from_wire lib v = Inr new" and
      cases: "p = PlanSend (command_of ChangeRule new) \<and> r_name new = r_name old \<and> only_enabled_differs old new
          \<and> (r_enabled new \<and> \<not> r_enabled old \<longrightarrow> enable_problems lib new = [])
        \<or> \<not> transport = Tcp \<and> validate_user_rule lib new Editor = Inr ()
          \<and> (p = PlanEdit (command_of ChangeRule new) old \<and> r_name new = r_name old
             \<or> p = PlanRename (command_of ChangeRule new) old \<and> r_name new \<noteq> r_name old \<and> may_create lib cache busy (r_name new))"
      using planned_update[OF upd assms(2)] False by metis
    from cases show thesis
    proof (elim disjE conjE)
      assume "p = PlanSend (command_of ChangeRule new)" "r_name new = r_name old" "only_enabled_differs old new"
        "r_enabled new \<and> \<not> r_enabled old \<longrightarrow> enable_problems lib new = []"
      then show thesis using that[of "PlannedToggle old new"] may by (simp add: CommandUpdate plan_for_def asked_for_def warranted_def)
    next
      assume "\<not> transport = Tcp" "validate_user_rule lib new Editor = Inr ()" "p = PlanEdit (command_of ChangeRule new) old" "r_name new = r_name old"
      then show thesis using that[of "PlannedEdit old new"] may by (simp add: CommandUpdate plan_for_def asked_for_def warranted_def)
    next
      assume "\<not> transport = Tcp" "validate_user_rule lib new Editor = Inr ()" "p = PlanRename (command_of ChangeRule new) old"
        "r_name new \<noteq> r_name old" "may_create lib cache busy (r_name new)"
      then show thesis using that[of "PlannedRename old new"] may by (simp add: CommandUpdate plan_for_def asked_for_def warranted_def)
    qed
  qed
qed

section \<open>What is planned can be sent\<close>


lemma from_wire_sendable:
  assumes "rule_from_wire lib v = Inr r"
  shows "validate_rule_name (r_name r) = Inr ()" "\<exists>op. r_operator r = Some op \<and> validate_operator lib op = Inr ()"
  using assms by (auto simp: rule_from_wire_def split: option.splits sum.splits if_splits)




section \<open>A rename leaves one of its rules\<close>

lemma step_not_sent: "step_of s = StepNotSent outcome \<Longrightarrow> outcome = OutcomeNoDaemon \<or> (\<exists>ps. outcome = OutcomeRefused ps)"
  by (cases s rule: step_of.cases) (auto simp: send_error_outcome_def split: if_splits)

lemma reply_delete:
  assumes "m' \<in> set (reply_memories (delete_command name) s m)"
  shows "m' = m \<or> m' = fmdrop name m"
    and "step_of s = StepOk \<or> step_of s = StepRejected t \<Longrightarrow> m' = fmdrop name m"
  using reply_results[OF assms] daemon_delete_result[of _ m' name m]
  by (auto simp: delete_command_def named_rule_def)

lemma reply_change:
  assumes "m' \<in> set (reply_memories (command_of ChangeRule new) s m)"
  shows "step_of s = StepOk \<Longrightarrow> m' = fmupd (r_name new) new m"
    and "step_of s = StepRejected t \<Longrightarrow> r_duration new \<noteq> lit ''always'' \<Longrightarrow> \<not> file_removed new m \<Longrightarrow> m' = m"
    and "step_of s = StepRejected t \<Longrightarrow> r_operator new \<noteq> None \<Longrightarrow> \<not> r_enabled new \<Longrightarrow> m' = fmupd (r_name new) new m"
    and "\<not> file_removed new m \<Longrightarrow> m' \<in> {m, fmupd (r_name new) new m}"
  using reply_results[OF assms] daemon_change_result[of _ m' new m] by auto

definition renamed_memory :: "rule \<Rightarrow> rule \<Rightarrow> daemon_memory \<Rightarrow> daemon_memory" where
  "renamed_memory old new m = fmdrop (r_name old) (fmupd (r_name new) new m)"

lemma rename_first_fails:
  assumes "step_of (world [] (Command (command_of ChangeRule new))) \<noteq> StepOk" "r_name new \<noteq> r_name old"
    and "m' \<in> set (memories_after (take k (rule_trace (snd (rename_run world (command_of ChangeRule new) old)))) m)"
  shows "keeps_others (r_name new) m m'"
proof -
  let ?c = "command_of ChangeRule new"
  have "rule_trace (snd (rename_run world ?c old)) = [(?c, world [] (Command ?c))]"
    using assms(1) by (simp add: rename_run_def Let_def split: command_step.split)
  then show ?thesis
    using assms(3) reply_keeps_others[of ChangeRule m' new] by (cases k) (auto simp: keeps_others_def)
qed

lemma rename_first_ok:
  assumes "step_of (world [] (Command (command_of ChangeRule new))) = StepOk"
    and "m' \<in> set (memories_after (take k (rule_trace (snd (rename_run world (command_of ChangeRule new) old)))) m)"
  shows "m' \<in> {m, fmupd (r_name new) new m, renamed_memory old new m}"
proof -
  let ?c = "command_of ChangeRule new"
  let ?d = "delete_command (r_name old)"
  have trace: "rule_trace (snd (rename_run world ?c old)) =
      [(?c, world [] (Command ?c)), (?d, world [(Command ?c, world [] (Command ?c))] (Command ?d))]"
    using assms(1) by (simp add: rename_run_def Let_def)
  consider "k = 0" | "k = 1" | j where "k = Suc (Suc j)" by (cases k; cases "k - 1") auto
  then show ?thesis
    using assms(2) unfolding trace renamed_memory_def
    by cases (auto simp: dest: reply_delete(1) reply_change(1)[OF _ assms(1)])
qed

lemma rename_outcome:
  assumes "m' \<in> set (memories_after (rule_trace (snd (rename_run world (command_of ChangeRule new) old))) m)"
    and "fst (rename_run world (command_of ChangeRule new) old) = outcome"
  shows "outcome \<in> {OutcomeOk, OutcomeOkWithNote note t} \<Longrightarrow> m' = renamed_memory old new m"
    and "outcome \<in> {OutcomeNoDaemon, OutcomeRefused ps} \<Longrightarrow> m' = m"
    and "outcome = OutcomeUnsure (BOTH_EXIST d) \<Longrightarrow> m' = fmupd (r_name new) new m \<and> d = deciding old new"
    and "outcome = OutcomeUnsure (BOTH_MAY_EXIST d) \<Longrightarrow>
      m' \<in> {fmupd (r_name new) new m, renamed_memory old new m} \<and> d = deciding old new"
    and "outcome = OutcomeRejected t' note' \<Longrightarrow> fmlookup m (r_name new) = None \<Longrightarrow>
      m' = m \<or> r_duration new = lit ''always'' \<and> m' = fmupd (r_name new) new m"
    and "outcome \<noteq> OutcomeTimeout" "outcome \<noteq> OutcomeUnsure UNANSWERED_LOST" "outcome \<noteq> OutcomeUnsure (MAY_HAVE_APPLIED t')"
proof -
  let ?c = "command_of ChangeRule new"
  let ?d = "delete_command (r_name old)"
  define s where "s = world [] (Command ?c)"
  define s2 where "s2 = world [(Command ?c, s)] (Command ?d)"
  have new: "file_removed new m \<Longrightarrow> fmlookup m (r_name new) \<noteq> None" by (simp add: file_removed_def split: option.splits)
  show "outcome \<in> {OutcomeOk, OutcomeOkWithNote note t} \<Longrightarrow> m' = renamed_memory old new m"
    "outcome \<in> {OutcomeNoDaemon, OutcomeRefused ps} \<Longrightarrow> m' = m"
    "outcome = OutcomeUnsure (BOTH_EXIST d) \<Longrightarrow> m' = fmupd (r_name new) new m \<and> d = deciding old new"
    "outcome = OutcomeUnsure (BOTH_MAY_EXIST d) \<Longrightarrow>
      m' \<in> {fmupd (r_name new) new m, renamed_memory old new m} \<and> d = deciding old new"
    "outcome = OutcomeRejected t' note' \<Longrightarrow> fmlookup m (r_name new) = None \<Longrightarrow>
      m' = m \<or> r_duration new = lit ''always'' \<and> m' = fmupd (r_name new) new m"
    "outcome \<noteq> OutcomeTimeout" "outcome \<noteq> OutcomeUnsure UNANSWERED_LOST" "outcome \<noteq> OutcomeUnsure (MAY_HAVE_APPLIED t')"
    using assms new reply_change[of m' new s m] reply_results(3)[of m' ?c s m]
    by (auto simp: rename_run_def Let_def renamed_memory_def s_def[symmetric] s2_def[symmetric]
        split: command_step.splits dest: step_not_sent reply_change(1) reply_delete reply_results(3))
qed

text \<open>
  What the answer to a rename says of the daemon's memory. A plain rejection leaves the old
  rule as it was; it does not say that the renamed rule is not there, since a permanent rule
  whose file could not be written applies although the change was answered with an error.
\<close>

definition rename_answered :: "rule \<Rightarrow> rule \<Rightarrow> command_outcome \<Rightarrow> daemon_memory \<Rightarrow> daemon_memory \<Rightarrow> bool" where
  "rename_answered old new outcome m m' =
     (case outcome of
        OutcomeOk \<Rightarrow> m' = renamed_memory old new m
      | OutcomeOkWithNote _ _ \<Rightarrow> m' = renamed_memory old new m
      | OutcomeNoDaemon \<Rightarrow> m' = m
      | OutcomeRefused _ \<Rightarrow> m' = m
      | OutcomeRejected _ _ \<Rightarrow>
          fmlookup m' (r_name old) = fmlookup m (r_name old)
          \<and> (m' = m \<or> r_duration new = lit ''always'' \<and> m' = fmupd (r_name new) new m \<or> fmlookup m (r_name new) \<noteq> None)
      | OutcomeUnsure (BOTH_EXIST d) \<Rightarrow> d = deciding old new \<and> m' = fmupd (r_name new) new m
      | OutcomeUnsure (BOTH_MAY_EXIST d) \<Rightarrow>
          d = deciding old new \<and> (m' = fmupd (r_name new) new m \<or> m' = renamed_memory old new m)
      | OutcomeUnsure NEW_UNCONFIRMED \<Rightarrow> fmlookup m' (r_name old) = fmlookup m (r_name old)
      | _ \<Rightarrow> False)"

lemma rename_answers:
  assumes mem: "m' \<in> set (memories_after (rule_trace (snd (rename_run world (command_of ChangeRule new) old))) m)"
    and names: "r_name new \<noteq> r_name old"
  shows "rename_answered old new (fst (rename_run world (command_of ChangeRule new) old)) m m'"
proof -
  let ?c = "command_of ChangeRule new"
  have kept: "fmlookup m' (r_name old) = fmlookup m (r_name old)" if "step_of (world [] (Command ?c)) \<noteq> StepOk"
    using rename_first_fails[where m' = m' and m = m and world = world and old = old and new = new
        and k = "length (rule_trace (snd (rename_run world ?c old)))"] that mem names
    by (simp add: keeps_others_def)
  have failed: "step_of (world [] (Command ?c)) \<noteq> StepOk"
    if "fst (rename_run world ?c old) = OutcomeRejected t nt \<or> fst (rename_run world ?c old) = OutcomeUnsure NEW_UNCONFIRMED" for t nt
    using that by (auto simp: rename_run_def Let_def split: command_step.splits)
  note outs = rename_outcome[OF mem refl]
  show ?thesis
  proof (cases "fst (rename_run world ?c old)")
    case (OutcomeRejected t nt)
    then show ?thesis using kept failed outs(5)[OF OutcomeRejected] by (auto simp: rename_answered_def)
  next
    case (OutcomeUnsure u)
    then show ?thesis using kept failed outs(3,4,7,8) by (cases u) (auto simp: rename_answered_def)
  qed (use outs(1,2,6) in \<open>auto simp: rename_answered_def\<close>)
qed

text \<open>
  C23. A rename never leaves neither rule. Against the stock daemon, whatever it answers and at
  every point of the run, the old rule is still in the daemon's memory unchanged or the
  renamed one is there as asked, and no third rule is touched. The answer says what is there
  then: after success, with or without a note, exactly the renamed rule is there in place of
  the old one; when nothing could be sent nothing has changed; when it says both exist, both
  do, and when both may exist the renamed rule does; an unconfirmed rename and a rejected one
  leave the old rule as it was. A rejection does not mean that nothing changed: if the new
  name was free, either nothing changed, or the renamed rule is permanent and in memory beside
  the old one, although \<open>rename.rs\<close> says that only the old rule is left then
  (\<open>refused_rename_applies\<close> below).
\<close>

theorem rename_never_leaves_neither:
  assumes "gates_plan lib es c transport cache busy inert = Inr (PlanRename change old)" "list_inv cache"
    and "fmlookup m (r_name old) = Some x"
  shows "(\<forall>k. \<forall>m' \<in> set (memories_after (take k (rule_trace (cr_trace (run_plan world (PlanRename change old))))) m).
            (fmlookup m' (r_name old) = Some x \<or> fmlookup m' (r_name (hd (n_rules change))) = Some (hd (n_rules change)))
            \<and> (\<forall>name. name \<noteq> r_name old \<and> name \<noteq> r_name (hd (n_rules change)) \<longrightarrow> fmlookup m' name = fmlookup m name))
    \<and> (\<forall>m' \<in> set (memories_after (rule_trace (cr_trace (run_plan world (PlanRename change old)))) m).
          rename_answered old (hd (n_rules change)) (cr_outcome (run_plan world (PlanRename change old))) m m')"
proof -
  obtain k where "plan_for k (PlanRename change old)" "warranted lib es cache busy transport inert k"
    using planned_kind[OF assms(1,2)] by metis
  then obtain new where new: "change = command_of ChangeRule new" "r_name new \<noteq> r_name old"
    by (cases k) (auto simp: plan_for_def warranted_def)
  have run: "cr_trace (run_plan world (PlanRename change old)) = snd (rename_run world change old)"
    "cr_outcome (run_plan world (PlanRename change old)) = fst (rename_run world change old)"
    by (simp_all add: finished_def split: prod.split)
  have "(fmlookup m' (r_name old) = Some x \<or> fmlookup m' (r_name new) = Some new)
      \<and> (\<forall>name. name \<noteq> r_name old \<and> name \<noteq> r_name new \<longrightarrow> fmlookup m' name = fmlookup m name)"
    if "m' \<in> set (memories_after (take k (rule_trace (snd (rename_run world (command_of ChangeRule new) old)))) m)" for k m'
    using rename_first_fails[OF _ new(2) that] rename_first_ok[OF _ that] assms(3) new(2)
    by (cases "step_of (world [] (Command (command_of ChangeRule new))) = StepOk")
      (auto simp: keeps_others_def renamed_memory_def)
  moreover have "rename_answered old new (fst (rename_run world (command_of ChangeRule new) old)) m m'"
    if "m' \<in> set (memories_after (rule_trace (snd (rename_run world (command_of ChangeRule new) old))) m)" for m'
    by (rule rename_answers[OF that new(2)])
  moreover have hd: "hd (n_rules change) = new" using new(1) by simp
  ultimately show ?thesis unfolding run hd unfolding new(1) by blast
qed

section \<open>Answers are true\<close>

text \<open>The rule a plan is about, as the daemon has it while the bridge's list is right.\<close>

definition in_step :: "rules_cache \<Rightarrow> daemon_memory \<Rightarrow> rule_plan \<Rightarrow> bool" where
  "in_step cache m p \<longleftrightarrow>
     (\<forall>rules. rc_rules cache = Some rules \<longrightarrow>
        (\<forall>n \<in> set (plan_notifications p). \<forall>r \<in> set (n_rules n). fmlookup m (r_name r) = fmlookup rules (r_name r)))"

text \<open>A command of one step, and the answer given: \<open>a\<close> as sent, with the note it may carry.\<close>

lemma one_step_answer:
  assumes "m' \<in> set (reply_memories (command_of ChangeRule new) s m)"
    and "\<not> file_removed new m" "r_operator new \<noteq> None"
    and "outcome = if_refused_answer (if_refused_of (command_of ChangeRule new)) (sent_outcome s) note"
  shows "outcome \<in> {OutcomeOk, OutcomeOkWithNote note' t} \<Longrightarrow> m' = applied (command_of ChangeRule new) m"
    and "outcome \<in> {OutcomeNoDaemon, OutcomeRefused ps, OutcomeRejected t nt} \<Longrightarrow> m' = m"
    and "m' = m \<or> m' = applied (command_of ChangeRule new) m"
  using assms reply_change[OF assms(1)] reply_results(3)[OF assms(1)]
  by (cases s rule: step_of.cases;
      auto simp: if_refused_answer_def if_refused_of_def applied_but_not_saved_def disabled_always_def may_have_applied_change
        send_error_outcome_def refusal_def refused_change_effect split: if_splits if_refused.splits)+

lemma toggle_keeps_duration: "only_enabled_differs old new \<Longrightarrow> r_duration new = r_duration old"
  by (auto simp: only_enabled_differs_def changed_fields_def split: if_splits)

definition answered :: "rule_plan \<Rightarrow> command_run \<Rightarrow> daemon_memory \<Rightarrow> daemon_memory \<Rightarrow> bool" where
  "answered p run m m' \<longleftrightarrow>
     (case cr_outcome run of
        OutcomeOk \<Rightarrow> m' = applied (hd (plan_notifications p)) m
      | OutcomeOkWithNote _ _ \<Rightarrow> m' = applied (hd (plan_notifications p)) m
      | OutcomeNoDaemon \<Rightarrow> m' = m
      | OutcomeRefused _ \<Rightarrow> m' = m
      | OutcomeRejected _ None \<Rightarrow> m' = m
      | OutcomeRejected _ (Some RESTORED) \<Rightarrow> m' = applied (plan_notifications p ! 1) m
      | OutcomeTimeout \<Rightarrow> m' = m \<or> m' = applied (hd (plan_notifications p)) m
      | OutcomeUnsure (MAY_HAVE_APPLIED _) \<Rightarrow> m' = m \<or> m' = applied (hd (plan_notifications p)) m
      | _ \<Rightarrow> True)"

definition plan_name :: "rule_plan \<Rightarrow> rstr" where
  "plan_name p = r_name (hd (n_rules (hd (plan_notifications p))))"

definition not_lost :: "rule_plan \<Rightarrow> command_run \<Rightarrow> daemon_memory \<Rightarrow> daemon_memory \<Rightarrow> bool" where
  "not_lost p run m m' \<longleftrightarrow>
     (fmlookup m' (plan_name p) = None \<longrightarrow>
        fmlookup m (plan_name p) = None \<or> n_type (hd (plan_notifications p)) = DeleteRule \<or> cr_forget run)"

lemma finished_parts [simp]:
  "cr_outcome (finished o' tr f) = o'" "cr_trace (finished o' tr f) = tr" "cr_forget (finished o' tr f) = f"
  by (simp_all add: finished_def)

lemma deleted_answered:
  assumes "m' \<in> set (memories_after (rule_trace (cr_trace (run_plan world (PlanSend (delete_command name))))) m)"
  shows "answered (PlanSend (delete_command name)) (run_plan world (PlanSend (delete_command name))) m m'"
proof -
  have "m' \<in> set (reply_memories (delete_command name) (world [] (Command (delete_command name))) m)"
    using assms by (simp add: send_run_def Let_def split: command_outcome.splits if_splits)
  note del = reply_delete[OF this] reply_results(3)[OF this]
  show ?thesis
    using del
    by (cases "world [] (Command (delete_command name))" rule: step_of.cases)
      (auto simp: send_run_def Let_def delete_command_def named_rule_def answered_def plan_notifications_def
        if_refused_answer_def send_error_outcome_def split: if_splits)
qed

lemma one_step_run:
  assumes "run = finished (if_refused_answer (if_refused_of (command_of ChangeRule new)) (sent_outcome s) note) [(Command (command_of ChangeRule new), s)] False"
    and "hd (plan_notifications p) = command_of ChangeRule new"
    and "m' \<in> set (memories_after (rule_trace (cr_trace run)) m)"
    and "\<not> file_removed new m" "r_operator new \<noteq> None"
  shows "answered p run m m' \<and> not_lost p run m m' \<and> keeps_others (r_name new) m m'"
proof -
  define oc where oc: "oc = if_refused_answer (if_refused_of (command_of ChangeRule new)) (sent_outcome s) note"
  have mem: "m' \<in> set (reply_memories (command_of ChangeRule new) s m)" using assms(1,3) by simp
  note step = one_step_answer[OF mem assms(4,5) oc]
  have out: "cr_outcome run = oc" "cr_forget run = False" using assms(1) oc by simp_all
  have "nt = None" if "oc = OutcomeRejected t nt" for t nt
    using that unfolding oc by (cases s rule: step_of.cases)
      (auto simp: if_refused_answer_def send_error_outcome_def split: if_splits if_refused.splits)
  then have "answered p run m m'"
    using step by (cases oc) (auto simp: answered_def out assms(2) split: unsure_reason.split)
  then show ?thesis
    using step(3) reply_keeps_others[OF _ mem] by (auto simp: not_lost_def plan_name_def out assms(2))
qed

lemma send_run_change:
  "send_run world (command_of ChangeRule new) =
     finished (if_refused_answer (if_refused_of (command_of ChangeRule new)) (sent_outcome (world [] (Command (command_of ChangeRule new)))) TURNED_OFF_FILE_KEPT)
       [(Command (command_of ChangeRule new), world [] (Command (command_of ChangeRule new)))] False"
  by (simp add: send_run_def Let_def split: command_outcome.split)

lemma restored_memory:
  assumes "keeps_others (r_name old) m m1"
  shows "applied (command_of ChangeRule (old\<lparr> r_created := 0 \<rparr>)) m1 = applied (command_of ChangeRule (old\<lparr> r_created := 0 \<rparr>)) m"
  using assms by (auto simp: keeps_others_def intro: fmap_ext)

lemma edited_lost_answered:
  assumes "loses_file old new" "r_name new = r_name old" "fmlookup m (r_name old) = Some old"
    and "m' \<in> set (memories_after (rule_trace (cr_trace (run_plan world (PlanEdit (command_of ChangeRule new) old)))) m)"
  shows "answered (PlanEdit (command_of ChangeRule new) old) (run_plan world (PlanEdit (command_of ChangeRule new) old)) m m'
    \<and> not_lost (PlanEdit (command_of ChangeRule new) old) (run_plan world (PlanEdit (command_of ChangeRule new) old)) m m'
    \<and> keeps_others (r_name new) m m'"
proof -
  let ?c = "command_of ChangeRule new"
  let ?r = "command_of ChangeRule (old\<lparr> r_created := 0 \<rparr>)"
  obtain R where R: "run_plan world (PlanEdit ?c old) = R" by blast
  define s where "s = world [] (Command ?c)"
  have mem: "m' \<in> set (memories_after (rule_trace (cr_trace R)) m)" using assms(4) unfolding R .
  have first: "keeps_others (r_name new) m m1" if "m1 \<in> set (reply_memories ?c s m)" for m1
    using reply_keeps_others[of ChangeRule m1 new s m] that by simp
  have "answered (PlanEdit ?c old) R m m' \<and> not_lost (PlanEdit ?c old) R m m' \<and> keeps_others (r_name new) m m'"
  proof (cases "step_of s")
    case (StepRejected t)
    define s2 where "s2 = world [(Command ?c, s)] (Command ?r)"
    have run: "cr_trace R = [(Command ?c, s), (Command ?r, s2)]" "cr_forget R = (step_of s2 \<noteq> StepOk)"
      "cr_outcome R = OutcomeRejected (display_reason t) (Some (if step_of s2 = StepOk then RESTORED else GONE))"
      using StepRejected assms(1) by (simp_all add: R[symmetric] edit_run_def Let_def s_def s2_def)
    obtain m1 where m1: "m1 \<in> set (reply_memories ?c s m)" "m' \<in> set (reply_memories ?r s2 m1)"
      using mem unfolding run(1) by auto
    have others: "keeps_others (r_name old) m m1" using first[OF m1(1)] assms(2) by simp
    moreover have "keeps_others (r_name old) m1 m'" using reply_keeps_others[OF _ m1(2)] by simp
    ultimately have "keeps_others (r_name new) m m'" using assms(2) by (simp add: keeps_others_def)
    moreover have "m' = applied ?r m" if "step_of s2 = StepOk"
      using reply_change(1)[OF m1(2) that] restored_memory[OF others] by simp
    ultimately show ?thesis
      using assms(2)
      by (auto simp: answered_def not_lost_def plan_name_def plan_notifications_def run(2,3))
  next
    case StepOk
    then have "cr_trace R = [(Command ?c, s)]" "cr_outcome R = OutcomeOk" by (simp_all add: R[symmetric] edit_run_def Let_def s_def)
    then show ?thesis
      using mem reply_change(1)[OF _ StepOk, of m' new m] first
      by (auto simp: answered_def not_lost_def plan_name_def plan_notifications_def)
  next
    case StepUnanswered
    then have "cr_trace R = [(Command ?c, s)]" "cr_outcome R = OutcomeUnsure UNANSWERED_LOST" "cr_forget R"
      using assms(1) by (simp_all add: R[symmetric] edit_run_def Let_def s_def)
    then show ?thesis using mem first by (auto simp: answered_def not_lost_def)
  next
    case (StepNotSent outcome)
    then have "cr_trace R = [(Command ?c, s)]" "cr_outcome R = outcome" by (simp_all add: R[symmetric] edit_run_def Let_def s_def)
    then show ?thesis
      using mem reply_results(3)[OF _ StepNotSent, of m' ?c m] first step_not_sent[OF StepNotSent]
      by (auto simp: answered_def not_lost_def)
  qed
  then show ?thesis unfolding R .
qed

lemma edit_run_kept:
  assumes "\<not> loses_file old new"
  shows "run_plan world (PlanEdit (command_of ChangeRule new) old) =
    finished (if_refused_answer (if_refused_of (command_of ChangeRule new)) (sent_outcome (world [] (Command (command_of ChangeRule new)))) CHANGED_NOT_SAVED)
      [(Command (command_of ChangeRule new), world [] (Command (command_of ChangeRule new)))] False"
  using assms
  by (cases "world [] (Command (command_of ChangeRule new))" rule: step_of.cases)
    (simp_all add: edit_run_def Let_def if_refused_answer_def send_error_outcome_def)

text \<open>
  C24. The answer to an add, an edit, a delete or the toggle of a user's rule is true of the
  stock daemon (renames and toggles of shipped defaults are answered apart). If the rule it is
  about is in the daemon as the bridge's list has it, then after the run: an answer of
  success, with or without a note, means the change is applied; one of no daemon, a refusal
  or a plain rejection means nothing has changed; a rejection that says the rule was restored
  means the rule is there as it was; a timeout or an unsure answer to a change that loses no
  file means that nothing has changed or the change is applied. In no case is another rule touched, and the rule itself
  is gone from the daemon only if it was to be deleted or has left the bridge's list too.
\<close>

theorem answers_are_true:
  assumes "gates_plan lib es c transport cache busy inert = Inr p" "list_inv cache" "in_step cache m p"
    and "\<forall>name enabled. p \<noteq> PlanToggleCurated name enabled" "\<forall>change old. p \<noteq> PlanRename change old"
    and "m' \<in> set (memories_after (rule_trace (cr_trace (run_plan world p))) m)"
  shows "answered p (run_plan world p) m m' \<and> not_lost p (run_plan world p) m m' \<and> keeps_others (plan_name p) m m'"
proof -
  obtain k where k: "plan_for k p" "warranted lib es cache busy transport inert k" using planned_kind[OF assms(1,2)] by metis
  have op: "r_operator new \<noteq> None" if "good_change lib new" for new
    using that from_wire_sendable(2) by (fastforce simp: good_change_def)
  consider (del) name where "k = PlannedDelete name" | (toggle) old new where "k = PlannedToggle old new"
    | (add) new where "k = PlannedAdd new" | (edit) old new where "k = PlannedEdit old new"
    using k(1) assms(4,5) by (cases k) (auto simp: plan_for_def)
  then show ?thesis
  proof cases
    case del
    then have p: "p = PlanSend (delete_command name)" using k(1) by (simp add: plan_for_def)
    have "keeps_others name m m'"
      using assms(6) reply_keeps_others[of DeleteRule m' "named_rule name"] unfolding p
      by (auto simp: send_run_def Let_def delete_command_def named_rule_def split: command_outcome.splits if_splits)
    then show ?thesis
      using deleted_answered[of m' world name m] assms(6) unfolding p
      by (auto simp: not_lost_def plan_name_def plan_notifications_def delete_command_def named_rule_def)
  next
    case toggle
    then have p: "p = PlanSend (command_of ChangeRule new)" and w: "may_change lib es cache busy old" "r_name new = r_name old"
        "only_enabled_differs old new" "good_change lib new"
      using k by (simp_all add: plan_for_def warranted_def)
    have "fmlookup m (r_name new) = Some old"
      using w(1,2) assms(3) by (auto simp: may_change_def in_step_def p plan_notifications_def)
    then have "\<not> file_removed new m" using toggle_keeps_duration[OF w(3)] by (auto simp: file_removed_def)
    from one_step_run[OF _ _ assms(6) this op[OF w(4)], of "world [] (Command (command_of ChangeRule new))" TURNED_OFF_FILE_KEPT p] show ?thesis
      unfolding p by (simp add: send_run_change plan_notifications_def plan_name_def)
  next
    case add
    then have p: "p = PlanAdd (command_of ChangeRule new) (r_name new)" and w: "may_create lib cache busy (r_name new)" "good_change lib new"
      using k by (simp_all add: plan_for_def warranted_def)
    have "fmlookup m (r_name new) = None"
      using w assms(3) by (auto simp: may_create_def in_step_def p plan_notifications_def)
    then have "\<not> file_removed new m" by (simp add: file_removed_def)
    from one_step_run[OF _ _ assms(6) this op[OF w(2)], of "world [] (Command (command_of ChangeRule new))" CHANGED_NOT_SAVED p] show ?thesis
      unfolding p by (simp add: plan_notifications_def plan_name_def Let_def)
  next
    case edit
    then have p: "p = PlanEdit (command_of ChangeRule new) old" and w: "may_change lib es cache busy old" "r_name new = r_name old" "good_change lib new"
      using k by (simp_all add: plan_for_def warranted_def)
    have old: "fmlookup m (r_name old) = Some old"
      using w assms(3) by (auto simp: may_change_def in_step_def p plan_notifications_def)
    have name: "plan_name p = r_name new" by (simp add: p plan_name_def plan_notifications_def)
    show ?thesis
    proof (cases "loses_file old new")
      case True
      then show ?thesis using edited_lost_answered[OF True w(2) old] assms(6) unfolding name unfolding p by blast
    next
      case False
      then have "\<not> file_removed new m" using old w(2) by (simp add: file_removed_def loses_file_def)
      from one_step_run[OF edit_run_kept[OF False, of world] _ _ this op[OF w(3)], of p m'] assms(6) show ?thesis
        unfolding name unfolding p by (simp add: plan_notifications_def)
    qed
  qed
qed

section \<open>Examples\<close>

definition mail_rule :: rule where
  "mail_rule = \<lparr> r_created = 0, r_name = lit ''mail'', r_description = [], r_enabled = True,
     r_precedence = False, r_nolog = False, r_action = lit ''allow'', r_duration = lit ''always'',
     r_operator = Some (Operator (lit ''list'') [] [] False
       [Operator (lit ''simple'') (lit ''process.path'') (lit ''/usr/bin/mail'') True [],
        Operator (lit ''network'') (lit ''dest.network'') (lit ''10.0.0.0/8'') False []]) \<rparr>"

definition mail_cache :: rules_cache where
  "mail_cache = new_rules_cache\<lparr> rc_rules := Some (fmupd (lit ''mail'') mail_rule fmempty) \<rparr>"

definition post_rule :: rule where
  "post_rule = mail_rule\<lparr> r_name := lit ''post'' \<rparr>"

definition rename_to_post :: rule_command where
  "rename_to_post = CommandUpdate (lit ''mail'') (rule_to_wire no_regex [] (\<lambda>_. []) post_rule)"

lemma mail_cache_inv: "list_inv mail_cache"
  by (simp add: list_inv_def mail_cache_def new_rules_cache_def no_may_hold_def mail_rule_def fcard.rep_eq)

lemma rename_planned:
  "gates_plan no_regex [] rename_to_post Unix mail_cache {||} False = Inr (PlanRename (command_of ChangeRule post_rule) mail_rule)"
  by code_simp

text \<open>A daemon that refuses everything.\<close>

definition refusing :: send_world where
  "refusing trace c = Waited (Inl (Rejected_by_daemon (lit ''no'')))"

definition file_kept :: send_world where
  "file_kept trace c = (if trace = [] then Waited (Inr ()) else Waited (Inl (Rejected_by_daemon (lit ''no''))))"


theorem rename_never_leaves_neither_witness:
  "list_all (\<lambda>m'. fmlookup m' (lit ''mail'') = None \<and> fmlookup m' (lit ''post'') = Some post_rule)
     (memories_after (rule_trace (cr_trace (run_plan file_kept (PlanRename (command_of ChangeRule post_rule) mail_rule))))
       (fmupd (lit ''mail'') mail_rule fmempty))"
proof -
  have "fmlookup (fmupd (lit ''mail'') mail_rule fmempty) (r_name mail_rule) = Some mail_rule"
    by (simp add: mail_rule_def)
  note kept = rename_never_leaves_neither[OF rename_planned mail_cache_inv this, of file_kept]
  have "cr_outcome (run_plan file_kept (PlanRename (command_of ChangeRule post_rule) mail_rule)) = OutcomeOkWithNote OLD_FILE_LEFT (lit ''no'')"
    by code_simp
  moreover have "r_name mail_rule = lit ''mail''" "r_name post_rule = lit ''post''" "lit ''mail'' \<noteq> lit ''post''"
    by (simp_all add: mail_rule_def post_rule_def)
  moreover have "hd (n_rules (command_of ChangeRule post_rule)) = post_rule" by simp
  ultimately show ?thesis using conjunct2[OF kept]
    by (auto simp: rename_answered_def renamed_memory_def list_all_iff simp del: run_plan.simps)
qed

lemma delete_planned:
  "gates_plan no_regex [] (CommandDelete (lit ''mail'')) Unix mail_cache {||} False = Inr (PlanSend (delete_command (lit ''mail'')))"
  by code_simp

theorem answers_are_true_witness:
  "list_all (\<lambda>m'. m' = fmdrop (lit ''mail'') (fmupd (lit ''mail'') mail_rule fmempty))
     (memories_after (rule_trace (cr_trace (run_plan refusing (PlanSend (delete_command (lit ''mail''))))))
       (fmupd (lit ''mail'') mail_rule fmempty))"
  unfolding list_all_iff
proof
  fix m'
  assume m': "m' \<in> set (memories_after (rule_trace (cr_trace (run_plan refusing (PlanSend (delete_command (lit ''mail''))))))
       (fmupd (lit ''mail'') mail_rule fmempty))"
  have "in_step mail_cache (fmupd (lit ''mail'') mail_rule fmempty) (PlanSend (delete_command (lit ''mail'')))"
    by (simp add: in_step_def mail_cache_def)
  from answers_are_true[OF delete_planned mail_cache_inv this _ _ m']
  have "answered (PlanSend (delete_command (lit ''mail''))) (run_plan refusing (PlanSend (delete_command (lit ''mail''))))
      (fmupd (lit ''mail'') mail_rule fmempty) m'" by simp
  moreover have "cr_outcome (run_plan refusing (PlanSend (delete_command (lit ''mail'')))) = OutcomeOkWithNote DELETED_FILE_LEFT (lit ''no'')"
    by code_simp
  ultimately show "m' = fmdrop (lit ''mail'') (fmupd (lit ''mail'') mail_rule fmempty)"
    by (simp only: answered_def command_outcome.case) (simp add: plan_notifications_def delete_command_def named_rule_def)
qed

section \<open>A refused rename\<close>

text \<open>A rename whose first step is refused answers a plain rejection, which stands for an
  unchanged list everywhere else, also when the renamed rule is disabled and permanent and so
  applies although refused: both rules are then in the daemon.\<close>

definition mail_off :: rule where
  "mail_off = mail_rule\<lparr> r_enabled := False \<rparr>"

definition post_off :: rule where
  "post_off = post_rule\<lparr> r_enabled := False \<rparr>"

lemma refused_rename_applies:
  "cr_outcome (run_plan refusing (PlanRename (command_of ChangeRule post_off) mail_off)) = OutcomeRejected (lit ''no'') None"
  "memories_after (rule_trace (cr_trace (run_plan refusing (PlanRename (command_of ChangeRule post_off) mail_off))))
     (fmupd (lit ''mail'') mail_off fmempty) = [fmupd (lit ''post'') post_off (fmupd (lit ''mail'') mail_off fmempty)]"
  "cr_outcome (run_plan refusing (PlanEdit (command_of ChangeRule post_off) post_off)) = OutcomeOkWithNote CHANGED_NOT_SAVED (lit ''no'')"
  by code_simp+

lemma refused_rename_planned:
  "gates_plan no_regex [] (CommandUpdate (lit ''mail'') (rule_to_wire no_regex [] (\<lambda>_. []) post_off)) Unix
     (mail_cache\<lparr> rc_rules := Some (fmupd (lit ''mail'') mail_off fmempty) \<rparr>) {||} False
   = Inr (PlanRename (command_of ChangeRule post_off) mail_off)"
  by code_simp

section \<open>A refused turn-on of a shipped default\<close>

text \<open>A refused turn-on is followed by one turn-off before the answer, a turn-off by nothing.\<close>

lemma toggle_curated_trace:
  "cr_trace (toggle_curated world name enabled) =
     (name_on name enabled, world [] (SendToggle name enabled)) #
       (case sent_outcome (world [] (SendToggle name enabled)) of
          OutcomeRejected _ _ \<Rightarrow>
            if enabled then [(SendToggle name False, world [(SendToggle name enabled, world [] (SendToggle name enabled))] (SendToggle name False))]
            else []
        | _ \<Rightarrow> [])"
  if "name_on = SendToggle" for name_on
  using that by (simp add: toggle_curated_def Let_def split: command_outcome.split)

section \<open>Busy names\<close>

text \<open>The names held by the guards of running commands and imports.\<close>

inductive busy_step :: "busy_names \<times> rstr list list \<Rightarrow> busy_names \<times> rstr list list \<Rightarrow> bool" where
  busy_claimed: "busy_claim names busy = Some busy' \<Longrightarrow> busy_step (busy, guards) (busy', names # guards)"
| busy_dropped: "busy_step (busy, before @ names # after) (busy_drop names busy, before @ after)"

text \<open>Every name is held by at most one guard, and the busy names are those held.\<close>

definition busy_inv :: "busy_names \<times> rstr list list \<Rightarrow> bool" where
  "busy_inv w \<longleftrightarrow> (\<forall>name. (if name |\<in>| fst w then 1 else 0) = length (filter (\<lambda>names. name \<in> set names) (snd w)))"

lemma busy_inv_step: "busy_inv w \<Longrightarrow> busy_step w w' \<Longrightarrow> busy_inv w'"
  unfolding busy_inv_def
proof (intro allI, erule busy_step.cases)
  fix name names busy busy' guards
  assume inv: "\<forall>name. (if name |\<in>| fst w then 1 else 0) = length (filter (\<lambda>names. name \<in> set names) (snd w))"
    and w: "w = (busy, guards)" "w' = (busy', names # guards)" and claim: "busy_claim names busy = Some busy'"
  have "busy' = busy |\<union>| fset_of_list names" "\<forall>n \<in> set names. n |\<notin>| busy"
    using claim by (auto simp: busy_claim_def list_ex_iff split: if_splits)
  then show "(if name |\<in>| fst w' then 1 else 0) = length (filter (\<lambda>names. name \<in> set names) (snd w'))"
    using spec[OF inv, of name] by (auto simp: w fset_of_list_elem split: if_splits)
next
  fix name busy before names after
  assume inv: "\<forall>name. (if name |\<in>| fst w then 1 else 0) = length (filter (\<lambda>names. name \<in> set names) (snd w))"
    and w: "w = (busy, before @ names # after)" "w' = (busy_drop names busy, before @ after)"
  show "(if name |\<in>| fst w' then 1 else 0) = length (filter (\<lambda>names. name \<in> set names) (snd w'))"
    using spec[OF inv, of name] by (auto simp: w busy_drop_def fset_of_list_elem split: if_splits)
qed

interpretation busy_machine: transition_system "\<lambda>w. w = ({||}, [])" busy_step busy_inv
  by unfold_locales (auto simp: busy_inv_step busy_inv_def[of "({||}, [])"])

text \<open>Two commands or imports that run at once hold no name in common.\<close>

lemma guards_disjoint:
  assumes "reachable (\<lambda>w. w = ({||}, [])) busy_step (busy, before @ names # between @ names' # after)"
  shows "set names \<inter> set names' = {}" "\<forall>name \<in> set names. name |\<in>| busy"
proof -
  have inv: "busy_inv (busy, before @ names # between @ names' # after)" using busy_machine.inv_reachable[OF assms] .
  show "set names \<inter> set names' = {}" "\<forall>name \<in> set names. name |\<in>| busy"
    using inv unfolding busy_inv_def by (auto split: if_splits)
qed

section \<open>Who decides while both names exist\<close>

text \<open>The row the rules tab has of a rule.\<close>

definition row_of :: "rule \<Rightarrow> gui_rule \<Rightarrow> bool" where
  "row_of r g \<longleftrightarrow> gr_name g = r_name r \<and> gr_enabled g = r_enabled r \<and> gr_action g = r_action r \<and> gr_precedence g = r_precedence r"

lemma row_of_wire: "gui_rule_from_json (rule_to_wire lib es texts r) = Some g \<Longrightarrow> row_of r g"
  by (auto simp: rule_to_wire_def gui_rule_from_members_def row_of_def field_or_def split: option.splits)

lemma row_of_stops: "row_of r g \<Longrightarrow> stops_scan g \<longleftrightarrow> rule_blocks r"
  by (auto simp: row_of_def stops_scan_def rule_blocks_def)

definition decides_as_said :: "rename_decides \<Rightarrow> gui_rule \<Rightarrow> gui_rule \<Rightarrow> gui_rule option \<Rightarrow> bool" where
  "decides_as_said d g_old g_new decider =
     (case d of
        OLD_DECIDES \<Rightarrow> decider = Some g_old
      | NEW_DECIDES \<Rightarrow> decider = Some g_new
      | BOTH_OFF \<Rightarrow> decider = None
      | BOTH_ALLOW \<Rightarrow> (\<exists>g. decider = Some g
          \<and> (daemon_action g = lit ''allow'' \<or> g = g_old \<and> gr_action g_old \<notin> {lit ''allow'', lit ''deny'', lit ''reject''})))"

lemma active_pair:
  "active_rules [a, b] =
     (if gr_enabled a then
        if gr_enabled b then (if gr_name a \<le> gr_name b then [a, b] else [b, a]) else [a]
      else if gr_enabled b then [b] else [])"
  by (auto simp: active_rules_def)

text \<open>
  C35. While a rename is unfinished the bridge says which of the two rules decides, and it says
  what the daemon does: of a connection that both rules match, the rule named decides by the
  daemon's order (the first deny, reject or decide-first rule by name, else the last), neither
  when both are off, and an allow in either case when it says that both allow. The one
  exception: an old rule with an action that is none of allow, deny and reject, which the
  daemon takes for a deny, is said to allow (\<open>odd_action_misread\<close> below).
\<close>

theorem rename_says_who_decides:
  assumes "row_of old g_old" "row_of new g_new" "r_name new \<noteq> r_name old"
    and "validate_user_rule lib new Editor = Inr ()"
  shows "decides_as_said (deciding old new) g_old g_new (decider_of (\<lambda>_. True) (active_rules [g_old, g_new]))"
proof -
  have new: "r_action new \<in> {lit ''allow'', lit ''deny'', lit ''reject''}"
    using assms(4) by (auto simp: validate_user_rule_def check_rule_def when_problem_def Let_def split: if_splits)
  have allow: "daemon_action g = lit ''allow''" if "row_of r g" "\<not> rule_blocks r" "r_action r \<in> {lit ''allow'', lit ''deny'', lit ''reject''}" for r g
    using that by (auto simp: row_of_def rule_blocks_def daemon_action_def)
  note stops = row_of_stops[OF assms(1)] row_of_stops[OF assms(2)]
  have rows: "gr_name g_old = r_name old" "gr_name g_new = r_name new" "gr_enabled g_old = r_enabled old" "gr_enabled g_new = r_enabled new"
    "gr_action g_old = r_action old"
    using assms(1,2) by (simp_all add: row_of_def)
  show ?thesis
    using assms(3) allow[OF assms(1)] allow[OF assms(2) _ new]
    by (cases "rule_blocks old"; cases "rule_blocks new")
      (auto simp: decides_as_said_def deciding_def active_pair decider_of_Cons rows stops)
qed

theorem rename_says_who_decides_witness:
  "decides_as_said NEW_DECIDES (the (gui_rule_from_json (rule_to_wire no_regex [] (\<lambda>_. []) mail_rule)))
     (the (gui_rule_from_json (rule_to_wire no_regex [] (\<lambda>_. []) (post_rule\<lparr> r_action := lit ''deny'' \<rparr>))))
     (decider_of (\<lambda>_. True) (active_rules [the (gui_rule_from_json (rule_to_wire no_regex [] (\<lambda>_. []) mail_rule)),
        the (gui_rule_from_json (rule_to_wire no_regex [] (\<lambda>_. []) (post_rule\<lparr> r_action := lit ''deny'' \<rparr>)))]))"
proof -
  let ?new = "post_rule\<lparr> r_action := lit ''deny'' \<rparr>"
  let ?row = "\<lambda>r. the (gui_rule_from_json (rule_to_wire no_regex [] (\<lambda>_. []) r))"
  have "gui_rule_from_json (rule_to_wire no_regex [] (\<lambda>_. []) mail_rule) \<noteq> None"
    "gui_rule_from_json (rule_to_wire no_regex [] (\<lambda>_. []) ?new) \<noteq> None" by code_simp+
  then have rows: "row_of mail_rule (?row mail_rule)" "row_of ?new (?row ?new)" by (auto intro: row_of_wire)
  have facts: "r_name ?new \<noteq> r_name mail_rule" "validate_user_rule no_regex ?new Editor = Inr ()"
    "deciding mail_rule ?new = NEW_DECIDES"
    by code_simp+
  from rename_says_who_decides[OF rows facts(1,2)] show ?thesis by (simp only: facts(3))
qed

text \<open>With an action the daemon does not know, which it treats as a deny that does not stop
  the check, the bridge says that both allow although the old rule blocks.\<close>

definition odd_mail :: rule where
  "odd_mail = mail_rule\<lparr> r_name := lit ''zmail'', r_action := lit ''Deny'' \<rparr>"

lemma odd_action_misread:
  "gates_plan no_regex [] (CommandUpdate (lit ''zmail'') (rule_to_wire no_regex [] (\<lambda>_. []) post_rule)) Unix
     (mail_cache\<lparr> rc_rules := Some (fmupd (lit ''zmail'') odd_mail fmempty) \<rparr>) {||} False
   = Inr (PlanRename (command_of ChangeRule post_rule) odd_mail)"
  "deciding odd_mail post_rule = BOTH_ALLOW"
  "map_option daemon_action (decider_of (\<lambda>_. True) (active_rules (map (\<lambda>r. the (gui_rule_from_json (rule_to_wire no_regex [] (\<lambda>_. []) r)))
     [odd_mail, post_rule]))) = Some (lit ''deny'')"
  by code_simp+

end
