(* ===== verification/Rule_Apply.thy ===== *)
theory Rule_Apply
  imports Rule_Edits
begin

text \<open>
  Importing a rules file over the daemon's rules: \<open>rules_import.rs\<close> (the pending preview and
  when it may be applied), \<open>rules_import/apply.rs\<close> (the run that sends the rules) and
  \<open>run_guard.rs\<close>, under \<open>snitchwatch-bridge-cli/src\<close>.

  What the run meets outside is an argument (\<open>apply_world\<close>), asked at moments that count up:
  whether the daemon reconnected, the cached list, whether another command holds a name, what
  sending comes to, which of the waiting commands is answered next and how.
\<close>

section \<open>Outcomes\<close>

definition MAX_IN_FLIGHT :: nat where "MAX_IN_FLIGHT = 8"
definition MAX_UNANSWERED_IN_A_ROW :: nat where "MAX_UNANSWERED_IN_A_ROW = 20"
definition SEND_RETRIES :: nat where "SEND_RETRIES = 3"

datatype not_sent_reason =
  SEND_BUSY | NO_DAEMON | STREAM_CLOSED | RECONNECTED | NOT_ANSWERING | ABORTED | BEING_CHANGED | CHANGED_SINCE_PREVIEW

datatype refused_import = RefusedProblems "import_problem list" | RefusedSend send_error

datatype import_outcome =
  ImportApplied | ImportRejected rstr | ImportRefused refused_import | ImportNoAnswer | ImportNotSent not_sent_reason

record totals =
  to_applied :: nat
  to_rejected :: nat
  to_not_sent :: nat
  to_no_answer :: nat

definition no_totals :: totals where
  "no_totals = \<lparr> to_applied = 0, to_rejected = 0, to_not_sent = 0, to_no_answer = 0 \<rparr>"

definition count_outcome :: "import_outcome \<Rightarrow> totals \<Rightarrow> totals" where
  "count_outcome outcome t =
     (case outcome of
        ImportApplied \<Rightarrow> t\<lparr> to_applied := to_applied t + 1 \<rparr>
      | ImportRejected _ \<Rightarrow> t\<lparr> to_rejected := to_rejected t + 1 \<rparr>
      | ImportRefused _ \<Rightarrow> t\<lparr> to_rejected := to_rejected t + 1 \<rparr>
      | ImportNoAnswer \<Rightarrow> t\<lparr> to_no_answer := to_no_answer t + 1 \<rparr>
      | ImportNotSent _ \<Rightarrow> t\<lparr> to_not_sent := to_not_sent t + 1 \<rparr>)"

section \<open>The run (apply.rs)\<close>

record apply_world =
  aw_reconnected :: "nat \<Rightarrow> bool"
  aw_rules :: "nat \<Rightarrow> (rstr, rule) fmap option"
  aw_free :: "nat \<Rightarrow> rstr \<Rightarrow> bool"
  aw_send :: "nat \<Rightarrow> notification \<Rightarrow> send_error option"
  aw_settled :: "nat \<Rightarrow> nat"
  aw_reply :: "nat \<Rightarrow> command_error + unit"

text \<open>A command sent: the moments its rule was checked and the command was queued, its name, the
  rule, and how many commands await an answer with it.\<close>

record import_sent =
  im_checked :: nat
  im_sent :: nat
  im_name :: rstr
  im_rule :: rule
  im_waiting :: nat

record apply_run =
  ar_now :: nat
  ar_in_flight :: "rstr list"
  ar_stop :: "not_sent_reason option"
  ar_unanswered :: nat
  ar_totals :: totals
  ar_progress :: "(rstr \<times> import_outcome) list"
  ar_sent :: "import_sent list"

definition new_run :: apply_run where
  "new_run = \<lparr> ar_now = 0, ar_in_flight = [], ar_stop = None, ar_unanswered = 0, ar_totals = no_totals,
     ar_progress = [], ar_sent = [] \<rparr>"

definition tick :: "apply_run \<Rightarrow> apply_run" where
  "tick s = s\<lparr> ar_now := ar_now s + 1 \<rparr>"

definition stop_with :: "not_sent_reason \<Rightarrow> apply_run \<Rightarrow> apply_run" where
  "stop_with reason s = (if ar_stop s = None then s\<lparr> ar_stop := Some reason \<rparr> else s)"

definition report :: "rstr \<Rightarrow> import_outcome \<Rightarrow> apply_run \<Rightarrow> apply_run" where
  "report name outcome s =
     s\<lparr> ar_totals := count_outcome outcome (ar_totals s), ar_progress := ar_progress s @ [(name, outcome)] \<rparr>"

definition not_sent :: "rstr \<Rightarrow> not_sent_reason \<Rightarrow> apply_run \<Rightarrow> apply_run" where
  "not_sent name reason s = report name (ImportNotSent reason) s"

fun reply_outcome :: "command_error + unit \<Rightarrow> import_outcome" where
  "reply_outcome (Inr _) = ImportApplied"
| "reply_outcome (Inl (Rejected_by_daemon t)) = ImportRejected (display_reason t)"
| "reply_outcome (Inl Timeout) = ImportNoAnswer"
| "reply_outcome (Inl StreamClosed) = ImportNoAnswer"

definition settle_one :: "apply_world \<Rightarrow> apply_run \<Rightarrow> apply_run \<times> bool" where
  "settle_one w s =
     (if ar_in_flight s = [] then (s, False)
      else let i = aw_settled w (ar_now s) mod length (ar_in_flight s);
               name = ar_in_flight s ! i;
               result = aw_reply w (ar_now s);
               outcome = reply_outcome result;
               s = tick (s\<lparr> ar_in_flight := take i (ar_in_flight s) @ drop (Suc i) (ar_in_flight s) \<rparr>);
               s = (if result = Inl StreamClosed then stop_with STREAM_CLOSED s else s);
               s = (if outcome = ImportNoAnswer
                    then (let s = s\<lparr> ar_unanswered := ar_unanswered s + 1 \<rparr>
                          in if ar_unanswered s \<ge> MAX_UNANSWERED_IN_A_ROW then stop_with NOT_ANSWERING s else s)
                    else s\<lparr> ar_unanswered := 0 \<rparr>)
           in (report name outcome s, True))"

lemma stop_with_parts [simp]:
  "ar_in_flight (stop_with r s) = ar_in_flight s" "ar_progress (stop_with r s) = ar_progress s"
  "ar_totals (stop_with r s) = ar_totals s" "ar_sent (stop_with r s) = ar_sent s" "ar_now (stop_with r s) = ar_now s"
  by (simp_all add: stop_with_def)

lemma report_parts [simp]:
  "ar_in_flight (report n oc s) = ar_in_flight s" "ar_progress (report n oc s) = ar_progress s @ [(n, oc)]"
  "ar_totals (report n oc s) = count_outcome oc (ar_totals s)" "ar_sent (report n oc s) = ar_sent s"
  "ar_stop (report n oc s) = ar_stop s" "ar_now (report n oc s) = ar_now s"
  by (simp_all add: report_def)

lemma tick_parts [simp]:
  "ar_in_flight (tick s) = ar_in_flight s" "ar_progress (tick s) = ar_progress s" "ar_totals (tick s) = ar_totals s"
  "ar_sent (tick s) = ar_sent s" "ar_stop (tick s) = ar_stop s" "ar_unanswered (tick s) = ar_unanswered s"
  "ar_now (tick s) = ar_now s + 1"
  by (simp_all add: tick_def)

lemma settle_one_some:
  assumes "ar_in_flight s \<noteq> []"
  obtains before name after where "ar_in_flight s = before @ name # after"
    "ar_in_flight (fst (settle_one w s)) = before @ after" "snd (settle_one w s)"
    "ar_progress (fst (settle_one w s)) = ar_progress s @ [(name, reply_outcome (aw_reply w (ar_now s)))]"
    "ar_totals (fst (settle_one w s)) = count_outcome (reply_outcome (aw_reply w (ar_now s))) (ar_totals s)"
    "ar_sent (fst (settle_one w s)) = ar_sent s"
proof -
  define i where "i = aw_settled w (ar_now s) mod length (ar_in_flight s)"
  have i: "i < length (ar_in_flight s)" using assms by (simp add: i_def)
  show thesis
    by (rule that[of "take i (ar_in_flight s)" "ar_in_flight s ! i" "drop (Suc i) (ar_in_flight s)"])
      (use assms i in \<open>simp_all add: settle_one_def Let_def i_def[symmetric] id_take_nth_drop[symmetric]\<close>)
qed

lemma settle_one_length:
  "length (ar_in_flight (fst (settle_one w s))) = length (ar_in_flight s) - 1"
proof (cases "ar_in_flight s = []")
  case False
  then show ?thesis by (rule settle_one_some[of s w]) simp
qed (simp add: settle_one_def)

function settle_until_room :: "apply_world \<Rightarrow> apply_run \<Rightarrow> apply_run" where
  "settle_until_room w s =
     (if length (ar_in_flight s) \<ge> MAX_IN_FLIGHT then settle_until_room w (fst (settle_one w s)) else s)"
  by pat_completeness auto
termination by (relation "measure (\<lambda>(w, s). length (ar_in_flight s))") (auto simp: settle_one_length MAX_IN_FLIGHT_def)

declare settle_until_room.simps [simp del]

fun send_with_retries ::
  "apply_world \<Rightarrow> nat \<Rightarrow> nat \<Rightarrow> rstr \<Rightarrow> rule \<Rightarrow> apply_run \<Rightarrow> apply_run" where
  "send_with_retries w checked_at retries name checked s =
     (case aw_send w (ar_now s) (command_of ChangeRule checked) of
        None \<Rightarrow>
          tick (s\<lparr> ar_in_flight := ar_in_flight s @ [name],
                   ar_sent := ar_sent s @ [\<lparr> im_checked = checked_at, im_sent = ar_now s, im_name = name, im_rule = checked,
                                              im_waiting = Suc (length (ar_in_flight s)) \<rparr>] \<rparr>)
      | Some NotQueued \<Rightarrow>
          (case retries of
             0 \<Rightarrow> not_sent name SEND_BUSY (tick s)
           | Suc left \<Rightarrow>
               (let s = fst (settle_one w (tick s))
                in case ar_stop s of
                     Some reason \<Rightarrow> not_sent name reason s
                   | None \<Rightarrow> send_with_retries w checked_at left name checked s))
      | Some NoDaemon \<Rightarrow> not_sent name NO_DAEMON (tick (s\<lparr> ar_stop := Some NO_DAEMON \<rparr>))
      | Some NotAllowed \<Rightarrow> not_sent name ABORTED (tick (s\<lparr> ar_stop := Some ABORTED \<rparr>))
      | Some NotOnThisTransport \<Rightarrow> not_sent name ABORTED (tick (s\<lparr> ar_stop := Some ABORTED \<rparr>))
      | Some e \<Rightarrow> report name (ImportRefused (RefusedSend e)) (tick s))"

declare send_with_retries.simps [simp del]

definition unchanged :: "apply_world \<Rightarrow> nat \<Rightarrow> rstr \<Rightarrow> rule option \<Rightarrow> bool" where
  "unchanged w now name expected =
     (case aw_rules w now of None \<Rightarrow> False | Some rules \<Rightarrow> same_rule (fmlookup rules name) expected)"

definition send_import :: "apply_world \<Rightarrow> regex_lib \<Rightarrow> rule \<times> rule option \<Rightarrow> apply_run \<Rightarrow> apply_run" where
  "send_import w lib = (\<lambda>(r, expected) s.
     let s = settle_until_room w s;
         now = ar_now s;
         s = (if aw_reconnected w now then stop_with RECONNECTED s else s);
         s = tick s
     in case ar_stop s of
          Some reason \<Rightarrow> not_sent (r_name r) reason s
        | None \<Rightarrow>
            if \<not> unchanged w now (r_name r) expected then not_sent (r_name r) CHANGED_SINCE_PREVIEW s
            else (case check_rule_for_apply lib r of
                    Inl problems \<Rightarrow> report (r_name r) (ImportRefused (RefusedProblems problems)) s
                  | Inr checked \<Rightarrow>
                      if \<not> aw_free w now (r_name r) then not_sent (r_name r) BEING_CHANGED s
                      else send_with_retries w now SEND_RETRIES (r_name r) checked s))"

function settle_all :: "apply_world \<Rightarrow> apply_run \<Rightarrow> apply_run" where
  "settle_all w s = (if snd (settle_one w s) then settle_all w (fst (settle_one w s)) else s)"
  by pat_completeness auto
termination
proof (relation "measure (\<lambda>(w, s). length (ar_in_flight s))", goal_cases)
  case (2 w s)
  then have "ar_in_flight s \<noteq> []" by (auto simp: settle_one_def)
  then show ?case using settle_one_length[of w s] by (cases "ar_in_flight s") auto
qed simp

declare settle_all.simps [simp del]

definition run_apply :: "apply_world \<Rightarrow> regex_lib \<Rightarrow> (rule \<times> rule option) list \<Rightarrow> apply_run" where
  "run_apply w lib rules = settle_all w (fold (send_import w lib) (sort_key (\<lambda>x. r_name (fst x)) rules) new_run)"

section \<open>Previews (rules\_import.rs)\<close>

definition MAX_APPLY_RULES :: nat where "MAX_APPLY_RULES = 2000"

datatype import_refusal =
  IMPORT_TCP_REFUSED | IMPORT_RUNNING | UNKNOWN_PREVIEW | STALE_PREVIEW | TOO_MANY_AT_ONCE
| BadDocument document_error | NoPreview preview_error

record pending_preview =
  pp_id :: rstr
  pp_created :: nat
  pp_revision :: nat
  pp_rules :: "(rstr, rule \<times> rule option) fmap"

record import_task =
  it_pending :: "pending_preview option"
  it_running :: bool

definition new_import_task :: import_task where
  "new_import_task = \<lparr> it_pending = None, it_running = False \<rparr>"

text \<open>\<open>preview\<close> and \<open>check_preview\<close>: whatever comes of it, the old preview is gone.\<close>

definition import_preview_request ::
  "regex_lib \<Rightarrow> (rule \<Rightarrow> nat) \<Rightarrow> transport \<Rightarrow> nat \<Rightarrow> rstr \<Rightarrow> json \<Rightarrow> rules_cache \<Rightarrow> import_task \<Rightarrow>
   import_task \<times> (import_refusal + rstr \<times> import_item list)" where
  "import_preview_request lib encoded_len transport now ident doc cache task =
     (let task = task\<lparr> it_pending := None \<rparr>
      in if transport = Tcp then (task, Inl IMPORT_TCP_REFUSED)
         else (case parse_document doc of
                 Inl e \<Rightarrow> (task, Inl (BadDocument e))
               | Inr document \<Rightarrow>
                   (case classify_rules encoded_len (check_rules lib document) cache of
                      Inl e \<Rightarrow> (task, Inl (NoPreview e))
                    | Inr p \<Rightarrow>
                        (let before = (\<lambda>name. Option.bind (rc_rules cache) (\<lambda>rules. fmlookup rules name))
                         in (task\<lparr> it_pending := Some \<lparr> pp_id = ident, pp_created = now, pp_revision = rc_revision cache,
                                     pp_rules = fmmap_keys (\<lambda>name r. (r, before name)) (ip_applicable p) \<rparr> \<rparr>,
                             Inr (ident, ip_items p))))))"

text \<open>\<open>apply\<close>; \<open>start_apply\<close> is the \<open>running\<close> flag and the rules handed to \<open>run_apply\<close>.\<close>

definition import_apply_request ::
  "nat \<Rightarrow> transport \<Rightarrow> nat \<Rightarrow> rstr \<Rightarrow> rstr list \<Rightarrow> rules_cache \<Rightarrow> import_task \<Rightarrow>
   import_task \<times> (import_refusal + (rule \<times> rule option) list)" where
  "import_apply_request ttl transport now preview_id include cache task =
     (if transport = Tcp then (task, Inl IMPORT_TCP_REFUSED)
      else if it_running task then (task, Inl IMPORT_RUNNING)
      else (case it_pending task of
              None \<Rightarrow> (task, Inl UNKNOWN_PREVIEW)
            | Some p \<Rightarrow>
                if pp_id p \<noteq> preview_id then (task, Inl UNKNOWN_PREVIEW)
                else let taken = task\<lparr> it_pending := None \<rparr>
                     in if now - pp_created p > ttl then (taken, Inl UNKNOWN_PREVIEW)
                        else if rc_revision cache \<noteq> pp_revision p then (taken, Inl STALE_PREVIEW)
                        else let names = filter (\<lambda>n. n \<in> set include) (fm_keys (pp_rules p))
                             in if length names > MAX_APPLY_RULES then (task, Inl TOO_MANY_AT_ONCE)
                                else (taken\<lparr> it_running := True \<rparr>, Inr (map (\<lambda>n. the (fmlookup (pp_rules p) n)) names))))"

text \<open>\<open>ApplyRun::end\<close>, whether the run finished or was dropped.\<close>

definition end_apply :: "import_task \<Rightarrow> import_task" where
  "end_apply task = task\<lparr> it_running := False \<rparr>"

end
