(* ===== verification/Rule_Apply_Props.thy ===== *)
theory Rule_Apply_Props
  imports Rule_Apply Rule_Import_Props "HOL-Library.Multiset"
begin

text \<open>
  An import accounts for every rule it was asked to apply, sends only what its preview showed
  and what still passes the checks, and is started only from a fresh preview.
\<close>

section \<open>The run\<close>

definition item_name :: "rule \<times> rule option \<Rightarrow> rstr" where
  "item_name x = r_name (fst x)"

definition tallied :: "(rstr \<times> import_outcome) list \<Rightarrow> totals" where
  "tallied progress = fold (\<lambda>x. count_outcome (snd x)) progress no_totals"

lemma tallied_snoc: "tallied (progress @ [(n, oc)]) = count_outcome oc (tallied progress)"
  by (simp add: tallied_def)

text \<open>What was sent: a rule of the import that passed the checks at a moment when the daemon still
  had the rule the preview showed, on the stream the import began on, with nobody else at its
  name. It was queued the moment after, unless no stream had room for it then: what is sent
  after that is sent later and is not checked again.\<close>

definition sent_rightly :: "apply_world \<Rightarrow> regex_lib \<Rightarrow> (rule \<times> rule option) list \<Rightarrow> import_sent \<Rightarrow> bool" where
  "sent_rightly w lib items x \<longleftrightarrow>
     im_waiting x \<le> MAX_IN_FLIGHT
     \<and> im_checked x < im_sent x \<and> aw_send w (im_sent x) (command_of ChangeRule (im_rule x)) = None
     \<and> (im_sent x = Suc (im_checked x)
          \<or> aw_send w (Suc (im_checked x)) (command_of ChangeRule (im_rule x)) = Some NotQueued)
     \<and> \<not> aw_reconnected w (im_checked x) \<and> aw_free w (im_checked x) (im_name x)
     \<and> (\<exists>r expected. (r, expected) \<in> set items \<and> im_name x = r_name r \<and> check_rule_for_apply lib r = Inr (im_rule x)
          \<and> unchanged w (im_checked x) (r_name r) expected)"

definition answered_outcome :: "import_outcome \<Rightarrow> bool" where
  "answered_outcome oc = (case oc of ImportApplied \<Rightarrow> True | ImportRejected _ \<Rightarrow> True | ImportNoAnswer \<Rightarrow> True | _ \<Rightarrow> False)"

definition run_inv :: "apply_world \<Rightarrow> regex_lib \<Rightarrow> (rule \<times> rule option) list \<Rightarrow> apply_run \<Rightarrow> bool" where
  "run_inv w lib items s \<longleftrightarrow>
     mset (map fst (ar_progress s)) + mset (ar_in_flight s) = mset (map item_name items)
     \<and> ar_totals s = tallied (ar_progress s)
     \<and> length (ar_in_flight s) \<le> MAX_IN_FLIGHT
     \<and> (\<forall>x \<in> set (ar_sent s). sent_rightly w lib items x)
     \<and> mset (map im_name (ar_sent s)) =
         mset (map fst (filter (\<lambda>x. answered_outcome (snd x)) (ar_progress s))) + mset (ar_in_flight s)"

lemma run_inv_new: "run_inv w lib [] new_run"
  by (simp add: run_inv_def new_run_def tallied_def)

lemma run_inv_tick [simp]: "run_inv w lib items (tick s) = run_inv w lib items s"
  by (simp add: run_inv_def)

lemma run_inv_stop [simp]:
  "run_inv w lib items (stop_with reason s) = run_inv w lib items s" "run_inv w lib items (s\<lparr> ar_stop := x \<rparr>) = run_inv w lib items s"
  by (simp_all add: run_inv_def)

lemma reply_answered: "answered_outcome (reply_outcome r)"
  by (cases r rule: reply_outcome.cases) (simp_all add: answered_outcome_def)

lemma run_inv_settle:
  assumes "run_inv w lib items s"
  shows "run_inv w lib items (fst (settle_one w s))"
proof (cases "ar_in_flight s = []")
  case False
  then show ?thesis
  proof (rule settle_one_some[of s w])
    fix before name after
    assume "ar_in_flight s = before @ name # after" "ar_in_flight (fst (settle_one w s)) = before @ after"
      "ar_progress (fst (settle_one w s)) = ar_progress s @ [(name, reply_outcome (aw_reply w (ar_now s)))]"
      "ar_totals (fst (settle_one w s)) = count_outcome (reply_outcome (aw_reply w (ar_now s))) (ar_totals s)"
      "ar_sent (fst (settle_one w s)) = ar_sent s"
    then show ?thesis using assms by (simp add: run_inv_def tallied_snoc reply_answered)
  qed
qed (use assms in \<open>simp add: settle_one_def\<close>)

lemma run_inv_room: "run_inv w lib items s \<Longrightarrow> run_inv w lib items (settle_until_room w s) \<and> length (ar_in_flight (settle_until_room w s)) < MAX_IN_FLIGHT"
proof (induction w s rule: settle_until_room.induct)
  case (1 w s)
  then show ?case by (subst (1 2) settle_until_room.simps) (simp add: run_inv_settle)
qed

lemma sent_rightly_more: "sent_rightly w lib items x \<Longrightarrow> sent_rightly w lib (items @ xs) x"
  unfolding sent_rightly_def by auto

lemma run_inv_report:
  assumes "run_inv w lib items s" "\<not> answered_outcome oc"
  shows "run_inv w lib (items @ [(r, expected)]) (report (r_name r) oc s)"
  using assms by (simp add: run_inv_def tallied_snoc item_name_def sent_rightly_more)

lemma run_inv_unsent: "run_inv w lib items s \<Longrightarrow> run_inv w lib (items @ [(r, expected)]) (not_sent (r_name r) reason s)"
  using run_inv_report[of w lib items s "ImportNotSent reason"] by (simp add: not_sent_def answered_outcome_def)

lemma run_inv_refused: "run_inv w lib items s \<Longrightarrow> run_inv w lib (items @ [(r, expected)]) (report (r_name r) (ImportRefused e) s)"
  using run_inv_report[of w lib items s "ImportRefused e"] by (simp add: answered_outcome_def)

text \<open>The next attempt at \<open>now\<close> is the one right after the checks, or that one found no room.\<close>

definition attempt_at :: "apply_world \<Rightarrow> nat \<Rightarrow> rule \<Rightarrow> nat \<Rightarrow> bool" where
  "attempt_at w checked_at checked now \<longleftrightarrow> checked_at < now
     \<and> (now = Suc checked_at \<or> aw_send w (Suc checked_at) (command_of ChangeRule checked) = Some NotQueued)"

lemma settle_one_now: "ar_now s \<le> ar_now (fst (settle_one w s))"
  by (simp add: settle_one_def Let_def)

lemma attempt_again:
  "attempt_at w at checked (ar_now s) \<Longrightarrow> aw_send w (ar_now s) (command_of ChangeRule checked) = Some NotQueued
     \<Longrightarrow> attempt_at w at checked (ar_now (fst (settle_one w (tick s))))"
  using settle_one_now[of "tick s" w] by (auto simp: attempt_at_def)

lemma run_inv_sent:
  assumes "run_inv w lib items s" "length (ar_in_flight s) < MAX_IN_FLIGHT"
    and "\<not> aw_reconnected w now" "aw_free w now (r_name r)" "unchanged w now (r_name r) expected"
    and "check_rule_for_apply lib r = Inr checked"
    and "attempt_at w now checked (ar_now s)" "aw_send w (ar_now s) (command_of ChangeRule checked) = None"
  shows "run_inv w lib (items @ [(r, expected)])
    (s\<lparr> ar_in_flight := ar_in_flight s @ [r_name r],
        ar_sent := ar_sent s @ [\<lparr> im_checked = now, im_sent = ar_now s, im_name = r_name r, im_rule = checked,
          im_waiting = Suc (length (ar_in_flight s)) \<rparr>] \<rparr>)"
proof -
  have "sent_rightly w lib (items @ [(r, expected)])
      \<lparr> im_checked = now, im_sent = ar_now s, im_name = r_name r, im_rule = checked, im_waiting = Suc (length (ar_in_flight s)) \<rparr>"
    using assms(2-8) by (auto simp: sent_rightly_def attempt_at_def)
  then show ?thesis using assms(1,2) by (simp add: run_inv_def item_name_def sent_rightly_more)
qed

lemma run_inv_retries:
  assumes "run_inv w lib items s" "length (ar_in_flight s) < MAX_IN_FLIGHT" "attempt_at w now checked (ar_now s)"
    and "\<not> aw_reconnected w now" "aw_free w now (r_name r)" "unchanged w now (r_name r) expected"
    and "check_rule_for_apply lib r = Inr checked"
  shows "run_inv w lib (items @ [(r, expected)]) (send_with_retries w now retries (r_name r) checked s)"
  using assms(1-3)
proof (induction retries arbitrary: s)
  case step: (0 s)
  show ?case
    using assms(4-7) step run_inv_unsent run_inv_refused run_inv_sent
    by (subst send_with_retries.simps) (auto split: option.split send_error.split)
next
  case step: (Suc retries s)
  let ?s = "fst (settle_one w (tick s))"
  have settled: "run_inv w lib items ?s" "length (ar_in_flight ?s) < MAX_IN_FLIGHT"
    using step.prems run_inv_settle[of w lib items "tick s"] settle_one_length[of w "tick s"] by simp_all
  show ?case
    using assms(4-7) step.prems step.IH[OF settled] attempt_again run_inv_unsent settled(1) run_inv_refused run_inv_sent
    by (subst send_with_retries.simps) (auto simp: Let_def split: option.split send_error.split)
qed

lemma run_inv_send:
  assumes "run_inv w lib items s"
  shows "run_inv w lib (items @ [x]) (send_import w lib x s)"
proof -
  obtain r expected where x: "x = (r, expected)" by (cases x)
  let ?s = "settle_until_room w s"
  have room: "run_inv w lib items ?s" "length (ar_in_flight ?s) < MAX_IN_FLIGHT" using run_inv_room[OF assms] by simp_all
  have sent: "run_inv w lib (items @ [(r, expected)]) (send_with_retries w (ar_now ?s) SEND_RETRIES (r_name r) checked (tick ?s))"
    if "\<not> aw_reconnected w (ar_now ?s)" "aw_free w (ar_now ?s) (r_name r)" "unchanged w (ar_now ?s) (r_name r) expected"
      "check_rule_for_apply lib r = Inr checked" for checked
    using run_inv_retries[OF _ _ _ that, of items "tick ?s"] room by (simp add: attempt_at_def)
  show ?thesis
    using room(1) sent run_inv_unsent[of w lib items] run_inv_refused[of w lib items]
    by (auto simp: x send_import_def Let_def stop_with_def split: option.split sum.split)
qed

lemma run_inv_fold: "run_inv w lib items s \<Longrightarrow> run_inv w lib (items @ xs) (fold (send_import w lib) xs s)"
proof (induction xs arbitrary: items s)
  case (Cons x xs)
  then show ?case using Cons.IH[OF run_inv_send[OF Cons.prems, of x]] by simp
qed simp

lemma run_inv_all: "run_inv w lib items s \<Longrightarrow> run_inv w lib items (settle_all w s) \<and> ar_in_flight (settle_all w s) = []"
proof (induction w s rule: settle_all.induct)
  case (1 w s)
  show ?case
  proof (cases "snd (settle_one w s)")
    case True
    then show ?thesis using 1 run_inv_settle by (simp add: settle_all.simps[of w s])
  next
    case False
    then have "ar_in_flight s = []" by (rule contrapos_np) (simp add: settle_one_def Let_def)
    then show ?thesis using 1 False by (simp add: settle_all.simps[of w s])
  qed
qed

lemma tallied_total: "to_applied (tallied p) + to_rejected (tallied p) + to_not_sent (tallied p) + to_no_answer (tallied p) = length p"
proof (induction p rule: rev_induct)
  case (snoc x xs)
  then show ?case by (cases x; cases "snd x") (auto simp: tallied_snoc count_outcome_def)
qed (simp add: tallied_def no_totals_def)

text \<open>
  C26. An import accounts for every rule it was asked to apply, whatever happens meanwhile: the
  run ends, every rule is reported exactly once (as often as it was asked for), nothing is left
  waiting, and the totals count those reports. Of the commands sent, never more than eight
  await an answer; each is for a rule of the import that passed the checks again at a moment
  when the daemon still had it as the preview showed it, on the stream the import began on and
  at a name nobody else was changing. It is sent the moment after, except when no stream had
  room for it then: a retry is sent later without these checks, so the daemon may have
  reconnected or changed the rule by then, although \<open>apply.rs\<close> says that they are made just
  before each send (\<open>retry_is_not_checked\<close> below). The rules reported as applied, rejected or
  unanswered are exactly those sent.
\<close>

theorem import_accounts_for_every_rule:
  "mset (map fst (ar_progress (run_apply w lib items))) = mset (map item_name items)
   \<and> ar_in_flight (run_apply w lib items) = []
   \<and> ar_totals (run_apply w lib items) = tallied (ar_progress (run_apply w lib items))
   \<and> to_applied (ar_totals (run_apply w lib items)) + to_rejected (ar_totals (run_apply w lib items))
      + to_not_sent (ar_totals (run_apply w lib items)) + to_no_answer (ar_totals (run_apply w lib items)) = length items
   \<and> list_all (sent_rightly w lib items) (ar_sent (run_apply w lib items))
   \<and> mset (map im_name (ar_sent (run_apply w lib items))) =
       mset (map fst (filter (\<lambda>x. answered_outcome (snd x)) (ar_progress (run_apply w lib items))))"
proof -
  let ?sorted = "sort_key (\<lambda>x. r_name (fst x)) items"
  have inv: "run_inv w lib ?sorted (run_apply w lib items)" and empty: "ar_in_flight (run_apply w lib items) = []"
    using run_inv_all[OF run_inv_fold[OF run_inv_new, of w lib ?sorted]] by (simp_all add: run_apply_def)
  have names: "mset (map item_name ?sorted) = mset (map item_name items)" by simp
  have reported: "mset (map fst (ar_progress (run_apply w lib items))) = mset (map item_name items)"
    using inv empty names by (simp add: run_inv_def)
  then have "length (ar_progress (run_apply w lib items)) = length items"
    by (metis length_map size_mset)
  then show ?thesis
    using inv empty reported tallied_total[of "ar_progress (run_apply w lib items)"]
    by (auto simp: run_inv_def sent_rightly_def list_all_iff)
qed

text \<open>A retry that is sent on another stream than the one the import began on, when the daemon's
  rule is another one than the preview showed.\<close>

definition retry_world :: apply_world where
  "retry_world = \<lparr> aw_reconnected = (\<lambda>t. 1 < t),
     aw_rules = (\<lambda>t. Some (if t \<le> 1 then fmempty else fmupd (lit ''mail'') (example_user_rule\<lparr> r_action := lit ''deny'' \<rparr>) fmempty)),
     aw_free = (\<lambda>_ _. True), aw_send = (\<lambda>t _. if t \<le> 1 then Some NotQueued else None),
     aw_settled = (\<lambda>_. 0), aw_reply = (\<lambda>_. Inr ()) \<rparr>"

lemma retry_is_not_checked:
  "map im_sent (ar_sent (run_apply retry_world no_regex [(example_user_rule, None)])) = [2]"
  "aw_reconnected retry_world 2" "\<not> unchanged retry_world 2 (lit ''mail'') None"
  by code_simp+

section \<open>When a preview may be applied\<close>

text \<open>The task with what it was last shown: the time, the list and the preview of the request
  that made its pending preview, and how many runs are on.\<close>

record import_state =
  is_task :: import_task
  is_shown :: "(rstr \<times> nat \<times> rules_cache \<times> import_preview) option"
  is_runs :: nat

definition new_import_state :: import_state where
  "new_import_state = \<lparr> is_task = new_import_task, is_shown = None, is_runs = 0 \<rparr>"

definition shown_preview ::
  "regex_lib \<Rightarrow> (rule \<Rightarrow> nat) \<Rightarrow> json \<Rightarrow> rules_cache \<Rightarrow> import_preview option" where
  "shown_preview lib encoded_len doc cache =
     (case parse_document doc of
        Inl _ \<Rightarrow> None
      | Inr d \<Rightarrow> (case preview lib encoded_len d cache of Inl _ \<Rightarrow> None | Inr p \<Rightarrow> Some p))"

inductive import_step :: "regex_lib \<Rightarrow> (rule \<Rightarrow> nat) \<Rightarrow> nat \<Rightarrow> import_state \<Rightarrow> import_state \<Rightarrow> bool" for lib encoded_len ttl where
  previewed: "import_preview_request lib encoded_len transport now ident doc cache (is_task s) = (task, answer) \<Longrightarrow>
    import_step lib encoded_len ttl s
      (s\<lparr> is_task := task,
          is_shown := (case answer of Inl _ \<Rightarrow> None
                       | Inr _ \<Rightarrow> map_option (\<lambda>p. (ident, now, cache, p)) (shown_preview lib encoded_len doc cache)) \<rparr>)"
| started: "import_apply_request ttl transport now ident include cache (is_task s) = (task, answer) \<Longrightarrow>
    import_step lib encoded_len ttl s
      (s\<lparr> is_task := task, is_runs := (case answer of Inl _ \<Rightarrow> is_runs s | Inr _ \<Rightarrow> is_runs s + 1) \<rparr>)"
| ended: "is_runs s > 0 \<Longrightarrow>
    import_step lib encoded_len ttl s (s\<lparr> is_task := end_apply (is_task s), is_runs := is_runs s - 1 \<rparr>)"

text \<open>What the preview held for a name: the rule of the file and the daemon's rule then.\<close>

definition held_rules :: "rules_cache \<Rightarrow> import_preview \<Rightarrow> (rstr, rule \<times> rule option) fmap" where
  "held_rules cache p =
     fmmap_keys (\<lambda>name r. (r, Option.bind (rc_rules cache) (\<lambda>rules. fmlookup rules name))) (ip_applicable p)"

definition import_inv :: "import_state \<Rightarrow> bool" where
  "import_inv s \<longleftrightarrow>
     is_runs s = (if it_running (is_task s) then 1 else 0)
     \<and> (\<forall>q. it_pending (is_task s) = Some q \<longrightarrow>
          (\<exists>cache p. is_shown s = Some (pp_id q, pp_created q, cache, p)
             \<and> pp_revision q = rc_revision cache \<and> pp_rules q = held_rules cache p))"

lemma import_inv_new: "import_inv new_import_state"
  by (simp add: import_inv_def new_import_state_def new_import_task_def)

lemma import_inv_preview:
  assumes "import_inv s" "import_preview_request lib encoded_len transport now ident doc cache (is_task s) = (task, answer)"
  shows "import_inv (s\<lparr> is_task := task,
     is_shown := (case answer of Inl _ \<Rightarrow> None
                  | Inr _ \<Rightarrow> map_option (\<lambda>p. (ident, now, cache, p)) (shown_preview lib encoded_len doc cache)) \<rparr>)"
  using assms
  by (auto simp: import_preview_request_def import_inv_def shown_preview_def preview_def held_rules_def Let_def
      split: if_splits sum.splits)

lemma import_inv_start:
  assumes "import_inv s" "import_apply_request ttl transport now ident include cache (is_task s) = (task, answer)"
  shows "import_inv (s\<lparr> is_task := task, is_runs := (case answer of Inl _ \<Rightarrow> is_runs s | Inr _ \<Rightarrow> is_runs s + 1) \<rparr>)"
  using assms by (auto simp: import_apply_request_def import_inv_def Let_def split: if_splits option.splits)

lemma import_inv_step: "import_inv s \<Longrightarrow> import_step lib encoded_len ttl s t \<Longrightarrow> import_inv t"
  by (erule import_step.cases)
    (auto intro!: import_inv_preview import_inv_start simp: import_inv_def[of "_\<lparr> is_task := end_apply _, is_runs := _ \<rparr>"],
     auto simp: import_inv_def end_apply_def split: if_splits)

interpretation import_machine: transition_system "\<lambda>s. s = new_import_state" "import_step lib encoded_len ttl" import_inv for lib encoded_len ttl
  by unfold_locales (auto intro: import_inv_new import_inv_step)

text \<open>
  C27. An import is applied only from a fresh preview. However requests and runs interleave,
  an apply is accepted only on the system transport, while no other runs, under the name of
  the preview shown last and within its time; the list must be at the revision the preview
  was made at; at most 2000 rules are applied; and they are exactly the wanted rules of that
  preview, each with the daemon's rule it was compared with.
\<close>

theorem only_fresh_previews_are_applied:
  assumes "reachable (\<lambda>s. s = new_import_state) (import_step lib encoded_len ttl) s"
    and "import_apply_request ttl transport now ident include cache (is_task s) = (task, Inr items)"
  shows "transport \<noteq> Tcp \<and> is_runs s = 0
    \<and> (\<exists>created cache0 p. is_shown s = Some (ident, created, cache0, p) \<and> now - created \<le> ttl
         \<and> rc_revision cache = rc_revision cache0 \<and> length items \<le> MAX_APPLY_RULES
         \<and> items = map (\<lambda>n. the (fmlookup (held_rules cache0 p) n))
                     (filter (\<lambda>n. n \<in> set include) (fm_keys (held_rules cache0 p))))"
  using import_machine.inv_reachable[OF assms(1)] assms(2)
  by (auto simp: import_apply_request_def import_inv_def Let_def not_less split: if_splits option.splits)

definition example_file :: json where
  "example_file = document_to_json (fst (the (export_rules no_regex example_list 1000)))"

definition empty_list :: rules_cache where
  "empty_list = new_rules_cache\<lparr> rc_rules := Some fmempty \<rparr>"

definition previewed_state :: import_state where
  "previewed_state = new_import_state\<lparr>
     is_task := fst (import_preview_request no_regex (\<lambda>_. 200) Unix 0 (lit ''p1'') example_file empty_list new_import_task),
     is_shown := map_option (\<lambda>p. (lit ''p1'', 0, empty_list, p)) (shown_preview no_regex (\<lambda>_. 200) example_file empty_list) \<rparr>"

lemma answered_request: "\<not> isl (snd x) \<Longrightarrow> \<exists>task y. x = (task, Inr y)"
  by (cases x; cases "snd x") auto

lemma previewed_accepts:
  "\<not> isl (snd (import_preview_request no_regex (\<lambda>_. 200) Unix 0 (lit ''p1'') example_file empty_list new_import_task))"
  "\<not> isl (snd (import_apply_request 600 Unix 10 (lit ''p1'') [lit ''mail''] empty_list (is_task previewed_state)))"
  by code_simp+

lemma previewed_reachable: "reachable (\<lambda>s. s = new_import_state) (import_step no_regex (\<lambda>_. 200) 600) previewed_state"
proof -
  obtain task answer where
    "import_preview_request no_regex (\<lambda>_. 200) Unix 0 (lit ''p1'') example_file empty_list new_import_task = (task, Inr answer)"
    using answered_request[OF previewed_accepts(1)] by blast
  then have "import_step no_regex (\<lambda>_. 200) 600 new_import_state previewed_state"
    using previewed[of no_regex "\<lambda>_. 200" Unix 0 "lit ''p1''" example_file empty_list new_import_state task "Inr answer" 600]
    by (simp add: previewed_state_def new_import_state_def)
  then show ?thesis by (rule reach_step[where s = new_import_state, rotated]) (rule reach_init, simp)
qed

theorem only_fresh_previews_are_applied_witness:
  "is_runs previewed_state = 0 \<and> (\<exists>created cache0 p. is_shown previewed_state = Some (lit ''p1'', created, cache0, p) \<and> 10 - created \<le> 600)"
proof -
  obtain task items where "import_apply_request 600 Unix 10 (lit ''p1'') [lit ''mail''] empty_list (is_task previewed_state) = (task, Inr items)"
    using answered_request[OF previewed_accepts(2)] by blast
  from only_fresh_previews_are_applied[OF previewed_reachable this] show ?thesis by blast
qed

end
