(* ===== verification/Spec2Isabelle.thy ===== *)
theory Spec2Isabelle
  imports Connections Daemon_Props Rules_Sync_Props Rules_Journal Prompt_Slot Display Conn_Rows Blocklist_Props
    Curated_Consent Curated_Settle Rule_Import_Props Rule_Shadow_Props Rule_Edits_Props Rule_Apply_Props
begin

text \<open>
  A verification development of the snitchwatch bridge,
  \<open>src/crates/snitchwatch-bridge\<close>: the process between the opensnitch firewall daemon and
  the desktop GUIs. The daemon asks it about connections, reports events and takes rule
  commands; the GUIs see the rows and rules, answer prompts and edit rules. Of the desktop
  shell, \<open>src/crates/snitchwatch-kirigami\<close>, it covers what the rules tab computes about the
  rules.

  \<^bold>\<open>Parts and how they interact.\<close>
  A prompt of the daemon becomes a row of the connection cache with a one-shot channel to
  the waiting handler. A GUI's answer, a running pause, a deadline or the end of the
  connection settles it; the answer becomes a rule with a generated name, bound to the
  asking program. The rule list is adopted from the daemon's snapshots when a stream says
  HELLO, follows confirmed and refused commands and prompt answers, and is broadcast to
  the GUIs. Edits of a GUI, blocklists, profiles and shipped defaults become commands to
  the daemon, each through its own check, which wait for the daemon's reply. The rules tab
  keeps the rules it is sent, simulates what the daemon would decide with them and looks for
  rules that can never decide.

  \<^bold>\<open>Theories.\<close> Each opens with the files it models, under \<open>snitchwatch-bridge/src\<close>, or
  under \<open>snitchwatch-kirigami/src\<close> for the rules tab.

  \<^item> \<open>Prelude\<close>: strings as lists of code points (\<open>rstr\<close>), finite maps with ordered keys, decimal
    numbers, and the locales of a state machine with an invariant (\<open>state_machine\<close> for step
    functions, \<open>transition_system\<close> for step relations). \<open>Std_Net\<close>: what the sources use of
    Rust's addresses, lines and paths. \<open>Wire\<close>: the daemon's messages and the GUI's verdicts
    and rows (\<open>ws_messages/verdict_wire.rs\<close>, \<open>daemon_contract.rs\<close>).
  \<^item> Answers: \<open>Rule_Name\<close> (\<open>rule_name.rs\<close>, \<open>translator/process_binding.rs\<close>), \<open>Verdict\<close>
    (\<open>translator/verdict.rs\<close>).
  \<^item> Prompts: \<open>Presence_Pause\<close> (\<open>client_presence.rs\<close>, \<open>filter_pause.rs\<close>, \<open>tray_state.rs\<close>),
    \<open>Conn_Rows\<close> (\<open>translator/connection.rs\<close>), \<open>Connections\<close> (\<open>cache/connections.rs\<close>,
    \<open>pause_answers.rs\<close>, \<open>deferred_answers.rs\<close>), \<open>Prompt_Slot\<close> (\<open>prompt_slot.rs\<close>), \<open>Display\<close>
    (\<open>translator/display.rs\<close>).
  \<^item> The rule list: \<open>Rules_Cache\<close> and \<open>Rules_Props\<close> (\<open>cache/rules.rs\<close>, \<open>rules_refused.rs\<close>,
    \<open>rules_count.rs\<close>), \<open>Rule_Hits\<close> (\<open>cache/rule_hits.rs\<close>), \<open>Rules_Sync\<close>, \<open>Rules_Sync_Props\<close>
    and \<open>Rules_Journal\<close> (\<open>cache/rules_sync.rs\<close>).
  \<^item> What a rule may be: \<open>Rule_Regexp\<close>, \<open>Rule_Policy\<close>, \<open>Rule_Policy_Props\<close>
    (\<open>rule_policy.rs\<close> and \<open>rule_policy/\<close>), \<open>Rule_Wire\<close> (\<open>rule_wire.rs\<close>).
  \<^item> Rules of the bridge itself: \<open>Curated\<close>, \<open>Curated_Props\<close> (\<open>curated/mod.rs\<close>,
    \<open>curated/canonical.rs\<close>), \<open>Blocklists\<close>, \<open>Blocklist_Props\<close> (\<open>blocklists/format.rs\<close>,
    \<open>list_dir.rs\<close>, \<open>materializer.rs\<close>), \<open>Bridge_Commands\<close>, \<open>Bridge_Commands_Props\<close>
    (\<open>profiles/materializer.rs\<close> and the command modules of \<open>daemon_commands/\<close>).
  \<^item> The shipped defaults at run time: \<open>Curated_Store\<close> (\<open>curated/store.rs\<close>, \<open>intent.rs\<close>),
    \<open>Curated_Reconcile\<close>, \<open>Curated_Reconcile_Props\<close> (\<open>reconcile.rs\<close>, \<open>orphans.rs\<close>),
    \<open>Curated_Manager_State\<close>, \<open>Curated_Manager\<close>, \<open>Curated_Worker\<close> (\<open>manager.rs\<close> and its parts
    \<open>manager_*.rs\<close>, \<open>wire.rs\<close>), \<open>Curated_Machine\<close>, \<open>Curated_Machine_Props\<close>,
    \<open>Curated_Consent\<close>, \<open>Curated_Settle\<close>.
  \<^item> Rules files: \<open>Rule_Import\<close>, \<open>Rule_Import_Props\<close> (\<open>rule_io.rs\<close> and \<open>rule_io/\<close>), \<open>Rule_Apply\<close>,
    \<open>Rule_Apply_Props\<close> (\<open>rules_import.rs\<close> and \<open>rules_import/\<close> under \<open>snitchwatch-bridge-cli/src\<close>).
  \<^item> Rule commands of the GUIs: \<open>Rule_Edits\<close>, \<open>Rule_Edits_Props\<close>
    (\<open>translator/rule_notification.rs\<close>; \<open>rule_commands.rs\<close>, \<open>rule_commands/\<close>, \<open>busy.rs\<close> under
    \<open>snitchwatch-bridge-cli/src\<close>).
  \<^item> The rules tab: \<open>Rule_Rows\<close> (\<open>rules/row_store.rs\<close>), \<open>Re2\<close>, \<open>Rule_Match\<close>, \<open>Rule_Match_Props\<close>
    (\<open>rules/simulator.rs\<close> and \<open>rules/simulator/\<close>), \<open>Rule_Shadow\<close>, \<open>Rule_Shadow_Props\<close>
    (\<open>rules/insights/\<close>, \<open>rules/deciding.rs\<close>, the analysis in \<open>rules_model.rs\<close>).
  \<^item> The daemon side: \<open>Daemon_Commands\<close> (\<open>daemon_commands.rs\<close>), \<open>Daemon_Machine\<close>,
    \<open>Daemon_Props\<close>.

  \<^bold>\<open>State and operations.\<close>
  A struct behind a lock is a record, and a method that holds the lock is one step: a
  function from the record and its arguments to the new record and its result. Tasks and
  handlers are not scheduled: machines take their operations in any order. A clock that a
  method reads is an argument; broadcasts, notices and one-shot channels are lists and maps
  of what was sent. Errors are values, a panic is \<open>None\<close>. The names of definitions are the
  source's; where two files use one name, the component's name comes first.

  \<^bold>\<open>What the lemmas show.\<close>
  \<^item> Prompts: every waiting prompt is listed once, undecided, with its own open channel, which
    is settled at most once; an answer has all its effects or none; eviction drops
    only the oldest decided rows; a pause answers exactly the prompts it applies to, and
    applies only as asked for, while a session lasts.
  \<^item> Answers: a remembered rule is bound to its program, its domain scope stays below the
    registrable domain, its name is one question's alone, and it passes the rule policy.
  \<^item> The rule list: its revision tells every change, a GUI that applies the broadcasts shows
    it, temporary rules go exactly when their time is up, staged snapshots are bounded, a
    list adopted again has lost no rule and brought back none but expired ones; hit counts are
    exact while no gap is noted, up to rules forgotten or missing from an adopted list.
  \<^item> Commands: the daemon receives only reviewed commands, each as the check of its kind lets
    it through, a send never panics, a command is settled at most once, the list shown is the current stream's, and what the bridge builds for its
    own rules (blocklists, profiles, shipped defaults) passes its own checks.
  \<^item> Shipped defaults: a pass plans exactly the commands the user's choices call for, sends the
    installs and settles on the same inputs, without repeating what failed; choices saved load back, and plans keep them fit to be saved;
    a rule that may reach any address is sent only under consent that stands and is in the
    file, and consent comes from a confirmed ticket only, in any interleaving of requests,
    passes, saves and answers; a bridge that cannot keep its choices adds nothing.
  \<^item> Rules files: an export within the size limit is accepted back and changes nothing; an import
    starts only from a fresh preview, ends, and accounts for every rule, each checked before it
    is first sent.
  \<^item> Rule commands: what is planned for a GUI is what it asked for, is warranted and passes the
    sender's checks; against a model of the stock daemon made from its documented behaviour,
    the answer to an add, edit, toggle or delete is true of the daemon's memory, a rename leaves
    one of its rules and says which, except that a rejected one may still have applied.
  \<^item> Blocklists: a list blocks exactly the hosts its lines name, without the protected addresses.
  \<^item> The rules tab: a simulated verdict without a caveat is the daemon's, whatever was not
    evaluated, and more input does not change it; a rule flagged as shadowed decides no
    connection and can go without a verdict changing; findings shown are of the list shown.

  \<^bold>\<open>Bounds and termination.\<close>
  Every definition is total; loops are recursion on lists, or on a measure that
  the theory proves to decrease, and no fuel is used. Counters that the source keeps in
  \<open>u64\<close> (revisions, stream and command numbers) are unbounded, which they reach only after
  2^64 operations; the revision of the consents, which wraps in the source, is a 64-bit word, and
  tickets are compared on bytes; arithmetic that can overflow in practice (durations, \<open>u32\<close> counts,
  instants) is written out with its checks.

  \<^bold>\<open>Arguments of the model.\<close>
  SHA-256, the public suffix list, the regular-expression crates, Unicode tables beyond
  ASCII, the encoded length of a protobuf message or a saved file, the fingerprint of a rule,
  the host's accounts, the random bytes of a ticket, what happens during an \<open>await\<close> and the
  tag read from a profile rule's description are arguments of the definitions that use them, with named hypotheses where a
  property relies on them.

  \<^bold>\<open>Not modelled.\<close>
  The gRPC and WebSocket servers, the JSON texts, the files, downloads and SQLite stores,
  the managers of blocklists and profiles, desktop notices and the daemon's supervision are
  I/O around the parts above. The command line, the rest of the desktop shells and the host
  scanner are separate programs. Planned next: the storage and handle of the hit counts, the profile
  matcher, and the handlers of the gRPC service that answer a prompt.
\<close>

end
